(* ===== verification/Prelude.thy ===== *)
theory Prelude
  imports Main "HOL-Library.Word"
begin

section \<open>Shared types, Rust primitives and generic lemmas\<close>

text \<open>
  The types and the standard-library operations every component of the model uses:
  fixed-width integers as words, byte strings, saturating arithmetic, the iterator
  combinators the code calls (\<open>min_by_key\<close> keeps the first minimum, \<open>max_by_key\<close> the last
  maximum, \<open>Vec::remove\<close>, de-duplication by a key), string prefixes, and the interface of
  the random number generator. The generator (crate \<open>fastrand\<close>) is not part of the
  repository: it is a record of operations, a parameter of every definition that draws
  from it, and \<open>rng_ok\<close> states what its documentation promises.
\<close>

named_theorems rust_defs \<open>definitions of modelled standard-library operations\<close>
named_theorems keeps \<open>preservation of component invariants\<close>

type_synonym u8 = "8 word"
type_synonym u32 = "32 word"
type_synonym u64 = "64 word"
type_synonym u256 = "256 word"
type_synonym address = "160 word"
type_synonym bytes = "8 word list"

subsection \<open>Saturating arithmetic\<close>

definition sat_add :: "'a::len word \<Rightarrow> 'a word \<Rightarrow> 'a word" where
  "sat_add a b = (if unat a + unat b < 2 ^ LENGTH('a) then a + b else - 1)"

definition sat_sub :: "'a::len word \<Rightarrow> 'a word \<Rightarrow> 'a word" where
  "sat_sub a b = (if b \<le> a then a - b else 0)"

definition sat_mul :: "'a::len word \<Rightarrow> 'a word \<Rightarrow> 'a word" where
  "sat_mul a b = (if unat a * unat b < 2 ^ LENGTH('a) then a * b else - 1)"

lemma unat_minus_one_word': "unat (- 1 :: 'a::len word) = 2 ^ LENGTH('a) - 1"
  by (simp add: unsigned_minus_1_eq_mask mask_eq_exp_minus_1)

lemma unat_sat_add:
  fixes a b :: "'a::len word"
  shows "unat (sat_add a b) = min (unat a + unat b) (2 ^ LENGTH('a) - 1)"
  by (auto simp: sat_add_def unat_minus_one_word' unat_word_ariths min_def)

lemma unat_sat_mul:
  fixes a b :: "'a::len word"
  shows "unat (sat_mul a b) = min (unat a * unat b) (2 ^ LENGTH('a) - 1)"
proof (cases "unat a * unat b < 2 ^ LENGTH('a)")
  case True
  then show ?thesis by (simp add: sat_mul_def unat_word_ariths)
next
  case False
  then show ?thesis by (simp add: sat_mul_def unat_minus_one_word')
qed

lemma unat_sat_sub:
  fixes a b :: "'a::len word"
  shows "unat (sat_sub a b) = unat a - unat b"
proof (cases "b \<le> a")
  case True
  then show ?thesis by (simp add: sat_sub_def unat_sub)
next
  case False
  then show ?thesis by (simp add: sat_sub_def word_le_nat_alt)
qed

lemma unat_word_less: "unat (w :: 'a::len word) < 2 ^ LENGTH('a)"
  by (rule unsigned_less)

lemma unat_u64_less: "unat (w :: u64) < 2 ^ 64"
  using unat_word_less [of w] by simp

lemma unat_u256_less: "unat (w :: u256) < 2 ^ 256"
  using unat_word_less [of w] by simp

text \<open>The number of significant bits, \<open>bit_len\<close> of the integer types.\<close>

fun nat_bits :: "nat \<Rightarrow> nat" where
  "nat_bits n = (if n = 0 then 0 else Suc (nat_bits (n div 2)))"

declare nat_bits.simps [simp del]

lemma nat_bits_0 [simp]: "nat_bits 0 = 0"
  by (simp add: nat_bits.simps)

lemma nat_bits_pos: "0 < n \<Longrightarrow> nat_bits n = Suc (nat_bits (n div 2))"
  by (simp add: nat_bits.simps)

lemma nat_bits_eq_0 [simp]: "nat_bits n = 0 \<longleftrightarrow> n = 0"
  by (cases "n = 0") (simp_all add: nat_bits_pos)

lemma nat_bits_less: "n < 2 ^ nat_bits n"
proof (induction n rule: less_induct)
  case (less n)
  show ?case
  proof (cases "n = 0")
    case False
    with less.IH [of "n div 2"] have "n div 2 < 2 ^ nat_bits (n div 2)" by simp
    with False show ?thesis by (simp add: nat_bits_pos)
  qed simp
qed

lemma nat_bits_le: "n < 2 ^ k \<Longrightarrow> nat_bits n \<le> k"
proof (induction k arbitrary: n)
  case 0
  then show ?case by simp
next
  case (Suc k)
  show ?case
  proof (cases "n = 0")
    case False
    from Suc.prems have "n div 2 < 2 ^ k" by simp
    then have "nat_bits (n div 2) \<le> k" by (rule Suc.IH)
    with False show ?thesis by (simp add: nat_bits_pos)
  qed simp
qed

lemma nat_bits_mono: "m \<le> n \<Longrightarrow> nat_bits m \<le> nat_bits n"
  using nat_bits_le nat_bits_less le_less_trans by blast

definition bit_len :: "'a::len word \<Rightarrow> nat" where
  "bit_len w = nat_bits (unat w)"

lemma bit_len_le: "bit_len (w :: 'a::len word) \<le> LENGTH('a)"
  unfolding bit_len_def by (rule nat_bits_le) (rule unsigned_less)

lemma bit_len_eq_0 [simp]: "bit_len w = 0 \<longleftrightarrow> w = 0"
  by (simp add: bit_len_def unat_eq_0)

lemma bit_len_mono: "a \<le> b \<Longrightarrow> bit_len a \<le> bit_len b"
  by (simp add: bit_len_def word_le_nat_alt nat_bits_mono)

subsection \<open>Iterators and vectors\<close>

fun min_by_key :: "('a \<Rightarrow> 'k::linorder) \<Rightarrow> 'a list \<Rightarrow> 'a option" where
  "min_by_key f [] = None"
| "min_by_key f (x # xs) =
     (case min_by_key f xs of
        None \<Rightarrow> Some x
      | Some y \<Rightarrow> if f y < f x then Some y else Some x)"

fun max_by_key :: "('a \<Rightarrow> 'k::linorder) \<Rightarrow> 'a list \<Rightarrow> 'a option" where
  "max_by_key f [] = None"
| "max_by_key f (x # xs) =
     (case max_by_key f xs of
        None \<Rightarrow> Some x
      | Some y \<Rightarrow> if f y < f x then Some x else Some y)"

primrec position :: "('a \<Rightarrow> bool) \<Rightarrow> 'a list \<Rightarrow> nat option" where
  "position P [] = None"
| "position P (x # xs) = (if P x then Some 0 else map_option Suc (position P xs))"

lemma min_by_key_None [simp]: "min_by_key f xs = None \<longleftrightarrow> xs = []"
  by (cases xs) (auto split: option.splits)

lemma max_by_key_None [simp]: "max_by_key f xs = None \<longleftrightarrow> xs = []"
  by (cases xs) (auto split: option.splits)

lemma min_by_key_Some:
  "min_by_key f xs = Some x \<Longrightarrow> x \<in> set xs \<and> (\<forall>y \<in> set xs. f x \<le> f y)"
  by (induction xs arbitrary: x) (fastforce split: option.splits if_splits)+

lemma max_by_key_Some:
  "max_by_key f xs = Some x \<Longrightarrow> x \<in> set xs \<and> (\<forall>y \<in> set xs. f y \<le> f x)"
  by (induction xs arbitrary: x) (fastforce split: option.splits if_splits)+

definition remove_at :: "nat \<Rightarrow> 'a list \<Rightarrow> 'a list" where
  "remove_at i xs = take i xs @ drop (Suc i) xs"

lemma length_remove_at: "i < length xs \<Longrightarrow> length (remove_at i xs) = length xs - 1"
  by (simp add: remove_at_def)

lemma set_remove_at_subset: "set (remove_at i xs) \<subseteq> set xs"
  by (auto simp: remove_at_def dest: in_set_takeD in_set_dropD)

lemma in_remove_at: "x \<in> set xs \<Longrightarrow> i < length xs \<Longrightarrow> x \<noteq> xs ! i \<Longrightarrow> x \<in> set (remove_at i xs)"
  by (subst (asm) id_take_nth_drop [of i xs]) (auto simp: remove_at_def)

lemma set_eq_remove_at: "i < length xs \<Longrightarrow> set xs = insert (xs ! i) (set (remove_at i xs))"
  by (subst id_take_nth_drop [of i xs]) (auto simp: remove_at_def)

lemma in_set_enumerate: "(i, x) \<in> set (enumerate 0 xs) \<longleftrightarrow> i < length xs \<and> x = xs ! i"
  by (auto simp: in_set_enumerate_eq)

text \<open>De-duplication by a key, keeping the first element of every key (the
  \<open>HashSet::insert\<close> filter the code uses).\<close>

fun dedup_by :: "('a \<Rightarrow> 'k) \<Rightarrow> 'k set \<Rightarrow> 'a list \<Rightarrow> 'a list" where
  "dedup_by f seen [] = []"
| "dedup_by f seen (x # xs) =
     (if f x \<in> seen then dedup_by f seen xs else x # dedup_by f (insert (f x) seen) xs)"

lemma dedup_by_keys: "f ` set (dedup_by f seen xs) = f ` set xs - seen"
  by (induction xs arbitrary: seen) auto

lemma dedup_by_subset: "set (dedup_by f seen xs) \<subseteq> set xs"
  by (induction xs arbitrary: seen) auto

lemma distinct_dedup_by: "distinct (map f (dedup_by f seen xs))"
proof (induction xs arbitrary: seen)
  case (Cons x xs)
  have "f x \<notin> f ` set (dedup_by f (insert (f x) seen) xs)" by (simp add: dedup_by_keys)
  with Cons show ?case by auto
qed simp

lemma dedup_by_append:
  "dedup_by f seen (xs @ ys) = dedup_by f seen xs @ dedup_by f (seen \<union> f ` set xs) ys"
  by (induction xs arbitrary: seen) (auto simp: insert_absorb)

lemma length_dedup_by: "length (dedup_by f seen xs) \<le> length xs"
  by (induction xs arbitrary: seen) (auto simp: le_SucI)

lemma dedup_by_id: "distinct (map f xs) \<Longrightarrow> f ` set xs \<inter> seen = {} \<Longrightarrow> dedup_by f seen xs = xs"
  by (induction xs arbitrary: seen) auto

lemma set_map_filter: "y \<in> set (List.map_filter f xs) \<longleftrightarrow> (\<exists>x \<in> set xs. f x = Some y)"
  by (force simp: List.map_filter_def)

text \<open>Loops that may stop early: \<open>None\<close> is a panic, \<open>Inl\<close> an error return.\<close>

fun fold_opt :: "('a \<Rightarrow> 's \<Rightarrow> 's option) \<Rightarrow> 'a list \<Rightarrow> 's \<Rightarrow> 's option" where
  "fold_opt f [] s = Some s"
| "fold_opt f (x # xs) s = (case f x s of None \<Rightarrow> None | Some s' \<Rightarrow> fold_opt f xs s')"

fun fold_res :: "('a \<Rightarrow> 's \<Rightarrow> 'e + 's) \<Rightarrow> 'a list \<Rightarrow> 's \<Rightarrow> 'e + 's" where
  "fold_res f [] s = Inr s"
| "fold_res f (x # xs) s = (case f x s of Inl e \<Rightarrow> Inl e | Inr s' \<Rightarrow> fold_res f xs s')"

lemma fold_opt_append:
  "fold_opt f (xs @ ys) s = (case fold_opt f xs s of None \<Rightarrow> None | Some s' \<Rightarrow> fold_opt f ys s')"
  by (induction xs arbitrary: s) (auto split: option.splits)

lemma fold_res_append:
  "fold_res f (xs @ ys) s = (case fold_res f xs s of Inl e \<Rightarrow> Inl e | Inr s' \<Rightarrow> fold_res f ys s')"
  by (induction xs arbitrary: s) (auto split: sum.splits)

lemma fold_opt_invariant:
  assumes "fold_opt f xs s = Some s'" and "I s"
    and "\<And>x t t'. x \<in> set xs \<Longrightarrow> I t \<Longrightarrow> f x t = Some t' \<Longrightarrow> I t'"
  shows "I s'"
  using assms
proof (induction xs arbitrary: s)
  case (Cons x xs)
  from Cons.prems(1) obtain t where t: "f x s = Some t" "fold_opt f xs t = Some s'"
    by (auto split: option.splits)
  have "I t" using Cons.prems(3) [of x s t] Cons.prems(2) t(1) by simp
  with t(2) show ?case by (rule Cons.IH) (use Cons.prems(3) in auto)
qed simp

lemma fold_res_invariant:
  assumes "fold_res f xs s = Inr s'" and "I s"
    and "\<And>x t t'. x \<in> set xs \<Longrightarrow> I t \<Longrightarrow> f x t = Inr t' \<Longrightarrow> I t'"
  shows "I s'"
  using assms
proof (induction xs arbitrary: s)
  case (Cons x xs)
  from Cons.prems(1) obtain t where t: "f x s = Inr t" "fold_res f xs t = Inr s'"
    by (auto split: sum.splits)
  have "I t" using Cons.prems(3) [of x s t] Cons.prems(2) t(1) by simp
  with t(2) show ?case by (rule Cons.IH) (use Cons.prems(3) in auto)
qed simp

subsection \<open>Strings\<close>

definition starts_with :: "'a list \<Rightarrow> 'a list \<Rightarrow> bool" where
  "starts_with s p \<longleftrightarrow> take (length p) s = p"

definition strip_prefix :: "'a list \<Rightarrow> 'a list \<Rightarrow> 'a list option" where
  "strip_prefix p s = (if starts_with s p then Some (drop (length p) s) else None)"

lemma starts_with_append [simp]: "starts_with (p @ s) p"
  by (simp add: starts_with_def)

lemma starts_with_iff: "starts_with s p \<longleftrightarrow> (\<exists>t. s = p @ t)"
  by (auto simp: starts_with_def) (metis append_take_drop_id)

lemma strip_prefix_append [simp]: "strip_prefix p (p @ s) = Some s"
  by (simp add: strip_prefix_def)

lemma strip_prefix_Some: "strip_prefix p s = Some t \<longleftrightarrow> s = p @ t"
  by (auto simp: strip_prefix_def starts_with_def split: if_splits) (metis append_take_drop_id)

lemma strip_prefix_None: "strip_prefix p s = None \<longleftrightarrow> \<not> starts_with s p"
  by (simp add: strip_prefix_def)

text \<open>\<open>str::split_once\<close> on a character.\<close>

fun split_once :: "'a \<Rightarrow> 'a list \<Rightarrow> ('a list \<times> 'a list) option" where
  "split_once c [] = None"
| "split_once c (x # xs) =
     (if x = c then Some ([], xs) else map_option (\<lambda>(a, b). (x # a, b)) (split_once c xs))"

lemma split_once_Some: "split_once c s = Some (a, b) \<Longrightarrow> s = a @ c # b \<and> c \<notin> set a"
  by (induction s arbitrary: a b) (auto split: if_splits)

lemma split_once_None: "split_once c s = None \<longleftrightarrow> c \<notin> set s"
  by (induction s) auto

lemma split_once_append [simp]: "c \<notin> set a \<Longrightarrow> split_once c (a @ c # b) = Some (a, b)"
  by (induction a) auto

text \<open>\<open>str::replace\<close> with a non-empty pattern: every non-overlapping occurrence, from the
  left.\<close>

function str_replace :: "'a list \<Rightarrow> 'a list \<Rightarrow> 'a list \<Rightarrow> 'a list" where
  "str_replace pat rep [] = []"
| "str_replace pat rep (c # cs) =
     (if pat \<noteq> [] \<and> starts_with (c # cs) pat
      then rep @ str_replace pat rep (drop (length pat) (c # cs))
      else c # str_replace pat rep cs)"
  by pat_completeness auto
termination
  by (relation "measure (\<lambda>(pat, rep, s). length s)") (auto simp: Suc_le_eq)

subsection \<open>The random number generator\<close>

text \<open>
  \<open>rng_range lo hi\<close> draws from a non-empty half-open range (\<open>u64(..n)\<close>, \<open>usize(lo..=hi)\<close>
  and their kin), \<open>rng_bool\<close> a boolean, \<open>rng_fill n\<close> fills \<open>n\<close> bytes, the last two pick a character. An empty range
  panics: the callers that can meet one model the panic.
\<close>

record 'r rng_ops =
  rng_range :: "nat \<Rightarrow> nat \<Rightarrow> 'r \<Rightarrow> nat \<times> 'r"
  rng_bool :: "'r \<Rightarrow> bool \<times> 'r"
  rng_fill :: "nat \<Rightarrow> 'r \<Rightarrow> bytes \<times> 'r"
  rng_alphabetic :: "'r \<Rightarrow> char \<times> 'r"
  rng_alphanumeric :: "'r \<Rightarrow> char \<times> 'r"

definition rng_ok :: "'r rng_ops \<Rightarrow> bool" where
  "rng_ok R \<longleftrightarrow>
     (\<forall>lo hi r. lo < hi \<longrightarrow> lo \<le> fst (rng_range R lo hi r) \<and> fst (rng_range R lo hi r) < hi)
   \<and> (\<forall>n r. length (fst (rng_fill R n r)) = n)"

lemma rng_okD: "rng_ok R \<Longrightarrow> rng_range R lo hi r = (x, r') \<Longrightarrow> lo < hi \<Longrightarrow> lo \<le> x \<and> x < hi"
  by (metis fst_conv rng_ok_def)

lemma rng_ok_fill: "rng_ok R \<Longrightarrow> rng_fill R n r = (bs, r') \<Longrightarrow> length bs = n"
  by (metis fst_conv rng_ok_def)

text \<open>A concrete generator for the witnesses: a counter reduced into the range.\<close>

definition counter_rng :: "nat rng_ops" where
  "counter_rng = \<lparr>rng_range = (\<lambda>lo hi r. (lo + r mod (hi - lo), Suc r)),
                  rng_bool = (\<lambda>r. (even r, Suc r)),
                  rng_fill = (\<lambda>n r. (map (\<lambda>i. of_nat (r + i)) [0..<n], Suc r)),
                  rng_alphabetic = (\<lambda>r. (CHR ''a'', Suc r)),
                  rng_alphanumeric = (\<lambda>r. (CHR ''a'', Suc r))\<rparr>"

lemma counter_rng_ok: "rng_ok counter_rng"
  unfolding rng_ok_def counter_rng_def
proof (intro conjI allI impI)
  fix lo hi r :: nat
  assume "lo < hi"
  then have "r mod (hi - lo) < hi - lo" by simp
  with \<open>lo < hi\<close> have "lo + r mod (hi - lo) < hi" by arith
  then show "fst (rng_range \<lparr>rng_range = (\<lambda>lo hi r. (lo + r mod (hi - lo), Suc r)),
                  rng_bool = (\<lambda>r. (even r, Suc r)),
                  rng_fill = (\<lambda>n r. (map (\<lambda>i. of_nat (r + i)) [0..<n], Suc r)),
                  rng_alphabetic = (\<lambda>r. (CHR ''a'', Suc r)),
                  rng_alphanumeric = (\<lambda>r. (CHR ''a'', Suc r))\<rparr> lo hi r) < hi"
    by simp
qed simp_all

text \<open>A concrete byte coding for the witnesses: a byte is a mark and a character.\<close>

fun demo_hex_decode :: "string \<Rightarrow> bytes option" where
  "demo_hex_decode [] = Some []"
| "demo_hex_decode [m] = None"
| "demo_hex_decode (m # c # cs) = map_option (Cons (of_nat (of_char c))) (demo_hex_decode cs)"

definition demo_hex_encode :: "bytes \<Rightarrow> string" where
  "demo_hex_encode bs = concat (map (\<lambda>b. [CHR ''b'', char_of (unat b)]) bs)"

lemma demo_hex: "demo_hex_decode (demo_hex_encode bs) = Some bs"
proof (induction bs)
  case (Cons b bs)
  have "unat b < 256" using unat_word_less [of b] by simp
  then have "(of_nat (of_char (char_of (unat b))) :: u8) = b" by simp
  with Cons show ?case by (simp add: demo_hex_encode_def)
qed (simp add: demo_hex_encode_def)

lemma demo_hex_prefix: "\<not> starts_with (demo_hex_encode bs) ''0x''"
  by (cases bs) (simp_all add: demo_hex_encode_def starts_with_def)

end
