(* ===== verification/Tx_Result.thy ===== *)
theory Tx_Result
  imports Prelude
begin

section \<open>Transaction results, broken-invariant reports and RPC counters\<close>

text \<open>
  \<open>src/src/evm/result.rs\<close>, \<open>src/src/evm/chain/broken_invariant.rs\<close> and the \<open>RpcStats\<close>
  counters of \<open>src/src/evm/forkdb/backend.rs\<close>. The execution result is the one of the
  \<open>revm\<close> crate, with the constructors the code matches on. Solidity error decoding
  (macro-generated by \<open>alloy_sol_types\<close>) is the record of functions \<open>sol_abi\<close>, a
  parameter. A \<open>Duration\<close> is its number of nanoseconds.
\<close>

subsection \<open>RPC counters\<close>

record rpc_stats =
  rs_hits :: u64
  rs_misses :: u64
  rs_wait :: nat

definition rpc_zero :: rpc_stats where
  "rpc_zero = \<lparr>rs_hits = 0, rs_misses = 0, rs_wait = 0\<rparr>"

definition duration_max :: nat where
  "duration_max = (2 ^ 64 - 1) * 10 ^ 9 + 999999999"

definition rpc_saturating_add :: "rpc_stats \<Rightarrow> rpc_stats \<Rightarrow> rpc_stats" where
  "rpc_saturating_add a b =
     \<lparr>rs_hits = sat_add (rs_hits a) (rs_hits b),
      rs_misses = sat_add (rs_misses a) (rs_misses b),
      rs_wait = min (rs_wait a + rs_wait b) duration_max\<rparr>"

definition rpc_saturating_sub :: "rpc_stats \<Rightarrow> rpc_stats \<Rightarrow> rpc_stats" where
  "rpc_saturating_sub a b =
     \<lparr>rs_hits = sat_sub (rs_hits a) (rs_hits b),
      rs_misses = sat_sub (rs_misses a) (rs_misses b),
      rs_wait = rs_wait a - rs_wait b\<rparr>"

subsection \<open>Solidity error decoding (parameter)\<close>

record sol_abi =
  bi_selector :: bytes
  bi_decode :: "bytes \<Rightarrow> (string \<times> string) option"
  error_selector :: bytes
  error_decode :: "bytes \<Rightarrow> string option"
  panic_selector :: bytes
  panic_decode :: "bytes \<Rightarrow> u256 option"

record bi_report =
  rep_id :: string
  rep_description :: string

definition bi_from_revert :: "sol_abi \<Rightarrow> bytes \<Rightarrow> bi_report option" where
  "bi_from_revert A output =
     (if length output < 4 \<or> take 4 output \<noteq> bi_selector A then None
      else case bi_decode A output of
        None \<Rightarrow> None
      | Some (bid, description) \<Rightarrow>
          if bid = [] then None
          else Some \<lparr>rep_id = bid, rep_description = description\<rparr>)"

subsection \<open>Execution results\<close>

record evm_log =
  log_address :: address
  log_topics :: "u256 list"
  log_data :: bytes

datatype exec_out = OutCall bytes | OutCreate bytes "address option"

datatype exec_result =
    ExSuccess u64 "evm_log list" exec_out
  | ExRevert u64 "evm_log list" bytes
  | ExHalt u64 "evm_log list"

record tx_result =
  tr_success :: bool
  tr_gas_used :: u64
  tr_output :: "bytes option"
  tr_logs :: "evm_log list"
  tr_created :: "address option"
  tr_elapsed :: nat
  tr_rpc :: rpc_stats

fun tx_result_from :: "exec_result \<Rightarrow> tx_result" where
  "tx_result_from (ExSuccess gas logs out) =
     (let (o', addr) = (case out of OutCall b \<Rightarrow> (Some b, None)
                                  | OutCreate b addr \<Rightarrow> (Some b, addr))
      in \<lparr>tr_success = True, tr_gas_used = gas, tr_output = o', tr_logs = logs,
          tr_created = addr, tr_elapsed = 0, tr_rpc = rpc_zero\<rparr>)"
| "tx_result_from (ExRevert gas logs out) =
     \<lparr>tr_success = False, tr_gas_used = gas, tr_output = Some out, tr_logs = logs,
      tr_created = None, tr_elapsed = 0, tr_rpc = rpc_zero\<rparr>"
| "tx_result_from (ExHalt gas logs) =
     \<lparr>tr_success = False, tr_gas_used = gas, tr_output = None, tr_logs = logs,
      tr_created = None, tr_elapsed = 0, tr_rpc = rpc_zero\<rparr>"

definition broken_invariant :: "sol_abi \<Rightarrow> tx_result \<Rightarrow> bi_report option" where
  "broken_invariant A r =
     (if tr_success r then None
      else case tr_output r of None \<Rightarrow> None | Some output \<Rightarrow> bi_from_revert A output)"

lemma broken_invariant_Some:
  "broken_invariant A r = Some rep \<Longrightarrow>
     \<not> tr_success r \<and> rep_id rep \<noteq> [] \<and>
     (\<exists>out. tr_output r = Some out \<and> take 4 out = bi_selector A \<and> 4 \<le> length out)"
  by (auto simp: broken_invariant_def bi_from_revert_def split: if_splits option.splits)

text \<open>A concrete ABI for the witnesses: a report carries its id as the byte after the
  selector, a panic its code as the last byte of its 36.\<close>

definition demo_abi :: sol_abi where
  "demo_abi =
     \<lparr>bi_selector = [0xb1, 0, 0, 1],
      bi_decode = (\<lambda>out. if length out = 5 then Some ([char_of (unat (out ! 4))], []) else None),
      error_selector = [0x08, 0xc3, 0x79, 0xa0],
      error_decode = (\<lambda>out. if take 4 out = [0x08, 0xc3, 0x79, 0xa0] then Some [] else None),
      panic_selector = [0x4e, 0x48, 0x7b, 0x71],
      panic_decode = (\<lambda>out. if take 4 out = [0x4e, 0x48, 0x7b, 0x71] \<and> length out = 36
                            then Some (ucast (out ! 35)) else None)\<rparr>"

definition mk_result :: "bool \<Rightarrow> u64 \<Rightarrow> bytes option \<Rightarrow> tx_result" where
  "mk_result ok gas out =
     \<lparr>tr_success = ok, tr_gas_used = gas, tr_output = out, tr_logs = [], tr_created = None,
      tr_elapsed = 0, tr_rpc = rpc_zero\<rparr>"

end
