(* ===== verification/Sol_Values.thy ===== *)
theory Sol_Values
  imports Prelude
begin

section \<open>Solidity types and values\<close>

text \<open>
  The data model of the ABI crates (\<open>DynSolType\<close>, \<open>DynSolValue\<close>, \<open>Function\<close> of
  \<open>alloy_dyn_abi\<close> and \<open>alloy_json_abi\<close>) as far as the program builds and inspects it. A
  \<open>Function\<close> is its observations: name, signature, selector, mutability, and for every
  input the type its ABI parameter resolves to (\<open>None\<close> when resolution fails). An \<open>I256\<close>
  is its raw two's-complement word. The ABI encoder and decoder are parameters.

  \<open>fits\<close> says that a value can be encoded for a type without an ABI range error: the
  shapes agree, an unsigned integer is below \<open>2^bits\<close>, a signed one lies in
  \<open>[-2^(bits-1), 2^(bits-1))\<close>, fixed bytes and function references have their length.
\<close>

datatype sol_type =
    TBool
  | TInt nat
  | TUint nat
  | TFixedBytes nat
  | TAddress
  | TFunction
  | TBytes
  | TString
  | TArray sol_type
  | TFixedArray sol_type nat
  | TTuple "sol_type list"

datatype sol_value =
    VBool bool
  | VInt u256 nat
  | VUint u256 nat
  | VFixedBytes bytes nat
  | VAddress address
  | VFunction bytes
  | VBytes bytes
  | VString string
  | VArray "sol_value list"
  | VFixedArray "sol_value list"
  | VTuple "sol_value list"

datatype mutability = Pure | View | NonPayable | Payable

record abi_fn =
  fn_name :: string
  fn_inputs :: "sol_type option list"
  fn_outputs :: "string list"
  fn_signature :: string
  fn_selector :: bytes
  fn_mutability :: mutability

definition uint_fits :: "nat \<Rightarrow> u256 \<Rightarrow> bool" where
  "uint_fits bits v \<longleftrightarrow> unat v < 2 ^ bits"

definition int_fits :: "nat \<Rightarrow> u256 \<Rightarrow> bool" where
  "int_fits bits v \<longleftrightarrow> - (2 ^ (bits - 1)) \<le> sint v \<and> sint v < 2 ^ (bits - 1)"

fun fits :: "sol_type \<Rightarrow> sol_value \<Rightarrow> bool" where
  "fits TBool v = (case v of VBool b \<Rightarrow> True | _ \<Rightarrow> False)"
| "fits (TInt bits) v = (case v of VInt x w \<Rightarrow> w = bits \<and> int_fits bits x | _ \<Rightarrow> False)"
| "fits (TUint bits) v = (case v of VUint x w \<Rightarrow> w = bits \<and> uint_fits bits x | _ \<Rightarrow> False)"
| "fits (TFixedBytes n) v = (case v of VFixedBytes bs m \<Rightarrow> m = n \<and> length bs = 32 | _ \<Rightarrow> False)"
| "fits TAddress v = (case v of VAddress a \<Rightarrow> True | _ \<Rightarrow> False)"
| "fits TFunction v = (case v of VFunction bs \<Rightarrow> length bs = 24 | _ \<Rightarrow> False)"
| "fits TBytes v = (case v of VBytes bs \<Rightarrow> True | _ \<Rightarrow> False)"
| "fits TString v = (case v of VString s \<Rightarrow> True | _ \<Rightarrow> False)"
| "fits (TArray t) v = (case v of VArray vs \<Rightarrow> list_all (fits t) vs | _ \<Rightarrow> False)"
| "fits (TFixedArray t n) v =
     (case v of VFixedArray vs \<Rightarrow> length vs = n \<and> list_all (fits t) vs | _ \<Rightarrow> False)"
| "fits (TTuple ts) v = (case v of VTuple vs \<Rightarrow> list_all2 fits ts vs | _ \<Rightarrow> False)"

text \<open>The integer widths Solidity has.\<close>

fun wf_type :: "sol_type \<Rightarrow> bool" where
  "wf_type (TInt bits) = (0 < bits \<and> bits \<le> 256)"
| "wf_type (TUint bits) = (0 < bits \<and> bits \<le> 256)"
| "wf_type (TFixedBytes n) = (0 < n \<and> n \<le> 32)"
| "wf_type (TArray t) = wf_type t"
| "wf_type (TFixedArray t n) = wf_type t"
| "wf_type (TTuple ts) = list_all wf_type ts"
| "wf_type _ = True"

record call =
  call_fn :: abi_fn
  call_args :: sol_value

type_synonym seq_calls = "call list"

text \<open>A concrete nullary call for the witnesses, told apart by its selector byte.\<close>

definition demo_fn :: "u8 \<Rightarrow> abi_fn" where
  "demo_fn b =
     \<lparr>fn_name = ''poke'', fn_inputs = [], fn_outputs = [], fn_signature = ''poke()'',
      fn_selector = [b, 0, 0, 0], fn_mutability = NonPayable\<rparr>"

definition demo_call :: "u8 \<Rightarrow> call" where
  "demo_call b = \<lparr>call_fn = demo_fn b, call_args = VTuple []\<rparr>"

end
