(* ===== verification/Max_Value.thy ===== *)
theory Max_Value
  imports Tx_Result Sol_Values "HOL-Library.Product_Lexorder"
begin

section \<open>Measured values and signed deltas of the max mode\<close>

text \<open>
  \<open>src/src/maxer/value.rs\<close> and \<open>src/src/maxer/delta.rs\<close>. A \<open>Value\<close> is its \<open>uint256\<close>; its
  derived order is the unsigned one. A \<open>Delta\<close> is a sign and a magnitude; \<open>impl Ord for
  Delta\<close> is the instance of \<open>linorder\<close> below. \<open>delta_int\<close> reads a delta as the signed
  integer it stands for, and the lemmas show that construction, order and activity agree
  with that reading.
\<close>

type_synonym max_value = u256

datatype value_error = Value_Reverted | Value_NoOutput | Value_NotUint256

definition value_decode :: "(bytes \<Rightarrow> sol_value option) \<Rightarrow> tx_result \<Rightarrow> value_error + max_value" where
  "value_decode abi_uint256 r =
     (if \<not> tr_success r then Inl Value_Reverted
      else case tr_output r of
        None \<Rightarrow> Inl Value_NoOutput
      | Some output \<Rightarrow>
          (case abi_uint256 output of
             None \<Rightarrow> Inl Value_NotUint256
           | Some (VUint v w) \<Rightarrow> if w = 256 then Inr v else Inl Value_NotUint256
           | Some _ \<Rightarrow> Inl Value_NotUint256))"

subsection \<open>Deltas\<close>

datatype delta = Delta (d_negative: bool) (d_magnitude: u256)

definition delta_new :: "bool \<Rightarrow> u256 \<Rightarrow> delta" where
  "delta_new negative magnitude =
     (if magnitude = 0 then Delta False magnitude else Delta negative magnitude)"

definition delta_between :: "max_value \<Rightarrow> max_value \<Rightarrow> delta" where
  "delta_between before after =
     (if before \<le> after then delta_new False (after - before)
      else delta_new True (before - after))"

definition delta_zero :: delta where
  "delta_zero = delta_new False 0"

definition delta_is_zero :: "delta \<Rightarrow> bool" where
  "delta_is_zero d \<longleftrightarrow> d_magnitude d = 0"

definition delta_is_negative :: "delta \<Rightarrow> bool" where
  "delta_is_negative d \<longleftrightarrow> d_negative d"

definition delta_is_positive :: "delta \<Rightarrow> bool" where
  "delta_is_positive d \<longleftrightarrow> \<not> d_negative d \<and> d_magnitude d \<noteq> 0"

definition delta_activity :: "delta \<Rightarrow> u64" where
  "delta_activity d =
     (if delta_is_zero d then 0
      else sat_mul (sat_add (of_nat (bit_len (d_magnitude d))) 1) 8)"

text \<open>\<open>impl Ord for Delta\<close>: the four sign cases of \<open>cmp\<close>, as the strict and weak order.\<close>

fun delta_less :: "delta \<Rightarrow> delta \<Rightarrow> bool" where
  "delta_less (Delta n1 m1) (Delta n2 m2) =
     (case (n1, n2) of
        (True, False) \<Rightarrow> True
      | (False, True) \<Rightarrow> False
      | (True, True) \<Rightarrow> m2 < m1
      | (False, False) \<Rightarrow> m1 < m2)"

instantiation delta :: linorder
begin

definition less_delta_def: "(x :: delta) < y \<longleftrightarrow> delta_less x y"

definition less_eq_delta_def: "(x :: delta) \<le> y \<longleftrightarrow> x = y \<or> delta_less x y"

instance
proof
  fix x y z :: delta
  show "(x < y) = (x \<le> y \<and> \<not> y \<le> x)"
    by (cases x; cases y) (auto simp: less_delta_def less_eq_delta_def split: bool.splits)
  show "x \<le> x"
    by (simp add: less_eq_delta_def)
  show "x \<le> y \<Longrightarrow> y \<le> z \<Longrightarrow> x \<le> z"
    by (cases x; cases y; cases z) (auto simp: less_eq_delta_def split: bool.splits if_splits)
  show "x \<le> y \<Longrightarrow> y \<le> x \<Longrightarrow> x = y"
    by (cases x; cases y) (auto simp: less_eq_delta_def split: bool.splits)
  show "x \<le> y \<or> y \<le> x"
    by (cases x; cases y) (auto simp: less_eq_delta_def split: bool.splits)
qed

end

subsection \<open>Deltas as signed integers\<close>

definition delta_int :: "delta \<Rightarrow> int" where
  "delta_int d = (if d_negative d then - uint (d_magnitude d) else uint (d_magnitude d))"

definition delta_wf :: "delta \<Rightarrow> bool" where
  "delta_wf d \<longleftrightarrow> (d_negative d \<longrightarrow> d_magnitude d \<noteq> 0)"

lemma delta_wf_new [keeps]: "delta_wf (delta_new n m)"
  by (simp add: delta_wf_def delta_new_def)

lemma delta_wf_between [keeps]: "delta_wf (delta_between a b)"
  by (simp add: delta_between_def delta_wf_new)

lemma uint_pos: "0 < uint w \<longleftrightarrow> w \<noteq> 0"
  using uint_0_iff [of w] uint_ge_0 [of w] by linarith

lemma uint_sub_le: "b \<le> a \<Longrightarrow> uint (a - b) = uint a - uint b"
  by (rule uint_sub_lem [THEN iffD1]) (simp add: word_le_def)

lemma uint_neg_less: "- uint a < uint b \<longleftrightarrow> a \<noteq> 0 \<or> b \<noteq> 0"
  using uint_pos [of a] uint_pos [of b] uint_ge_0 [of a] uint_ge_0 [of b] by (auto simp: not_less)

lemma uint_less_neg: "\<not> uint a < - uint b"
  using uint_ge_0 [of a] uint_ge_0 [of b] by linarith

lemma delta_int_between: "delta_int (delta_between a b) = uint b - uint a"
proof (cases "a \<le> b")
  case True
  then show ?thesis
    by (auto simp: delta_between_def delta_new_def delta_int_def uint_sub_le)
next
  case False
  then have "b \<le> a" and "a \<noteq> b" by auto
  then show ?thesis
    using False by (simp add: delta_between_def delta_new_def delta_int_def uint_sub_le)
qed

lemma delta_less_int: "delta_wf x \<Longrightarrow> delta_wf y \<Longrightarrow> x < y \<longleftrightarrow> delta_int x < delta_int y"
  by (cases x; cases y)
    (auto simp: less_delta_def delta_int_def delta_wf_def word_less_def uint_neg_less uint_less_neg
      split: bool.splits)

lemma delta_int_inj: "delta_wf x \<Longrightarrow> delta_wf y \<Longrightarrow> delta_int x = delta_int y \<Longrightarrow> x = y"
  by (metis delta_less_int linorder_neq_iff)

lemma delta_sign_int:
  "delta_wf d \<Longrightarrow> delta_is_negative d \<longleftrightarrow> delta_int d < 0"
  "delta_wf d \<Longrightarrow> delta_is_positive d \<longleftrightarrow> 0 < delta_int d"
  "delta_is_zero d \<longleftrightarrow> delta_int d = 0"
  using uint_pos [of "d_magnitude d"] uint_ge_0 [of "d_magnitude d"]
  by (auto simp: delta_is_negative_def delta_is_positive_def delta_is_zero_def delta_int_def
      delta_wf_def)

lemma unat_delta_activity:
  "unat (delta_activity d) =
     (if delta_is_zero d then 0 else 8 * (bit_len (d_magnitude d) + 1))"
proof -
  have "bit_len (d_magnitude d) \<le> 256" using bit_len_le [of "d_magnitude d"] by simp
  moreover from this have "unat (of_nat (bit_len (d_magnitude d)) :: u64) = bit_len (d_magnitude d)"
    by (simp add: unat_of_nat)
  ultimately show ?thesis
    by (simp add: delta_activity_def unat_sat_mul unat_sat_add min_def)
qed

text \<open>
  The order of deltas is the order of the signed value changes. For any four measured
  values, comparing the two deltas with the code's \<open>Ord\<close> instance gives exactly the
  comparison of \<open>after - before\<close> as integers, and two deltas are equal exactly when the
  changes are: the sign-magnitude pair never over- or underflows and has one zero.
\<close>

theorem delta_order_is_change_order:
  "(delta_between a b < delta_between c d \<longleftrightarrow>
      uint b - uint a < uint d - uint c)
   \<and> (delta_between a b = delta_between c d \<longleftrightarrow>
      uint b - uint a = uint d - uint c)"
  by (metis delta_int_between delta_int_inj delta_less_int delta_wf_between)

text \<open>
  The sampling activity of a delta is zero exactly for an unchanged value, never
  saturates (it is at most 2056), and grows with the size of the change.
\<close>

theorem delta_activity_bounds:
  "(delta_activity (delta_between a b) = 0 \<longleftrightarrow> a = b)
   \<and> unat (delta_activity (delta_between a b)) \<le> 2056
   \<and> (\<bar>uint b - uint a\<bar> \<le> \<bar>uint d - uint c\<bar> \<longrightarrow>
      delta_activity (delta_between a b) \<le> delta_activity (delta_between c d))"
proof -
  have abs: "\<bar>delta_int x\<bar> = uint (d_magnitude x)" for x
    by (simp add: delta_int_def)
  have zero: "delta_is_zero (delta_between a b) \<longleftrightarrow> a = b" for a b
    by (auto simp: delta_sign_int(3) delta_int_between word_uint_eq_iff)
  have bound: "bit_len (d_magnitude x) \<le> 256" for x
    using bit_len_le [of "d_magnitude x"] by simp
  have pos: "delta_activity x = 0 \<longleftrightarrow> unat (delta_activity x) = 0" for x
    by (simp add: unat_eq_0)
  have mono: "delta_activity x \<le> delta_activity y" if "\<bar>delta_int x\<bar> \<le> \<bar>delta_int y\<bar>" for x y
  proof -
    from that have le: "d_magnitude x \<le> d_magnitude y" by (simp add: abs word_le_def)
    then have "bit_len (d_magnitude x) \<le> bit_len (d_magnitude y)" by (rule bit_len_mono)
    moreover from le have "d_magnitude y = 0 \<Longrightarrow> d_magnitude x = 0" by simp
    ultimately show ?thesis
      by (auto simp: word_le_nat_alt unat_delta_activity delta_is_zero_def)
  qed
  show ?thesis
    using bound [of "delta_between a b"] mono [of "delta_between a b" "delta_between c d"]
    by (auto simp: pos unat_delta_activity zero delta_int_between)
qed

theorem delta_activity_bounds_witness:
  "delta_activity (delta_between 5008 923) \<le> delta_activity (delta_between 923 (9999 :: u256))"
proof -
  have "\<bar>uint (923 :: u256) - uint (5008 :: u256)\<bar>
        \<le> \<bar>uint (9999 :: u256) - uint (923 :: u256)\<bar>" by simp
  then show ?thesis using delta_activity_bounds [of 5008 923 9999 923] by blast
qed

end
