(* ===== verification/Max_Records.thy ===== *)
theory Max_Records
  imports Max_Value
begin

section \<open>Per-class minimum and maximum delta records\<close>

text \<open>
  \<open>src/src/maxer/records.rs\<close>: the campaign-wide map from a class (the selectors of the
  calls before, and of the call itself) to the extreme deltas seen for it. \<open>observe\<close>
  returns the novelty flags together with the updated map; \<open>observe_all\<close> is the sequence
  of observations of a campaign. \<open>class_deltas\<close> is the abstract view: the non-zero deltas
  observed for a class so far.
\<close>

record observation =
  new_record_min :: bool
  new_record_max :: bool
  recovery :: bool

definition observation_default :: observation where
  "observation_default = \<lparr>new_record_min = False, new_record_max = False, recovery = False\<rparr>"

definition obs_interesting :: "observation \<Rightarrow> bool" where
  "obs_interesting o' \<longleftrightarrow> new_record_min o' \<or> new_record_max o' \<or> recovery o'"

record rec_class =
  rc_prefix :: "bytes list"
  rc_handler :: bytes

record class_record =
  cr_min :: delta
  cr_max :: delta

type_synonym delta_records = "rec_class \<rightharpoonup> class_record"

definition call_selector :: "call \<Rightarrow> bytes" where
  "call_selector c = fn_selector (call_fn c)"

definition class_of :: "seq_calls \<Rightarrow> call \<Rightarrow> rec_class" where
  "class_of pre handler = \<lparr>rc_prefix = map call_selector pre, rc_handler = call_selector handler\<rparr>"

definition observe ::
  "seq_calls \<Rightarrow> call \<Rightarrow> delta \<Rightarrow> bool \<Rightarrow> delta_records \<Rightarrow> observation \<times> delta_records" where
  "observe pre handler d below_baseline records =
     (if delta_is_zero d then (observation_default, records)
      else
        let recov = below_baseline \<and> delta_is_positive d;
            cls = class_of pre handler
        in case records cls of
             None \<Rightarrow>
               (\<lparr>new_record_min = delta_is_negative d, new_record_max = delta_is_positive d,
                 recovery = recov\<rparr>,
                records(cls \<mapsto> \<lparr>cr_min = d, cr_max = d\<rparr>))
           | Some r \<Rightarrow>
               (let r1 = (if d < cr_min r then r\<lparr>cr_min := d\<rparr> else r);
                    r2 = (if cr_max r1 < d then r1\<lparr>cr_max := d\<rparr> else r1)
                in (\<lparr>new_record_min = delta_is_negative d \<and> d < cr_min r,
                     new_record_max = delta_is_positive d \<and> cr_max r < d,
                     recovery = recov\<rparr>,
                    records(cls \<mapsto> r2))))"

text \<open>The observations of a campaign, in the order the records see them.\<close>

type_synonym observed = "seq_calls \<times> call \<times> delta \<times> bool"

fun observe_all :: "observed list \<Rightarrow> delta_records \<Rightarrow> delta_records" where
  "observe_all [] records = records"
| "observe_all ((pre, handler, d, below) # os) records =
     observe_all os (snd (observe pre handler d below records))"

definition class_deltas :: "rec_class \<Rightarrow> observed list \<Rightarrow> delta set" where
  "class_deltas cls os =
     {d. \<exists>pre handler below. (pre, handler, d, below) \<in> set os \<and>
         class_of pre handler = cls \<and> \<not> delta_is_zero d}"

text \<open>The abstract record of a set of deltas: nothing, or its two extremes.\<close>

definition extremes :: "delta set \<Rightarrow> class_record option" where
  "extremes D = (if D = {} then None else Some \<lparr>cr_min = Min D, cr_max = Max D\<rparr>)"

lemma class_deltas_Nil [simp]: "class_deltas cls [] = {}"
  by (simp add: class_deltas_def)

lemma class_deltas_snoc:
  "class_deltas cls (os @ [(pre, handler, d, below)]) =
     (if class_of pre handler = cls \<and> \<not> delta_is_zero d then insert d (class_deltas cls os)
      else class_deltas cls os)"
  by (auto simp: class_deltas_def)

lemma finite_class_deltas [simp]: "finite (class_deltas cls os)"
proof -
  have "class_deltas cls os \<subseteq> (\<lambda>(pre, handler, d, below). d) ` set os"
    by (force simp: class_deltas_def)
  then show ?thesis by (rule finite_subset) simp
qed

lemma extremes_insert:
  assumes "finite D"
  shows "extremes (insert d D) =
     (case extremes D of
        None \<Rightarrow> Some \<lparr>cr_min = d, cr_max = d\<rparr>
      | Some r \<Rightarrow> Some \<lparr>cr_min = min d (cr_min r), cr_max = max d (cr_max r)\<rparr>)"
  using assms by (simp add: extremes_def)

lemma observe_all_append:
  "observe_all (os @ ps) records = observe_all ps (observe_all os records)"
  by (induction os records rule: observe_all.induct) auto

lemma observe_snd:
  "snd (observe pre handler d below records) =
     (if delta_is_zero d then records
      else records(class_of pre handler \<mapsto>
        (case records (class_of pre handler) of
           None \<Rightarrow> \<lparr>cr_min = d, cr_max = d\<rparr>
         | Some r \<Rightarrow> r\<lparr>cr_min := min d (cr_min r), cr_max := max d (cr_max r)\<rparr>)))"
  by (auto simp: observe_def Let_def min_def max_def split: option.splits)

lemma observe_all_extremes:
  "observe_all os Map.empty cls = extremes (class_deltas cls os)"
proof (induction os rule: rev_induct)
  case Nil
  then show ?case by (simp add: extremes_def)
next
  case (snoc x os)
  obtain pre handler d below where x: "x = (pre, handler, d, below)" by (cases x) auto
  show ?case
    using snoc
    by (auto simp: x observe_all_append observe_snd class_deltas_snoc extremes_insert
        split: option.splits)
qed

text \<open>
  After any campaign the stored record of every class is exactly the pair of extremes
  of the non-zero deltas observed for it, and a class without such a delta has no record:
  \<open>observe\<close> refines the abstract function from the observed deltas to their extremes.
\<close>

theorem records_are_extremes:
  "observe_all os Map.empty cls = extremes (class_deltas cls os)"
  by (rule observe_all_extremes)

lemma observe_after:
  "fst (observe pre handler d below (observe_all os Map.empty)) =
     (if delta_is_zero d then observation_default
      else \<lparr>new_record_min =
              (delta_is_negative d \<and> (\<forall>e \<in> class_deltas (class_of pre handler) os. d < e)),
            new_record_max =
              (delta_is_positive d \<and> (\<forall>e \<in> class_deltas (class_of pre handler) os. e < d)),
            recovery = (below \<and> delta_is_positive d)\<rparr>)"
  by (auto simp: observe_def Let_def observe_all_extremes extremes_def)

text \<open>
  Novelty is judged against the whole history of the class. After any campaign, a
  non-zero delta is reported as a new minimum exactly when it is negative and smaller than
  every delta seen for its class, as a new maximum exactly when it is positive and larger
  than all of them, and as a recovery exactly when it is positive and starts below the
  baseline; a zero delta reports nothing and leaves the records as they were.
\<close>

theorem observe_novelty:
  "fst (observe pre handler d below (observe_all os Map.empty)) =
     (if delta_is_zero d then observation_default
      else \<lparr>new_record_min =
              (delta_is_negative d \<and> (\<forall>e \<in> class_deltas (class_of pre handler) os. d < e)),
            new_record_max =
              (delta_is_positive d \<and> (\<forall>e \<in> class_deltas (class_of pre handler) os. e < d)),
            recovery = (below \<and> delta_is_positive d)\<rparr>)
   \<and> (delta_is_zero d \<longrightarrow>
        snd (observe pre handler d below (observe_all os Map.empty)) = observe_all os Map.empty)"
  using observe_after [of pre handler d below os] by (simp add: observe_snd)

theorem observe_novelty_witness:
  "new_record_max (fst (observe [] (demo_call 1) (delta_between 5 9) False
     (observe_all [([], demo_call 1, delta_between 5 8, False),
                   ([], demo_call 2, delta_between 5 100, False)] Map.empty)))"
proof -
  have "class_deltas (class_of [] (demo_call 1))
          [([], demo_call 1, delta_between 5 8, False), ([], demo_call 2, delta_between 5 100, False)]
        = {delta_between 5 8}"
    by (auto simp: class_deltas_def class_of_def call_selector_def demo_call_def demo_fn_def
        delta_is_zero_def delta_between_def delta_new_def)
  moreover have "delta_between 5 8 < delta_between 5 9"
    by (simp add: delta_less_int delta_wf_between delta_int_between)
  moreover have "delta_is_positive (delta_between 5 9)"
    by (simp add: delta_sign_int delta_wf_between delta_int_between)
  ultimately show ?thesis
    using observe_novelty [of "[]" "demo_call 1" "delta_between 5 9" False
        "[([], demo_call 1, delta_between 5 8, False), ([], demo_call 2, delta_between 5 100, False)]"]
    by (simp add: delta_is_positive_def delta_is_zero_def)
qed

end
