(* ===== verification/Coverage.thy ===== *)
theory Coverage
  imports Prelude "HOL-Library.AList"
begin

section \<open>Execution coverage: markers, the inspector and the local map\<close>

text \<open>
  \<open>src/src/evm/coverage/edge.rs\<close>, \<open>id.rs\<close>, \<open>exec.rs\<close> and \<open>inspector.rs\<close>. A
  \<open>HashMap\<close> is an association list with distinct keys whose order stands for the
  iteration order (\<open>AList.map_default\<close> is \<open>entry(k).and_modify(f).or_insert(v)\<close>,
  \<open>AList.map_entry\<close> a mutation through \<open>get_mut\<close>). The callbacks \<open>revm\<close> makes
  on the inspector are the events of \<open>cov_event\<close>, with the observations each callback
  reads from the interpreter as arguments; \<open>cov_run\<close> replays a trace of them.
\<close>

subsection \<open>Markers\<close>

definition DEPTH_TRACKED_PCS :: nat where
  "DEPTH_TRACKED_PCS = 1024"

definition edge_marker :: "u64 \<Rightarrow> u64 \<Rightarrow> u64" where
  "edge_marker src_pc dst_pc = xor (word_rotl 32 src_pc) dst_pc"

text \<open>The callee is the big-endian list of its twenty bytes.\<close>

definition be_word :: "bytes \<Rightarrow> u64" where
  "be_word bs = foldl (\<lambda>acc b. acc * 256 + ucast b) 0 bs"

definition call_edge_marker :: "u64 \<Rightarrow> bytes \<Rightarrow> u64" where
  "call_edge_marker caller_pc addr =
     (let low = be_word (take 8 (drop 12 addr));
          high = foldl (\<lambda>h b. h * 131 + ucast b) 0 (take 12 addr);
          marker = xor (word_rotl 32 caller_pc) low;
          marker' = xor marker (word_rotl 16 high)
      in or marker' (push_bit 63 1))"

subsection \<open>Local coverage\<close>

datatype cov_id = Initcode u256 | Runtime address u256

definition id_codehash :: "cov_id \<Rightarrow> u256" where
  "id_codehash i = (case i of Initcode h \<Rightarrow> h | Runtime a h \<Rightarrow> h)"

definition id_address :: "cov_id \<Rightarrow> address option" where
  "id_address i = (case i of Initcode h \<Rightarrow> None | Runtime a h \<Rightarrow> Some a)"

definition id_is_initcode :: "cov_id \<Rightarrow> bool" where
  "id_is_initcode i = (case i of Initcode h \<Rightarrow> True | Runtime a h \<Rightarrow> False)"

record exec_contract =
  ec_edges :: "u8 list"
  ec_depths :: "u64 list"
  ec_reverts :: "u64 list"
  ec_jump_edges :: "(u64 \<times> u8) list"
  ec_hit_pcs :: "nat list"
  ec_hit_depths :: "nat list"
  ec_hit_reverts :: "nat list"
  ec_bytecode :: bytes
  ec_is_initcode :: bool

type_synonym exec_coverage = "(cov_id \<times> exec_contract) list"

definition div_ceil :: "nat \<Rightarrow> nat \<Rightarrow> nat" where
  "div_ceil a b = (a + b - 1) div b"

definition ec_new :: "nat \<Rightarrow> exec_contract" where
  "ec_new bytecode_len =
     \<lparr>ec_edges = replicate bytecode_len 0,
      ec_depths = replicate (min bytecode_len DEPTH_TRACKED_PCS) 0,
      ec_reverts = replicate (div_ceil bytecode_len 64) 0,
      ec_jump_edges = [], ec_hit_pcs = [], ec_hit_depths = [], ec_hit_reverts = [],
      ec_bytecode = [], ec_is_initcode = False\<rparr>"

definition ec_clear :: "exec_contract \<Rightarrow> exec_contract" where
  "ec_clear c =
     c\<lparr>ec_edges := map (\<lambda>_. 0) (ec_edges c), ec_depths := map (\<lambda>_. 0) (ec_depths c),
       ec_reverts := map (\<lambda>_. 0) (ec_reverts c), ec_jump_edges := [],
       ec_hit_pcs := [], ec_hit_depths := [], ec_hit_reverts := []\<rparr>"

definition cov_clear :: "exec_coverage \<Rightarrow> exec_coverage" where
  "cov_clear = map (map_prod id ec_clear)"

subsection \<open>The inspector\<close>

record cov_inspector =
  ci_local :: exec_coverage
  ci_depth :: nat
  ci_current :: "cov_id option"
  ci_stack :: "cov_id option list"
  ci_last_pc :: nat
  ci_is_initcode :: bool

definition ci_new :: cov_inspector where
  "ci_new = \<lparr>ci_local = [], ci_depth = 0, ci_current = None, ci_stack = [], ci_last_pc = 0,
             ci_is_initcode = False\<rparr>"

definition ci_into_coverage :: "cov_inspector \<Rightarrow> exec_coverage" where
  "ci_into_coverage s = ci_local s"

definition on_current ::
  "(exec_contract \<Rightarrow> exec_contract) \<Rightarrow> cov_inspector \<Rightarrow> cov_inspector" where
  "on_current f s =
     (case ci_current s of
        None \<Rightarrow> s
      | Some cid \<Rightarrow> s\<lparr>ci_local := AList.map_entry cid f (ci_local s)\<rparr>)"

definition ec_record_revert :: "nat \<Rightarrow> exec_contract \<Rightarrow> exec_contract" where
  "ec_record_revert last_pc c =
     (let w = last_pc div 64; b = last_pc mod 64 in
      if w < length (ec_reverts c) then
        let prev = ec_reverts c ! w;
            c1 = c\<lparr>ec_reverts := (ec_reverts c)[w := or prev (push_bit b 1)]\<rparr>
        in if prev = 0 then c1\<lparr>ec_hit_reverts := ec_hit_reverts c1 @ [w]\<rparr> else c1
      else c)"

definition ci_record_revert :: "cov_inspector \<Rightarrow> cov_inspector" where
  "ci_record_revert s = on_current (ec_record_revert (ci_last_pc s)) s"

definition ci_initialize_interp ::
  "u256 \<Rightarrow> nat \<Rightarrow> bytes \<Rightarrow> address \<Rightarrow> cov_inspector \<Rightarrow> cov_inspector" where
  "ci_initialize_interp hash len original target s =
     (if hash \<noteq> 0 \<and> len \<noteq> 0 then
        let is_initcode = ci_is_initcode s;
            cid = (if is_initcode then Initcode hash else Runtime target hash);
            fresh = (ec_new len)\<lparr>ec_bytecode := original, ec_is_initcode := is_initcode\<rparr>
        in s\<lparr>ci_is_initcode := False, ci_current := Some cid,
             ci_local := AList.map_default cid fresh id (ci_local s)\<rparr>
      else s)"

definition JUMP :: u8 where "JUMP = 0x56"
definition JUMPI :: u8 where "JUMPI = 0x57"

definition u256_to_usize :: "u256 \<Rightarrow> u64 option" where
  "u256_to_usize v = (if unat v < 2 ^ 64 then Some (ucast v) else None)"

definition bump_jump :: "u64 \<Rightarrow> exec_contract \<Rightarrow> exec_contract" where
  "bump_jump marker c =
     c\<lparr>ec_jump_edges := AList.map_default marker 1 (\<lambda>n. sat_add n 1) (ec_jump_edges c)\<rparr>"

definition hit_edge :: "nat \<Rightarrow> exec_contract \<Rightarrow> exec_contract" where
  "hit_edge pc c =
     (if pc < length (ec_edges c) then
        let c1 = (if ec_edges c ! pc = 0 then c\<lparr>ec_hit_pcs := ec_hit_pcs c @ [pc]\<rparr> else c)
        in c1\<lparr>ec_edges := (ec_edges c)[pc := sat_add (ec_edges c ! pc) 1]\<rparr>
      else c)"

definition hit_depth :: "nat \<Rightarrow> nat \<Rightarrow> exec_contract \<Rightarrow> exec_contract" where
  "hit_depth call_depth pc c =
     (if pc < length (ec_depths c) then
        let depth_mask = push_bit (min call_depth 63) 1;
            c1 = (if and (ec_depths c ! pc) depth_mask = 0
                  then c\<lparr>ec_hit_depths := ec_hit_depths c @ [pc]\<rparr> else c)
        in c1\<lparr>ec_depths := (ec_depths c)[pc := or (ec_depths c ! pc) depth_mask]\<rparr>
      else c)"

text \<open>The stack is \<open>interp.stack.data()\<close>: its last element is the top.\<close>

definition jump_taken :: "u8 \<Rightarrow> u256 list \<Rightarrow> bool" where
  "jump_taken opcode stack =
     (if opcode = JUMPI then
        (if length stack - 2 < length stack then stack ! (length stack - 2) \<noteq> 0 else False)
      else True)"

definition hit_jump :: "nat \<Rightarrow> u8 \<Rightarrow> u256 list \<Rightarrow> exec_contract \<Rightarrow> exec_contract" where
  "hit_jump pc opcode stack c =
     (if opcode = JUMP \<or> opcode = JUMPI then
        (case (if stack = [] then None else u256_to_usize (last stack)) of
           Some dst \<Rightarrow>
             if jump_taken opcode stack then bump_jump (edge_marker (of_nat pc) dst) c else c
         | None \<Rightarrow> c)
      else c)"

definition ci_step :: "nat \<Rightarrow> u8 \<Rightarrow> u256 list \<Rightarrow> cov_inspector \<Rightarrow> cov_inspector" where
  "ci_step pc opcode stack s =
     (let s1 = s\<lparr>ci_last_pc := pc\<rparr> in
      on_current (\<lambda>c. hit_jump pc opcode stack (hit_depth (ci_depth s) pc (hit_edge pc c))) s1)"

definition ci_call :: "bytes \<Rightarrow> cov_inspector \<Rightarrow> cov_inspector" where
  "ci_call target s =
     (let s1 = on_current (bump_jump (call_edge_marker (of_nat (ci_last_pc s)) target)) s
      in s1\<lparr>ci_stack := ci_current s # ci_stack s, ci_depth := ci_depth s + 1\<rparr>)"

definition pop_frame :: "cov_inspector \<Rightarrow> cov_inspector" where
  "pop_frame s =
     s\<lparr>ci_depth := ci_depth s - 1,
       ci_current := (case ci_stack s of [] \<Rightarrow> None | c # _ \<Rightarrow> c),
       ci_stack := tl (ci_stack s)\<rparr>"

definition ci_call_end :: "bool \<Rightarrow> cov_inspector \<Rightarrow> cov_inspector" where
  "ci_call_end reverted s = pop_frame (if reverted then ci_record_revert s else s)"

definition ci_create :: "cov_inspector \<Rightarrow> cov_inspector" where
  "ci_create s =
     s\<lparr>ci_stack := ci_current s # ci_stack s, ci_depth := ci_depth s + 1,
       ci_is_initcode := True\<rparr>"

definition ci_create_end :: "bool \<Rightarrow> cov_inspector \<Rightarrow> cov_inspector" where
  "ci_create_end reverted s =
     (pop_frame (if reverted then ci_record_revert s else s))\<lparr>ci_is_initcode := False\<rparr>"

datatype cov_event =
    EvInit u256 nat bytes address
  | EvStep nat u8 "u256 list"
  | EvCall bytes
  | EvCallEnd bool
  | EvCreate
  | EvCreateEnd bool

fun cov_apply :: "cov_event \<Rightarrow> cov_inspector \<Rightarrow> cov_inspector" where
  "cov_apply (EvInit hash len original target) s = ci_initialize_interp hash len original target s"
| "cov_apply (EvStep pc opcode stack) s = ci_step pc opcode stack s"
| "cov_apply (EvCall target) s = ci_call target s"
| "cov_apply (EvCallEnd reverted) s = ci_call_end reverted s"
| "cov_apply EvCreate s = ci_create s"
| "cov_apply (EvCreateEnd reverted) s = ci_create_end reverted s"

definition cov_run :: "cov_event list \<Rightarrow> cov_inspector \<Rightarrow> cov_inspector" where
  "cov_run evs s = fold cov_apply evs s"

subsection \<open>Markers are unambiguous\<close>

lemma bit_small: "unat (w :: 'a::len word) < 2 ^ k \<Longrightarrow> k \<le> n \<Longrightarrow> \<not> bit w n"
proof
  assume "unat w < 2 ^ k" "k \<le> n" "bit w n"
  have "(2 :: nat) ^ k \<le> 2 ^ n" using \<open>k \<le> n\<close> by (rule power_increasing) simp
  with \<open>unat w < 2 ^ k\<close> have "unat w < 2 ^ n" by (rule less_le_trans)
  then have "unat w div 2 ^ n = 0" by simp
  moreover have "bit (unat w) n" using \<open>bit w n\<close> by (simp add: bit_unsigned_iff bit_imp_possible_bit)
  ultimately show False by (simp add: bit_iff_odd)
qed

lemma bit_edge_marker:
  "bit (edge_marker s d) n \<longleftrightarrow> n < 64 \<and> bit s ((n + 32) mod 64) \<noteq> bit d n"
  by (auto simp: edge_marker_def bit_xor_iff bit_word_rotl_iff dest: bit_imp_le_length)

lemma bit_call_marker: "bit (call_edge_marker s a) 63"
  by (simp add: call_edge_marker_def Let_def bit_or_iff bit_push_bit_iff)

text \<open>
  Edge markers identify edges. Two jumps inside bytecode shorter than \<open>2^32\<close> bytes
  have the same marker only when source and destination agree, and for program counters
  below \<open>2^31\<close> no jump marker equals the marker of any call, which has bit 63 set.
\<close>

theorem markers_unambiguous:
  "(unat s < 2 ^ 32 \<and> unat d < 2 ^ 32 \<and> unat s' < 2 ^ 32 \<and> unat d' < 2 ^ 32 \<longrightarrow>
      edge_marker s d = edge_marker s' d' \<longrightarrow> s = s' \<and> d = d')
   \<and> (unat s < 2 ^ 31 \<and> unat d < 2 ^ 63 \<longrightarrow> edge_marker s d \<noteq> call_edge_marker c a)"
proof (intro conjI impI)
  assume b: "unat s < 2 ^ 32 \<and> unat d < 2 ^ 32 \<and> unat s' < 2 ^ 32 \<and> unat d' < 2 ^ 32"
    and eq: "edge_marker s d = edge_marker s' d'"
  have hi: "\<not> bit s n" "\<not> bit d n" "\<not> bit s' n" "\<not> bit d' n" if "32 \<le> n" for n
    using b that bit_small [of _ 32 n] by blast+
  have mark: "bit s ((n + 32) mod 64) \<noteq> bit d n \<longleftrightarrow> bit s' ((n + 32) mod 64) \<noteq> bit d' n"
    if "n < 64" for n
    using arg_cong [OF eq, of "\<lambda>m. bit m n"] that by (simp add: bit_edge_marker)
  have low: "bit d n = bit d' n" if "n < 32" for n
    using mark [of n] hi [of "n + 32"] that by simp
  have high: "bit s n = bit s' n" if "n < 32" for n
  proof -
    have "(n + 32 + 32) mod 64 = n" using that by simp
    then show ?thesis using mark [of "n + 32"] hi [of "n + 32"] that by simp
  qed
  show "s = s'" using high hi by (metis bit_word_eqI not_le)
  show "d = d'" using low hi by (metis bit_word_eqI not_le)
next
  assume b: "unat s < 2 ^ 31 \<and> unat d < 2 ^ 63"
  have "\<not> bit (edge_marker s d) 63"
    using bit_small [of s 31 31] bit_small [of d 63 63] b by (simp add: bit_edge_marker)
  then show "edge_marker s d \<noteq> call_edge_marker c a"
    using bit_call_marker [of c a] by auto
qed

theorem markers_unambiguous_witness:
  "edge_marker 7 9 \<noteq> edge_marker 9 7 \<and> edge_marker 7 9 \<noteq> call_edge_marker 7 (replicate 20 0)"
  using markers_unambiguous [of 7 9 9 7 7 "replicate 20 0"] by auto

subsection \<open>The sparse lists describe the dense arrays\<close>

definition nonzeros :: "'a::zero list \<Rightarrow> nat set" where
  "nonzeros xs = {i. i < length xs \<and> xs ! i \<noteq> 0}"

lemma nonzeros_update [simp]:
  "i < length xs \<Longrightarrow> v \<noteq> 0 \<Longrightarrow> nonzeros (xs[i := v]) = insert i (nonzeros xs)"
  by (auto simp: nonzeros_def nth_list_update)

lemma nonzeros_replicate [simp]: "nonzeros (replicate n 0) = {}"
  by (auto simp: nonzeros_def)

lemma in_nonzeros: "i < length xs \<Longrightarrow> i \<in> nonzeros xs \<longleftrightarrow> xs ! i \<noteq> 0"
  by (simp add: nonzeros_def)

definition ec_wf :: "exec_contract \<Rightarrow> bool" where
  "ec_wf c \<longleftrightarrow>
     length (ec_depths c) = min (length (ec_edges c)) DEPTH_TRACKED_PCS
   \<and> length (ec_reverts c) = div_ceil (length (ec_edges c)) 64
   \<and> distinct (ec_hit_pcs c)
   \<and> set (ec_hit_pcs c) = nonzeros (ec_edges c)
   \<and> set (ec_hit_depths c) = nonzeros (ec_depths c)
   \<and> distinct (ec_hit_reverts c)
   \<and> set (ec_hit_reverts c) = nonzeros (ec_reverts c)
   \<and> distinct (map fst (ec_jump_edges c))
   \<and> (\<forall>p \<in> set (ec_jump_edges c). snd p \<noteq> 0)"

lemma ec_wf_cong:
  "ec_edges c' = ec_edges c \<Longrightarrow> ec_depths c' = ec_depths c \<Longrightarrow> ec_reverts c' = ec_reverts c \<Longrightarrow>
   ec_hit_pcs c' = ec_hit_pcs c \<Longrightarrow> ec_hit_depths c' = ec_hit_depths c \<Longrightarrow>
   ec_hit_reverts c' = ec_hit_reverts c \<Longrightarrow> ec_jump_edges c' = ec_jump_edges c \<Longrightarrow>
   ec_wf c' = ec_wf c"
  by (simp add: ec_wf_def)

lemma ec_wf_new [keeps]: "ec_wf ((ec_new len)\<lparr>ec_bytecode := bs, ec_is_initcode := i\<rparr>)"
  by (simp add: ec_wf_def ec_new_def)

lemma sat_add_1_neq_0: "sat_add (n :: 'a::len word) 1 \<noteq> 0"
proof -
  have "0 < unat (sat_add n 1)"
    using one_less_power [of "2 :: nat", OF _ len_gt_0 [where 'a='a]] by (simp add: unat_sat_add)
  then show ?thesis by auto
qed

lemma push_bit_1_neq_0: "n < LENGTH('a) \<Longrightarrow> push_bit n (1 :: 'a::len word) \<noteq> 0"
proof
  assume "n < LENGTH('a)" and "push_bit n (1 :: 'a word) = 0"
  moreover from \<open>n < LENGTH('a)\<close> have "bit (push_bit n (1 :: 'a word)) n"
    by (simp add: bit_push_bit_iff bit_1_iff del: push_bit_of_1)
  ultimately show False by simp
qed

lemma or_neq_0: "(b :: 'a::len word) \<noteq> 0 \<Longrightarrow> or a b \<noteq> 0"
  by (metis or_eq_0_iff)

lemma snd_map_default:
  "\<forall>p \<in> set al. Q (snd p) \<Longrightarrow> Q v \<Longrightarrow> (\<And>n. Q (f n)) \<Longrightarrow>
   \<forall>p \<in> set (AList.map_default k v f al). Q (snd p)"
  by (induction al) auto

lemma ec_wf_hit_edge [keeps]: "ec_wf c \<Longrightarrow> ec_wf (hit_edge pc c)"
  by (simp add: ec_wf_def hit_edge_def Let_def sat_add_1_neq_0 in_nonzeros insert_absorb)

lemma ec_wf_hit_depth [keeps]:
  assumes "ec_wf c"
  shows "ec_wf (hit_depth d pc c)"
proof (cases "pc < length (ec_depths c)")
  case True
  define m :: u64 where "m = 2 ^ min d 63"
  have m: "m \<noteq> 0"
    using push_bit_1_neq_0 [of "min d 63", where 'a=64] by (simp add: m_def)
  have known: "pc \<in> set (ec_hit_depths c)" if "and (ec_depths c ! pc) m \<noteq> 0"
    using assms that True by (auto simp: ec_wf_def in_nonzeros)
  show ?thesis
    using assms True m known
    by (cases "and (ec_depths c ! pc) m = 0")
      (simp_all add: hit_depth_def Let_def ec_wf_def or_neq_0 insert_absorb flip: m_def)
qed (use assms in \<open>simp add: hit_depth_def\<close>)

lemma ec_wf_record_revert [keeps]: "ec_wf c \<Longrightarrow> ec_wf (ec_record_revert pc c)"
  by (simp add: ec_wf_def ec_record_revert_def Let_def or_neq_0 push_bit_1_neq_0 in_nonzeros
      insert_absorb)

lemma ec_wf_bump_jump [keeps]:
  assumes "ec_wf c"
  shows "ec_wf (bump_jump m c)"
proof -
  have "\<forall>p \<in> set (AList.map_default m 1 (\<lambda>n. sat_add n 1) (ec_jump_edges c)). snd p \<noteq> 0"
    by (rule snd_map_default [where Q = "\<lambda>n. n \<noteq> 0"])
      (use assms in \<open>simp_all add: ec_wf_def sat_add_1_neq_0\<close>)
  then show ?thesis
    using assms by (simp add: ec_wf_def bump_jump_def distinct_map_default)
qed

lemma ec_wf_hit_jump [keeps]: "ec_wf c \<Longrightarrow> ec_wf (hit_jump pc opc st c)"
  by (simp add: hit_jump_def ec_wf_bump_jump split: option.splits)

lemma init_flag_kept [simp]:
  "ec_is_initcode (hit_edge pc c) = ec_is_initcode c"
  "ec_is_initcode (hit_depth d pc c) = ec_is_initcode c"
  "ec_is_initcode (hit_jump pc opc st c) = ec_is_initcode c"
  "ec_is_initcode (bump_jump m c) = ec_is_initcode c"
  "ec_is_initcode (ec_record_revert pc c) = ec_is_initcode c"
  by (simp_all add: hit_edge_def hit_depth_def hit_jump_def bump_jump_def ec_record_revert_def Let_def
      split: option.splits)

definition entry_ok :: "cov_id \<times> exec_contract \<Rightarrow> bool" where
  "entry_ok p \<longleftrightarrow> ec_wf (snd p) \<and> ec_is_initcode (snd p) = id_is_initcode (fst p)"

definition cov_wf :: "exec_coverage \<Rightarrow> bool" where
  "cov_wf L \<longleftrightarrow> distinct (map fst L) \<and> (\<forall>p \<in> set L. entry_ok p)"

definition ci_wf :: "cov_inspector \<Rightarrow> bool" where
  "ci_wf s \<longleftrightarrow> cov_wf (ci_local s) \<and> ci_depth s = length (ci_stack s)"

lemma cov_wf_map_entry:
  assumes f: "\<And>c. entry_ok (cid, c) \<Longrightarrow> entry_ok (cid, f c)"
  shows "cov_wf L \<Longrightarrow> cov_wf (AList.map_entry cid f L)"
proof -
  have "\<forall>p \<in> set L. entry_ok p \<Longrightarrow> \<forall>p \<in> set (AList.map_entry cid f L). entry_ok p"
    by (induction L) (auto intro: f)
  then show "cov_wf L \<Longrightarrow> cov_wf (AList.map_entry cid f L)"
    by (simp add: cov_wf_def AList.distinct_map_entry)
qed

lemma cov_wf_map_default:
  assumes "entry_ok (cid, c)"
  shows "cov_wf L \<Longrightarrow> cov_wf (AList.map_default cid c id L)"
proof -
  have "\<forall>p \<in> set L. entry_ok p \<Longrightarrow> \<forall>p \<in> set (AList.map_default cid c id L). entry_ok p"
    using assms by (induction L) auto
  then show "cov_wf L \<Longrightarrow> cov_wf (AList.map_default cid c id L)"
    by (simp add: cov_wf_def AList.distinct_map_default)
qed

lemma on_current_frame [simp]:
  "ci_current (on_current f s) = ci_current s" "ci_stack (on_current f s) = ci_stack s"
  "ci_depth (on_current f s) = ci_depth s" "ci_is_initcode (on_current f s) = ci_is_initcode s"
  "ci_last_pc (on_current f s) = ci_last_pc s"
  by (simp_all add: on_current_def split: option.splits)

lemma on_current_wf:
  assumes "cov_wf (ci_local s)"
    and "\<And>c. ec_wf c \<Longrightarrow> ec_wf (f c)" and "\<And>c. ec_is_initcode (f c) = ec_is_initcode c"
  shows "cov_wf (ci_local (on_current f s))"
  using assms by (auto simp: on_current_def entry_ok_def intro!: cov_wf_map_entry split: option.splits)

lemma record_revert_wf: "cov_wf (ci_local s) \<Longrightarrow> cov_wf (ci_local (ci_record_revert s))"
  by (simp add: ci_record_revert_def on_current_wf keeps)

lemma pop_frame_sel [simp]:
  "ci_local (pop_frame s) = ci_local s" "ci_stack (pop_frame s) = tl (ci_stack s)"
  "ci_depth (pop_frame s) = ci_depth s - 1"
  by (simp_all add: pop_frame_def)

lemma record_revert_frame [simp]:
  "ci_current (ci_record_revert s) = ci_current s" "ci_stack (ci_record_revert s) = ci_stack s"
  "ci_depth (ci_record_revert s) = ci_depth s"
  by (simp_all add: ci_record_revert_def)

lemma cov_apply_wf [keeps]: "ci_wf s \<Longrightarrow> ci_wf (cov_apply e s)"
proof (cases e)
  case (EvInit hash len original target)
  assume "ci_wf s"
  then show ?thesis
    by (auto simp: EvInit ci_initialize_interp_def ci_wf_def Let_def entry_ok_def id_is_initcode_def keeps
        intro!: cov_wf_map_default)
next
  case (EvStep pc opcode stack)
  assume "ci_wf s"
  then show ?thesis
    by (simp add: EvStep ci_step_def Let_def ci_wf_def on_current_wf keeps)
next
  case (EvCall target)
  assume "ci_wf s"
  then show ?thesis
    by (simp add: EvCall ci_call_def Let_def ci_wf_def on_current_wf keeps)
next
  case (EvCallEnd r)
  assume "ci_wf s"
  then show ?thesis by (simp add: EvCallEnd ci_call_end_def ci_wf_def record_revert_wf)
next
  case EvCreate
  assume "ci_wf s"
  then show ?thesis by (simp add: EvCreate ci_create_def ci_wf_def)
next
  case (EvCreateEnd r)
  assume "ci_wf s"
  then show ?thesis by (simp add: EvCreateEnd ci_create_end_def ci_wf_def record_revert_wf)
qed

lemma cov_run_wf [keeps]: "ci_wf s \<Longrightarrow> ci_wf (cov_run evs s)"
  unfolding cov_run_def by (induction evs arbitrary: s) (auto intro: cov_apply_wf)

lemma ci_new_wf: "ci_wf ci_new"
  by (simp add: ci_wf_def ci_new_def cov_wf_def)



subsection \<open>Frames nest\<close>

text \<open>A trace is well nested when every call and create is closed in order.\<close>

inductive well_nested :: "cov_event list \<Rightarrow> bool" where
  well_nested_Nil: "well_nested []"
| well_nested_Init: "well_nested evs \<Longrightarrow> well_nested (EvInit h n bs a # evs)"
| well_nested_Step: "well_nested evs \<Longrightarrow> well_nested (EvStep pc opc st # evs)"
| well_nested_Call: "well_nested body \<Longrightarrow> well_nested evs \<Longrightarrow> well_nested (EvCall t # body @ EvCallEnd r # evs)"
| well_nested_Create: "well_nested body \<Longrightarrow> well_nested evs \<Longrightarrow> well_nested (EvCreate # body @ EvCreateEnd r # evs)"

lemma cov_run_simps [simp]:
  "cov_run [] s = s" "cov_run (e # evs) s = cov_run evs (cov_apply e s)"
  "cov_run (evs @ evs') s = cov_run evs' (cov_run evs s)"
  by (simp_all add: cov_run_def)

lemma well_nested_stack:
  "well_nested evs \<Longrightarrow> ci_stack (cov_run evs s) = ci_stack s \<and> ci_depth (cov_run evs s) = ci_depth s"
proof (induction evs arbitrary: s rule: well_nested.induct)
  case (well_nested_Init evs h n bs a)
  then show ?case by (simp add: ci_initialize_interp_def Let_def)
next
  case (well_nested_Step evs pc opc st)
  then show ?case by (simp add: ci_step_def Let_def)
next
  case (well_nested_Call body evs t r)
  then show ?case by (simp add: ci_call_def ci_call_end_def Let_def)
next
  case (well_nested_Create body evs r)
  then show ?case by (simp add: ci_create_def ci_create_end_def)
qed simp

text \<open>
  A frame is transparent to its caller. After any well-nested call or contract creation,
  however deep and however it ends, the contract hits are attributed to, the contract stack
  and the call depth are those before the frame, and a finished creation leaves no initcode
  flag behind for the next frame.
\<close>

theorem frames_restore_caller:
  assumes "well_nested body"
  shows "let s1 = cov_run (EvCall t # body @ [EvCallEnd r]) s;
             s2 = cov_run (EvCreate # body @ [EvCreateEnd r]) s
         in ci_current s1 = ci_current s \<and> ci_stack s1 = ci_stack s \<and> ci_depth s1 = ci_depth s
          \<and> ci_current s2 = ci_current s \<and> ci_stack s2 = ci_stack s \<and> ci_depth s2 = ci_depth s
          \<and> \<not> ci_is_initcode s2"
  using well_nested_stack [OF assms]
  by (auto simp: ci_call_def ci_call_end_def ci_create_def ci_create_end_def pop_frame_def Let_def)

theorem frames_restore_caller_witness:
  "let s = cov_run [EvInit 77 4 [] 9] ci_new;
       s' = cov_run (EvCall [] # [EvInit 78 4 [] 10, EvStep 1 0x60 []] @ [EvCallEnd True]) s
   in ci_current s' = Some (Runtime 9 77) \<and> ci_current s' = ci_current s"
proof -
  have "well_nested [EvInit 78 4 [] 10, EvStep 1 0x60 []]"
    by (intro well_nested_Init well_nested_Step well_nested_Nil)
  from frames_restore_caller [OF this, of "[]" True "cov_run [EvInit 77 4 [] 9] ci_new"]
  show ?thesis by (simp add: Let_def ci_initialize_interp_def ci_new_def)
qed

end
