(* ===== verification/Shared_Coverage.thy ===== *)
theory Shared_Coverage
  imports Coverage
begin

section \<open>The shared coverage map\<close>

text \<open>
  \<open>src/src/evm/coverage/shared.rs\<close>: the campaign-wide map every worker merges its
  execution coverage into. A merge is modelled as one step (the code's atomics let merges
  interleave; each \<open>fetch_max\<close>, \<open>fetch_or\<close> and \<open>get_or_insert_with\<close> is one
  step below). An index out of bounds panics, the value \<open>None\<close>. \<open>units\<close> is the abstract
  view, the set of facts covered per contract, and the main lemma shows that merging
  refines set union on it.
\<close>

record cov_update =
  new_edges :: nat
  new_depths :: nat
  new_reverts :: nat
  new_jump_edges :: nat

definition update_default :: cov_update where
  "update_default = \<lparr>new_edges = 0, new_depths = 0, new_reverts = 0, new_jump_edges = 0\<rparr>"

definition is_interesting :: "cov_update \<Rightarrow> bool" where
  "is_interesting u \<longleftrightarrow>
     new_edges u > 0 \<or> new_depths u > 0 \<or> new_reverts u > 0 \<or> new_jump_edges u > 0"

record contract_cov =
  sc_edges :: "u8 list"
  sc_raw :: "u64 list"
  sc_depths :: "u64 list"
  sc_reverts :: "u64 list"
  sc_jump_edges :: "(u64 \<times> u8) list"
  sc_is_initcode :: bool

definition sc_new :: "nat \<Rightarrow> bool \<Rightarrow> contract_cov" where
  "sc_new bytecode_len is_initcode =
     \<lparr>sc_edges = replicate bytecode_len 0, sc_raw = replicate bytecode_len 0,
      sc_depths = replicate (min bytecode_len DEPTH_TRACKED_PCS) 0,
      sc_reverts = replicate (div_ceil bytecode_len 64) 0,
      sc_jump_edges = [], sc_is_initcode = is_initcode\<rparr>"

record shared_coverage =
  sh_contracts :: "(cov_id \<times> contract_cov) list"
  sh_bytecodes :: "(cov_id \<times> bytes) list"

definition sh_new :: shared_coverage where
  "sh_new = \<lparr>sh_contracts = [], sh_bytecodes = []\<rparr>"

subsection \<open>Merging\<close>

type_synonym merge_state = "cov_update \<times> contract_cov"

definition merge_edge :: "exec_contract \<Rightarrow> nat \<Rightarrow> merge_state \<Rightarrow> merge_state option" where
  "merge_edge lc pc st =
     (let (u, g) = st in
      if pc < length (ec_edges lc) \<and> pc < length (sc_edges g) \<and> pc < length (sc_raw g) then
        let local_raw = ec_edges lc ! pc;
            prev = sc_edges g ! pc;
            g' = g\<lparr>sc_edges := (sc_edges g)[pc := max prev 1],
                   sc_raw := (sc_raw g)[pc := sc_raw g ! pc + ucast local_raw]\<rparr>
        in Some (if \<not> ec_is_initcode lc \<and> prev = 0 then u\<lparr>new_edges := new_edges u + 1\<rparr> else u, g')
      else None)"

definition merge_depth :: "exec_contract \<Rightarrow> nat \<Rightarrow> merge_state \<Rightarrow> merge_state option" where
  "merge_depth lc pc st =
     (let (u, g) = st in
      if pc < length (ec_depths lc) \<and> pc < length (sc_depths g) then
        let local_depth = ec_depths lc ! pc;
            prev = sc_depths g ! pc;
            g' = g\<lparr>sc_depths := (sc_depths g)[pc := or prev local_depth]\<rparr>;
            new_bits = and local_depth (not prev)
        in Some (if \<not> ec_is_initcode lc \<and> new_bits \<noteq> 0 then u\<lparr>new_depths := new_depths u + 1\<rparr> else u,
                 g')
      else None)"

definition merge_revert :: "exec_contract \<Rightarrow> nat \<Rightarrow> merge_state \<Rightarrow> merge_state option" where
  "merge_revert lc i st =
     (let (u, g) = st in
      if i \<ge> length (sc_reverts g) then Some (u, g)
      else if i < length (ec_reverts lc) then
        let local_rev = ec_reverts lc ! i in
        if local_rev = 0 then Some (u, g)
        else
          let prev = sc_reverts g ! i;
              g' = g\<lparr>sc_reverts := (sc_reverts g)[i := or prev local_rev]\<rparr>;
              new_bits = and local_rev (not prev)
          in Some (if \<not> ec_is_initcode lc \<and> new_bits \<noteq> 0
                   then u\<lparr>new_reverts := new_reverts u + 1\<rparr> else u, g')
      else None)"

definition merge_jump :: "exec_contract \<Rightarrow> u64 \<times> u8 \<Rightarrow> merge_state \<Rightarrow> merge_state option" where
  "merge_jump lc entry st =
     (let (u, g) = st; (marker, local_raw) = entry in
      if local_raw = 0 then Some (u, g)
      else
        let jumps = AList.map_default marker 0 id (sc_jump_edges g);
            prev = (case map_of jumps marker of None \<Rightarrow> 0 | Some n \<Rightarrow> n);
            g' = g\<lparr>sc_jump_edges := AList.map_entry marker (\<lambda>n. max n 1) jumps\<rparr>
        in Some (if \<not> ec_is_initcode lc \<and> prev = 0
                 then u\<lparr>new_jump_edges := new_jump_edges u + 1\<rparr> else u, g'))"

definition merge_contract :: "exec_contract \<Rightarrow> merge_state \<Rightarrow> merge_state option" where
  "merge_contract lc st =
     (case fold_opt (merge_edge lc) (ec_hit_pcs lc) st of
        None \<Rightarrow> None
      | Some st1 \<Rightarrow>
     (case fold_opt (merge_depth lc) (ec_hit_depths lc) st1 of
        None \<Rightarrow> None
      | Some st2 \<Rightarrow>
     (case fold_opt (merge_revert lc) (ec_hit_reverts lc) st2 of
        None \<Rightarrow> None
      | Some st3 \<Rightarrow> fold_opt (merge_jump lc) (ec_jump_edges lc) st3)))"

definition merge_entry ::
  "cov_id \<times> exec_contract \<Rightarrow> cov_update \<times> shared_coverage \<Rightarrow> (cov_update \<times> shared_coverage) option" where
  "merge_entry entry st =
     (let (u, S) = st; (cid, lc) = entry;
          contracts = AList.map_default cid (sc_new (length (ec_edges lc)) (ec_is_initcode lc)) id
                        (sh_contracts S);
          codes = (if ec_bytecode lc \<noteq> [] then AList.map_default cid (ec_bytecode lc) id (sh_bytecodes S)
                   else sh_bytecodes S)
      in case map_of contracts cid of
           None \<Rightarrow> None
         | Some g \<Rightarrow>
             (case merge_contract lc (u, g) of
                None \<Rightarrow> None
              | Some (u', g') \<Rightarrow>
                  Some (u', \<lparr>sh_contracts = AList.map_entry cid (\<lambda>_. g') contracts,
                             sh_bytecodes = codes\<rparr>)))"

definition cov_merge :: "exec_coverage \<Rightarrow> shared_coverage \<Rightarrow> (cov_update \<times> shared_coverage) option" where
  "cov_merge local S = fold_opt merge_entry local (update_default, S)"

subsection \<open>Counting\<close>

definition runtime_contracts :: "shared_coverage \<Rightarrow> contract_cov list" where
  "runtime_contracts S = filter (\<lambda>c. \<not> sc_is_initcode c) (map snd (sh_contracts S))"

definition count_ones :: "u64 \<Rightarrow> nat" where
  "count_ones w = length (filter (bit w) [0..<64])"

definition hits :: "contract_cov \<Rightarrow> nat" where
  "hits c = length (filter (\<lambda>e. e \<noteq> 0) (sc_edges c))"

definition hit_count :: "shared_coverage \<Rightarrow> nat" where
  "hit_count S =
     (let edge_hits = sum_list (map hits (runtime_contracts S));
          jump_hits = sum_list (map (\<lambda>c. length (sc_jump_edges c)) (runtime_contracts S))
      in edge_hits + jump_hits)"

definition contract_count :: "shared_coverage \<Rightarrow> nat" where
  "contract_count S = length (runtime_contracts S)"

definition edge_count :: "shared_coverage \<Rightarrow> nat" where
  "edge_count S = sum_list (map hits (runtime_contracts S))"

definition depth_count :: "shared_coverage \<Rightarrow> nat" where
  "depth_count S =
     sum_list (map (\<lambda>c. sum_list (map count_ones (sc_depths c))) (runtime_contracts S))"

definition revert_count :: "shared_coverage \<Rightarrow> nat" where
  "revert_count S =
     sum_list (map (\<lambda>c. sum_list (map count_ones (sc_reverts c))) (runtime_contracts S))"

definition jump_count :: "shared_coverage \<Rightarrow> nat" where
  "jump_count S = sum_list (map (\<lambda>c. length (sc_jump_edges c)) (runtime_contracts S))"

definition raw_edge_counts :: "shared_coverage \<Rightarrow> cov_id \<Rightarrow> u64 list option" where
  "raw_edge_counts S cid = map_option sc_raw (map_of (sh_contracts S) cid)"

definition all_raw_edge_counts :: "shared_coverage \<Rightarrow> (cov_id \<times> u64 list) list" where
  "all_raw_edge_counts S = map (map_prod id sc_raw) (sh_contracts S)"

record raw_edges =
  re_contract_id :: cov_id
  re_bytecode :: bytes
  re_raw_edges :: "u64 list"

definition bytecode_of :: "shared_coverage \<Rightarrow> cov_id \<Rightarrow> bytes" where
  "bytecode_of S cid = (case map_of (sh_bytecodes S) cid of None \<Rightarrow> [] | Some code \<Rightarrow> code)"

definition all_raw_with_bytecodes :: "shared_coverage \<Rightarrow> raw_edges list" where
  "all_raw_with_bytecodes S =
     map (\<lambda>(cid, c). \<lparr>re_contract_id = cid, re_bytecode = bytecode_of S cid, re_raw_edges = sc_raw c\<rparr>)
       (sh_contracts S)"

definition all_bytecodes :: "shared_coverage \<Rightarrow> (cov_id \<times> bytes) list" where
  "all_bytecodes S = map (\<lambda>(cid, c). (cid, bytecode_of S cid)) (sh_contracts S)"

definition raw_with_bytecodes_for_ids :: "shared_coverage \<Rightarrow> cov_id list \<Rightarrow> raw_edges list" where
  "raw_with_bytecodes_for_ids S ids =
     List.map_filter (\<lambda>cid.
       case map_of (sh_contracts S) cid of
         None \<Rightarrow> None
       | Some c \<Rightarrow> Some \<lparr>re_contract_id = cid, re_bytecode = bytecode_of S cid,
                         re_raw_edges = sc_raw c\<rparr>) ids"

subsection \<open>What one contract's merge does\<close>

definition bits_of :: "u64 list \<Rightarrow> (nat \<times> nat) set" where
  "bits_of ws = {(i, b). i < length ws \<and> bit (ws ! i) b}"

lemma bits_of_or:
  "i < length ws \<Longrightarrow> bits_of (ws[i := or (ws ! i) m]) = bits_of ws \<union> {(i, b) | b. bit m b}"
  by (auto simp: bits_of_def nth_list_update bit_or_iff split: if_splits)

lemma bits_of_update:
  "i < length ws \<Longrightarrow> prev = ws ! i \<Longrightarrow>
   bits_of (ws[i := or prev m]) = bits_of ws \<union> {(i, b) | b. bit m b}"
  by (simp add: bits_of_or)

lemma new_bits_iff:
  fixes m prev :: u64
  shows "and m (not prev) = 0 \<longleftrightarrow> (\<forall>b. bit m b \<longrightarrow> bit prev b)"
proof
  assume none: "and m (not prev) = 0"
  show "\<forall>b. bit m b \<longrightarrow> bit prev b"
  proof (intro allI impI, rule ccontr)
    fix b
    assume "bit m b" "\<not> bit prev b"
    then have "bit (and m (not prev)) b"
      using bit_imp_le_length [OF \<open>bit m b\<close>] by (simp add: bit_and_iff bit_not_iff)
    with none show False by simp
  qed
next
  assume "\<forall>b. bit m b \<longrightarrow> bit prev b"
  then show "and m (not prev) = 0"
    by (intro bit_word_eqI) (auto simp: bit_and_iff bit_not_iff)
qed

text \<open>The three counters of a merge grow by the new facts; \<open>bump\<close> is how much.\<close>

definition bump :: "exec_contract \<Rightarrow> nat \<Rightarrow> nat" where
  "bump lc n = (if ec_is_initcode lc then 0 else n)"

lemma fold_merge_edges:
  assumes "\<forall>pc \<in> set pcs. pc < length (ec_edges lc) \<and> pc < length (sc_edges g)"
    and "length (sc_raw g) = length (sc_edges g)"
  shows "\<exists>E raw.
     fold_opt (merge_edge lc) pcs (u, g)
       = Some (u\<lparr>new_edges := new_edges u + bump lc (card (set pcs - nonzeros (sc_edges g)))\<rparr>,
               g\<lparr>sc_edges := E, sc_raw := raw\<rparr>)
   \<and> length E = length (sc_edges g) \<and> length raw = length E
   \<and> nonzeros E = nonzeros (sc_edges g) \<union> set pcs"
  using assms
proof (induction pcs arbitrary: u g)
  case Nil
  show ?case
    by (rule exI [of _ "sc_edges g"], rule exI [of _ "sc_raw g"]) (use Nil in \<open>simp add: bump_def\<close>)
next
  case (Cons pc pcs)
  let ?prev = "sc_edges g ! pc"
  define E1 where "E1 = (sc_edges g)[pc := max ?prev 1]"
  define raw1 where "raw1 = (sc_raw g)[pc := sc_raw g ! pc + ucast (ec_edges lc ! pc)]"
  let ?g = "g\<lparr>sc_edges := E1, sc_raw := raw1\<rparr>"
  let ?u = "if \<not> ec_is_initcode lc \<and> ?prev = 0 then u\<lparr>new_edges := new_edges u + 1\<rparr> else u"
  have step: "merge_edge lc pc (u, g) = Some (?u, ?g)"
    using Cons.prems by (simp add: merge_edge_def Let_def E1_def raw1_def)
  have max: "max ?prev 1 \<noteq> (0 :: u8)"
    by (auto simp: max_def)
  have nz: "nonzeros E1 = insert pc (nonzeros (sc_edges g))"
    using Cons.prems max by (simp add: E1_def)
  have len: "length E1 = length (sc_edges g)" "length raw1 = length E1"
    using Cons.prems by (simp_all add: E1_def raw1_def)
  have "\<forall>pc \<in> set pcs. pc < length (ec_edges lc) \<and> pc < length (sc_edges ?g)"
    and "length (sc_raw ?g) = length (sc_edges ?g)"
    using Cons.prems by (simp_all add: len)
  from Cons.IH [OF this, of ?u] obtain E raw where E:
    "fold_opt (merge_edge lc) pcs (?u, ?g)
       = Some (?u\<lparr>new_edges := new_edges ?u + bump lc (card (set pcs - nonzeros E1))\<rparr>,
               ?g\<lparr>sc_edges := E, sc_raw := raw\<rparr>)"
    "length E = length E1" "length raw = length E" "nonzeros E = nonzeros E1 \<union> set pcs"
    by auto
  have known: "?prev \<noteq> 0 \<longleftrightarrow> pc \<in> nonzeros (sc_edges g)"
    using Cons.prems by (simp add: in_nonzeros)
  have diff: "set (pc # pcs) - nonzeros (sc_edges g) =
      (if ?prev = 0 then insert pc (set pcs - nonzeros E1) else set pcs - nonzeros E1)"
    using known unfolding nz by auto
  have card: "card (set (pc # pcs) - nonzeros (sc_edges g))
      = (if ?prev = 0 then 1 else 0) + card (set pcs - nonzeros E1)"
    unfolding diff using nz by simp
  show ?case
    by (rule exI [of _ E], rule exI [of _ raw])
      (use E nz len in \<open>simp only: fold_opt.simps step option.case card,
        auto simp: bump_def\<close>)
qed

text \<open>The bits the words at the listed positions bring.\<close>

definition bits_at :: "u64 list \<Rightarrow> nat list \<Rightarrow> (nat \<times> nat) set" where
  "bits_at ws ixs = {(i, b). i \<in> set ixs \<and> bit (ws ! i) b}"

lemma bits_at_Cons: "bits_at ws (i # ixs) = {(i, b) | b. bit (ws ! i) b} \<union> bits_at ws ixs"
  by (auto simp: bits_at_def)

lemma bits_at_nonzeros: "set ixs = nonzeros ws \<Longrightarrow> bits_at ws ixs = bits_of ws"
proof -
  have nz: "bit w b \<Longrightarrow> w \<noteq> 0" for w :: u64 and b by auto
  assume "set ixs = nonzeros ws"
  then show "bits_at ws ixs = bits_of ws"
    by (auto simp: bits_at_def bits_of_def nonzeros_def dest: nz)
qed

lemma fold_merge_depths:
  assumes "\<forall>pc \<in> set pcs. pc < length (ec_depths lc) \<and> pc < length (sc_depths g)"
  shows "\<exists>D n.
     fold_opt (merge_depth lc) pcs (u, g)
       = Some (u\<lparr>new_depths := new_depths u + bump lc n\<rparr>, g\<lparr>sc_depths := D\<rparr>)
   \<and> length D = length (sc_depths g)
   \<and> bits_of D = bits_of (sc_depths g) \<union> bits_at (ec_depths lc) pcs
   \<and> (0 < n \<longleftrightarrow> \<not> bits_at (ec_depths lc) pcs \<subseteq> bits_of (sc_depths g))"
  using assms
proof (induction pcs arbitrary: u g)
  case Nil
  show ?case
    by (rule exI [of _ "sc_depths g"], rule exI [of _ 0]) (simp add: bump_def bits_at_def)
next
  case (Cons pc pcs)
  let ?m = "ec_depths lc ! pc"
  define D1 where "D1 = (sc_depths g)[pc := or (sc_depths g ! pc) ?m]"
  define k :: nat where "k = (if and ?m (not (sc_depths g ! pc)) = 0 then 0 else 1)"
  have step: "merge_depth lc pc (u, g) =
      Some (u\<lparr>new_depths := new_depths u + bump lc k\<rparr>, g\<lparr>sc_depths := D1\<rparr>)"
    using Cons.prems by (simp add: merge_depth_def Let_def D1_def k_def bump_def)
  have bits: "bits_of D1 = bits_of (sc_depths g) \<union> {(pc, b) | b. bit ?m b}"
    using Cons.prems by (simp add: D1_def bits_of_or)
  have len: "length D1 = length (sc_depths g)" by (simp add: D1_def)
  have "\<forall>pc \<in> set pcs. pc < length (ec_depths lc) \<and> pc < length (sc_depths (g\<lparr>sc_depths := D1\<rparr>))"
    using Cons.prems by (simp add: len)
  from Cons.IH [OF this, of "u\<lparr>new_depths := new_depths u + bump lc k\<rparr>"] obtain D n where D:
    "fold_opt (merge_depth lc) pcs
       (u\<lparr>new_depths := new_depths u + bump lc k\<rparr>, g\<lparr>sc_depths := D1\<rparr>)
       = Some (u\<lparr>new_depths := new_depths u + bump lc k + bump lc n\<rparr>, g\<lparr>sc_depths := D\<rparr>)"
    "length D = length D1" "bits_of D = bits_of D1 \<union> bits_at (ec_depths lc) pcs"
    "0 < n \<longleftrightarrow> \<not> bits_at (ec_depths lc) pcs \<subseteq> bits_of D1"
    by auto
  have k: "0 < k \<longleftrightarrow> \<not> {(pc, b) | b. bit ?m b} \<subseteq> bits_of (sc_depths g)"
    using Cons.prems by (auto simp: k_def new_bits_iff bits_of_def)
  show ?case
  proof (intro exI [of _ D] exI [of _ "k + n"] conjI)
    show "0 < k + n \<longleftrightarrow> \<not> bits_at (ec_depths lc) (pc # pcs) \<subseteq> bits_of (sc_depths g)"
      using k D(4) unfolding bits bits_at_Cons add_gr_0 by blast
  qed (use step D(1-3) bits len in \<open>auto simp: bits_at_Cons bump_def add.assoc\<close>)
qed

lemma fold_merge_reverts:
  assumes "\<forall>i \<in> set ixs. i < length (ec_reverts lc) \<and> i < length (sc_reverts g)"
  shows "\<exists>D n.
     fold_opt (merge_revert lc) ixs (u, g)
       = Some (u\<lparr>new_reverts := new_reverts u + bump lc n\<rparr>, g\<lparr>sc_reverts := D\<rparr>)
   \<and> length D = length (sc_reverts g)
   \<and> bits_of D = bits_of (sc_reverts g) \<union> bits_at (ec_reverts lc) ixs
   \<and> (0 < n \<longleftrightarrow> \<not> bits_at (ec_reverts lc) ixs \<subseteq> bits_of (sc_reverts g))"
  using assms
proof (induction ixs arbitrary: u g)
  case Nil
  show ?case
    by (rule exI [of _ "sc_reverts g"], rule exI [of _ 0]) (simp add: bump_def bits_at_def)
next
  case (Cons i ixs)
  let ?m = "ec_reverts lc ! i"
  define D1 where "D1 = (sc_reverts g)[i := or (sc_reverts g ! i) ?m]"
  define k :: nat where "k = (if and ?m (not (sc_reverts g ! i)) = 0 then 0 else 1)"
  have step: "merge_revert lc i (u, g) =
      Some (u\<lparr>new_reverts := new_reverts u + bump lc k\<rparr>, g\<lparr>sc_reverts := D1\<rparr>)"
    using Cons.prems by (simp add: merge_revert_def Let_def D1_def k_def bump_def)
  have bits: "bits_of D1 = bits_of (sc_reverts g) \<union> {(i, b) | b. bit ?m b}"
    using Cons.prems by (simp add: D1_def bits_of_or)
  have len: "length D1 = length (sc_reverts g)" by (simp add: D1_def)
  have "\<forall>i \<in> set ixs. i < length (ec_reverts lc) \<and> i < length (sc_reverts (g\<lparr>sc_reverts := D1\<rparr>))"
    using Cons.prems by (simp add: len)
  from Cons.IH [OF this, of "u\<lparr>new_reverts := new_reverts u + bump lc k\<rparr>"] obtain D n where D:
    "fold_opt (merge_revert lc) ixs
       (u\<lparr>new_reverts := new_reverts u + bump lc k\<rparr>, g\<lparr>sc_reverts := D1\<rparr>)
       = Some (u\<lparr>new_reverts := new_reverts u + bump lc k + bump lc n\<rparr>, g\<lparr>sc_reverts := D\<rparr>)"
    "length D = length D1" "bits_of D = bits_of D1 \<union> bits_at (ec_reverts lc) ixs"
    "0 < n \<longleftrightarrow> \<not> bits_at (ec_reverts lc) ixs \<subseteq> bits_of D1"
    by auto
  have k: "0 < k \<longleftrightarrow> \<not> {(i, b) | b. bit ?m b} \<subseteq> bits_of (sc_reverts g)"
    using Cons.prems by (auto simp: k_def new_bits_iff bits_of_def)
  show ?case
  proof (intro exI [of _ D] exI [of _ "k + n"] conjI)
    show "0 < k + n \<longleftrightarrow> \<not> bits_at (ec_reverts lc) (i # ixs) \<subseteq> bits_of (sc_reverts g)"
      using k D(4) unfolding bits bits_at_Cons add_gr_0 by blast
  qed (use step D(1-3) bits len in \<open>auto simp: bits_at_Cons bump_def add.assoc\<close>)
qed

definition jumps_ok :: "(u64 \<times> u8) list \<Rightarrow> bool" where
  "jumps_ok js \<longleftrightarrow> distinct (map fst js) \<and> (\<forall>p \<in> set js. snd p \<noteq> 0)"

lemma map_of_jumps: "jumps_ok js \<Longrightarrow> map_of js m = Some n \<Longrightarrow> n \<noteq> 0"
  by (auto simp: jumps_ok_def dest: map_of_SomeD)

lemma map_entry_id: "map_of js m = Some n \<Longrightarrow> f n = n \<Longrightarrow> AList.map_entry m f js = js"
  by (induction js) (auto split: if_splits)

lemma map_default_present: "m \<in> fst ` set js \<Longrightarrow> AList.map_default m v id js = js"
  by (induction js) auto

lemma map_default_absent: "m \<notin> fst ` set js \<Longrightarrow> AList.map_default m v f js = js @ [(m, v)]"
  by (induction js) auto

lemma map_entry_snoc:
  "m \<notin> fst ` set js \<Longrightarrow> AList.map_entry m f (js @ [(m, v)]) = js @ [(m, f v)]"
  by (induction js) auto

lemma merge_jump_step:
  assumes "n \<noteq> 0" and "jumps_ok (sc_jump_edges g)"
  shows "merge_jump lc (m, n) (u, g) =
    (if m \<in> fst ` set (sc_jump_edges g) then Some (u, g)
     else Some (u\<lparr>new_jump_edges := new_jump_edges u + bump lc 1\<rparr>,
                g\<lparr>sc_jump_edges := sc_jump_edges g @ [(m, 1)]\<rparr>))"
proof (cases "m \<in> fst ` set (sc_jump_edges g)")
  case True
  then obtain v where v: "map_of (sc_jump_edges g) m = Some v"
    by (metis domIff dom_map_of_conv_image_fst not_None_eq)
  then have "v \<noteq> 0" using assms(2) by (rule map_of_jumps [rotated])
  moreover from this have "max v 1 = v" by (metis max_def word_le_less_eq word_less_1 order.asym)
  ultimately show ?thesis
    using True assms(1) v
    by (simp add: merge_jump_def Let_def map_default_present map_entry_id)
next
  case False
  then have "map_of (sc_jump_edges g @ [(m, 0)]) m = Some 0"
    by (simp add: map_add_def map_of_eq_None_iff [THEN iffD2])
  then show ?thesis
    using False assms(1)
    by (simp add: merge_jump_def Let_def map_default_absent map_entry_snoc bump_def)
qed

lemma fold_merge_jumps:
  assumes "jumps_ok (sc_jump_edges g)" and "\<forall>p \<in> set js. snd p \<noteq> 0"
  shows "\<exists>J. fold_opt (merge_jump lc) js (u, g)
       = Some (u\<lparr>new_jump_edges := new_jump_edges u
                  + bump lc (card (fst ` set js - fst ` set (sc_jump_edges g)))\<rparr>,
               g\<lparr>sc_jump_edges := J\<rparr>)
   \<and> jumps_ok J \<and> fst ` set J = fst ` set (sc_jump_edges g) \<union> fst ` set js"
  using assms
proof (induction js arbitrary: u g)
  case Nil
  show ?case by (rule exI [of _ "sc_jump_edges g"]) (use Nil in \<open>simp add: bump_def\<close>)
next
  case (Cons p js)
  obtain m n where p: "p = (m, n)" by (cases p)
  have n: "n \<noteq> 0" and rest: "\<forall>p \<in> set js. snd p \<noteq> 0" using Cons.prems by (simp_all add: p)
  show ?case
  proof (cases "m \<in> fst ` set (sc_jump_edges g)")
    case True
    then have "insert m (fst ` set js) - fst ` set (sc_jump_edges g)
               = fst ` set js - fst ` set (sc_jump_edges g)"
      and "fst ` set (sc_jump_edges g) \<union> insert m (fst ` set js)
           = fst ` set (sc_jump_edges g) \<union> fst ` set js" by auto
    with Cons.IH [OF Cons.prems(1) rest, of u] True show ?thesis
      by (simp add: p merge_jump_step [OF n Cons.prems(1)])
  next
    case False
    define J1 where "J1 = sc_jump_edges g @ [(m, 1)]"
    have ok: "jumps_ok (sc_jump_edges (g\<lparr>sc_jump_edges := J1\<rparr>))"
      using Cons.prems(1) False by (auto simp: J1_def jumps_ok_def)
    have keys: "fst ` set J1 = insert m (fst ` set (sc_jump_edges g))" by (simp add: J1_def)
    have "insert m (fst ` set js) - fst ` set (sc_jump_edges g)
          = insert m (fst ` set js - fst ` set J1)" using False keys by auto
    then have card: "card (insert m (fst ` set js) - fst ` set (sc_jump_edges g))
          = Suc (card (fst ` set js - fst ` set J1))" using keys by simp
    from Cons.IH [OF ok rest, of "u\<lparr>new_jump_edges := new_jump_edges u + bump lc 1\<rparr>"]
    obtain J where J: "fold_opt (merge_jump lc) js
           (u\<lparr>new_jump_edges := new_jump_edges u + bump lc 1\<rparr>, g\<lparr>sc_jump_edges := J1\<rparr>)
         = Some (u\<lparr>new_jump_edges := new_jump_edges u + bump lc 1
                    + bump lc (card (fst ` set js - fst ` set J1))\<rparr>, g\<lparr>sc_jump_edges := J\<rparr>)"
      "jumps_ok J" "fst ` set J = fst ` set J1 \<union> fst ` set js" by auto
    show ?thesis
      by (rule exI [of _ J])
        (use J False keys in \<open>auto simp: p merge_jump_step [OF n Cons.prems(1)] card bump_def
          simp flip: J1_def\<close>)
  qed
qed

datatype cov_unit = UEdge nat | UDepth nat nat | URevert nat nat | UJump u64

definition g_units :: "contract_cov \<Rightarrow> cov_unit set" where
  "g_units g =
     UEdge ` nonzeros (sc_edges g) \<union> (\<lambda>(i, b). UDepth i b) ` bits_of (sc_depths g)
     \<union> (\<lambda>(i, b). URevert i b) ` bits_of (sc_reverts g) \<union> UJump ` fst ` set (sc_jump_edges g)"

definition l_units :: "exec_contract \<Rightarrow> cov_unit set" where
  "l_units c =
     UEdge ` nonzeros (ec_edges c) \<union> (\<lambda>(i, b). UDepth i b) ` bits_of (ec_depths c)
     \<union> (\<lambda>(i, b). URevert i b) ` bits_of (ec_reverts c) \<union> UJump ` fst ` set (ec_jump_edges c)"

lemma all_units:
  "(\<forall>x. P x) \<longleftrightarrow> (\<forall>pc. P (UEdge pc)) \<and> (\<forall>i b. P (UDepth i b)) \<and> (\<forall>i b. P (URevert i b))
     \<and> (\<forall>m. P (UJump m))"
  by (metis cov_unit.exhaust)

lemma in_units [simp]:
  "UEdge pc \<in> g_units g \<longleftrightarrow> pc \<in> nonzeros (sc_edges g)"
  "UDepth i b \<in> g_units g \<longleftrightarrow> (i, b) \<in> bits_of (sc_depths g)"
  "URevert i b \<in> g_units g \<longleftrightarrow> (i, b) \<in> bits_of (sc_reverts g)"
  "UJump m \<in> g_units g \<longleftrightarrow> m \<in> fst ` set (sc_jump_edges g)"
  "UEdge pc \<in> l_units c \<longleftrightarrow> pc \<in> nonzeros (ec_edges c)"
  "UDepth i b \<in> l_units c \<longleftrightarrow> (i, b) \<in> bits_of (ec_depths c)"
  "URevert i b \<in> l_units c \<longleftrightarrow> (i, b) \<in> bits_of (ec_reverts c)"
  "UJump m \<in> l_units c \<longleftrightarrow> m \<in> fst ` set (ec_jump_edges c)"
  unfolding g_units_def l_units_def by (simp_all add: image_iff Bex_def split_paired_Ex)

lemma l_units_le:
  "l_units c \<subseteq> g_units g \<longleftrightarrow>
     nonzeros (ec_edges c) \<subseteq> nonzeros (sc_edges g) \<and> bits_of (ec_depths c) \<subseteq> bits_of (sc_depths g)
     \<and> bits_of (ec_reverts c) \<subseteq> bits_of (sc_reverts g)
     \<and> fst ` set (ec_jump_edges c) \<subseteq> fst ` set (sc_jump_edges g)"
  unfolding subset_iff all_units by (simp add: split_paired_all del: image_iff)

definition sc_wf :: "contract_cov \<Rightarrow> bool" where
  "sc_wf g \<longleftrightarrow>
     length (sc_raw g) = length (sc_edges g)
   \<and> length (sc_depths g) = min (length (sc_edges g)) DEPTH_TRACKED_PCS
   \<and> length (sc_reverts g) = div_ceil (length (sc_edges g)) 64
   \<and> jumps_ok (sc_jump_edges g)"

lemma sc_wf_new: "sc_wf (sc_new len i)"
  by (simp add: sc_wf_def sc_new_def jumps_ok_def)

lemma g_units_new: "g_units (sc_new len i) = {}"
  by (auto simp: g_units_def sc_new_def bits_of_def nonzeros_def)

text \<open>What \<open>hit_count\<close> counts for one contract.\<close>

definition weight :: "contract_cov \<Rightarrow> nat" where
  "weight g = hits g + length (sc_jump_edges g)"

lemma hits_card: "hits g = card (nonzeros (sc_edges g))"
  by (simp add: hits_def nonzeros_def length_filter_conv_card)

lemma length_jumps_card: "jumps_ok js \<Longrightarrow> length js = card (fst ` set js)"
  unfolding jumps_ok_def by (metis card_image distinct_map distinct_card)

lemma finite_nonzeros [simp]: "finite (nonzeros xs)"
  by (simp add: nonzeros_def)

lemma card_Un_Diff: "finite A \<Longrightarrow> finite B \<Longrightarrow> card (A \<union> B) = card A + card (B - A)"
  by (metis Diff_disjoint Un_Diff_cancel card_Un_disjoint finite_Diff)

definition found :: "cov_update \<Rightarrow> nat" where
  "found u = new_edges u + new_jump_edges u"

lemma merge_contract_ok:
  assumes lc: "ec_wf lc" and g: "sc_wf g" and len: "length (ec_edges lc) = length (sc_edges g)"
  shows "\<exists>u' g'. merge_contract lc (u, g) = Some (u', g')
     \<and> sc_wf g' \<and> length (sc_edges g') = length (sc_edges g)
     \<and> sc_is_initcode g' = sc_is_initcode g
     \<and> g_units g' = g_units g \<union> l_units lc
     \<and> found u' = found u + bump lc (weight g' - weight g) \<and> weight g \<le> weight g'
     \<and> (is_interesting u' \<longleftrightarrow>
          is_interesting u \<or> \<not> ec_is_initcode lc \<and> \<not> l_units lc \<subseteq> g_units g)"
proof -
  define pcs where "pcs = ec_hit_pcs lc"
  have pcs: "set pcs = nonzeros (ec_edges lc)" using lc by (simp add: ec_wf_def pcs_def)
  have e: "\<forall>pc \<in> set pcs. pc < length (ec_edges lc) \<and> pc < length (sc_edges g)"
    using len by (auto simp: pcs nonzeros_def)
  from fold_merge_edges [OF e, of u] obtain E raw where E:
    "fold_opt (merge_edge lc) pcs (u, g)
       = Some (u\<lparr>new_edges := new_edges u + bump lc (card (set pcs - nonzeros (sc_edges g)))\<rparr>,
               g\<lparr>sc_edges := E, sc_raw := raw\<rparr>)"
    "length E = length (sc_edges g)" "length raw = length E"
    "nonzeros E = nonzeros (sc_edges g) \<union> set pcs"
    using g by (auto simp: sc_wf_def)
  define ne where "ne = card (set pcs - nonzeros (sc_edges g))"
  let ?g1 = "g\<lparr>sc_edges := E, sc_raw := raw\<rparr>"
  have d: "\<forall>pc \<in> set (ec_hit_depths lc). pc < length (ec_depths lc) \<and> pc < length (sc_depths ?g1)"
    using lc g len by (auto simp: ec_wf_def sc_wf_def nonzeros_def)
  have hd: "bits_at (ec_depths lc) (ec_hit_depths lc) = bits_of (ec_depths lc)"
    using lc by (intro bits_at_nonzeros) (simp add: ec_wf_def)
  from fold_merge_depths [OF d, of "u\<lparr>new_edges := new_edges u + bump lc ne\<rparr>"] obtain D nd where D:
    "fold_opt (merge_depth lc) (ec_hit_depths lc) (u\<lparr>new_edges := new_edges u + bump lc ne\<rparr>, ?g1)
       = Some (u\<lparr>new_edges := new_edges u + bump lc ne, new_depths := new_depths u + bump lc nd\<rparr>,
               ?g1\<lparr>sc_depths := D\<rparr>)"
    "length D = length (sc_depths g)"
    "bits_of D = bits_of (sc_depths g) \<union> bits_of (ec_depths lc)"
    "0 < nd \<longleftrightarrow> \<not> bits_of (ec_depths lc) \<subseteq> bits_of (sc_depths g)"
    unfolding hd by auto
  let ?g2 = "?g1\<lparr>sc_depths := D\<rparr>"
  have r: "\<forall>i \<in> set (ec_hit_reverts lc). i < length (ec_reverts lc) \<and> i < length (sc_reverts ?g2)"
    using lc g len by (auto simp: ec_wf_def sc_wf_def nonzeros_def)
  have hr: "bits_at (ec_reverts lc) (ec_hit_reverts lc) = bits_of (ec_reverts lc)"
    using lc by (intro bits_at_nonzeros) (simp add: ec_wf_def)
  let ?u2 = "u\<lparr>new_edges := new_edges u + bump lc ne, new_depths := new_depths u + bump lc nd\<rparr>"
  from fold_merge_reverts [OF r, of ?u2] obtain R nr where R:
    "fold_opt (merge_revert lc) (ec_hit_reverts lc) (?u2, ?g2)
       = Some (?u2\<lparr>new_reverts := new_reverts u + bump lc nr\<rparr>, ?g2\<lparr>sc_reverts := R\<rparr>)"
    "length R = length (sc_reverts g)"
    "bits_of R = bits_of (sc_reverts g) \<union> bits_of (ec_reverts lc)"
    "0 < nr \<longleftrightarrow> \<not> bits_of (ec_reverts lc) \<subseteq> bits_of (sc_reverts g)"
    unfolding hr by auto
  let ?g3 = "?g2\<lparr>sc_reverts := R\<rparr>" and ?u3 = "?u2\<lparr>new_reverts := new_reverts u + bump lc nr\<rparr>"
  let ?new = "fst ` set (ec_jump_edges lc) - fst ` set (sc_jump_edges g)"
  have jok: "jumps_ok (sc_jump_edges ?g3)" using g by (simp add: sc_wf_def)
  have jnz: "\<forall>p \<in> set (ec_jump_edges lc). snd p \<noteq> 0" using lc by (simp add: ec_wf_def)
  from fold_merge_jumps [OF jok jnz, of lc ?u3] obtain J where J:
    "fold_opt (merge_jump lc) (ec_jump_edges lc) (?u3, ?g3)
       = Some (?u3\<lparr>new_jump_edges := new_jump_edges u + bump lc (card ?new)\<rparr>,
               ?g3\<lparr>sc_jump_edges := J\<rparr>)"
    "jumps_ok J" "fst ` set J = fst ` set (sc_jump_edges g) \<union> fst ` set (ec_jump_edges lc)"
    by auto
  let ?g' = "?g3\<lparr>sc_jump_edges := J\<rparr>"
    and ?u' = "?u3\<lparr>new_jump_edges := new_jump_edges u + bump lc (card ?new)\<rparr>"
  have run: "merge_contract lc (u, g) = Some (?u', ?g')"
    using E(1) D(1) R(1) J(1) by (simp add: merge_contract_def ne_def pcs_def)
  have wt: "weight ?g' = weight g + ne + card ?new"
    using J(2,3) jok E(4)
    by (simp add: weight_def hits_card length_jumps_card card_Un_Diff ne_def)
  have pos: "0 < ne \<longleftrightarrow> \<not> nonzeros (ec_edges lc) \<subseteq> nonzeros (sc_edges g)"
    by (auto simp: ne_def pcs card_gt_0_iff)
  have posj: "0 < card ?new \<longleftrightarrow> \<not> fst ` set (ec_jump_edges lc) \<subseteq> fst ` set (sc_jump_edges g)"
    by (auto simp: card_gt_0_iff)
  have int: "is_interesting ?u' \<longleftrightarrow>
      is_interesting u \<or> \<not> ec_is_initcode lc \<and> \<not> l_units lc \<subseteq> g_units g"
    unfolding l_units_le using pos posj D(4) R(4) by (auto simp: is_interesting_def bump_def)
  have units: "g_units ?g' = g_units g \<union> l_units lc"
    unfolding g_units_def l_units_def using E(4) D(3) R(3) J(3) pcs
    by (simp add: image_Un Un_ac)
  show ?thesis
    by (intro exI [of _ ?u'] exI [of _ ?g'] conjI run units int)
      (use g E D R J wt in \<open>simp_all add: sc_wf_def found_def bump_def\<close>)
qed

subsection \<open>The whole map\<close>

definition sh_wf :: "shared_coverage \<Rightarrow> bool" where
  "sh_wf S \<longleftrightarrow> distinct (map fst (sh_contracts S)) \<and>
     (\<forall>(cid, g) \<in> set (sh_contracts S). sc_wf g \<and> sc_is_initcode g = id_is_initcode cid)"

text \<open>The abstract view: which facts are covered, per contract.\<close>

definition units :: "shared_coverage \<Rightarrow> (cov_id \<times> cov_unit) set" where
  "units S = {(cid, x). \<exists>g. map_of (sh_contracts S) cid = Some g \<and> x \<in> g_units g}"

definition local_units :: "exec_coverage \<Rightarrow> (cov_id \<times> cov_unit) set" where
  "local_units L = {(cid, x). \<exists>c. (cid, c) \<in> set L \<and> x \<in> l_units c}"

definition runtime_units :: "(cov_id \<times> cov_unit) set \<Rightarrow> (cov_id \<times> cov_unit) set" where
  "runtime_units X = {p \<in> X. \<not> id_is_initcode (fst p)}"

text \<open>The id determines the bytecode (it contains its hash), so every map of a campaign has
  arrays of the same length for the same id.\<close>

definition sized :: "(cov_id \<Rightarrow> nat) \<Rightarrow> exec_coverage \<Rightarrow> bool" where
  "sized code_len L \<longleftrightarrow> (\<forall>p \<in> set L. length (ec_edges (snd p)) = code_len (fst p))"

definition sh_sized :: "(cov_id \<Rightarrow> nat) \<Rightarrow> shared_coverage \<Rightarrow> bool" where
  "sh_sized code_len S \<longleftrightarrow>
     (\<forall>cid g. map_of (sh_contracts S) cid = Some g \<longrightarrow> length (sc_edges g) = code_len cid)"

definition runtime_weight :: "contract_cov \<Rightarrow> nat" where
  "runtime_weight g = (if sc_is_initcode g then 0 else weight g)"

definition asum :: "('v \<Rightarrow> nat) \<Rightarrow> ('k \<times> 'v) list \<Rightarrow> nat" where
  "asum f al = sum_list (map (f \<circ> snd) al)"

lemma hit_count_asum: "hit_count S = asum runtime_weight (sh_contracts S)"
proof -
  have "sum_list (map hits (filter (\<lambda>c. \<not> sc_is_initcode c) cs))
      + sum_list (map (\<lambda>c. length (sc_jump_edges c)) (filter (\<lambda>c. \<not> sc_is_initcode c) cs))
      = sum_list (map runtime_weight cs)" for cs
    by (induction cs) (auto simp: runtime_weight_def weight_def)
  then show ?thesis
    by (simp add: hit_count_def runtime_contracts_def asum_def Let_def comp_def)
qed

lemma asum_map_entry:
  "distinct (map fst al) \<Longrightarrow> map_of al k = Some v \<Longrightarrow>
   asum f (AList.map_entry k (\<lambda>_. v') al) + f v = asum f al + f v'"
proof (induction al)
  case (Cons p al)
  show ?case
  proof (cases "fst p = k")
    case True
    with Cons.prems show ?thesis by (cases p) (simp add: asum_def)
  next
    case False
    with Cons show ?thesis by (cases p) (simp add: asum_def)
  qed
qed simp

lemma asum_map_default: "f v = 0 \<Longrightarrow> asum f (AList.map_default k v id al) = asum f al"
  by (induction al) (auto simp: asum_def)

lemma set_map_entry_distinct:
  "distinct (map fst al) \<Longrightarrow> p \<in> set (AList.map_entry k (\<lambda>_. v) al) \<Longrightarrow>
   p = (k, v) \<or> fst p \<noteq> k \<and> p \<in> set al"
  by (induction al) (auto split: if_splits)

lemma sh_wf_get: "sh_wf S \<Longrightarrow> map_of (sh_contracts S) cid = Some g \<Longrightarrow>
   sc_wf g \<and> sc_is_initcode g = id_is_initcode cid"
  by (auto simp: sh_wf_def dest!: map_of_SomeD)

lemma merge_entry_ok:
  assumes S: "sh_wf S" and e: "entry_ok (cid, lc)"
    and len: "\<And>g. map_of (sh_contracts S) cid = Some g \<Longrightarrow> length (ec_edges lc) = length (sc_edges g)"
  shows "\<exists>u' S'. merge_entry (cid, lc) (u, S) = Some (u', S') \<and> sh_wf S'
     \<and> units S' = units S \<union> {cid} \<times> l_units lc
     \<and> found u' + hit_count S = found u + hit_count S'
     \<and> (is_interesting u' \<longleftrightarrow> is_interesting u \<or> \<not> runtime_units ({cid} \<times> l_units lc) \<subseteq> units S)
     \<and> (\<forall>cid' h. map_of (sh_contracts S') cid' = Some h \<longrightarrow>
          cid' = cid \<and> length (sc_edges h) = length (ec_edges lc)
          \<or> map_of (sh_contracts S) cid' = Some h)"
proof -
  let ?fresh = "sc_new (length (ec_edges lc)) (ec_is_initcode lc)"
  define contracts where "contracts = AList.map_default cid ?fresh id (sh_contracts S)"
  define g where "g = (case map_of (sh_contracts S) cid of None \<Rightarrow> ?fresh | Some g \<Rightarrow> g)"
  have lcwf: "ec_wf lc" and flag: "ec_is_initcode lc = id_is_initcode cid"
    using e by (simp_all add: entry_ok_def)
  have get: "map_of contracts = (map_of (sh_contracts S))(cid \<mapsto> g)"
    by (simp add: contracts_def g_def AList.map_of_map_default split: option.splits)
  have gwf: "sc_wf g" "sc_is_initcode g = ec_is_initcode lc" "length (ec_edges lc) = length (sc_edges g)"
    using S len flag by (auto simp: g_def sc_wf_new dest: sh_wf_get split: option.splits)
      (simp_all add: sc_new_def)
  have gu: "g_units g = {x. (cid, x) \<in> units S}"
    by (auto simp: g_def units_def g_units_new split: option.splits)
  from merge_contract_ok [OF lcwf gwf(1,3), of u] obtain u' g' where m:
    "merge_contract lc (u, g) = Some (u', g')" "sc_wf g'"
    "sc_is_initcode g' = sc_is_initcode g" "g_units g' = g_units g \<union> l_units lc"
    "found u' = found u + bump lc (weight g' - weight g)" "weight g \<le> weight g'"
    "is_interesting u' \<longleftrightarrow> is_interesting u \<or> \<not> ec_is_initcode lc \<and> \<not> l_units lc \<subseteq> g_units g"
    "length (sc_edges g') = length (sc_edges g)"
    by blast
  define contracts' where "contracts' = AList.map_entry cid (\<lambda>_. g') contracts"
  define codes where "codes = (if ec_bytecode lc \<noteq> []
      then AList.map_default cid (ec_bytecode lc) id (sh_bytecodes S) else sh_bytecodes S)"
  let ?S' = "\<lparr>sh_contracts = contracts', sh_bytecodes = codes\<rparr>"
  have run: "merge_entry (cid, lc) (u, S) = Some (u', ?S')"
    using m(1) get by (simp add: merge_entry_def Let_def contracts'_def codes_def flip: contracts_def)
  have dist: "distinct (map fst contracts)"
    using S by (simp add: contracts_def sh_wf_def AList.distinct_map_default)
  have get': "map_of contracts' = (map_of (sh_contracts S))(cid \<mapsto> g')"
    by (simp add: contracts'_def AList.map_of_map_entry get)
  have "\<forall>(cid', h) \<in> set contracts'. sc_wf h \<and> sc_is_initcode h = id_is_initcode cid'"
  proof (clarify)
    fix cid' h
    assume "(cid', h) \<in> set contracts'"
    then have "map_of contracts' cid' = Some h"
      using dist by (simp add: contracts'_def AList.distinct_map_entry)
    then show "sc_wf h \<and> sc_is_initcode h = id_is_initcode cid'"
      using S m(2,3) gwf(2) flag by (auto simp: get' dest: sh_wf_get split: if_splits)
  qed
  then have wf: "sh_wf ?S'"
    using dist by (simp add: sh_wf_def contracts'_def AList.distinct_map_entry)
  have un: "units ?S' = units S \<union> {cid} \<times> l_units lc"
    using m(4) gu by (auto simp: units_def get' split: if_splits)
  have "asum runtime_weight contracts' + runtime_weight g = asum runtime_weight contracts + runtime_weight g'"
    unfolding contracts'_def by (rule asum_map_entry [OF dist]) (simp add: get)
  moreover have "asum runtime_weight contracts = asum runtime_weight (sh_contracts S)"
    unfolding contracts_def
    by (rule asum_map_default) (simp add: runtime_weight_def weight_def hits_def sc_new_def)
  ultimately have count: "found u' + hit_count S = found u + hit_count ?S'"
    using m(3,5,6) gwf(2) by (auto simp: hit_count_asum runtime_weight_def bump_def split: if_splits)
  have int: "is_interesting u' \<longleftrightarrow>
      is_interesting u \<or> \<not> runtime_units ({cid} \<times> l_units lc) \<subseteq> units S"
    unfolding m(7) gu flag by (auto simp: runtime_units_def)
  show ?thesis
    by (intro exI [of _ u'] exI [of _ ?S'] conjI run wf un count int)
      (use m(8) gwf(3) in \<open>simp add: get'\<close>)
qed

lemma merge_entries_ok:
  assumes "sh_wf S" and "distinct (map fst L)" and "\<forall>p \<in> set L. entry_ok p"
    and "sized code_len L" and "sh_sized code_len S"
  shows "\<exists>u' S'. fold_opt merge_entry L (u, S) = Some (u', S') \<and> sh_wf S' \<and> sh_sized code_len S'
     \<and> units S' = units S \<union> local_units L
     \<and> found u' + hit_count S = found u + hit_count S'
     \<and> (is_interesting u' \<longleftrightarrow> is_interesting u \<or> \<not> runtime_units (local_units L) \<subseteq> units S)"
  using assms
proof (induction L arbitrary: u S)
  case Nil
  then show ?case by (simp add: local_units_def runtime_units_def)
next
  case (Cons p L)
  obtain cid lc where p: "p = (cid, lc)" by (cases p)
  have "entry_ok (cid, lc)" using Cons.prems by (simp add: p)
  moreover have "length (ec_edges lc) = length (sc_edges g)"
    if "map_of (sh_contracts S) cid = Some g" for g
    using Cons.prems(4,5) that by (auto simp: sized_def sh_sized_def p)
  ultimately obtain u1 S1 where s1: "merge_entry (cid, lc) (u, S) = Some (u1, S1)" "sh_wf S1"
    "units S1 = units S \<union> {cid} \<times> l_units lc" "found u1 + hit_count S = found u + hit_count S1"
    "is_interesting u1 \<longleftrightarrow> is_interesting u \<or> \<not> runtime_units ({cid} \<times> l_units lc) \<subseteq> units S"
    "\<forall>cid' h. map_of (sh_contracts S1) cid' = Some h \<longrightarrow>
       cid' = cid \<and> length (sc_edges h) = length (ec_edges lc)
       \<or> map_of (sh_contracts S) cid' = Some h"
    using merge_entry_ok [OF Cons.prems(1), of cid lc u] by blast
  have "length (ec_edges lc) = code_len cid" and L: "sized code_len L"
    using Cons.prems(4) by (simp_all add: sized_def p)
  then have "sh_sized code_len S1"
    using Cons.prems(5) s1(6) unfolding sh_sized_def by metis
  then obtain u2 S2 where s2: "fold_opt merge_entry L (u1, S1) = Some (u2, S2)"
    "sh_wf S2 \<and> sh_sized code_len S2"
    "units S2 = units S1 \<union> local_units L" "found u2 + hit_count S1 = found u1 + hit_count S2"
    "is_interesting u2 \<longleftrightarrow> is_interesting u1 \<or> \<not> runtime_units (local_units L) \<subseteq> units S1"
    using Cons.IH [of S1 u1] Cons.prems s1(2) L by auto
  have lu: "local_units (p # L) = {cid} \<times> l_units lc \<union> local_units L"
    by (auto simp: local_units_def p)
  have sep: "fst q \<noteq> cid" if "q \<in> local_units L" for q
    using that Cons.prems(2) by (force simp: local_units_def p)
  have "runtime_units (local_units L) \<subseteq> units S1 \<longleftrightarrow> runtime_units (local_units L) \<subseteq> units S"
    unfolding s1(3) runtime_units_def subset_iff using sep by fastforce
  then have "is_interesting u2 \<longleftrightarrow>
      is_interesting u \<or> \<not> runtime_units (local_units (p # L)) \<subseteq> units S"
    unfolding s2(5) s1(5) lu by (auto simp: runtime_units_def)
  with s1 s2 lu show ?case by (auto simp: p)
qed

lemma cov_merge_ok:
  assumes "sh_wf S" and "cov_wf L" and "sized code_len L" and "sh_sized code_len S"
  shows "\<exists>u S'. cov_merge L S = Some (u, S') \<and> sh_wf S' \<and> sh_sized code_len S'
     \<and> units S' = units S \<union> local_units L
     \<and> hit_count S' = hit_count S + new_edges u + new_jump_edges u
     \<and> (is_interesting u \<longleftrightarrow> \<not> runtime_units (local_units L) \<subseteq> units S)"
proof -
  have "found update_default = 0" "\<not> is_interesting update_default"
    by (simp_all add: found_def update_default_def is_interesting_def)
  then show ?thesis
    using merge_entries_ok [OF assms(1) _ _ assms(3,4), of update_default] assms(2)
    unfolding cov_merge_def cov_wf_def found_def by (auto 0 4)
qed

lemma sh_new_ok: "sh_wf sh_new" "sh_sized code_len sh_new" "units sh_new = {}" "hit_count sh_new = 0"
  by (simp_all add: sh_new_def sh_wf_def sh_sized_def units_def hit_count_def runtime_contracts_def)


definition demo_cov :: exec_coverage where
  "demo_cov = ci_into_coverage (cov_run
     [EvInit 77 4 [] 9, EvStep 0 0x60 [], EvStep 2 0x60 [], EvStep 0 0x60 []] ci_new)"

lemma demo_cov_wf: "cov_wf demo_cov"
  using cov_run_wf [OF ci_new_wf] unfolding demo_cov_def ci_wf_def ci_into_coverage_def by blast

lemma demo_cov_sized: "sized (\<lambda>_. 4) demo_cov"
proof -
  have "list_all (\<lambda>p. length (ec_edges (snd p)) = 4) demo_cov" unfolding demo_cov_def by code_simp
  then show ?thesis by (simp add: sized_def list_all_iff)
qed


text \<open>
  Merging is idempotent and its order does not matter. Merging the same coverage again
  reports nothing interesting and covers nothing new, and two executions merged in either
  order leave the same covered facts.
\<close>

theorem merge_idempotent_commutes:
  assumes S: "sh_wf S" "sh_sized code_len S"
    and L: "cov_wf L" "sized code_len L" and M: "cov_wf M" "sized code_len M"
  shows "\<exists>u S1. cov_merge L S = Some (u, S1)
   \<and> (\<exists>u' S2. cov_merge L S1 = Some (u', S2) \<and> \<not> is_interesting u' \<and> units S2 = units S1)
   \<and> (\<exists>v T1 x U1 y U2. cov_merge M S1 = Some (v, T1)
        \<and> cov_merge M S = Some (x, U1) \<and> cov_merge L U1 = Some (y, U2) \<and> units T1 = units U2)"
proof -
  obtain u S1 where s1: "cov_merge L S = Some (u, S1)" "sh_wf S1" "sh_sized code_len S1"
    "units S1 = units S \<union> local_units L"
    using cov_merge_ok [OF S(1) L S(2)] by blast
  obtain u' S2 where s2: "cov_merge L S1 = Some (u', S2)" "units S2 = units S1 \<union> local_units L"
    "is_interesting u' \<longleftrightarrow> \<not> runtime_units (local_units L) \<subseteq> units S1"
    using cov_merge_ok [OF s1(2) L s1(3)] by blast
  obtain v T1 where t1: "cov_merge M S1 = Some (v, T1)" "units T1 = units S1 \<union> local_units M"
    using cov_merge_ok [OF s1(2) M s1(3)] by blast
  obtain x U1 where u1: "cov_merge M S = Some (x, U1)" "sh_wf U1" "sh_sized code_len U1"
    "units U1 = units S \<union> local_units M"
    using cov_merge_ok [OF S(1) M S(2)] by blast
  obtain y U2 where u2: "cov_merge L U1 = Some (y, U2)" "units U2 = units U1 \<union> local_units L"
    using cov_merge_ok [OF u1(2) L u1(3)] by blast
  have "runtime_units (local_units L) \<subseteq> units S1"
    unfolding s1(4) by (auto simp: runtime_units_def)
  then have "\<exists>u' S2. cov_merge L S1 = Some (u', S2) \<and> \<not> is_interesting u' \<and> units S2 = units S1"
    using s1 s2 by blast
  moreover have "units T1 = units U2" using s1(4) t1(2) u1(4) u2(2) by blast
  ultimately show ?thesis using s1(1) t1(1) u1(1) u2(1) by blast
qed

theorem merge_idempotent_commutes_witness:
  "\<exists>u S1. cov_merge demo_cov sh_new = Some (u, S1)
     \<and> (\<exists>u' S2. cov_merge demo_cov S1 = Some (u', S2) \<and> \<not> is_interesting u' \<and> units S2 = units S1)"
  using merge_idempotent_commutes [OF sh_new_ok(1) sh_new_ok(2) demo_cov_wf demo_cov_sized
      demo_cov_wf demo_cov_sized] by blast

subsection \<open>The coverage of a campaign\<close>

text \<open>Every contract a trace enters has the length its id determines.\<close>

definition trace_sized :: "(cov_id \<Rightarrow> nat) \<Rightarrow> cov_event list \<Rightarrow> bool" where
  "trace_sized code_len evs \<longleftrightarrow> (\<forall>h n bs a. EvInit h n bs a \<in> set evs \<longrightarrow>
     n = code_len (Initcode h) \<and> n = code_len (Runtime a h))"

lemma sized_map_entry:
  assumes "\<And>c. length (ec_edges (f c)) = length (ec_edges c)"
  shows "sized code_len L \<Longrightarrow> sized code_len (AList.map_entry cid f L)"
  by (induction L) (auto simp: sized_def assms)

lemma sized_on_current:
  assumes "\<And>c. length (ec_edges (f c)) = length (ec_edges c)"
  shows "sized code_len (ci_local s) \<Longrightarrow> sized code_len (ci_local (on_current f s))"
  by (auto simp: on_current_def sized_map_entry assms split: option.splits)

lemma length_edges_kept [simp]:
  "length (ec_edges (hit_edge pc c)) = length (ec_edges c)"
  "length (ec_edges (hit_depth d pc c)) = length (ec_edges c)"
  "length (ec_edges (hit_jump pc opc st c)) = length (ec_edges c)"
  "length (ec_edges (bump_jump m c)) = length (ec_edges c)"
  "length (ec_edges (ec_record_revert pc c)) = length (ec_edges c)"
  by (simp_all add: hit_edge_def hit_depth_def hit_jump_def bump_jump_def ec_record_revert_def Let_def
      split: option.splits)

lemma sized_init:
  assumes "sized code_len L" and "code_len cid = len"
  shows "sized code_len (AList.map_default cid ((ec_new len)\<lparr>ec_bytecode := bs, ec_is_initcode := i\<rparr>) id L)"
proof -
  have "length (ec_edges ((ec_new len)\<lparr>ec_bytecode := bs, ec_is_initcode := i\<rparr>)) = len"
    by (simp add: ec_new_def)
  then show ?thesis using assms by (induction L) (auto simp: sized_def)
qed

lemma sized_apply:
  assumes "sized code_len (ci_local s)" and "trace_sized code_len [e]"
  shows "sized code_len (ci_local (cov_apply e s))"
proof (cases e)
  case (EvInit h n bs a)
  then show ?thesis
    using assms by (auto simp: ci_initialize_interp_def Let_def trace_sized_def intro!: sized_init)
qed (use assms in \<open>auto simp: ci_step_def ci_call_def ci_call_end_def ci_create_def ci_create_end_def
       ci_record_revert_def Let_def sized_on_current\<close>)

lemma sized_run:
  "trace_sized code_len evs \<Longrightarrow> sized code_len (ci_local s) \<Longrightarrow> sized code_len (ci_local (cov_run evs s))"
proof (induction evs arbitrary: s)
  case (Cons e evs)
  then show ?case using sized_apply [of code_len s e] by (simp add: trace_sized_def)
qed simp

fun campaign :: "cov_event list list \<Rightarrow> shared_coverage \<Rightarrow> (cov_update list \<times> shared_coverage) option" where
  "campaign [] S = Some ([], S)"
| "campaign (evs # runs) S =
     (case cov_merge (ci_into_coverage (cov_run evs ci_new)) S of
        None \<Rightarrow> None
      | Some (u, S') \<Rightarrow> map_option (\<lambda>(us, S''). (u # us, S'')) (campaign runs S'))"

lemma campaign_ok:
  assumes "sh_wf S" "sh_sized code_len S" "\<forall>evs \<in> set runs. trace_sized code_len evs"
  shows "\<exists>us S'. campaign runs S = Some (us, S')
     \<and> units S' = units S \<union> (\<Union>evs \<in> set runs. local_units (ci_into_coverage (cov_run evs ci_new)))
     \<and> hit_count S' = hit_count S + sum_list (map found us)"
  using assms
proof (induction runs arbitrary: S)
  case (Cons evs runs)
  let ?L = "ci_into_coverage (cov_run evs ci_new)"
  have "cov_wf ?L" using cov_run_wf [OF ci_new_wf, of evs] by (simp add: ci_wf_def ci_into_coverage_def)
  moreover have "sized code_len ?L"
    using Cons.prems(3) sized_run [of code_len evs ci_new]
    by (simp add: ci_into_coverage_def ci_new_def sized_def)
  ultimately obtain u S1 where s1: "cov_merge ?L S = Some (u, S1)" "sh_wf S1" "sh_sized code_len S1"
    "units S1 = units S \<union> local_units ?L"
    "hit_count S1 = hit_count S + found u"
    using cov_merge_ok [OF Cons.prems(1) _ _ Cons.prems(2)] unfolding found_def add.assoc by blast
  moreover obtain us S2 where "campaign runs S1 = Some (us, S2)"
    "units S2 = units S1 \<union> (\<Union>evs \<in> set runs. local_units (ci_into_coverage (cov_run evs ci_new)))"
    "hit_count S2 = hit_count S1 + sum_list (map found us)"
    using Cons.IH [OF s1(2,3)] Cons.prems(3) by auto
  ultimately show ?case by auto
qed simp

text \<open>
  C26: a campaign's coverage is the union of its executions'. For any number of executions
  with any callback traces, when the bytecode length is determined by the contract id, no
  merge panics, the covered facts are exactly those of all executions together, and the
  final hit count is the total of the edges and jump edges reported as new along the way.
\<close>

theorem campaign_covers_union:
  assumes "\<forall>evs \<in> set runs. trace_sized code_len evs"
  shows "\<exists>us S. campaign runs sh_new = Some (us, S)
     \<and> units S = (\<Union>evs \<in> set runs. local_units (ci_into_coverage (cov_run evs ci_new)))
     \<and> hit_count S = sum_list (map found us)"
  using campaign_ok [OF sh_new_ok(1,2) assms] by (simp add: sh_new_ok)

theorem campaign_covers_union_witness:
  "\<exists>us S. campaign [[EvInit 77 4 [] 9, EvStep 1 0x60 []], [EvInit 77 4 [] 9, EvStep 2 0x60 []]] sh_new
     = Some (us, S) \<and> hit_count S = sum_list (map found us)"
  using campaign_covers_union [of "[[EvInit 77 4 [] 9, EvStep 1 0x60 []], [EvInit 77 4 [] 9, EvStep 2 0x60 []]]"
      "\<lambda>_. 4"] by (auto simp: trace_sized_def)

end
