(* ===== verification/Chain.thy ===== *)
theory Chain
  imports Tx_Result Shared_Coverage
begin

section \<open>The chain: transactions, execution, deployment\<close>

text \<open>
  \<open>src/src/evm/chain/mod.rs\<close> with \<open>transaction.rs\<close>, \<open>deploy.rs\<close>, \<open>setup.rs\<close>,
  \<open>exec.rs\<close>, \<open>config.rs\<close> and \<open>linker.rs\<close>. The EVM itself (\<open>revm\<close>'s
  \<open>inspect_tx_commit\<close>) is the parameter \<open>ro_step\<close>: it takes a transaction and the machine
  (database, block and configuration environment, installed inspectors) and returns the
  execution result with the machine after it, or fails. The parameters \<open>'db\<close>, \<open>'env\<close>,
  \<open>'cheat\<close> and \<open>'trace\<close> are the types of the database, of the two environments, of the
  cheatcode inspector's state and of the trace. Wall clock and the per-thread RPC counters
  are observations of a step. An operation returns its result and the chain after it,
  because a failing one changes the chain too: \<open>Option::take\<close> moves the database out first.
\<close>

subsection \<open>Transactions\<close>

definition DEFAULT_DEPLOYER :: address where
  "DEFAULT_DEPLOYER = 0xd93a248535ef447440e7d63a2aff6c3e75b235c7"

record transaction =
  tx_caller :: address
  tx_target :: address
  tx_calldata :: bytes
  tx_value :: u256
  tx_gas_limit :: u64

definition tx_new :: "address \<Rightarrow> transaction" where
  "tx_new target =
     \<lparr>tx_caller = DEFAULT_DEPLOYER, tx_target = target, tx_calldata = [], tx_value = 0,
      tx_gas_limit = - 1\<rparr>"

definition tx_with_calldata :: "bytes \<Rightarrow> transaction \<Rightarrow> transaction" where
  "tx_with_calldata calldata t = t\<lparr>tx_calldata := calldata\<rparr>"

definition tx_with_caller :: "address \<Rightarrow> transaction \<Rightarrow> transaction" where
  "tx_with_caller caller t = t\<lparr>tx_caller := caller\<rparr>"

definition tx_with_value :: "u256 \<Rightarrow> transaction \<Rightarrow> transaction" where
  "tx_with_value v t = t\<lparr>tx_value := v\<rparr>"

definition tx_with_gas_limit :: "u64 \<Rightarrow> transaction \<Rightarrow> transaction" where
  "tx_with_gas_limit gas t = t\<lparr>tx_gas_limit := gas\<rparr>"

datatype tx_kind = TxCreate | TxCall address

record tx_env =
  te_caller :: address
  te_kind :: tx_kind
  te_data :: bytes
  te_gas_limit :: u64
  te_value :: u256
  te_chain_id :: "u64 option"

subsection \<open>The machine\<close>

record ('db, 'env, 'cheat, 'trace) evm =
  ev_db :: 'db
  ev_env :: 'env
  ev_cheat :: "'cheat option"
  ev_trace :: "'trace option"
  ev_cov :: "cov_inspector option"

record ('db, 'env, 'cheat, 'trace) step_out =
  so_result :: exec_result
  so_elapsed :: nat
  so_rpc_before :: rpc_stats
  so_rpc_after :: rpc_stats
  so_evm :: "('db, 'env, 'cheat, 'trace) evm"

record ('db, 'env, 'cheat, 'trace) revm_ops =
  ro_step :: "tx_env \<Rightarrow> ('db, 'env, 'cheat, 'trace) evm \<Rightarrow> ('db, 'env, 'cheat, 'trace) step_out option"
  ro_chain_id :: "'env \<Rightarrow> u64"
  ro_trace_new :: 'trace
  ro_abi :: sol_abi
  ro_parse_hex :: "string \<Rightarrow> bytes option"
  ro_keccak_hex :: "string \<Rightarrow> string"
  ro_address_hex :: "address \<Rightarrow> string"
  ro_insert_account :: "address \<Rightarrow> u256 \<Rightarrow> 'db \<Rightarrow> 'db"

record chain_config =
  cfg_trace :: bool
  cfg_coverage :: bool

definition cfg_set_trace :: "bool \<Rightarrow> chain_config \<Rightarrow> chain_config" where
  "cfg_set_trace enabled c = c\<lparr>cfg_trace := enabled\<rparr>"

definition cfg_with_coverage :: "bool \<Rightarrow> chain_config \<Rightarrow> chain_config" where
  "cfg_with_coverage enabled c = c\<lparr>cfg_coverage := enabled\<rparr>"

record ('db, 'env, 'cheat) chain =
  ch_db :: "'db option"
  ch_env :: 'env
  ch_deployer :: address
  ch_config :: chain_config
  ch_cheat :: 'cheat

definition chain_set_trace :: "bool \<Rightarrow> ('db, 'env, 'cheat) chain \<Rightarrow> ('db, 'env, 'cheat) chain" where
  "chain_set_trace enabled ch = ch\<lparr>ch_config := cfg_set_trace enabled (ch_config ch)\<rparr>"

datatype chain_error =
    Database_Unavailable
  | Revm_Failed
  | Library_Failed string
  | Library_Address_Missing string

definition chain_seed_account ::
  "('db, 'env, 'cheat, 'trace) revm_ops \<Rightarrow> address \<Rightarrow> u256 \<Rightarrow> ('db, 'env, 'cheat) chain \<Rightarrow>
   (chain_error + unit) \<times> ('db, 'env, 'cheat) chain" where
  "chain_seed_account RO a balance ch =
     (case ch_db ch of
        None \<Rightarrow> (Inl Database_Unavailable, ch)
      | Some db \<Rightarrow> (Inr (), ch\<lparr>ch_db := Some (ro_insert_account RO a balance db)\<rparr>))"

subsection \<open>Executing a sequence\<close>

record 'trace exec_output =
  eo_results :: "tx_result list"
  eo_trace :: "'trace option"
  eo_coverage :: "exec_coverage option"
  eo_broken_invariants :: "bi_report list list"

definition exec_tx ::
  "('db, 'env, 'cheat, 'trace) revm_ops \<Rightarrow> transaction \<Rightarrow> ('db, 'env, 'cheat, 'trace) evm \<Rightarrow>
   chain_error + tx_result \<times> ('db, 'env, 'cheat, 'trace) evm" where
  "exec_tx RO t evm =
     (let env = \<lparr>te_caller = tx_caller t, te_kind = TxCall (tx_target t), te_data = tx_calldata t,
                 te_gas_limit = tx_gas_limit t, te_value = tx_value t,
                 te_chain_id = Some (ro_chain_id RO (ev_env evm))\<rparr>
      in case ro_step RO env evm of
           None \<Rightarrow> Inl Revm_Failed
         | Some out \<Rightarrow>
             Inr ((tx_result_from (so_result out))
                    \<lparr>tr_elapsed := so_elapsed out,
                     tr_rpc := rpc_saturating_sub (so_rpc_after out) (so_rpc_before out)\<rparr>,
                  so_evm out))"

fun exec_loop ::
  "('db, 'env, 'cheat, 'trace) revm_ops \<Rightarrow> transaction list \<Rightarrow> ('db, 'env, 'cheat, 'trace) evm \<Rightarrow>
   tx_result list \<Rightarrow> bi_report list list \<Rightarrow>
   chain_error + (tx_result list \<times> bi_report list list \<times> ('db, 'env, 'cheat, 'trace) evm)" where
  "exec_loop RO [] evm results broken = Inr (results, broken, evm)"
| "exec_loop RO (t # ts) evm results broken =
     (case exec_tx RO t evm of
        Inl e \<Rightarrow> Inl e
      | Inr (r, evm') \<Rightarrow>
          exec_loop RO ts evm' (results @ [r])
            (broken @ [case broken_invariant (ro_abi RO) r of None \<Rightarrow> [] | Some rep \<Rightarrow> [rep]]))"

definition chain_exec ::
  "('db, 'env, 'cheat, 'trace) revm_ops \<Rightarrow> transaction list \<Rightarrow> ('db, 'env, 'cheat) chain \<Rightarrow>
   (chain_error + 'trace exec_output) \<times> ('db, 'env, 'cheat) chain" where
  "chain_exec RO txs ch =
     (case ch_db ch of
        None \<Rightarrow> (Inl Database_Unavailable, ch)
      | Some db \<Rightarrow>
          let taken = ch\<lparr>ch_db := None\<rparr>;
              evm = \<lparr>ev_db = db, ev_env = ch_env ch, ev_cheat = Some (ch_cheat ch),
                     ev_trace = (if cfg_trace (ch_config ch) then Some (ro_trace_new RO) else None),
                     ev_cov = (if cfg_coverage (ch_config ch) then Some ci_new else None)\<rparr>
          in case exec_loop RO txs evm [] [] of
               Inl e \<Rightarrow> (Inl e, taken)
             | Inr (results, broken, evm') \<Rightarrow>
                 (Inr \<lparr>eo_results = results, eo_trace = ev_trace evm',
                       eo_coverage = map_option ci_into_coverage (ev_cov evm'),
                       eo_broken_invariants = broken\<rparr>,
                  taken\<lparr>ch_db := Some (ev_db evm'), ch_env := ev_env evm'\<rparr>))"

subsection \<open>Single transactions\<close>

text \<open>\<open>inspect\<close>: the inspectors are the ones the caller installs; they are returned.\<close>

definition chain_inspect ::
  "('db, 'env, 'cheat, 'trace) revm_ops \<Rightarrow> tx_env \<Rightarrow> 'cheat option \<Rightarrow> 'trace option \<Rightarrow>
   cov_inspector option \<Rightarrow> ('db, 'env, 'cheat) chain \<Rightarrow>
   (chain_error + tx_result \<times> 'cheat option \<times> 'trace option \<times> cov_inspector option)
   \<times> ('db, 'env, 'cheat) chain" where
  "chain_inspect RO t cheat trace cov ch =
     (case ch_db ch of
        None \<Rightarrow> (Inl Database_Unavailable, ch)
      | Some db \<Rightarrow>
          let taken = ch\<lparr>ch_db := None\<rparr>;
              evm = \<lparr>ev_db = db, ev_env = ch_env ch, ev_cheat = cheat, ev_trace = trace,
                     ev_cov = cov\<rparr>
          in case ro_step RO t evm of
               None \<Rightarrow> (Inl Revm_Failed, taken)
             | Some out \<Rightarrow>
                 let evm' = so_evm out in
                 (Inr (tx_result_from (so_result out), ev_cheat evm', ev_trace evm', ev_cov evm'),
                  taken\<lparr>ch_db := Some (ev_db evm'), ch_env := ev_env evm'\<rparr>))"

definition chain_transact ::
  "('db, 'env, 'cheat, 'trace) revm_ops \<Rightarrow> tx_env \<Rightarrow> ('db, 'env, 'cheat) chain \<Rightarrow>
   (chain_error + tx_result) \<times> ('db, 'env, 'cheat) chain" where
  "chain_transact RO t ch =
     (case chain_inspect RO t None None None ch of
        (Inl e, ch') \<Rightarrow> (Inl e, ch')
      | (Inr (r, _), ch') \<Rightarrow> (Inr r, ch'))"

definition chain_call ::
  "('db, 'env, 'cheat, 'trace) revm_ops \<Rightarrow> address \<Rightarrow> address \<Rightarrow> u256 \<Rightarrow> bytes \<Rightarrow>
   ('db, 'env, 'cheat) chain \<Rightarrow> (chain_error + tx_result) \<times> ('db, 'env, 'cheat) chain" where
  "chain_call RO caller target v data ch =
     chain_transact RO \<lparr>te_caller = caller, te_kind = TxCall target, te_data = data,
       te_gas_limit = - 1, te_value = v, te_chain_id = Some (ro_chain_id RO (ch_env ch))\<rparr> ch"

subsection \<open>Deployment and setup\<close>

record deploy_lib_output =
  dl_id :: string
  dl_address :: address

record 'trace deploy_output =
  do_address :: "address option"
  do_libraries :: "deploy_lib_output list"
  do_result :: tx_result
  do_trace :: "'trace option"
  do_coverage :: "exec_coverage option"

text \<open>\<open>deploy_raw\<close> and \<open>setup\<close> run with all inspectors and keep the cheatcode state.\<close>

definition chain_inspect_all ::
  "('db, 'env, 'cheat, 'trace) revm_ops \<Rightarrow> tx_env \<Rightarrow> ('db, 'env, 'cheat) chain \<Rightarrow>
   (chain_error + tx_result \<times> 'trace option \<times> exec_coverage option) \<times> ('db, 'env, 'cheat) chain" where
  "chain_inspect_all RO t ch =
     (case chain_inspect RO t (Some (ch_cheat ch)) (Some (ro_trace_new RO)) (Some ci_new) ch of
        (Inl e, ch') \<Rightarrow> (Inl e, ch')
      | (Inr (r, cheat, trace, cov), ch') \<Rightarrow>
          (Inr (r, trace, map_option ci_into_coverage cov),
           case cheat of None \<Rightarrow> ch' | Some c \<Rightarrow> ch'\<lparr>ch_cheat := c\<rparr>))"

definition deploy_raw ::
  "('db, 'env, 'cheat, 'trace) revm_ops \<Rightarrow> address \<Rightarrow> u256 \<Rightarrow> bytes \<Rightarrow> u64 \<Rightarrow>
   ('db, 'env, 'cheat) chain \<Rightarrow> (chain_error + 'trace deploy_output) \<times> ('db, 'env, 'cheat) chain" where
  "deploy_raw RO caller v initcode gas ch =
     (case chain_inspect_all RO
             \<lparr>te_caller = caller, te_kind = TxCreate, te_data = initcode, te_gas_limit = gas,
              te_value = v, te_chain_id = Some (ro_chain_id RO (ch_env ch))\<rparr> ch of
        (Inl e, ch') \<Rightarrow> (Inl e, ch')
      | (Inr (r, trace, cov), ch') \<Rightarrow>
          (Inr \<lparr>do_address = tr_created r, do_libraries = [], do_result = r, do_trace = trace,
                do_coverage = cov\<rparr>, ch'))"

record setup_input =
  si_caller :: address
  si_target :: address
  si_calldata :: bytes
  si_value :: u256
  si_gas_limit :: u64

definition setup_new :: "bytes \<Rightarrow> address \<Rightarrow> setup_input" where
  "setup_new setup_selector target =
     \<lparr>si_caller = DEFAULT_DEPLOYER, si_target = target, si_calldata = setup_selector, si_value = 0,
      si_gas_limit = - 1\<rparr>"

record 'trace setup_output =
  su_result :: tx_result
  su_trace :: "'trace option"
  su_coverage :: "exec_coverage option"

definition chain_setup ::
  "('db, 'env, 'cheat, 'trace) revm_ops \<Rightarrow> setup_input \<Rightarrow> ('db, 'env, 'cheat) chain \<Rightarrow>
   (chain_error + 'trace setup_output) \<times> ('db, 'env, 'cheat) chain" where
  "chain_setup RO opts ch =
     (case chain_inspect_all RO
             \<lparr>te_caller = si_caller opts, te_kind = TxCall (si_target opts),
              te_data = si_calldata opts, te_gas_limit = si_gas_limit opts,
              te_value = si_value opts, te_chain_id = Some (ro_chain_id RO (ch_env ch))\<rparr> ch of
        (Inl e, ch') \<Rightarrow> (Inl e, ch')
      | (Inr (r, trace, cov), ch') \<Rightarrow>
          (Inr \<lparr>su_result = r, su_trace = trace, su_coverage = cov\<rparr>, ch'))"

datatype lib_input = Lib (li_id: string) (li_initcode: string) (li_libraries: "lib_input list")

record deploy_input =
  di_caller :: address
  di_value :: u256
  di_initcode :: string
  di_libraries :: "lib_input list"
  di_gas_limit :: u64

definition deploy_input_new :: "string \<Rightarrow> deploy_input" where
  "deploy_input_new initcode =
     \<lparr>di_caller = DEFAULT_DEPLOYER, di_value = 0, di_initcode = initcode, di_libraries = [],
      di_gas_limit = - 1\<rparr>"

definition get_library_placeholder :: "(string \<Rightarrow> string) \<Rightarrow> string \<Rightarrow> string" where
  "get_library_placeholder keccak_hex identifier =
     ''__$'' @ take 34 (keccak_hex identifier) @ ''$__''"

text \<open>The library map in its iteration order.\<close>

definition link_libraries ::
  "('db, 'env, 'cheat, 'trace) revm_ops \<Rightarrow> string \<Rightarrow> (string \<times> address) list \<Rightarrow> string" where
  "link_libraries RO initcode libs =
     fold (\<lambda>(identifier, a) hex.
             str_replace (get_library_placeholder (ro_keccak_hex RO) identifier)
                         (ro_address_hex RO a) hex) libs initcode"

definition parse_initcode :: "('db, 'env, 'cheat, 'trace) revm_ops \<Rightarrow> string \<Rightarrow> bytes" where
  "parse_initcode RO s = (case ro_parse_hex RO s of None \<Rightarrow> [] | Some bs \<Rightarrow> bs)"

type_synonym lib_addrs = "(string \<times> address) list"

text \<open>The part of \<open>deploy_library\<close> after its nested dependencies.\<close>

definition deploy_one ::
  "('db, 'env, 'cheat, 'trace) revm_ops \<Rightarrow> address \<Rightarrow> string \<Rightarrow> string \<Rightarrow>
   lib_addrs \<times> ('db, 'env, 'cheat) chain \<Rightarrow>
   (chain_error + deploy_lib_output) \<times> lib_addrs \<times> ('db, 'env, 'cheat) chain" where
  "deploy_one RO deployer identifier code st =
     (let (addrs, ch) = st in
      case map_of addrs identifier of
        Some a \<Rightarrow> (Inr \<lparr>dl_id = identifier, dl_address = a\<rparr>, addrs, ch)
      | None \<Rightarrow>
          (case deploy_raw RO deployer 0 (parse_initcode RO (link_libraries RO code addrs)) (- 1) ch of
             (Inl e, ch') \<Rightarrow> (Inl e, addrs, ch')
           | (Inr out, ch') \<Rightarrow>
               if \<not> tr_success (do_result out) then (Inl (Library_Failed identifier), addrs, ch')
               else case do_address out of
                      None \<Rightarrow> (Inl (Library_Address_Missing identifier), addrs, ch')
                    | Some a \<Rightarrow>
                        (Inr \<lparr>dl_id = identifier, dl_address = a\<rparr>,
                         AList.update identifier a addrs, ch')))"

fun deploy_library ::
  "('db, 'env, 'cheat, 'trace) revm_ops \<Rightarrow> address \<Rightarrow> lib_input \<Rightarrow>
   lib_addrs \<times> ('db, 'env, 'cheat) chain \<Rightarrow>
   (chain_error + deploy_lib_output) \<times> lib_addrs \<times> ('db, 'env, 'cheat) chain"
and deploy_library_list ::
  "('db, 'env, 'cheat, 'trace) revm_ops \<Rightarrow> address \<Rightarrow> lib_input list \<Rightarrow>
   lib_addrs \<times> ('db, 'env, 'cheat) chain \<Rightarrow>
   (chain_error + unit) \<times> lib_addrs \<times> ('db, 'env, 'cheat) chain" where
  "deploy_library RO deployer (Lib identifier code nested) st =
     (case deploy_library_list RO deployer nested st of
        (Inl e, st') \<Rightarrow> (Inl e, st')
      | (Inr _, st') \<Rightarrow> deploy_one RO deployer identifier code st')"
| "deploy_library_list RO deployer [] st = (Inr (), st)"
| "deploy_library_list RO deployer (lib # libs) st =
     (case deploy_library RO deployer lib st of
        (Inl e, st') \<Rightarrow> (Inl e, st')
      | (Inr _, st') \<Rightarrow> deploy_library_list RO deployer libs st')"

definition deploy_libraries ::
  "('db, 'env, 'cheat, 'trace) revm_ops \<Rightarrow> lib_input list \<Rightarrow> address \<Rightarrow> ('db, 'env, 'cheat) chain \<Rightarrow>
   (chain_error + lib_addrs) \<times> ('db, 'env, 'cheat) chain" where
  "deploy_libraries RO libs deployer ch =
     (case deploy_library_list RO deployer libs ([], ch) of
        (Inl e, _, ch') \<Rightarrow> (Inl e, ch')
      | (Inr _, addrs, ch') \<Rightarrow> (Inr addrs, ch'))"

definition chain_deploy ::
  "('db, 'env, 'cheat, 'trace) revm_ops \<Rightarrow> deploy_input \<Rightarrow> ('db, 'env, 'cheat) chain \<Rightarrow>
   (chain_error + 'trace deploy_output) \<times> ('db, 'env, 'cheat) chain" where
  "chain_deploy RO opts ch =
     (case deploy_libraries RO (di_libraries opts) (di_caller opts) ch of
        (Inl e, ch') \<Rightarrow> (Inl e, ch')
      | (Inr addrs, ch') \<Rightarrow>
          let initcode = (if addrs = [] then di_initcode opts
                          else link_libraries RO (di_initcode opts) addrs)
          in case deploy_raw RO (di_caller opts) (di_value opts) (parse_initcode RO initcode)
                    (di_gas_limit opts) ch' of
               (Inl e, ch'') \<Rightarrow> (Inl e, ch'')
             | (Inr out, ch'') \<Rightarrow>
                 (Inr (out\<lparr>do_libraries := map (\<lambda>(i, a). \<lparr>dl_id = i, dl_address = a\<rparr>) addrs\<rparr>),
                  ch''))"

subsection \<open>Execution reports\<close>

definition report_list :: "sol_abi \<Rightarrow> tx_result \<Rightarrow> bi_report list" where
  "report_list A r = (case broken_invariant A r of None \<Rightarrow> [] | Some rep \<Rightarrow> [rep])"

lemma length_report_list: "length (report_list A r) \<le> 1"
  by (simp add: report_list_def split: option.splits)

lemma exec_loop_Inr:
  "exec_loop RO ts evm rs bs = Inr (rs', bs', evm') \<Longrightarrow>
   \<exists>new. rs' = rs @ new \<and> length new = length ts \<and> bs' = bs @ map (report_list (ro_abi RO)) new"
proof (induction ts arbitrary: evm rs bs)
  case (Cons t ts)
  from Cons.prems obtain r evm1 where
    "exec_loop RO ts evm1 (rs @ [r]) (bs @ [report_list (ro_abi RO) r]) = Inr (rs', bs', evm')"
    by (auto simp: report_list_def split: sum.splits)
  from Cons.IH [OF this] obtain new where
    "rs' = (rs @ [r]) @ new" "length new = length ts"
    "bs' = (bs @ [report_list (ro_abi RO) r]) @ map (report_list (ro_abi RO)) new" by blast
  then show ?case by (intro exI [of _ "r # new"]) simp
qed simp

lemma chain_exec_Inr:
  assumes "chain_exec RO txs ch = (Inr out, ch')"
  obtains db evm' where "ch_db ch = Some db"
    and "exec_loop RO txs
       \<lparr>ev_db = db, ev_env = ch_env ch, ev_cheat = Some (ch_cheat ch),
        ev_trace = (if cfg_trace (ch_config ch) then Some (ro_trace_new RO) else None),
        ev_cov = (if cfg_coverage (ch_config ch) then Some ci_new else None)\<rparr> [] []
       = Inr (eo_results out, eo_broken_invariants out, evm')"
    and "eo_trace out = ev_trace evm'" and "eo_coverage out = map_option ci_into_coverage (ev_cov evm')"
    and "ch' = ch\<lparr>ch_db := Some (ev_db evm'), ch_env := ev_env evm'\<rparr>"
proof -
  from assms obtain db where db: "ch_db ch = Some db"
    by (auto simp: chain_exec_def split: option.splits)
  with assms that show ?thesis
    by (auto simp: chain_exec_def Let_def split: sum.splits)
qed

lemma chain_exec_results:
  assumes "chain_exec RO txs ch = (Inr out, ch')"
  shows "length (eo_results out) = length txs
   \<and> eo_broken_invariants out = map (report_list (ro_abi RO)) (eo_results out)"
  by (rule chain_exec_Inr [OF assms]) (auto dest!: exec_loop_Inr)

text \<open>
  The outputs of a sequence execution are aligned. When \<open>exec\<close> succeeds there is exactly
  one result per transaction, in order, and one list of broken invariants per transaction,
  holding at most one report, which is the one decoded from that transaction's own revert
  data; the cheatcode state, configuration and deployer of the chain are not changed, and
  the database is back in place.
\<close>

theorem exec_outputs_aligned:
  assumes "chain_exec RO txs ch = (Inr out, ch')"
  shows "length (eo_results out) = length txs
   \<and> length (eo_broken_invariants out) = length txs
   \<and> (\<forall>i < length txs. eo_broken_invariants out ! i = report_list (ro_abi RO) (eo_results out ! i)
        \<and> length (eo_broken_invariants out ! i) \<le> 1)
   \<and> ch_db ch' \<noteq> None \<and> ch_cheat ch' = ch_cheat ch \<and> ch_config ch' = ch_config ch
   \<and> ch_deployer ch' = ch_deployer ch"
proof -
  have "ch_db ch' \<noteq> None \<and> ch_cheat ch' = ch_cheat ch \<and> ch_config ch' = ch_config ch
     \<and> ch_deployer ch' = ch_deployer ch"
    by (rule chain_exec_Inr [OF assms]) auto
  with chain_exec_results [OF assms] show ?thesis
    using length_report_list [of "ro_abi RO"] by simp
qed

text \<open>A concrete machine for the witnesses: the database counts transactions, calldata that
  is empty succeeds, other calldata reverts with itself as output, gas limit 0 fails.\<close>

definition demo_step ::
  "tx_env \<Rightarrow> (nat, u64, unit, unit) evm \<Rightarrow> (nat, u64, unit, unit) step_out option" where
  "demo_step t evm =
     (if te_gas_limit t = 0 then None
      else Some \<lparr>so_result =
                   (case te_kind t of
                      TxCreate \<Rightarrow> ExSuccess 1 [] (OutCreate [] (Some (of_nat (ev_db evm + 100))))
                    | TxCall a \<Rightarrow> if te_data t = [] then ExSuccess 1 [] (OutCall [])
                                 else ExRevert 1 [] (te_data t)),
                 so_elapsed = 0, so_rpc_before = rpc_zero, so_rpc_after = rpc_zero,
                 so_evm = evm\<lparr>ev_db := ev_db evm + 1,
                              ev_cov := map_option (cov_run [EvInit 77 4 [] 9,
                                EvStep (length (te_data t)) 0x60 []]) (ev_cov evm)\<rparr>\<rparr>)"

definition demo_ops :: "(nat, u64, unit, unit) revm_ops" where
  "demo_ops =
     \<lparr>ro_step = demo_step, ro_chain_id = (\<lambda>e. e), ro_trace_new = (), ro_abi = demo_abi,
      ro_parse_hex = (\<lambda>s. None), ro_keccak_hex = (\<lambda>s. s), ro_address_hex = (\<lambda>a. ''aa''),
      ro_insert_account = (\<lambda>a v db. db)\<rparr>"

definition demo_chain :: "(nat, u64, unit) chain" where
  "demo_chain =
     \<lparr>ch_db = Some 0, ch_env = 1, ch_deployer = DEFAULT_DEPLOYER,
      ch_config = \<lparr>cfg_trace = False, cfg_coverage = True\<rparr>, ch_cheat = ()\<rparr>"

definition demo_report :: bytes where
  "demo_report = [0xb1, 0, 0, 1, 65]"

theorem exec_outputs_aligned_witness:
  "length (eo_broken_invariants (projr (fst (chain_exec demo_ops
      [tx_new 1, tx_with_calldata demo_report (tx_new 1)] demo_chain)))) = 2"
proof -
  obtain out ch' where run: "chain_exec demo_ops
      [tx_new 1, tx_with_calldata demo_report (tx_new 1)] demo_chain = (Inr out, ch')"
    by (simp add: chain_exec_def demo_chain_def exec_tx_def demo_ops_def demo_step_def tx_new_def
        tx_with_calldata_def Let_def demo_report_def)
  from exec_outputs_aligned [OF run] show ?thesis by (simp add: run)
qed

text \<open>The inspectors are only driven through their callbacks.\<close>

definition revm_ok :: "('db, 'env, 'cheat, 'trace) revm_ops \<Rightarrow> bool" where
  "revm_ok RO \<longleftrightarrow> (\<forall>t evm out. ro_step RO t evm = Some out \<longrightarrow>
     (ev_trace (so_evm out) = None \<longleftrightarrow> ev_trace evm = None)
     \<and> (\<exists>evs. ev_cov (so_evm out) = map_option (cov_run evs) (ev_cov evm)))"

lemma demo_ops_ok: "revm_ok demo_ops"
  unfolding revm_ok_def demo_ops_def demo_step_def by auto

lemma exec_tx_inspectors:
  assumes "revm_ok RO" and "exec_tx RO t evm = Inr (r, evm')"
  shows "(ev_trace evm' = None \<longleftrightarrow> ev_trace evm = None)
     \<and> (\<exists>evs. ev_cov evm' = map_option (cov_run evs) (ev_cov evm))"
  using assms unfolding revm_ok_def exec_tx_def Let_def by (auto split: option.splits)

lemma exec_loop_inspectors:
  assumes "revm_ok RO"
  shows "exec_loop RO ts evm rs bs = Inr (rs', bs', evm') \<Longrightarrow>
    (ev_trace evm' = None \<longleftrightarrow> ev_trace evm = None)
    \<and> (\<exists>evs. ev_cov evm' = map_option (cov_run evs) (ev_cov evm))"
proof (induction ts arbitrary: evm rs bs)
  case Nil
  have "map_option (cov_run []) c = c" for c by (cases c) simp_all
  with Nil show ?case by (metis exec_loop.simps(1) prod.inject sum.inject(2))
next
  case (Cons t ts)
  from Cons.prems obtain r evm1 bs1 where s: "exec_tx RO t evm = Inr (r, evm1)"
    "exec_loop RO ts evm1 (rs @ [r]) bs1 = Inr (rs', bs', evm')"
    by (auto split: sum.splits)
  note i1 = exec_tx_inspectors [OF assms s(1)] and i2 = Cons.IH [OF s(2)]
  from i1 obtain evs1 where "ev_cov evm1 = map_option (cov_run evs1) (ev_cov evm)" by auto
  moreover from i2 obtain evs2 where "ev_cov evm' = map_option (cov_run evs2) (ev_cov evm1)" by auto
  ultimately have "ev_cov evm' = map_option (cov_run (evs1 @ evs2)) (ev_cov evm)"
    by (simp add: option.map_comp comp_def fun_eq_iff cong: option.map_cong)
  moreover have "ev_trace evm' = None \<longleftrightarrow> ev_trace evm = None" using i1 i2 by simp
  ultimately show ?case by auto
qed

lemma chain_exec_coverage:
  assumes "revm_ok RO" and "chain_exec RO txs ch = (Inr out, ch')"
  shows "eo_trace out = None \<longleftrightarrow> \<not> cfg_trace (ch_config ch)"
    and "if cfg_coverage (ch_config ch)
         then \<exists>evs. eo_coverage out = Some (ci_into_coverage (cov_run evs ci_new))
         else eo_coverage out = None"
proof -
  from chain_exec_Inr [OF assms(2)] obtain db evm' where
    run: "exec_loop RO txs
       \<lparr>ev_db = db, ev_env = ch_env ch, ev_cheat = Some (ch_cheat ch),
        ev_trace = (if cfg_trace (ch_config ch) then Some (ro_trace_new RO) else None),
        ev_cov = (if cfg_coverage (ch_config ch) then Some ci_new else None)\<rparr> [] []
       = Inr (eo_results out, eo_broken_invariants out, evm')"
    and out: "eo_trace out = ev_trace evm'" "eo_coverage out = map_option ci_into_coverage (ev_cov evm')"
    by metis
  from exec_loop_inspectors [OF assms(1) run] out
  show "eo_trace out = None \<longleftrightarrow> \<not> cfg_trace (ch_config ch)"
    and "if cfg_coverage (ch_config ch)
         then \<exists>evs. eo_coverage out = Some (ci_into_coverage (cov_run evs ci_new))
         else eo_coverage out = None" by (auto split: if_splits)
qed

text \<open>
  An execution returns a trace exactly when tracing is enabled and coverage exactly when
  coverage is enabled, and that coverage is well formed: it can be merged into the shared map
  of a campaign without a panic.
\<close>

theorem exec_collects_what_is_enabled:
  assumes "revm_ok RO" and "chain_exec RO txs ch = (Inr out, ch')"
  shows "(eo_trace out = None \<longleftrightarrow> \<not> cfg_trace (ch_config ch))
     \<and> (eo_coverage out = None \<longleftrightarrow> \<not> cfg_coverage (ch_config ch))
     \<and> (\<forall>L. eo_coverage out = Some L \<longrightarrow> cov_wf L)"
proof -
  have "cov_wf (ci_into_coverage (cov_run evs ci_new))" for evs
    using cov_run_wf [OF ci_new_wf, of evs] by (simp add: ci_wf_def ci_into_coverage_def)
  with chain_exec_coverage [OF assms] show ?thesis by (auto split: if_splits)
qed

theorem exec_collects_what_is_enabled_witness:
  "\<exists>out ch'. chain_exec demo_ops [tx_new 1] demo_chain = (Inr out, ch') \<and> eo_coverage out \<noteq> None
     \<and> eo_trace out = None"
proof -
  obtain out ch' where run: "chain_exec demo_ops [tx_new 1] demo_chain = (Inr out, ch')"
    by (simp add: chain_exec_def demo_chain_def exec_tx_def demo_ops_def demo_step_def tx_new_def Let_def)
  from exec_collects_what_is_enabled [OF demo_ops_ok run] run show ?thesis
    by (simp add: demo_chain_def)
qed

subsection \<open>Failures\<close>

lemma unavailable:
  assumes "ch_db ch = None"
  shows "chain_exec RO txs ch = (Inl Database_Unavailable, ch)"
    and "chain_transact RO t ch = (Inl Database_Unavailable, ch)"
    and "chain_setup RO si ch = (Inl Database_Unavailable, ch)"
    and "deploy_raw RO c v code gas ch = (Inl Database_Unavailable, ch)"
    and "chain_seed_account RO a v ch = (Inl Database_Unavailable, ch)"
  using assms
  by (simp_all add: chain_exec_def chain_transact_def chain_inspect_def chain_setup_def
      chain_inspect_all_def deploy_raw_def chain_seed_account_def)

lemma chain_exec_Inl:
  "chain_exec RO txs ch = (Inl e, ch') \<Longrightarrow> ch_db ch' = None"
  by (auto simp: chain_exec_def Let_def split: option.splits sum.splits)

text \<open>
  A failed execution consumes the database. When \<open>exec\<close> returns an error, whatever the
  chain was before, its database is gone, and from then on executing, transacting, setting up,
  deploying and seeding all fail with the database-unavailable error and leave the chain as
  it is: a chain whose EVM failed can only be thrown away.
\<close>

theorem failed_exec_is_final:
  assumes "chain_exec RO txs ch = (Inl e, ch')"
  shows "ch_db ch' = None
     \<and> chain_exec RO txs' ch' = (Inl Database_Unavailable, ch')
     \<and> chain_transact RO t ch' = (Inl Database_Unavailable, ch')
     \<and> chain_setup RO si ch' = (Inl Database_Unavailable, ch')
     \<and> deploy_raw RO c v code gas ch' = (Inl Database_Unavailable, ch')
     \<and> chain_seed_account RO a bal ch' = (Inl Database_Unavailable, ch')"
  using chain_exec_Inl [OF assms] unavailable by blast

theorem failed_exec_is_final_witness:
  "fst (chain_exec demo_ops [tx_new 1]
      (snd (chain_exec demo_ops [tx_with_gas_limit 0 (tx_new 1)] demo_chain)))
   = Inl Database_Unavailable"
proof -
  obtain ch' where run:
    "chain_exec demo_ops [tx_with_gas_limit 0 (tx_new 1)] demo_chain = (Inl Revm_Failed, ch')"
    by (simp add: chain_exec_def demo_chain_def exec_tx_def demo_ops_def demo_step_def tx_new_def
        tx_with_gas_limit_def Let_def)
  from failed_exec_is_final [OF run, of "[tx_new 1]"] show ?thesis by (simp add: run)
qed

subsection \<open>Libraries\<close>

fun lib_ids :: "lib_input \<Rightarrow> string list" and lib_list_ids :: "lib_input list \<Rightarrow> string list" where
  "lib_ids (Lib i code libs) = lib_list_ids libs @ [i]"
| "lib_list_ids [] = []"
| "lib_list_ids (l # ls) = lib_ids l @ lib_list_ids ls"

text \<open>The addresses after deploying the ids in order: each new id once, old ones kept.\<close>

definition deployed_in_order :: "string list \<Rightarrow> lib_addrs \<Rightarrow> lib_addrs \<Rightarrow> bool" where
  "deployed_in_order ids addrs addrs' \<longleftrightarrow>
     (\<exists>new. addrs' = addrs @ new \<and> map fst new = dedup_by id (set (map fst addrs)) ids)"

lemma deployed_refl: "deployed_in_order [] addrs addrs"
  by (simp add: deployed_in_order_def)

lemma deployed_trans:
  assumes "deployed_in_order xs a b" and "deployed_in_order ys b c"
  shows "deployed_in_order (xs @ ys) a c"
proof -
  from assms obtain n1 n2 where n: "b = a @ n1" "map fst n1 = dedup_by id (set (map fst a)) xs"
    "c = b @ n2" "map fst n2 = dedup_by id (set (map fst b)) ys"
    unfolding deployed_in_order_def by blast
  have "set (map fst n1) = set xs - set (map fst a)"
    using dedup_by_keys [of id "set (map fst a)" xs] n(2) by simp
  then have "set (map fst b) = set (map fst a) \<union> set xs" by (auto simp: n(1))
  then have "map fst (n1 @ n2) = dedup_by id (set (map fst a)) (xs @ ys)"
    using n(2,4) by (simp add: dedup_by_append)
  then show ?thesis by (auto simp: deployed_in_order_def n(1,3))
qed

lemma update_new_key: "k \<notin> fst ` set al \<Longrightarrow> AList.update k v al = al @ [(k, v)]"
  by (induction al) auto

lemma deploy_one_Inr:
  assumes "deploy_one RO d i code (addrs, ch) = (Inr out, addrs', ch')"
  shows "deployed_in_order [i] addrs addrs' \<and> map_of addrs' i = Some (dl_address out) \<and> dl_id out = i"
proof (cases "map_of addrs i")
  case (Some a)
  then have "i \<in> fst ` set addrs" by (metis domI dom_map_of_conv_image_fst)
  with Some assms show ?thesis by (auto simp: deploy_one_def deployed_in_order_def)
next
  case None
  then have new: "i \<notin> fst ` set addrs" by (simp add: map_of_eq_None_iff)
  from None assms obtain a where "addrs' = addrs @ [(i, a)]" "dl_address out = a" "dl_id out = i"
    by (auto simp: deploy_one_def update_new_key [OF new] split: prod.splits sum.splits if_splits
        option.splits)
  with new None show ?thesis by (auto simp: deployed_in_order_def map_add_def)
qed

lemma deploy_library_Inr:
  "deploy_library RO d lib st = (Inr out, st') \<Longrightarrow>
     deployed_in_order (lib_ids lib) (fst st) (fst st')
     \<and> map_of (fst st') (li_id lib) = Some (dl_address out)"
  "deploy_library_list RO d libs st = (Inr u, st') \<Longrightarrow>
     deployed_in_order (lib_list_ids libs) (fst st) (fst st')"
proof (induction RO d lib st and RO d libs st arbitrary: out st' and u st'
    rule: deploy_library_deploy_library_list.induct)
  case (1 RO d i code libs st)
  from 1(2) obtain u st1 where s: "deploy_library_list RO d libs st = (Inr u, st1)"
    "deploy_one RO d i code st1 = (Inr out, st')"
    by (auto split: prod.splits sum.splits)
  from 1(1) [OF s(1)] have "deployed_in_order (lib_list_ids libs) (fst st) (fst st1)" .
  moreover obtain addrs1 ch1 addrs' ch' where p: "st1 = (addrs1, ch1)" "st' = (addrs', ch')"
    by (cases st1; cases st')
  note deploy_one_Inr [OF s(2) [unfolded p]]
  ultimately show ?case by (auto simp: p intro: deployed_trans)
next
  case (2 RO d st)
  then show ?case by (simp add: deployed_refl)
next
  case (3 RO d lib libs st)
  from 3(3) obtain out st1 where s: "deploy_library RO d lib st = (Inr out, st1)"
    "deploy_library_list RO d libs st1 = (Inr u, st')"
    by (auto split: prod.splits sum.splits)
  from 3(1) [OF s(1)] 3(2) [OF s(1) [symmetric] refl s(2)] show ?case
    by (auto intro: deployed_trans)
qed

lemma deploy_libraries_Inr:
  assumes "deploy_libraries RO libs d ch = (Inr addrs, ch')"
  shows "map fst addrs = dedup_by id {} (lib_list_ids libs)"
  using assms deploy_library_Inr(2) [of RO d libs "([], ch)"]
  by (auto simp: deploy_libraries_def deployed_in_order_def split: prod.splits sum.splits)



end
