(* ===== verification/Call_Codec.thy ===== *)
theory Call_Codec
  imports Sol_Values Chain
begin

section \<open>Calls, sequences and their persisted form\<close>

text \<open>
  The call and sequence types of both modes (\<open>src/src/tester/corpus/call.rs\<close>,
  \<open>sequence.rs\<close> and \<open>src/src/maxer/call.rs\<close>, \<open>sequence.rs\<close>) with the operations that do
  not draw random values, and the codec of one persisted call (\<open>decode_call\<close> of the two
  corpora). Hexadecimal and ABI coding belong to crates: they are the record \<open>codec\<close>, whose
  documented round trips are \<open>codec_ok\<close>.
\<close>

record codec =
  cd_hex_encode :: "bytes \<Rightarrow> string"
  cd_hex_decode :: "string \<Rightarrow> bytes option"
  cd_abi_encode :: "sol_value \<Rightarrow> bytes"
  cd_abi_decode :: "abi_fn \<Rightarrow> bytes \<Rightarrow> sol_value list option"

subsection \<open>Calls\<close>

definition call_calldata :: "codec \<Rightarrow> call \<Rightarrow> bytes" where
  "call_calldata C c = fn_selector (call_fn c) @ cd_abi_encode C (call_args c)"

definition call_signature :: "call \<Rightarrow> string" where
  "call_signature c = fn_signature (call_fn c)"

definition call_transaction :: "codec \<Rightarrow> address \<Rightarrow> address \<Rightarrow> call \<Rightarrow> transaction" where
  "call_transaction C target caller c =
     tx_with_calldata (call_calldata C c) (tx_with_caller caller (tx_new target))"

definition m_call_calldata :: "codec \<Rightarrow> call \<Rightarrow> bytes" where
  "m_call_calldata C c = fn_selector (call_fn c) @ cd_abi_encode C (call_args c)"

definition m_call_transaction :: "codec \<Rightarrow> address \<Rightarrow> address \<Rightarrow> call \<Rightarrow> transaction" where
  "m_call_transaction C target caller c =
     tx_with_calldata (m_call_calldata C c) (tx_with_caller caller (tx_new target))"

subsection \<open>Sequences\<close>

definition seq_transactions :: "codec \<Rightarrow> address \<Rightarrow> address \<Rightarrow> seq_calls \<Rightarrow> transaction list" where
  "seq_transactions C target caller s = map (call_transaction C target caller) s"

text \<open>\<open>drain\<close> of an out-of-bounds range panics: the value \<open>None\<close>.\<close>

definition seq_without :: "nat \<Rightarrow> nat \<Rightarrow> 'a list \<Rightarrow> 'a list option" where
  "seq_without lo hi s =
     (if lo \<le> hi \<and> hi \<le> length s then Some (take lo s @ drop hi s) else None)"

definition m_seq_transactions :: "codec \<Rightarrow> address \<Rightarrow> address \<Rightarrow> seq_calls \<Rightarrow> transaction list" where
  "m_seq_transactions C target caller s = map (m_call_transaction C target caller) s"

definition m_seq_without :: "nat \<Rightarrow> nat \<Rightarrow> 'a list \<Rightarrow> 'a list option" where
  "m_seq_without lo hi s =
     (if lo \<le> hi \<and> hi \<le> length s then Some (take lo s @ drop hi s) else None)"

definition m_seq_prefix :: "nat \<Rightarrow> 'a list \<Rightarrow> 'a list" where
  "m_seq_prefix len s = (let e = min len (length s) in take e s)"

subsection \<open>One persisted call\<close>

record call_json =
  cj_signature :: string
  cj_calldata :: string

datatype decode_error =
    Unknown_Signature
  | Invalid_Calldata
  | Short_Calldata
  | Selector_Mismatch
  | Undecodable_Args

text \<open>\<open>trim_start_matches("0x")\<close> removes the prefix as often as it occurs.\<close>

function trim_0x :: "string \<Rightarrow> string" where
  "trim_0x s = (case strip_prefix ''0x'' s of None \<Rightarrow> s | Some t \<Rightarrow> trim_0x t)"
  by pat_completeness auto
termination
  by (relation "measure length") (auto simp: strip_prefix_Some)

declare trim_0x.simps [simp del]

definition call_to_json :: "codec \<Rightarrow> call \<Rightarrow> call_json" where
  "call_to_json C c =
     \<lparr>cj_signature = call_signature c, cj_calldata = ''0x'' @ cd_hex_encode C (call_calldata C c)\<rparr>"

definition decode_call :: "codec \<Rightarrow> abi_fn list \<Rightarrow> call_json \<Rightarrow> decode_error + call" where
  "decode_call C handlers cj =
     (case find (\<lambda>h. fn_signature h = cj_signature cj) handlers of
        None \<Rightarrow> Inl Unknown_Signature
      | Some function \<Rightarrow>
     (case cd_hex_decode C (trim_0x (cj_calldata cj)) of
        None \<Rightarrow> Inl Invalid_Calldata
      | Some data \<Rightarrow>
          if length data < 4 then Inl Short_Calldata
          else if take 4 data \<noteq> fn_selector function then Inl Selector_Mismatch
          else case cd_abi_decode C function (drop 4 data) of
                 None \<Rightarrow> Inl Undecodable_Args
               | Some args \<Rightarrow> Inr \<lparr>call_fn = function, call_args = VTuple args\<rparr>))"

definition m_decode_call :: "codec \<Rightarrow> abi_fn list \<Rightarrow> call_json \<Rightarrow> decode_error + call" where
  "m_decode_call C handlers cj =
     (case find (\<lambda>h. fn_signature h = cj_signature cj) handlers of
        None \<Rightarrow> Inl Unknown_Signature
      | Some function \<Rightarrow>
     (case cd_hex_decode C (trim_0x (cj_calldata cj)) of
        None \<Rightarrow> Inl Invalid_Calldata
      | Some data \<Rightarrow>
          if length data < 4 then Inl Short_Calldata
          else if take 4 data \<noteq> fn_selector function then Inl Selector_Mismatch
          else case cd_abi_decode C function (drop 4 data) of
                 None \<Rightarrow> Inl Undecodable_Args
               | Some args \<Rightarrow> Inr \<lparr>call_fn = function, call_args = VTuple args\<rparr>))"

text \<open>
  The documented behaviour of the codecs: hexadecimal digits decode to the bytes they encode
  and never start with \<open>0x\<close>; the arguments of a call whose values fit its inputs decode to
  themselves, for every handler. \<open>call_ok\<close> are the calls the program builds for its handlers.
\<close>

definition args_ok :: "abi_fn \<Rightarrow> sol_value list \<Rightarrow> bool" where
  "args_ok f args \<longleftrightarrow> list_all2 (\<lambda>t v. case t of None \<Rightarrow> False | Some ty \<Rightarrow> fits ty v) (fn_inputs f) args"

definition call_ok :: "abi_fn list \<Rightarrow> call \<Rightarrow> bool" where
  "call_ok handlers c \<longleftrightarrow> call_fn c \<in> set handlers \<and>
     (case call_args c of VTuple args \<Rightarrow> args_ok (call_fn c) args | _ \<Rightarrow> False)"

definition handlers_ok :: "abi_fn list \<Rightarrow> bool" where
  "handlers_ok hs \<longleftrightarrow> distinct (map fn_signature hs) \<and> list_all (\<lambda>h. length (fn_selector h) = 4) hs"

definition codec_ok :: "codec \<Rightarrow> abi_fn list \<Rightarrow> bool" where
  "codec_ok C hs \<longleftrightarrow>
     (\<forall>bs. cd_hex_decode C (cd_hex_encode C bs) = Some bs)
   \<and> (\<forall>bs. \<not> starts_with (cd_hex_encode C bs) ''0x'')
   \<and> (\<forall>f \<in> set hs. \<forall>args. args_ok f args \<longrightarrow> cd_abi_decode C f (cd_abi_encode C (VTuple args)) = Some args)"

lemma trim_0x_hex: "codec_ok C hs \<Longrightarrow> trim_0x (''0x'' @ cd_hex_encode C bs) = cd_hex_encode C bs"
proof -
  have stop: "\<not> starts_with s ''0x'' \<Longrightarrow> trim_0x s = s" for s
    by (subst trim_0x.simps) (simp add: strip_prefix_def)
  have go: "trim_0x (''0x'' @ s) = trim_0x s" for s
    by (subst trim_0x.simps) (simp only: strip_prefix_append option.case)
  assume "codec_ok C hs"
  then have "\<not> starts_with (cd_hex_encode C bs) ''0x''" by (simp add: codec_ok_def)
  then show ?thesis unfolding go by (rule stop)
qed

lemma find_distinct:
  "distinct (map f xs) \<Longrightarrow> x \<in> set xs \<Longrightarrow> find (\<lambda>y. f y = f x) xs = Some x"
  by (induction xs) auto

lemma decode_call_to_json:
  assumes "codec_ok C hs" and "handlers_ok hs" and "call_ok hs c"
  shows "decode_call C hs (call_to_json C c) = Inr c"
proof -
  obtain args where args: "call_args c = VTuple args" "args_ok (call_fn c) args"
    using assms(3) by (auto simp: call_ok_def split: sol_value.splits)
  have mem: "call_fn c \<in> set hs" using assms(3) by (simp add: call_ok_def)
  have "find (\<lambda>h. fn_signature h = fn_signature (call_fn c)) hs = Some (call_fn c)"
    using find_distinct [OF _ mem, of fn_signature] assms(2) by (simp add: handlers_ok_def)
  moreover have "length (fn_selector (call_fn c)) = 4"
    using assms(2) mem by (simp add: handlers_ok_def list_all_iff)
  ultimately show ?thesis
    using assms(1) mem args trim_0x_hex [OF assms(1), of "call_calldata C c"]
    by (simp add: decode_call_def call_to_json_def call_signature_def call_calldata_def codec_ok_def)
qed

lemma m_decode_call_eq: "m_decode_call = decode_call"
  by (intro ext) (simp add: m_decode_call_def decode_call_def)

lemma m_call_transaction_eq: "m_call_transaction = call_transaction"
  by (intro ext) (simp add: m_call_transaction_def call_transaction_def m_call_calldata_def
      call_calldata_def)

lemma decode_call_handler:
  "decode_call C hs cj = Inr c \<Longrightarrow>
     call_fn c \<in> set hs \<and> fn_signature (call_fn c) = cj_signature cj"
  by (auto simp: decode_call_def find_Some_iff split: option.splits if_splits)

text \<open>A concrete codec for the witnesses: only nullary functions have arguments.\<close>

definition demo_codec :: codec where
  "demo_codec =
     \<lparr>cd_hex_encode = demo_hex_encode, cd_hex_decode = demo_hex_decode,
      cd_abi_encode = (\<lambda>v. []),
      cd_abi_decode = (\<lambda>f bs. if fn_inputs f = [] then Some [] else None)\<rparr>"

definition demo_handlers :: "abi_fn list" where
  "demo_handlers = [demo_fn 1]"

lemma demo_handlers_ok: "handlers_ok demo_handlers"
  by (simp add: handlers_ok_def demo_handlers_def demo_fn_def)

lemma demo_codec_ok: "codec_ok demo_codec demo_handlers"
  by (auto simp: codec_ok_def demo_codec_def demo_hex demo_hex_prefix demo_handlers_def demo_fn_def
      args_ok_def)

lemma demo_call_ok: "call_ok demo_handlers (demo_call 1)"
  by (simp add: call_ok_def demo_call_def demo_handlers_def args_ok_def demo_fn_def)

end
