(* ===== verification/Pool.thy ===== *)
theory Pool
  imports Prelude
begin

section \<open>Bounded pools and weighted sampling\<close>

text \<open>
  What the corpora of the two modes share. \<open>bounded_pool\<close> is the interface of an
  insertion that keeps a vector within a capacity; its client lemmas hold for any number of
  insertions. \<open>weighted_pick\<close> is the loop both \<open>random_base\<close> functions run over the
  replayed entries with a number drawn below the total weight.
\<close>

subsection \<open>Bounded insertion\<close>

locale bounded_pool =
  fixes add :: "'e \<Rightarrow> 'e list \<Rightarrow> 'e list"
    and cap :: nat
  assumes within_cap: "length es \<le> cap \<Longrightarrow> length (add e es) \<le> cap"
    and never_shrinks: "length es \<le> length (add e es)"
    and adds_only: "set (add e es) \<subseteq> insert e (set es)"
    and joins_below_cap: "length es < cap \<Longrightarrow> add e es = es @ [e]"
begin

lemma fold_within: "length es \<le> cap \<Longrightarrow> length (fold add xs es) \<le> cap"
  by (induction xs arbitrary: es) (auto intro: within_cap)

lemma fold_never_shrinks: "length es \<le> length (fold add xs es)"
proof (induction xs arbitrary: es)
  case (Cons x xs)
  show ?case using never_shrinks [of es x] Cons [of "add x es"] by simp
qed simp

lemma fold_adds_only: "set (fold add xs es) \<subseteq> set xs \<union> set es"
proof (induction xs arbitrary: es)
  case (Cons x xs)
  show ?case using adds_only [of x es] Cons [of "add x es"] by auto
qed simp

lemma fold_below: "length es + length xs \<le> cap \<Longrightarrow> fold add xs es = es @ xs"
  by (induction xs arbitrary: es) (simp_all add: joins_below_cap)

lemma fold_length: "length (fold add xs es) \<ge> min cap (length es + length xs)"
proof (induction xs arbitrary: es)
  case (Cons x xs)
  show ?case
  proof (cases "length es < cap")
    case True
    then show ?thesis using Cons [of "es @ [x]"] by (simp add: joins_below_cap)
  next
    case False
    then show ?thesis using fold_never_shrinks [of es "x # xs"] by linarith
  qed
qed simp

end

subsection \<open>Weighted sampling\<close>

fun weighted_pick :: "('a \<Rightarrow> u64) \<Rightarrow> u64 \<Rightarrow> 'a list \<Rightarrow> 'a option" where
  "weighted_pick w pick [] = None"
| "weighted_pick w pick (x # xs) =
     (if pick < w x then Some x else weighted_pick w (pick - w x) xs)"

text \<open>The index the loop stops at, for counting draws.\<close>

fun weighted_index :: "('a \<Rightarrow> u64) \<Rightarrow> u64 \<Rightarrow> 'a list \<Rightarrow> nat option" where
  "weighted_index w pick [] = None"
| "weighted_index w pick (x # xs) =
     (if pick < w x then Some 0 else map_option Suc (weighted_index w (pick - w x) xs))"

lemma weighted_pick_index:
  "weighted_pick w pick xs = map_option (\<lambda>i. xs ! i) (weighted_index w pick xs)"
  by (induction xs arbitrary: pick) (auto simp: option.map_comp comp_def)

lemma weighted_index_less: "weighted_index w pick xs = Some i \<Longrightarrow> i < length xs"
  by (induction xs arbitrary: pick i) (auto split: if_splits)

lemma weighted_pick_in: "weighted_pick w pick xs = Some x \<Longrightarrow> x \<in> set xs"
  by (induction xs arbitrary: pick) (auto split: if_splits)

definition total_nat :: "('a \<Rightarrow> u64) \<Rightarrow> 'a list \<Rightarrow> nat" where
  "total_nat w xs = sum_list (map (unat \<circ> w) xs)"

lemma weighted_pick_found:
  "unat pick < total_nat w xs \<Longrightarrow> weighted_pick w pick xs \<noteq> None"
proof (induction xs arbitrary: pick)
  case (Cons x xs)
  show ?case
  proof (cases "pick < w x")
    case False
    then have "unat (pick - w x) = unat pick - unat (w x)" by (simp add: unat_sub)
    with Cons False show ?thesis by (simp add: total_nat_def word_less_nat_alt)
  qed simp
qed (simp add: total_nat_def)

text \<open>Exactly as many of the equally likely draws select an entry as its weight.\<close>

definition draws :: "('a \<Rightarrow> u64) \<Rightarrow> nat \<Rightarrow> 'a list \<Rightarrow> nat set" where
  "draws w i xs = {p. p < total_nat w xs \<and> weighted_index w (of_nat p) xs = Some i}"

lemma weighted_index_nat:
  assumes "p < 2 ^ 64"
  shows "weighted_index w (of_nat p) (x # xs) =
     (if p < unat (w x) then Some 0
      else map_option Suc (weighted_index w (of_nat (p - unat (w x))) xs))"
proof -
  have p: "unat (of_nat p :: u64) = p" using assms by (simp add: unat_of_nat)
  have "(of_nat p :: u64) - w x = of_nat (p - unat (w x))" if "unat (w x) \<le> p"
    using that by (simp add: of_nat_diff)
  then show ?thesis by (simp add: word_less_nat_alt p)
qed

lemma card_draws:
  "i < length xs \<Longrightarrow> total_nat w xs \<le> 2 ^ 64 \<Longrightarrow> card (draws w i xs) = unat (w (xs ! i))"
proof (induction xs arbitrary: i)
  case (Cons x xs)
  let ?k = "unat (w x)"
  have tot: "total_nat w (x # xs) = ?k + total_nat w xs" by (simp add: total_nat_def)
  have idx: "weighted_index w (of_nat p) (x # xs) =
     (if p < ?k then Some 0 else map_option Suc (weighted_index w (of_nat (p - ?k)) xs))"
    if "p < total_nat w (x # xs)" for p
    using that Cons.prems(2) by (intro weighted_index_nat) simp
  show ?case
  proof (cases i)
    case 0
    have "draws w 0 (x # xs) = {p. p < ?k}"
      unfolding draws_def using idx tot by (auto simp del: weighted_index.simps split: if_splits)
    then show ?thesis by (simp add: 0)
  next
    case (Suc j)
    have "draws w (Suc j) (x # xs) = (\<lambda>q. ?k + q) ` draws w j xs"
    proof (intro set_eqI iffI)
      fix p
      assume "p \<in> draws w (Suc j) (x # xs)"
      then have "p - ?k \<in> draws w j xs \<and> p = ?k + (p - ?k)"
        unfolding draws_def using idx tot by (auto simp del: weighted_index.simps split: if_splits)
      then show "p \<in> (\<lambda>q. ?k + q) ` draws w j xs" by blast
    next
      fix p
      assume "p \<in> (\<lambda>q. ?k + q) ` draws w j xs"
      then show "p \<in> draws w (Suc j) (x # xs)"
        unfolding draws_def using idx tot by (auto simp del: weighted_index.simps of_nat_add)
    qed
    then have "card (draws w i (x # xs)) = card (draws w j xs)"
      by (simp add: Suc card_image)
    with Cons.IH [of j] Cons.prems tot show ?thesis by (simp add: Suc)
  qed
qed simp

lemma unat_sum_list:
  "total_nat w xs < 2 ^ 64 \<Longrightarrow> unat (sum_list (map w xs)) = total_nat w xs"
proof (induction xs)
  case (Cons x xs)
  then have "unat (w x + sum_list (map w xs)) = unat (w x) + unat (sum_list (map w xs))"
    by (intro unat_add_lem [THEN iffD1]) (simp add: total_nat_def)
  with Cons show ?case by (simp add: total_nat_def)
qed (simp add: total_nat_def)

lemma weighted_choice:
  assumes "rng_ok R" and "total_nat w xs < 2 ^ 64" and "0 < total_nat w xs"
    and "rng_range R 0 (unat (sum_list (map w xs))) r = (pick, r')"
  obtains i where "i < length xs" and "pick \<in> draws w i xs"
    and "weighted_pick w (of_nat pick) xs = Some (xs ! i)"
proof -
  have tot: "unat (sum_list (map w xs)) = total_nat w xs" using assms(2) by (rule unat_sum_list)
  have less: "pick < total_nat w xs" using rng_okD [OF assms(1,4)] assms(3) by (simp add: tot)
  then have "unat (of_nat pick :: u64) = pick" using assms(2) by (simp add: unat_of_nat)
  with less have "weighted_pick w (of_nat pick) xs \<noteq> None" by (intro weighted_pick_found) simp
  then obtain i where "weighted_index w (of_nat pick) xs = Some i"
    by (auto simp: weighted_pick_index)
  with less that [of i] show ?thesis
    by (auto simp: draws_def weighted_pick_index dest: weighted_index_less)
qed

lemma sum_list_zero_iff:
  "total_nat w xs < 2 ^ 64 \<Longrightarrow> sum_list (map w xs) = 0 \<longleftrightarrow> total_nat w xs = 0"
  using unat_sum_list [of w xs] by (metis unat_eq_0)

end
