(* ===== verification/Test_Corpus.thy ===== *)
theory Test_Corpus
  imports Pool Call_Codec
begin

section \<open>The corpus of the test mode\<close>

text \<open>
  \<open>src/src/tester/corpus/mod.rs\<close>: the vector of interesting sequences behind the mutex
  (each operation below is one critical section), its persisted form and its replay. A chain
  snapshot is of the type parameter \<open>'c\<close>. JSON coding is a parameter. \<open>Corpus::load\<close>
  reads the file that \<open>save\<close> writes; a file is missing, unreadable or has contents.
\<close>

definition MAX_ENTRIES :: nat where
  "MAX_ENTRIES = 256"

definition CORPUS_VERSION :: nat where
  "CORPUS_VERSION = 1"

record 'c t_entry =
  tn_sequence :: seq_calls
  tn_new_edges :: u64
  tn_chain :: "'c option"

type_synonym 'c t_corpus = "'c t_entry list"

subsection \<open>Adding\<close>

definition t_add_entry :: "'c t_entry \<Rightarrow> 'c t_corpus \<Rightarrow> 'c t_corpus" where
  "t_add_entry entry entries =
     (if length entries \<ge> MAX_ENTRIES then
        (case min_by_key (\<lambda>(i, e). tn_new_edges e) (enumerate 0 entries) of
           None \<Rightarrow> entries
         | Some (index, weakest) \<Rightarrow>
             if tn_new_edges entry \<ge> tn_new_edges weakest then remove_at index entries @ [entry]
             else entries)
      else entries @ [entry])"

definition t_add :: "seq_calls \<Rightarrow> u64 \<Rightarrow> 'c \<Rightarrow> 'c t_corpus \<Rightarrow> 'c t_corpus" where
  "t_add s edges ch entries =
     t_add_entry \<lparr>tn_sequence = s, tn_new_edges = edges, tn_chain = Some ch\<rparr> entries"

record t_snapshot =
  ts_sequence :: seq_calls
  ts_new_edges :: u64

definition t_entries :: "'c t_corpus \<Rightarrow> t_snapshot list" where
  "t_entries entries =
     map (\<lambda>e. \<lparr>ts_sequence = tn_sequence e, ts_new_edges = tn_new_edges e\<rparr>) entries"

subsection \<open>Sampling a base\<close>

definition t_weight :: "'c t_entry \<Rightarrow> u64" where
  "t_weight e = sat_add (tn_new_edges e) 1"

definition t_replayed :: "'c t_corpus \<Rightarrow> 'c t_entry list" where
  "t_replayed entries = filter (\<lambda>e. tn_chain e \<noteq> None) entries"

definition t_base_of :: "'c t_entry \<Rightarrow> (seq_calls \<times> 'c) option" where
  "t_base_of e = map_option (\<lambda>ch. (tn_sequence e, ch)) (tn_chain e)"

text \<open>The sum of the weights wraps in a release build.\<close>

definition t_random_base :: "'r rng_ops \<Rightarrow> 'r \<Rightarrow> 'c t_corpus \<Rightarrow> (seq_calls \<times> 'c) option \<times> 'r" where
  "t_random_base R r entries =
     (let replayed = t_replayed entries;
          total = sum_list (map t_weight replayed)
      in if total = 0 then (None, r)
         else
           let (pick, r') = rng_range R 0 (unat total) r in
           (case weighted_pick t_weight (of_nat pick) replayed of
              Some e \<Rightarrow> (t_base_of e, r')
            | None \<Rightarrow> (if replayed = [] then None else t_base_of (last replayed), r')))"

subsection \<open>Eviction\<close>

lemma enumerate_min:
  assumes "min_by_key (\<lambda>(i, e). f e) (enumerate 0 xs) = Some (i, w)"
  shows "i < length xs \<and> w = xs ! i \<and> (\<forall>x \<in> set xs. f w \<le> f x)"
proof -
  from min_by_key_Some [OF assms] have m: "(i, w) \<in> set (enumerate 0 xs)"
    "\<forall>p \<in> set (enumerate 0 xs). f w \<le> f (snd p)" by (auto simp: split_beta)
  have "\<forall>x \<in> set xs. f w \<le> f x"
  proof
    fix x
    assume "x \<in> set xs"
    then obtain j where "j < length xs" "x = xs ! j" by (auto simp: in_set_conv_nth)
    then have "(j, x) \<in> set (enumerate 0 xs)" by (simp add: in_set_enumerate)
    with m(2) show "f w \<le> f x" by force
  qed
  with m(1) show ?thesis by (simp add: in_set_enumerate)
qed

lemma t_add_full:
  assumes "MAX_ENTRIES \<le> length es"
  obtains i where "i < length es" and "\<forall>x \<in> set es. tn_new_edges (es ! i) \<le> tn_new_edges x"
    and "t_add_entry e es =
      (if tn_new_edges (es ! i) \<le> tn_new_edges e then remove_at i es @ [e] else es)"
proof -
  have "0 < length (enumerate 0 es)" using assms unfolding MAX_ENTRIES_def length_enumerate by arith
  then have "enumerate 0 es \<noteq> []" by (metis length_greater_0_conv)
  then obtain i w where m: "min_by_key (\<lambda>(i, e). tn_new_edges e) (enumerate 0 es) = Some (i, w)"
    by (metis min_by_key_None not_None_eq surj_pair)
  note e = enumerate_min [OF m]
  show ?thesis
    by (rule that [of i]) (use e assms m in \<open>auto simp: t_add_entry_def\<close>)
qed

lemma t_add_cases:
  "length es < MAX_ENTRIES \<Longrightarrow> t_add_entry e es = es @ [e]"
  by (simp add: t_add_entry_def)

lemma t_add_length:
  "length (t_add_entry e es) = (if length es < MAX_ENTRIES then Suc (length es) else length es)"
proof (cases "length es < MAX_ENTRIES")
  case False
  then obtain i where "i < length es"
    "t_add_entry e es =
      (if tn_new_edges (es ! i) \<le> tn_new_edges e then remove_at i es @ [e] else es)"
    by (meson not_less t_add_full)
  then show ?thesis using False by (auto simp: length_remove_at)
qed (simp add: t_add_cases)

lemma t_add_set: "set (t_add_entry e es) \<subseteq> insert e (set es)"
proof (cases "length es < MAX_ENTRIES")
  case False
  then obtain i where
    "t_add_entry e es =
      (if tn_new_edges (es ! i) \<le> tn_new_edges e then remove_at i es @ [e] else es)"
    by (meson not_less t_add_full)
  then show ?thesis using set_remove_at_subset [of i es] by auto
qed (auto simp: t_add_cases)

interpretation tpool: bounded_pool t_add_entry MAX_ENTRIES
proof
  fix es :: "'a t_corpus" and e
  show "length es \<le> MAX_ENTRIES \<Longrightarrow> length (t_add_entry e es) \<le> MAX_ENTRIES"
    by (simp add: t_add_length)
  show "length es \<le> length (t_add_entry e es)" by (simp add: t_add_length)
  show "set (t_add_entry e es) \<subseteq> insert e (set es)" by (rule t_add_set)
  show "length es < MAX_ENTRIES \<Longrightarrow> t_add_entry e es = es @ [e]" by (rule t_add_cases)
qed

text \<open>
  The test corpus is bounded and only ever holds what was added. After any sequence of
  additions to an empty corpus it has at most 256 entries, every one of them among the added
  ones; until 256 additions nothing is dropped and the order is that of the additions, and
  from then on it stays full.
\<close>

theorem t_corpus_bounded:
  "length (fold t_add_entry xs []) \<le> MAX_ENTRIES
   \<and> set (fold t_add_entry xs []) \<subseteq> set xs
   \<and> (length xs \<le> MAX_ENTRIES \<longrightarrow> fold t_add_entry xs [] = xs)
   \<and> (MAX_ENTRIES \<le> length xs \<longrightarrow> length (fold t_add_entry xs []) = MAX_ENTRIES)"
  using tpool.fold_within [of "[]" xs] tpool.fold_adds_only [of xs "[]"]
    tpool.fold_below [of "[]" xs] tpool.fold_length [of "[]" xs] by auto

definition demo_t_entry :: "u64 \<Rightarrow> unit t_entry" where
  "demo_t_entry n = \<lparr>tn_sequence = [demo_call 1], tn_new_edges = n, tn_chain = Some ()\<rparr>"

theorem t_corpus_bounded_witness:
  "fold t_add_entry [demo_t_entry 3, demo_t_entry 1] [] = [demo_t_entry 3, demo_t_entry 1]"
  using t_corpus_bounded [of "[demo_t_entry 3, demo_t_entry 1]"] by (simp add: MAX_ENTRIES_def)

text \<open>
  A full test corpus only improves. Adding to a full corpus either leaves it as it is,
  exactly when the new sequence brought less coverage than every entry, or drops one entry
  with the fewest new edges and appends the new one; in both cases no entry's coverage falls
  below what the weakest entry had before.
\<close>

theorem t_full_corpus_improves:
  assumes "MAX_ENTRIES \<le> length es"
  shows "(t_add_entry e es = es \<and> (\<forall>x \<in> set es. tn_new_edges e < tn_new_edges x))
     \<or> (\<exists>i < length es. (\<forall>x \<in> set es. tn_new_edges (es ! i) \<le> tn_new_edges x)
          \<and> tn_new_edges (es ! i) \<le> tn_new_edges e
          \<and> t_add_entry e es = remove_at i es @ [e]
          \<and> (\<forall>y \<in> set (t_add_entry e es). tn_new_edges (es ! i) \<le> tn_new_edges y))"
proof -
  obtain i where i: "i < length es" "\<forall>x \<in> set es. tn_new_edges (es ! i) \<le> tn_new_edges x"
    "t_add_entry e es =
      (if tn_new_edges (es ! i) \<le> tn_new_edges e then remove_at i es @ [e] else es)"
    using t_add_full [OF assms] by blast
  show ?thesis
  proof (cases "tn_new_edges (es ! i) \<le> tn_new_edges e")
    case True
    then have add: "t_add_entry e es = remove_at i es @ [e]" using i(3) by simp
    then have "\<forall>y \<in> set (t_add_entry e es). tn_new_edges (es ! i) \<le> tn_new_edges y"
      using i(2) True set_remove_at_subset [of i es] unfolding add by fastforce
    with True i(1,2) add show ?thesis by blast
  next
    case False
    then have "t_add_entry e es = es" and "\<forall>x \<in> set es. tn_new_edges e < tn_new_edges x"
      using i by (auto simp: not_le intro: less_le_trans)
    then show ?thesis by blast
  qed
qed

theorem t_full_corpus_improves_witness:
  "t_add_entry (demo_t_entry 1) (replicate 256 (demo_t_entry 2)) = replicate 256 (demo_t_entry 2)"
proof -
  have "MAX_ENTRIES \<le> length (replicate 256 (demo_t_entry 2))" by (simp add: MAX_ENTRIES_def)
  from t_full_corpus_improves [OF this, of "demo_t_entry 1"] show ?thesis
  proof (elim disjE conjE exE)
    fix i
    assume "i < length (replicate 256 (demo_t_entry 2))"
      and "tn_new_edges (replicate 256 (demo_t_entry 2) ! i) \<le> tn_new_edges (demo_t_entry 1)"
    then show ?thesis by (simp add: demo_t_entry_def word_le_nat_alt)
  qed
qed

subsection \<open>Sampling is proportional\<close>

lemma t_weight_pos: "t_weight e \<noteq> 0"
  by (simp add: t_weight_def sat_add_1_neq_0)

lemma total_pos: "xs \<noteq> [] \<Longrightarrow> (\<And>x. w x \<noteq> 0) \<Longrightarrow> 0 < total_nat w xs"
  by (cases xs) (auto simp: total_nat_def unat_gt_0)

lemma t_base_of_replayed:
  "e \<in> set (t_replayed es) \<Longrightarrow> \<exists>ch. tn_chain e = Some ch \<and> t_base_of e = Some (tn_sequence e, ch) \<and> e \<in> set es"
  by (auto simp: t_replayed_def t_base_of_def)

text \<open>
  A base is sampled proportionally to the coverage it brought. On a corpus with a replayed
  entry (and a total weight that fits 64 bits) \<open>random_base\<close> makes one draw below the total
  weight and returns the sequence and snapshot of a replayed entry; an entry is selected by
  exactly as many of the equally likely draws as its weight, its new edges plus one.
\<close>

theorem t_base_proportional:
  assumes "rng_ok R" and "t_replayed es \<noteq> []" and "total_nat t_weight (t_replayed es) < 2 ^ 64"
  shows "\<exists>i pick r' ch. i < length (t_replayed es)
     \<and> rng_range R 0 (total_nat t_weight (t_replayed es)) r = (pick, r')
     \<and> pick \<in> draws t_weight i (t_replayed es)
     \<and> tn_chain (t_replayed es ! i) = Some ch
     \<and> t_random_base R r es = (Some (tn_sequence (t_replayed es ! i), ch), r')
     \<and> (\<forall>j < length (t_replayed es).
          card (draws t_weight j (t_replayed es)) = unat (t_weight (t_replayed es ! j)))"
proof -
  let ?xs = "t_replayed es"
  have tot: "unat (sum_list (map t_weight ?xs)) = total_nat t_weight ?xs"
    using assms(3) by (rule unat_sum_list)
  have pos: "0 < total_nat t_weight ?xs" using assms(2) t_weight_pos by (rule total_pos)
  obtain pick r' where draw: "rng_range R 0 (unat (sum_list (map t_weight ?xs))) r = (pick, r')"
    by fastforce
  obtain i where i: "i < length ?xs" "pick \<in> draws t_weight i ?xs"
    "weighted_pick t_weight (of_nat pick) ?xs = Some (?xs ! i)"
    using weighted_choice [OF assms(1,3) pos draw] by blast
  obtain ch where ch: "tn_chain (?xs ! i) = Some ch" "t_base_of (?xs ! i) = Some (tn_sequence (?xs ! i), ch)"
    using t_base_of_replayed [of "?xs ! i" es] i(1) by auto
  have "sum_list (map t_weight ?xs) \<noteq> 0" using pos sum_list_zero_iff [OF assms(3)] by simp
  then have "t_random_base R r es = (Some (tn_sequence (?xs ! i), ch), r')"
    using draw i(3) ch(2) by (simp add: t_random_base_def Let_def)
  moreover have "\<forall>j < length ?xs. card (draws t_weight j ?xs) = unat (t_weight (?xs ! j))"
    using card_draws [where w = t_weight and xs = ?xs] assms(3) by auto
  ultimately show ?thesis
    using i ch(1) draw unfolding tot by (intro exI conjI) assumption+
qed

theorem t_base_proportional_witness:
  "fst (t_random_base counter_rng 0 [demo_t_entry 3, demo_t_entry 1]) \<noteq> None
   \<and> card (draws t_weight 0 [demo_t_entry 3, demo_t_entry 1]) = 4"
proof -
  let ?es = "[demo_t_entry 3, demo_t_entry 1]"
  have rep: "t_replayed ?es = ?es" by (simp add: t_replayed_def demo_t_entry_def)
  have "total_nat t_weight (t_replayed ?es) < 2 ^ 64"
    unfolding rep by (simp add: demo_t_entry_def total_nat_def t_weight_def unat_sat_add)
  from t_base_proportional [OF counter_rng_ok _ this, of 0] obtain x r' where
    "t_random_base counter_rng 0 ?es = (Some x, r')"
    "card (draws t_weight 0 ?es) = unat (t_weight (?es ! 0))"
    unfolding rep by auto
  then show ?thesis by (simp add: demo_t_entry_def t_weight_def unat_sat_add)
qed

subsection \<open>The persisted corpus\<close>

record t_entry_json =
  tj_new_edges :: u64
  tj_calls :: "call_json list"

record t_corpus_json =
  tj_version :: nat
  tj_entries :: "t_entry_json list"

record 'd json_codec =
  js_render :: "'d \<Rightarrow> string option"
  js_parse :: "string \<Rightarrow> 'd option"

definition json_ok :: "'d json_codec \<Rightarrow> bool" where
  "json_ok J \<longleftrightarrow> (\<forall>d s. js_render J d = Some s \<longrightarrow> js_parse J s = Some d)"

datatype file_read = File_Missing | File_Unreadable | File_Contents string

datatype load_error =
    Load_Unreadable
  | Load_Unparsable
  | Load_Unsupported_Version
  | Load_Invalid_Value nat

text \<open>The loop over the calls of an entry stops at the first that does not resolve.\<close>

fun t_decode_calls :: "codec \<Rightarrow> abi_fn list \<Rightarrow> call_json list \<Rightarrow> call list" where
  "t_decode_calls C hs [] = []"
| "t_decode_calls C hs (cj # cjs) =
     (case decode_call C hs cj of Inl e \<Rightarrow> [] | Inr c \<Rightarrow> c # t_decode_calls C hs cjs)"

definition t_load_entry :: "codec \<Rightarrow> abi_fn list \<Rightarrow> t_entry_json \<Rightarrow> 'c t_entry option" where
  "t_load_entry C hs ej =
     (let calls = t_decode_calls C hs (tj_calls ej) in
      if length calls \<noteq> length (tj_calls ej) then None
      else Some \<lparr>tn_sequence = calls, tn_new_edges = tj_new_edges ej, tn_chain = None\<rparr>)"

definition t_load ::
  "codec \<Rightarrow> t_corpus_json json_codec \<Rightarrow> abi_fn list \<Rightarrow> file_read \<Rightarrow> 'c t_corpus \<Rightarrow>
   (load_error + nat) \<times> 'c t_corpus" where
  "t_load C J hs file corpus =
     (case file of
        File_Missing \<Rightarrow> (Inr 0, corpus)
      | File_Unreadable \<Rightarrow> (Inl Load_Unreadable, corpus)
      | File_Contents content \<Rightarrow>
          (case js_parse J content of
             None \<Rightarrow> (Inl Load_Unparsable, corpus)
           | Some doc \<Rightarrow>
               if tj_version doc \<noteq> CORPUS_VERSION then (Inr 0, corpus)
               else
                 let entries = List.map_filter (t_load_entry C hs) (tj_entries doc)
                 in (Inr (length entries), entries)))"

definition t_entry_to_json :: "codec \<Rightarrow> 'c t_entry \<Rightarrow> t_entry_json" where
  "t_entry_to_json C e =
     \<lparr>tj_new_edges = tn_new_edges e, tj_calls = map (call_to_json C) (tn_sequence e)\<rparr>"

definition t_save :: "codec \<Rightarrow> t_corpus_json json_codec \<Rightarrow> 'c t_corpus \<Rightarrow> string option" where
  "t_save C J corpus =
     js_render J \<lparr>tj_version = CORPUS_VERSION, tj_entries = map (t_entry_to_json C) corpus\<rparr>"

lemma t_decode_calls_to_json:
  "codec_ok C hs \<Longrightarrow> handlers_ok hs \<Longrightarrow> list_all (call_ok hs) calls \<Longrightarrow>
   t_decode_calls C hs (map (call_to_json C) calls) = calls"
  by (induction calls) (simp_all add: decode_call_to_json)

lemma t_decode_calls_handlers:
  "length (t_decode_calls C hs cjs) = length cjs \<Longrightarrow>
   list_all2 (\<lambda>c cj. decode_call C hs cj = Inr c) (t_decode_calls C hs cjs) cjs"
  by (induction cjs) (auto split: sum.splits)

text \<open>
  C40: saving and loading a test corpus is lossless except for the snapshots. For handlers with
  distinct signatures, when the JSON, hexadecimal and ABI codecs are inverse as documented and
  every call was built for a handler, loading what was saved replaces any corpus by the saved
  entries in order, each without its chain snapshot, and reports their number.
\<close>

theorem t_save_load_roundtrip:
  assumes "codec_ok C hs" and "handlers_ok hs" and "json_ok J"
    and "\<forall>e \<in> set corpus. list_all (call_ok hs) (tn_sequence e)"
    and "t_save C J corpus = Some s"
  shows "t_load C J hs (File_Contents s) other
     = (Inr (length corpus), map (\<lambda>e. e\<lparr>tn_chain := None\<rparr>) corpus)"
proof -
  have parse: "js_parse J s = Some \<lparr>tj_version = CORPUS_VERSION, tj_entries = map (t_entry_to_json C) corpus\<rparr>"
    using assms(3,5) by (simp add: t_save_def json_ok_def)
  have entry: "t_load_entry C hs (t_entry_to_json C e) = Some (e\<lparr>tn_chain := None\<rparr>)"
    if "e \<in> set corpus" for e
    using that assms(1,2,4) by (simp add: t_load_entry_def t_entry_to_json_def t_decode_calls_to_json)
  have "List.map_filter (t_load_entry C hs) (map (t_entry_to_json C) es) = map (\<lambda>e. e\<lparr>tn_chain := None\<rparr>) es"
    if "set es \<subseteq> set corpus" for es
    using that by (induction es) (auto simp: List.map_filter_simps entry)
  then show ?thesis by (simp add: t_load_def parse Let_def)
qed

definition demo_json :: "'d \<Rightarrow> 'd json_codec" where
  "demo_json d = \<lparr>js_render = (\<lambda>x. if x = d then Some ''d'' else None), js_parse = (\<lambda>s. Some d)\<rparr>"

lemma demo_json_ok: "json_ok (demo_json d)"
  by (simp add: json_ok_def demo_json_def)

theorem t_save_load_roundtrip_witness:
  "t_load demo_codec
     (demo_json \<lparr>tj_version = 1, tj_entries = [t_entry_to_json demo_codec (demo_t_entry 7)]\<rparr>)
     demo_handlers (File_Contents ''d'') []
   = (Inr 1, [(demo_t_entry 7)\<lparr>tn_chain := None\<rparr>])"
proof -
  let ?J = "demo_json \<lparr>tj_version = 1, tj_entries = [t_entry_to_json demo_codec (demo_t_entry 7)]\<rparr>"
  have "t_save demo_codec ?J [demo_t_entry 7] = Some ''d''"
    by (simp add: t_save_def demo_json_def CORPUS_VERSION_def)
  then show ?thesis
    using t_save_load_roundtrip [OF demo_codec_ok demo_handlers_ok demo_json_ok, of "[demo_t_entry 7]"
        "\<lparr>tj_version = 1, tj_entries = [t_entry_to_json demo_codec (demo_t_entry 7)]\<rparr>" "''d''" "[]"]
      demo_call_ok by (simp add: demo_t_entry_def)
qed

lemma t_load_entry_safe:
  assumes "t_load_entry C hs ej = Some e"
  shows "tn_chain e = None \<and> (\<forall>c \<in> set (tn_sequence e). call_fn c \<in> set hs)"
proof -
  from assms have e: "tn_chain e = None" "tn_sequence e = t_decode_calls C hs (tj_calls ej)"
    "length (t_decode_calls C hs (tj_calls ej)) = length (tj_calls ej)"
    by (auto simp: t_load_entry_def Let_def split: if_splits)
  have "call_fn c \<in> set hs" if "c \<in> set (t_decode_calls C hs (tj_calls ej))" for c
  proof -
    from that obtain i where "i < length (tj_calls ej)" "c = t_decode_calls C hs (tj_calls ej) ! i"
      using e(3) by (auto simp: in_set_conv_nth)
    then have "decode_call C hs (tj_calls ej ! i) = Inr c"
      using list_all2_nthD2 [OF t_decode_calls_handlers [OF e(3)]] by blast
    then show ?thesis by (blast dest: decode_call_handler)
  qed
  with e show ?thesis by simp
qed

text \<open>
  A loaded test corpus only calls the harness at hand. Whatever the file holds, every call
  of every loaded entry uses a handler of the current harness and is what one of the persisted
  calls decodes to, no entry carries a snapshot, and a file that is missing or of another
  version leaves the corpus as it was.
\<close>

theorem t_load_is_safe:
  assumes "t_load C J hs file corpus = (Inr n, corpus')"
  shows "corpus' = corpus \<and> n = 0
     \<or> n = length corpus' \<and> (\<forall>e \<in> set corpus'. tn_chain e = None \<and>
          (\<forall>c \<in> set (tn_sequence e). call_fn c \<in> set hs))"
proof -
  have "corpus' = corpus \<and> n = 0
     \<or> (\<exists>ejs. corpus' = List.map_filter (t_load_entry C hs) ejs \<and> n = length corpus')"
    using assms by (auto simp: t_load_def Let_def split: file_read.splits option.splits if_splits)
  then show ?thesis
  proof (elim disjE exE conjE)
    fix ejs
    assume *: "corpus' = List.map_filter (t_load_entry C hs) ejs" "n = length corpus'"
    have "tn_chain e = None \<and> (\<forall>c \<in> set (tn_sequence e). call_fn c \<in> set hs)" if "e \<in> set corpus'" for e
      using that unfolding * set_map_filter by (elim bexE) (rule t_load_entry_safe)
    with * show ?thesis by blast
  qed simp
qed

theorem t_load_is_safe_witness:
  "snd (t_load demo_codec (demo_json \<lparr>tj_version = 2, tj_entries = []\<rparr>) [] (File_Contents []) [demo_t_entry 1])
   = [demo_t_entry 1]"
proof -
  have run: "t_load demo_codec (demo_json \<lparr>tj_version = 2, tj_entries = []\<rparr>) [] (File_Contents [])
      [demo_t_entry 1] = (Inr 0, [demo_t_entry 1])"
    by (simp add: t_load_def demo_json_def CORPUS_VERSION_def)
  from t_load_is_safe [OF run] run show ?thesis by auto
qed

subsection \<open>Replay\<close>

record ('db, 'env, 'cheat) t_replayer =
  rp_chain :: "('db, 'env, 'cheat) chain option"
  rp_target :: "address option"
  rp_deployer :: "address option"
  rp_coverage :: "shared_coverage option"

datatype replay_error =
    Replay_Not_Set string
  | Replay_Chain chain_error
  | Replay_No_Coverage
  | Replay_Panic
  | Replay_Value_Missing
  | Replay_Value_Undecodable

text \<open>The number of new facts of an update, added up and cast to \<open>u64\<close>.\<close>

definition update_edges :: "cov_update \<Rightarrow> u64" where
  "update_edges u = of_nat (new_edges u + new_depths u + new_reverts u + new_jump_edges u)"

definition t_replay_entry ::
  "('db, 'env, 'cheat, 'trace) revm_ops \<Rightarrow> codec \<Rightarrow> ('db, 'env, 'cheat) chain \<Rightarrow> address \<Rightarrow> address \<Rightarrow>
   t_snapshot \<Rightarrow> ('db, 'env, 'cheat) chain t_corpus \<times> shared_coverage \<Rightarrow>
   replay_error + ('db, 'env, 'cheat) chain t_corpus \<times> shared_coverage" where
  "t_replay_entry RO C chain target deployer entry st =
     (let (corpus, coverage) = st in
      case chain_exec RO (seq_transactions C target deployer (ts_sequence entry)) chain of
        (Inl e, _) \<Rightarrow> Inl (Replay_Chain e)
      | (Inr exec, chain') \<Rightarrow>
          (case eo_coverage exec of
             None \<Rightarrow> Inl Replay_No_Coverage
           | Some execution_coverage \<Rightarrow>
               (case cov_merge execution_coverage coverage of
                  None \<Rightarrow> Inl Replay_Panic
                | Some (update, coverage') \<Rightarrow>
                    Inr (t_add (ts_sequence entry) (update_edges update) chain' corpus, coverage'))))"

definition t_replay ::
  "('db, 'env, 'cheat, 'trace) revm_ops \<Rightarrow> codec \<Rightarrow> ('db, 'env, 'cheat) t_replayer \<Rightarrow>
   ('db, 'env, 'cheat) chain t_corpus \<Rightarrow>
   replay_error + (('db, 'env, 'cheat) chain t_corpus \<times> nat) \<times> shared_coverage" where
  "t_replay RO C rp corpus =
     (case rp_chain rp of None \<Rightarrow> Inl (Replay_Not_Set ''chain'') | Some chain \<Rightarrow>
     (case rp_target rp of None \<Rightarrow> Inl (Replay_Not_Set ''target'') | Some target \<Rightarrow>
     (case rp_deployer rp of None \<Rightarrow> Inl (Replay_Not_Set ''deployer'') | Some deployer \<Rightarrow>
     (case rp_coverage rp of None \<Rightarrow> Inl (Replay_Not_Set ''coverage'') | Some coverage \<Rightarrow>
     (case fold_res (t_replay_entry RO C chain target deployer) (t_entries corpus) ([], coverage) of
        Inl e \<Rightarrow> Inl e
      | Inr (replayed, coverage') \<Rightarrow> Inr ((replayed, length replayed), coverage'))))))"

lemma t_replay_entry_Inr:
  assumes "t_replay_entry RO C chain target deployer entry (corpus, cov) = Inr (corpus', cov')"
  obtains edges ch' where "corpus' = t_add (ts_sequence entry) edges ch' corpus"
  using assms by (auto simp: t_replay_entry_def split: prod.splits sum.splits option.splits)

lemma t_replay_fold:
  assumes "fold_res (t_replay_entry RO C chain target deployer) entries (corpus, cov) = Inr (corpus', cov')"
  shows "\<exists>xs. corpus' = fold t_add_entry xs corpus \<and> map tn_sequence xs = map ts_sequence entries
     \<and> (\<forall>x \<in> set xs. tn_chain x \<noteq> None)"
  using assms
proof (induction entries arbitrary: corpus cov)
  case (Cons e entries)
  from Cons.prems obtain corpus1 cov1 where s:
    "t_replay_entry RO C chain target deployer e (corpus, cov) = Inr (corpus1, cov1)"
    "fold_res (t_replay_entry RO C chain target deployer) entries (corpus1, cov1) = Inr (corpus', cov')"
    by (auto split: sum.splits)
  from t_replay_entry_Inr [OF s(1)] obtain edges ch' where
    c1: "corpus1 = t_add (ts_sequence e) edges ch' corpus" .
  from Cons.IH [OF s(2)] obtain xs where xs: "corpus' = fold t_add_entry xs corpus1"
    "map tn_sequence xs = map ts_sequence entries" "\<forall>x \<in> set xs. tn_chain x \<noteq> None" by blast
  show ?case
    by (rule exI [of _ "\<lparr>tn_sequence = ts_sequence e, tn_new_edges = edges, tn_chain = Some ch'\<rparr> # xs"])
      (use xs c1 in \<open>simp add: t_add_def\<close>)
qed simp

text \<open>
  Replay rebuilds the corpus. When replaying succeeds on a corpus of at most 256 entries,
  the rebuilt corpus holds exactly the same sequences in the same order, every one now with
  the snapshot of the chain after executing it, and the reported count is their number; on a
  larger corpus it stays within 256 entries, all of them replayed ones.
\<close>

theorem t_replay_rebuilds:
  assumes "t_replay RO C rp corpus = Inr ((corpus', n), cov')"
  shows "n = length corpus' \<and> n \<le> MAX_ENTRIES
     \<and> (\<forall>e \<in> set corpus'. tn_chain e \<noteq> None \<and> tn_sequence e \<in> tn_sequence ` set corpus)
     \<and> (length corpus \<le> MAX_ENTRIES \<longrightarrow> map tn_sequence corpus' = map tn_sequence corpus)"
proof -
  from assms obtain chain target deployer cov where
    "fold_res (t_replay_entry RO C chain target deployer) (t_entries corpus) ([], cov) = Inr (corpus', cov')"
    and n: "n = length corpus'"
    by (auto simp: t_replay_def split: option.splits sum.splits)
  from t_replay_fold [OF this(1)] obtain xs where xs: "corpus' = fold t_add_entry xs []"
    "map tn_sequence xs = map tn_sequence corpus" "\<forall>x \<in> set xs. tn_chain x \<noteq> None"
    by (auto simp: t_entries_def)
  have "tn_sequence ` set xs = tn_sequence ` set corpus" using xs(2) by (metis list.set_map)
  then have "tn_sequence e \<in> tn_sequence ` set corpus" if "e \<in> set corpus'" for e
    using that xs(1) tpool.fold_adds_only [of xs "[]"] by (metis image_eqI list.set(1) subsetD sup_bot_right)
  moreover have "length xs = length corpus" using xs(2) by (metis length_map)
  ultimately show ?thesis
    using xs n tpool.fold_within [of "[]" xs] tpool.fold_adds_only [of xs "[]"]
      tpool.fold_below [of "[]" xs] by auto
qed

definition demo_replayer :: "(nat, u64, unit) t_replayer" where
  "demo_replayer =
     \<lparr>rp_chain = Some demo_chain, rp_target = Some 1, rp_deployer = Some 2, rp_coverage = Some sh_new\<rparr>"

text \<open>An execution of the demonstration machine succeeds and its coverage merges.\<close>

lemma demo_exec_empty: "chain_exec demo_ops [] demo_chain =
    (Inr \<lparr>eo_results = [], eo_trace = None, eo_coverage = Some [], eo_broken_invariants = []\<rparr>,
     demo_chain)"
  by (simp add: chain_exec_def demo_chain_def demo_ops_def ci_into_coverage_def ci_new_def)

definition demo_t_empty :: "(nat, u64, unit) chain t_entry" where
  "demo_t_empty = \<lparr>tn_sequence = [], tn_new_edges = 3, tn_chain = None\<rparr>"

theorem t_replay_rebuilds_witness:
  "\<exists>corpus' n cov. t_replay demo_ops demo_codec demo_replayer [demo_t_empty] = Inr ((corpus', n), cov)
     \<and> map tn_sequence corpus' = [[]]"
proof -
  obtain corpus' n cov where run:
    "t_replay demo_ops demo_codec demo_replayer [demo_t_empty] = Inr ((corpus', n), cov)"
    by (simp add: t_replay_def demo_replayer_def t_entries_def demo_t_empty_def t_replay_entry_def
        seq_transactions_def demo_exec_empty cov_merge_def)
  from t_replay_rebuilds [OF run] run show ?thesis by (simp add: MAX_ENTRIES_def demo_t_empty_def)
qed

end
