(* ===== verification/Max_Corpus.thy ===== *)
theory Max_Corpus
  imports Test_Corpus Max_Value
begin

section \<open>The corpus and the best result of the max mode\<close>

text \<open>
  \<open>src/src/maxer/corpus.rs\<close> and \<open>src/src/maxer/best.rs\<close>. The corpus of the max mode ranks
  its entries by the measured value and by a strength (new edges plus delta activity); an
  entry that improves the best value always joins. Values are written to the file in decimal
  by the integer crate: \<open>value_codec\<close> is its parameter. The JSON, file and replay models are
  those of \<open>Test_Corpus\<close>.
\<close>

subsection \<open>The best sequence so far\<close>

record 'c best =
  be_value :: max_value
  be_sequence :: seq_calls
  be_chain :: "'c option"

definition best_new :: "seq_calls \<Rightarrow> max_value \<Rightarrow> 'c best" where
  "best_new s v = \<lparr>be_value = v, be_sequence = s, be_chain = None\<rparr>"

definition best_with_chain :: "seq_calls \<Rightarrow> max_value \<Rightarrow> 'c \<Rightarrow> 'c best" where
  "best_with_chain s v ch = \<lparr>be_value = v, be_sequence = s, be_chain = Some ch\<rparr>"

definition best_consider :: "seq_calls \<Rightarrow> max_value \<Rightarrow> 'c \<Rightarrow> 'c best \<Rightarrow> bool \<times> 'c best" where
  "best_consider s v ch b =
     (let shorter = v = be_value b \<and> be_sequence b \<noteq> [] \<and> length s < length (be_sequence b)
      in if be_value b < v \<or> shorter
         then (True, \<lparr>be_value = v, be_sequence = s, be_chain = Some ch\<rparr>)
         else (False, b))"

type_synonym 'c candidate = "seq_calls \<times> max_value \<times> 'c"

definition best_step :: "'c candidate \<Rightarrow> 'c best \<Rightarrow> 'c best" where
  "best_step x b = (case x of (s, v, ch) \<Rightarrow> snd (best_consider s v ch b))"

lemma best_step_cases:
  "best_step (s, v, ch) b = b \<and> v \<le> be_value b
   \<or> best_step (s, v, ch) b = \<lparr>be_value = v, be_sequence = s, be_chain = Some ch\<rparr>
     \<and> (be_value b < v \<or> v = be_value b \<and> length s < length (be_sequence b))"
  by (auto simp: best_step_def best_consider_def Let_def not_less)

lemma best_fold:
  "be_value (fold best_step xs b) = Max (insert (be_value b) ((\<lambda>(s, v, ch). v) ` set xs))
   \<and> (fold best_step xs b = b
      \<or> (\<exists>(s, v, ch) \<in> set xs. fold best_step xs b = \<lparr>be_value = v, be_sequence = s, be_chain = Some ch\<rparr>))"
proof (induction xs arbitrary: b)
  case (Cons x xs)
  obtain s v ch where x: "x = (s, v, ch)" by (cases x) auto
  let ?b = "best_step x b"
  have val: "be_value ?b = max (be_value b) v"
    using best_step_cases [of s v ch b] by (auto simp: x max_def)
  have "Max (insert (be_value ?b) ((\<lambda>(s, v, ch). v) ` set xs))
      = Max (insert (be_value b) ((\<lambda>(s, v, ch). v) ` set (x # xs)))"
    by (cases "set xs = {}") (simp_all add: val [unfolded x] x max.assoc max.commute max.left_commute)
  moreover have "?b = b \<or> ?b = \<lparr>be_value = v, be_sequence = s, be_chain = Some ch\<rparr>"
    using best_step_cases [of s v ch b] by (auto simp: x)
  ultimately show ?case using Cons [of ?b] by (auto simp: x)
qed simp

text \<open>
  The best result is the maximum of everything considered. After considering any
  candidates in any order, the best value is the maximum of the seed value and all of theirs,
  and the kept sequence and snapshot are the seed's own or belong together to one considered
  candidate that has this value: a snapshot is never paired with another sequence.
\<close>

theorem best_is_maximum:
  "be_value (fold best_step xs b) = Max (insert (be_value b) ((\<lambda>(s, v, ch). v) ` set xs))
   \<and> (fold best_step xs b = b
      \<or> (\<exists>(s, v, ch) \<in> set xs. fold best_step xs b = \<lparr>be_value = v, be_sequence = s, be_chain = Some ch\<rparr>))"
  by (rule best_fold)

theorem best_is_maximum_witness:
  "be_value (fold best_step [([demo_call 1], 7, ()), ([], 3, ())] (best_new [] 5)) = 7"
  using best_is_maximum [of "[([demo_call 1], 7, ()), ([], 3, ())]" "best_new [] 5"]
  by (simp add: best_new_def)

subsection \<open>The corpus\<close>

record 'c m_entry =
  mn_sequence :: seq_calls
  mn_value :: max_value
  mn_new_edges :: u64
  mn_delta_activity :: u64
  mn_chain :: "'c option"

type_synonym 'c m_corpus = "'c m_entry list"

definition M_MAX_ENTRIES :: nat where
  "M_MAX_ENTRIES = 256"

definition m_strength :: "'c m_entry \<Rightarrow> u64" where
  "m_strength e = sat_add (mn_new_edges e) (mn_delta_activity e)"

definition m_best_value :: "'c m_corpus \<Rightarrow> max_value" where
  "m_best_value entries = fold max (map mn_value entries) 0"

definition m_weakest :: "max_value \<Rightarrow> 'c m_corpus \<Rightarrow> nat option" where
  "m_weakest best_value entries =
     map_option fst
       (min_by_key (\<lambda>(i, e). (m_strength e, mn_value e))
         (filter (\<lambda>(i, e). mn_value e < best_value) (enumerate 0 entries)))"

definition m_add_entry :: "'c m_entry \<Rightarrow> 'c m_corpus \<Rightarrow> 'c m_corpus" where
  "m_add_entry entry entries =
     (if length entries < M_MAX_ENTRIES then entries @ [entry]
      else
        let best_value = m_best_value entries;
            strength = m_strength entry
        in if best_value < mn_value entry then
             let weakest = (case m_weakest best_value entries of
                              Some i \<Rightarrow> i | None \<Rightarrow> length entries - 1)
             in remove_at weakest entries @ [entry]
           else
             (case m_weakest best_value entries of
                None \<Rightarrow> entries
              | Some weakest \<Rightarrow>
                  if strength \<le> m_strength (entries ! weakest) then entries
                  else remove_at weakest entries @ [entry]))"

definition m_add :: "seq_calls \<Rightarrow> max_value \<Rightarrow> u64 \<Rightarrow> u64 \<Rightarrow> 'c \<Rightarrow> 'c m_corpus \<Rightarrow> 'c m_corpus" where
  "m_add s v edges activity ch entries =
     m_add_entry \<lparr>mn_sequence = s, mn_value = v, mn_new_edges = edges, mn_delta_activity = activity,
                  mn_chain = Some ch\<rparr> entries"

record m_snapshot =
  ms_sequence :: seq_calls
  ms_value :: max_value
  ms_new_edges :: u64

definition m_entries :: "'c m_corpus \<Rightarrow> m_snapshot list" where
  "m_entries entries =
     map (\<lambda>e. \<lparr>ms_sequence = mn_sequence e, ms_value = mn_value e, ms_new_edges = mn_new_edges e\<rparr>) entries"

definition m_entry_weight :: "'c m_entry \<Rightarrow> u64" where
  "m_entry_weight e =
     (let value_weight = sat_add (of_nat (bit_len (mn_value e))) 1
      in sat_add (sat_add (sat_add (mn_new_edges e) 1) value_weight) (mn_delta_activity e))"

definition m_replayed :: "'c m_corpus \<Rightarrow> 'c m_entry list" where
  "m_replayed entries = filter (\<lambda>e. mn_chain e \<noteq> None) entries"

definition m_base_of :: "'c m_entry \<Rightarrow> (seq_calls \<times> max_value \<times> 'c) option" where
  "m_base_of e = map_option (\<lambda>ch. (mn_sequence e, mn_value e, ch)) (mn_chain e)"

definition m_random_base ::
  "'r rng_ops \<Rightarrow> 'r \<Rightarrow> 'c m_corpus \<Rightarrow> (seq_calls \<times> max_value \<times> 'c) option \<times> 'r" where
  "m_random_base R r entries =
     (let replayed = m_replayed entries;
          total = sum_list (map m_entry_weight replayed)
      in if total = 0 then (None, r)
         else
           let (pick, r') = rng_range R 0 (unat total) r in
           (case weighted_pick m_entry_weight (of_nat pick) replayed of
              Some e \<Rightarrow> (m_base_of e, r')
            | None \<Rightarrow> (if replayed = [] then None else m_base_of (last replayed), r')))"

definition m_best_entry :: "'c m_corpus \<Rightarrow> (seq_calls \<times> max_value \<times> 'c) option" where
  "m_best_entry entries =
     max_by_key (\<lambda>(s, v, ch). v) (List.map_filter m_base_of (m_replayed entries))"

subsection \<open>Eviction keeps the best value\<close>

lemma fold_max: "fold max xs (a :: 'a::linorder) = Max (insert a (set xs))"
proof (induction xs arbitrary: a)
  case (Cons x xs)
  then show ?case by (cases "xs = []") (simp_all add: max.assoc max.commute max.left_commute)
qed simp

lemma m_best_value_Max: "es \<noteq> [] \<Longrightarrow> m_best_value es = Max (mn_value ` set es)"
  by (simp add: m_best_value_def fold_max max_def)

lemma m_weakest_Some:
  assumes "m_weakest best es = Some i"
  shows "i < length es \<and> mn_value (es ! i) < best
     \<and> (\<forall>x \<in> set es. mn_value x < best \<longrightarrow> (m_strength (es ! i), mn_value (es ! i)) \<le> (m_strength x, mn_value x))"
proof -
  let ?f = "\<lambda>(i, e). (m_strength e, mn_value e)"
    and ?xs = "filter (\<lambda>(i, e). mn_value e < best) (enumerate 0 es)"
  from assms obtain e where m: "min_by_key ?f ?xs = Some (i, e)" by (auto simp: m_weakest_def)
  from min_by_key_Some [OF m] have mem: "(i, e) \<in> set ?xs" and least: "\<forall>p \<in> set ?xs. ?f (i, e) \<le> ?f p"
    by blast+
  have e: "i < length es" "e = es ! i" "mn_value e < best"
    using mem by (auto simp: in_set_enumerate)
  have "?f (i, e) \<le> (m_strength x, mn_value x)" if "x \<in> set es" "mn_value x < best" for x
  proof -
    from that(1) obtain j where "j < length es" "x = es ! j" by (auto simp: in_set_conv_nth)
    then have "(j, x) \<in> set ?xs" using that(2) by (simp add: in_set_enumerate)
    with least show ?thesis by fastforce
  qed
  with e show ?thesis by auto
qed

lemma m_weakest_None:
  assumes "m_weakest best es = None"
  shows "\<forall>x \<in> set es. best \<le> mn_value x"
proof -
  have "filter (\<lambda>(i, e). mn_value e < best) (enumerate 0 es) = []"
    using assms by (simp add: m_weakest_def)
  then have no: "\<forall>(i, e) \<in> set (enumerate 0 es). \<not> mn_value e < best"
    by (auto simp: filter_empty_conv)
  show ?thesis
  proof
    fix x
    assume "x \<in> set es"
    then obtain j where "j < length es" "x = es ! j" by (auto simp: in_set_conv_nth)
    then have "(j, x) \<in> set (enumerate 0 es)" by (simp add: in_set_enumerate)
    with no show "best \<le> mn_value x" by fastforce
  qed
qed

text \<open>The three things an addition to a full corpus can do.\<close>

lemma m_add_full:
  assumes "M_MAX_ENTRIES \<le> length es"
  obtains (improve) i where "i < length es" and "m_best_value es < mn_value e"
      and "m_add_entry e es = remove_at i es @ [e]"
    | (replace) i where "i < length es" and "mn_value (es ! i) < m_best_value es"
      and "m_strength (es ! i) < m_strength e" and "m_add_entry e es = remove_at i es @ [e]"
      and "mn_value e \<le> m_best_value es"
    | (reject) "m_add_entry e es = es" and "mn_value e \<le> m_best_value es"
      and "\<forall>x \<in> set es. mn_value x < m_best_value es \<longrightarrow> m_strength e \<le> m_strength x"
proof -
  have full: "\<not> length es < M_MAX_ENTRIES" and pos: "0 < length es"
    using assms by (auto simp: M_MAX_ENTRIES_def)
  show ?thesis
  proof (cases "m_best_value es < mn_value e")
    case True
    show ?thesis
    proof (cases "m_weakest (m_best_value es) es")
      case None
      with True full pos show ?thesis
        by (intro improve [of "length es - 1"]) (simp_all add: m_add_entry_def Let_def)
    next
      case (Some i)
      with True full show ?thesis
        by (intro improve [of i]) (auto simp: m_add_entry_def Let_def dest: m_weakest_Some)
    qed
  next
    case False
    then have le: "mn_value e \<le> m_best_value es" by simp
    show ?thesis
    proof (cases "m_weakest (m_best_value es) es")
      case None
      then have "\<forall>x \<in> set es. \<not> mn_value x < m_best_value es"
        using m_weakest_None by (metis not_less)
      with False None full le show ?thesis
        by (intro reject) (auto simp: m_add_entry_def Let_def)
    next
      case (Some i)
      note w = m_weakest_Some [OF Some]
      show ?thesis
      proof (cases "m_strength e \<le> m_strength (es ! i)")
        case True
        have "\<forall>x \<in> set es. mn_value x < m_best_value es \<longrightarrow> m_strength e \<le> m_strength x"
          using w True by (auto simp: less_eq_prod_def intro: order.trans less_imp_le)
        with True False Some full le show ?thesis
          by (intro reject) (simp_all add: m_add_entry_def Let_def)
      next
        case strong: False
        with False Some full le w show ?thesis
          by (intro replace [of i]) (simp_all add: m_add_entry_def Let_def)
      qed
    qed
  qed
qed

lemma m_add_below: "length es < M_MAX_ENTRIES \<Longrightarrow> m_add_entry e es = es @ [e]"
  by (simp add: m_add_entry_def)

lemma m_add_length:
  "length (m_add_entry e es) = (if length es < M_MAX_ENTRIES then Suc (length es) else length es)"
proof (cases "length es < M_MAX_ENTRIES")
  case False
  then have "M_MAX_ENTRIES \<le> length es" by simp
  then show ?thesis
    by (cases rule: m_add_full [of es e]) (use False in \<open>auto simp: length_remove_at\<close>)
qed (simp add: m_add_below)

lemma m_add_set: "set (m_add_entry e es) \<subseteq> insert e (set es)"
proof (cases "length es < M_MAX_ENTRIES")
  case False
  then have "M_MAX_ENTRIES \<le> length es" by simp
  then show ?thesis
  proof (cases rule: m_add_full [of es e])
    case (improve i)
    then show ?thesis using set_remove_at_subset [of i es] by auto
  next
    case (replace i)
    then show ?thesis using set_remove_at_subset [of i es] by auto
  qed auto
qed (auto simp: m_add_below)

interpretation mpool: bounded_pool m_add_entry M_MAX_ENTRIES
proof
  fix es :: "'a m_corpus" and e
  show "length es \<le> M_MAX_ENTRIES \<Longrightarrow> length (m_add_entry e es) \<le> M_MAX_ENTRIES"
    by (simp add: m_add_length)
  show "length es \<le> length (m_add_entry e es)" by (simp add: m_add_length)
  show "set (m_add_entry e es) \<subseteq> insert e (set es)" by (rule m_add_set)
  show "length es < M_MAX_ENTRIES \<Longrightarrow> m_add_entry e es = es @ [e]" by (rule m_add_below)
qed

lemma Max_image_remove_at:
  assumes "i < length es" and "x \<in> set es" and "f x = Max (f ` set es)" and "f (es ! i) < Max (f ` set es)"
  shows "Max (f ` set (remove_at i es)) = (Max (f ` set es) :: 'b::linorder) \<and> remove_at i es \<noteq> []"
proof -
  have "x \<noteq> es ! i" using assms(3,4) by auto
  then have mem: "x \<in> set (remove_at i es)" using assms(1,2) by (intro in_remove_at)
  have "Max (f ` set (remove_at i es)) \<le> Max (f ` set es)"
    using mem set_remove_at_subset [of i es] by (intro Max_mono) auto
  moreover have "f x \<le> Max (f ` set (remove_at i es))" using mem by simp
  ultimately show ?thesis using assms(3) mem by auto
qed

lemma m_add_max:
  assumes "es \<noteq> []"
  shows "Max (mn_value ` set (m_add_entry e es)) = max (mn_value e) (Max (mn_value ` set es))"
proof (cases "length es < M_MAX_ENTRIES")
  case True
  with assms show ?thesis by (simp add: m_add_below)
next
  case False
  then have full: "M_MAX_ENTRIES \<le> length es" by simp
  note best = m_best_value_Max [OF assms]
  show ?thesis
    using full
  proof (cases rule: m_add_full [of es e])
    case (improve i)
    have "Max (insert (mn_value e) (mn_value ` set (remove_at i es))) = mn_value e"
    proof (rule Max_eqI)
      fix v
      assume "v \<in> insert (mn_value e) (mn_value ` set (remove_at i es))"
      then have "v = mn_value e \<or> v \<in> mn_value ` set es" using set_remove_at_subset [of i es] by auto
      then have "v = mn_value e \<or> v \<le> m_best_value es" unfolding best by auto
      with improve(2) show "v \<le> mn_value e" by auto
    qed simp_all
    then show ?thesis using improve(2,3) unfolding best by simp
  next
    case (replace i)
    obtain x where "x \<in> set es" "mn_value x = Max (mn_value ` set es)"
      using Max_in [of "mn_value ` set es"] assms by fastforce
    from Max_image_remove_at [where f = mn_value, OF replace(1) this replace(2) [unfolded best]]
    have kept: "Max (mn_value ` set (remove_at i es)) = Max (mn_value ` set es)" "remove_at i es \<noteq> []"
      by blast+
    have "Max (insert (mn_value e) (mn_value ` set (remove_at i es)))
        = max (mn_value e) (Max (mn_value ` set (remove_at i es)))"
      using kept(2) by (intro Max_insert) auto
    then show ?thesis using replace(4) kept(1) by simp
  next
    case reject
    then show ?thesis unfolding best by (simp add: max_def)
  qed
qed

lemma m_add_not_Nil: "m_add_entry e es \<noteq> []"
  using m_add_length [of e es] by (cases es) (auto simp: m_add_entry_def M_MAX_ENTRIES_def)

lemma m_fold_max:
  "es \<noteq> [] \<Longrightarrow> Max (mn_value ` set (fold m_add_entry xs es)) = Max (mn_value ` (set es \<union> set xs))"
proof (induction xs arbitrary: es)
  case (Cons x xs)
  have "Max (mn_value ` (set (m_add_entry x es) \<union> set xs)) = Max (mn_value ` (set es \<union> set (x # xs)))"
    using m_add_max [OF Cons.prems, of x] Cons.prems m_add_not_Nil [of x es]
    by (cases "xs = []") (simp_all add: image_Un Max_Un max.assoc max.left_commute)
  with Cons.IH [OF m_add_not_Nil, of x es] show ?case by simp
qed simp

text \<open>
  C30: the max corpus is bounded and never loses its best value. After any additions to an
  empty corpus it has at most 256 entries, all among the added ones, and the greatest value
  in it is the greatest value ever added, however strong or weak the entries' coverage was.
\<close>

theorem m_corpus_keeps_maximum:
  "length (fold m_add_entry (x # xs) []) \<le> M_MAX_ENTRIES
   \<and> set (fold m_add_entry (x # xs) []) \<subseteq> set (x # xs)
   \<and> Max (mn_value ` set (fold m_add_entry (x # xs) [])) = Max (mn_value ` set (x # xs))"
proof -
  have "m_add_entry x [] = [x]" by (simp add: m_add_below M_MAX_ENTRIES_def)
  then show ?thesis
    using mpool.fold_within [of "[]" "x # xs"] mpool.fold_adds_only [of "x # xs" "[]"]
      m_fold_max [of "[x]" xs] by simp
qed

definition demo_m_entry :: "u64 \<Rightarrow> max_value \<Rightarrow> unit m_entry" where
  "demo_m_entry n v =
     \<lparr>mn_sequence = [demo_call 1], mn_value = v, mn_new_edges = n, mn_delta_activity = 0,
      mn_chain = Some ()\<rparr>"

text \<open>
  A full max corpus replaces an entry in exactly two situations. A sequence that improves
  the best value always joins; any other joins only when it is strictly stronger (new edges
  plus delta activity) than the weakest entry below the best value, which it replaces, and it
  is rejected when it is at most as strong as every entry below the best value.
\<close>

theorem m_full_corpus_policy:
  assumes "M_MAX_ENTRIES \<le> length es"
  shows "(m_best_value es < mn_value e \<longrightarrow> (\<exists>i < length es. m_add_entry e es = remove_at i es @ [e]))
     \<and> (mn_value e \<le> m_best_value es \<longrightarrow>
          (m_add_entry e es = es \<and> (\<forall>x \<in> set es. mn_value x < m_best_value es \<longrightarrow> m_strength e \<le> m_strength x))
        \<or> (\<exists>i < length es. mn_value (es ! i) < m_best_value es \<and> m_strength (es ! i) < m_strength e
             \<and> m_add_entry e es = remove_at i es @ [e]))"
  using assms
proof (cases rule: m_add_full [of es e])
  case (improve i)
  then show ?thesis by auto
next
  case (replace i)
  then show ?thesis by auto
next
  case reject
  then show ?thesis by auto
qed

theorem m_full_corpus_policy_witness:
  "m_add_entry (demo_m_entry 5 3) (replicate 256 (demo_m_entry 5 3)) = replicate 256 (demo_m_entry 5 3)"
proof -
  let ?es = "replicate 256 (demo_m_entry 5 3)"
  have full: "M_MAX_ENTRIES \<le> length ?es" by (simp add: M_MAX_ENTRIES_def)
  have best: "m_best_value ?es = 3"
    using m_best_value_Max [of ?es] by (simp add: demo_m_entry_def)
  have "\<not> (\<exists>i < length ?es. mn_value (?es ! i) < m_best_value ?es)"
    unfolding best by (simp add: demo_m_entry_def)
  moreover have "mn_value (demo_m_entry 5 3) \<le> m_best_value ?es"
    unfolding best by (simp add: demo_m_entry_def)
  ultimately show ?thesis using m_full_corpus_policy [OF full, of "demo_m_entry 5 3"] by blast
qed

subsection \<open>Sampling and the best entry\<close>

lemma m_entry_weight_pos: "m_entry_weight e \<noteq> 0"
proof -
  have "0 < unat (m_entry_weight e)" by (simp add: m_entry_weight_def Let_def unat_sat_add)
  then show ?thesis by auto
qed

lemma m_base_of_replayed:
  "e \<in> set (m_replayed es) \<Longrightarrow>
     \<exists>ch. mn_chain e = Some ch \<and> m_base_of e = Some (mn_sequence e, mn_value e, ch) \<and> e \<in> set es"
  by (auto simp: m_replayed_def m_base_of_def)

text \<open>
  Bases of the max mode are sampled proportionally to their weight: on a corpus with a
  replayed entry (and a total weight that fits 64 bits) \<open>random_base\<close> returns the sequence,
  value and snapshot of one replayed entry, and every entry is selected by exactly as many
  draws as its weight, which grows with its coverage, its value and its delta activity and is
  at least two.
\<close>

theorem m_base_proportional:
  assumes "rng_ok R" and "m_replayed es \<noteq> []" and "total_nat m_entry_weight (m_replayed es) < 2 ^ 64"
  shows "\<exists>i pick r' ch. i < length (m_replayed es)
     \<and> rng_range R 0 (total_nat m_entry_weight (m_replayed es)) r = (pick, r')
     \<and> pick \<in> draws m_entry_weight i (m_replayed es)
     \<and> mn_chain (m_replayed es ! i) = Some ch
     \<and> m_random_base R r es
        = (Some (mn_sequence (m_replayed es ! i), mn_value (m_replayed es ! i), ch), r')
     \<and> (\<forall>j < length (m_replayed es).
          card (draws m_entry_weight j (m_replayed es)) = unat (m_entry_weight (m_replayed es ! j))
          \<and> 2 \<le> unat (m_entry_weight (m_replayed es ! j)))"
proof -
  let ?xs = "m_replayed es"
  have tot: "unat (sum_list (map m_entry_weight ?xs)) = total_nat m_entry_weight ?xs"
    using assms(3) by (rule unat_sum_list)
  have pos: "0 < total_nat m_entry_weight ?xs" using assms(2) m_entry_weight_pos by (rule total_pos)
  obtain pick r' where draw: "rng_range R 0 (unat (sum_list (map m_entry_weight ?xs))) r = (pick, r')"
    by fastforce
  obtain i where i: "i < length ?xs" "pick \<in> draws m_entry_weight i ?xs"
    "weighted_pick m_entry_weight (of_nat pick) ?xs = Some (?xs ! i)"
    using weighted_choice [OF assms(1,3) pos draw] by blast
  obtain ch where ch: "mn_chain (?xs ! i) = Some ch"
    "m_base_of (?xs ! i) = Some (mn_sequence (?xs ! i), mn_value (?xs ! i), ch)"
    using m_base_of_replayed [of "?xs ! i" es] i(1) by auto
  have "sum_list (map m_entry_weight ?xs) \<noteq> 0" using pos sum_list_zero_iff [OF assms(3)] by simp
  then have "m_random_base R r es = (Some (mn_sequence (?xs ! i), mn_value (?xs ! i), ch), r')"
    using draw i(3) ch(2) by (simp add: m_random_base_def Let_def)
  moreover have "2 \<le> unat (m_entry_weight e)" for e :: "'b m_entry"
    by (simp add: m_entry_weight_def Let_def unat_sat_add)
  moreover have "\<forall>j < length ?xs. card (draws m_entry_weight j ?xs) = unat (m_entry_weight (?xs ! j))"
    using card_draws [where w = m_entry_weight and xs = ?xs] assms(3) by auto
  ultimately show ?thesis
    using i ch(1) draw unfolding tot by (intro exI conjI) (assumption | simp)+
qed

theorem m_base_proportional_witness:
  "fst (m_random_base counter_rng 0 [demo_m_entry 3 1, demo_m_entry 1 0]) \<noteq> None
   \<and> card (draws m_entry_weight 1 [demo_m_entry 3 1, demo_m_entry 1 0]) = 3"
proof -
  let ?es = "[demo_m_entry 3 1, demo_m_entry 1 0]"
  have rep: "m_replayed ?es = ?es" by (simp add: m_replayed_def demo_m_entry_def)
  have w: "unat (m_entry_weight (demo_m_entry 3 1)) = 6" "unat (m_entry_weight (demo_m_entry 1 0)) = 3"
    by (simp_all add: m_entry_weight_def demo_m_entry_def unat_sat_add bit_len_def nat_bits_pos)
  have "total_nat m_entry_weight (m_replayed ?es) < 2 ^ 64"
    unfolding rep by (simp add: total_nat_def w)
  from m_base_proportional [OF counter_rng_ok _ this, of 0] obtain x r' where
    "m_random_base counter_rng 0 ?es = (Some x, r')"
    "card (draws m_entry_weight 1 ?es) = unat (m_entry_weight (?es ! 1))"
    unfolding rep by auto
  then show ?thesis by (simp add: w)
qed

lemma map_filter_base: "List.map_filter m_base_of (m_replayed es) = List.map_filter m_base_of es"
  by (induction es) (auto simp: m_replayed_def m_base_of_def List.map_filter_simps)

text \<open>
  The best entry is a replayed entry of the highest value among the replayed ones, with
  its own sequence and snapshot; there is none exactly when nothing is replayed.
\<close>

theorem m_best_entry_is_best:
  "(m_best_entry es = None \<longleftrightarrow> m_replayed es = [])
   \<and> (\<forall>s v ch. m_best_entry es = Some (s, v, ch) \<longrightarrow>
        (\<exists>e \<in> set es. mn_sequence e = s \<and> mn_value e = v \<and> mn_chain e = Some ch
           \<and> (\<forall>x \<in> set es. mn_chain x \<noteq> None \<longrightarrow> mn_value x \<le> v)))"
proof (intro conjI allI impI)
  show "m_best_entry es = None \<longleftrightarrow> m_replayed es = []"
    by (auto simp: m_best_entry_def List.map_filter_def filter_empty_conv m_base_of_def m_replayed_def)
next
  fix s v ch
  assume "m_best_entry es = Some (s, v, ch)"
  then have m: "max_by_key (\<lambda>(s, v, ch). v) (List.map_filter m_base_of es) = Some (s, v, ch)"
    by (simp add: m_best_entry_def map_filter_base)
  note M = max_by_key_Some [OF m]
  then obtain e where e: "e \<in> set es" "m_base_of e = Some (s, v, ch)"
    by (auto simp: set_map_filter)
  have "mn_value x \<le> v" if x: "x \<in> set es" "mn_chain x \<noteq> None" for x
  proof -
    from x(2) obtain c where "m_base_of x = Some (mn_sequence x, mn_value x, c)"
      by (auto simp: m_base_of_def)
    then have "(mn_sequence x, mn_value x, c) \<in> set (List.map_filter m_base_of es)"
      using x(1) by (auto simp: set_map_filter)
    with M show ?thesis by fastforce
  qed
  with e show "\<exists>e \<in> set es. mn_sequence e = s \<and> mn_value e = v \<and> mn_chain e = Some ch
           \<and> (\<forall>x \<in> set es. mn_chain x \<noteq> None \<longrightarrow> mn_value x \<le> v)"
    by (auto simp: m_base_of_def)
qed

theorem m_best_entry_is_best_witness:
  "\<exists>e \<in> set [demo_m_entry 9 1, demo_m_entry 1 8]. mn_value e = 8
     \<and> m_best_entry [demo_m_entry 9 1, demo_m_entry 1 8] = Some (mn_sequence e, 8, ())"
proof -
  have run: "m_best_entry [demo_m_entry 9 1, demo_m_entry 1 8] = Some ([demo_call 1], 8, ())"
    by (simp add: m_best_entry_def m_replayed_def m_base_of_def demo_m_entry_def
        List.map_filter_simps)
  from m_best_entry_is_best [THEN conjunct2, rule_format, OF run] obtain e where
    "e \<in> set [demo_m_entry 9 1, demo_m_entry 1 8]" "mn_sequence e = [demo_call 1]" "mn_value e = 8"
    by auto
  with run show ?thesis by (intro bexI [of _ e]) simp_all
qed

subsection \<open>The persisted corpus\<close>

record m_entry_json =
  mj_value :: string
  mj_new_edges :: u64
  mj_calls :: "call_json list"

record m_corpus_json =
  mj_version :: nat
  mj_entries :: "m_entry_json list"

record value_codec =
  vc_show :: "u256 \<Rightarrow> string"
  vc_parse :: "string \<Rightarrow> u256 option"

definition value_codec_ok :: "value_codec \<Rightarrow> bool" where
  "value_codec_ok V \<longleftrightarrow> (\<forall>v. vc_parse V (vc_show V v) = Some v)"

text \<open>A call that does not resolve clears the calls of its entry, so the entry is skipped.\<close>

fun m_decode_calls :: "codec \<Rightarrow> abi_fn list \<Rightarrow> call_json list \<Rightarrow> call list \<Rightarrow> call list" where
  "m_decode_calls C hs [] calls = calls"
| "m_decode_calls C hs (cj # cjs) calls =
     (case m_decode_call C hs cj of
        Inl e \<Rightarrow> []
      | Inr c \<Rightarrow> m_decode_calls C hs cjs (calls @ [c]))"

fun m_load_entries ::
  "codec \<Rightarrow> value_codec \<Rightarrow> abi_fn list \<Rightarrow> nat \<Rightarrow> m_entry_json list \<Rightarrow> nat \<Rightarrow> 'c m_corpus \<Rightarrow>
   (load_error + nat) \<times> 'c m_corpus" where
  "m_load_entries C V hs index [] loaded corpus = (Inr loaded, corpus)"
| "m_load_entries C V hs index (ej # ejs) loaded corpus =
     (let calls = m_decode_calls C hs (mj_calls ej) [] in
      if calls = [] then m_load_entries C V hs (Suc index) ejs loaded corpus
      else case vc_parse V (mj_value ej) of
             None \<Rightarrow> (Inl (Load_Invalid_Value index), corpus)
           | Some v \<Rightarrow>
               m_load_entries C V hs (Suc index) ejs (loaded + 1)
                 (m_add_entry \<lparr>mn_sequence = calls, mn_value = v, mn_new_edges = mj_new_edges ej,
                               mn_delta_activity = 0, mn_chain = None\<rparr> corpus))"

definition m_load ::
  "codec \<Rightarrow> value_codec \<Rightarrow> m_corpus_json json_codec \<Rightarrow> abi_fn list \<Rightarrow> file_read \<Rightarrow> 'c m_corpus \<Rightarrow>
   (load_error + nat) \<times> 'c m_corpus" where
  "m_load C V J hs file corpus =
     (case file of
        File_Missing \<Rightarrow> (Inr 0, corpus)
      | File_Unreadable \<Rightarrow> (Inl Load_Unreadable, corpus)
      | File_Contents content \<Rightarrow>
          (case js_parse J content of
             None \<Rightarrow> (Inl Load_Unparsable, corpus)
           | Some doc \<Rightarrow>
               if mj_version doc \<noteq> CORPUS_VERSION then (Inl Load_Unsupported_Version, corpus)
               else m_load_entries C V hs 0 (mj_entries doc) 0 corpus))"

definition m_entry_to_json :: "codec \<Rightarrow> value_codec \<Rightarrow> m_snapshot \<Rightarrow> m_entry_json" where
  "m_entry_to_json C V e =
     \<lparr>mj_value = vc_show V (ms_value e), mj_new_edges = ms_new_edges e,
      mj_calls = map (call_to_json C) (ms_sequence e)\<rparr>"

definition m_save ::
  "codec \<Rightarrow> value_codec \<Rightarrow> m_corpus_json json_codec \<Rightarrow> 'c m_corpus \<Rightarrow> string option" where
  "m_save C V J corpus =
     js_render J \<lparr>mj_version = CORPUS_VERSION, mj_entries = map (m_entry_to_json C V) (m_entries corpus)\<rparr>"

text \<open>What the file keeps of an entry: no activity, no snapshot.\<close>

definition m_persisted :: "'c m_entry \<Rightarrow> 'c m_entry" where
  "m_persisted e = e\<lparr>mn_delta_activity := 0, mn_chain := None\<rparr>"

lemma m_decode_calls_to_json:
  "codec_ok C hs \<Longrightarrow> handlers_ok hs \<Longrightarrow> list_all (call_ok hs) calls \<Longrightarrow>
   m_decode_calls C hs (map (call_to_json C) calls) pre = pre @ calls"
  by (induction calls arbitrary: pre) (simp_all add: decode_call_to_json m_decode_call_eq)

lemma m_load_saved:
  assumes "codec_ok C hs" and "handlers_ok hs" and "value_codec_ok V"
    and "\<forall>e \<in> set es. mn_sequence e \<noteq> [] \<and> list_all (call_ok hs) (mn_sequence e)"
  shows "m_load_entries C V hs index (map (m_entry_to_json C V) (m_entries es)) n corpus
    = (Inr (n + length es), fold m_add_entry (map m_persisted es) corpus)"
  using assms(4)
proof (induction es arbitrary: index n corpus)
  case (Cons e es)
  have "\<lparr>mn_sequence = mn_sequence e, mn_value = mn_value e, mn_new_edges = mn_new_edges e,
         mn_delta_activity = 0, mn_chain = None\<rparr> = m_persisted e"
    by (simp add: m_persisted_def)
  with Cons assms(1-3) show ?case
    by (simp add: m_entries_def m_entry_to_json_def m_decode_calls_to_json Let_def value_codec_ok_def)
qed (simp add: m_entries_def)

text \<open>
  Saving and loading a max corpus is lossless except for the snapshots and the delta
  activities. When the codecs are inverse as documented, every call was built for a handler
  and no entry is empty, loading a saved corpus of at most 256 entries into an empty corpus
  gives back every sequence with its value and new edges, in order.
\<close>

theorem m_save_load_roundtrip:
  assumes "codec_ok C hs" and "handlers_ok hs" and "value_codec_ok V" and "json_ok J"
    and "\<forall>e \<in> set corpus. mn_sequence e \<noteq> [] \<and> list_all (call_ok hs) (mn_sequence e)"
    and "length corpus \<le> M_MAX_ENTRIES" and "m_save C V J corpus = Some s"
  shows "m_load C V J hs (File_Contents s) [] = (Inr (length corpus), map m_persisted corpus)"
proof -
  have parse: "js_parse J s = Some \<lparr>mj_version = CORPUS_VERSION,
      mj_entries = map (m_entry_to_json C V) (m_entries corpus)\<rparr>"
    using assms(4,7) by (simp add: m_save_def json_ok_def)
  show ?thesis
    using m_load_saved [OF assms(1-3,5), of 0 0 "[]"] mpool.fold_below [of "[]" "map m_persisted corpus"]
      assms(6) by (simp add: m_load_def parse)
qed

definition demo_value_codec :: value_codec where
  "demo_value_codec =
     \<lparr>vc_show = (\<lambda>v. replicate (unat v) CHR ''1''), vc_parse = (\<lambda>s. Some (of_nat (length s)))\<rparr>"

lemma demo_value_codec_ok: "value_codec_ok demo_value_codec"
  by (simp add: value_codec_ok_def demo_value_codec_def)

theorem m_save_load_roundtrip_witness:
  "m_load demo_codec demo_value_codec
     (demo_json \<lparr>mj_version = 1,
        mj_entries = [m_entry_to_json demo_codec demo_value_codec (hd (m_entries [demo_m_entry 7 2]))]\<rparr>)
     demo_handlers (File_Contents ''d'') []
   = (Inr 1, [m_persisted (demo_m_entry 7 2)])"
proof -
  let ?d = "\<lparr>mj_version = 1,
      mj_entries = [m_entry_to_json demo_codec demo_value_codec (hd (m_entries [demo_m_entry 7 2]))]\<rparr>"
  have "m_save demo_codec demo_value_codec (demo_json ?d) [demo_m_entry 7 2] = Some ''d''"
    by (simp add: m_save_def demo_json_def CORPUS_VERSION_def m_entries_def)
  then show ?thesis
    using m_save_load_roundtrip [OF demo_codec_ok demo_handlers_ok demo_value_codec_ok demo_json_ok,
        of "[demo_m_entry 7 2]" ?d "''d''"] demo_call_ok
    by (simp add: demo_m_entry_def M_MAX_ENTRIES_def)
qed

subsection \<open>Replay\<close>

record ('db, 'env, 'cheat) m_replayer =
  mr_chain :: "('db, 'env, 'cheat) chain option"
  mr_target :: "address option"
  mr_deployer :: "address option"
  mr_value_calldata :: "bytes option"
  mr_coverage :: "shared_coverage option"

definition m_replay_entry ::
  "('db, 'env, 'cheat, 'trace) revm_ops \<Rightarrow> codec \<Rightarrow> (bytes \<Rightarrow> sol_value option) \<Rightarrow>
   ('db, 'env, 'cheat) chain \<Rightarrow> address \<Rightarrow> address \<Rightarrow> transaction \<Rightarrow> m_snapshot \<Rightarrow>
   ('db, 'env, 'cheat) chain m_corpus \<times> shared_coverage \<Rightarrow>
   replay_error + ('db, 'env, 'cheat) chain m_corpus \<times> shared_coverage" where
  "m_replay_entry RO C dec chain target deployer value_tx entry st =
     (let (corpus, coverage) = st in
      case chain_exec RO (m_seq_transactions C target deployer (ms_sequence entry)) chain of
        (Inl e, _) \<Rightarrow> Inl (Replay_Chain e)
      | (Inr exec, chain1) \<Rightarrow>
     (case eo_coverage exec of
        None \<Rightarrow> Inl Replay_No_Coverage
      | Some execution_coverage \<Rightarrow>
     (case cov_merge execution_coverage coverage of
        None \<Rightarrow> Inl Replay_Panic
      | Some (update, coverage') \<Rightarrow>
     (case chain_exec RO [value_tx] chain1 of
        (Inl e, _) \<Rightarrow> Inl (Replay_Chain e)
      | (Inr output, chain2) \<Rightarrow>
     (case eo_results output of
        [] \<Rightarrow> Inl Replay_Value_Missing
      | result # _ \<Rightarrow>
          if \<not> tr_success result then Inr (corpus, coverage')
          else case value_decode dec result of
                 Inl _ \<Rightarrow> Inl Replay_Value_Undecodable
               | Inr v \<Rightarrow>
                   Inr (m_add (ms_sequence entry) v (update_edges update) 0 chain2 corpus, coverage'))))))"

definition m_replay ::
  "('db, 'env, 'cheat, 'trace) revm_ops \<Rightarrow> codec \<Rightarrow> (bytes \<Rightarrow> sol_value option) \<Rightarrow>
   ('db, 'env, 'cheat) m_replayer \<Rightarrow> ('db, 'env, 'cheat) chain m_corpus \<Rightarrow>
   replay_error + (('db, 'env, 'cheat) chain m_corpus \<times> nat) \<times> shared_coverage" where
  "m_replay RO C dec mr corpus =
     (case mr_chain mr of None \<Rightarrow> Inl (Replay_Not_Set ''chain'') | Some chain \<Rightarrow>
     (case mr_target mr of None \<Rightarrow> Inl (Replay_Not_Set ''target'') | Some target \<Rightarrow>
     (case mr_deployer mr of None \<Rightarrow> Inl (Replay_Not_Set ''deployer'') | Some deployer \<Rightarrow>
     (case mr_value_calldata mr of None \<Rightarrow> Inl (Replay_Not_Set ''value calldata'') | Some calldata \<Rightarrow>
     (case mr_coverage mr of None \<Rightarrow> Inl (Replay_Not_Set ''coverage'') | Some coverage \<Rightarrow>
        let value_tx = tx_with_calldata calldata (tx_new target) in
        case fold_res (m_replay_entry RO C dec chain target deployer value_tx) (m_entries corpus)
               ([], coverage) of
          Inl e \<Rightarrow> Inl e
        | Inr (replayed, coverage') \<Rightarrow> Inr ((replayed, length replayed), coverage'))))))"

lemma m_replay_entry_Inr:
  assumes "m_replay_entry RO C dec chain target deployer vt entry (corpus, cov) = Inr (corpus', cov')"
  shows "corpus' = corpus \<or> (\<exists>v edges ch'. corpus' = m_add (ms_sequence entry) v edges 0 ch' corpus)"
  using assms
  by (auto simp: m_replay_entry_def split: prod.splits sum.splits option.splits list.splits if_splits)

lemma m_replay_fold:
  assumes "fold_res (m_replay_entry RO C dec chain target deployer vt) entries (corpus, cov) = Inr (corpus', cov')"
  shows "\<exists>xs. corpus' = fold m_add_entry xs corpus \<and> set (map mn_sequence xs) \<subseteq> set (map ms_sequence entries)
     \<and> length xs \<le> length entries \<and> (\<forall>x \<in> set xs. mn_chain x \<noteq> None)"
  using assms
proof (induction entries arbitrary: corpus cov)
  case (Cons e entries)
  from Cons.prems obtain corpus1 cov1 where s:
    "m_replay_entry RO C dec chain target deployer vt e (corpus, cov) = Inr (corpus1, cov1)"
    "fold_res (m_replay_entry RO C dec chain target deployer vt) entries (corpus1, cov1) = Inr (corpus', cov')"
    by (auto split: sum.splits)
  from Cons.IH [OF s(2)] obtain xs where xs: "corpus' = fold m_add_entry xs corpus1"
    "set (map mn_sequence xs) \<subseteq> set (map ms_sequence entries)" "length xs \<le> length entries"
    "\<forall>x \<in> set xs. mn_chain x \<noteq> None" by blast
  from m_replay_entry_Inr [OF s(1)] show ?case
  proof (elim disjE exE)
    assume "corpus1 = corpus"
    with xs show ?thesis by (intro exI [of _ xs]) auto
  next
    fix v edges ch'
    assume "corpus1 = m_add (ms_sequence e) v edges 0 ch' corpus"
    with xs show ?thesis
      by (intro exI [of _ "\<lparr>mn_sequence = ms_sequence e, mn_value = v, mn_new_edges = edges,
            mn_delta_activity = 0, mn_chain = Some ch'\<rparr> # xs"]) (auto simp: m_add_def)
  qed
qed simp

text \<open>
  The replayed max corpus is usable. When replay succeeds every entry of the rebuilt
  corpus carries a snapshot and one of the old sequences, there are at most 256 and at most
  as many as before, and the reported count is their number, so \<open>random_base\<close> and
  \<open>best_entry\<close> find a base whenever the count is positive.
\<close>

theorem m_replay_usable:
  assumes "m_replay RO C dec mr corpus = Inr ((corpus', n), cov')"
  shows "n = length corpus' \<and> n \<le> M_MAX_ENTRIES \<and> n \<le> length corpus
     \<and> (\<forall>e \<in> set corpus'. mn_chain e \<noteq> None \<and> mn_sequence e \<in> mn_sequence ` set corpus)
     \<and> (0 < n \<longrightarrow> m_best_entry corpus' \<noteq> None)"
proof -
  from assms obtain chain target deployer vt cov where
    "fold_res (m_replay_entry RO C dec chain target deployer vt) (m_entries corpus) ([], cov)
       = Inr (corpus', cov')"
    and n: "n = length corpus'"
    by (auto simp: m_replay_def Let_def split: option.splits sum.splits)
  from m_replay_fold [OF this(1)] obtain xs where xs: "corpus' = fold m_add_entry xs []"
    "set (map mn_sequence xs) \<subseteq> mn_sequence ` set corpus" "length xs \<le> length corpus"
    "\<forall>x \<in> set xs. mn_chain x \<noteq> None"
    by (auto simp: m_entries_def)
  have sub: "set corpus' \<subseteq> set xs" using mpool.fold_adds_only [of xs "[]"] xs(1) by simp
  have "length (fold m_add_entry xs es) \<le> length es + length xs" for es :: "('a, 'b, 'c) chain m_corpus"
  proof (induction xs arbitrary: es)
    case (Cons x xs)
    then show ?case using Cons [of "m_add_entry x es"] by (simp add: m_add_length split: if_splits)
  qed simp
  then have len: "length corpus' \<le> length xs" using xs(1) by (metis add_0 list.size(3))
  have chains: "\<forall>e \<in> set corpus'. mn_chain e \<noteq> None" using xs(4) sub by blast
  have seqs: "\<forall>e \<in> set corpus'. mn_sequence e \<in> mn_sequence ` set corpus" using xs(2) sub by auto
  have "m_best_entry corpus' \<noteq> None" if "0 < n"
  proof -
    have "m_replayed corpus' = corpus'" using chains by (simp add: m_replayed_def filter_id_conv)
    with that n have "List.map_filter m_base_of (m_replayed corpus') \<noteq> []"
      using chains by (cases corpus') (auto simp: List.map_filter_simps m_base_of_def)
    then show ?thesis by (auto simp: m_best_entry_def)
  qed
  with n len xs(1,3) chains seqs mpool.fold_within [of "[]" xs] show ?thesis by auto
qed

theorem m_replay_usable_witness:
  "\<exists>corpus' n cov. m_replay demo_ops demo_codec (\<lambda>bs. Some (VUint 4 256))
     \<lparr>mr_chain = Some demo_chain, mr_target = Some 1, mr_deployer = Some 2, mr_value_calldata = Some [],
      mr_coverage = Some sh_new\<rparr>
     [\<lparr>mn_sequence = [], mn_value = 1, mn_new_edges = 3, mn_delta_activity = 0, mn_chain = None\<rparr>]
     = Inr ((corpus', n), cov) \<and> n \<le> 1"
proof -
  obtain corpus' n cov where run: "m_replay demo_ops demo_codec (\<lambda>bs. Some (VUint 4 256))
     \<lparr>mr_chain = Some demo_chain, mr_target = Some 1, mr_deployer = Some 2, mr_value_calldata = Some [],
      mr_coverage = Some sh_new\<rparr>
     [\<lparr>mn_sequence = [], mn_value = 1, mn_new_edges = 3, mn_delta_activity = 0, mn_chain = None\<rparr>]
     = Inr ((corpus', n), cov)"
    by (simp add: m_replay_def m_entries_def m_replay_entry_def m_seq_transactions_def
        demo_exec_empty cov_merge_def)
      (simp add: chain_exec_def demo_chain_def exec_tx_def demo_ops_def demo_step_def tx_new_def
        tx_with_calldata_def Let_def value_decode_def)
  from m_replay_usable [OF run] run show ?thesis by auto
qed

end
