(* ===== verification/Stop_Filters.thy ===== *)
theory Stop_Filters
  imports Tx_Result
begin

section \<open>Stop filters\<close>

text \<open>
  \<open>src/src/tester/stop.rs\<close>: which reverts and panics halt a campaign, the id recorded for
  a halting result, and the test whether a replayed result still has that identity, which
  the shrinker relies on. Text codings of the \<open>hex\<close> and integer crates are the record
  \<open>text_codec\<close>. The locale \<open>stop_filter\<close> is the contract between a filter and the shrinker:
  a result a filter halts on reproduces its own id, and what reproduces an id has that id.
\<close>

record text_codec =
  tc_hex_encode :: "bytes \<Rightarrow> string"
  tc_hex_decode :: "string \<Rightarrow> bytes option"
  tc_show_hex :: "u256 \<Rightarrow> string"
  tc_parse_hex :: "string \<Rightarrow> u256 option"
  tc_parse_dec :: "string \<Rightarrow> u256 option"

definition text_ok :: "text_codec \<Rightarrow> bool" where
  "text_ok T \<longleftrightarrow>
     (\<forall>bs. tc_hex_decode T (tc_hex_encode T bs) = Some bs \<and> length (tc_hex_encode T bs) = 2 * length bs)
   \<and> (\<forall>v. tc_parse_hex T (tc_show_hex T v) = Some v)"

definition REVERT_PREFIX :: string where "REVERT_PREFIX = ''REVERT:''"
definition PANIC_PREFIX :: string where "PANIC_PREFIX = ''PANIC:''"

subsection \<open>Stop on revert\<close>

datatype stop_on_revert = Revert_Any | Revert_Selector bytes

definition revert_matches :: "sol_abi \<Rightarrow> stop_on_revert \<Rightarrow> tx_result \<Rightarrow> bool" where
  "revert_matches A f r =
     (if tr_success r then False
      else case f of
             Revert_Any \<Rightarrow> broken_invariant A r = None
           | Revert_Selector selector \<Rightarrow>
               (case tr_output r of
                  Some output \<Rightarrow> 4 \<le> length output \<and> take 4 output = selector
                | None \<Rightarrow> False))"

definition revert_finding_id :: "text_codec \<Rightarrow> tx_result \<Rightarrow> string" where
  "revert_finding_id T r =
     (case tr_output r of
        Some output \<Rightarrow>
          if 4 \<le> length output then REVERT_PREFIX @ ''0x'' @ tc_hex_encode T (take 4 output)
          else if output = [] then REVERT_PREFIX @ ''empty''
          else REVERT_PREFIX @ ''0x'' @ tc_hex_encode T output
      | None \<Rightarrow> REVERT_PREFIX @ ''halt'')"

definition is_revert_finding :: "string \<Rightarrow> bool" where
  "is_revert_finding i \<longleftrightarrow> starts_with i REVERT_PREFIX"

definition revert_matches_expected :: "text_codec \<Rightarrow> tx_result \<Rightarrow> string \<Rightarrow> bool" where
  "revert_matches_expected T r expected_id =
     (case strip_prefix REVERT_PREFIX expected_id of
        None \<Rightarrow> False
      | Some suffix \<Rightarrow>
          if tr_success r then False
          else if suffix = ''halt'' then tr_output r = None
          else if suffix = ''empty'' then tr_output r = Some []
          else case strip_prefix ''0x'' suffix of
                 None \<Rightarrow> False
               | Some selector_hex \<Rightarrow>
                   (case tc_hex_decode T selector_hex of
                      None \<Rightarrow> False
                    | Some selector \<Rightarrow>
                        (case tr_output r of
                           Some output \<Rightarrow>
                             if length selector = 4 then 4 \<le> length output \<and> take 4 output = selector
                             else output = selector
                         | None \<Rightarrow> False)))"

fun revert_display :: "text_codec \<Rightarrow> stop_on_revert \<Rightarrow> string" where
  "revert_display T Revert_Any = ''any''"
| "revert_display T (Revert_Selector selector) = ''0x'' @ tc_hex_encode T selector"

definition revert_from_str :: "text_codec \<Rightarrow> string \<Rightarrow> stop_on_revert option" where
  "revert_from_str T input =
     (if input = ''any'' \<or> input = ''*'' then Some Revert_Any
      else case strip_prefix ''0x'' input of
             None \<Rightarrow> None
           | Some digits \<Rightarrow>
               if length digits \<noteq> 8 then None
               else case tc_hex_decode T digits of
                      None \<Rightarrow> None
                    | Some decoded \<Rightarrow>
                        if length decoded = 4 then Some (Revert_Selector decoded) else None)"

subsection \<open>Stop on panic\<close>

datatype stop_on_panic = Panic_Any | Panic_Code u256

definition panic_of :: "sol_abi \<Rightarrow> tx_result \<Rightarrow> u256 option" where
  "panic_of A r = (case tr_output r of None \<Rightarrow> None | Some output \<Rightarrow> panic_decode A output)"

definition panic_matches :: "sol_abi \<Rightarrow> stop_on_panic \<Rightarrow> tx_result \<Rightarrow> bool" where
  "panic_matches A f r =
     (if tr_success r then False
      else case tr_output r of
             None \<Rightarrow> False
           | Some output \<Rightarrow>
               (case panic_decode A output of
                  None \<Rightarrow> False
                | Some pc \<Rightarrow> (case f of Panic_Any \<Rightarrow> True | Panic_Code code \<Rightarrow> pc = code)))"

definition panic_finding_id :: "sol_abi \<Rightarrow> text_codec \<Rightarrow> tx_result \<Rightarrow> string" where
  "panic_finding_id A T r =
     (case panic_of A r of
        Some code \<Rightarrow> PANIC_PREFIX @ ''0x'' @ tc_show_hex T code
      | None \<Rightarrow> PANIC_PREFIX @ ''unknown'')"

definition is_panic_finding :: "string \<Rightarrow> bool" where
  "is_panic_finding i \<longleftrightarrow> starts_with i PANIC_PREFIX"

definition panic_matches_expected :: "sol_abi \<Rightarrow> text_codec \<Rightarrow> tx_result \<Rightarrow> string \<Rightarrow> bool" where
  "panic_matches_expected A T r expected_id =
     (case strip_prefix PANIC_PREFIX expected_id of
        None \<Rightarrow> False
      | Some suffix \<Rightarrow>
          if tr_success r then False
          else if suffix = ''unknown'' then
            (case tr_output r of Some output \<Rightarrow> panic_decode A output \<noteq> None | None \<Rightarrow> False)
          else case strip_prefix ''0x'' suffix of
                 None \<Rightarrow> False
               | Some code_hex \<Rightarrow>
                   (case tc_parse_hex T code_hex of
                      None \<Rightarrow> False
                    | Some expected \<Rightarrow>
                        (case tr_output r of
                           Some output \<Rightarrow>
                             (case panic_decode A output of Some code \<Rightarrow> code = expected | None \<Rightarrow> False)
                         | None \<Rightarrow> False)))"

fun panic_display :: "text_codec \<Rightarrow> stop_on_panic \<Rightarrow> string" where
  "panic_display T Panic_Any = ''any''"
| "panic_display T (Panic_Code code) = ''0x'' @ tc_show_hex T code"

definition panic_from_str :: "text_codec \<Rightarrow> string \<Rightarrow> stop_on_panic option" where
  "panic_from_str T input =
     (if input = ''any'' \<or> input = ''*'' then Some Panic_Any
      else map_option Panic_Code
             (case strip_prefix ''0x'' input of
                Some digits \<Rightarrow> tc_parse_hex T digits
              | None \<Rightarrow> tc_parse_dec T input))"

subsection \<open>The contract with the shrinker\<close>

locale stop_filter =
  fixes halts :: "tx_result \<Rightarrow> bool"
    and finding :: "tx_result \<Rightarrow> string"
    and reproduces :: "tx_result \<Rightarrow> string \<Rightarrow> bool"
  assumes halts_reproduces: "halts r \<Longrightarrow> reproduces r (finding r)"
    and reproduces_fails: "reproduces r i \<Longrightarrow> \<not> tr_success r"
    and reproduces_same: "halts r \<Longrightarrow> reproduces r' (finding r) \<Longrightarrow> finding r' = finding r"
begin

text \<open>Reproducing the id of a halting result is having the same id, through any chain of
  replays.\<close>

lemma reproduces_chain:
  "halts r \<Longrightarrow> reproduces r' (finding r) \<Longrightarrow> reproduces r'' (finding r') \<Longrightarrow>
   reproduces r'' (finding r) \<and> finding r'' = finding r"
  using reproduces_same by metis

lemma success_never_reproduces: "tr_success r' \<Longrightarrow> \<not> reproduces r' (finding r)"
  using reproduces_fails by blast

end

lemma strip_prefix_revert [simp]: "strip_prefix REVERT_PREFIX (REVERT_PREFIX @ s) = Some s"
  by simp

lemma strip_prefix_0x [simp]: "strip_prefix ''0x'' (CHR ''0'' # CHR ''x'' # s) = Some s"
  using strip_prefix_append [of "''0x''" s] by simp

lemma tag_neq_0x [simp]:
  "''0x'' @ s \<noteq> ''halt''" "''0x'' @ s \<noteq> ''empty''" "''0x'' @ s \<noteq> ''unknown''"
  by simp_all

text \<open>On the id of a failing result \<open>matches_expected\<close> decides equality of ids.\<close>

lemma revert_expected_iff:
  assumes "text_ok T"
  shows "revert_matches_expected T r' (revert_finding_id T r) \<longleftrightarrow>
     \<not> tr_success r' \<and> revert_finding_id T r' = revert_finding_id T r"
proof -
  have dec: "tc_hex_decode T (tc_hex_encode T bs) = Some bs" for bs
    using assms(1) by (simp add: text_ok_def)
  then have inj: "tc_hex_encode T bs = tc_hex_encode T bs' \<longleftrightarrow> bs = bs'" for bs bs'
    by (metis option.inject)
  show ?thesis
  proof (cases "tr_output r")
    case None
    then show ?thesis
      by (auto simp: revert_matches_expected_def revert_finding_id_def split: option.splits)
  next
    case (Some out)
    consider (long) "4 \<le> length out" | (empty) "out = []" | (short) "\<not> 4 \<le> length out" "out \<noteq> []"
      by blast
    then show ?thesis
    proof cases
      case long
      then show ?thesis
        using Some
        by (auto simp: revert_matches_expected_def revert_finding_id_def dec inj
            split: option.splits if_splits)
    next
      case empty
      then show ?thesis
        using Some
        by (auto simp: revert_matches_expected_def revert_finding_id_def split: option.splits if_splits)
    next
      case short
      then show ?thesis
        using Some
        by (auto simp: revert_matches_expected_def revert_finding_id_def dec inj
            split: option.splits if_splits)
    qed
  qed
qed

lemma revert_halts_failing: "revert_matches A f r \<Longrightarrow> \<not> tr_success r"
  by (simp add: revert_matches_def split: if_splits)

lemma panic_halts:
  "panic_matches A f r \<Longrightarrow> \<not> tr_success r \<and> panic_of A r \<noteq> None"
  by (auto simp: panic_matches_def panic_of_def split: if_splits option.splits)

lemma panic_expected_iff:
  assumes "text_ok T" and "panic_of A r \<noteq> None"
  shows "panic_matches_expected A T r' (panic_finding_id A T r) \<longleftrightarrow>
     \<not> tr_success r' \<and> panic_of A r' = panic_of A r"
proof -
  have parse: "tc_parse_hex T (tc_show_hex T v) = Some v" for v
    using assms(1) by (simp add: text_ok_def)
  obtain code where code: "panic_of A r = Some code" using assms(2) by blast
  show ?thesis
    using code parse
    by (auto simp: panic_matches_expected_def panic_finding_id_def panic_of_def
        split: option.splits)
qed

text \<open>A concrete text codec for the witnesses.\<close>

definition demo_text :: text_codec where
  "demo_text =
     \<lparr>tc_hex_encode = demo_hex_encode, tc_hex_decode = demo_hex_decode,
      tc_show_hex = (\<lambda>v. replicate (unat v) CHR ''1''),
      tc_parse_hex = (\<lambda>s. Some (of_nat (length s))),
      tc_parse_dec = (\<lambda>s. None)\<rparr>"

lemma demo_text_ok: "text_ok demo_text"
proof -
  have "length (demo_hex_encode bs) = 2 * length bs" for bs
    by (induction bs) (simp_all add: demo_hex_encode_def)
  then show ?thesis by (simp add: text_ok_def demo_text_def demo_hex)
qed

text \<open>Both filters keep the contract, for every codec that is inverse.\<close>

definition pinned_text :: "text_codec \<Rightarrow> text_codec" where
  "pinned_text T = (if text_ok T then T else demo_text)"

lemma pinned_text_ok: "text_ok (pinned_text T)"
  by (simp add: pinned_text_def demo_text_ok)

interpretation revert_filter:
  stop_filter "revert_matches A f" "revert_finding_id (pinned_text T)" "revert_matches_expected (pinned_text T)"
  for A f T
proof
  fix r r' i
  note iff = revert_expected_iff [OF pinned_text_ok]
  show "revert_matches A f r \<Longrightarrow>
      revert_matches_expected (pinned_text T) r (revert_finding_id (pinned_text T) r)"
    by (simp add: iff revert_halts_failing)
  show "revert_matches_expected (pinned_text T) r i \<Longrightarrow> \<not> tr_success r"
    by (simp add: revert_matches_expected_def split: option.splits if_splits)
  show "revert_matches A f r \<Longrightarrow>
      revert_matches_expected (pinned_text T) r' (revert_finding_id (pinned_text T) r) \<Longrightarrow>
      revert_finding_id (pinned_text T) r' = revert_finding_id (pinned_text T) r"
    by (simp add: iff)
qed

interpretation panic_filter:
  stop_filter "panic_matches A f" "panic_finding_id A (pinned_text T)"
    "panic_matches_expected A (pinned_text T)"
  for A f T
proof
  fix r r' i
  note iff = panic_expected_iff [OF pinned_text_ok]
  show "panic_matches A f r \<Longrightarrow>
      panic_matches_expected A (pinned_text T) r (panic_finding_id A (pinned_text T) r)"
    using panic_halts by (simp add: iff)
  show "panic_matches_expected A (pinned_text T) r i \<Longrightarrow> \<not> tr_success r"
    by (simp add: panic_matches_expected_def split: option.splits if_splits)
  show "panic_matches A f r \<Longrightarrow>
      panic_matches_expected A (pinned_text T) r' (panic_finding_id A (pinned_text T) r) \<Longrightarrow>
      panic_finding_id A (pinned_text T) r' = panic_finding_id A (pinned_text T) r"
  proof -
    assume halts: "panic_matches A f r"
      and "panic_matches_expected A (pinned_text T) r' (panic_finding_id A (pinned_text T) r)"
    then have "panic_of A r' = panic_of A r" using panic_halts [OF halts] by (simp add: iff)
    then show ?thesis by (simp add: panic_finding_id_def)
  qed
qed

text \<open>
  The identity of a revert survives shrinking. When a stop-on-revert filter halts on a
  result, replays reproduce its id exactly when they fail with the same id (the same selector,
  the same short output, the empty output, or a halt without output); the id is recognised as
  a revert finding and never as a panic finding; and however many replays follow one another,
  each reproducing the id of the one before, the last still has the id of the first.
\<close>

theorem revert_identity_preserved:
  assumes "text_ok T" and "revert_matches A f r"
  shows "(revert_matches_expected T r' (revert_finding_id T r) \<longleftrightarrow>
            \<not> tr_success r' \<and> revert_finding_id T r' = revert_finding_id T r)
     \<and> revert_matches_expected T r (revert_finding_id T r)
     \<and> is_revert_finding (revert_finding_id T r) \<and> \<not> is_panic_finding (revert_finding_id T r)
     \<and> (revert_matches_expected T r' (revert_finding_id T r) \<longrightarrow>
        revert_matches_expected T r'' (revert_finding_id T r') \<longrightarrow>
        revert_finding_id T r'' = revert_finding_id T r)"
proof -
  have T: "pinned_text T = T" using assms(1) by (simp add: pinned_text_def)
  have "is_revert_finding (revert_finding_id T r) \<and> \<not> is_panic_finding (revert_finding_id T r)"
    by (simp add: is_revert_finding_def is_panic_finding_def revert_finding_id_def REVERT_PREFIX_def
        PANIC_PREFIX_def starts_with_def split: option.splits)
  then show ?thesis
    using revert_expected_iff [OF assms(1)] revert_filter.halts_reproduces [OF assms(2), of T]
      revert_filter.reproduces_chain [OF assms(2), of T r' r''] unfolding T by blast
qed

theorem revert_identity_preserved_witness:
  "revert_matches_expected demo_text (mk_result False 0 (Some [1, 2, 3, 4, 9]))
     (revert_finding_id demo_text (mk_result False 0 (Some [1, 2, 3, 4])))"
proof -
  have "revert_matches demo_abi (Revert_Selector [1, 2, 3, 4]) (mk_result False 0 (Some [1, 2, 3, 4]))"
    by (simp add: revert_matches_def mk_result_def)
  from revert_identity_preserved [OF demo_text_ok this] show ?thesis
    by (simp add: mk_result_def revert_finding_id_def)
qed

text \<open>
  The identity of a panic survives shrinking. When a stop-on-panic filter halts on a
  result, its id names a decoded panic code, and a replay reproduces the id exactly when it
  fails with a panic of the same code; along any chain of replays the id stays the same.
\<close>

theorem panic_identity_preserved:
  assumes "text_ok T" and "panic_matches A f r"
  shows "(panic_matches_expected A T r' (panic_finding_id A T r) \<longleftrightarrow>
            \<not> tr_success r' \<and> panic_of A r' = panic_of A r \<and> panic_of A r \<noteq> None)
     \<and> (panic_matches_expected A T r' (panic_finding_id A T r) \<longrightarrow>
        panic_matches_expected A T r'' (panic_finding_id A T r') \<longrightarrow>
        panic_finding_id A T r'' = panic_finding_id A T r)"
proof -
  have T: "pinned_text T = T" using assms(1) by (simp add: pinned_text_def)
  have some: "panic_of A r \<noteq> None" using panic_halts [OF assms(2)] by blast
  show ?thesis
    using panic_expected_iff [OF assms(1) some] some
      panic_filter.reproduces_chain [OF assms(2), of T r' r''] unfolding T by blast
qed

theorem panic_identity_preserved_witness:
  "panic_matches_expected demo_abi demo_text (mk_result False 0 (Some ([0x4e, 0x48, 0x7b, 0x71] @ replicate 31 0 @ [1])))
     (panic_finding_id demo_abi demo_text (mk_result False 7 (Some ([0x4e, 0x48, 0x7b, 0x71] @ replicate 31 0 @ [1]))))"
proof -
  have "panic_matches demo_abi Panic_Any (mk_result False 7 (Some ([0x4e, 0x48, 0x7b, 0x71] @ replicate 31 0 @ [1])))"
    by (simp add: panic_matches_def mk_result_def demo_abi_def)
  from panic_identity_preserved [OF demo_text_ok this] show ?thesis
    by (simp add: mk_result_def panic_of_def demo_abi_def)
qed

text \<open>
  Filters survive printing and parsing: the text a filter is shown as parses back to the
  same filter, selectors being four bytes.
\<close>

theorem filters_roundtrip:
  assumes "text_ok T" and "\<forall>s. f = Revert_Selector s \<longrightarrow> length s = 4"
  shows "revert_from_str T (revert_display T f) = Some f
     \<and> panic_from_str T (panic_display T g) = Some g"
proof -
  have dec: "tc_hex_decode T (tc_hex_encode T bs) = Some bs" "length (tc_hex_encode T bs) = 2 * length bs"
    "tc_parse_hex T (tc_show_hex T v) = Some v" for bs v
    using assms(1) by (simp_all add: text_ok_def)
  have "revert_from_str T (revert_display T f) = Some f"
    using assms(2) by (cases f) (simp_all add: revert_from_str_def dec)
  moreover have "panic_from_str T (panic_display T g) = Some g"
    by (cases g) (simp_all add: panic_from_str_def dec)
  ultimately show ?thesis by blast
qed

theorem filters_roundtrip_witness:
  "revert_from_str demo_text (revert_display demo_text (Revert_Selector [1, 2, 3, 4]))
   = Some (Revert_Selector [1, 2, 3, 4])"
  using filters_roundtrip [OF demo_text_ok, of "Revert_Selector [1, 2, 3, 4]" Panic_Any] by simp

end
