(* ===== verification/Findings.thy ===== *)
theory Findings
  imports Call_Codec
begin

section \<open>The collection of broken invariants and its reporter\<close>

text \<open>
  \<open>src/src/tester/broken_invariant.rs\<close>: a finding, the shared collection that
  de-duplicates findings by id and keeps the shortest reproduction of each (every operation
  is one critical section of the mutex), and the reporter that re-runs a finding with tracing
  switched on. Writing the trace file is the parameter \<open>write_trace\<close>.
\<close>

record broken =
  br_sequence :: seq_calls
  br_id :: string
  br_description :: string

definition broken_new :: broken where
  "broken_new = \<lparr>br_sequence = [], br_id = [], br_description = []\<rparr>"

definition broken_with_id :: "string \<Rightarrow> broken \<Rightarrow> broken" where
  "broken_with_id i b = b\<lparr>br_id := i\<rparr>"

definition broken_with_description :: "string \<Rightarrow> broken \<Rightarrow> broken" where
  "broken_with_description d b = b\<lparr>br_description := d\<rparr>"

definition broken_with_calls :: "seq_calls \<Rightarrow> broken \<Rightarrow> broken" where
  "broken_with_calls s b = b\<lparr>br_sequence := s\<rparr>"

definition reason_display :: "broken \<Rightarrow> string" where
  "reason_display b = (if br_description b \<noteq> [] then br_description b else br_id b)"

record findings =
  fi_items :: "broken list"
  fi_keys :: "string list"

definition findings_new :: findings where
  "findings_new = \<lparr>fi_items = [], fi_keys = []\<rparr>"

text \<open>Replace the first item with the id, when the candidate is strictly shorter.\<close>

fun replace_shorter :: "broken \<Rightarrow> broken list \<Rightarrow> broken list option" where
  "replace_shorter b [] = None"
| "replace_shorter b (x # xs) =
     (if br_id x = br_id b
      then Some ((if length (br_sequence b) < length (br_sequence x) then b else x) # xs)
      else map_option (Cons x) (replace_shorter b xs))"

definition try_add :: "nat \<Rightarrow> broken \<Rightarrow> findings \<Rightarrow> bool \<times> findings" where
  "try_add limit b fs =
     (case replace_shorter b (fi_items fs) of
        Some items \<Rightarrow> (False, fs\<lparr>fi_items := items\<rparr>)
      | None \<Rightarrow>
          if length (fi_items fs) \<ge> limit then (False, fs)
          else (True, fs\<lparr>fi_keys := List.insert (br_id b) (fi_keys fs),
                        fi_items := fi_items fs @ [b]\<rparr>))"

definition findings_full :: "nat \<Rightarrow> findings \<Rightarrow> bool" where
  "findings_full limit fs \<longleftrightarrow> length (fi_items fs) \<ge> limit"

definition add_all :: "nat \<Rightarrow> broken list \<Rightarrow> findings \<Rightarrow> findings" where
  "add_all limit bs fs = fold (\<lambda>b fs. snd (try_add limit b fs)) bs fs"

subsection \<open>One insertion\<close>

lemma replace_shorter_None: "replace_shorter b xs = None \<longleftrightarrow> br_id b \<notin> br_id ` set xs"
  by (induction xs) auto

lemma replace_shorter_Some:
  "replace_shorter b xs = Some ys \<Longrightarrow> distinct (map br_id xs) \<Longrightarrow>
     map br_id ys = map br_id xs \<and>
     (\<forall>y \<in> set ys. y \<in> set xs \<and> (br_id y = br_id b \<longrightarrow> length (br_sequence y) \<le> length (br_sequence b))
        \<or> y = b \<and> (\<forall>x \<in> set xs. br_id x = br_id b \<longrightarrow> length (br_sequence b) < length (br_sequence x)))"
proof (induction xs arbitrary: ys)
  case (Cons x xs)
  show ?case
  proof (cases "br_id x = br_id b")
    case True
    then have "ys = (if length (br_sequence b) < length (br_sequence x) then b else x) # xs"
      using Cons.prems by simp
    with True Cons.prems(2) show ?thesis by (force simp: image_iff)
  next
    case False
    with Cons.prems obtain zs where zs: "replace_shorter b xs = Some zs" "ys = x # zs" by auto
    with Cons.IH [OF zs(1)] Cons.prems(2) False show ?thesis by auto
  qed
qed simp

text \<open>
  The state after adding a list of findings: the ids are the first \<open>limit\<close> distinct ones in
  discovery order, and each item is a shortest submitted finding of its id.
\<close>

definition kept_shortest :: "nat \<Rightarrow> broken list \<Rightarrow> broken list \<Rightarrow> bool" where
  "kept_shortest limit bs items \<longleftrightarrow>
     map br_id items = take limit (map br_id (dedup_by br_id {} bs))
   \<and> (\<forall>x \<in> set items. x \<in> set bs \<and>
        (\<forall>b \<in> set bs. br_id b = br_id x \<longrightarrow> length (br_sequence x) \<le> length (br_sequence b)))"

lemma dedup_snoc:
  "dedup_by f {} (xs @ [x]) = dedup_by f {} xs @ (if f x \<in> f ` set xs then [] else [x])"
  by (simp add: dedup_by_append)

lemma kept_ids:
  assumes "kept_shortest limit bs items"
  shows "distinct (map br_id items)" and "length items \<le> limit"
    and "length items < limit \<Longrightarrow> br_id ` set items = br_id ` set bs"
    and "br_id ` set items \<subseteq> br_id ` set bs"
proof -
  let ?ids = "map br_id (dedup_by br_id {} bs)"
  have m: "map br_id items = take limit ?ids" using assms by (simp add: kept_shortest_def)
  have all: "set ?ids = br_id ` set bs" using dedup_by_keys [of br_id "{}" bs] by simp
  show "distinct (map br_id items)" unfolding m by (simp add: distinct_dedup_by)
  have len: "length items = min (length ?ids) limit" using arg_cong [OF m, of length] by simp
  then show "length items \<le> limit" by simp
  show "br_id ` set items = br_id ` set bs" if "length items < limit"
  proof -
    from that len have "length ?ids \<le> limit" by simp
    then have "map br_id items = ?ids" using m by simp
    then show ?thesis using all by (metis list.set_map)
  qed
  show "br_id ` set items \<subseteq> br_id ` set bs"
    using m all by (metis list.set_map set_take_subset)
qed

lemma kept_step:
  assumes kept: "kept_shortest limit bs (fi_items fs)"
  shows "kept_shortest limit (bs @ [b]) (fi_items (snd (try_add limit b fs)))"
proof (cases "replace_shorter b (fi_items fs)")
  case (Some items)
  note dist = kept_ids(1) [OF kept]
  note rep = replace_shorter_Some [OF Some dist]
  have known: "br_id b \<in> br_id ` set bs"
    using kept_ids(4) [OF kept] replace_shorter_None [of b "fi_items fs"] Some by auto
  have ids: "map br_id items = take limit (map br_id (dedup_by br_id {} (bs @ [b])))"
    using rep kept known by (simp add: kept_shortest_def dedup_snoc)
  have "x \<in> set (bs @ [b]) \<and>
      (\<forall>c \<in> set (bs @ [b]). br_id c = br_id x \<longrightarrow> length (br_sequence x) \<le> length (br_sequence c))"
    if x: "x \<in> set items" for x
  proof -
    from rep x consider
        "x \<in> set (fi_items fs)" "br_id x = br_id b \<longrightarrow> length (br_sequence x) \<le> length (br_sequence b)"
      | "x = b" "\<forall>y \<in> set (fi_items fs). br_id y = br_id b \<longrightarrow> length (br_sequence b) < length (br_sequence y)"
      by blast
    then show ?thesis
    proof cases
      case 1
      then show ?thesis using kept by (auto simp: kept_shortest_def)
    next
      case 2
      obtain y where y: "y \<in> set (fi_items fs)" "br_id y = br_id b"
        using Some replace_shorter_None [of b "fi_items fs"] by auto
      have "length (br_sequence b) \<le> length (br_sequence c)" if "c \<in> set bs" "br_id c = br_id b" for c
      proof -
        have "length (br_sequence y) \<le> length (br_sequence c)"
          using kept y that by (auto simp: kept_shortest_def)
        with 2(2) y show ?thesis by fastforce
      qed
      with 2(1) show ?thesis by auto
    qed
  qed
  with ids Some show ?thesis by (simp add: try_add_def kept_shortest_def)
next
  case None
  then have new: "br_id b \<notin> br_id ` set (fi_items fs)" by (simp add: replace_shorter_None)
  show ?thesis
  proof (cases "length (fi_items fs) \<ge> limit")
    case True
    let ?ids = "map br_id (dedup_by br_id {} bs)"
    have m: "map br_id (fi_items fs) = take limit ?ids" using kept by (simp add: kept_shortest_def)
    have "length (fi_items fs) = min (length ?ids) limit"
      using arg_cong [OF m, of length] by simp
    then have "limit \<le> length ?ids" using True by simp
    then have ids: "take limit (map br_id (dedup_by br_id {} (bs @ [b]))) = take limit ?ids"
      by (simp add: dedup_snoc)
    with None True kept new show ?thesis
      by (auto simp: try_add_def kept_shortest_def ids)
  next
    case False
    then have "br_id ` set (fi_items fs) = br_id ` set bs" using kept_ids(3) [OF kept] by simp
    with new have fresh: "br_id b \<notin> br_id ` set bs" by simp
    let ?ids = "map br_id (dedup_by br_id {} bs)"
    have m: "map br_id (fi_items fs) = take limit ?ids" using kept by (simp add: kept_shortest_def)
    have "length (fi_items fs) = min (length ?ids) limit"
      using arg_cong [OF m, of length] by simp
    then have "length ?ids < limit" using False by simp
    then have "take limit (map br_id (dedup_by br_id {} (bs @ [b]))) = ?ids @ [br_id b]"
      and "take limit ?ids = ?ids"
      using fresh by (simp_all add: dedup_snoc)
    moreover have "\<forall>c \<in> set bs. br_id c \<noteq> br_id b" using fresh by (metis imageI)
    moreover have "\<forall>c \<in> set (fi_items fs). br_id b \<noteq> br_id c" using new by (metis imageI)
    ultimately show ?thesis
      using None False kept m by (auto simp: try_add_def kept_shortest_def)
  qed
qed

lemma add_all_kept:
  "kept_shortest limit bs (fi_items (add_all limit bs findings_new))"
proof (induction bs rule: rev_induct)
  case Nil
  then show ?case by (simp add: add_all_def findings_new_def kept_shortest_def)
next
  case (snoc b bs)
  then show ?case using kept_step [of limit bs "add_all limit bs findings_new" b] by (simp add: add_all_def)
qed

text \<open>
  C29: the collection holds the shortest reproduction of each distinct finding. After any
  sequence of submissions (from any workers, in any order) the ids are exactly the first
  \<open>limit\<close> distinct submitted ids in discovery order, without duplicates, and every stored
  finding is one of the submissions and no longer than any other submission of its id.
\<close>

theorem findings_shortest_distinct:
  "kept_shortest limit bs (fi_items (add_all limit bs findings_new))
   \<and> distinct (map br_id (fi_items (add_all limit bs findings_new)))
   \<and> length (fi_items (add_all limit bs findings_new)) \<le> limit"
  using add_all_kept kept_ids by blast

text \<open>
  A submission is accepted as a new finding exactly when its id is new and there is room,
  and it is then the last one stored; otherwise the set of ids does not change. A full
  collection never accepts, but still replaces a finding by a shorter one of the same id.
\<close>

theorem try_add_accepts:
  "(fst (try_add limit b fs) \<longleftrightarrow>
      br_id b \<notin> br_id ` set (fi_items fs) \<and> \<not> findings_full limit fs)
   \<and> (fst (try_add limit b fs) \<longrightarrow> fi_items (snd (try_add limit b fs)) = fi_items fs @ [b])
   \<and> (\<not> fst (try_add limit b fs) \<longrightarrow> distinct (map br_id (fi_items fs)) \<longrightarrow>
        map br_id (fi_items (snd (try_add limit b fs))) = map br_id (fi_items fs))"
proof (cases "replace_shorter b (fi_items fs)")
  case None
  have "br_id b \<notin> br_id ` set (fi_items fs)" using None by (simp add: replace_shorter_None)
  with None show ?thesis
    by (simp add: try_add_def findings_full_def)
next
  case (Some items)
  then have "br_id b \<in> br_id ` set (fi_items fs)"
    using replace_shorter_None [of b "fi_items fs"] by auto
  with Some show ?thesis
    using replace_shorter_Some [OF Some] by (auto simp: try_add_def)
qed

definition demo_broken :: "string \<Rightarrow> nat \<Rightarrow> broken" where
  "demo_broken i n = \<lparr>br_sequence = replicate n (demo_call 1), br_id = i, br_description = []\<rparr>"

theorem try_add_accepts_witness:
  "fi_items (snd (try_add 2 (demo_broken ''A'' 3) findings_new)) = [demo_broken ''A'' 3]"
  using try_add_accepts [of 2 "demo_broken ''A'' 3" findings_new]
  by (simp add: findings_new_def findings_full_def)

subsection \<open>Reporting\<close>

record ('db, 'env, 'cheat) bi_reporter =
  bp_chain :: "('db, 'env, 'cheat) chain option"
  bp_trace_context :: "unit option"
  bp_address :: "address option"
  bp_summary :: "abi_fn option"

datatype report_error =
    Report_Not_Set string
  | Report_Chain chain_error
  | Report_Trace_Missing
  | Report_Write

definition report_transactions ::
  "codec \<Rightarrow> address \<Rightarrow> address \<Rightarrow> abi_fn option \<Rightarrow> broken \<Rightarrow> transaction list" where
  "report_transactions C target deployer summary b =
     seq_transactions C target deployer (br_sequence b) @
     (case summary of None \<Rightarrow> []
      | Some f \<Rightarrow> [tx_with_calldata (fn_selector f) (tx_new target)])"

definition report ::
  "('db, 'env, 'cheat, 'trace) revm_ops \<Rightarrow> codec \<Rightarrow> ('trace \<Rightarrow> string option) \<Rightarrow>
   ('db, 'env, 'cheat) bi_reporter \<Rightarrow> broken \<Rightarrow> report_error + string" where
  "report RO C write_trace bp b =
     (case bp_chain bp of None \<Rightarrow> Inl (Report_Not_Set ''chain'') | Some chain \<Rightarrow>
     (case bp_trace_context bp of None \<Rightarrow> Inl (Report_Not_Set ''trace context'') | Some _ \<Rightarrow>
     (case bp_address bp of None \<Rightarrow> Inl (Report_Not_Set ''address'') | Some a \<Rightarrow>
        let rerun_chain = chain_set_trace True chain;
            transactions = report_transactions C a (ch_deployer chain) (bp_summary bp) b
        in case chain_exec RO transactions rerun_chain of
             (Inl e, _) \<Rightarrow> Inl (Report_Chain e)
           | (Inr output, _) \<Rightarrow>
               (case eo_trace output of
                  None \<Rightarrow> Inl Report_Trace_Missing
                | Some t \<Rightarrow>
                    (case write_trace t of None \<Rightarrow> Inl Report_Write | Some file \<Rightarrow> Inr file)))))"

text \<open>
  A report always has a trace. Whatever the tracing setting of the campaign's chain, the
  re-run enables tracing on its own copy, so \<open>report\<close> never fails for a missing trace: it
  fails only when the context is incomplete, the EVM fails or the file cannot be written.
\<close>

theorem report_always_traces:
  assumes "revm_ok RO"
  shows "report RO C write_trace bp b \<noteq> Inl Report_Trace_Missing"
proof -
  have traced: "eo_trace out \<noteq> None"
    if "chain_exec RO txs (chain_set_trace True chain) = (Inr out, ch')" for txs chain out ch'
    using chain_exec_coverage(1) [OF assms that] by (simp add: chain_set_trace_def cfg_set_trace_def)
  then show ?thesis
    by (auto simp: report_def Let_def dest: traced split: option.splits prod.splits sum.splits)
qed

theorem report_always_traces_witness:
  "report demo_ops demo_codec (\<lambda>t. Some ''trace.txt'')
     \<lparr>bp_chain = Some demo_chain, bp_trace_context = Some (), bp_address = Some 1, bp_summary = None\<rparr>
     (demo_broken ''A'' 1) \<noteq> Inl Report_Trace_Missing"
  by (rule report_always_traces [OF demo_ops_ok])

end
