(* ===== verification/Worker_Pool.thy ===== *)
theory Worker_Pool
  imports Prelude "HOL-Library.Multiset"
begin

section \<open>Worker threads over a shared state\<close>

text \<open>
  The interleaving semantics of the fuzzers and the shrinkers. Threads run the same worker
  against a shared state; every step of a worker touches the shared state in at most one
  critical section or atomic operation, so a run of the threads is a sequence of single
  steps, each by some thread (the boolean is what the clock says about the timeout at that
  step). \<open>pool_reach\<close> are all the states such runs reach, \<open>run_schedule\<close> executes one of
  them. The locale \<open>worker_pool\<close> is the contract of one step, and its lemmas hold for every
  interleaving.
\<close>

type_synonym ('s, 'w) worker_step = "bool \<Rightarrow> 's \<Rightarrow> 'w \<Rightarrow> 's \<times> 'w"

inductive pool_reach :: "('s, 'w) worker_step \<Rightarrow> 's \<times> 'w list \<Rightarrow> 's \<times> 'w list \<Rightarrow> bool"
  for wstep :: "('s, 'w) worker_step" and start :: "'s \<times> 'w list" where
  reach_start: "pool_reach wstep start start"
| reach_step:
    "pool_reach wstep start (sh, ws) \<Longrightarrow> i < length ws \<Longrightarrow> wstep timed_out sh (ws ! i) = (sh', w') \<Longrightarrow>
     pool_reach wstep start (sh', ws[i := w'])"

fun run_schedule :: "('s, 'w) worker_step \<Rightarrow> (nat \<times> bool) list \<Rightarrow> 's \<times> 'w list \<Rightarrow> 's \<times> 'w list" where
  "run_schedule wstep [] st = st"
| "run_schedule wstep ((i, timed_out) # sched) (sh, ws) =
     (if i < length ws
      then let (sh', w') = wstep timed_out sh (ws ! i)
           in run_schedule wstep sched (sh', ws[i := w'])
      else run_schedule wstep sched (sh, ws))"

lemma run_schedule_reach:
  "pool_reach wstep start st \<Longrightarrow> pool_reach wstep start (run_schedule wstep sched st)"
proof (induction wstep sched st rule: run_schedule.induct)
  case (2 wstep i timed_out sched sh ws)
  obtain sh' w' where step: "wstep timed_out sh (ws ! i) = (sh', w')" by fastforce
  show ?case
  proof (cases "i < length ws")
    case True
    have "pool_reach wstep start (sh', ws[i := w'])" using "2.prems" True step by (rule reach_step)
    with "2.IH"(1) [OF True step [symmetric] refl] True step show ?thesis by simp
  next
    case False
    with "2.IH"(2) "2.prems" show ?thesis by simp
  qed
qed simp

lemma run_schedule_from: "pool_reach wstep st (run_schedule wstep sched st)"
  by (rule run_schedule_reach) (rule reach_start)

lemma reach_single:
  "pool_reach wstep st (sh, [w]) \<Longrightarrow> wstep clock sh w = (sh', w') \<Longrightarrow> pool_reach wstep st (sh', [w'])"
  using reach_step [of wstep st sh "[w]" 0 clock sh' w'] by simp

locale worker_pool =
  fixes wstep :: "('s, 'w) worker_step"
    and shared_ok :: "'s \<Rightarrow> bool"
    and worker_ok :: "'w \<Rightarrow> bool"
  assumes step_ok:
      "shared_ok sh \<Longrightarrow> worker_ok w \<Longrightarrow> wstep timed_out sh w = (sh', w') \<Longrightarrow>
       shared_ok sh' \<and> worker_ok w'"
begin

lemma reach_pool:
  assumes "pool_reach wstep (sh0, ws0) (sh, ws)" and "shared_ok sh0" and "\<forall>w \<in> set ws0. worker_ok w"
  shows "shared_ok sh \<and> (\<forall>w \<in> set ws. worker_ok w) \<and> length ws = length ws0"
  using assms
proof (induction "(sh, ws)" arbitrary: sh ws rule: pool_reach.induct)
  case (reach_step sh ws i timed_out sh' w')
  then have "worker_ok (ws ! i)" by simp
  with reach_step step_ok [of sh "ws ! i" timed_out sh' w'] show ?case
    by (auto dest: set_update_subset_insert [THEN subsetD])
qed simp

end

text \<open>
  What all threads together spend: when one step never spends more than it gives up of the
  worker's own allowance, a campaign never spends more than the allowances handed out; the
  condition \<open>while_ok\<close> restricts this to the states from which it holds.
\<close>

locale budget_pool =
  fixes wstep :: "('s, 'w) worker_step"
    and spent :: "'s \<Rightarrow> nat"
    and left :: "'w \<Rightarrow> nat"
    and while_ok :: "'s \<Rightarrow> bool"
  assumes step_while: "while_ok sh \<Longrightarrow> wstep timed_out sh w = (sh', w') \<Longrightarrow> while_ok sh'"
    and step_budget:
      "while_ok sh \<Longrightarrow> wstep timed_out sh w = (sh', w') \<Longrightarrow> spent sh' + left w' \<le> spent sh + left w"
begin

lemma left_update:
  "i < length ws \<Longrightarrow> sum_list (map left (ws[i := w'])) + left (ws ! i) = sum_list (map left ws) + left w'"
proof (induction ws arbitrary: i)
  case (Cons w ws)
  then show ?case by (cases i) (auto simp: algebra_simps)
qed simp

lemma reach_budget:
  "pool_reach wstep (sh0, ws0) (sh, ws) \<Longrightarrow> while_ok sh0 \<Longrightarrow>
   while_ok sh \<and> spent sh + sum_list (map left ws) \<le> spent sh0 + sum_list (map left ws0)"
proof (induction "(sh, ws)" arbitrary: sh ws rule: pool_reach.induct)
  case (reach_step sh ws i timed_out sh' w')
  from left_update [OF reach_step(3), of w'] step_budget [OF _ reach_step(4)] step_while [OF _ reach_step(4)]
    reach_step(2,5)
  show ?case by fastforce
qed simp

end

text \<open>
  Termination: an active thread's step makes that thread smaller in a well-founded order.
  Then no interleaving of active threads goes on forever, and from every state some
  schedule lets all of them finish.
\<close>

inductive pool_step :: "('s, 'w) worker_step \<Rightarrow> ('w \<Rightarrow> bool) \<Rightarrow> 's \<times> 'w list \<Rightarrow> 's \<times> 'w list \<Rightarrow> bool"
  for wstep :: "('s, 'w) worker_step" and finished :: "'w \<Rightarrow> bool" where
  "i < length ws \<Longrightarrow> \<not> finished (ws ! i) \<Longrightarrow> wstep timed_out sh (ws ! i) = (sh', w') \<Longrightarrow>
   pool_step wstep finished (sh, ws) (sh', ws[i := w'])"

inductive_cases pool_stepE: "pool_step wstep finished (sh, ws) st'"

locale terminating_pool =
  fixes wstep :: "('s, 'w) worker_step"
    and finished :: "'w \<Rightarrow> bool"
    and smaller :: "('w \<times> 'w) set"
  assumes wf_smaller: "wf smaller"
    and step_smaller: "\<not> finished w \<Longrightarrow> wstep timed_out sh w = (sh', w') \<Longrightarrow> (w', w) \<in> smaller"
begin

lemma mset_step:
  assumes "pool_step wstep finished (sh, ws) (sh', ws')"
  shows "(mset ws', mset ws) \<in> mult smaller"
proof -
  from assms obtain i timed_out w' where step: "i < length ws" "\<not> finished (ws ! i)"
      "wstep timed_out sh (ws ! i) = (sh', w')" "ws' = ws[i := w']"
    by (auto elim: pool_stepE)
  let ?M = "mset ws - {#ws ! i#}"
  have "(w', ws ! i) \<in> smaller" using step_smaller step by blast
  then have "(?M + {#w'#}, ?M + {#ws ! i#}) \<in> mult smaller"
    by (intro one_step_implies_mult) auto
  moreover have "?M + {#ws ! i#} = mset ws" using step by simp
  moreover have "?M + {#w'#} = mset ws'" using step by (simp add: mset_update)
  ultimately show ?thesis by simp
qed

lemma pool_step_wf: "wf {(st', st). pool_step wstep finished st st'}"
proof (rule wf_subset [OF wf_inv_image [OF wf_mult [OF wf_smaller], of "\<lambda>st. mset (snd st)"]])
  show "{(st', st). pool_step wstep finished st st'} \<subseteq> inv_image (mult smaller) (\<lambda>st. mset (snd st))"
    using mset_step by fastforce
qed

lemma no_infinite_run: "\<not> (\<exists>run. \<forall>n :: nat. pool_step wstep finished (run n) (run (Suc n)))"
  using pool_step_wf by (auto simp: wf_iff_no_infinite_down_chain)

lemma can_finish:
  "\<exists>sched. list_all finished (snd (run_schedule wstep sched st))
         \<and> length (snd (run_schedule wstep sched st)) = length (snd st)"
proof (induction st rule: wf_induct_rule [OF pool_step_wf])
  case (1 st)
  obtain sh ws where st: "st = (sh, ws)" by fastforce
  show ?case
  proof (cases "list_all finished ws")
    case True
    then show ?thesis by (intro exI [of _ "[]"]) (simp add: st)
  next
    case False
    then obtain i where i: "i < length ws" "\<not> finished (ws ! i)" by (auto simp: list_all_length)
    obtain sh' w' where step: "wstep False sh (ws ! i) = (sh', w')" by fastforce
    have "pool_step wstep finished (sh, ws) (sh', ws[i := w'])" using i step by (rule pool_step.intros)
    with 1 [of "(sh', ws[i := w'])"] st obtain sched where
      "list_all finished (snd (run_schedule wstep sched (sh', ws[i := w'])))"
      "length (snd (run_schedule wstep sched (sh', ws[i := w']))) = length ws" by auto
    with i step show ?thesis by (intro exI [of _ "(i, False) # sched"]) (simp add: st)
  qed
qed

end

end
