(* ===== verification/Shrink_Pool.thy ===== *)
theory Shrink_Pool
  imports Worker_Pool "HOL-Library.Sublist"
begin

section \<open>Workers sharing a current best\<close>

text \<open>
  The contract both shrinkers share: beside keeping the invariant, a step never lengthens the
  current best and spends at most one attempt.
\<close>

locale shrink_pool = worker_pool wstep shared_ok worker_ok
  for wstep :: "('s, 'w) worker_step"
    and shared_ok :: "'s \<Rightarrow> bool"
    and worker_ok :: "'w \<Rightarrow> bool" +
  fixes len :: "'s \<Rightarrow> nat"
    and tries :: "'s \<Rightarrow> nat"
    and limit :: nat
    and stopped :: "'w \<Rightarrow> bool"
  assumes step_len:
      "shared_ok sh \<Longrightarrow> worker_ok w \<Longrightarrow> wstep timed_out sh w = (sh', w') \<Longrightarrow> len sh' \<le> len sh"
    and step_stopped: "stopped w \<Longrightarrow> wstep timed_out sh w = (sh, w)"
    and step_tries:
      "wstep timed_out sh w = (sh', w') \<Longrightarrow>
       tries sh' = tries sh \<or> tries sh' = Suc (tries sh) \<and> (tries sh' \<le> limit \<or> stopped w')"
begin

lemma reach_len:
  assumes "pool_reach wstep (sh0, ws0) (sh, ws)" and "shared_ok sh0" and "\<forall>w \<in> set ws0. worker_ok w"
  shows "len sh \<le> len sh0"
  using assms
proof (induction "(sh, ws)" arbitrary: sh ws rule: pool_reach.induct)
  case (reach_step sh ws i timed_out sh' w')
  have "shared_ok sh" "worker_ok (ws ! i)" using reach_pool [OF reach_step(1,5,6)] reach_step(3) by auto
  with reach_step step_len [of sh "ws ! i" timed_out sh' w'] show ?case by simp
qed simp

lemma reach_ok:
  assumes "pool_reach wstep (sh0, ws0) (sh, ws)" and "shared_ok sh0" and "\<forall>w \<in> set ws0. worker_ok w"
  shows "shared_ok sh \<and> (\<forall>w \<in> set ws. worker_ok w) \<and> len sh \<le> len sh0 \<and> length ws = length ws0"
  using reach_pool [OF assms] reach_len [OF assms] by simp

definition stopped_count :: "'w list \<Rightarrow> nat" where
  "stopped_count ws = length (filter stopped ws)"

lemma stopped_count_update:
  "i < length ws \<Longrightarrow> \<not> stopped (ws ! i) \<Longrightarrow>
   stopped_count (ws[i := w']) = stopped_count ws + (if stopped w' then 1 else 0)"
proof (induction ws arbitrary: i)
  case (Cons w ws)
  then show ?case by (cases i) (auto simp: stopped_count_def)
qed simp

text \<open>Attempts exceed the limit by at most one per thread.\<close>

lemma reach_tries:
  assumes "pool_reach wstep (sh0, ws0) (sh, ws)" and "tries sh0 \<le> limit"
  shows "tries sh \<le> limit + stopped_count ws"
  using assms
proof (induction "(sh, ws)" arbitrary: sh ws rule: pool_reach.induct)
  case (reach_step sh ws i timed_out sh' w')
  then have IH: "tries sh \<le> limit + stopped_count ws" by simp
  show ?case
  proof (cases "stopped (ws ! i)")
    case True
    then have "sh' = sh" "w' = ws ! i" using reach_step(4) step_stopped by auto
    with IH show ?thesis by simp
  next
    case False
    note upd = stopped_count_update [OF reach_step(3) False, of w']
    from step_tries [OF reach_step(4)] show ?thesis
      using IH upd by (auto split: if_splits)
  qed
qed simp

lemma reach_tries_threads:
  assumes "pool_reach wstep (sh0, ws0) (sh, ws)" and "tries sh0 \<le> limit"
    and "shared_ok sh0" and "\<forall>w \<in> set ws0. worker_ok w"
  shows "tries sh \<le> limit + length ws0"
proof -
  have "stopped_count ws \<le> length ws" by (simp add: stopped_count_def)
  with reach_tries [OF assms(1,2)] reach_ok [OF assms(1,3,4)] show ?thesis by simp
qed

end

text \<open>Deleting a chunk.\<close>

lemma subseq_drop_chunk: "subseq (take lo xs @ drop hi xs) xs" if "lo \<le> hi"
proof -
  have "take lo xs @ drop hi xs = take lo xs @ drop (hi - lo) (drop lo xs)" using that by simp
  moreover have "subseq (drop (hi - lo) (drop lo xs)) (drop lo xs)"
    by (rule suffix_imp_subseq) (rule suffix_drop)
  ultimately show ?thesis
    by (metis append_take_drop_id list_emb_append_mono subseq_order.order_refl)
qed

end
