(* ===== verification/Test_Shrinker.thy ===== *)
theory Test_Shrinker
  imports Shrink_Pool Findings Stop_Filters
begin

section \<open>The shrinker of the test mode\<close>

text \<open>
  \<open>src/src/tester/shrinker.rs\<close>. A worker repeatedly reads the current finding, deletes a
  random chunk of its calls, replays the candidate on a clean copy of the chain and installs
  it when it is shorter. The program counter \<open>t_pc\<close> cuts the loop body at its accesses to the
  shared state: the budget check, the read of the current finding, the attempt counter, the
  update. A worker ends \<open>Done\<close>, or \<open>Failed\<close> when an execution fails.
\<close>

record ('db, 'env, 'cheat, 'trace, 'r) t_shrink_exec =
  sx_ops :: "('db, 'env, 'cheat, 'trace) revm_ops"
  sx_codec :: codec
  sx_text :: text_codec
  sx_rng :: "'r rng_ops"
  sx_seed_rng :: "u64 \<Rightarrow> 'r"
  sx_chain :: "('db, 'env, 'cheat) chain"
  sx_target :: address
  sx_deployer :: address
  sx_seed :: u64
  sx_threads :: nat
  sx_max_runs :: nat

record t_shared_shrink =
  sk_current :: broken
  sk_attempts :: nat

definition sk_update :: "broken \<Rightarrow> t_shared_shrink \<Rightarrow> bool \<times> t_shared_shrink" where
  "sk_update candidate sh =
     (if length (br_sequence candidate) < length (br_sequence (sk_current sh))
      then (True, sh\<lparr>sk_current := candidate\<rparr>) else (False, sh))"

definition sk_record_attempt :: "nat \<Rightarrow> t_shared_shrink \<Rightarrow> bool \<times> t_shared_shrink" where
  "sk_record_attempt max_runs sh =
     (let attempts = sk_attempts sh + 1
      in (attempts \<le> max_runs, sh\<lparr>sk_attempts := attempts\<rparr>))"

definition sk_exhausted :: "nat \<Rightarrow> t_shared_shrink \<Rightarrow> bool" where
  "sk_exhausted max_runs sh \<longleftrightarrow> sk_attempts sh \<ge> max_runs"

subsection \<open>Validation\<close>

definition replay_last ::
  "('db, 'env, 'cheat, 'trace, 'r) t_shrink_exec \<Rightarrow> seq_calls \<Rightarrow> chain_error + tx_result option" where
  "replay_last X s =
     (let transactions = seq_transactions (sx_codec X) (sx_target X) (sx_deployer X) s in
      if transactions = [] then Inr None
      else case fst (chain_exec (sx_ops X) transactions (sx_chain X)) of
             Inl e \<Rightarrow> Inl e
           | Inr exec \<Rightarrow> Inr (if eo_results exec = [] then None else Some (last (eo_results exec))))"

definition t_reproduces ::
  "('db, 'env, 'cheat, 'trace, 'r) t_shrink_exec \<Rightarrow> seq_calls \<Rightarrow> string \<Rightarrow> chain_error + bool" where
  "t_reproduces X s i =
     (if is_revert_finding i then
        (case replay_last X s of
           Inl e \<Rightarrow> Inl e
         | Inr None \<Rightarrow> Inr False
         | Inr (Some r) \<Rightarrow> Inr (revert_matches_expected (sx_text X) r i))
      else if is_panic_finding i then
        (case replay_last X s of
           Inl e \<Rightarrow> Inl e
         | Inr None \<Rightarrow> Inr False
         | Inr (Some r) \<Rightarrow> Inr (panic_matches_expected (ro_abi (sx_ops X)) (sx_text X) r i))
      else
        (case fst (chain_exec (sx_ops X)
                     (seq_transactions (sx_codec X) (sx_target X) (sx_deployer X) s) (sx_chain X)) of
           Inl e \<Rightarrow> Inl e
         | Inr exec \<Rightarrow>
             Inr (list_ex (\<lambda>per_tx. list_ex (\<lambda>rep. rep_id rep = i) per_tx)
                    (eo_broken_invariants exec))))"

subsection \<open>The worker\<close>

datatype shrink_failure = Shrink_Chain chain_error | Shrink_Panic

datatype t_pc =
    T_Loop
  | T_Read
  | T_Attempt broken seq_calls
  | T_Validate broken seq_calls
  | T_Update broken
  | T_Done
  | T_Failed shrink_failure

record 'r t_worker =
  tw_pc :: t_pc
  tw_rng :: 'r

text \<open>Steps 1 of the loop body: a random chunk of the current sequence is deleted.\<close>

definition t_choose :: "'r rng_ops \<Rightarrow> 'r \<Rightarrow> broken \<Rightarrow> t_pc \<times> 'r" where
  "t_choose R r current =
     (let len = length (br_sequence current);
          (one, r1) = rng_bool R r;
          (chunk_len, r2) = (if one then (1, r1) else rng_range R 1 (len + 1) r1);
          (start_pos, r3) = rng_range R 0 len r2;
          end_pos = min (start_pos + chunk_len) len
      in case seq_without start_pos end_pos (br_sequence current) of
           None \<Rightarrow> (T_Failed Shrink_Panic, r3)
         | Some candidate \<Rightarrow> (T_Attempt current candidate, r3))"

definition t_shrink_step ::
  "('db, 'env, 'cheat, 'trace, 'r) t_shrink_exec \<Rightarrow> (t_shared_shrink, 'r t_worker) worker_step" where
  "t_shrink_step X timed_out sh w =
     (case tw_pc w of
        T_Loop \<Rightarrow>
          (sh, w\<lparr>tw_pc := if sk_exhausted (sx_max_runs X) sh \<or> timed_out then T_Done else T_Read\<rparr>)
      | T_Read \<Rightarrow>
          let current = sk_current sh in
          if br_sequence current = [] then (sh, w\<lparr>tw_pc := T_Done\<rparr>)
          else let (pc, r) = t_choose (sx_rng X) (tw_rng w) current
               in (sh, w\<lparr>tw_pc := pc, tw_rng := r\<rparr>)
      | T_Attempt current candidate \<Rightarrow>
          let (more, sh') = sk_record_attempt (sx_max_runs X) sh
          in (sh', w\<lparr>tw_pc := if more then T_Validate current candidate else T_Done\<rparr>)
      | T_Validate current candidate \<Rightarrow>
          (sh, w\<lparr>tw_pc := (case t_reproduces X candidate (br_id current) of
                             Inl e \<Rightarrow> T_Failed (Shrink_Chain e)
                           | Inr True \<Rightarrow> T_Update (broken_with_calls candidate current)
                           | Inr False \<Rightarrow> T_Loop)\<rparr>)
      | T_Update candidate_broken \<Rightarrow>
          (snd (sk_update candidate_broken sh), w\<lparr>tw_pc := T_Loop\<rparr>)
      | T_Done \<Rightarrow> (sh, w)
      | T_Failed e \<Rightarrow> (sh, w))"

fun t_finished :: "t_pc \<Rightarrow> bool" where
  "t_finished T_Done = True"
| "t_finished (T_Failed e) = True"
| "t_finished _ = False"

definition t_failures :: "'r t_worker list \<Rightarrow> shrink_failure list" where
  "t_failures ws = List.map_filter (\<lambda>w. case tw_pc w of T_Failed e \<Rightarrow> Some e | _ \<Rightarrow> None) ws"

definition t_spawn :: "('db, 'env, 'cheat, 'trace, 'r) t_shrink_exec \<Rightarrow> 'r t_worker list" where
  "t_spawn X =
     map (\<lambda>i. \<lparr>tw_pc = T_Loop, tw_rng = sx_seed_rng X (sx_seed X + of_nat i)\<rparr>) [0..<sx_threads X]"

text \<open>\<open>shrink_one\<close> under a schedule of its threads; \<open>None\<close>: some thread still runs.\<close>

definition t_shrink_one ::
  "('db, 'env, 'cheat, 'trace, 'r) t_shrink_exec \<Rightarrow> (nat \<times> bool) list \<Rightarrow> broken \<Rightarrow>
   (shrink_failure + broken) option" where
  "t_shrink_one X sched b =
     (if length (br_sequence b) \<le> 1 then Some (Inr b)
      else
        let (sh, ws) = run_schedule (t_shrink_step X) sched (\<lparr>sk_current = b, sk_attempts = 0\<rparr>, t_spawn X)
        in if list_all (\<lambda>w. t_finished (tw_pc w)) ws
           then Some (case t_failures ws of
                        [] \<Rightarrow> Inr (sk_current sh)
                      | e # _ \<Rightarrow> Inl e)
           else None)"

fun t_shrink ::
  "('db, 'env, 'cheat, 'trace, 'r) t_shrink_exec \<Rightarrow> ((nat \<times> bool) list \<times> broken) list \<Rightarrow>
   (shrink_failure + broken list) option" where
  "t_shrink X [] = Some (Inr [])"
| "t_shrink X ((sched, b) # bs) =
     (case t_shrink_one X sched b of
        None \<Rightarrow> None
      | Some (Inl e) \<Rightarrow> Some (Inl e)
      | Some (Inr b') \<Rightarrow>
          (case t_shrink X bs of
             None \<Rightarrow> None
           | Some (Inl e) \<Rightarrow> Some (Inl e)
           | Some (Inr bs') \<Rightarrow> Some (Inr (b' # bs'))))"

subsection \<open>The invariant of the shared finding\<close>

definition shrunk_from ::
  "('db, 'env, 'cheat, 'trace, 'r) t_shrink_exec \<Rightarrow> broken \<Rightarrow> broken \<Rightarrow> bool" where
  "shrunk_from X b0 b \<longleftrightarrow>
     br_id b = br_id b0 \<and> br_description b = br_description b0
   \<and> subseq (br_sequence b) (br_sequence b0)
   \<and> (b = b0 \<or> t_reproduces X (br_sequence b) (br_id b0) = Inr True)"

fun t_pc_ok :: "('db, 'env, 'cheat, 'trace, 'r) t_shrink_exec \<Rightarrow> broken \<Rightarrow> t_pc \<Rightarrow> bool" where
  "t_pc_ok X b0 (T_Attempt current candidate) \<longleftrightarrow>
     shrunk_from X b0 current \<and> subseq candidate (br_sequence current)"
| "t_pc_ok X b0 (T_Validate current candidate) \<longleftrightarrow>
     shrunk_from X b0 current \<and> subseq candidate (br_sequence current)"
| "t_pc_ok X b0 (T_Update b) \<longleftrightarrow> shrunk_from X b0 b"
| "t_pc_ok X b0 (T_Failed e) \<longleftrightarrow> e \<noteq> Shrink_Panic"
| "t_pc_ok X b0 _ \<longleftrightarrow> True"

lemma shrunk_from_refl: "shrunk_from X b b"
  by (simp add: shrunk_from_def)

lemma t_choose_ok:
  assumes R: "rng_ok R" and b: "br_sequence current \<noteq> []" "shrunk_from X b0 current"
    and ch: "t_choose R r current = (pc, r')"
  shows "t_pc_ok X b0 pc \<and> \<not> t_finished pc"
proof -
  let ?len = "length (br_sequence current)"
  obtain one r1 where o1: "rng_bool R r = (one, r1)" by fastforce
  obtain chunk r2 where o2: "(if one then (1, r1) else rng_range R 1 (?len + 1) r1) = (chunk, r2)"
    by fastforce
  obtain start r3 where o3: "rng_range R 0 ?len r2 = (start, r3)" by fastforce
  have chunk: "1 \<le> chunk"
    using o2 rng_okD [OF R, of 1 "?len + 1" r1 chunk r2] b(1) by (auto split: if_splits)
  have start: "start < ?len" using rng_okD [OF R o3] b(1) by simp
  have le: "start \<le> min (start + chunk) ?len" using start by simp
  have "seq_without start (min (start + chunk) ?len) (br_sequence current)
      = Some (take start (br_sequence current) @ drop (min (start + chunk) ?len) (br_sequence current))"
    using le by (simp add: seq_without_def)
  then have "pc = T_Attempt current
      (take start (br_sequence current) @ drop (min (start + chunk) ?len) (br_sequence current))"
    using ch o1 o2 o3 by (simp add: t_choose_def Let_def)
  then show ?thesis using b(2) subseq_drop_chunk [OF le] by simp
qed

definition t_len :: "t_shared_shrink \<Rightarrow> nat" where
  "t_len sh = length (br_sequence (sk_current sh))"

lemma t_step_ok:
  assumes R: "rng_ok (sx_rng X)" and sh: "shrunk_from X b0 (sk_current sh)"
    and w: "t_pc_ok X b0 (tw_pc w)" and step: "t_shrink_step X timed_out sh w = (sh', w')"
  shows "shrunk_from X b0 (sk_current sh') \<and> t_pc_ok X b0 (tw_pc w') \<and> t_len sh' \<le> t_len sh"
proof (cases "tw_pc w")
  case T_Loop
  with step sh show ?thesis by (auto simp: t_shrink_step_def)
next
  case T_Read
  show ?thesis
  proof (cases "br_sequence (sk_current sh) = []")
    case True
    with T_Read step sh show ?thesis by (auto simp: t_shrink_step_def)
  next
    case False
    obtain pc r where ch: "t_choose (sx_rng X) (tw_rng w) (sk_current sh) = (pc, r)" by fastforce
    from t_choose_ok [OF R False sh ch] T_Read step sh False ch show ?thesis
      by (auto simp: t_shrink_step_def)
  qed
next
  case (T_Attempt current candidate)
  with step sh w show ?thesis
    by (auto simp: t_shrink_step_def sk_record_attempt_def Let_def t_len_def)
next
  case (T_Validate current candidate)
  have "shrunk_from X b0 (broken_with_calls candidate current)"
    if "t_reproduces X candidate (br_id current) = Inr True"
    using that w T_Validate
    by (auto simp: shrunk_from_def broken_with_calls_def intro: subseq_order.order_trans)
  with T_Validate step sh show ?thesis
    by (auto simp: t_shrink_step_def split: sum.splits bool.splits)
next
  case (T_Update b)
  with step sh w show ?thesis
    by (auto simp: t_shrink_step_def sk_update_def t_len_def)
next
  case T_Done
  with step sh show ?thesis by (auto simp: t_shrink_step_def)
next
  case (T_Failed e)
  with step sh w show ?thesis by (auto simp: t_shrink_step_def)
qed

lemma t_step_stopped: "t_finished (tw_pc w) \<Longrightarrow> t_shrink_step X timed_out sh w = (sh, w)"
  by (cases "tw_pc w") (simp_all add: t_shrink_step_def)

lemma t_step_tries:
  assumes "t_shrink_step X timed_out sh w = (sh', w')"
  shows "sk_attempts sh' = sk_attempts sh
    \<or> sk_attempts sh' = Suc (sk_attempts sh)
      \<and> (sk_attempts sh' \<le> sx_max_runs X \<or> t_finished (tw_pc w'))"
  using assms
  by (cases "tw_pc w")
    (auto simp: t_shrink_step_def sk_record_attempt_def sk_update_def Let_def split: prod.splits if_splits)

interpretation tshrink: shrink_pool "t_shrink_step X"
    "\<lambda>sh. rng_ok (sx_rng X) \<and> shrunk_from X b0 (sk_current sh)" "\<lambda>w. t_pc_ok X b0 (tw_pc w)"
    t_len sk_attempts "sx_max_runs X" "\<lambda>w. t_finished (tw_pc w)"
  for X :: "('db, 'env, 'cheat, 'trace, 'r) t_shrink_exec" and b0
proof
  fix sh sh' and w w' :: "'r t_worker" and timed_out
  show "rng_ok (sx_rng X) \<and> shrunk_from X b0 (sk_current sh) \<Longrightarrow> t_pc_ok X b0 (tw_pc w) \<Longrightarrow>
      t_shrink_step X timed_out sh w = (sh', w') \<Longrightarrow>
      (rng_ok (sx_rng X) \<and> shrunk_from X b0 (sk_current sh')) \<and> t_pc_ok X b0 (tw_pc w')"
    using t_step_ok by blast
  show "rng_ok (sx_rng X) \<and> shrunk_from X b0 (sk_current sh) \<Longrightarrow> t_pc_ok X b0 (tw_pc w) \<Longrightarrow>
      t_shrink_step X timed_out sh w = (sh', w') \<Longrightarrow> t_len sh' \<le> t_len sh"
    using t_step_ok by blast
  show "t_finished (tw_pc w) \<Longrightarrow> t_shrink_step X timed_out sh w = (sh, w)"
    by (rule t_step_stopped)
  show "t_shrink_step X timed_out sh w = (sh', w') \<Longrightarrow>
      sk_attempts sh' = sk_attempts sh \<or> sk_attempts sh' = Suc (sk_attempts sh)
      \<and> (sk_attempts sh' \<le> sx_max_runs X \<or> t_finished (tw_pc w'))"
    by (rule t_step_tries)
qed

definition t_shrink_start ::
  "('db, 'env, 'cheat, 'trace, 'r) t_shrink_exec \<Rightarrow> broken \<Rightarrow> t_shared_shrink \<times> 'r t_worker list" where
  "t_shrink_start X b = (\<lparr>sk_current = b, sk_attempts = 0\<rparr>, t_spawn X)"

lemma t_spawn_ok: "\<forall>w \<in> set (t_spawn X). t_pc_ok X b (tw_pc w)"
  by (auto simp: t_spawn_def)

lemma t_reach_ok:
  assumes "rng_ok (sx_rng X)" and "pool_reach (t_shrink_step X) (t_shrink_start X b) (sh, ws)"
  shows "shrunk_from X b (sk_current sh) \<and> t_len sh \<le> length (br_sequence b)
    \<and> (\<forall>w \<in> set ws. t_pc_ok X b (tw_pc w)) \<and> sk_attempts sh \<le> sx_max_runs X + sx_threads X"
proof -
  have start: "rng_ok (sx_rng X) \<and> shrunk_from X b (sk_current \<lparr>sk_current = b, sk_attempts = 0\<rparr>)"
    using assms(1) by (simp add: shrunk_from_refl)
  have "length (t_spawn X) = sx_threads X" by (simp add: t_spawn_def)
  then show ?thesis
    using tshrink.reach_ok [OF assms(2) [unfolded t_shrink_start_def] start t_spawn_ok]
      tshrink.reach_tries_threads [OF assms(2) [unfolded t_shrink_start_def] _ start t_spawn_ok]
    by (simp add: t_len_def)
qed

text \<open>
  C27: shrinking is sound under every interleaving. In every state that any number of shrinker
  threads can reach in any order of steps, with any random choices and any timeout, the
  current finding has the id and description of the original, its calls are a subsequence of
  the original's, it is the original or has just been shown to reproduce the id on a clean
  chain, no thread has panicked, and the attempt counter exceeds the budget by at most one
  per thread.
\<close>

theorem t_shrink_sound:
  assumes "rng_ok (sx_rng X)" and "pool_reach (t_shrink_step X) (t_shrink_start X b) (sh, ws)"
  shows "br_id (sk_current sh) = br_id b \<and> br_description (sk_current sh) = br_description b
     \<and> subseq (br_sequence (sk_current sh)) (br_sequence b)
     \<and> (sk_current sh = b \<or> t_reproduces X (br_sequence (sk_current sh)) (br_id b) = Inr True)
     \<and> (\<forall>w \<in> set ws. tw_pc w \<noteq> T_Failed Shrink_Panic)
     \<and> sk_attempts sh \<le> sx_max_runs X + sx_threads X"
proof -
  have "tw_pc w \<noteq> T_Failed Shrink_Panic" if "w \<in> set ws" for w
    using t_reach_ok [OF assms] that by fastforce
  with t_reach_ok [OF assms] show ?thesis by (auto simp: shrunk_from_def)
qed

definition demo_shrink_exec :: "nat \<Rightarrow> nat \<Rightarrow> (nat, u64, unit, unit, nat) t_shrink_exec" where
  "demo_shrink_exec threads max_runs =
     \<lparr>sx_ops = demo_ops, sx_codec = demo_codec, sx_text = demo_text, sx_rng = counter_rng,
      sx_seed_rng = unat, sx_chain = demo_chain, sx_target = 1, sx_deployer = 2, sx_seed = 0,
      sx_threads = threads, sx_max_runs = max_runs\<rparr>"

theorem t_shrink_sound_witness:
  "br_id (sk_current (fst (run_schedule (t_shrink_step (demo_shrink_exec 2 9)) [(0, False), (1, False), (0, False)]
     (t_shrink_start (demo_shrink_exec 2 9) (demo_broken ''A'' 3))))) = ''A''"
proof -
  let ?X = "demo_shrink_exec 2 9" and ?sched = "[(0, False), (1, False), (0, False)]"
  let ?st = "run_schedule (t_shrink_step ?X) ?sched (t_shrink_start ?X (demo_broken ''A'' 3))"
  have "rng_ok (sx_rng ?X)" by (simp add: demo_shrink_exec_def counter_rng_ok)
  moreover have "pool_reach (t_shrink_step ?X) (t_shrink_start ?X (demo_broken ''A'' 3)) (fst ?st, snd ?st)"
    using run_schedule_from by simp
  ultimately show ?thesis using t_shrink_sound by (metis broken.select_convs(2) demo_broken_def)
qed

lemma t_shrink_one_ok:
  assumes "rng_ok (sx_rng X)" and "t_shrink_one X sched b = Some (Inr b')"
  shows "shrunk_from X b b' \<and> length (br_sequence b') \<le> length (br_sequence b)"
proof (cases "length (br_sequence b) \<le> 1")
  case True
  with assms(2) show ?thesis by (simp add: t_shrink_one_def shrunk_from_refl)
next
  case False
  obtain sh ws where run: "run_schedule (t_shrink_step X) sched (t_shrink_start X b) = (sh, ws)"
    by fastforce
  from assms(2) False run have "b' = sk_current sh"
    by (auto simp: t_shrink_one_def Let_def t_shrink_start_def split: list.splits if_splits)
  moreover have "pool_reach (t_shrink_step X) (t_shrink_start X b) (sh, ws)"
    using run_schedule_from [of "t_shrink_step X" "t_shrink_start X b" sched] run by simp
  ultimately show ?thesis using t_reach_ok [OF assms(1)] by (auto simp: t_len_def)
qed

text \<open>
  The shrunk findings correspond one to one to the given ones. When shrinking a list of
  findings returns, under any schedules of the threads, there is one result per finding in the
  same order, each with the same id, never longer, a subsequence of the given calls, and the
  given finding itself or one that reproduces its id.
\<close>

theorem t_shrink_results:
  assumes "rng_ok (sx_rng X)" and "t_shrink X bs = Some (Inr bs')"
  shows "list_all2 (\<lambda>(sched, b) b'. br_id b' = br_id b
       \<and> length (br_sequence b') \<le> length (br_sequence b) \<and> subseq (br_sequence b') (br_sequence b)
       \<and> (b' = b \<or> t_reproduces X (br_sequence b') (br_id b) = Inr True)) bs bs'"
  using assms(2)
proof (induction bs arbitrary: bs')
  case (Cons x bs)
  obtain sched b where x: "x = (sched, b)" by (cases x)
  from Cons.prems obtain b' rest where s: "t_shrink_one X sched b = Some (Inr b')"
    "t_shrink X bs = Some (Inr rest)" "bs' = b' # rest"
    by (auto simp: x split: option.splits sum.splits)
  from t_shrink_one_ok [OF assms(1) s(1)] Cons.IH [OF s(2)] s(3) show ?case
    by (simp add: x shrunk_from_def)
qed simp

theorem t_shrink_results_witness:
  "\<exists>b'. t_shrink (demo_shrink_exec 1 0) [([(0, False)], demo_broken ''A'' 3)] = Some (Inr [b'])
     \<and> length (br_sequence b') \<le> 3"
proof -
  have R: "rng_ok (sx_rng (demo_shrink_exec 1 0))" by (simp add: demo_shrink_exec_def counter_rng_ok)
  obtain b' where run:
    "t_shrink (demo_shrink_exec 1 0) [([(0, False)], demo_broken ''A'' 3)] = Some (Inr [b'])"
    by (simp add: t_shrink_one_def demo_broken_def demo_shrink_exec_def t_spawn_def
        t_shrink_step_def sk_exhausted_def Let_def t_failures_def List.map_filter_simps)
  from t_shrink_results [OF R run] run show ?thesis by (simp add: demo_broken_def)
qed

end
