(* ===== verification/Max_Shrinker.thy ===== *)
theory Max_Shrinker
  imports Shrink_Pool Max_Corpus
begin

section \<open>The shrinker of the max mode\<close>

text \<open>
  \<open>src/src/maxer/shrinker.rs\<close>: workers delete random chunks from the best sequence and
  keep a candidate when, replayed on a clean copy of the chain, the value call still measures
  at least the target value. The program counter \<open>m_pc\<close> cuts the loop body at its accesses
  to the shared state, as in the test mode; the two shrinkers share the interleaving
  semantics and the contract of \<open>Shrink_Pool\<close>.
\<close>

record ('db, 'env, 'cheat, 'trace, 'r) m_shrink_exec =
  mx_ops :: "('db, 'env, 'cheat, 'trace) revm_ops"
  mx_codec :: codec
  mx_decode :: "bytes \<Rightarrow> sol_value option"
  mx_rng :: "'r rng_ops"
  mx_seed_rng :: "u64 \<Rightarrow> 'r"
  mx_chain :: "('db, 'env, 'cheat) chain"
  mx_target :: address
  mx_deployer :: address
  mx_value_calldata :: bytes
  mx_target_value :: max_value
  mx_seed :: u64
  mx_threads :: nat
  mx_max_runs :: nat

record m_shared_shrink =
  mk_current :: seq_calls
  mk_attempts :: nat

definition mk_update :: "seq_calls \<Rightarrow> m_shared_shrink \<Rightarrow> bool \<times> m_shared_shrink" where
  "mk_update candidate sh =
     (if length candidate < length (mk_current sh)
      then (True, sh\<lparr>mk_current := candidate\<rparr>) else (False, sh))"

definition mk_record_attempt :: "nat \<Rightarrow> m_shared_shrink \<Rightarrow> bool \<times> m_shared_shrink" where
  "mk_record_attempt max_runs sh =
     (let attempts = mk_attempts sh + 1
      in (attempts \<le> max_runs, sh\<lparr>mk_attempts := attempts\<rparr>))"

definition mk_exhausted :: "nat \<Rightarrow> m_shared_shrink \<Rightarrow> bool" where
  "mk_exhausted max_runs sh \<longleftrightarrow> mk_attempts sh \<ge> max_runs"

datatype m_shrink_failure =
    MShrink_Chain chain_error
  | MShrink_Result_Missing
  | MShrink_Decode value_error
  | MShrink_Panic

subsection \<open>Validation\<close>

text \<open>Steps 2 and 3 of the loop body: \<open>Inr None\<close> is a value call that reverted.\<close>

definition m_measure ::
  "('db, 'env, 'cheat, 'trace, 'r) m_shrink_exec \<Rightarrow> seq_calls \<Rightarrow> m_shrink_failure + max_value option" where
  "m_measure X candidate =
     (let transactions = m_seq_transactions (mx_codec X) (mx_target X) (mx_deployer X) candidate;
          value_tx = tx_with_calldata (mx_value_calldata X) (tx_new (mx_target X))
      in case chain_exec (mx_ops X) transactions (mx_chain X) of
           (Inl e, _) \<Rightarrow> Inl (MShrink_Chain e)
         | (Inr _, chain) \<Rightarrow>
             (case fst (chain_exec (mx_ops X) [value_tx] chain) of
                Inl e \<Rightarrow> Inl (MShrink_Chain e)
              | Inr output \<Rightarrow>
                  (case eo_results output of
                     [] \<Rightarrow> Inl MShrink_Result_Missing
                   | result # _ \<Rightarrow>
                       if \<not> tr_success result then Inr None
                       else case value_decode (mx_decode X) result of
                              Inl e \<Rightarrow> Inl (MShrink_Decode e)
                            | Inr v \<Rightarrow> Inr (Some v))))"

definition m_reaches_target ::
  "('db, 'env, 'cheat, 'trace, 'r) m_shrink_exec \<Rightarrow> seq_calls \<Rightarrow> bool" where
  "m_reaches_target X s \<longleftrightarrow>
     (case m_measure X s of Inr (Some v) \<Rightarrow> mx_target_value X \<le> v | _ \<Rightarrow> False)"

subsection \<open>The worker\<close>

datatype m_pc =
    M_Loop
  | M_Read
  | M_Attempt seq_calls
  | M_Validate seq_calls
  | M_Update seq_calls
  | M_Done
  | M_Failed m_shrink_failure

record 'r m_worker =
  mw_pc :: m_pc
  mw_rng :: 'r

definition m_choose :: "'r rng_ops \<Rightarrow> 'r \<Rightarrow> seq_calls \<Rightarrow> m_pc \<times> 'r" where
  "m_choose R r current =
     (let len = length current;
          (one, r1) = rng_bool R r;
          (chunk_len, r2) = (if one then (1, r1) else rng_range R 1 (len + 1) r1);
          (start_pos, r3) = rng_range R 0 len r2;
          end_pos = min (start_pos + chunk_len) len
      in case m_seq_without start_pos end_pos current of
           None \<Rightarrow> (M_Failed MShrink_Panic, r3)
         | Some candidate \<Rightarrow> (if candidate = [] then M_Loop else M_Attempt candidate, r3))"

definition m_shrink_step ::
  "('db, 'env, 'cheat, 'trace, 'r) m_shrink_exec \<Rightarrow> (m_shared_shrink, 'r m_worker) worker_step" where
  "m_shrink_step X timed_out sh w =
     (case mw_pc w of
        M_Loop \<Rightarrow>
          (sh, w\<lparr>mw_pc := if mk_exhausted (mx_max_runs X) sh \<or> timed_out then M_Done else M_Read\<rparr>)
      | M_Read \<Rightarrow>
          let current = mk_current sh in
          if length current \<le> 1 then (sh, w\<lparr>mw_pc := M_Done\<rparr>)
          else let (pc, r) = m_choose (mx_rng X) (mw_rng w) current
               in (sh, w\<lparr>mw_pc := pc, mw_rng := r\<rparr>)
      | M_Attempt candidate \<Rightarrow>
          let (more, sh') = mk_record_attempt (mx_max_runs X) sh
          in (sh', w\<lparr>mw_pc := if more then M_Validate candidate else M_Done\<rparr>)
      | M_Validate candidate \<Rightarrow>
          (sh, w\<lparr>mw_pc := (case m_measure X candidate of
                             Inl e \<Rightarrow> M_Failed e
                           | Inr None \<Rightarrow> M_Loop
                           | Inr (Some v) \<Rightarrow>
                               if mx_target_value X \<le> v then M_Update candidate else M_Loop)\<rparr>)
      | M_Update candidate \<Rightarrow> (snd (mk_update candidate sh), w\<lparr>mw_pc := M_Loop\<rparr>)
      | M_Done \<Rightarrow> (sh, w)
      | M_Failed e \<Rightarrow> (sh, w))"

fun m_finished :: "m_pc \<Rightarrow> bool" where
  "m_finished M_Done = True"
| "m_finished (M_Failed e) = True"
| "m_finished _ = False"

definition m_failures :: "'r m_worker list \<Rightarrow> m_shrink_failure list" where
  "m_failures ws = List.map_filter (\<lambda>w. case mw_pc w of M_Failed e \<Rightarrow> Some e | _ \<Rightarrow> None) ws"

definition m_spawn :: "('db, 'env, 'cheat, 'trace, 'r) m_shrink_exec \<Rightarrow> 'r m_worker list" where
  "m_spawn X =
     map (\<lambda>i. \<lparr>mw_pc = M_Loop, mw_rng = mx_seed_rng X (mx_seed X + of_nat i)\<rparr>) [0..<mx_threads X]"

definition m_shrink_start ::
  "('db, 'env, 'cheat, 'trace, 'r) m_shrink_exec \<Rightarrow> seq_calls \<Rightarrow> m_shared_shrink \<times> 'r m_worker list" where
  "m_shrink_start X s = (\<lparr>mk_current = s, mk_attempts = 0\<rparr>, m_spawn X)"

text \<open>\<open>Shrinker::shrink\<close> under a schedule of its threads; \<open>None\<close>: some thread still runs.\<close>

definition m_shrink ::
  "('db, 'env, 'cheat, 'trace, 'r) m_shrink_exec \<Rightarrow> (nat \<times> bool) list \<Rightarrow> seq_calls \<Rightarrow>
   (m_shrink_failure + seq_calls) option" where
  "m_shrink X sched s =
     (if length s \<le> 1 then Some (Inr s)
      else
        let (sh, ws) = run_schedule (m_shrink_step X) sched (m_shrink_start X s)
        in if list_all (\<lambda>w. m_finished (mw_pc w)) ws
           then Some (case m_failures ws of [] \<Rightarrow> Inr (mk_current sh) | e # _ \<Rightarrow> Inl e)
           else None)"

subsection \<open>The invariant of the shared sequence\<close>

definition m_shrunk_from ::
  "('db, 'env, 'cheat, 'trace, 'r) m_shrink_exec \<Rightarrow> seq_calls \<Rightarrow> seq_calls \<Rightarrow> bool" where
  "m_shrunk_from X s0 s \<longleftrightarrow> subseq s s0 \<and> (s = s0 \<or> s \<noteq> [] \<and> m_reaches_target X s)"

fun m_pc_ok :: "('db, 'env, 'cheat, 'trace, 'r) m_shrink_exec \<Rightarrow> seq_calls \<Rightarrow> m_pc \<Rightarrow> bool" where
  "m_pc_ok X s0 (M_Attempt c) \<longleftrightarrow> subseq c s0 \<and> c \<noteq> []"
| "m_pc_ok X s0 (M_Validate c) \<longleftrightarrow> subseq c s0 \<and> c \<noteq> []"
| "m_pc_ok X s0 (M_Update c) \<longleftrightarrow> m_shrunk_from X s0 c"
| "m_pc_ok X s0 (M_Failed e) \<longleftrightarrow> e \<noteq> MShrink_Panic"
| "m_pc_ok X s0 _ \<longleftrightarrow> True"

lemma m_measure_no_panic: "m_measure X s \<noteq> Inl MShrink_Panic"
  by (simp add: m_measure_def Let_def split: prod.splits sum.splits list.splits)

lemma m_shrunk_from_refl: "m_shrunk_from X s s"
  by (simp add: m_shrunk_from_def)

lemma m_choose_ok:
  assumes R: "rng_ok R" and s: "\<not> length current \<le> 1" "m_shrunk_from X s0 current"
    and ch: "m_choose R r current = (pc, r')"
  shows "m_pc_ok X s0 pc \<and> \<not> m_finished pc"
proof -
  let ?len = "length current"
  obtain one r1 where o1: "rng_bool R r = (one, r1)" by fastforce
  obtain chunk r2 where o2: "(if one then (1, r1) else rng_range R 1 (?len + 1) r1) = (chunk, r2)"
    by fastforce
  obtain start r3 where o3: "rng_range R 0 ?len r2 = (start, r3)" by fastforce
  have "0 < ?len" using s(1) by linarith
  then have start: "start < ?len" using rng_okD [OF R o3] by simp
  let ?c = "take start current @ drop (min (start + chunk) ?len) current"
  have le: "start \<le> min (start + chunk) ?len" using start by simp
  have "m_seq_without start (min (start + chunk) ?len) current = Some ?c"
    using le by (simp add: m_seq_without_def)
  then have "pc = (if ?c = [] then M_Loop else M_Attempt ?c)"
    using ch o1 o2 o3 by (simp add: m_choose_def Let_def)
  moreover have "subseq ?c s0"
    using subseq_drop_chunk [OF le] s(2) by (auto simp: m_shrunk_from_def intro: subseq_order.order_trans)
  ultimately show ?thesis by auto
qed

definition m_len :: "m_shared_shrink \<Rightarrow> nat" where
  "m_len sh = length (mk_current sh)"

lemma m_step_ok:
  assumes R: "rng_ok (mx_rng X)" and sh: "m_shrunk_from X s0 (mk_current sh)"
    and w: "m_pc_ok X s0 (mw_pc w)" and step: "m_shrink_step X timed_out sh w = (sh', w')"
  shows "m_shrunk_from X s0 (mk_current sh') \<and> m_pc_ok X s0 (mw_pc w') \<and> m_len sh' \<le> m_len sh"
proof (cases "mw_pc w")
  case M_Loop
  with step sh show ?thesis by (auto simp: m_shrink_step_def)
next
  case M_Read
  show ?thesis
  proof (cases "length (mk_current sh) \<le> 1")
    case True
    with M_Read step sh show ?thesis by (auto simp: m_shrink_step_def)
  next
    case False
    obtain pc r where ch: "m_choose (mx_rng X) (mw_rng w) (mk_current sh) = (pc, r)" by fastforce
    from m_choose_ok [OF R False sh ch] M_Read step sh False ch show ?thesis
      by (auto simp: m_shrink_step_def)
  qed
next
  case (M_Attempt candidate)
  with step sh w show ?thesis
    by (auto simp: m_shrink_step_def mk_record_attempt_def Let_def m_len_def)
next
  case (M_Validate candidate)
  have "m_shrunk_from X s0 candidate"
    if "m_measure X candidate = Inr (Some v)" "mx_target_value X \<le> v" for v
    using that w M_Validate by (simp add: m_shrunk_from_def m_reaches_target_def)
  with M_Validate step sh show ?thesis
    by (auto simp: m_shrink_step_def m_measure_no_panic split: sum.splits option.splits)
next
  case (M_Update c)
  with step sh w show ?thesis
    by (auto simp: m_shrink_step_def mk_update_def m_len_def)
next
  case M_Done
  with step sh show ?thesis by (auto simp: m_shrink_step_def)
next
  case (M_Failed e)
  with step sh w show ?thesis by (auto simp: m_shrink_step_def)
qed

lemma m_step_stopped: "m_finished (mw_pc w) \<Longrightarrow> m_shrink_step X timed_out sh w = (sh, w)"
  by (cases "mw_pc w") (simp_all add: m_shrink_step_def)

lemma m_step_tries:
  assumes "m_shrink_step X timed_out sh w = (sh', w')"
  shows "mk_attempts sh' = mk_attempts sh
    \<or> mk_attempts sh' = Suc (mk_attempts sh)
      \<and> (mk_attempts sh' \<le> mx_max_runs X \<or> m_finished (mw_pc w'))"
  using assms
  by (cases "mw_pc w")
    (auto simp: m_shrink_step_def mk_record_attempt_def mk_update_def Let_def split: prod.splits if_splits)

interpretation mshrink: shrink_pool "m_shrink_step X"
    "\<lambda>sh. rng_ok (mx_rng X) \<and> m_shrunk_from X s0 (mk_current sh)" "\<lambda>w. m_pc_ok X s0 (mw_pc w)"
    m_len mk_attempts "mx_max_runs X" "\<lambda>w. m_finished (mw_pc w)"
  for X :: "('db, 'env, 'cheat, 'trace, 'r) m_shrink_exec" and s0
proof
  fix sh sh' and w w' :: "'r m_worker" and timed_out
  show "rng_ok (mx_rng X) \<and> m_shrunk_from X s0 (mk_current sh) \<Longrightarrow> m_pc_ok X s0 (mw_pc w) \<Longrightarrow>
      m_shrink_step X timed_out sh w = (sh', w') \<Longrightarrow>
      (rng_ok (mx_rng X) \<and> m_shrunk_from X s0 (mk_current sh')) \<and> m_pc_ok X s0 (mw_pc w')"
    using m_step_ok by blast
  show "rng_ok (mx_rng X) \<and> m_shrunk_from X s0 (mk_current sh) \<Longrightarrow> m_pc_ok X s0 (mw_pc w) \<Longrightarrow>
      m_shrink_step X timed_out sh w = (sh', w') \<Longrightarrow> m_len sh' \<le> m_len sh"
    using m_step_ok by blast
  show "m_finished (mw_pc w) \<Longrightarrow> m_shrink_step X timed_out sh w = (sh, w)"
    by (rule m_step_stopped)
  show "m_shrink_step X timed_out sh w = (sh', w') \<Longrightarrow>
      mk_attempts sh' = mk_attempts sh \<or> mk_attempts sh' = Suc (mk_attempts sh)
      \<and> (mk_attempts sh' \<le> mx_max_runs X \<or> m_finished (mw_pc w'))"
    by (rule m_step_tries)
qed

lemma m_reach_ok:
  assumes "rng_ok (mx_rng X)" and "pool_reach (m_shrink_step X) (m_shrink_start X s) (sh, ws)"
  shows "m_shrunk_from X s (mk_current sh) \<and> m_len sh \<le> length s
    \<and> (\<forall>w \<in> set ws. m_pc_ok X s (mw_pc w)) \<and> mk_attempts sh \<le> mx_max_runs X + mx_threads X"
proof -
  have start: "rng_ok (mx_rng X) \<and> m_shrunk_from X s (mk_current \<lparr>mk_current = s, mk_attempts = 0\<rparr>)"
    using assms(1) by (simp add: m_shrunk_from_refl)
  have spawn: "\<forall>w \<in> set (m_spawn X). m_pc_ok X s (mw_pc w)" by (auto simp: m_spawn_def)
  have "length (m_spawn X) = mx_threads X" by (simp add: m_spawn_def)
  then show ?thesis
    using mshrink.reach_ok [OF assms(2) [unfolded m_shrink_start_def] start spawn]
      mshrink.reach_tries_threads [OF assms(2) [unfolded m_shrink_start_def] _ start spawn]
    by (simp add: m_len_def)
qed

text \<open>
  C28: the value survives shrinking under every interleaving. In every state any number of
  threads can reach, the current sequence is a subsequence of the original, never longer, and
  is the original itself or a non-empty one whose value, measured on a clean chain, is at
  least the target; no thread has panicked; the attempts exceed the budget by at most one per
  thread.
\<close>

theorem m_shrink_sound:
  assumes "rng_ok (mx_rng X)" and "pool_reach (m_shrink_step X) (m_shrink_start X s) (sh, ws)"
  shows "subseq (mk_current sh) s \<and> length (mk_current sh) \<le> length s
     \<and> (mk_current sh = s \<or> mk_current sh \<noteq> [] \<and> m_reaches_target X (mk_current sh))
     \<and> (\<forall>w \<in> set ws. mw_pc w \<noteq> M_Failed MShrink_Panic)
     \<and> mk_attempts sh \<le> mx_max_runs X + mx_threads X"
proof -
  have "mw_pc w \<noteq> M_Failed MShrink_Panic" if "w \<in> set ws" for w
    using m_reach_ok [OF assms] that by fastforce
  with m_reach_ok [OF assms] show ?thesis by (auto simp: m_shrunk_from_def m_len_def)
qed

definition demo_m_shrink_exec :: "nat \<Rightarrow> nat \<Rightarrow> (nat, u64, unit, unit, nat) m_shrink_exec" where
  "demo_m_shrink_exec threads max_runs =
     \<lparr>mx_ops = demo_ops, mx_codec = demo_codec, mx_decode = (\<lambda>bs. Some (VUint 4 256)),
      mx_rng = counter_rng, mx_seed_rng = unat, mx_chain = demo_chain, mx_target = 1,
      mx_deployer = 2, mx_value_calldata = [], mx_target_value = 3, mx_seed = 0,
      mx_threads = threads, mx_max_runs = max_runs\<rparr>"

theorem m_shrink_sound_witness:
  "length (mk_current (fst (run_schedule (m_shrink_step (demo_m_shrink_exec 2 9)) [(0, False), (1, False)]
     (m_shrink_start (demo_m_shrink_exec 2 9) [demo_call 1, demo_call 2])))) \<le> 2"
proof -
  let ?X = "demo_m_shrink_exec 2 9" and ?s = "[demo_call 1, demo_call 2]"
  let ?st = "run_schedule (m_shrink_step ?X) [(0, False), (1, False)] (m_shrink_start ?X ?s)"
  have "rng_ok (mx_rng ?X)" by (simp add: demo_m_shrink_exec_def counter_rng_ok)
  moreover have "pool_reach (m_shrink_step ?X) (m_shrink_start ?X ?s) (fst ?st, snd ?st)"
    using run_schedule_from by simp
  ultimately have "length (mk_current (fst ?st)) \<le> length ?s" using m_shrink_sound by blast
  then show ?thesis by simp
qed

end
