(* ===== verification/Literals.thy ===== *)
theory Literals
  imports Coverage Sol_Values
begin

section \<open>The literal pool\<close>

text \<open>
  \<open>src/src/tester/corpus/literal.rs\<close>: the literals of the harness sources, by kind and
  width, and how one AST literal is added to them. Integers are 256-bit words; a signed one is
  its two's complement, compared with \<open>sint\<close>. The maps from widths to vectors are association
  lists. The decimal and hexadecimal parsers of the integer and \<open>hex\<close> crates are the record
  \<open>num_parse\<close> (\<open>np_parse\<close> is \<open>parse::<U256>\<close>, which knows prefixes, \<open>np_radix\<close> is
  \<open>from_str_radix\<close>); arithmetic on \<open>U256\<close> wraps, division by zero panics.
\<close>

type_synonym width_map = "(nat \<times> u256 list) list"

record literal_pool =
  lp_bools :: "bool list"
  lp_uints :: width_map
  lp_ints :: width_map
  lp_fixed :: width_map
  lp_addresses :: "address list"
  lp_byte_strings :: "bytes list"
  lp_strings :: "string list"

definition lp_new :: literal_pool where
  "lp_new = \<lparr>lp_bools = [], lp_uints = [], lp_ints = [], lp_fixed = [], lp_addresses = [],
             lp_byte_strings = [], lp_strings = []\<rparr>"

definition lp_is_empty :: "literal_pool \<Rightarrow> bool" where
  "lp_is_empty p \<longleftrightarrow>
     lp_bools p = [] \<and> lp_uints p = [] \<and> lp_ints p = [] \<and> lp_addresses p = [] \<and> lp_fixed p = []
     \<and> lp_byte_strings p = [] \<and> lp_strings p = []"

definition at_width :: "width_map \<Rightarrow> nat \<Rightarrow> u256 list" where
  "at_width m bits = (case map_of m bits of None \<Rightarrow> [] | Some vs \<Rightarrow> vs)"

definition lp_uint :: "literal_pool \<Rightarrow> nat \<Rightarrow> u256 list" where
  "lp_uint p bits = at_width (lp_uints p) bits"

definition lp_int :: "literal_pool \<Rightarrow> nat \<Rightarrow> u256 list" where
  "lp_int p bits = at_width (lp_ints p) bits"

definition lp_fixed_bytes :: "literal_pool \<Rightarrow> nat \<Rightarrow> u256 list" where
  "lp_fixed_bytes p n = at_width (lp_fixed p) n"

text \<open>\<open>map.entry(bits).or_default().push(value)\<close>.\<close>

definition push_at :: "u256 \<Rightarrow> nat \<Rightarrow> width_map \<Rightarrow> width_map" where
  "push_at v bits m = AList.map_default bits [v] (\<lambda>vs. vs @ [v]) m"

definition widths_from :: "nat \<Rightarrow> nat list" where
  "widths_from min_bits = filter (\<lambda>b. (b - min_bits) mod 8 = 0) [min_bits..<257]"

definition count_ones256 :: "u256 \<Rightarrow> nat" where
  "count_ones256 w = length (filter (bit w) [0..<256])"

definition uint_min_bits :: "u256 \<Rightarrow> nat" where
  "uint_min_bits value =
     (let magnitude_bits = (if value = 0 then 0 else bit_len value);
          min_bits = div_ceil magnitude_bits 8 * 8
      in max min_bits 8)"

definition push_uint :: "u256 \<Rightarrow> width_map \<Rightarrow> width_map" where
  "push_uint value uints = fold (push_at value) (widths_from (uint_min_bits value)) uints"

definition int_min_bits :: "u256 \<Rightarrow> nat" where
  "int_min_bits value =
     (let min_bits =
        (if value = 0 then 8
         else
           let negative = sint value < 0;
               abs_u256 = (if negative then not value + 1 else value);
               magnitude_bits = bit_len abs_u256
           in if \<not> negative then div_ceil (magnitude_bits + 1) 8 * 8
              else if count_ones256 abs_u256 = 1 then div_ceil magnitude_bits 8 * 8
              else div_ceil (magnitude_bits + 1) 8 * 8)
      in max 8 (min min_bits 256))"

definition push_int :: "u256 \<Rightarrow> width_map \<Rightarrow> width_map" where
  "push_int value ints = fold (push_at value) (widths_from (int_min_bits value)) ints"

definition push_fixed_bytes :: "u256 \<Rightarrow> nat \<Rightarrow> width_map \<Rightarrow> width_map" where
  "push_fixed_bytes value min_size fixed = fold (push_at value) [min_size..<33] fixed"

subsection \<open>Byte strings of integers\<close>

definition be_bytes :: "nat \<Rightarrow> u256 \<Rightarrow> bytes" where
  "be_bytes n w = map (\<lambda>i. ucast (drop_bit (8 * (n - 1 - i)) w)) [0..<n]"

definition be_u256 :: "bytes \<Rightarrow> u256" where
  "be_u256 bs = foldl (\<lambda>acc b. acc * 256 + ucast b) 0 bs"

definition u256_trimmed :: "u256 \<Rightarrow> bytes" where
  "u256_trimmed value =
     (let bs = be_bytes 32 value;
          leading_zeros = length (takeWhile (\<lambda>b. b = 0) bs)
      in if leading_zeros = 32 then [0] else drop leading_zeros bs)"

definition i256_trimmed :: "u256 \<Rightarrow> bytes" where
  "i256_trimmed value =
     (if value = 0 then [0]
      else
        let raw = be_bytes 32 value in
        if sint value < 0 then
          let leading_ones = length (takeWhile (\<lambda>b. b = 0xFF) raw);
              start = (if leading_ones = 32 then 31
                       else if raw ! leading_ones < 0x80 then leading_ones - 1
                       else leading_ones)
          in drop start raw
        else
          let leading_zeros = length (takeWhile (\<lambda>b. b = 0) raw)
          in drop leading_zeros raw)"

subsection \<open>Adding one AST literal\<close>

datatype literal_kind = LBool | LNumber | LString | LUnicodeString | LHexString

record ast_literal =
  al_kind :: literal_kind
  al_value :: "string option"
  al_hex_value :: "string option"
  al_subdenomination :: "string option"

record num_parse =
  np_parse :: "string \<Rightarrow> u256 option"
  np_radix :: "nat \<Rightarrow> string \<Rightarrow> u256 option"
  np_u64 :: "string \<Rightarrow> u64 option"
  np_hex_bytes :: "string \<Rightarrow> bytes option"
  np_utf8 :: "string \<Rightarrow> bytes"
  np_trim :: "string \<Rightarrow> string"

fun split_once_any :: "char list \<Rightarrow> string \<Rightarrow> (string \<times> string) option" where
  "split_once_any cs [] = None"
| "split_once_any cs (x # xs) =
     (if x \<in> set cs then Some ([], xs) else map_option (\<lambda>(a, b). (x # a, b)) (split_once_any cs xs))"

text \<open>
  \<open>base.split_once('.')\<close>, both parts parsed. The outer \<open>None\<close> is a panic, the inner one no
  value: dividing by a power of ten that wraps to zero panics.
\<close>

definition parse_base :: "num_parse \<Rightarrow> string \<Rightarrow> (u256 \<times> nat) option" where
  "parse_base N base =
     (case split_once CHR ''.'' base of
        Some (whole, frac) \<Rightarrow>
          (case np_parse N whole of
             None \<Rightarrow> None
           | Some whole_u \<Rightarrow>
               (case np_parse N frac of
                  None \<Rightarrow> None
                | Some frac_u \<Rightarrow> Some (whole_u * 10 ^ length frac + frac_u, length frac)))
      | None \<Rightarrow> map_option (\<lambda>b. (b, 0)) (np_parse N base))"

definition checked_quotient :: "u256 \<Rightarrow> u256 \<Rightarrow> u256 option option" where
  "checked_quotient num den = (if den = 0 then None else Some (Some (num div den)))"

definition parse_number_literal :: "num_parse \<Rightarrow> string \<Rightarrow> u256 option option" where
  "parse_number_literal N val =
     (let trimmed = np_trim N val in
      if starts_with trimmed ''0x'' \<or> starts_with trimmed ''0X''
      then Some (np_radix N 16 (drop 2 trimmed))
      else case split_once_any ''eE'' trimmed of
             None \<Rightarrow> Some (np_radix N 10 trimmed)
           | Some (base, exponent) \<Rightarrow>
               (case np_u64 N exponent of
                  None \<Rightarrow> Some None
                | Some e \<Rightarrow>
                    (case parse_base N base of
                       None \<Rightarrow> Some None
                     | Some (base_val, frac_len) \<Rightarrow>
                         checked_quotient (base_val * 10 ^ unat e) (10 ^ frac_len))))"

definition subdenomination_factor :: "string \<Rightarrow> u256 option" where
  "subdenomination_factor sub =
     (if sub = ''wei'' then Some 1
      else if sub = ''gwei'' then Some 1000000000
      else if sub = ''ether'' then Some 1000000000000000000
      else if sub = ''seconds'' then Some 1
      else if sub = ''minutes'' then Some 60
      else if sub = ''hours'' then Some 3600
      else if sub = ''days'' then Some 86400
      else if sub = ''weeks'' then Some 604800
      else None)"

definition apply_subdenomination :: "num_parse \<Rightarrow> string \<Rightarrow> string \<Rightarrow> u256 option option" where
  "apply_subdenomination N val sub =
     (case subdenomination_factor sub of
        None \<Rightarrow> Some None
      | Some factor \<Rightarrow>
          (case parse_base N val of
             None \<Rightarrow> Some None
           | Some (base, frac_len) \<Rightarrow>
               if CHR ''.'' \<in> set val then checked_quotient (base * factor) (10 ^ frac_len)
               else Some (Some (base * factor))))"

definition or_else :: "'a option \<Rightarrow> 'a option \<Rightarrow> 'a option" where
  "or_else a b = (case a of None \<Rightarrow> b | Some x \<Rightarrow> Some x)"

definition parse_literal_number :: "num_parse \<Rightarrow> ast_literal \<Rightarrow> u256 option option" where
  "parse_literal_number N lit =
     (case (if al_kind lit = LHexString then or_else (al_hex_value lit) (al_value lit)
            else or_else (al_value lit) (al_hex_value lit)) of
        None \<Rightarrow> Some None
      | Some val \<Rightarrow>
          (case al_subdenomination lit of
             Some sub \<Rightarrow> apply_subdenomination N val sub
           | None \<Rightarrow> parse_number_literal N val))"

text \<open>\<open>I256::try_from(u)\<close> succeeds up to the signed maximum; its negation always exists.\<close>

definition push_signed :: "u256 \<Rightarrow> literal_pool \<Rightarrow> literal_pool" where
  "push_signed u p =
     (if unat u < 2 ^ 255
      then let negated = - u in
           p\<lparr>lp_ints := push_int negated (push_int u (lp_ints p)),
             lp_byte_strings := lp_byte_strings p @ [i256_trimmed u, i256_trimmed negated]\<rparr>
      else p)"

definition extract_number :: "u256 \<Rightarrow> literal_pool \<Rightarrow> literal_pool" where
  "extract_number u p =
     (let bs = be_bytes 32 u;
          p1 = (if list_all (\<lambda>b. b = 0) (take 12 bs)
                then p\<lparr>lp_addresses := lp_addresses p @ [ucast u],
                       lp_byte_strings := lp_byte_strings p @ [drop 12 bs]\<rparr>
                else p);
          p2 = p1\<lparr>lp_uints := push_uint u (lp_uints p1),
                  lp_byte_strings := lp_byte_strings p1 @ [u256_trimmed u]\<rparr>;
          p3 = push_signed u p2;
          leading_zeros = length (takeWhile (\<lambda>b. b = 0) bs);
          min_size = max (32 - leading_zeros) 1
      in p3\<lparr>lp_fixed := push_fixed_bytes u min_size (lp_fixed p3),
            lp_byte_strings := lp_byte_strings p3 @ [u256_trimmed u]\<rparr>)"

definition extract_hex_bytes :: "bytes \<Rightarrow> literal_pool \<Rightarrow> literal_pool" where
  "extract_hex_bytes bs p =
     (let p1 = p\<lparr>lp_byte_strings := lp_byte_strings p @ [bs]\<rparr>;
          p2 = (if length bs = 20
                then p1\<lparr>lp_addresses := lp_addresses p1 @ [ucast (be_u256 bs)],
                        lp_byte_strings := lp_byte_strings p1 @ [bs]\<rparr>
                else p1)
      in if length bs \<le> 32 then
           let word = bs @ replicate (32 - length bs) 0;
               min_size = max (length bs) 1;
               u = be_u256 (replicate (32 - length bs) 0 @ bs);
               p3 = p2\<lparr>lp_fixed := push_fixed_bytes u min_size (lp_fixed p2),
                       lp_byte_strings := lp_byte_strings p2 @ [word],
                       lp_uints := push_uint u (lp_uints p2)\<rparr>;
               p4 = p3\<lparr>lp_byte_strings := lp_byte_strings p3 @ [u256_trimmed u]\<rparr>
           in push_signed u p4
         else p2)"

definition extract_literal :: "num_parse \<Rightarrow> ast_literal \<Rightarrow> literal_pool \<Rightarrow> literal_pool option" where
  "extract_literal N lit p =
     (case al_kind lit of
        LBool \<Rightarrow>
          Some (case or_else (al_value lit) (al_hex_value lit) of
                  None \<Rightarrow> p
                | Some val \<Rightarrow> p\<lparr>lp_bools := lp_bools p @ [val = ''true'']\<rparr>)
      | LNumber \<Rightarrow>
          (case parse_literal_number N lit of
             None \<Rightarrow> None
           | Some None \<Rightarrow> Some p
           | Some (Some u) \<Rightarrow> Some (extract_number u p))
      | LHexString \<Rightarrow>
          Some (case or_else (al_hex_value lit) (al_value lit) of
                  None \<Rightarrow> p
                | Some val \<Rightarrow>
                    (case np_hex_bytes N val of None \<Rightarrow> p | Some bs \<Rightarrow> extract_hex_bytes bs p))
      | _ \<Rightarrow>
          Some (case or_else (al_value lit) (al_hex_value lit) of
                  None \<Rightarrow> p
                | Some val \<Rightarrow>
                    p\<lparr>lp_strings := lp_strings p @ [val],
                      lp_byte_strings := lp_byte_strings p @ [np_utf8 N val]\<rparr>))"

subsection \<open>Every literal is stored exactly where it fits\<close>

lemma at_width_push: "at_width (push_at v b m) b' = at_width m b' @ (if b' = b then [v] else [])"
  by (auto simp: at_width_def push_at_def AList.map_of_map_default split: option.splits)

lemma at_width_fold:
  "distinct bs \<Longrightarrow> at_width (fold (push_at v) bs m) b = at_width m b @ (if b \<in> set bs then [v] else [])"
  by (induction bs arbitrary: m) (auto simp: at_width_push)

lemma set_widths_from: "b \<in> set (widths_from m) \<longleftrightarrow> m \<le> b \<and> b \<le> 256 \<and> (b - m) mod 8 = 0"
  by (auto simp: widths_from_def)

lemma distinct_widths_from: "distinct (widths_from m)"
  by (simp add: widths_from_def)

definition solidity_width :: "nat \<Rightarrow> bool" where
  "solidity_width b \<longleftrightarrow> 8 \<le> b \<and> b \<le> 256 \<and> b mod 8 = 0"

lemma width_ge_ceil:
  assumes "solidity_width b"
  shows "max (div_ceil k 8 * 8) 8 \<le> b \<longleftrightarrow> k \<le> b"
proof -
  obtain c where c: "b = 8 * c" using assms by (auto simp: solidity_width_def elim: dvdE)
  have "(k + 7) div 8 \<le> c \<longleftrightarrow> k \<le> 8 * c" by arith
  with assms c show ?thesis by (auto simp: div_ceil_def solidity_width_def)
qed

lemma diff_mod_8:
  fixes b m :: nat
  shows "b mod 8 = 0 \<Longrightarrow> m mod 8 = 0 \<Longrightarrow> (b - m) mod 8 = 0"
  by (simp add: dvd_diff_nat flip: dvd_eq_mod_eq_0)

lemma nat_bits_le_iff: "nat_bits n \<le> k \<longleftrightarrow> n < 2 ^ k"
proof
  assume "nat_bits n \<le> k"
  then have "(2 :: nat) ^ nat_bits n \<le> 2 ^ k" by (rule power_increasing) simp
  with nat_bits_less [of n] show "n < 2 ^ k" by (rule less_le_trans)
qed (rule nat_bits_le)

text \<open>A width map after pushing: the old content, and the value at the widths that hold it.\<close>

lemma push_uint_at:
  assumes "solidity_width b"
  shows "at_width (push_uint v m) b = at_width m b @ (if uint_fits b v then [v] else [])"
proof -
  have "(if v = 0 then 0 else bit_len v) = bit_len v" by simp
  then have min: "uint_min_bits v = max (div_ceil (bit_len v) 8 * 8) 8"
    by (simp add: uint_min_bits_def Let_def)
  have "uint_min_bits v mod 8 = 0" unfolding min by (simp add: max_def)
  then have "b \<in> set (widths_from (uint_min_bits v)) \<longleftrightarrow> uint_min_bits v \<le> b"
    using assms diff_mod_8 by (auto simp: set_widths_from solidity_width_def)
  also have "\<dots> \<longleftrightarrow> bit_len v \<le> b" unfolding min using assms by (rule width_ge_ceil)
  also have "\<dots> \<longleftrightarrow> uint_fits b v" by (simp add: bit_len_def nat_bits_le_iff uint_fits_def)
  finally show ?thesis by (simp add: push_uint_def at_width_fold distinct_widths_from)
qed

lemma min_bits_mem:
  assumes "solidity_width b" and "m = max (div_ceil k 8 * 8) 8"
  shows "b \<in> set (widths_from m) \<longleftrightarrow> k \<le> b"
proof -
  have "m mod 8 = 0" using assms(2) by (simp add: max_def)
  then have "b \<in> set (widths_from m) \<longleftrightarrow> m \<le> b"
    using assms(1) diff_mod_8 by (auto simp: set_widths_from solidity_width_def)
  also have "\<dots> \<longleftrightarrow> k \<le> b" unfolding assms(2) using assms(1) by (rule width_ge_ceil)
  finally show ?thesis .
qed

lemma bit_len_le_iff: "bit_len v \<le> k \<longleftrightarrow> unat v < 2 ^ k"
  by (simp add: bit_len_def nat_bits_le_iff)

lemma unat_two_power_u256: "k < 256 \<Longrightarrow> unat ((2 :: u256) ^ k) = 2 ^ k"
proof -
  assume k: "k < 256"
  have "(2 :: nat) ^ k < 2 ^ 256" using k by (rule power_strict_increasing) simp
  then have "unat (of_nat (2 ^ k) :: u256) = 2 ^ k"
    by (simp only: unsigned_of_nat take_bit_eq_mod) (simp del: power_numeral)
  then show ?thesis by simp
qed

lemma count_ones_single:
  assumes "count_ones256 w = 1"
  obtains k where "k < 256" and "unat w = 2 ^ k"
proof -
  obtain k where k: "filter (bit w) [0..<256] = [k]"
    using assms by (auto simp: count_ones256_def length_Suc_conv)
  then have set: "\<And>i. i < 256 \<Longrightarrow> bit w i \<longleftrightarrow> i = k"
    by (metis (mono_tags, lifting) atLeastLessThan_upt atLeastLessThan_iff empty_iff empty_set
        insert_iff le0 list.simps(15) mem_Collect_eq set_filter)
  have kb: "k < 256" using k by (metis atLeastLessThan_iff atLeastLessThan_upt filter_is_subset
        list.set_intros(1) subset_iff)
  have "w = push_bit k 1"
  proof (rule bit_word_eqI)
    fix i
    assume "i < LENGTH(256)"
    then show "bit w i \<longleftrightarrow> bit (push_bit k (1 :: u256)) i"
      using set [of i] kb by (auto simp: bit_simps)
  qed
  then have "unat w = 2 ^ k" using kb by (simp add: push_bit_of_1 unat_two_power_u256)
  with kb that show thesis by blast
qed

lemma count_ones_power:
  assumes "unat w = 2 ^ k"
  shows "count_ones256 w = 1"
proof -
  have "(2 :: nat) ^ k < 2 ^ 256" using unat_u256_less [of w] assms by simp
  then have k: "k < 256" by (rule power_less_imp_less_exp [rotated]) simp
  have w: "w = 2 ^ k" using assms unat_two_power_u256 [OF k] by (simp only: word_unat_eq_iff)
  have "length (filter (bit w) [0..<256]) = card {i. i < 256 \<and> bit w ([0..<256] ! i)}"
    by (simp add: length_filter_conv_card)
  also have "{i. i < 256 \<and> bit w ([0..<256] ! i)} = {k}"
    using k by (auto simp: w bit_simps)
  finally show ?thesis by (simp add: count_ones256_def)
qed

lemma sint_u256: "sint (v :: u256) = uint v - (if sint v < 0 then 2 ^ 256 else 0)"
proof -
  have tb: "take_bit 256 (uint v) = uint v"
    using uint_lt2p [of v] by (simp add: take_bit_eq_mod)
  have "sint v = signed_take_bit 255 (uint v)" by (simp add: sint_uint)
  also have "\<dots> = take_bit (Suc 255) (uint v) - 2 ^ Suc 255 * of_bool (bit (uint v) 255)"
    by (rule signed_take_bit_eq_take_bit_minus)
  finally have eq: "sint v = uint v - 2 ^ 256 * of_bool (bit (uint v) 255)" using tb by simp
  have "0 \<le> uint v" "uint v < 2 ^ 256" using uint_lt2p [of v] by simp_all
  with eq show ?thesis by (cases "bit (uint v) 255") simp_all
qed

lemma not_plus_one: "not v + 1 = - (v :: u256)"
  by (simp add: minus_eq_not_plus_1)

lemma int_unat_u256: "int (unat (v :: u256)) = uint v"
  by simp

lemma unat_neg_u256:
  assumes "sint (v :: u256) < 0"
  shows "int (unat (- v)) = - sint v"
proof -
  have nz: "v \<noteq> 0" using assms by auto
  have "0 < uint v" using nz by (metis unsigned_eq_0_iff word_less_def word_neq_0_conv uint_0_eq)
  moreover have "uint v < 2 ^ 256" using uint_lt2p [of v] by simp
  ultimately have "uint (- v) = 2 ^ 256 - uint v"
    by (simp add: uint_word_ariths zmod_zminus1_eq_if)
  with assms sint_u256 [of v] show ?thesis by simp
qed

lemma clamp_bits: "k \<le> 256 \<Longrightarrow> max 8 (min (div_ceil k 8 * 8) 256) = max (div_ceil k 8 * 8) 8"
  by (auto simp: div_ceil_def)

lemma less_pow_width:
  "solidity_width b \<Longrightarrow> bit_len (w :: u256) + 1 \<le> b \<longleftrightarrow> int (unat w) < 2 ^ (b - 1)"
proof -
  assume "solidity_width b"
  then have "bit_len w + 1 \<le> b \<longleftrightarrow> bit_len w \<le> b - 1" by (auto simp: solidity_width_def)
  also have "\<dots> \<longleftrightarrow> unat w < 2 ^ (b - 1)" by (rule bit_len_le_iff)
  also have "\<dots> \<longleftrightarrow> int (unat w) < 2 ^ (b - 1)"
    by (metis of_nat_less_iff of_nat_numeral of_nat_power)
  finally show ?thesis .
qed

lemma int_min_bits_fits:
  assumes b: "solidity_width b"
  shows "b \<in> set (widths_from (int_min_bits v)) \<longleftrightarrow> int_fits b v"
proof -
  have pw: "(0 :: int) < 2 ^ (b - 1)" by simp
  consider (zero) "v = 0" | (pos) "v \<noteq> 0" "0 \<le> sint v" | (neg) "sint v < 0" by linarith
  then show ?thesis
  proof cases
    case zero
    then have "int_min_bits v = max (div_ceil 8 8 * 8) 8" by (simp add: int_min_bits_def div_ceil_def)
    then have "b \<in> set (widths_from (int_min_bits v)) \<longleftrightarrow> 8 \<le> b" by (rule min_bits_mem [OF b])
    with b zero show ?thesis by (simp add: solidity_width_def int_fits_def)
  next
    case pos
    then have u: "int (unat v) = sint v" using sint_u256 [of v] by simp
    have "sint v < 2 ^ 255" using sint_lt [of v] by simp
    then have "unat v < 2 ^ 255" using u by (metis of_nat_less_iff of_nat_numeral of_nat_power)
    then have "bit_len v \<le> 255" by (simp only: bit_len_le_iff)
    then have "int_min_bits v = max (div_ceil (bit_len v + 1) 8 * 8) 8"
      using pos by (simp add: int_min_bits_def Let_def clamp_bits)
    then have "b \<in> set (widths_from (int_min_bits v)) \<longleftrightarrow> bit_len v + 1 \<le> b"
      by (rule min_bits_mem [OF b])
    also have "\<dots> \<longleftrightarrow> sint v < 2 ^ (b - 1)" using less_pow_width [OF b, of v] u by simp
    also have "\<dots> \<longleftrightarrow> int_fits b v" using pos(2) pw by (auto simp: int_fits_def)
    finally show ?thesis .
  next
    case neg
    let ?a = "- v"
    have ua: "int (unat ?a) = - sint v" using neg by (rule unat_neg_u256)
    have nz: "v \<noteq> 0" using neg by auto
    have lo: "- sint v \<le> 2 ^ 255" using sint_ge [of v] by simp
    show ?thesis
    proof (cases "count_ones256 ?a = 1")
      case True
      then obtain k where k: "k < 256" "unat ?a = 2 ^ k" by (rule count_ones_single)
      have bl: "bit_len ?a \<le> n \<longleftrightarrow> Suc k \<le> n" for n
        by (simp only: bit_len_le_iff k(2)) (simp add: Suc_le_eq)
      have "bit_len ?a \<le> 256" using bl [of 256] k(1) by simp
      then have "int_min_bits v = max (div_ceil (bit_len ?a) 8 * 8) 8"
        using neg nz True by (simp add: int_min_bits_def Let_def not_plus_one clamp_bits)
      then have "b \<in> set (widths_from (int_min_bits v)) \<longleftrightarrow> bit_len ?a \<le> b"
        by (rule min_bits_mem [OF b])
      also have "\<dots> \<longleftrightarrow> k \<le> b - 1" using bl [of b] b by (auto simp: solidity_width_def)
      also have "\<dots> \<longleftrightarrow> (2 :: int) ^ k \<le> 2 ^ (b - 1)" by simp
      also have "\<dots> \<longleftrightarrow> - sint v \<le> 2 ^ (b - 1)" using ua k(2) by simp
      also have "\<dots> \<longleftrightarrow> int_fits b v" using neg pw by (auto simp: int_fits_def)
      finally show ?thesis .
    next
      case False
      then have npow: "int (unat ?a) \<noteq> 2 ^ k" for k
        using count_ones_power by (metis of_nat_eq_iff of_nat_numeral of_nat_power)
      have "int (unat ?a) < 2 ^ 255" using lo ua npow [of 255] by simp
      then have "unat ?a < 2 ^ 255" by (metis of_nat_less_iff of_nat_numeral of_nat_power)
      then have "bit_len ?a \<le> 255" by (simp only: bit_len_le_iff)
      then have "int_min_bits v = max (div_ceil (bit_len ?a + 1) 8 * 8) 8"
        using neg nz False by (simp add: int_min_bits_def Let_def not_plus_one clamp_bits)
      then have "b \<in> set (widths_from (int_min_bits v)) \<longleftrightarrow> bit_len ?a + 1 \<le> b"
        by (rule min_bits_mem [OF b])
      also have "\<dots> \<longleftrightarrow> int (unat ?a) < 2 ^ (b - 1)" by (rule less_pow_width [OF b])
      also have "\<dots> \<longleftrightarrow> int (unat ?a) \<le> 2 ^ (b - 1)" using npow [of "b - 1"] by linarith
      also have "\<dots> \<longleftrightarrow> int_fits b v" using ua neg pw
        by (auto simp: int_fits_def)
      finally show ?thesis .
    qed
  qed
qed

lemma push_int_at:
  assumes "solidity_width b"
  shows "at_width (push_int v m) b = at_width m b @ (if int_fits b v then [v] else [])"
  using int_min_bits_fits [OF assms]
  by (simp add: push_int_def at_width_fold distinct_widths_from)

definition push_both :: "u256 \<Rightarrow> width_map \<Rightarrow> width_map" where
  "push_both u m = (if unat u < 2 ^ 255 then push_int (- u) (push_int u m) else m)"

lemma push_signed_maps:
  "lp_uints (push_signed u p) = lp_uints p" "lp_ints (push_signed u p) = push_both u (lp_ints p)"
  by (simp_all add: push_signed_def push_both_def Let_def)

lemma push_both_at:
  assumes "solidity_width b"
  shows "at_width (push_both u m) b =
           at_width m b @ (if unat u < 2 ^ 255 then filter (int_fits b) [u, - u] else [])"
  using assms by (simp add: push_both_def push_int_at)

definition stored_widths :: "u256 \<Rightarrow> literal_pool \<Rightarrow> literal_pool \<Rightarrow> bool" where
  "stored_widths u p p' \<longleftrightarrow>
     (\<forall>b. solidity_width b \<longrightarrow>
        lp_uint p' b = lp_uint p b @ filter (uint_fits b) [u]
      \<and> lp_int p' b = lp_int p b @ (if unat u < 2 ^ 255 then filter (int_fits b) [u, - u] else []))"

lemma stored_widthsI:
  assumes "lp_uints p' = push_uint u (lp_uints p)" and "lp_ints p' = push_both u (lp_ints p)"
  shows "stored_widths u p p'"
  using assms push_uint_at push_both_at by (simp add: stored_widths_def lp_uint_def lp_int_def)

lemma extract_number_stored: "stored_widths u p (extract_number u p)"
  by (rule stored_widthsI) (simp_all add: extract_number_def Let_def push_signed_maps)

lemma extract_hex_stored:
  "stored_widths (be_u256 (replicate (32 - length bs) 0 @ bs)) p (extract_hex_bytes bs p)
   \<or> lp_uints (extract_hex_bytes bs p) = lp_uints p \<and> lp_ints (extract_hex_bytes bs p) = lp_ints p"
proof (cases "length bs \<le> 32")
  case True
  then show ?thesis
    by (intro disjI1 stored_widthsI) (simp_all add: extract_hex_bytes_def Let_def push_signed_maps)
next
  case False
  then show ?thesis by (simp add: extract_hex_bytes_def Let_def)
qed

text \<open>A pool whose integers fit the width they are stored at.\<close>

definition pool_fits :: "literal_pool \<Rightarrow> bool" where
  "pool_fits p \<longleftrightarrow>
     (\<forall>b. solidity_width b \<longrightarrow> list_all (uint_fits b) (lp_uint p b) \<and> list_all (int_fits b) (lp_int p b))"

lemma pool_fits_new: "pool_fits lp_new"
  by (simp add: pool_fits_def lp_new_def lp_uint_def lp_int_def at_width_def)

lemma pool_fits_stored: "pool_fits p \<Longrightarrow> stored_widths u p p' \<Longrightarrow> pool_fits p'"
  unfolding pool_fits_def stored_widths_def by (auto simp: list_all_iff)

lemma pool_fits_cong: "lp_uints p' = lp_uints p \<Longrightarrow> lp_ints p' = lp_ints p \<Longrightarrow> pool_fits p \<Longrightarrow> pool_fits p'"
  by (simp add: pool_fits_def lp_uint_def lp_int_def)

lemma extract_literal_fits:
  assumes "extract_literal N lit p = Some p'" and "pool_fits p"
  shows "pool_fits p'"
proof -
  have hex: "pool_fits (extract_hex_bytes bs p)" for bs
    using extract_hex_stored [of bs p] pool_fits_stored [OF assms(2)] pool_fits_cong [OF _ _ assms(2)]
    by blast
  have num: "pool_fits (extract_number u p)" for u
    using extract_number_stored pool_fits_stored [OF assms(2)] by blast
  have str: "pool_fits (p\<lparr>lp_strings := ss, lp_byte_strings := bs\<rparr>)" "pool_fits (p\<lparr>lp_bools := bb\<rparr>)"
    for ss bs bb by (rule pool_fits_cong [OF _ _ assms(2)]; simp)+
  show ?thesis
    using assms hex num str
    by (cases "al_kind lit") (auto simp: extract_literal_def split: option.splits)
qed

text \<open>Nothing is ever removed from a pool.\<close>

definition pool_grows :: "literal_pool \<Rightarrow> literal_pool \<Rightarrow> bool" where
  "pool_grows p p' \<longleftrightarrow>
     (\<forall>b. solidity_width b \<longrightarrow>
        set (lp_uint p b) \<subseteq> set (lp_uint p' b) \<and> set (lp_int p b) \<subseteq> set (lp_int p' b))"

lemma pool_grows_refl: "pool_grows p p"
  by (simp add: pool_grows_def)

lemma pool_grows_trans: "pool_grows p q \<Longrightarrow> pool_grows q r \<Longrightarrow> pool_grows p r"
  unfolding pool_grows_def by blast

lemma pool_grows_stored: "stored_widths u p p' \<Longrightarrow> pool_grows p p'"
  unfolding pool_grows_def stored_widths_def by auto

lemma pool_grows_cong: "lp_uints p' = lp_uints p \<Longrightarrow> lp_ints p' = lp_ints p \<Longrightarrow> pool_grows p p'"
  by (simp add: pool_grows_def lp_uint_def lp_int_def)

lemma extract_literal_grows:
  assumes "extract_literal N lit p = Some p'"
  shows "pool_grows p p'"
proof -
  have hex: "pool_grows p (extract_hex_bytes bs p)" for bs
    using extract_hex_stored [of bs p] pool_grows_stored pool_grows_cong by blast
  have num: "pool_grows p (extract_number u p)" for u
    using extract_number_stored by (rule pool_grows_stored)
  have str: "pool_grows p (p\<lparr>lp_strings := ss, lp_byte_strings := bs\<rparr>)" "pool_grows p (p\<lparr>lp_bools := bb\<rparr>)"
    for ss bs bb by (rule pool_grows_cong; simp)+
  show ?thesis
    using assms hex num str pool_grows_refl
    by (cases "al_kind lit") (auto simp: extract_literal_def split: option.splits)
qed

text \<open>A number is offered at every width that holds it, and so is its negation.\<close>

definition offered :: "u256 \<Rightarrow> literal_pool \<Rightarrow> bool" where
  "offered u p \<longleftrightarrow>
     (\<forall>b. solidity_width b \<longrightarrow>
        (uint_fits b u \<longrightarrow> u \<in> set (lp_uint p b))
      \<and> (unat u < 2 ^ 255 \<longrightarrow> (\<forall>v \<in> {u, - u}. int_fits b v \<longrightarrow> v \<in> set (lp_int p b))))"

lemma offered_grows: "offered u p \<Longrightarrow> pool_grows p p' \<Longrightarrow> offered u p'"
  unfolding offered_def pool_grows_def by blast

lemma stored_offered: "stored_widths u p p' \<Longrightarrow> offered u p'"
  unfolding offered_def stored_widths_def by auto

lemma extract_literal_offers:
  assumes "extract_literal N lit p = Some p'" and "al_kind lit = LNumber"
    and "parse_literal_number N lit = Some (Some u)"
  shows "offered u p'"
  using assms extract_number_stored stored_offered by (simp add: extract_literal_def) blast

lemma fold_extract_grows: "fold_opt (extract_literal N) lits p = Some p' \<Longrightarrow> pool_grows p p'"
  by (erule fold_opt_invariant [where I = "pool_grows p"])
    (auto intro: pool_grows_refl pool_grows_trans extract_literal_grows)

lemma fold_extract_fits: "fold_opt (extract_literal N) lits p = Some p' \<Longrightarrow> pool_fits p \<Longrightarrow> pool_fits p'"
  by (erule fold_opt_invariant [where I = pool_fits]) (auto intro: extract_literal_fits)

lemma fold_extract_offers:
  assumes "fold_opt (extract_literal N) lits p = Some p'" and "lit \<in> set lits"
    and "al_kind lit = LNumber" and "parse_literal_number N lit = Some (Some u)"
  shows "offered u p'"
proof -
  obtain xs ys where split: "lits = xs @ lit # ys" using assms(2) by (meson split_list)
  from assms(1) obtain q r where "extract_literal N lit q = Some r"
      and rest: "fold_opt (extract_literal N) ys r = Some p'"
    by (auto simp: split fold_opt_append split: option.splits)
  then have "offered u r" using assms(3,4) extract_literal_offers by blast
  then show ?thesis using fold_extract_grows [OF rest] by (rule offered_grows)
qed

end
