(* ===== verification/Literal_Visitor.thy ===== *)
theory Literal_Visitor
  imports Literals "HOL-Library.Monad_Syntax"
begin

section \<open>Collecting the literals of the sources\<close>

text \<open>
  The AST walk of \<open>src/src/tester/corpus/literal.rs\<close>. The AST is the one of the \<open>solc\<close> crate,
  with the constructors and the fields the walk looks at; every other constructor is the
  \<open>Other\<close> of its type. A walk threads the pool; \<open>None\<close> is the panic of \<open>extract_literal\<close>.
  \<open>literals_of\<close> lists the literals of a source in the order of the walk.
\<close>

datatype expression =
    E_Literal ast_literal
  | E_Assignment expression expression
  | E_Binary expression expression
  | E_Conditional expression expression expression
  | E_Call function_call
  | E_Index expression "expression option"
  | E_Index_Range expression "expression option"
  | E_Member expression
  | E_Tuple "expression option list"
  | E_Unary expression
  | E_Expr_Statement expression
  | E_Var_Statement "expression option"
  | E_Other
and function_call = Fn_Call (fc_callee: callee) (fc_arguments: "expression list")
and callee =
    C_Call function_call
  | C_Member expression
  | C_New
  | C_Options expression "expression list"
  | C_Other

datatype statement =
    S_Expression expression
  | S_Return "expression option"
  | S_If expression statement "statement option"
  | S_For "expression option" expression "expression option" statement
  | S_While expression statement
  | S_Do_While statement expression
  | S_Var_Declaration "expression option"
  | S_Block "statement list"
  | S_Unchecked "statement list"
  | S_Emit function_call
  | S_Other

datatype contract_node =
    CN_Function "statement list option"
  | CN_Variable "expression option"
  | CN_Other

datatype source_node =
    SN_Contract "contract_node list"
  | SN_Function "statement list option"
  | SN_Variable "expression option"
  | SN_Other

subsection \<open>The walk\<close>

fun visit_expression :: "num_parse \<Rightarrow> expression \<Rightarrow> literal_pool \<Rightarrow> literal_pool option"
and visit_expressions :: "num_parse \<Rightarrow> expression list \<Rightarrow> literal_pool \<Rightarrow> literal_pool option"
and visit_opt_expression :: "num_parse \<Rightarrow> expression option \<Rightarrow> literal_pool \<Rightarrow> literal_pool option"
and visit_components :: "num_parse \<Rightarrow> expression option list \<Rightarrow> literal_pool \<Rightarrow> literal_pool option"
and visit_function_call :: "num_parse \<Rightarrow> function_call \<Rightarrow> literal_pool \<Rightarrow> literal_pool option"
and visit_function_call_expression :: "num_parse \<Rightarrow> callee \<Rightarrow> literal_pool \<Rightarrow> literal_pool option"
where
  "visit_expression N (E_Literal lit) out = extract_literal N lit out"
| "visit_expression N (E_Assignment l r) out = visit_expression N l out \<bind> visit_expression N r"
| "visit_expression N (E_Binary l r) out = visit_expression N l out \<bind> visit_expression N r"
| "visit_expression N (E_Conditional c t f) out =
     visit_expression N c out \<bind> visit_expression N t \<bind> visit_expression N f"
| "visit_expression N (E_Call call) out = visit_function_call N call out"
| "visit_expression N (E_Index base index) out =
     visit_expression N base out \<bind> visit_opt_expression N index"
| "visit_expression N (E_Index_Range base start) out =
     visit_expression N base out \<bind> visit_opt_expression N start"
| "visit_expression N (E_Member e) out = visit_expression N e out"
| "visit_expression N (E_Tuple components) out = visit_components N components out"
| "visit_expression N (E_Unary e) out = visit_expression N e out"
| "visit_expression N (E_Expr_Statement e) out = visit_expression N e out"
| "visit_expression N (E_Var_Statement init) out = visit_opt_expression N init out"
| "visit_expression N E_Other out = Some out"
| "visit_expressions N [] out = Some out"
| "visit_expressions N (e # es) out = visit_expression N e out \<bind> visit_expressions N es"
| "visit_opt_expression N None out = Some out"
| "visit_opt_expression N (Some e) out = visit_expression N e out"
| "visit_components N [] out = Some out"
| "visit_components N (c # cs) out = visit_opt_expression N c out \<bind> visit_components N cs"
| "visit_function_call N (Fn_Call callee args) out =
     visit_function_call_expression N callee out \<bind> visit_expressions N args"
| "visit_function_call_expression N (C_Call call) out = visit_function_call N call out"
| "visit_function_call_expression N (C_Member e) out = visit_expression N e out"
| "visit_function_call_expression N C_New out = Some out"
| "visit_function_call_expression N (C_Options e opts) out =
     visit_expression N e out \<bind> visit_expressions N opts"
| "visit_function_call_expression N C_Other out = Some out"

fun visit_statement :: "num_parse \<Rightarrow> statement \<Rightarrow> literal_pool \<Rightarrow> literal_pool option"
and visit_block :: "num_parse \<Rightarrow> statement list \<Rightarrow> literal_pool \<Rightarrow> literal_pool option"
and visit_opt_statement :: "num_parse \<Rightarrow> statement option \<Rightarrow> literal_pool \<Rightarrow> literal_pool option"
where
  "visit_statement N (S_Expression e) out = visit_expression N e out"
| "visit_statement N (S_Return e) out = visit_opt_expression N e out"
| "visit_statement N (S_If c t f) out =
     visit_expression N c out \<bind> visit_statement N t \<bind> visit_opt_statement N f"
| "visit_statement N (S_For init c loop body) out =
     visit_opt_expression N init out \<bind> visit_expression N c \<bind> visit_opt_expression N loop
     \<bind> visit_statement N body"
| "visit_statement N (S_While c body) out = visit_expression N c out \<bind> visit_statement N body"
| "visit_statement N (S_Do_While body c) out = visit_statement N body out \<bind> visit_expression N c"
| "visit_statement N (S_Var_Declaration init) out = visit_opt_expression N init out"
| "visit_statement N (S_Block stmts) out = visit_block N stmts out"
| "visit_statement N (S_Unchecked stmts) out = visit_block N stmts out"
| "visit_statement N (S_Emit call) out = visit_function_call N call out"
| "visit_statement N S_Other out = Some out"
| "visit_block N [] out = Some out"
| "visit_block N (s # ss) out = visit_statement N s out \<bind> visit_block N ss"
| "visit_opt_statement N None out = Some out"
| "visit_opt_statement N (Some s) out = visit_statement N s out"

definition visit_body :: "num_parse \<Rightarrow> statement list option \<Rightarrow> literal_pool \<Rightarrow> literal_pool option" where
  "visit_body N body out = (case body of None \<Rightarrow> Some out | Some stmts \<Rightarrow> visit_block N stmts out)"

definition visit_contract_node :: "num_parse \<Rightarrow> contract_node \<Rightarrow> literal_pool \<Rightarrow> literal_pool option" where
  "visit_contract_node N node out =
     (case node of
        CN_Function body \<Rightarrow> visit_body N body out
      | CN_Variable v \<Rightarrow> visit_opt_expression N v out
      | CN_Other \<Rightarrow> Some out)"

definition visit_contract_definition ::
  "num_parse \<Rightarrow> contract_node list \<Rightarrow> literal_pool \<Rightarrow> literal_pool option" where
  "visit_contract_definition N nodes out = fold_opt (visit_contract_node N) nodes out"

definition visit_source_node :: "num_parse \<Rightarrow> source_node \<Rightarrow> literal_pool \<Rightarrow> literal_pool option" where
  "visit_source_node N node out =
     (case node of
        SN_Contract nodes \<Rightarrow> visit_contract_definition N nodes out
      | SN_Function body \<Rightarrow> visit_body N body out
      | SN_Variable v \<Rightarrow> visit_opt_expression N v out
      | SN_Other \<Rightarrow> Some out)"

definition visit_source_unit :: "num_parse \<Rightarrow> source_node list \<Rightarrow> literal_pool \<Rightarrow> literal_pool option" where
  "visit_source_unit N nodes out = fold_opt (visit_source_node N) nodes out"

text \<open>The sources of the output in their iteration order; \<open>None\<close>: a source without AST.\<close>

definition from_output :: "num_parse \<Rightarrow> source_node list option list \<Rightarrow> literal_pool option" where
  "from_output N sources =
     fold_opt (\<lambda>ast out. case ast of None \<Rightarrow> Some out | Some nodes \<Rightarrow> visit_source_unit N nodes out)
       sources lp_new"

subsection \<open>The literals of a source\<close>

fun expr_literals :: "expression \<Rightarrow> ast_literal list"
and opt_literals :: "expression option \<Rightarrow> ast_literal list"
and call_literals :: "function_call \<Rightarrow> ast_literal list"
and callee_literals :: "callee \<Rightarrow> ast_literal list"
where
  "expr_literals (E_Literal lit) = [lit]"
| "expr_literals (E_Assignment l r) = expr_literals l @ expr_literals r"
| "expr_literals (E_Binary l r) = expr_literals l @ expr_literals r"
| "expr_literals (E_Conditional c t f) = expr_literals c @ expr_literals t @ expr_literals f"
| "expr_literals (E_Call call) = call_literals call"
| "expr_literals (E_Index base index) = expr_literals base @ opt_literals index"
| "expr_literals (E_Index_Range base start) = expr_literals base @ opt_literals start"
| "expr_literals (E_Member e) = expr_literals e"
| "expr_literals (E_Tuple cs) = concat (map opt_literals cs)"
| "expr_literals (E_Unary e) = expr_literals e"
| "expr_literals (E_Expr_Statement e) = expr_literals e"
| "expr_literals (E_Var_Statement init) = opt_literals init"
| "expr_literals E_Other = []"
| "opt_literals None = []"
| "opt_literals (Some e) = expr_literals e"
| "call_literals (Fn_Call callee args) = callee_literals callee @ concat (map expr_literals args)"
| "callee_literals (C_Call call) = call_literals call"
| "callee_literals (C_Member e) = expr_literals e"
| "callee_literals C_New = []"
| "callee_literals (C_Options e opts) = expr_literals e @ concat (map expr_literals opts)"
| "callee_literals C_Other = []"

fun statement_literals :: "statement \<Rightarrow> ast_literal list"
and opt_statement_literals :: "statement option \<Rightarrow> ast_literal list"
where
  "statement_literals (S_Expression e) = expr_literals e"
| "statement_literals (S_Return e) = opt_literals e"
| "statement_literals (S_If c t f) =
     expr_literals c @ statement_literals t @ opt_statement_literals f"
| "statement_literals (S_For init c loop body) =
     opt_literals init @ expr_literals c @ opt_literals loop @ statement_literals body"
| "statement_literals (S_While c body) = expr_literals c @ statement_literals body"
| "statement_literals (S_Do_While body c) = statement_literals body @ expr_literals c"
| "statement_literals (S_Var_Declaration init) = opt_literals init"
| "statement_literals (S_Block ss) = concat (map statement_literals ss)"
| "statement_literals (S_Unchecked ss) = concat (map statement_literals ss)"
| "statement_literals (S_Emit call) = call_literals call"
| "statement_literals S_Other = []"
| "opt_statement_literals None = []"
| "opt_statement_literals (Some s) = statement_literals s"

definition body_literals :: "statement list option \<Rightarrow> ast_literal list" where
  "body_literals body = (case body of None \<Rightarrow> [] | Some ss \<Rightarrow> concat (map statement_literals ss))"

definition contract_node_literals :: "contract_node \<Rightarrow> ast_literal list" where
  "contract_node_literals node =
     (case node of CN_Function body \<Rightarrow> body_literals body | CN_Variable v \<Rightarrow> opt_literals v
                 | CN_Other \<Rightarrow> [])"

definition source_node_literals :: "source_node \<Rightarrow> ast_literal list" where
  "source_node_literals node =
     (case node of SN_Contract nodes \<Rightarrow> concat (map contract_node_literals nodes)
                 | SN_Function body \<Rightarrow> body_literals body | SN_Variable v \<Rightarrow> opt_literals v
                 | SN_Other \<Rightarrow> [])"

definition output_literals :: "source_node list option list \<Rightarrow> ast_literal list" where
  "output_literals sources =
     concat (map (\<lambda>ast. case ast of None \<Rightarrow> [] | Some nodes \<Rightarrow> concat (map source_node_literals nodes))
                 sources)"

subsection \<open>The walk extracts exactly those\<close>

abbreviation extract_seq :: "num_parse \<Rightarrow> ast_literal list \<Rightarrow> literal_pool \<Rightarrow> literal_pool option" where
  "extract_seq N \<equiv> fold_opt (extract_literal N)"

lemma extract_seq_append: "extract_seq N (xs @ ys) out = extract_seq N xs out \<bind> extract_seq N ys"
  by (simp add: fold_opt_append Option.bind_def split: option.splits)

lemma extract_seq_one: "(case m of None \<Rightarrow> None | Some x \<Rightarrow> extract_seq N [] x) = m"
  by (simp split: option.split)

lemma visit_expression_seq:
  "visit_expression N e out = extract_seq N (expr_literals e) out"
  "visit_expressions N es out = extract_seq N (concat (map expr_literals es)) out"
  "visit_opt_expression N oe out = extract_seq N (opt_literals oe) out"
  "visit_components N cs out = extract_seq N (concat (map opt_literals cs)) out"
  "visit_function_call N call out = extract_seq N (call_literals call) out"
  "visit_function_call_expression N callee out = extract_seq N (callee_literals callee) out"
  by (induction N e out and N es out and N oe out and N cs out and N call out and N callee out
      rule: visit_expression_visit_expressions_visit_opt_expression_visit_components_visit_function_call_visit_function_call_expression.induct)
    (simp_all add: extract_seq_append Option.bind_assoc extract_seq_one cong: Option.bind_cong)

lemma visit_statement_seq:
  "visit_statement N s out = extract_seq N (statement_literals s) out"
  "visit_block N ss out = extract_seq N (concat (map statement_literals ss)) out"
  "visit_opt_statement N os out = extract_seq N (opt_statement_literals os) out"
  by (induction N s out and N ss out and N os out
      rule: visit_statement_visit_block_visit_opt_statement.induct)
    (simp_all add: extract_seq_append visit_expression_seq Option.bind_assoc cong: Option.bind_cong)

lemma visit_body_seq: "visit_body N body out = extract_seq N (body_literals body) out"
  by (simp add: visit_body_def body_literals_def visit_statement_seq split: option.split)

lemma fold_seq:
  assumes "\<And>x out. x \<in> set xs \<Longrightarrow> f x out = extract_seq N (g x) out"
  shows "fold_opt f xs out = extract_seq N (concat (map g xs)) out"
  using assms
proof (induction xs arbitrary: out)
  case (Cons x xs)
  then show ?case by (simp add: extract_seq_append Option.bind_def split: option.split)
qed simp

lemma visit_contract_seq:
  "visit_contract_definition N nodes out = extract_seq N (concat (map contract_node_literals nodes)) out"
  unfolding visit_contract_definition_def
  by (rule fold_seq) (simp add: visit_contract_node_def contract_node_literals_def visit_body_seq
      visit_expression_seq split: contract_node.split)

lemma visit_source_seq:
  "visit_source_unit N nodes out = extract_seq N (concat (map source_node_literals nodes)) out"
  unfolding visit_source_unit_def
  by (rule fold_seq) (simp add: visit_source_node_def source_node_literals_def visit_body_seq
      visit_expression_seq visit_contract_seq split: source_node.split)

lemma from_output_seq: "from_output N sources = extract_seq N (output_literals sources) lp_new"
  unfolding from_output_def output_literals_def
  by (rule fold_seq) (simp add: visit_source_seq split: option.split)

text \<open>
  Every number the harness mentions is offered to the generator. When the literals of the
  sources are collected, every integer in the pool fits the width it is stored at, and every
  number literal anywhere in the walked syntax is in the pool at every Solidity width that
  holds it, unsigned, and if it is at most the signed maximum both itself and its negation
  signed.
\<close>

theorem numbers_offered_where_they_fit:
  assumes "from_output N sources = Some p"
  shows "pool_fits p
     \<and> (\<forall>lit u. lit \<in> set (output_literals sources) \<longrightarrow> al_kind lit = LNumber \<longrightarrow>
          parse_literal_number N lit = Some (Some u) \<longrightarrow> offered u p)"
  using assms fold_extract_fits [OF _ pool_fits_new] fold_extract_offers
  unfolding from_output_seq by blast

text \<open>A contract whose function returns a literal, inside a conditional expression.\<close>

definition demo_num_parse :: num_parse where
  "demo_num_parse =
     \<lparr>np_parse = (\<lambda>s. Some (of_nat (length s))), np_radix = (\<lambda>r s. Some (of_nat (length s))),
      np_u64 = (\<lambda>s. None), np_hex_bytes = (\<lambda>s. None), np_utf8 = (\<lambda>s. []), np_trim = id\<rparr>"

definition demo_literal :: ast_literal where
  "demo_literal =
     \<lparr>al_kind = LNumber, al_value = Some ''111'', al_hex_value = None, al_subdenomination = None\<rparr>"

definition demo_sources :: "source_node list option list" where
  "demo_sources =
     [Some [SN_Contract [CN_Function (Some
        [S_Return (Some (E_Conditional E_Other (E_Literal demo_literal) E_Other))])]]]"

theorem numbers_offered_where_they_fit_witness:
  "\<exists>p. from_output demo_num_parse demo_sources = Some p \<and> pool_fits p \<and> offered 3 p"
proof -
  have lits: "output_literals demo_sources = [demo_literal]"
    by (simp add: demo_sources_def output_literals_def source_node_literals_def
        contract_node_literals_def body_literals_def)
  have parse: "parse_literal_number demo_num_parse demo_literal = Some (Some 3)"
    by (simp add: parse_literal_number_def demo_literal_def or_else_def parse_number_literal_def
        demo_num_parse_def Let_def starts_with_def)
  have "from_output demo_num_parse demo_sources =
      Some (extract_number 3 lp_new)"
    by (simp add: from_output_seq lits extract_literal_def demo_literal_def parse [unfolded demo_literal_def])
  with numbers_offered_where_they_fit [OF this] lits parse show ?thesis
    by (auto simp: demo_literal_def)
qed

end
