(* ===== verification/Rng_Monad.thy ===== *)
theory Rng_Monad
  imports Prelude "HOL-Library.State_Monad"
begin

section \<open>Drawing from the generator\<close>

text \<open>
  The draws of \<open>Prelude\<close> in the state monad of the library, whose state is the generator.
  \<open>pred_state P m\<close> says that every result of \<open>m\<close>, from every state of the generator,
  satisfies \<open>P\<close>; the rules of the collection \<open>draws\<close> prove it.
\<close>

named_theorems draws \<open>postconditions of draws\<close>

definition draw :: "'r rng_ops \<Rightarrow> nat \<Rightarrow> nat \<Rightarrow> ('r, nat) state" where
  "draw R lo hi = State (rng_range R lo hi)"

definition draw_bool :: "'r rng_ops \<Rightarrow> ('r, bool) state" where
  "draw_bool R = State (rng_bool R)"

definition draw_bytes :: "'r rng_ops \<Rightarrow> nat \<Rightarrow> ('r, bytes) state" where
  "draw_bytes R n = State (rng_fill R n)"

definition draw_alphabetic :: "'r rng_ops \<Rightarrow> ('r, char) state" where
  "draw_alphabetic R = State (rng_alphabetic R)"

definition draw_alphanumeric :: "'r rng_ops \<Rightarrow> ('r, char) state" where
  "draw_alphanumeric R = State (rng_alphanumeric R)"

text \<open>\<open>(0..n).map(..).collect()\<close> over a draw.\<close>

fun draw_times :: "nat \<Rightarrow> ('r, 'a) state \<Rightarrow> ('r, 'a list) state" where
  "draw_times 0 m = State_Monad.return []"
| "draw_times (Suc n) m = do { x \<leftarrow> m; xs \<leftarrow> draw_times n m; State_Monad.return (x # xs) }"

fun draw_each :: "('r, 'a) state list \<Rightarrow> ('r, 'a list) state" where
  "draw_each [] = State_Monad.return []"
| "draw_each (m # ms) = do { x \<leftarrow> m; xs \<leftarrow> draw_each ms; State_Monad.return (x # xs) }"

text \<open>\<open>items[rng.usize(0..items.len())]\<close> of a non-empty slice; \<open>None\<close> of an empty one.\<close>

definition pick :: "'r rng_ops \<Rightarrow> 'a list \<Rightarrow> ('r, 'a option) state" where
  "pick R items =
     (if items = [] then State_Monad.return None
      else do { i \<leftarrow> draw R 0 (length items); State_Monad.return (Some (items ! i)) })"

lemma pred_return [draws]: "P x \<Longrightarrow> pred_state P (State_Monad.return x)"
  by (rule pred_stateI) simp

lemma pred_bind:
  "pred_state Q m \<Longrightarrow> (\<And>x. Q x \<Longrightarrow> pred_state P (f x)) \<Longrightarrow> pred_state P (State_Monad.bind m f)"
  by (rule bind_predI) (auto simp: state.pred_set)

lemma pred_bind_any [draws]: "(\<And>x. pred_state P (f x)) \<Longrightarrow> pred_state P (State_Monad.bind m f)"
  by (rule pred_bind [where Q = "\<lambda>_. True"]) (auto simp: state.pred_set)

lemma pred_draw: "rng_ok R \<Longrightarrow> lo < hi \<Longrightarrow> pred_state (\<lambda>x. lo \<le> x \<and> x < hi) (draw R lo hi)"
  by (rule pred_stateI) (simp add: draw_def rng_okD)

lemma pred_draw_bytes: "rng_ok R \<Longrightarrow> pred_state (\<lambda>bs. length bs = n) (draw_bytes R n)"
  by (rule pred_stateI) (simp add: draw_bytes_def rng_ok_fill)

lemma pred_draw_times:
  "pred_state P m \<Longrightarrow> pred_state (\<lambda>xs. length xs = n \<and> list_all P xs) (draw_times n m)"
proof (induction n)
  case (Suc n)
  show ?case
    unfolding draw_times.simps
    by (rule pred_bind [OF Suc.prems], rule pred_bind [OF Suc.IH [OF Suc.prems]], rule pred_return) simp
qed (simp add: pred_return)

lemma pred_draw_each:
  "list_all2 (\<lambda>P m. pred_state P m) Ps ms \<Longrightarrow>
   pred_state (\<lambda>xs. list_all2 (\<lambda>P x. P x) Ps xs) (draw_each ms)"
proof (induction Ps ms rule: list_all2_induct)
  case (Cons P Ps m ms)
  show ?case
    unfolding draw_each.simps
    by (rule pred_bind [OF Cons.hyps(1)], rule pred_bind [OF Cons.IH], rule pred_return) simp
qed (simp add: pred_return)

lemma pred_pick:
  assumes "rng_ok R"
  shows "pred_state (\<lambda>x. case x of None \<Rightarrow> items = [] | Some v \<Rightarrow> v \<in> set items) (pick R items)"
proof (cases "items = []")
  case False
  then show ?thesis
    unfolding pick_def by (simp, intro pred_bind [OF pred_draw [OF assms]] pred_return) simp_all
qed (simp add: pick_def pred_return)

end
