(* ===== verification/Value_Gen.thy ===== *)
theory Value_Gen
  imports Rng_Monad Literals Call_Codec
begin

unbundle bit_operations_syntax

section \<open>Random values of the test mode\<close>

text \<open>
  \<open>src/src/tester/corpus/rvg.rs\<close> and the random constructors of \<open>call.rs\<close> and \<open>sequence.rs\<close>
  beside it. A draw is a \<open>State_Monad\<close> computation over the generator. Widths and sizes are
  those of resolved ABI types (\<open>wf_type\<close>). The postconditions say that what is generated
  always fits its type.
\<close>

subsection \<open>Bit patterns\<close>

definition max_for_bits :: "nat \<Rightarrow> u256" where
  "max_for_bits bits =
     (if bits = 0 then 0 else if 256 \<le> bits then - 1 else push_bit bits 1 - 1)"

definition max_positive_for_bits :: "nat \<Rightarrow> u256" where
  "max_positive_for_bits bits =
     (if bits = 0 then 0 else if 256 \<le> bits then push_bit 255 1 - 1 else push_bit (bits - 1) 1 - 1)"

definition sign_bit :: "nat \<Rightarrow> u256" where
  "sign_bit bits =
     (if bits = 0 then 0 else if 256 \<le> bits then push_bit 255 1 else push_bit (bits - 1) 1)"

definition low_mask :: "nat \<Rightarrow> u256" where
  "low_mask bits = (if bits = 0 then 0 else if 256 \<le> bits then - 1 else push_bit bits 1 - 1)"

definition sign_extend :: "u256 \<Rightarrow> nat \<Rightarrow> u256" where
  "sign_extend raw bits =
     (if bits = 0 then 0
      else
        let m = low_mask bits; v = raw AND m in
        if 256 \<le> bits then v
        else
          let sb = sign_bit bits in
          if v AND sb = 0 then v else v OR (- 1 XOR m))"

subsection \<open>One value\<close>

definition rvg_uint :: "'r rng_ops \<Rightarrow> literal_pool \<Rightarrow> nat \<Rightarrow> ('r, u256) state" where
  "rvg_uint R L bits =
     (let mx = max_for_bits bits;
          uniform = do {
            bytes \<leftarrow> draw_bytes R 32;
            let raw = be_u256 bytes;
            State_Monad.return (if bits = 256 then raw else raw AND mx)
          }
      in do {
        roll \<leftarrow> draw R 0 100;
        if roll < 20 then do {
          lit \<leftarrow> pick R (lp_uint L bits);
          case lit of
            Some val \<Rightarrow> if val \<le> mx then State_Monad.return val else uniform
          | None \<Rightarrow> uniform
        }
        else if roll < 50 then do {
          k \<leftarrow> draw R 0 6;
          State_Monad.return
            (if k = 0 then 0 else if k = 1 then 1 else if k = 2 then mx
             else if k = 3 then sat_sub mx 1 else if k = 4 then sat_sub mx 2 else sat_sub mx 3)
        }
        else uniform
      })"

definition rvg_int :: "'r rng_ops \<Rightarrow> literal_pool \<Rightarrow> nat \<Rightarrow> ('r, u256) state" where
  "rvg_int R L bits =
     (let mn = sign_extend (sign_bit bits) bits;
          max_positive = max_positive_for_bits bits;
          uniform = do {
            bytes \<leftarrow> draw_bytes R 32;
            State_Monad.return (sign_extend (be_u256 bytes) bits)
          }
      in do {
        roll \<leftarrow> draw R 0 100;
        if roll < 20 then do {
          lit \<leftarrow> pick R (lp_int L bits);
          case lit of
            Some val \<Rightarrow>
              if sint mn \<le> sint val \<and> sint val \<le> sint max_positive
              then State_Monad.return val else uniform
          | None \<Rightarrow> uniform
        }
        else if roll < 50 then do {
          k \<leftarrow> draw R 0 7;
          let raw =
            (if k = 0 then sign_bit bits
             else if k = 1 then sign_bit bits + 1
             else if k = 2 then low_mask bits
             else if k = 3 then 0
             else if k = 4 then 1
             else if k = 5 then max_positive_for_bits bits - 1
             else max_positive_for_bits bits);
          State_Monad.return (sign_extend raw bits)
        }
        else uniform
      })"

definition edge_word :: "nat \<Rightarrow> nat \<Rightarrow> nat \<Rightarrow> bytes" where
  "edge_word width n k =
     (let zero = replicate width 0; filled = replicate n 0xFF @ replicate (width - n) 0 in
      if k = 0 then zero
      else if k = 1 then zero[0 := 1]
      else if k = 2 then filled
      else if k = 3 then filled[n - 1 := 0xFE]
      else if k = 4 then filled[n - 1 := 0xFD]
      else filled[n - 1 := 0xFC])"

definition rvg_fixed_bytes :: "'r rng_ops \<Rightarrow> literal_pool \<Rightarrow> nat \<Rightarrow> ('r, bytes) state" where
  "rvg_fixed_bytes R L n =
     do {
       roll \<leftarrow> draw R 0 100;
       if roll < 20 then do {
         lit \<leftarrow> pick R (lp_fixed_bytes L n);
         case lit of
           Some val \<Rightarrow> State_Monad.return (be_bytes 32 (push_bit (256 - 8 * n) val))
         | None \<Rightarrow> draw_bytes R 32
       }
       else if roll < 50 then do {
         k \<leftarrow> draw R 0 6;
         State_Monad.return (edge_word 32 n k)
       }
       else draw_bytes R 32
     }"

definition rvg_address :: "'r rng_ops \<Rightarrow> literal_pool \<Rightarrow> ('r, address) state" where
  "rvg_address R L =
     (let uniform = do {
            bytes \<leftarrow> draw_bytes R 20;
            State_Monad.return (ucast (be_u256 bytes))
          }
      in do {
        roll \<leftarrow> draw R 0 100;
        if roll < 20 then do {
          lit \<leftarrow> pick R (lp_addresses L);
          case lit of Some val \<Rightarrow> State_Monad.return val | None \<Rightarrow> uniform
        }
        else if roll < 50 then do {
          k \<leftarrow> draw R 0 6;
          State_Monad.return (ucast (be_u256 (edge_word 20 20 k)))
        }
        else uniform
      })"

definition edge_bytes :: "nat \<Rightarrow> bytes" where
  "edge_bytes k =
     (if k = 0 then [] else if k = 1 then [0x01] else if k = 2 then [0xFF]
      else if k = 3 then replicate 32 0xFF else if k = 4 then replicate 63 0xFF
      else replicate 64 0xFF)"

definition rvg_bytes :: "'r rng_ops \<Rightarrow> literal_pool \<Rightarrow> ('r, bytes) state" where
  "rvg_bytes R L =
     (let uniform = do { n \<leftarrow> draw R 0 65; draw_bytes R n } in do {
        roll \<leftarrow> draw R 0 100;
        if roll < 20 then do {
          lit \<leftarrow> pick R (lp_byte_strings L);
          case lit of Some val \<Rightarrow> State_Monad.return val | None \<Rightarrow> uniform
        }
        else if roll < 50 then do { k \<leftarrow> draw R 0 6; State_Monad.return (edge_bytes k) }
        else uniform
      })"

definition edge_string :: "nat \<Rightarrow> string" where
  "edge_string k =
     (if k = 0 then '''' else if k = 1 then ''a'' else if k = 2 then replicate 32 CHR '' ''
      else if k = 3 then replicate 32 (char_of (0 :: nat)) else if k = 4 then replicate 32 CHR ''a''
      else replicate 31 CHR ''a'')"

definition rvg_string :: "'r rng_ops \<Rightarrow> literal_pool \<Rightarrow> ('r, string) state" where
  "rvg_string R L =
     (let uniform = do { n \<leftarrow> draw R 0 33; draw_times n (draw_alphabetic R) } in do {
        roll \<leftarrow> draw R 0 100;
        if roll < 20 then do {
          lit \<leftarrow> pick R (lp_strings L);
          case lit of Some val \<Rightarrow> State_Monad.return val | None \<Rightarrow> uniform
        }
        else if roll < 50 then do { k \<leftarrow> draw R 0 6; State_Monad.return (edge_string k) }
        else uniform
      })"

primrec rvg_value :: "'r rng_ops \<Rightarrow> literal_pool \<Rightarrow> sol_type \<Rightarrow> ('r, sol_value) state" where
  "rvg_value R L TBool = do { b \<leftarrow> draw_bool R; State_Monad.return (VBool b) }"
| "rvg_value R L (TUint bits) = do { v \<leftarrow> rvg_uint R L bits; State_Monad.return (VUint v bits) }"
| "rvg_value R L (TInt bits) = do { v \<leftarrow> rvg_int R L bits; State_Monad.return (VInt v bits) }"
| "rvg_value R L (TFixedBytes n) =
     do { w \<leftarrow> rvg_fixed_bytes R L n; State_Monad.return (VFixedBytes w n) }"
| "rvg_value R L TAddress = do { a \<leftarrow> rvg_address R L; State_Monad.return (VAddress a) }"
| "rvg_value R L TBytes = do { bs \<leftarrow> rvg_bytes R L; State_Monad.return (VBytes bs) }"
| "rvg_value R L TString = do { s \<leftarrow> rvg_string R L; State_Monad.return (VString s) }"
| "rvg_value R L TFunction = do { bs \<leftarrow> draw_bytes R 24; State_Monad.return (VFunction bs) }"
| "rvg_value R L (TArray inner) =
     do {
       n \<leftarrow> draw R 0 5;
       vs \<leftarrow> draw_times n (rvg_value R L inner);
       State_Monad.return (VArray vs)
     }"
| "rvg_value R L (TFixedArray inner n) =
     do { vs \<leftarrow> draw_times n (rvg_value R L inner); State_Monad.return (VFixedArray vs) }"
| "rvg_value R L (TTuple types) =
     do { vs \<leftarrow> draw_each (map (rvg_value R L) types); State_Monad.return (VTuple vs) }"

subsection \<open>Calls and sequences\<close>

datatype gen_error = Unresolved_Type | Unsupported_Function | No_Handlers

fun t_random_inputs ::
  "'r rng_ops \<Rightarrow> literal_pool \<Rightarrow> sol_type option list \<Rightarrow> ('r, gen_error + sol_value list) state" where
  "t_random_inputs R L [] = State_Monad.return (Inr [])"
| "t_random_inputs R L (None # inputs) = State_Monad.return (Inl Unresolved_Type)"
| "t_random_inputs R L (Some ty # inputs) =
     do {
       v \<leftarrow> rvg_value R L ty;
       rest \<leftarrow> t_random_inputs R L inputs;
       State_Monad.return (map_sum id (Cons v) rest)
     }"

definition t_call_random ::
  "'r rng_ops \<Rightarrow> literal_pool \<Rightarrow> abi_fn \<Rightarrow> ('r, gen_error + call) state" where
  "t_call_random R L f =
     do {
       inputs \<leftarrow> t_random_inputs R L (fn_inputs f);
       State_Monad.return (map_sum id (\<lambda>vs. \<lparr>call_fn = f, call_args = VTuple vs\<rparr>) inputs)
     }"

fun t_random_calls ::
  "'r rng_ops \<Rightarrow> literal_pool \<Rightarrow> abi_fn list \<Rightarrow> nat \<Rightarrow> ('r, gen_error + seq_calls) state" where
  "t_random_calls R L handlers 0 = State_Monad.return (Inr [])"
| "t_random_calls R L handlers (Suc n) =
     do {
       i \<leftarrow> draw R 0 (length handlers);
       c \<leftarrow> t_call_random R L (handlers ! i);
       case c of
         Inl e \<Rightarrow> State_Monad.return (Inl e)
       | Inr call \<Rightarrow> do {
           rest \<leftarrow> t_random_calls R L handlers n;
           State_Monad.return (map_sum id (Cons call) rest)
         }
     }"

definition t_sequence_random ::
  "'r rng_ops \<Rightarrow> literal_pool \<Rightarrow> abi_fn list \<Rightarrow> nat \<Rightarrow> ('r, gen_error + seq_calls) state" where
  "t_sequence_random R L handlers max_calls =
     (if handlers = [] then State_Monad.return (Inl No_Handlers)
      else do {
        n \<leftarrow> draw R 1 (max max_calls 1 + 1);
        t_random_calls R L handlers n
      })"

subsection \<open>Generated integers are in range\<close>

lemma mask_256: "mask 256 = (- 1 :: u256)"
  by (rule bit_word_eqI) (simp add: bit_simps)

lemma low_mask_eq: "0 < bits \<Longrightarrow> bits \<le> 256 \<Longrightarrow> low_mask bits = mask bits"
  by (cases "bits = 256")
    (auto simp: low_mask_def mask_eq_exp_minus_1 push_bit_of_1 mask_256 simp flip: mask_eq_exp_minus_1)

lemma max_for_bits_eq: "0 < bits \<Longrightarrow> bits \<le> 256 \<Longrightarrow> max_for_bits bits = mask bits"
  using low_mask_eq [of bits] by (simp add: max_for_bits_def low_mask_def)

lemma uint_fits_take_bit: "uint_fits bits (take_bit bits (w :: u256))"
  by (simp add: uint_fits_def unsigned_take_bit_eq take_bit_nat_less_exp)

lemma uint_fits_mask: "uint_fits bits (mask bits :: u256)"
  using uint_fits_take_bit [of bits "- 1"] by (simp add: take_bit_minus_one_eq_mask)

lemma uint_fits_le: "uint_fits bits w \<Longrightarrow> v \<le> w \<Longrightarrow> uint_fits bits v"
  by (simp add: uint_fits_def word_le_nat_alt)

lemma unat_mask_u256: "n \<le> 256 \<Longrightarrow> unat (mask n :: u256) = 2 ^ n - 1"
proof -
  assume "n \<le> 256"
  then have "uint (mask n :: u256) = int (2 ^ n - 1)"
    unfolding uint_mask_eq by (simp add: mask_eq_exp_minus_1 of_nat_diff)
  then show ?thesis by (simp only: unat_eq_nat_uint nat_int)
qed

lemma uint_fits_le_mask: "bits \<le> 256 \<Longrightarrow> uint_fits bits v \<Longrightarrow> unat v \<le> unat (mask bits :: u256)"
  by (simp add: uint_fits_def unat_mask_u256)

lemma sign_extend_eq:
  assumes "0 < bits" and "bits \<le> 256"
  shows "sign_extend raw bits = signed_take_bit (bits - 1) raw"
proof (cases "bits = 256")
  case True
  have "signed_take_bit 255 raw = raw"
  proof (rule bit_word_eqI)
    fix n
    assume "n < LENGTH(256)"
    then have "min 255 n = n" "n < 256" by simp_all
    then show "bit (signed_take_bit 255 raw) n \<longleftrightarrow> bit raw n" by (simp add: bit_signed_take_bit_iff)
  qed
  with True show ?thesis by (simp add: sign_extend_def Let_def low_mask_def)
next
  case False
  then obtain n where n: "bits = Suc n" "n < 255" using assms by (cases bits) auto
  have m: "low_mask bits = mask (Suc n)" using low_mask_eq [OF assms] n by simp
  have sb: "sign_bit bits = 2 ^ n" using n by (simp add: sign_bit_def push_bit_of_1)
  have test: "(raw AND mask (Suc n)) AND 2 ^ n = 0 \<longleftrightarrow> \<not> bit raw n"
  proof
    assume eq: "(raw AND mask (Suc n)) AND 2 ^ n = 0"
    have "bit ((raw AND mask (Suc n)) AND 2 ^ n) n \<longleftrightarrow> bit raw n"
      using n by (auto simp: bit_simps)
    with eq show "\<not> bit raw n" by simp
  next
    assume "\<not> bit raw n"
    then show "(raw AND mask (Suc n)) AND 2 ^ n = 0"
      by (intro bit_word_eqI) (auto simp: bit_simps)
  qed
  have "sign_extend raw bits =
      (if \<not> bit raw n then raw AND mask (Suc n) else raw AND mask (Suc n) OR (- 1 XOR mask (Suc n)))"
    unfolding sign_extend_def Let_def m sb test using n by simp
  also have "\<dots> = signed_take_bit n raw"
    using n by (intro bit_word_eqI) (auto simp: bit_simps min_def less_Suc_eq_le)
  finally show ?thesis using n by simp
qed

lemma sint_signed_take_bit:
  assumes "n < 256"
  shows "sint (signed_take_bit n (w :: u256)) = signed_take_bit n (sint w)"
  by (rule bit_eqI) (use assms in \<open>auto simp: bit_sint_iff bit_signed_take_bit_iff min_def\<close>)

lemma sign_extend_fits:
  assumes "0 < bits" and "bits \<le> 256"
  shows "int_fits bits (sign_extend raw bits)"
proof -
  have "sint (sign_extend raw bits) = signed_take_bit (bits - 1) (sint raw)"
    using assms by (simp add: sign_extend_eq sint_signed_take_bit)
  then show ?thesis
    using signed_take_bit_int_greater_eq_minus_exp [of "bits - 1" "sint raw"]
      signed_take_bit_int_less_exp [of "bits - 1" "sint raw"]
    by (simp add: int_fits_def)
qed

lemma rvg_uint_fits:
  assumes "rng_ok R" and b: "0 < bits" "bits \<le> 256"
  shows "pred_state (uint_fits bits) (rvg_uint R L bits)"
proof -
  have mx: "uint_fits bits (max_for_bits bits)"
    using b by (simp add: max_for_bits_eq uint_fits_mask)
  have lit: "v \<le> max_for_bits bits \<Longrightarrow> uint_fits bits v" for v
    using mx by (rule uint_fits_le)
  have one: "uint_fits bits 0" "uint_fits bits 1"
    using b one_less_power [of "2 :: nat" bits] by (simp_all add: uint_fits_def)
  have sat: "uint_fits bits (sat_sub (max_for_bits bits) v)" for v
    using mx unat_sat_sub [of "max_for_bits bits" v] by (simp add: uint_fits_def)
  have uni: "pred_state (uint_fits bits)
      (draw_bytes R 32 \<bind> (\<lambda>bytes. State_Monad.return
         (if bits = 256 then be_u256 bytes else be_u256 bytes AND max_for_bits bits)))"
  proof (intro pred_bind_any pred_return)
    fix bytes
    have "be_u256 bytes AND max_for_bits bits = take_bit bits (be_u256 bytes)"
      using b by (simp add: max_for_bits_eq take_bit_eq_mask)
    then show "uint_fits bits (if bits = 256 then be_u256 bytes else be_u256 bytes AND max_for_bits bits)"
      using uint_fits_take_bit [of bits "be_u256 bytes"] unat_u256_less [of "be_u256 bytes"]
      by (simp add: uint_fits_def)
  qed
  show ?thesis
    unfolding rvg_uint_def Let_def
    by (auto intro!: pred_bind_any pred_return uni sat mx one simp: lit split: option.split)
qed

lemma max_positive_eq: "0 < bits \<Longrightarrow> bits \<le> 256 \<Longrightarrow> max_positive_for_bits bits = mask (bits - 1)"
  by (auto simp: max_positive_for_bits_def mask_eq_exp_minus_1 push_bit_of_1)

lemma sint_mask: "n < 256 \<Longrightarrow> sint (mask n :: u256) = 2 ^ n - 1"
proof -
  assume n: "n < 256"
  have "sint (mask n :: u256) = mask n"
    by (rule bit_eqI) (use n in \<open>auto simp: bit_sint_iff bit_simps\<close>)
  then show ?thesis by (simp add: mask_eq_exp_minus_1)
qed

lemma sint_max_positive:
  "0 < bits \<Longrightarrow> bits \<le> 256 \<Longrightarrow> sint (max_positive_for_bits bits) = 2 ^ (bits - 1) - 1"
  by (simp add: max_positive_eq sint_mask)

lemma sint_min:
  assumes "0 < bits" and "bits \<le> 256"
  shows "sint (sign_extend (sign_bit bits) bits) = - (2 ^ (bits - 1))"
proof -
  have sb: "sign_bit bits = push_bit (bits - 1) 1" using assms by (auto simp: sign_bit_def)
  have "sint (sign_extend (sign_bit bits) bits) = not (mask (bits - 1))"
    unfolding sign_extend_eq [OF assms] sb
    by (rule bit_eqI) (use assms in \<open>auto simp: bit_sint_iff bit_simps min_def\<close>)
  then show ?thesis by (simp add: minus_exp_eq_not_mask)
qed

lemma int_range_check:
  assumes "0 < bits" and "bits \<le> 256"
  shows "sint (sign_extend (sign_bit bits) bits) \<le> sint v \<and> sint v \<le> sint (max_positive_for_bits bits)
         \<longleftrightarrow> int_fits bits v"
  using assms by (auto simp: sint_min sint_max_positive int_fits_def)

lemma rvg_int_fits:
  assumes b: "0 < bits" "bits \<le> 256"
  shows "pred_state (int_fits bits) (rvg_int R L bits)"
proof -
  have ext: "int_fits bits (sign_extend raw bits)" for raw using b by (rule sign_extend_fits)
  show ?thesis
    unfolding rvg_int_def Let_def int_range_check [OF b]
    by (auto intro!: pred_bind_any pred_return ext split: option.split)
qed

subsection \<open>Generated values fit their types\<close>

lemma length_edge_word: "n \<le> width \<Longrightarrow> length (edge_word width n k) = width"
  by (simp add: edge_word_def Let_def)

lemma rvg_fixed_bytes_length:
  assumes "rng_ok R" and "n \<le> 32"
  shows "pred_state (\<lambda>bs. length bs = 32) (rvg_fixed_bytes R L n)"
  unfolding rvg_fixed_bytes_def
  using assms by (auto intro!: pred_bind_any pred_return pred_draw_bytes
      simp: be_bytes_def length_edge_word split: option.split)

lemma rvg_value_fits:
  assumes R: "rng_ok R"
  shows "wf_type ty \<Longrightarrow> pred_state (fits ty) (rvg_value R L ty)"
proof (induction ty)
  case (TUint bits)
  then show ?case
    unfolding rvg_value.simps
    by (intro pred_bind [OF rvg_uint_fits [OF R]] pred_return) simp_all
next
  case (TInt bits)
  then show ?case
    unfolding rvg_value.simps
    by (intro pred_bind [OF rvg_int_fits] pred_return) simp_all
next
  case (TFixedBytes n)
  then show ?case
    unfolding rvg_value.simps
    by (intro pred_bind [OF rvg_fixed_bytes_length [OF R]] pred_return) simp_all
next
  case TFunction
  then show ?case
    unfolding rvg_value.simps
    by (intro pred_bind [OF pred_draw_bytes [OF R]] pred_return) simp
next
  case (TArray inner)
  then have "pred_state (fits inner) (rvg_value R L inner)" by simp
  then show ?case
    unfolding rvg_value.simps
    by (intro pred_bind_any [where m = "draw R 0 5"] pred_bind [OF pred_draw_times] pred_return) simp_all
next
  case (TFixedArray inner n)
  then have "pred_state (fits inner) (rvg_value R L inner)" by simp
  then show ?case
    unfolding rvg_value.simps
    by (intro pred_bind [OF pred_draw_times] pred_return) simp_all
next
  case (TTuple types)
  have ls: "list_all2 (\<lambda>P m. pred_state P m) (map fits types) (map (rvg_value R L) types)"
    using TTuple by (auto simp: list_all2_conv_all_nth list_all_length)
  show ?case
    unfolding rvg_value.simps
    by (intro pred_bind [OF pred_draw_each [OF ls]] pred_return) (simp add: list_all2_map1)
qed (auto intro!: pred_bind_any pred_return)

definition resolvable :: "abi_fn \<Rightarrow> bool" where
  "resolvable f \<longleftrightarrow> list_all (\<lambda>t. case t of None \<Rightarrow> False | Some ty \<Rightarrow> wf_type ty) (fn_inputs f)"

lemma t_random_inputs_ok:
  assumes R: "rng_ok R"
  shows "list_all (\<lambda>t. case t of None \<Rightarrow> False | Some ty \<Rightarrow> wf_type ty) inputs \<Longrightarrow>
   pred_state (\<lambda>x. \<exists>vs. x = Inr vs \<and>
      list_all2 (\<lambda>t v. case t of None \<Rightarrow> False | Some ty \<Rightarrow> fits ty v) inputs vs)
     (t_random_inputs R L inputs)"
proof (induction inputs)
  case (Cons t inputs)
  then obtain ty where ty: "t = Some ty" "wf_type ty" by (auto split: option.splits)
  show ?case
    unfolding ty(1) t_random_inputs.simps
    by (rule pred_bind [OF rvg_value_fits [OF R ty(2)]], rule pred_bind [OF Cons.IH])
      (use Cons.prems in \<open>auto intro!: pred_return\<close>)
qed (simp add: pred_return)

lemma t_call_random_ok:
  assumes "rng_ok R" and "f \<in> set hs" and "resolvable f"
  shows "pred_state (\<lambda>x. \<exists>c. x = Inr c \<and> call_ok hs c) (t_call_random R L f)"
  unfolding t_call_random_def
  by (rule pred_bind [OF t_random_inputs_ok [OF assms(1)]])
    (use assms in \<open>auto intro!: pred_return simp: resolvable_def call_ok_def args_ok_def\<close>)

lemma t_random_calls_ok:
  assumes R: "rng_ok R" and hs: "hs \<noteq> []" "\<forall>f \<in> set hs. resolvable f"
  shows "pred_state (\<lambda>x. \<exists>s. x = Inr s \<and> length s = n \<and> list_all (call_ok hs) s)
           (t_random_calls R L hs n)"
proof (induction n)
  case (Suc n)
  show ?case
    unfolding t_random_calls.simps
  proof (rule pred_bind [OF pred_draw [OF R]])
    show "0 < length hs" using hs by simp
    fix i
    assume i: "0 \<le> i \<and> i < length hs"
    then have "pred_state (\<lambda>x. \<exists>c. x = Inr c \<and> call_ok hs c) (t_call_random R L (hs ! i))"
      using t_call_random_ok [OF R] hs(2) by simp
    then show "pred_state (\<lambda>x. \<exists>s. x = Inr s \<and> length s = Suc n \<and> list_all (call_ok hs) s)
        (t_call_random R L (hs ! i) \<bind> (\<lambda>c. case c of Inl e \<Rightarrow> State_Monad.return (Inl e)
           | Inr call \<Rightarrow> t_random_calls R L hs n \<bind>
               (\<lambda>rest. State_Monad.return (map_sum id (Cons call) rest))))"
      by (rule pred_bind) (auto intro!: pred_bind [OF Suc] pred_return)
  qed
qed (simp add: pred_return)

lemma t_sequence_random_ok:
  assumes "rng_ok R" and "handlers \<noteq> []" and "\<forall>f \<in> set handlers. resolvable f"
  shows "\<exists>s. fst (run_state (t_sequence_random R L handlers max_calls) r) = Inr s
     \<and> 1 \<le> length s \<and> length s \<le> max max_calls 1 \<and> list_all (call_ok handlers) s"
proof -
  have "pred_state (\<lambda>x. \<exists>s. x = Inr s \<and> 1 \<le> length s \<and> length s \<le> max max_calls 1
      \<and> list_all (call_ok handlers) s)
    (draw R 1 (max max_calls 1 + 1) \<bind> t_random_calls R L handlers)"
  proof (rule pred_bind [OF pred_draw [OF assms(1)]])
    show "1 < max max_calls 1 + 1" by simp
    fix n
    assume n: "1 \<le> n \<and> n < max max_calls 1 + 1"
    show "pred_state (\<lambda>x. \<exists>s. x = Inr s \<and> 1 \<le> length s \<and> length s \<le> max max_calls 1
        \<and> list_all (call_ok handlers) s) (t_random_calls R L handlers n)"
      by (rule state.pred_mono_strong [OF t_random_calls_ok [OF assms]]) (use n in auto)
  qed
  from pred_state_run_state [OF this, of r] show ?thesis
    using assms(2) by (simp add: t_sequence_random_def del: run_state_bind)
qed



text \<open>
  A literal that is drawn is returned. When the first draw selects the literal pool and
  the pool has literals of the width, the integer generators return the picked one: for a
  pool whose literals fit (every pool the extraction builds) the range checks never reject,
  also for negative values of narrow widths.
\<close>

theorem drawn_literals_are_returned:
  assumes "rng_ok R" and "pool_fits L" and "solidity_width bits"
    and "rng_range R 0 100 r = (roll, r1)" and "roll < 20"
  shows "(lp_int L bits \<noteq> [] \<longrightarrow>
           (\<exists>i r2. rng_range R 0 (length (lp_int L bits)) r1 = (i, r2) \<and> i < length (lp_int L bits)
              \<and> run_state (rvg_int R L bits) r = (lp_int L bits ! i, r2)))
     \<and> (lp_uint L bits \<noteq> [] \<longrightarrow>
           (\<exists>i r2. rng_range R 0 (length (lp_uint L bits)) r1 = (i, r2) \<and> i < length (lp_uint L bits)
              \<and> run_state (rvg_uint R L bits) r = (lp_uint L bits ! i, r2)))"
proof (intro conjI impI)
  have b: "0 < bits" "bits \<le> 256" using assms(3) by (simp_all add: solidity_width_def)
  {
    assume ne: "lp_int L bits \<noteq> []"
    obtain i r2 where i: "rng_range R 0 (length (lp_int L bits)) r1 = (i, r2)" by fastforce
    have lt: "i < length (lp_int L bits)" using rng_okD [OF assms(1) i] ne by simp
    then have "int_fits bits (lp_int L bits ! i)"
      using assms(2,3) by (simp add: pool_fits_def list_all_length)
    then have "run_state (rvg_int R L bits) r = (lp_int L bits ! i, r2)"
      using assms(4,5) ne i unfolding rvg_int_def Let_def int_range_check [OF b]
      by (simp add: draw_def pick_def)
    with i lt show "\<exists>i r2. rng_range R 0 (length (lp_int L bits)) r1 = (i, r2) \<and> i < length (lp_int L bits)
        \<and> run_state (rvg_int R L bits) r = (lp_int L bits ! i, r2)" by blast
  next
    assume ne: "lp_uint L bits \<noteq> []"
    obtain i r2 where i: "rng_range R 0 (length (lp_uint L bits)) r1 = (i, r2)" by fastforce
    have lt: "i < length (lp_uint L bits)" using rng_okD [OF assms(1) i] ne by simp
    then have "uint_fits bits (lp_uint L bits ! i)"
      using assms(2,3) by (simp add: pool_fits_def list_all_length)
    then have "lp_uint L bits ! i \<le> max_for_bits bits"
      unfolding max_for_bits_eq [OF b] word_le_nat_alt by (rule uint_fits_le_mask [OF b(2)])
    then have "run_state (rvg_uint R L bits) r = (lp_uint L bits ! i, r2)"
      using assms(4,5) ne i by (simp add: rvg_uint_def Let_def draw_def pick_def)
    with i lt show "\<exists>i r2. rng_range R 0 (length (lp_uint L bits)) r1 = (i, r2) \<and> i < length (lp_uint L bits)
        \<and> run_state (rvg_uint R L bits) r = (lp_uint L bits ! i, r2)" by blast
  }
qed

theorem drawn_literals_are_returned_witness:
  "run_state (rvg_int counter_rng (extract_number 3 lp_new) 8) 0 = (- 3, 2)"
proof -
  let ?L = "extract_number 3 lp_new"
  have st: "stored_widths 3 lp_new ?L" by (rule extract_number_stored)
  have L: "pool_fits ?L" using pool_fits_new st by (rule pool_fits_stored)
  have w: "solidity_width 8" by (simp add: solidity_width_def)
  have neg: "sint (- 3 :: u256) = - 3" by code_simp
  have "lp_int ?L 8 = [3, - 3]"
    using st w neg by (simp add: stored_widths_def int_fits_def lp_int_def lp_new_def at_width_def)
  moreover have "rng_range counter_rng 0 100 0 = (0, 1)" by (simp add: counter_rng_def)
  moreover have "rng_range counter_rng 0 2 1 = (1, 2)" by (simp add: counter_rng_def)
  ultimately show ?thesis
    using drawn_literals_are_returned [OF counter_rng_ok L w, of 0 0 1]
    by (auto simp: counter_rng_def)
qed

end
