(* ===== verification/Max_Value_Gen.thy ===== *)
theory Max_Value_Gen
  imports Value_Gen
begin

unbundle bit_operations_syntax

section \<open>Random values of the max mode\<close>

text \<open>
  The random constructors of \<open>src/src/maxer/call.rs\<close> and \<open>sequence.rs\<close>. A draw can fail
  (\<open>Inl\<close>): function references are not supported. As in the code, \<open>Int(bits)\<close> takes an
  unrestricted 256-bit word, whatever its width.
\<close>

definition MAX_BYTES_LEN :: nat where "MAX_BYTES_LEN = 32"
definition MAX_STRING_LEN :: nat where "MAX_STRING_LEN = 16"
definition MAX_ARRAY_LEN :: nat where "MAX_ARRAY_LEN = 4"
definition BOUNDARY_PROBABILITY :: nat where "BOUNDARY_PROBABILITY = 8"
definition BOUNDARY_COUNT :: nat where "BOUNDARY_COUNT = 6"

text \<open>\<open>collect::<Result<Vec<_>>>()\<close>: stops at the first error.\<close>

fun draw_collect :: "('r, 'e + 'a) state list \<Rightarrow> ('r, 'e + 'a list) state" where
  "draw_collect [] = State_Monad.return (Inr [])"
| "draw_collect (m # ms) =
     do {
       x \<leftarrow> m;
       case x of
         Inl e \<Rightarrow> State_Monad.return (Inl e)
       | Inr v \<Rightarrow> do { rest \<leftarrow> draw_collect ms; State_Monad.return (map_sum id (Cons v) rest) }
     }"

definition boundary_uint :: "'r rng_ops \<Rightarrow> nat \<Rightarrow> ('r, u256) state" where
  "boundary_uint R bits =
     (let mx = (if 256 \<le> bits then - 1 else push_bit bits 1 - 1);
          candidates = [0, 1, 2, mx, drop_bit 1 mx, 10000000000000000000]
      in do {
        i \<leftarrow> draw R 0 BOUNDARY_COUNT;
        State_Monad.return (candidates ! i AND mx)
      })"

definition random_uint :: "'r rng_ops \<Rightarrow> nat \<Rightarrow> ('r, u256) state" where
  "random_uint R bits =
     do {
       k \<leftarrow> draw R 0 BOUNDARY_PROBABILITY;
       if k = 0 then boundary_uint R bits
       else do {
         low \<leftarrow> draw R 0 (2 ^ 128);
         high \<leftarrow> draw R 0 (2 ^ 128);
         let val = push_bit 128 (of_nat high) OR of_nat low;
         State_Monad.return (if 256 \<le> bits then val else val AND (push_bit bits 1 - 1))
       }
     }"

primrec random_value :: "'r rng_ops \<Rightarrow> sol_type \<Rightarrow> ('r, gen_error + sol_value) state" where
  "random_value R TBool = do { b \<leftarrow> draw_bool R; State_Monad.return (Inr (VBool b)) }"
| "random_value R (TInt bits) =
     do { v \<leftarrow> random_uint R 256; State_Monad.return (Inr (VInt v bits)) }"
| "random_value R (TUint bits) =
     do { v \<leftarrow> random_uint R bits; State_Monad.return (Inr (VUint v bits)) }"
| "random_value R (TFixedBytes n) =
     do {
       bs \<leftarrow> draw_bytes R n;
       State_Monad.return (Inr (VFixedBytes (bs @ replicate (32 - n) 0) n))
     }"
| "random_value R TAddress =
     do { bs \<leftarrow> draw_bytes R 20; State_Monad.return (Inr (VAddress (ucast (be_u256 bs)))) }"
| "random_value R TFunction = State_Monad.return (Inl Unsupported_Function)"
| "random_value R TBytes =
     do {
       n \<leftarrow> draw R 0 (MAX_BYTES_LEN + 1);
       bs \<leftarrow> draw_bytes R n;
       State_Monad.return (Inr (VBytes bs))
     }"
| "random_value R TString =
     do {
       n \<leftarrow> draw R 0 (MAX_STRING_LEN + 1);
       s \<leftarrow> draw_times n (draw_alphanumeric R);
       State_Monad.return (Inr (VString s))
     }"
| "random_value R (TArray ty) =
     do {
       n \<leftarrow> draw R 0 (MAX_ARRAY_LEN + 1);
       vs \<leftarrow> draw_collect (replicate n (random_value R ty));
       State_Monad.return (map_sum id VArray vs)
     }"
| "random_value R (TFixedArray ty n) =
     do {
       vs \<leftarrow> draw_collect (replicate n (random_value R ty));
       State_Monad.return (map_sum id VFixedArray vs)
     }"
| "random_value R (TTuple types) =
     do {
       vs \<leftarrow> draw_collect (map (random_value R) types);
       State_Monad.return (map_sum id VTuple vs)
     }"

definition m_random_input :: "'r rng_ops \<Rightarrow> sol_type option \<Rightarrow> ('r, gen_error + sol_value) state" where
  "m_random_input R input =
     (case input of
        None \<Rightarrow> State_Monad.return (Inl Unresolved_Type)
      | Some ty \<Rightarrow> random_value R ty)"

definition m_call_random :: "'r rng_ops \<Rightarrow> abi_fn \<Rightarrow> ('r, gen_error + call) state" where
  "m_call_random R f =
     do {
       inputs \<leftarrow> draw_collect (map (m_random_input R) (fn_inputs f));
       State_Monad.return (map_sum id (\<lambda>vs. \<lparr>call_fn = f, call_args = VTuple vs\<rparr>) inputs)
     }"

definition m_random_handler_call :: "'r rng_ops \<Rightarrow> abi_fn list \<Rightarrow> ('r, gen_error + call) state" where
  "m_random_handler_call R handlers =
     do { i \<leftarrow> draw R 0 (length handlers); m_call_random R (handlers ! i) }"

definition m_sequence_random ::
  "'r rng_ops \<Rightarrow> abi_fn list \<Rightarrow> nat \<Rightarrow> ('r, gen_error + seq_calls) state" where
  "m_sequence_random R handlers max_calls =
     (if handlers = [] then State_Monad.return (Inl No_Handlers)
      else do {
        n \<leftarrow> draw R 1 (max max_calls 1 + 1);
        draw_collect (replicate n (m_random_handler_call R handlers))
      })"

subsection \<open>Postconditions\<close>

lemma width_mask: "0 < bits \<Longrightarrow> bits \<le> 256 \<Longrightarrow> (if 256 \<le> bits then - 1 else push_bit bits 1 - 1 :: u256) = mask bits"
  using max_for_bits_eq [of bits] by (auto simp: max_for_bits_def split: if_splits)

lemma uint_fits_and_mask: "uint_fits bits (w AND mask bits)"
  using uint_fits_take_bit [of bits w] by (simp add: take_bit_eq_mask)

lemma uint_fits_256: "uint_fits 256 w"
  using unat_u256_less [of w] by (simp add: uint_fits_def)

lemma random_uint_fits:
  assumes "0 < bits" and "bits \<le> 256"
  shows "pred_state (uint_fits bits) (random_uint R bits)"
proof -
  have "pred_state (uint_fits bits) (boundary_uint R bits)"
    unfolding boundary_uint_def Let_def width_mask [OF assms]
    by (intro pred_bind_any pred_return) (rule uint_fits_and_mask)
  moreover have "uint_fits bits (if 256 \<le> bits then w else w AND (push_bit bits 1 - 1))" for w
    using uint_fits_and_mask [of bits w] width_mask [OF assms] uint_fits_256 assms
    by (cases "bits = 256") auto
  ultimately show ?thesis
    unfolding random_uint_def Let_def by (auto intro!: pred_bind_any pred_return)
qed

lemma pred_draw_collect:
  assumes "list_all2 (\<lambda>P m. pred_state (\<lambda>x. \<exists>v. x = Inr v \<and> P v) m) Ps ms"
  shows "pred_state (\<lambda>x. \<exists>vs. x = Inr vs \<and> list_all2 (\<lambda>P v. P v) Ps vs) (draw_collect ms)"
  using assms
proof (induction Ps ms rule: list_all2_induct)
  case (Cons P Ps m ms)
  show ?case
    unfolding draw_collect.simps
    by (rule pred_bind [OF Cons.hyps(1)]) (auto intro!: pred_bind [OF Cons.IH] pred_return)
qed (simp add: pred_return)

lemma pred_draw_collect_replicate:
  assumes "pred_state (\<lambda>x. \<exists>v. x = Inr v \<and> P v) m"
  shows "pred_state (\<lambda>x. \<exists>vs. x = Inr vs \<and> length vs = n \<and> list_all P vs)
           (draw_collect (replicate n m))"
proof -
  have "list_all2 (\<lambda>P m. pred_state (\<lambda>x. \<exists>v. x = Inr v \<and> P v) m) (replicate n P) (replicate n m)"
    using assms by (simp add: list_all2_conv_all_nth)
  from pred_draw_collect [OF this] show ?thesis
    by (rule state.pred_mono_strong)
      (auto simp: list_all2_conv_all_nth list_all_length)
qed

text \<open>The types the max mode draws correctly: no function references, signed integers only of
  full width.\<close>

fun max_type :: "sol_type \<Rightarrow> bool" where
  "max_type (TInt bits) = (bits = 256)"
| "max_type (TUint bits) = (0 < bits \<and> bits \<le> 256)"
| "max_type (TFixedBytes n) = (0 < n \<and> n \<le> 32)"
| "max_type TFunction = False"
| "max_type (TArray t) = max_type t"
| "max_type (TFixedArray t n) = max_type t"
| "max_type (TTuple ts) = list_all max_type ts"
| "max_type _ = True"

lemma int_fits_256: "int_fits 256 w"
  using sint_ge [of w] sint_lt [of w] by (simp add: int_fits_def)

lemma random_value_fits:
  assumes R: "rng_ok R"
  shows "max_type ty \<Longrightarrow> pred_state (\<lambda>x. \<exists>v. x = Inr v \<and> fits ty v) (random_value R ty)"
proof (induction ty)
  case (TUint bits)
  then show ?case
    unfolding random_value.simps
    by (intro pred_bind [OF random_uint_fits] pred_return) simp_all
next
  case (TFixedBytes n)
  then show ?case
    unfolding random_value.simps
    by (intro pred_bind [OF pred_draw_bytes [OF R]] pred_return) simp
next
  case (TArray inner)
  then have "pred_state (\<lambda>x. \<exists>v. x = Inr v \<and> fits inner v) (random_value R inner)" by simp
  then show ?case
    unfolding random_value.simps
    by (intro pred_bind_any [where m = "draw R 0 (MAX_ARRAY_LEN + 1)"]
        pred_bind [OF pred_draw_collect_replicate] pred_return) auto
next
  case (TFixedArray inner n)
  then have "pred_state (\<lambda>x. \<exists>v. x = Inr v \<and> fits inner v) (random_value R inner)" by simp
  then show ?case
    unfolding random_value.simps
    by (intro pred_bind [OF pred_draw_collect_replicate] pred_return) auto
next
  case (TTuple types)
  have ls: "list_all2 (\<lambda>P m. pred_state (\<lambda>x. \<exists>v. x = Inr v \<and> P v) m) (map fits types)
      (map (random_value R) types)"
    using TTuple by (auto simp: list_all2_conv_all_nth list_all_length)
  show ?case
    unfolding random_value.simps
    by (intro pred_bind [OF pred_draw_collect [OF ls]] pred_return) (auto simp: list_all2_map1)
qed (auto intro!: pred_bind_any pred_return int_fits_256)

definition max_drawable :: "abi_fn \<Rightarrow> bool" where
  "max_drawable f \<longleftrightarrow> list_all (\<lambda>t. case t of None \<Rightarrow> False | Some ty \<Rightarrow> max_type ty) (fn_inputs f)"

lemma m_call_random_ok:
  assumes R: "rng_ok R" and f: "f \<in> set hs" "max_drawable f"
  shows "pred_state (\<lambda>x. \<exists>c. x = Inr c \<and> call_ok hs c) (m_call_random R f)"
proof -
  let ?P = "\<lambda>t v. case t of None \<Rightarrow> False | Some ty \<Rightarrow> fits ty v"
  have ls: "list_all2 (\<lambda>P m. pred_state (\<lambda>x. \<exists>v. x = Inr v \<and> P v) m) (map ?P (fn_inputs f))
      (map (m_random_input R) (fn_inputs f))"
    using f(2) random_value_fits [OF R]
    by (auto simp: max_drawable_def list_all2_conv_all_nth list_all_length m_random_input_def
        split: option.splits)
  show ?thesis
    unfolding m_call_random_def
    by (rule pred_bind [OF pred_draw_collect [OF ls]])
      (use f in \<open>auto intro!: pred_return simp: call_ok_def args_ok_def list_all2_map1\<close>)
qed

lemma m_random_handler_call_ok:
  assumes R: "rng_ok R" and hs: "hs \<noteq> []" "\<forall>f \<in> set hs. max_drawable f"
  shows "pred_state (\<lambda>x. \<exists>c. x = Inr c \<and> call_ok hs c) (m_random_handler_call R hs)"
  unfolding m_random_handler_call_def
  by (rule pred_bind [OF pred_draw [OF R]]) (use hs in \<open>auto intro!: m_call_random_ok [OF R]\<close>)

lemma m_sequence_random_ok:
  assumes "rng_ok R" and "handlers \<noteq> []" and "\<forall>f \<in> set handlers. max_drawable f"
  shows "\<exists>s. fst (run_state (m_sequence_random R handlers max_calls) r) = Inr s
     \<and> 1 \<le> length s \<and> length s \<le> max max_calls 1 \<and> list_all (call_ok handlers) s"
proof -
  have "pred_state (\<lambda>x. \<exists>s. x = Inr s \<and> 1 \<le> length s \<and> length s \<le> max max_calls 1
      \<and> list_all (call_ok handlers) s)
    (draw R 1 (max max_calls 1 + 1) \<bind>
      (\<lambda>n. draw_collect (replicate n (m_random_handler_call R handlers))))"
  proof (rule pred_bind [OF pred_draw [OF assms(1)]])
    show "1 < max max_calls 1 + 1" by simp
    fix n
    assume n: "1 \<le> n \<and> n < max max_calls 1 + 1"
    show "pred_state (\<lambda>x. \<exists>s. x = Inr s \<and> 1 \<le> length s \<and> length s \<le> max max_calls 1
        \<and> list_all (call_ok handlers) s)
      (draw_collect (replicate n (m_random_handler_call R handlers)))"
      by (rule state.pred_mono_strong [OF
            pred_draw_collect_replicate [OF m_random_handler_call_ok [OF assms]]]) (use n in auto)
  qed
  from pred_state_run_state [OF this, of r] show ?thesis
    using assms(2) by (simp add: m_sequence_random_def del: run_state_bind)
qed

text \<open>
  Sequences of the max mode are well typed when their integers are unsigned or full width.
  For handlers whose inputs resolve to such types (and take no function reference),
  \<open>Sequence::random\<close> succeeds with one to \<open>max_calls\<close> handler calls whose arguments are in
  range of their ABI types, whatever the generator draws.
\<close>

theorem max_sequences_fit:
  assumes "rng_ok R" and "handlers \<noteq> []" and "\<forall>f \<in> set handlers. max_drawable f"
  shows "\<exists>s. fst (run_state (m_sequence_random R handlers max_calls) r) = Inr s
     \<and> 1 \<le> length s \<and> length s \<le> max max_calls 1 \<and> list_all (call_ok handlers) s"
  using assms by (rule m_sequence_random_ok)

theorem max_sequences_fit_witness:
  "\<exists>s. fst (run_state (m_sequence_random counter_rng [demo_fn 1, demo_fn 2] 3) 0) = Inr s
     \<and> 1 \<le> length s \<and> length s \<le> 3"
proof -
  have "\<forall>f \<in> set [demo_fn 1, demo_fn 2]. max_drawable f" by (simp add: max_drawable_def demo_fn_def)
  from max_sequences_fit [OF counter_rng_ok _ this, of 3 0] show ?thesis by auto
qed

text \<open>
  Signed integers of the max mode ignore their width. Outside the boundary values (seven
  of eight draws) the value drawn for \<open>Int(bits)\<close> is the same 256-bit word for every width,
  the two 128-bit draws side by side, so it fits a narrower type only by accident.
\<close>

theorem max_ints_ignore_width:
  assumes "rng_range R 0 BOUNDARY_PROBABILITY r = (k, r1)" and "k \<noteq> 0"
    and "rng_range R 0 (2 ^ 128) r1 = (low, r2)" and "rng_range R 0 (2 ^ 128) r2 = (high, r3)"
  shows "run_state (random_value R (TInt bits)) r =
           (Inr (VInt (push_bit 128 (of_nat high) OR of_nat low) bits), r3)"
  using assms by (simp add: random_uint_def draw_def)

theorem max_ints_ignore_width_witness:
  "\<not> (\<exists>v. fst (run_state (random_value counter_rng (TInt 8)) 1) = Inr v \<and> fits (TInt 8) v)"
proof -
  have d: "rng_range counter_rng 0 BOUNDARY_PROBABILITY 1 = (1, 2)"
      "rng_range counter_rng 0 (2 ^ 128) 2 = (2, 3)" "rng_range counter_rng 0 (2 ^ 128) 3 = (3, 4)"
    by (simp_all add: counter_rng_def BOUNDARY_PROBABILITY_def)
  have big: "\<not> int_fits 8 (push_bit 128 (of_nat 3) OR of_nat 2)" unfolding int_fits_def by code_simp
  show ?thesis
    using max_ints_ignore_width [OF d(1) _ d(2,3), of 8] big by simp
qed

end
