(* ===== verification/Stats.thy ===== *)
theory Stats
  imports Stop_Filters Sol_Values "HOL-Library.AList" "HOL-Library.Product_Lexorder"
    "HOL-Library.List_Lexorder" "HOL-Library.Char_ord" "HOL-Library.Option_ord" "HOL-Library.Multiset"
begin

section \<open>Campaign statistics\<close>

text \<open>
  \<open>src/src/tester/stats.rs\<close>: per-function counters of calls, reverts by their decoded kind,
  wall time and RPC use, and the snapshot that is reported. The counters wrap at 64 bits; the
  map of reverts is an association list. Serialisation and file names are not modelled.
\<close>

datatype revert_key =
    K_Error string string
  | K_Panic string string
  | K_Custom string
  | K_Broken string string
  | K_Unknown string
  | K_Empty
  | K_Halt

definition classify :: "sol_abi \<Rightarrow> text_codec \<Rightarrow> tx_result \<Rightarrow> revert_key option" where
  "classify A T r =
     (if tr_success r then None
      else case tr_output r of
        None \<Rightarrow> Some K_Halt
      | Some output \<Rightarrow>
          if output = [] then Some K_Empty
          else
            let hex = (\<lambda>bs. ''0x'' @ tc_hex_encode T bs);
                fallback =
                  (case error_decode A output of
                     Some message \<Rightarrow> K_Error (hex (error_selector A)) message
                   | None \<Rightarrow>
                       (case panic_decode A output of
                          Some code \<Rightarrow> K_Panic (hex (panic_selector A)) (tc_show_hex T code)
                        | None \<Rightarrow>
                            if 4 \<le> length output then K_Custom (hex (take 4 output))
                            else K_Unknown (hex output)))
            in case bi_decode A output of
                 Some (bid, description) \<Rightarrow>
                   if bid \<noteq> []
                   then Some (K_Broken (hex (bi_selector A))
                               (if description = [] then bid else bid @ '': '' @ description))
                   else Some fallback
               | None \<Rightarrow> Some fallback)"

record fn_counters =
  fc_calls :: u64
  fc_successful :: u64
  fc_reverts :: u64
  fc_wall_total :: u64
  fc_wall_min :: u64
  fc_wall_max :: u64
  fc_rpc_hits :: u64
  fc_rpc_misses :: u64
  fc_rpc_wait :: u64
  fc_revert_counts :: "(revert_key \<times> u64) list"

definition fc_new :: fn_counters where
  "fc_new =
     \<lparr>fc_calls = 0, fc_successful = 0, fc_reverts = 0, fc_wall_total = 0, fc_wall_min = - 1,
      fc_wall_max = 0, fc_rpc_hits = 0, fc_rpc_misses = 0, fc_rpc_wait = 0, fc_revert_counts = []\<rparr>"

definition clamp_u64 :: "nat \<Rightarrow> u64" where
  "clamp_u64 n = (if n < 2 ^ 64 then of_nat n else - 1)"

definition count_revert :: "revert_key \<Rightarrow> (revert_key \<times> u64) list \<Rightarrow> (revert_key \<times> u64) list" where
  "count_revert k m = AList.map_default k 1 (\<lambda>n. n + 1) m"

definition fc_record :: "sol_abi \<Rightarrow> text_codec \<Rightarrow> tx_result \<Rightarrow> fn_counters \<Rightarrow> fn_counters" where
  "fc_record A T r c =
     (let elapsed = clamp_u64 (tr_elapsed r);
          c1 = c\<lparr>fc_calls := fc_calls c + 1\<rparr>;
          c2 = (if tr_success r then c1\<lparr>fc_successful := fc_successful c1 + 1\<rparr>
                else c1\<lparr>fc_reverts := fc_reverts c1 + 1\<rparr>);
          c3 = c2\<lparr>fc_wall_total := fc_wall_total c2 + elapsed,
                  fc_wall_min := min (fc_wall_min c2) elapsed,
                  fc_wall_max := max (fc_wall_max c2) elapsed,
                  fc_rpc_hits := fc_rpc_hits c2 + rs_hits (tr_rpc r),
                  fc_rpc_misses := fc_rpc_misses c2 + rs_misses (tr_rpc r),
                  fc_rpc_wait := fc_rpc_wait c2 + clamp_u64 (rs_wait (tr_rpc r))\<rparr>
      in case classify A T r of
           None \<Rightarrow> c3
         | Some key \<Rightarrow> c3\<lparr>fc_revert_counts := count_revert key (fc_revert_counts c3)\<rparr>)"

subsection \<open>Snapshots\<close>

record revert_summary =
  rv_kind :: string
  rv_selector :: "string option"
  rv_name :: "string option"
  rv_message :: "string option"
  rv_code :: "string option"
  rv_count :: u64

fun summary_from_key :: "revert_key \<Rightarrow> u64 \<Rightarrow> revert_summary" where
  "summary_from_key (K_Error s m) n =
     \<lparr>rv_kind = ''Error'', rv_selector = Some s, rv_name = None, rv_message = Some m,
      rv_code = None, rv_count = n\<rparr>"
| "summary_from_key (K_Panic s c) n =
     \<lparr>rv_kind = ''Panic'', rv_selector = Some s, rv_name = None, rv_message = None,
      rv_code = Some c, rv_count = n\<rparr>"
| "summary_from_key (K_Custom s) n =
     \<lparr>rv_kind = ''CustomError'', rv_selector = Some s, rv_name = Some [], rv_message = None,
      rv_code = None, rv_count = n\<rparr>"
| "summary_from_key (K_Broken s m) n =
     \<lparr>rv_kind = ''BrokenInvariantError'', rv_selector = Some s, rv_name = None,
      rv_message = Some m, rv_code = None, rv_count = n\<rparr>"
| "summary_from_key (K_Unknown m) n =
     \<lparr>rv_kind = ''UnknownRevert'', rv_selector = None, rv_name = None, rv_message = Some m,
      rv_code = None, rv_count = n\<rparr>"
| "summary_from_key K_Empty n =
     \<lparr>rv_kind = ''EmptyRevert'', rv_selector = None, rv_name = None, rv_message = None,
      rv_code = None, rv_count = n\<rparr>"
| "summary_from_key K_Halt n =
     \<lparr>rv_kind = ''Halt'', rv_selector = None, rv_name = None, rv_message = None,
      rv_code = None, rv_count = n\<rparr>"

definition summary_order where
  "summary_order s =
     (- int (unat (rv_count s)), rv_kind s, rv_selector s, rv_name s, rv_message s, rv_code s)"

record fn_stats =
  fs_name :: string
  fs_selector :: string
  fs_calls :: u64
  fs_successful :: u64
  fs_reverts_count :: u64
  fs_wall :: "u64 \<times> u64 \<times> u64"
  fs_rpc :: "u64 \<times> u64 \<times> u64"
  fs_reverts :: "revert_summary list"

definition fc_snapshot :: "text_codec \<Rightarrow> abi_fn \<Rightarrow> fn_counters \<Rightarrow> fn_stats" where
  "fc_snapshot T f c =
     \<lparr>fs_name = fn_name f, fs_selector = ''0x'' @ tc_hex_encode T (fn_selector f),
      fs_calls = fc_calls c, fs_successful = fc_successful c, fs_reverts_count = fc_reverts c,
      fs_wall = (if fc_calls c = 0 then 0 else fc_wall_min c, fc_wall_max c,
                 if fc_calls c = 0 then 0 else fc_wall_total c div fc_calls c),
      fs_rpc = (fc_rpc_hits c, fc_rpc_misses c, fc_rpc_wait c),
      fs_reverts = sort_key summary_order (map (\<lambda>(k, n). summary_from_key k n) (fc_revert_counts c))\<rparr>"

subsection \<open>The shared statistics\<close>

record shared_stats =
  st_handlers :: "fn_counters list"
  st_invariants :: "fn_counters list"

definition stats_new :: "nat \<Rightarrow> nat \<Rightarrow> shared_stats" where
  "stats_new handlers invariants =
     \<lparr>st_handlers = replicate handlers fc_new, st_invariants = replicate invariants fc_new\<rparr>"

definition record_at :: "sol_abi \<Rightarrow> text_codec \<Rightarrow> nat \<Rightarrow> tx_result \<Rightarrow> fn_counters list \<Rightarrow> fn_counters list" where
  "record_at A T i r cs = (if i < length cs then cs[i := fc_record A T r (cs ! i)] else cs)"

definition record_handler ::
  "sol_abi \<Rightarrow> text_codec \<Rightarrow> nat \<Rightarrow> tx_result \<Rightarrow> shared_stats \<Rightarrow> shared_stats" where
  "record_handler A T i r s = s\<lparr>st_handlers := record_at A T i r (st_handlers s)\<rparr>"

definition record_invariant ::
  "sol_abi \<Rightarrow> text_codec \<Rightarrow> nat \<Rightarrow> tx_result \<Rightarrow> shared_stats \<Rightarrow> shared_stats" where
  "record_invariant A T i r s = s\<lparr>st_invariants := record_at A T i r (st_invariants s)\<rparr>"

definition stats_snapshot :: "text_codec \<Rightarrow> abi_fn list \<Rightarrow> fn_counters list \<Rightarrow> fn_stats list" where
  "stats_snapshot T fs cs = map (\<lambda>(c, f). fc_snapshot T f c) (zip cs fs)"

subsection \<open>The counters account for every result\<close>

definition classified :: "sol_abi \<Rightarrow> text_codec \<Rightarrow> tx_result list \<Rightarrow> revert_key \<Rightarrow> nat" where
  "classified A T rs k = length (filter (\<lambda>r. classify A T r = Some k) rs)"

definition accounts :: "sol_abi \<Rightarrow> text_codec \<Rightarrow> tx_result list \<Rightarrow> fn_counters \<Rightarrow> bool" where
  "accounts A T rs c \<longleftrightarrow>
     unat (fc_calls c) = length rs
   \<and> unat (fc_successful c) = length (filter tr_success rs)
   \<and> unat (fc_reverts c) = length (filter (\<lambda>r. \<not> tr_success r) rs)
   \<and> distinct (map fst (fc_revert_counts c))
   \<and> (\<forall>k. map_of (fc_revert_counts c) k =
          (if classified A T rs k = 0 then None else Some (of_nat (classified A T rs k))))
   \<and> (\<forall>r \<in> set rs. fc_wall_min c \<le> clamp_u64 (tr_elapsed r) \<and> clamp_u64 (tr_elapsed r) \<le> fc_wall_max c)
   \<and> (rs \<noteq> [] \<longrightarrow> fc_wall_min c \<in> (\<lambda>r. clamp_u64 (tr_elapsed r)) ` set rs
                \<and> fc_wall_max c \<in> (\<lambda>r. clamp_u64 (tr_elapsed r)) ` set rs)
   \<and> (rs = [] \<longrightarrow> fc_wall_min c = - 1 \<and> fc_wall_max c = 0)"

lemma classify_None: "classify A T r = None \<longleftrightarrow> tr_success r"
  by (simp add: classify_def Let_def split: option.split)

lemma unat_Suc_u64: "unat (w :: u64) = n \<Longrightarrow> Suc n < 2 ^ 64 \<Longrightarrow> unat (w + 1) = Suc n"
  using unat_add_lem [of w "1 :: u64"] by simp

lemma fc_record_simps:
  "fc_calls (fc_record A T r c) = fc_calls c + 1"
  "fc_successful (fc_record A T r c) = (if tr_success r then fc_successful c + 1 else fc_successful c)"
  "fc_reverts (fc_record A T r c) = (if tr_success r then fc_reverts c else fc_reverts c + 1)"
  "fc_wall_min (fc_record A T r c) = min (fc_wall_min c) (clamp_u64 (tr_elapsed r))"
  "fc_wall_max (fc_record A T r c) = max (fc_wall_max c) (clamp_u64 (tr_elapsed r))"
  "fc_revert_counts (fc_record A T r c) =
     (case classify A T r of None \<Rightarrow> fc_revert_counts c | Some k \<Rightarrow> count_revert k (fc_revert_counts c))"
  by (simp_all add: fc_record_def Let_def split: option.split)

lemma count_revert_map:
  "map_of (count_revert k m) k' =
     (if k' = k then Some (case map_of m k of None \<Rightarrow> 1 | Some n \<Rightarrow> n + 1) else map_of m k')"
  by (simp add: count_revert_def AList.map_of_map_default split: option.split)

lemma accounts_record:
  assumes acc: "accounts A T rs c" and len: "Suc (length rs) < 2 ^ 64"
  shows "accounts A T (rs @ [r]) (fc_record A T r c)"
proof -
  have le: "length (filter P rs) \<le> length rs" for P by (rule length_filter_le)
  have small: "Suc (length (filter P rs)) < 2 ^ 64" for P using le [of P] len by linarith
  have c: "unat (fc_calls c) = length rs" "unat (fc_successful c) = length (filter tr_success rs)"
      "unat (fc_reverts c) = length (filter (\<lambda>r. \<not> tr_success r) rs)"
    using acc by (simp_all only: accounts_def)
  have 1: "unat (fc_calls (fc_record A T r c)) = length (rs @ [r])"
      "unat (fc_successful (fc_record A T r c)) = length (filter tr_success (rs @ [r]))"
      "unat (fc_reverts (fc_record A T r c)) = length (filter (\<lambda>r. \<not> tr_success r) (rs @ [r]))"
    using c len unat_Suc_u64 [OF c(1)] unat_Suc_u64 [OF c(2) small] unat_Suc_u64 [OF c(3) small]
    by (simp_all only: fc_record_simps, simp_all)
  have d: "distinct (map fst (fc_revert_counts c))"
    and m: "\<And>k. map_of (fc_revert_counts c) k =
        (if classified A T rs k = 0 then None else Some (of_nat (classified A T rs k)))"
    and w: "\<And>x. x \<in> set rs \<Longrightarrow>
        fc_wall_min c \<le> clamp_u64 (tr_elapsed x) \<and> clamp_u64 (tr_elapsed x) \<le> fc_wall_max c"
    and e: "rs \<noteq> [] \<Longrightarrow> fc_wall_min c \<in> (\<lambda>r. clamp_u64 (tr_elapsed r)) ` set rs
        \<and> fc_wall_max c \<in> (\<lambda>r. clamp_u64 (tr_elapsed r)) ` set rs"
    and z: "rs = [] \<Longrightarrow> fc_wall_min c = - 1 \<and> fc_wall_max c = 0"
    using acc unfolding accounts_def by blast+
  let ?t = "clamp_u64 (tr_elapsed r)"
  have 2: "distinct (map fst (fc_revert_counts (fc_record A T r c)))"
    using d by (cases "classify A T r")
      (simp_all add: fc_record_simps count_revert_def AList.distinct_map_default)
  have 3: "map_of (fc_revert_counts (fc_record A T r c)) k =
      (if classified A T (rs @ [r]) k = 0 then None else Some (of_nat (classified A T (rs @ [r]) k)))" for k
  proof (cases "classify A T r = Some k")
    case True
    then have "classified A T (rs @ [r]) k = Suc (classified A T rs k)" by (simp add: classified_def)
    with True m [of k] show ?thesis by (simp add: fc_record_simps count_revert_map)
  next
    case False
    then have "classified A T (rs @ [r]) k = classified A T rs k" by (simp add: classified_def)
    with False m [of k] show ?thesis
      by (cases "classify A T r") (simp_all add: fc_record_simps count_revert_map)
  qed
  have 4: "\<forall>x \<in> set (rs @ [r]). fc_wall_min (fc_record A T r c) \<le> clamp_u64 (tr_elapsed x)
      \<and> clamp_u64 (tr_elapsed x) \<le> fc_wall_max (fc_record A T r c)"
    using w by (auto simp: fc_record_simps min.coboundedI1 max.coboundedI1)
  have 5: "fc_wall_min (fc_record A T r c) \<in> (\<lambda>r. clamp_u64 (tr_elapsed r)) ` set (rs @ [r])
      \<and> fc_wall_max (fc_record A T r c) \<in> (\<lambda>r. clamp_u64 (tr_elapsed r)) ` set (rs @ [r])"
  proof (cases "rs = []")
    case True
    then have "min (fc_wall_min c) ?t = ?t" "max (fc_wall_max c) ?t = ?t"
      using z by (simp_all add: min_def max_def word_order.extremum_unique)
    with True show ?thesis by (simp add: fc_record_simps)
  next
    case False
    from e [OF False] show ?thesis unfolding fc_record_simps min_def max_def by auto
  qed
  show ?thesis
    unfolding accounts_def using 1 2 3 4 5 by (intro conjI) simp_all
qed

lemma accounts_fold:
  "length rs < 2 ^ 64 \<Longrightarrow> accounts A T rs (fold (fc_record A T) rs fc_new)"
proof (induction rs rule: rev_induct)
  case Nil
  then show ?case by (simp add: accounts_def fc_new_def classified_def)
next
  case (snoc r rs)
  then show ?case using accounts_record [of A T rs "fold (fc_record A T) rs fc_new" r] by simp
qed

lemma sum_counts_insert:
  assumes "\<forall>(k', n) \<in> set m. Suc (unat n) < 2 ^ 64"
  shows "sum_list (map (\<lambda>(k, n). unat n) (count_revert k m)) = Suc (sum_list (map (\<lambda>(k, n). unat n) m))"
  using assms unfolding count_revert_def
proof (induction m)
  case (Cons p m)
  obtain k' n where p: "p = (k', n)" by fastforce
  have "unat (n + 1) = Suc (unat n)" using Cons.prems p unat_Suc_u64 [of n "unat n"] by simp
  with Cons p show ?case by simp
qed simp

lemma counts_small:
  assumes "accounts A T rs c" and "Suc (length rs) < 2 ^ 64"
  shows "\<forall>(k, n) \<in> set (fc_revert_counts c). Suc (unat n) < 2 ^ 64"
proof (intro ballI, unfold split_paired_all prod.case)
  fix k n
  assume kn: "(k, n) \<in> set (fc_revert_counts c)"
  have d: "distinct (map fst (fc_revert_counts c))"
    and m: "map_of (fc_revert_counts c) k =
        (if classified A T rs k = 0 then None else Some (of_nat (classified A T rs k)))"
    using assms(1) unfolding accounts_def by blast+
  have "map_of (fc_revert_counts c) k = Some n" using d kn by simp
  with m have n: "n = of_nat (classified A T rs k)" by (simp split: if_splits)
  have "classified A T rs k \<le> length rs" by (simp add: classified_def)
  moreover have "unat (of_nat (classified A T rs k) :: u64) \<le> classified A T rs k"
    by (simp add: unsigned_of_nat take_bit_eq_mod)
  ultimately have "unat n \<le> length rs" unfolding n by (rule order_trans [rotated])
  with assms(2) show "Suc (unat n) < 2 ^ 64" by simp
qed

lemma sum_counts_fold:
  "length rs < 2 ^ 64 \<Longrightarrow>
   sum_list (map (\<lambda>(k, n). unat n) (fc_revert_counts (fold (fc_record A T) rs fc_new)))
     = length (filter (\<lambda>r. \<not> tr_success r) rs)"
proof (induction rs rule: rev_induct)
  case Nil
  then show ?case by (simp add: fc_new_def)
next
  case (snoc r rs)
  let ?c = "fold (fc_record A T) rs fc_new"
  have len: "Suc (length rs) < 2 ^ 64" using snoc.prems by simp
  then have acc: "accounts A T rs ?c" by (intro accounts_fold) simp
  note ins = sum_counts_insert [OF counts_small [OF acc len]]
  have IH: "sum_list (map (\<lambda>(k, n). unat n) (fc_revert_counts ?c)) = length (filter (\<lambda>r. \<not> tr_success r) rs)"
    using snoc by simp
  show ?case
  proof (cases "classify A T r")
    case None
    then have "tr_success r" by (simp add: classify_None)
    with None IH show ?thesis by (simp add: fc_record_simps)
  next
    case (Some k)
    then have "\<not> tr_success r" using classify_None [of A T r] by simp
    with Some IH ins [of k] show ?thesis by (simp add: fc_record_simps)
  qed
qed

lemma sorted_by_count:
  "sorted_wrt (\<lambda>a b. rv_count b \<le> rv_count a) (sort_key summary_order xs)"
proof -
  have "sorted (map summary_order (sort_key summary_order xs))" by simp
  then have "sorted_wrt (\<lambda>a b. summary_order a \<le> summary_order b) (sort_key summary_order xs)"
    by (simp only: sorted_wrt_map)
  then show ?thesis
    by (rule sorted_wrt_mono_rel [rotated])
      (auto simp: summary_order_def less_eq_prod_def word_le_def)
qed

lemma sum_list_sort_key: "sum_list (map f (sort_key g xs)) = (sum_list (map f xs) :: nat)"
  by (metis mset_map mset_sort sum_mset_sum_list)

lemma rv_count_summary [simp]: "rv_count (summary_from_key k n) = n"
  by (cases k) simp_all

text \<open>
  C38: the statistics account for every result. When fewer than \<open>2^64\<close> results are recorded
  for a function, its report counts all of them, split into successes and reverts; every
  failed result is in exactly one revert group, so the group counts add up to the number of
  reverts; the groups come most frequent first; and every wall time lies between the
  reported minimum and maximum.
\<close>

theorem stats_account_for_results:
  assumes "length rs < 2 ^ 64"
  shows "let s = fc_snapshot T f (fold (fc_record A T) rs fc_new) in
     unat (fs_calls s) = length rs
   \<and> unat (fs_successful s) + unat (fs_reverts_count s) = length rs
   \<and> unat (fs_reverts_count s) = length (filter (\<lambda>r. \<not> tr_success r) rs)
   \<and> sum_list (map (\<lambda>g. unat (rv_count g)) (fs_reverts s)) = unat (fs_reverts_count s)
   \<and> sorted_wrt (\<lambda>a b. rv_count b \<le> rv_count a) (fs_reverts s)
   \<and> (\<forall>r \<in> set rs. fst (fs_wall s) \<le> clamp_u64 (tr_elapsed r)
        \<and> clamp_u64 (tr_elapsed r) \<le> fst (snd (fs_wall s)))"
proof -
  let ?c = "fold (fc_record A T) rs fc_new"
  let ?s = "fc_snapshot T f ?c"
  have acc: "accounts A T rs ?c" using assms by (rule accounts_fold)
  have n: "unat (fc_calls ?c) = length rs" "unat (fc_successful ?c) = length (filter tr_success rs)"
      "unat (fc_reverts ?c) = length (filter (\<lambda>r. \<not> tr_success r) rs)"
    and w: "\<forall>r \<in> set rs. fc_wall_min ?c \<le> clamp_u64 (tr_elapsed r) \<and> clamp_u64 (tr_elapsed r) \<le> fc_wall_max ?c"
    using acc unfolding accounts_def by blast+
  have "sum_list (map (\<lambda>g. unat (rv_count g)) (fs_reverts ?s)) =
      sum_list (map (\<lambda>(k, n). unat n) (fc_revert_counts ?c))"
    by (simp add: fc_snapshot_def sum_list_sort_key case_prod_unfold comp_def)
  also have "\<dots> = unat (fs_reverts_count ?s)"
    using sum_counts_fold [OF assms] n by (simp add: fc_snapshot_def)
  finally have sum: "sum_list (map (\<lambda>g. unat (rv_count g)) (fs_reverts ?s)) = unat (fs_reverts_count ?s)" .
  have split: "length (filter tr_success rs) + length (filter (\<lambda>r. \<not> tr_success r) rs) = length rs"
    by (rule sum_length_filter_compl)
  have z: "fst (fs_wall ?s) \<le> fc_wall_min ?c" "snd (fs_wall ?s) = (fc_wall_max ?c, snd (snd (fs_wall ?s)))"
    by (simp_all add: fc_snapshot_def)
  show ?thesis
    unfolding Let_def
    using n w sum split z sorted_by_count by (auto simp: fc_snapshot_def intro: order_trans)
qed

theorem stats_account_for_results_witness:
  "sum_list (map (\<lambda>g. unat (rv_count g)) (fs_reverts (fc_snapshot demo_text (demo_fn 1)
     (fold (fc_record demo_abi demo_text) [mk_result True 1 None, mk_result False 1 None] fc_new)))) = 1"
  using stats_account_for_results [of "[mk_result True 1 None, mk_result False 1 None]" demo_text
      "demo_fn 1" demo_abi]
  by (simp add: Let_def mk_result_def)

end
