(* ===== verification/Test_Fuzzer.thy ===== *)
theory Test_Fuzzer
  imports Worker_Pool Test_Corpus Findings Stop_Filters Value_Gen Stats
begin

section \<open>The fuzzer of the test mode\<close>

text \<open>
  \<open>src/src/tester/fuzzer.rs\<close>. The worker loop and \<open>execute_sequence\<close> are cut at their
  accesses to the shared state: the stop flag, the findings, the run counter, the corpus and
  the coverage map, one critical section per step. The counters of calls, gas and function
  statistics, which no worker reads, are updated in the step of the execution they count.
  A step is a function of what the clock says about the deadline. Log lines are left out.
\<close>

subsection \<open>Inputs\<close>

record ('db, 'env, 'cheat) fuzzer =
  fz_chain :: "('db, 'env, 'cheat) chain option"
  fz_target :: "address option"
  fz_deployer :: "address option"
  fz_handlers :: "abi_fn list option"
  fz_invariants :: "abi_fn list option"
  fz_corpus :: "(literal_pool \<times> ('db, 'env, 'cheat) chain t_corpus) option"
  fz_coverage :: "shared_coverage option"
  fz_broken_invariants :: "(nat \<times> findings) option"
  fz_seed :: "u64 option"
  fz_threads :: "nat option"
  fz_max_runs :: "u64 option"
  fz_max_calls :: "nat option"
  fz_timeout :: "nat option"
  fz_stop_on_revert :: "stop_on_revert option"
  fz_stop_on_panic :: "stop_on_panic option"

definition fuzzer_new :: "('db, 'env, 'cheat) fuzzer" where
  "fuzzer_new =
     \<lparr>fz_chain = None, fz_target = None, fz_deployer = None, fz_handlers = None,
      fz_invariants = None, fz_corpus = None, fz_coverage = None, fz_broken_invariants = None,
      fz_seed = None, fz_threads = None, fz_max_runs = None, fz_max_calls = None,
      fz_timeout = None, fz_stop_on_revert = None, fz_stop_on_panic = None\<rparr>"

text \<open>The crates, and the random generator with its seeding.\<close>

record ('db, 'env, 'cheat, 'trace, 'r) fuzz_env =
  fx_ops :: "('db, 'env, 'cheat, 'trace) revm_ops"
  fx_codec :: codec
  fx_text :: text_codec
  fx_rng :: "'r rng_ops"
  fx_seed_rng :: "u64 \<Rightarrow> 'r"

record ('db, 'env, 'cheat, 'trace, 'r) t_exec = "('db, 'env, 'cheat, 'trace, 'r) fuzz_env" +
  fx_chain :: "('db, 'env, 'cheat) chain"
  fx_target :: address
  fx_deployer :: address
  fx_handlers :: "abi_fn list"
  fx_invariants :: "abi_fn list"
  fx_literals :: literal_pool
  fx_limit :: nat
  fx_seed :: u64
  fx_threads :: nat
  fx_max_runs :: u64
  fx_max_calls :: nat
  fx_timeout :: "nat option"
  fx_stop_on_revert :: "stop_on_revert option"
  fx_stop_on_panic :: "stop_on_panic option"

record ('db, 'env, 'cheat) t_shared =
  sf_runs :: u64
  sf_calls :: u64
  sf_gas :: u64
  sf_stop :: bool
  sf_findings :: findings
  sf_corpus :: "('db, 'env, 'cheat) chain t_corpus"
  sf_coverage :: shared_coverage
  sf_stats :: shared_stats

definition f_record_run :: "('db, 'env, 'cheat) t_shared \<Rightarrow> ('db, 'env, 'cheat) t_shared" where
  "f_record_run sh = sh\<lparr>sf_runs := sf_runs sh + 1\<rparr>"

definition f_record_call :: "('db, 'env, 'cheat) t_shared \<Rightarrow> ('db, 'env, 'cheat) t_shared" where
  "f_record_call sh = sh\<lparr>sf_calls := sf_calls sh + 1\<rparr>"

definition f_record_gas ::
  "tx_result list \<Rightarrow> ('db, 'env, 'cheat) t_shared \<Rightarrow> ('db, 'env, 'cheat) t_shared" where
  "f_record_gas results sh = sh\<lparr>sf_gas := sf_gas sh + sum_list (map tr_gas_used results)\<rparr>"

definition f_request_stop :: "('db, 'env, 'cheat) t_shared \<Rightarrow> ('db, 'env, 'cheat) t_shared" where
  "f_request_stop sh = sh\<lparr>sf_stop := True\<rparr>"

definition f_timed_out :: "('db, 'env, 'cheat, 'trace, 'r) t_exec \<Rightarrow> bool \<Rightarrow> bool" where
  "f_timed_out X clock = (case fx_timeout X of Some deadline \<Rightarrow> clock | None \<Rightarrow> False)"

definition score :: "cov_update \<Rightarrow> u64" where
  "score u = of_nat (new_edges u + new_depths u + new_reverts u + new_jump_edges u)"

definition invariant_transaction :: "abi_fn \<Rightarrow> address \<Rightarrow> address \<Rightarrow> transaction" where
  "invariant_transaction f target caller =
     tx_with_calldata (fn_selector f) (tx_with_caller caller (tx_new target))"

text \<open>\<open>split_runs\<close>; the division by zero threads panics.\<close>

definition split_runs :: "u64 \<Rightarrow> nat \<Rightarrow> nat list option" where
  "split_runs runs threads =
     (if threads = 0 then None
      else
        let base = unat runs div threads;
            remainder = unat runs mod threads
        in Some (map (\<lambda>index. base + (if index < remainder then 1 else 0)) [0..<threads]))"

subsection \<open>Picking a sequence\<close>

datatype fuzz_failure =
    Fuzz_Chain chain_error
  | Fuzz_Generator gen_error
  | Fuzz_Panic
  | Fuzz_No_Coverage
  | Fuzz_Value_Missing
  | Fuzz_Value_Undecodable

text \<open>
  Step 1 of the worker. The result is the sequence, the number of its calls the base snapshot
  has already executed, and the snapshot.
\<close>

definition f_fresh ::
  "('db, 'env, 'cheat, 'trace, 'r) t_exec \<Rightarrow>
   ('r, fuzz_failure + seq_calls \<times> nat \<times> ('db, 'env, 'cheat) chain) state" where
  "f_fresh X =
     do {
       s \<leftarrow> t_sequence_random (fx_rng X) (fx_literals X) (fx_handlers X) (fx_max_calls X);
       State_Monad.return (map_sum Fuzz_Generator (\<lambda>calls. (calls, 0, fx_chain X)) s)
     }"

definition f_random_call ::
  "('db, 'env, 'cheat, 'trace, 'r) t_exec \<Rightarrow> ('r, fuzz_failure + call) state" where
  "f_random_call X =
     do {
       f \<leftarrow> pick (fx_rng X) (fx_handlers X);
       case f of
         None \<Rightarrow> State_Monad.return (Inl Fuzz_Panic)
       | Some function \<Rightarrow> do {
           c \<leftarrow> t_call_random (fx_rng X) (fx_literals X) function;
           State_Monad.return (map_sum Fuzz_Generator id c)
         }
     }"

definition f_extend ::
  "('db, 'env, 'cheat, 'trace, 'r) t_exec \<Rightarrow> seq_calls \<Rightarrow> ('db, 'env, 'cheat) chain \<Rightarrow> call \<Rightarrow>
   ('r, fuzz_failure + seq_calls \<times> nat \<times> ('db, 'env, 'cheat) chain) state" where
  "f_extend X base_sequence base_chain call =
     (if length base_sequence \<ge> fx_max_calls X
      then (if base_sequence = [] then State_Monad.return (Inl Fuzz_Panic)
            else do {
              pos \<leftarrow> draw (fx_rng X) 0 (length base_sequence);
              State_Monad.return (Inr (base_sequence[pos := call], 0, fx_chain X))
            })
      else State_Monad.return (Inr (base_sequence @ [call], length base_sequence, base_chain)))"

definition f_pick ::
  "('db, 'env, 'cheat, 'trace, 'r) t_exec \<Rightarrow> ('db, 'env, 'cheat) chain t_corpus \<Rightarrow>
   ('r, fuzz_failure + seq_calls \<times> nat \<times> ('db, 'env, 'cheat) chain) state" where
  "f_pick X corpus =
     do {
       k \<leftarrow> draw (fx_rng X) 0 8;
       if k = 0 then f_fresh X
       else do {
         base \<leftarrow> State (\<lambda>r. t_random_base (fx_rng X) r corpus);
         case base of
           None \<Rightarrow> f_fresh X
         | Some (base_sequence, base_chain) \<Rightarrow> do {
             c \<leftarrow> f_random_call X;
             case c of
               Inl e \<Rightarrow> State_Monad.return (Inl e)
             | Inr call \<Rightarrow> f_extend X base_sequence base_chain call
           }
       }
     }"

subsection \<open>Findings of one execution\<close>

definition report_findings :: "seq_calls \<Rightarrow> bi_report list \<Rightarrow> broken list" where
  "report_findings s reports =
     map (\<lambda>rep. broken_with_description (rep_description rep)
                  (broken_with_id (rep_id rep) (broken_with_calls s broken_new))) reports"

definition handler_findings :: "seq_calls \<Rightarrow> bi_report list list \<Rightarrow> broken list" where
  "handler_findings s reports = (case reports of [] \<Rightarrow> [] | first # _ \<Rightarrow> report_findings s first)"

text \<open>The finding a result halts with, by the revert filter or else by the panic filter.\<close>

definition revert_halt ::
  "('db, 'env, 'cheat, 'trace, 'r) t_exec \<Rightarrow> seq_calls \<Rightarrow> tx_result \<Rightarrow> broken option" where
  "revert_halt X s r =
     (case fx_stop_on_revert X of
        Some f \<Rightarrow>
          if revert_matches (ro_abi (fx_ops X)) f r
          then Some (broken_with_id (revert_finding_id (fx_text X) r) (broken_with_calls s broken_new))
          else None
      | None \<Rightarrow> None)"

definition panic_halt ::
  "('db, 'env, 'cheat, 'trace, 'r) t_exec \<Rightarrow> seq_calls \<Rightarrow> tx_result \<Rightarrow> broken option" where
  "panic_halt X s r =
     (case fx_stop_on_panic X of
        Some f \<Rightarrow>
          if panic_matches (ro_abi (fx_ops X)) f r
          then Some (broken_with_id (panic_finding_id (ro_abi (fx_ops X)) (fx_text X) r)
                       (broken_with_calls s broken_new))
          else None
      | None \<Rightarrow> None)"

definition handler_halt ::
  "('db, 'env, 'cheat, 'trace, 'r) t_exec \<Rightarrow> seq_calls \<Rightarrow> tx_result \<Rightarrow> broken option" where
  "handler_halt X s r = (case revert_halt X s r of Some b \<Rightarrow> Some b | None \<Rightarrow> panic_halt X s r)"

definition invariant_call :: "abi_fn \<Rightarrow> call" where
  "invariant_call f = \<lparr>call_fn = f, call_args = VTuple []\<rparr>"

text \<open>The reports of the invariants in order: each ends with its own invariant call.\<close>

definition invariant_findings :: "seq_calls \<Rightarrow> abi_fn list \<Rightarrow> bi_report list list \<Rightarrow> broken list" where
  "invariant_findings s invariants reports =
     concat (map (\<lambda>(f, reps). report_findings (s @ [invariant_call f]) reps) (zip invariants reports))"

definition invariant_halt ::
  "('db, 'env, 'cheat, 'trace, 'r) t_exec \<Rightarrow> seq_calls \<Rightarrow> abi_fn list \<Rightarrow> tx_result list \<Rightarrow>
   broken option" where
  "invariant_halt X s invariants results =
     (let checks = zip invariants results in
      case List.map_filter (\<lambda>(f, r). revert_halt X (s @ [invariant_call f]) r) checks of
        b # _ \<Rightarrow> Some b
      | [] \<Rightarrow>
          (case List.map_filter (\<lambda>(f, r). panic_halt X (s @ [invariant_call f]) r) checks of
             b # _ \<Rightarrow> Some b
           | [] \<Rightarrow> None))"

subsection \<open>The worker\<close>

record ('db, 'env, 'cheat) run_ctx =
  cx_left :: nat
  cx_sequence :: seq_calls
  cx_index :: nat
  cx_chain :: "('db, 'env, 'cheat) chain"
  cx_edges :: u64

datatype f_next = N_Handler | N_Invariants | N_Halt broken

datatype ('db, 'env, 'cheat) f_pc =
    F_Loop nat
  | F_Full nat
  | F_Begin nat
  | F_Pick nat
  | F_Handler "('db, 'env, 'cheat) run_ctx"
  | F_Merge "('db, 'env, 'cheat) run_ctx" "exec_coverage option" "broken list" f_next
  | F_Submit "('db, 'env, 'cheat) run_ctx" "broken list" f_next
  | F_Invariants "('db, 'env, 'cheat) run_ctx"
  | F_Halt nat broken
  | F_Keep "('db, 'env, 'cheat) run_ctx"
  | F_Check nat
  | F_Stop "nat option"
  | F_Done
  | F_Failed fuzz_failure

record ('db, 'env, 'cheat, 'r) f_worker =
  fw_pc :: "('db, 'env, 'cheat) f_pc"
  fw_rng :: 'r

text \<open>
  Steps 1 and 2 of \<open>execute_sequence\<close>: the next call is committed on the working chain. The
  context moves to the next call when no invariants have to be checked after this one.
\<close>

definition f_handler ::
  "('db, 'env, 'cheat, 'trace, 'r) t_exec \<Rightarrow> ('db, 'env, 'cheat) t_shared \<Rightarrow>
   ('db, 'env, 'cheat) run_ctx \<Rightarrow> call \<Rightarrow> ('db, 'env, 'cheat) t_shared \<times> ('db, 'env, 'cheat) f_pc" where
  "f_handler X sh ctx call =
     (case chain_exec (fx_ops X) [call_transaction (fx_codec X) (fx_target X) (fx_deployer X) call]
             (cx_chain ctx) of
        (Inl e, _) \<Rightarrow> (sh, F_Failed (Fuzz_Chain e))
      | (Inr exec, chain') \<Rightarrow>
          (case eo_results exec of
             [] \<Rightarrow> (sh, F_Failed Fuzz_Panic)
           | result # _ \<Rightarrow>
               let sh1 = f_record_gas (eo_results exec) (f_record_call sh);
                   sh2 = (case position (\<lambda>h. fn_selector h = fn_selector (call_fn call)) (fx_handlers X) of
                            Some i \<Rightarrow> sh1\<lparr>sf_stats := record_handler (ro_abi (fx_ops X)) (fx_text X) i
                                                        result (sf_stats sh1)\<rparr>
                          | None \<Rightarrow> sh1);
                   s = take (Suc (cx_index ctx)) (cx_sequence ctx);
                   ctx1 = ctx\<lparr>cx_chain := chain'\<rparr>;
                   findings = handler_findings s (eo_broken_invariants exec)
               in (sh2, case handler_halt X s result of
                          Some b \<Rightarrow> F_Merge ctx1 (eo_coverage exec) findings (N_Halt b)
                        | None \<Rightarrow>
                            if fx_invariants X = []
                            then F_Merge (ctx1\<lparr>cx_index := Suc (cx_index ctx)\<rparr>) (eo_coverage exec) findings
                                   N_Handler
                            else F_Merge ctx1 (eo_coverage exec) findings N_Invariants)))"

definition record_invariants ::
  "sol_abi \<Rightarrow> text_codec \<Rightarrow> tx_result list \<Rightarrow> shared_stats \<Rightarrow> shared_stats" where
  "record_invariants A T results st =
     fold (\<lambda>(i, r). record_invariant A T i r) (enumerate 0 results) st"

text \<open>Step 3: all invariants run on a clone of the working chain, which is then dropped.\<close>

definition f_invariants ::
  "('db, 'env, 'cheat, 'trace, 'r) t_exec \<Rightarrow> ('db, 'env, 'cheat) t_shared \<Rightarrow>
   ('db, 'env, 'cheat) run_ctx \<Rightarrow> ('db, 'env, 'cheat) t_shared \<times> ('db, 'env, 'cheat) f_pc" where
  "f_invariants X sh ctx =
     (case fst (chain_exec (fx_ops X)
             (map (\<lambda>f. invariant_transaction f (fx_target X) (fx_deployer X)) (fx_invariants X))
             (cx_chain ctx)) of
        Inl e \<Rightarrow> (sh, F_Failed (Fuzz_Chain e))
      | Inr exec \<Rightarrow>
          let sh1 = f_record_gas (eo_results exec) sh;
              sh2 = sh1\<lparr>sf_stats := record_invariants (ro_abi (fx_ops X)) (fx_text X) (eo_results exec)
                                      (sf_stats sh1)\<rparr>;
              s = take (Suc (cx_index ctx)) (cx_sequence ctx);
              findings = invariant_findings s (fx_invariants X) (eo_broken_invariants exec);
              ctx1 = ctx\<lparr>cx_index := Suc (cx_index ctx)\<rparr>
          in (sh2, case invariant_halt X s (fx_invariants X) (eo_results exec) of
                     Some b \<Rightarrow> F_Merge ctx1 (eo_coverage exec) findings (N_Halt b)
                   | None \<Rightarrow> F_Merge ctx1 (eo_coverage exec) findings N_Handler))"

definition f_merge ::
  "('db, 'env, 'cheat) t_shared \<Rightarrow> ('db, 'env, 'cheat) run_ctx \<Rightarrow> exec_coverage option \<Rightarrow>
   broken list \<Rightarrow> f_next \<Rightarrow> ('db, 'env, 'cheat) t_shared \<times> ('db, 'env, 'cheat) f_pc" where
  "f_merge sh ctx coverage findings next =
     (case coverage of
        None \<Rightarrow> (sh, F_Submit ctx findings next)
      | Some c \<Rightarrow>
          (case cov_merge c (sf_coverage sh) of
             None \<Rightarrow> (sh, F_Failed Fuzz_Panic)
           | Some (update, cov') \<Rightarrow>
               (sh\<lparr>sf_coverage := cov'\<rparr>,
                F_Submit (ctx\<lparr>cx_edges := cx_edges ctx + score update\<rparr>) findings next)))"

definition f_add_finding ::
  "('db, 'env, 'cheat, 'trace, 'r) t_exec \<Rightarrow> broken \<Rightarrow> ('db, 'env, 'cheat) t_shared \<Rightarrow>
   ('db, 'env, 'cheat) t_shared" where
  "f_add_finding X b sh = sh\<lparr>sf_findings := snd (try_add (fx_limit X) b (sf_findings sh))\<rparr>"

definition after_findings :: "('db, 'env, 'cheat) run_ctx \<Rightarrow> f_next \<Rightarrow> ('db, 'env, 'cheat) f_pc" where
  "after_findings ctx next =
     (case next of
        N_Handler \<Rightarrow> F_Handler ctx
      | N_Invariants \<Rightarrow> F_Invariants ctx
      | N_Halt b \<Rightarrow> F_Halt (cx_left ctx) b)"

text \<open>Step 4: the sequence joins the corpus when it brought new coverage.\<close>

definition f_keep ::
  "('db, 'env, 'cheat) t_shared \<Rightarrow> ('db, 'env, 'cheat) run_ctx \<Rightarrow> ('db, 'env, 'cheat) t_shared" where
  "f_keep sh ctx =
     (if cx_edges ctx > 0
      then sh\<lparr>sf_corpus := t_add (cx_sequence ctx) (cx_edges ctx) (cx_chain ctx) (sf_corpus sh)\<rparr>
      else sh)"

definition f_step ::
  "('db, 'env, 'cheat, 'trace, 'r) t_exec \<Rightarrow>
   (('db, 'env, 'cheat) t_shared, ('db, 'env, 'cheat, 'r) f_worker) worker_step" where
  "f_step X clock sh w =
     (let goto = (\<lambda>(sh', pc). (sh', w\<lparr>fw_pc := pc\<rparr>)) in
      case fw_pc w of
        F_Loop n \<Rightarrow>
          goto (sh, if n = 0 \<or> sf_stop sh \<or> f_timed_out X clock then F_Done else F_Full (n - 1))
      | F_Full n \<Rightarrow>
          goto (sh, if findings_full (fx_limit X) (sf_findings sh) then F_Stop None else F_Begin n)
      | F_Begin n \<Rightarrow> goto (f_record_run sh, F_Pick n)
      | F_Pick n \<Rightarrow>
          (case run_state (f_pick X (sf_corpus sh)) (fw_rng w) of
             (Inl e, r) \<Rightarrow> (sh, w\<lparr>fw_pc := F_Failed e, fw_rng := r\<rparr>)
           | (Inr (s, i, ch), r) \<Rightarrow>
               (sh, w\<lparr>fw_pc := F_Handler \<lparr>cx_left = n, cx_sequence = s, cx_index = i, cx_chain = ch,
                                          cx_edges = 0\<rparr>, fw_rng := r\<rparr>))
      | F_Handler ctx \<Rightarrow>
          goto (if cx_index ctx < length (cx_sequence ctx)
                then f_handler X sh ctx (cx_sequence ctx ! cx_index ctx)
                else (sh, F_Keep ctx))
      | F_Merge ctx coverage findings next \<Rightarrow> goto (f_merge sh ctx coverage findings next)
      | F_Submit ctx findings next \<Rightarrow>
          goto (case findings of
                  [] \<Rightarrow> (sh, after_findings ctx next)
                | b # rest \<Rightarrow> (f_add_finding X b sh, F_Submit ctx rest next))
      | F_Invariants ctx \<Rightarrow> goto (f_invariants X sh ctx)
      | F_Halt n b \<Rightarrow> goto (f_add_finding X b sh, F_Stop (Some n))
      | F_Keep ctx \<Rightarrow> goto (f_keep sh ctx, F_Check (cx_left ctx))
      | F_Check n \<Rightarrow>
          goto (sh, if findings_full (fx_limit X) (sf_findings sh) then F_Stop (Some n) else F_Loop n)
      | F_Stop next \<Rightarrow>
          goto (f_request_stop sh, case next of Some n \<Rightarrow> F_Loop n | None \<Rightarrow> F_Done)
      | F_Done \<Rightarrow> (sh, w)
      | F_Failed e \<Rightarrow> (sh, w))"

subsection \<open>The campaign\<close>

datatype not_set =
    Chain_Not_Set | Target_Not_Set | Deployer_Not_Set | Handlers_Not_Set | Invariants_Not_Set
  | Corpus_Not_Set | Coverage_Not_Set | Broken_Invariants_Not_Set

text \<open>Step 1 of \<open>run\<close>: the resolved inputs and the shared state the threads start from.\<close>

definition f_resolve ::
  "('db, 'env, 'cheat, 'trace, 'r) fuzz_env \<Rightarrow> ('db, 'env, 'cheat) fuzzer \<Rightarrow>
   not_set + ('db, 'env, 'cheat, 'trace, 'r) t_exec \<times> ('db, 'env, 'cheat) t_shared" where
  "f_resolve E fz =
     (let handlers = (case fz_handlers fz of None \<Rightarrow> 0 | Some hs \<Rightarrow> length hs);
          invariants = (case fz_invariants fz of None \<Rightarrow> 0 | Some is \<Rightarrow> length is);
          stats = stats_new handlers invariants
      in
      case fz_chain fz of None \<Rightarrow> Inl Chain_Not_Set | Some chain \<Rightarrow>
     (case fz_target fz of None \<Rightarrow> Inl Target_Not_Set | Some target \<Rightarrow>
     (case fz_deployer fz of None \<Rightarrow> Inl Deployer_Not_Set | Some deployer \<Rightarrow>
     (case fz_handlers fz of None \<Rightarrow> Inl Handlers_Not_Set | Some handlers \<Rightarrow>
     (case fz_invariants fz of None \<Rightarrow> Inl Invariants_Not_Set | Some invariants \<Rightarrow>
     (case fz_corpus fz of None \<Rightarrow> Inl Corpus_Not_Set | Some (literals, corpus) \<Rightarrow>
     (case fz_coverage fz of None \<Rightarrow> Inl Coverage_Not_Set | Some coverage \<Rightarrow>
     (case fz_broken_invariants fz of None \<Rightarrow> Inl Broken_Invariants_Not_Set | Some (limit, findings) \<Rightarrow>
        Inr (\<lparr>fx_ops = fx_ops E, fx_codec = fx_codec E, fx_text = fx_text E, fx_rng = fx_rng E,
              fx_seed_rng = fx_seed_rng E, fx_chain = chain, fx_target = target,
              fx_deployer = deployer, fx_handlers = handlers, fx_invariants = invariants,
              fx_literals = literals, fx_limit = limit,
              fx_seed = (case fz_seed fz of None \<Rightarrow> 0 | Some seed \<Rightarrow> seed),
              fx_threads = (case fz_threads fz of None \<Rightarrow> 1 | Some n \<Rightarrow> n),
              fx_max_runs = (case fz_max_runs fz of None \<Rightarrow> 0 | Some n \<Rightarrow> n),
              fx_max_calls = (case fz_max_calls fz of None \<Rightarrow> 8 | Some n \<Rightarrow> n),
              fx_timeout = fz_timeout fz, fx_stop_on_revert = fz_stop_on_revert fz,
              fx_stop_on_panic = fz_stop_on_panic fz\<rparr>,
             \<lparr>sf_runs = 0, sf_calls = 0, sf_gas = 0, sf_stop = False, sf_findings = findings,
              sf_corpus = corpus, sf_coverage = coverage, sf_stats = stats\<rparr>)))))))))"

definition f_spawn ::
  "('db, 'env, 'cheat, 'trace, 'r) t_exec \<Rightarrow> nat list \<Rightarrow> ('db, 'env, 'cheat, 'r) f_worker list" where
  "f_spawn X budgets =
     map (\<lambda>(i, budget). \<lparr>fw_pc = F_Loop budget, fw_rng = fx_seed_rng X (fx_seed X + of_nat i)\<rparr>)
       (enumerate 0 budgets)"

fun f_finished :: "('db, 'env, 'cheat) f_pc \<Rightarrow> bool" where
  "f_finished F_Done = True"
| "f_finished (F_Failed e) = True"
| "f_finished _ = False"

definition f_failures :: "('db, 'env, 'cheat, 'r) f_worker list \<Rightarrow> fuzz_failure list" where
  "f_failures ws = List.map_filter (\<lambda>w. case fw_pc w of F_Failed e \<Rightarrow> Some e | _ \<Rightarrow> None) ws"

record f_output =
  ou_runs :: u64
  ou_broken_invariants :: "broken list"
  ou_stats :: shared_stats

definition f_finish :: "('db, 'env, 'cheat) t_shared \<Rightarrow> f_output" where
  "f_finish sh =
     \<lparr>ou_runs = sf_runs sh, ou_broken_invariants = fi_items (sf_findings sh), ou_stats = sf_stats sh\<rparr>"

text \<open>
  \<open>run\<close> under a schedule of its threads. \<open>R_Running\<close>: some thread has not finished under this
  schedule; \<open>R_Panicked\<close>: the main thread panics; a failure comes with the number of failed
  threads.
\<close>

datatype 'o run_result =
    R_Not_Set not_set
  | R_Panicked
  | R_Running
  | R_Failed fuzz_failure nat
  | R_Finished 'o

definition f_start ::
  "('db, 'env, 'cheat, 'trace, 'r) t_exec \<Rightarrow> ('db, 'env, 'cheat) t_shared \<Rightarrow>
   (('db, 'env, 'cheat) t_shared \<times> ('db, 'env, 'cheat, 'r) f_worker list) option" where
  "f_start X sh = map_option (\<lambda>budgets. (sh, f_spawn X budgets)) (split_runs (fx_max_runs X) (fx_threads X))"

definition f_run ::
  "('db, 'env, 'cheat, 'trace, 'r) fuzz_env \<Rightarrow> ('db, 'env, 'cheat) fuzzer \<Rightarrow> (nat \<times> bool) list \<Rightarrow>
   f_output run_result \<times> ('db, 'env, 'cheat) t_shared option" where
  "f_run E fz sched =
     (case f_resolve E fz of
        Inl e \<Rightarrow> (R_Not_Set e, None)
      | Inr (X, sh) \<Rightarrow>
          if fx_handlers X = [] then (R_Finished (f_finish sh), Some sh)
          else
            (case f_start X sh of
               None \<Rightarrow> (R_Panicked, Some sh)
             | Some start \<Rightarrow>
                 let (sh', ws) = run_schedule (f_step X) sched start
                 in (if list_all (\<lambda>w. f_finished (fw_pc w)) ws
                     then case f_failures ws of
                            [] \<Rightarrow> R_Finished (f_finish sh')
                          | e # es \<Rightarrow> R_Failed e (length (e # es))
                     else R_Running,
                     Some sh')))"

end
