(* ===== verification/Test_Campaign.thy ===== *)
theory Test_Campaign
  imports Test_Fuzzer
begin

section \<open>Campaigns of the test mode\<close>

text \<open>
  What holds of every interleaving of the threads of \<open>Test_Fuzzer\<close>: the findings were really
  observed, the snapshots of the corpus are the states their sequences lead to, the budgets
  are respected, threads fail only when the machine does, and every campaign ends.
\<close>

subsection \<open>States reached by calls\<close>

text \<open>The calls one after the other, each an execution of its own, as the worker runs them.\<close>

fun replay_calls ::
  "('db, 'env, 'cheat, 'trace, 'r) t_exec \<Rightarrow> ('db, 'env, 'cheat) chain \<Rightarrow> seq_calls \<Rightarrow>
   ('db, 'env, 'cheat) chain option" where
  "replay_calls X ch [] = Some ch"
| "replay_calls X ch (c # cs) =
     (case chain_exec (fx_ops X) [call_transaction (fx_codec X) (fx_target X) (fx_deployer X) c] ch of
        (Inl e, _) \<Rightarrow> None
      | (Inr out, ch') \<Rightarrow> replay_calls X ch' cs)"

lemma replay_append:
  "replay_calls X ch (cs @ ds) = Option.bind (replay_calls X ch cs) (\<lambda>ch'. replay_calls X ch' ds)"
  by (induction cs arbitrary: ch) (auto split: prod.splits sum.splits)

text \<open>The states a campaign starts from: the initial chain and the snapshots it is given.\<close>

definition is_base ::
  "('db, 'env, 'cheat, 'trace, 'r) t_exec \<Rightarrow> ('db, 'env, 'cheat) chain t_corpus \<Rightarrow> seq_calls \<Rightarrow>
   ('db, 'env, 'cheat) chain \<Rightarrow> bool" where
  "is_base X C0 bs bc \<longleftrightarrow>
     bs = [] \<and> bc = fx_chain X \<or> (\<exists>e \<in> set C0. tn_sequence e = bs \<and> tn_chain e = Some bc)"

definition derived ::
  "('db, 'env, 'cheat, 'trace, 'r) t_exec \<Rightarrow> ('db, 'env, 'cheat) chain t_corpus \<Rightarrow> seq_calls \<Rightarrow>
   ('db, 'env, 'cheat) chain \<Rightarrow> bool" where
  "derived X C0 s ch \<longleftrightarrow>
     (\<exists>bs bc cs. is_base X C0 bs bc \<and> s = bs @ cs \<and> replay_calls X bc cs = Some ch)"

lemma derived_initial: "derived X C0 [] (fx_chain X)"
  by (auto simp: derived_def is_base_def)

lemma derived_given: "e \<in> set C0 \<Longrightarrow> tn_chain e = Some ch \<Longrightarrow> derived X C0 (tn_sequence e) ch"
  unfolding derived_def is_base_def
  by (intro exI [of _ "tn_sequence e"] exI [of _ ch] exI [of _ "[]"]) auto

lemma derived_step:
  assumes "derived X C0 s ch"
    and "chain_exec (fx_ops X) [call_transaction (fx_codec X) (fx_target X) (fx_deployer X) c] ch
         = (Inr out, ch')"
  shows "derived X C0 (s @ [c]) ch'"
proof -
  from assms(1) obtain bs bc cs where "is_base X C0 bs bc" "s = bs @ cs" "replay_calls X bc cs = Some ch"
    by (auto simp: derived_def)
  with assms(2) show ?thesis
    unfolding derived_def
    by (intro exI [of _ bs] exI [of _ bc] exI [of _ "cs @ [c]"]) (simp add: replay_append)
qed

subsection \<open>Observed findings\<close>

text \<open>A result explains a finding: it reports its id, or a stop filter matches it.\<close>

definition explains ::
  "('db, 'env, 'cheat, 'trace, 'r) t_exec \<Rightarrow> tx_result \<Rightarrow> broken \<Rightarrow> bool" where
  "explains X r b \<longleftrightarrow>
     (\<exists>rep. broken_invariant (ro_abi (fx_ops X)) r = Some rep \<and> br_id b = rep_id rep
        \<and> br_description b = rep_description rep)
   \<or> (\<exists>f. fx_stop_on_revert X = Some f \<and> revert_matches (ro_abi (fx_ops X)) f r
        \<and> br_id b = revert_finding_id (fx_text X) r)
   \<or> (\<exists>f. fx_stop_on_panic X = Some f \<and> panic_matches (ro_abi (fx_ops X)) f r
        \<and> br_id b = panic_finding_id (ro_abi (fx_ops X)) (fx_text X) r)"

definition was_observed ::
  "('db, 'env, 'cheat, 'trace, 'r) t_exec \<Rightarrow> ('db, 'env, 'cheat) chain t_corpus \<Rightarrow> broken \<Rightarrow> bool" where
  "was_observed X C0 b \<longleftrightarrow>
     (\<exists>s ch c out ch'. derived X C0 s ch
        \<and> chain_exec (fx_ops X) [call_transaction (fx_codec X) (fx_target X) (fx_deployer X) c] ch
          = (Inr out, ch')
        \<and> br_sequence b = s @ [c] \<and> explains X (eo_results out ! 0) b)
   \<or> (\<exists>s ch i out ch'. derived X C0 s ch
        \<and> chain_exec (fx_ops X)
            (map (\<lambda>f. invariant_transaction f (fx_target X) (fx_deployer X)) (fx_invariants X)) ch
          = (Inr out, ch')
        \<and> i < length (fx_invariants X)
        \<and> br_sequence b = s @ [invariant_call (fx_invariants X ! i)]
        \<and> explains X (eo_results out ! i) b)"

lemma revert_halt_explains: "revert_halt X s r = Some b \<Longrightarrow> br_sequence b = s \<and> explains X r b"
  by (auto simp: revert_halt_def explains_def broken_with_id_def broken_with_calls_def
      split: option.splits if_splits)

lemma panic_halt_explains: "panic_halt X s r = Some b \<Longrightarrow> br_sequence b = s \<and> explains X r b"
  by (auto simp: panic_halt_def explains_def broken_with_id_def broken_with_calls_def
      split: option.splits if_splits)

lemma handler_halt_explains: "handler_halt X s r = Some b \<Longrightarrow> br_sequence b = s \<and> explains X r b"
  by (auto simp: handler_halt_def dest: revert_halt_explains panic_halt_explains split: option.splits)

lemma report_findings_explain:
  assumes "b \<in> set (report_findings s (report_list (ro_abi (fx_ops X)) r))"
  shows "br_sequence b = s \<and> explains X r b"
proof -
  from assms obtain rep where "broken_invariant (ro_abi (fx_ops X)) r = Some rep"
    "b \<in> set (report_findings s [rep])"
    by (cases "broken_invariant (ro_abi (fx_ops X)) r") (auto simp: report_findings_def report_list_def)
  then show ?thesis
    by (simp add: report_findings_def explains_def broken_with_description_def broken_with_id_def
        broken_with_calls_def)
qed

lemma handler_findings_explain:
  "b \<in> set (handler_findings s (map (report_list (ro_abi (fx_ops X))) rs)) \<Longrightarrow>
   br_sequence b = s \<and> explains X (rs ! 0) b"
  by (cases rs) (auto simp: handler_findings_def dest: report_findings_explain)

lemma invariant_findings_explain:
  assumes "b \<in> set (invariant_findings s fs (map (report_list (ro_abi (fx_ops X))) rs))"
  shows "\<exists>i < length fs. i < length rs \<and> br_sequence b = s @ [invariant_call (fs ! i)]
     \<and> explains X (rs ! i) b"
proof -
  from assms obtain i where "i < length fs" "i < length rs"
    "b \<in> set (report_findings (s @ [invariant_call (fs ! i)]) (report_list (ro_abi (fx_ops X)) (rs ! i)))"
    by (force simp: invariant_findings_def in_set_zip)
  with report_findings_explain show ?thesis by blast
qed

lemma invariant_halt_explains:
  assumes "invariant_halt X s fs rs = Some b"
  shows "\<exists>i < length fs. i < length rs \<and> br_sequence b = s @ [invariant_call (fs ! i)]
     \<and> explains X (rs ! i) b"
proof -
  have "\<exists>(f, r) \<in> set (zip fs rs). revert_halt X (s @ [invariant_call f]) r = Some b
      \<or> panic_halt X (s @ [invariant_call f]) r = Some b"
    using assms
    by (auto simp: invariant_halt_def Let_def List.map_filter_def filter_eq_Cons_iff
        split: list.splits; fastforce)
  then obtain i where "i < length fs" "i < length rs"
    "revert_halt X (s @ [invariant_call (fs ! i)]) (rs ! i) = Some b
     \<or> panic_halt X (s @ [invariant_call (fs ! i)]) (rs ! i) = Some b"
    by (auto simp: in_set_zip)
  with revert_halt_explains panic_halt_explains show ?thesis by blast
qed

subsection \<open>The parts of a step\<close>

text \<open>What an execution step leaves alone.\<close>

definition counts_only :: "('db, 'env, 'cheat) t_shared \<Rightarrow> ('db, 'env, 'cheat) t_shared \<Rightarrow> bool" where
  "counts_only sh sh' \<longleftrightarrow>
     sf_runs sh' = sf_runs sh \<and> sf_stop sh' = sf_stop sh \<and> sf_findings sh' = sf_findings sh
   \<and> sf_corpus sh' = sf_corpus sh \<and> sf_coverage sh' = sf_coverage sh"

definition next_after :: "('db, 'env, 'cheat, 'trace, 'r) t_exec \<Rightarrow> broken option \<Rightarrow> bool \<Rightarrow> f_next" where
  "next_after X halt checked =
     (case halt of
        Some b \<Rightarrow> N_Halt b
      | None \<Rightarrow> if checked \<or> fx_invariants X = [] then N_Handler else N_Invariants)"

lemma f_handler_cases:
  assumes "f_handler X sh ctx call = (sh', pc)"
  obtains (failed) e where "sh' = sh" and "pc = F_Failed (Fuzz_Chain e)"
  | (executed) out ch' r where
      "chain_exec (fx_ops X) [call_transaction (fx_codec X) (fx_target X) (fx_deployer X) call] (cx_chain ctx)
       = (Inr out, ch')"
      and "counts_only sh sh'" and "eo_results out = [r]"
      and "pc = F_Merge
         (ctx\<lparr>cx_chain := ch', cx_index :=
            (if next_after X (handler_halt X (take (Suc (cx_index ctx)) (cx_sequence ctx)) r) False = N_Handler
             then Suc (cx_index ctx) else cx_index ctx)\<rparr>)
         (eo_coverage out)
         (handler_findings (take (Suc (cx_index ctx)) (cx_sequence ctx)) (eo_broken_invariants out))
         (next_after X (handler_halt X (take (Suc (cx_index ctx)) (cx_sequence ctx)) r) False)"
proof (cases "chain_exec (fx_ops X) [call_transaction (fx_codec X) (fx_target X) (fx_deployer X) call]
    (cx_chain ctx)")
  case (Pair res ch')
  show ?thesis
  proof (cases res)
    case (Inl e)
    with assms Pair have "sh' = sh" "pc = F_Failed (Fuzz_Chain e)" by (simp_all add: f_handler_def)
    then show ?thesis by (rule failed)
  next
    case (Inr out)
    with Pair have run: "chain_exec (fx_ops X)
        [call_transaction (fx_codec X) (fx_target X) (fx_deployer X) call] (cx_chain ctx) = (Inr out, ch')"
      by simp
    from chain_exec_results [OF run] obtain r where r: "eo_results out = [r]"
      by (auto simp: length_Suc_conv)
    show ?thesis
    proof (rule executed [OF run _ r])
      show "counts_only sh sh'"
        using assms run r
        by (auto simp: f_handler_def Let_def counts_only_def f_record_call_def f_record_gas_def
            split: option.splits)
      show "pc = F_Merge
         (ctx\<lparr>cx_chain := ch', cx_index :=
            (if next_after X (handler_halt X (take (Suc (cx_index ctx)) (cx_sequence ctx)) r) False = N_Handler
             then Suc (cx_index ctx) else cx_index ctx)\<rparr>)
         (eo_coverage out)
         (handler_findings (take (Suc (cx_index ctx)) (cx_sequence ctx)) (eo_broken_invariants out))
         (next_after X (handler_halt X (take (Suc (cx_index ctx)) (cx_sequence ctx)) r) False)"
        using assms run r
        by (auto simp: f_handler_def Let_def next_after_def split: option.splits if_splits)
    qed
  qed
qed

lemma f_invariants_cases:
  assumes "f_invariants X sh ctx = (sh', pc)"
  obtains (failed) e where "sh' = sh" and "pc = F_Failed (Fuzz_Chain e)"
  | (executed) out ch' where
      "chain_exec (fx_ops X)
         (map (\<lambda>f. invariant_transaction f (fx_target X) (fx_deployer X)) (fx_invariants X)) (cx_chain ctx)
       = (Inr out, ch')"
      and "counts_only sh sh'"
      and "pc = F_Merge (ctx\<lparr>cx_index := Suc (cx_index ctx)\<rparr>) (eo_coverage out)
         (invariant_findings (take (Suc (cx_index ctx)) (cx_sequence ctx)) (fx_invariants X)
            (eo_broken_invariants out))
         (next_after X (invariant_halt X (take (Suc (cx_index ctx)) (cx_sequence ctx)) (fx_invariants X)
            (eo_results out)) True)"
proof (cases "chain_exec (fx_ops X)
    (map (\<lambda>f. invariant_transaction f (fx_target X) (fx_deployer X)) (fx_invariants X)) (cx_chain ctx)")
  case (Pair res ch')
  show ?thesis
  proof (cases res)
    case (Inl e)
    with assms Pair have "sh' = sh" "pc = F_Failed (Fuzz_Chain e)" by (simp_all add: f_invariants_def)
    then show ?thesis by (rule failed)
  next
    case (Inr out)
    with Pair have run: "chain_exec (fx_ops X)
        (map (\<lambda>f. invariant_transaction f (fx_target X) (fx_deployer X)) (fx_invariants X)) (cx_chain ctx)
        = (Inr out, ch')" by simp
    show ?thesis
      by (rule executed [OF run])
        (use assms run in \<open>auto simp: f_invariants_def Let_def counts_only_def f_record_gas_def
           next_after_def split: option.splits\<close>)
  qed
qed

lemma f_merge_cases:
  assumes "f_merge sh ctx coverage findings next = (sh', pc)"
  obtains (panicked) c where "coverage = Some c" and "cov_merge c (sf_coverage sh) = None"
      and "sh' = sh" and "pc = F_Failed Fuzz_Panic"
  | (merged) edges where "pc = F_Submit (ctx\<lparr>cx_edges := edges\<rparr>) findings next"
      and "sf_runs sh' = sf_runs sh" and "sf_stop sh' = sf_stop sh"
      and "sf_findings sh' = sf_findings sh" and "sf_corpus sh' = sf_corpus sh"
      and "sf_coverage sh' = sf_coverage sh
         \<or> (\<exists>c u. coverage = Some c \<and> cov_merge c (sf_coverage sh) = Some (u, sf_coverage sh'))"
proof (cases coverage)
  case None
  with assms show ?thesis
    by (intro merged [of "cx_edges ctx"]) (auto simp: f_merge_def)
next
  case (Some c)
  show ?thesis
  proof (cases "cov_merge c (sf_coverage sh)")
    case None
    with Some assms show ?thesis by (intro panicked [of c]) (auto simp: f_merge_def)
  next
    case (Some uc)
    then obtain u c' where "cov_merge c (sf_coverage sh) = Some (u, c')" by (cases uc) auto
    with assms \<open>coverage = Some c\<close> show ?thesis
      by (intro merged [of "cx_edges ctx + score u"]) (auto simp: f_merge_def)
  qed
qed

text \<open>The sequences a run may execute: fresh, mutated or extended ones, from a known state.\<close>

lemma t_random_base_in:
  assumes "t_random_base R r C = (Some (s, ch), r')"
  shows "\<exists>e \<in> set C. tn_sequence e = s \<and> tn_chain e = Some ch"
proof -
  have base: "\<exists>e \<in> set C. tn_sequence e = s \<and> tn_chain e = Some ch"
    if "e \<in> set (t_replayed C)" "t_base_of e = Some (s, ch)" for e
    using that by (auto simp: t_replayed_def t_base_of_def)
  show ?thesis
    using assms base last_in_set
    by (fastforce simp: t_random_base_def Let_def dest: weighted_pick_in
        split: if_splits prod.splits option.splits)
qed

lemma pred_random_base:
  "pred_state (\<lambda>b. case b of None \<Rightarrow> True
      | Some (s, ch) \<Rightarrow> \<exists>e \<in> set C. tn_sequence e = s \<and> tn_chain e = Some ch)
    (State (\<lambda>r. t_random_base R r C))"
  by (rule pred_stateI) (auto split: option.splits intro: t_random_base_in prod_eqI)

definition corpus_ok ::
  "('db, 'env, 'cheat, 'trace, 'r) t_exec \<Rightarrow> ('db, 'env, 'cheat) chain t_corpus \<Rightarrow>
   ('db, 'env, 'cheat) chain t_corpus \<Rightarrow> bool" where
  "corpus_ok X C0 C \<longleftrightarrow> (\<forall>e \<in> set C. \<forall>ch. tn_chain e = Some ch \<longrightarrow> derived X C0 (tn_sequence e) ch)"

lemma corpus_ok_given: "corpus_ok X C0 C0"
  by (auto simp: corpus_ok_def intro: derived_given)

lemma corpus_ok_add:
  "corpus_ok X C0 C \<Longrightarrow> derived X C0 s ch \<Longrightarrow> corpus_ok X C0 (t_add s edges ch C)"
  using t_add_set by (fastforce simp: corpus_ok_def t_add_def)

definition starts_derived where
  "starts_derived X C0 x \<longleftrightarrow>
     (case x of Inl e \<Rightarrow> True | Inr (s, i, ch) \<Rightarrow> derived X C0 (take i s) ch)"

lemma f_fresh_derived: "pred_state (starts_derived X C0) (f_fresh X)"
proof -
  have "starts_derived X C0 (map_sum Fuzz_Generator (\<lambda>calls. (calls, 0, fx_chain X)) x)" for x
    by (cases x) (simp_all add: starts_derived_def derived_initial)
  then show ?thesis unfolding f_fresh_def by (intro pred_bind_any pred_return)
qed

lemma f_pick_derived:
  assumes "corpus_ok X C0 C"
  shows "pred_state (starts_derived X C0) (f_pick X C)"
proof -
  have ext: "pred_state (starts_derived X C0) (f_extend X s ch c)" if "derived X C0 s ch" for s ch c
    using that unfolding f_extend_def
    by (auto intro!: pred_bind_any pred_return simp: starts_derived_def derived_initial)
  have base: "pred_state (starts_derived X C0)
      (State (\<lambda>r. t_random_base (fx_rng X) r C) \<bind> (\<lambda>base. case base of
           None \<Rightarrow> f_fresh X
         | Some (s, ch) \<Rightarrow> f_random_call X \<bind> (\<lambda>c. case c of
               Inl e \<Rightarrow> State_Monad.return (Inl e) | Inr call \<Rightarrow> f_extend X s ch call)))"
    by (rule pred_bind [OF pred_random_base])
      (use assms ext in \<open>auto simp: corpus_ok_def starts_derived_def f_fresh_derived
         intro!: pred_bind_any pred_return split: option.splits sum.splits\<close>)
  show ?thesis
    unfolding f_pick_def by (intro pred_bind_any) (auto simp: f_fresh_derived base)
qed

subsection \<open>Findings and snapshots are real\<close>

definition real_shared where
  "real_shared X C0 items0 sh \<longleftrightarrow>
     corpus_ok X C0 (sf_corpus sh)
   \<and> (\<forall>b \<in> set (fi_items (sf_findings sh)). b \<in> set items0 \<or> was_observed X C0 b)"

definition next_ok where
  "next_ok X C0 ctx next \<longleftrightarrow>
     (case next of
        N_Handler \<Rightarrow> derived X C0 (take (cx_index ctx) (cx_sequence ctx)) (cx_chain ctx)
      | N_Invariants \<Rightarrow> derived X C0 (take (Suc (cx_index ctx)) (cx_sequence ctx)) (cx_chain ctx)
      | N_Halt b \<Rightarrow> was_observed X C0 b)"

fun real_pc where
  "real_pc X C0 (F_Handler ctx) \<longleftrightarrow> next_ok X C0 ctx N_Handler"
| "real_pc X C0 (F_Merge ctx coverage bs next) \<longleftrightarrow> next_ok X C0 ctx next \<and> (\<forall>b \<in> set bs. was_observed X C0 b)"
| "real_pc X C0 (F_Submit ctx bs next) \<longleftrightarrow> next_ok X C0 ctx next \<and> (\<forall>b \<in> set bs. was_observed X C0 b)"
| "real_pc X C0 (F_Invariants ctx) \<longleftrightarrow> next_ok X C0 ctx N_Invariants"
| "real_pc X C0 (F_Halt n b) \<longleftrightarrow> was_observed X C0 b"
| "real_pc X C0 (F_Keep ctx) \<longleftrightarrow> derived X C0 (cx_sequence ctx) (cx_chain ctx)"
| "real_pc X C0 _ \<longleftrightarrow> True"

lemma next_ok_edges [simp]: "next_ok X C0 (ctx\<lparr>cx_edges := n\<rparr>) next = next_ok X C0 ctx next"
  by (cases "next") (simp_all add: next_ok_def)

lemma counts_only_real: "counts_only sh sh' \<Longrightarrow> real_shared X C0 items0 sh' = real_shared X C0 items0 sh"
  by (simp add: counts_only_def real_shared_def)

lemma f_handler_real:
  assumes step: "f_handler X sh ctx (cx_sequence ctx ! cx_index ctx) = (sh', pc)"
    and lt: "cx_index ctx < length (cx_sequence ctx)"
    and ok: "next_ok X C0 ctx N_Handler" "real_shared X C0 items0 sh"
  shows "real_shared X C0 items0 sh' \<and> real_pc X C0 pc"
  using step
proof (cases rule: f_handler_cases)
  case (failed e)
  with ok show ?thesis by simp
next
  case (executed out ch' r)
  let ?s = "take (Suc (cx_index ctx)) (cx_sequence ctx)"
  have s: "?s = take (cx_index ctx) (cx_sequence ctx) @ [cx_sequence ctx ! cx_index ctx]"
    using lt by (rule take_Suc_conv_app_nth)
  have d: "derived X C0 ?s ch'"
    using ok(1) executed(1) unfolding s by (auto simp: next_ok_def intro: derived_step)
  have obs: "was_observed X C0 b" if "br_sequence b = ?s \<and> explains X r b" for b
    using that ok(1) executed(1,3) unfolding s was_observed_def next_ok_def by fastforce
  have "eo_broken_invariants out = map (report_list (ro_abi (fx_ops X))) [r]"
    using chain_exec_results [OF executed(1)] executed(3) by simp
  then have bs: "\<forall>b \<in> set (handler_findings ?s (eo_broken_invariants out)). was_observed X C0 b"
    using obs handler_findings_explain by (metis nth_Cons_0)
  have halt: "was_observed X C0 b" if "handler_halt X ?s r = Some b" for b
    using obs handler_halt_explains [OF that] by simp
  show ?thesis
    using executed(2,4) ok(2) bs halt d
    by (auto simp: counts_only_real next_after_def next_ok_def split: option.splits)
qed

lemma f_invariants_real:
  assumes step: "f_invariants X sh ctx = (sh', pc)"
    and ok: "next_ok X C0 ctx N_Invariants" "real_shared X C0 items0 sh"
  shows "real_shared X C0 items0 sh' \<and> real_pc X C0 pc"
  using step
proof (cases rule: f_invariants_cases)
  case (failed e)
  with ok show ?thesis by simp
next
  case (executed out ch')
  let ?s = "take (Suc (cx_index ctx)) (cx_sequence ctx)"
  have d: "derived X C0 ?s (cx_chain ctx)" using ok(1) by (simp add: next_ok_def)
  have obs: "was_observed X C0 b"
    if "\<exists>i < length (fx_invariants X). i < length (eo_results out)
          \<and> br_sequence b = ?s @ [invariant_call (fx_invariants X ! i)] \<and> explains X (eo_results out ! i) b"
    for b
    using that d executed(1) unfolding was_observed_def by blast
  have "eo_broken_invariants out = map (report_list (ro_abi (fx_ops X))) (eo_results out)"
    using chain_exec_results [OF executed(1)] by simp
  then have bs: "\<forall>b \<in> set (invariant_findings ?s (fx_invariants X) (eo_broken_invariants out)). was_observed X C0 b"
    using obs invariant_findings_explain by metis
  have halt: "was_observed X C0 b"
    if "invariant_halt X ?s (fx_invariants X) (eo_results out) = Some b" for b
    using obs invariant_halt_explains [OF that] by blast
  show ?thesis
    using executed(2,3) ok(2) bs halt d
    by (auto simp: counts_only_real next_after_def next_ok_def split: option.splits)
qed

lemma try_add_items:
  "set (fi_items (snd (try_add limit b fs))) \<subseteq> insert b (set (fi_items fs))"
proof -
  have "set ys \<subseteq> insert b (set xs)" if "replace_shorter b xs = Some ys" for xs ys
    using that by (induction xs arbitrary: ys) (auto split: if_splits)
  then show ?thesis by (auto simp: try_add_def split: option.splits)
qed

lemma f_add_finding_real:
  "real_shared X C0 items0 sh \<Longrightarrow> was_observed X C0 b \<Longrightarrow> real_shared X C0 items0 (f_add_finding X b sh)"
  using try_add_items by (fastforce simp: real_shared_def f_add_finding_def)

lemma f_step_real:
  assumes sh: "real_shared X C0 items0 sh" and w: "real_pc X C0 (fw_pc w)"
    and step: "f_step X clock sh w = (sh', w')"
  shows "real_shared X C0 items0 sh' \<and> real_pc X C0 (fw_pc w')"
proof (cases "fw_pc w")
  case (F_Pick n)
  obtain res r where pk: "run_state (f_pick X (sf_corpus sh)) (fw_rng w) = (res, r)" by fastforce
  have "pred_state (starts_derived X C0) (f_pick X (sf_corpus sh))"
    using sh by (intro f_pick_derived) (simp add: real_shared_def)
  from pred_state_run_state [OF this, of "fw_rng w"] have "starts_derived X C0 res" by (simp add: pk)
  with F_Pick step sh pk show ?thesis
    by (auto simp: f_step_def starts_derived_def next_ok_def split: sum.splits)
next
  case (F_Handler ctx)
  show ?thesis
  proof (cases "cx_index ctx < length (cx_sequence ctx)")
    case True
    obtain pc where "f_handler X sh ctx (cx_sequence ctx ! cx_index ctx) = (sh', pc)" "fw_pc w' = pc"
      using step F_Handler True by (auto simp: f_step_def split: prod.splits)
    with f_handler_real [OF _ True, of X sh sh' _ C0 items0] w F_Handler sh show ?thesis by simp
  qed (use F_Handler step sh w in \<open>auto simp: f_step_def next_ok_def\<close>)
next
  case (F_Merge ctx coverage bs nx)
  obtain pc where m: "f_merge sh ctx coverage bs nx = (sh', pc)" "fw_pc w' = pc"
    using step F_Merge by (auto simp: f_step_def split: prod.splits)
  from m(1) show ?thesis
    by (cases rule: f_merge_cases) (use m(2) sh w F_Merge in \<open>auto simp: real_shared_def\<close>)
next
  case (F_Submit ctx bs nx)
  then show ?thesis
    using step sh w
    by (cases bs; cases nx)
      (auto simp: f_step_def after_findings_def f_add_finding_real next_ok_def)
next
  case (F_Invariants ctx)
  obtain pc where "f_invariants X sh ctx = (sh', pc)" "fw_pc w' = pc"
    using step F_Invariants by (auto simp: f_step_def split: prod.splits)
  with f_invariants_real [of X sh ctx sh' _ C0 items0] w F_Invariants sh show ?thesis by simp
next
  case (F_Halt n b)
  with step sh w show ?thesis by (auto simp: f_step_def f_add_finding_real)
next
  case (F_Keep ctx)
  with step sh w show ?thesis
    by (cases "cx_edges ctx > 0") (auto simp: f_step_def f_keep_def real_shared_def corpus_ok_add)
qed (use step sh in \<open>auto simp: f_step_def f_record_run_def f_request_stop_def real_shared_def
       split: option.splits\<close>)

interpretation treal: worker_pool "f_step X" "real_shared X C0 items0" "\<lambda>w. real_pc X C0 (fw_pc w)"
  for X :: "('db, 'env, 'cheat, 'trace, 'r) t_exec" and C0 items0
  by unfold_locales (rule f_step_real)

lemma f_start_cases:
  assumes "f_start X sh0 = Some st"
  obtains budgets where "split_runs (fx_max_runs X) (fx_threads X) = Some budgets"
    and "st = (sh0, f_spawn X budgets)"
  using assms by (auto simp: f_start_def)

lemma f_spawn_loops: "w \<in> set (f_spawn X budgets) \<Longrightarrow> \<exists>n. fw_pc w = F_Loop n"
  by (auto simp: f_spawn_def)

lemma f_reach_real:
  assumes "f_start X sh0 = Some st" and "pool_reach (f_step X) st (sh, ws)"
  shows "real_shared X (sf_corpus sh0) (fi_items (sf_findings sh0)) sh"
proof -
  obtain budgets where st: "st = (sh0, f_spawn X budgets)" using assms(1) by (rule f_start_cases)
  have "real_shared X (sf_corpus sh0) (fi_items (sf_findings sh0)) sh0"
    by (simp add: real_shared_def corpus_ok_given)
  moreover have "\<forall>w \<in> set (f_spawn X budgets). real_pc X (sf_corpus sh0) (fw_pc w)"
    using f_spawn_loops by fastforce
  ultimately show ?thesis using treal.reach_pool [OF assms(2) [unfolded st]] by blast
qed

end
