(* ===== verification/Test_Safety.thy ===== *)
theory Test_Safety
  imports Test_Campaign
begin

section \<open>Safety of campaigns of the test mode\<close>

text \<open>
  The invariant that keeps the threads of a campaign from panicking: sequences in the corpus
  are well-typed handler calls within the limit, the coverage map stays well formed, findings
  are short and distinct.
\<close>

subsection \<open>Threads only fail when the machine does\<close>

text \<open>The inspectors are driven through callbacks, and code sizes are those of the ids.\<close>

definition revm_sized :: "(cov_id \<Rightarrow> nat) \<Rightarrow> ('db, 'env, 'cheat, 'trace) revm_ops \<Rightarrow> bool" where
  "revm_sized code_len RO \<longleftrightarrow> (\<forall>t evm out. ro_step RO t evm = Some out \<longrightarrow>
     (\<exists>evs. trace_sized code_len evs \<and> ev_cov (so_evm out) = map_option (cov_run evs) (ev_cov evm)))"

definition cov_fine :: "(cov_id \<Rightarrow> nat) \<Rightarrow> ('db, 'env, 'cheat, 'trace) evm \<Rightarrow> bool" where
  "cov_fine code_len evm \<longleftrightarrow>
     (case ev_cov evm of None \<Rightarrow> True | Some s \<Rightarrow> ci_wf s \<and> sized code_len (ci_local s))"

lemma cov_fine_run:
  assumes "revm_sized code_len RO"
  shows "exec_loop RO ts evm rs bs = Inr (rs', bs', evm') \<Longrightarrow> cov_fine code_len evm \<Longrightarrow>
     cov_fine code_len evm'"
proof (induction ts arbitrary: evm rs bs)
  case (Cons t ts)
  from Cons.prems(1) obtain r evm1 bs1 where s: "exec_tx RO t evm = Inr (r, evm1)"
    "exec_loop RO ts evm1 (rs @ [r]) bs1 = Inr (rs', bs', evm')"
    by (auto split: sum.splits)
  from s(1) obtain evs where "trace_sized code_len evs" "ev_cov evm1 = map_option (cov_run evs) (ev_cov evm)"
    using assms by (fastforce simp: exec_tx_def Let_def revm_sized_def split: option.splits)
  with Cons.prems(2) have "cov_fine code_len evm1"
    using cov_run_wf sized_run by (fastforce simp: cov_fine_def split: option.splits)
  with Cons.IH [OF s(2)] show ?case by simp
qed simp

lemma chain_exec_cov:
  assumes "revm_sized code_len RO" and "chain_exec RO txs ch = (Inr out, ch')"
    and "eo_coverage out = Some c"
  shows "cov_wf c \<and> sized code_len c"
proof -
  have new: "ci_wf ci_new \<and> sized code_len (ci_local ci_new)"
    using ci_new_wf by (simp add: ci_new_def sized_def)
  from chain_exec_Inr [OF assms(2)] obtain db evm' where
    run: "exec_loop RO txs
       \<lparr>ev_db = db, ev_env = ch_env ch, ev_cheat = Some (ch_cheat ch),
        ev_trace = (if cfg_trace (ch_config ch) then Some (ro_trace_new RO) else None),
        ev_cov = (if cfg_coverage (ch_config ch) then Some ci_new else None)\<rparr> [] []
       = Inr (eo_results out, eo_broken_invariants out, evm')"
    and out: "eo_coverage out = map_option ci_into_coverage (ev_cov evm')" by metis
  have "cov_fine code_len evm'"
    by (rule cov_fine_run [OF assms(1) run]) (simp add: cov_fine_def new)
  moreover obtain s where "ev_cov evm' = Some s" "c = ci_into_coverage s"
    using out assms(3) by (cases "ev_cov evm'") auto
  ultimately show ?thesis by (simp add: cov_fine_def ci_wf_def ci_into_coverage_def)
qed

definition exec_ok :: "(cov_id \<Rightarrow> nat) \<Rightarrow> ('db, 'env, 'cheat, 'trace, 'r) t_exec \<Rightarrow> bool" where
  "exec_ok code_len X \<longleftrightarrow>
     rng_ok (fx_rng X) \<and> fx_handlers X \<noteq> [] \<and> list_all resolvable (fx_handlers X)
   \<and> 0 < fx_max_calls X \<and> revm_sized code_len (fx_ops X)"

definition seq_ok :: "('db, 'env, 'cheat, 'trace, 'r) t_exec \<Rightarrow> seq_calls \<Rightarrow> bool" where
  "seq_ok X s \<longleftrightarrow> s \<noteq> [] \<and> length s \<le> fx_max_calls X \<and> list_all (call_ok (fx_handlers X)) s"

definition short :: "('db, 'env, 'cheat, 'trace, 'r) t_exec \<Rightarrow> broken \<Rightarrow> bool" where
  "short X b \<longleftrightarrow> length (br_sequence b) \<le> Suc (fx_max_calls X)"

definition safe_shared ::
  "(cov_id \<Rightarrow> nat) \<Rightarrow> ('db, 'env, 'cheat, 'trace, 'r) t_exec \<Rightarrow> ('db, 'env, 'cheat) t_shared \<Rightarrow> bool" where
  "safe_shared code_len X sh \<longleftrightarrow>
     (\<forall>e \<in> set (sf_corpus sh). tn_chain e \<noteq> None \<longrightarrow> seq_ok X (tn_sequence e))
   \<and> length (sf_corpus sh) \<le> MAX_ENTRIES
   \<and> (\<forall>b \<in> set (fi_items (sf_findings sh)). short X b)
   \<and> length (fi_items (sf_findings sh)) \<le> fx_limit X
   \<and> distinct (map br_id (fi_items (sf_findings sh)))
   \<and> sh_wf (sf_coverage sh) \<and> sh_sized code_len (sf_coverage sh)"

lemma safe_sharedD:
  assumes "safe_shared code_len X sh"
  shows "e \<in> set (sf_corpus sh) \<Longrightarrow> tn_chain e \<noteq> None \<Longrightarrow> seq_ok X (tn_sequence e)"
    and "length (sf_corpus sh) \<le> MAX_ENTRIES"
    and "b \<in> set (fi_items (sf_findings sh)) \<Longrightarrow> short X b"
    and "length (fi_items (sf_findings sh)) \<le> fx_limit X"
    and "distinct (map br_id (fi_items (sf_findings sh)))"
    and "sh_wf (sf_coverage sh)" and "sh_sized code_len (sf_coverage sh)"
  using assms unfolding safe_shared_def by blast+

fun safe_next where
  "safe_next X (N_Halt b) \<longleftrightarrow> short X b"
| "safe_next X _ \<longleftrightarrow> True"

fun safe_pc where
  "safe_pc code_len X (F_Handler ctx) \<longleftrightarrow> seq_ok X (cx_sequence ctx)"
| "safe_pc code_len X (F_Merge ctx coverage bs next) \<longleftrightarrow>
     seq_ok X (cx_sequence ctx) \<and> list_all (short X) bs \<and> safe_next X next
   \<and> (case coverage of None \<Rightarrow> True | Some c \<Rightarrow> cov_wf c \<and> sized code_len c)"
| "safe_pc code_len X (F_Submit ctx bs next) \<longleftrightarrow>
     seq_ok X (cx_sequence ctx) \<and> list_all (short X) bs \<and> safe_next X next"
| "safe_pc code_len X (F_Invariants ctx) \<longleftrightarrow> seq_ok X (cx_sequence ctx)"
| "safe_pc code_len X (F_Halt n b) \<longleftrightarrow> short X b"
| "safe_pc code_len X (F_Keep ctx) \<longleftrightarrow> seq_ok X (cx_sequence ctx)"
| "safe_pc code_len X (F_Failed e) \<longleftrightarrow> (\<exists>ce. e = Fuzz_Chain ce)"
| "safe_pc code_len X _ \<longleftrightarrow> True"

definition starts_ok where
  "starts_ok X x \<longleftrightarrow> (\<exists>s i ch. x = Inr (s, i, ch) \<and> seq_ok X s)"

lemma f_fresh_ok:
  assumes "exec_ok code_len X"
  shows "pred_state (starts_ok X) (f_fresh X)"
proof -
  have R: "rng_ok (fx_rng X)" and hs: "fx_handlers X \<noteq> []" "\<forall>f \<in> set (fx_handlers X). resolvable f"
    and mc: "0 < fx_max_calls X"
    using assms by (auto simp: exec_ok_def list_all_iff)
  have "pred_state (\<lambda>x. \<exists>s. x = Inr s \<and> seq_ok X s)
      (t_sequence_random (fx_rng X) (fx_literals X) (fx_handlers X) (fx_max_calls X))"
  proof (rule pred_stateI)
    fix x r r'
    assume run: "run_state (t_sequence_random (fx_rng X) (fx_literals X) (fx_handlers X)
        (fx_max_calls X)) r = (x, r')"
    obtain s where "fst (run_state (t_sequence_random (fx_rng X) (fx_literals X) (fx_handlers X)
        (fx_max_calls X)) r) = Inr s" "1 \<le> length s" "length s \<le> max (fx_max_calls X) 1"
      "list_all (call_ok (fx_handlers X)) s"
      using t_sequence_random_ok [OF R hs, of "fx_literals X" "fx_max_calls X" r] by auto
    moreover have "max (fx_max_calls X) 1 = fx_max_calls X" using mc by simp
    ultimately show "\<exists>s. x = Inr s \<and> seq_ok X s" using run by (auto simp: seq_ok_def)
  qed
  then show ?thesis
    unfolding f_fresh_def by (rule pred_bind) (auto intro!: pred_return simp: starts_ok_def)
qed

lemma f_random_call_ok:
  assumes "exec_ok code_len X"
  shows "pred_state (\<lambda>x. \<exists>c. x = Inr c \<and> call_ok (fx_handlers X) c) (f_random_call X)"
proof -
  have R: "rng_ok (fx_rng X)" and hs: "fx_handlers X \<noteq> []" "\<forall>f \<in> set (fx_handlers X). resolvable f"
    using assms by (auto simp: exec_ok_def list_all_iff)
  have "pred_state (\<lambda>x. \<exists>c. x = Inr c \<and> call_ok (fx_handlers X) c)
      (t_call_random (fx_rng X) (fx_literals X) f \<bind> (\<lambda>c. State_Monad.return (map_sum Fuzz_Generator id c)))"
    if "f \<in> set (fx_handlers X)" for f
    by (rule pred_bind [OF t_call_random_ok [OF R that]]) (use hs that in \<open>auto intro!: pred_return\<close>)
  then show ?thesis
    unfolding f_random_call_def
    by (intro pred_bind [OF pred_pick [OF R]]) (use hs in \<open>auto split: option.splits\<close>)
qed

lemma f_extend_ok:
  assumes "exec_ok code_len X" and "seq_ok X s" and "call_ok (fx_handlers X) c"
  shows "pred_state (starts_ok X) (f_extend X s ch c)"
proof -
  have R: "rng_ok (fx_rng X)" using assms(1) by (simp add: exec_ok_def)
  have s: "s \<noteq> []" "list_all (call_ok (fx_handlers X)) s" "length s \<le> fx_max_calls X"
    using assms(2) by (simp_all add: seq_ok_def)
  have "list_all (call_ok (fx_handlers X)) (s[pos := c])" for pos
    using s(2) assms(3) by (auto simp: list_all_iff dest: set_update_subset_insert [THEN subsetD])
  then show ?thesis
    unfolding f_extend_def using s assms(3)
    by (auto intro!: pred_bind [OF pred_draw [OF R]] pred_return simp: starts_ok_def seq_ok_def)
qed

lemma f_pick_ok:
  assumes X: "exec_ok code_len X" and "\<forall>e \<in> set C. tn_chain e \<noteq> None \<longrightarrow> seq_ok X (tn_sequence e)"
  shows "pred_state (starts_ok X) (f_pick X C)"
proof -
  have ext: "pred_state (starts_ok X) (f_random_call X \<bind> (\<lambda>c. case c of
        Inl e \<Rightarrow> State_Monad.return (Inl e) | Inr call \<Rightarrow> f_extend X s ch call))"
    if "seq_ok X s" for s ch
    by (rule pred_bind [OF f_random_call_ok [OF X]]) (use f_extend_ok [OF X that] in auto)
  have "pred_state (starts_ok X)
      (State (\<lambda>r. t_random_base (fx_rng X) r C) \<bind> (\<lambda>base. case base of
           None \<Rightarrow> f_fresh X
         | Some (s, ch) \<Rightarrow> f_random_call X \<bind> (\<lambda>c. case c of
               Inl e \<Rightarrow> State_Monad.return (Inl e) | Inr call \<Rightarrow> f_extend X s ch call)))"
    by (rule pred_bind [OF pred_random_base])
      (use assms(2) ext f_fresh_ok [OF X] in \<open>fastforce split: option.splits\<close>)
  then show ?thesis
    unfolding f_pick_def by (intro pred_bind_any) (auto simp: f_fresh_ok [OF X])
qed

lemma counts_only_safe: "counts_only sh sh' \<Longrightarrow> safe_shared code_len X sh' = safe_shared code_len X sh"
  by (simp add: counts_only_def safe_shared_def)

lemma seq_ok_take: "seq_ok X s \<Longrightarrow> length (take n s) \<le> fx_max_calls X"
  by (auto simp: seq_ok_def min_def)

lemma f_handler_safe:
  assumes X: "exec_ok code_len X" and step: "f_handler X sh ctx call = (sh', pc)"
    and ok: "safe_shared code_len X sh" "seq_ok X (cx_sequence ctx)"
  shows "safe_shared code_len X sh' \<and> safe_pc code_len X pc"
  using step
proof (cases rule: f_handler_cases)
  case (failed e)
  with ok show ?thesis by simp
next
  case (executed out ch' r)
  let ?s = "take (Suc (cx_index ctx)) (cx_sequence ctx)"
  have sz: "revm_sized code_len (fx_ops X)" using X by (simp add: exec_ok_def)
  have len: "length ?s \<le> fx_max_calls X" using ok(2) by (rule seq_ok_take)
  have "eo_broken_invariants out = map (report_list (ro_abi (fx_ops X))) [r]"
    using chain_exec_results [OF executed(1)] executed(3) by simp
  then have bs: "list_all (short X) (handler_findings ?s (eo_broken_invariants out))"
    using len handler_findings_explain [of _ ?s X "[r]"] by (auto simp: list_all_iff short_def)
  have halt: "short X b" if "handler_halt X ?s r = Some b" for b
    using len handler_halt_explains [OF that] by (simp add: short_def)
  show ?thesis
    using executed(2,4) ok bs halt chain_exec_cov [OF sz executed(1)]
    by (auto simp: counts_only_safe next_after_def split: option.splits)
qed

lemma f_invariants_safe:
  assumes X: "exec_ok code_len X" and step: "f_invariants X sh ctx = (sh', pc)"
    and ok: "safe_shared code_len X sh" "seq_ok X (cx_sequence ctx)"
  shows "safe_shared code_len X sh' \<and> safe_pc code_len X pc"
  using step
proof (cases rule: f_invariants_cases)
  case (failed e)
  with ok show ?thesis by simp
next
  case (executed out ch')
  let ?s = "take (Suc (cx_index ctx)) (cx_sequence ctx)"
  have sz: "revm_sized code_len (fx_ops X)" using X by (simp add: exec_ok_def)
  have len: "length ?s \<le> fx_max_calls X" using ok(2) by (rule seq_ok_take)
  have "eo_broken_invariants out = map (report_list (ro_abi (fx_ops X))) (eo_results out)"
    using chain_exec_results [OF executed(1)] by simp
  then have "length (br_sequence b) = Suc (length ?s)"
    if "b \<in> set (invariant_findings ?s (fx_invariants X) (eo_broken_invariants out))" for b
    using that invariant_findings_explain by (metis length_append_singleton)
  then have bs: "list_all (short X) (invariant_findings ?s (fx_invariants X) (eo_broken_invariants out))"
    using len by (simp add: list_all_iff short_def)
  have halt: "short X b" if "invariant_halt X ?s (fx_invariants X) (eo_results out) = Some b" for b
    using len invariant_halt_explains [OF that] by (auto simp: short_def)
  show ?thesis
    using executed(2,3) ok bs halt chain_exec_cov [OF sz executed(1)]
    by (auto simp: counts_only_safe next_after_def split: option.splits)
qed

lemma try_add_keeps:
  assumes "length (fi_items fs) \<le> limit" and "distinct (map br_id (fi_items fs))"
  shows "length (fi_items (snd (try_add limit b fs))) \<le> limit"
    and "distinct (map br_id (fi_items (snd (try_add limit b fs))))"
proof -
  have "length (fi_items (snd (try_add limit b fs))) \<le> limit
      \<and> distinct (map br_id (fi_items (snd (try_add limit b fs))))"
  proof (cases "replace_shorter b (fi_items fs)")
    case None
    then have "br_id b \<notin> br_id ` set (fi_items fs)" by (simp add: replace_shorter_None)
    with None assms show ?thesis by (auto simp: try_add_def)
  next
    case (Some items)
    then have "map br_id items = map br_id (fi_items fs)" using replace_shorter_Some [OF Some assms(2)] by simp
    moreover from this have "length items = length (fi_items fs)" by (rule map_eq_imp_length_eq)
    moreover have "try_add limit b fs = (False, fs\<lparr>fi_items := items\<rparr>)" by (simp add: try_add_def Some)
    ultimately show ?thesis using assms by simp
  qed
  then show "length (fi_items (snd (try_add limit b fs))) \<le> limit"
    and "distinct (map br_id (fi_items (snd (try_add limit b fs))))" by auto
qed

lemma f_add_finding_safe:
  assumes "safe_shared code_len X sh" and "short X b"
  shows "safe_shared code_len X (f_add_finding X b sh)"
proof -
  note D = safe_sharedD [OF assms(1)]
  have "\<forall>b \<in> set (fi_items (snd (try_add (fx_limit X) b (sf_findings sh)))). short X b"
    using try_add_items [of "fx_limit X" b "sf_findings sh"] D(3) assms(2) by blast
  then show ?thesis
    using D try_add_keeps [OF D(4,5)] by (simp add: safe_shared_def f_add_finding_def)
qed

lemma f_keep_safe:
  assumes sh: "safe_shared code_len X sh" and s: "seq_ok X (cx_sequence ctx)"
  shows "safe_shared code_len X (f_keep sh ctx)"
proof -
  note D = safe_sharedD [OF sh]
  let ?e = "\<lparr>tn_sequence = cx_sequence ctx, tn_new_edges = cx_edges ctx, tn_chain = Some (cx_chain ctx)\<rparr>"
  have "\<forall>e \<in> set (t_add_entry ?e (sf_corpus sh)). tn_chain e \<noteq> None \<longrightarrow> seq_ok X (tn_sequence e)"
    using t_add_set [of ?e "sf_corpus sh"] D(1) s by auto
  moreover have "length (t_add_entry ?e (sf_corpus sh)) \<le> MAX_ENTRIES"
    using D(2) by (simp add: t_add_length)
  ultimately show ?thesis
    using D sh by (cases "cx_edges ctx > 0") (simp_all add: f_keep_def safe_shared_def t_add_def)
qed

lemma f_step_safe:
  assumes X: "exec_ok code_len X" and sh: "safe_shared code_len X sh" and w: "safe_pc code_len X (fw_pc w)"
    and step: "f_step X clock sh w = (sh', w')"
  shows "safe_shared code_len X sh' \<and> safe_pc code_len X (fw_pc w')"
proof (cases "fw_pc w")
  case (F_Pick n)
  obtain res r where pk: "run_state (f_pick X (sf_corpus sh)) (fw_rng w) = (res, r)" by fastforce
  have "\<forall>e \<in> set (sf_corpus sh). tn_chain e \<noteq> None \<longrightarrow> seq_ok X (tn_sequence e)"
    using safe_sharedD(1) [OF sh] by blast
  from pred_state_run_state [OF f_pick_ok [OF X this], of "fw_rng w"] have "starts_ok X res" by (simp add: pk)
  with F_Pick step sh pk show ?thesis by (auto simp: f_step_def starts_ok_def)
next
  case (F_Handler ctx)
  show ?thesis
  proof (cases "cx_index ctx < length (cx_sequence ctx)")
    case True
    obtain pc where "f_handler X sh ctx (cx_sequence ctx ! cx_index ctx) = (sh', pc)" "fw_pc w' = pc"
      using step F_Handler True by (auto simp: f_step_def split: prod.splits)
    with f_handler_safe [OF X, of sh ctx _ sh'] w F_Handler sh show ?thesis by simp
  qed (use F_Handler step sh w in \<open>auto simp: f_step_def\<close>)
next
  case (F_Merge ctx coverage bs nx)
  obtain pc where m: "f_merge sh ctx coverage bs nx = (sh', pc)" "fw_pc w' = pc"
    using step F_Merge by (auto simp: f_step_def split: prod.splits)
  note D = safe_sharedD [OF sh]
  have merges: "\<exists>u S'. cov_merge c (sf_coverage sh) = Some (u, S') \<and> sh_wf S' \<and> sh_sized code_len S'"
    if "coverage = Some c" for c
    using that w F_Merge cov_merge_ok [OF D(6) _ _ D(7), of c] by auto
  from m(1) show ?thesis
  proof (cases rule: f_merge_cases)
    case (panicked c)
    with merges show ?thesis by fastforce
  next
    case (merged edges)
    have "sh_wf (sf_coverage sh') \<and> sh_sized code_len (sf_coverage sh')"
      using merged(6) merges D(6,7) by fastforce
    with merged D w F_Merge m(2) show ?thesis by (simp add: safe_shared_def)
  qed
next
  case (F_Submit ctx bs nx)
  then show ?thesis
    using step sh w
    by (cases bs; cases nx) (auto simp: f_step_def after_findings_def f_add_finding_safe)
next
  case (F_Invariants ctx)
  obtain pc where "f_invariants X sh ctx = (sh', pc)" "fw_pc w' = pc"
    using step F_Invariants by (auto simp: f_step_def split: prod.splits)
  with f_invariants_safe [OF X, of sh ctx sh'] w F_Invariants sh show ?thesis by simp
next
  case (F_Halt n b)
  with step sh w show ?thesis by (auto simp: f_step_def f_add_finding_safe)
next
  case (F_Keep ctx)
  with step sh w show ?thesis by (auto simp: f_step_def f_keep_safe)
qed (use step sh w in \<open>auto simp: f_step_def f_record_run_def f_request_stop_def safe_shared_def
       split: option.splits\<close>)

interpretation tsafe: worker_pool "f_step X"
    "\<lambda>sh. exec_ok code_len X \<and> safe_shared code_len X sh" "\<lambda>w. safe_pc code_len X (fw_pc w)"
  for X :: "('db, 'env, 'cheat, 'trace, 'r) t_exec" and code_len
  by unfold_locales (use f_step_safe in blast)

end
