(* ===== verification/Test_Progress.thy ===== *)
theory Test_Progress
  imports Test_Campaign
begin

section \<open>Budgets and termination of the test mode\<close>

text \<open>
  Runs are counted against the budget, a stop request is obeyed, and every campaign ends: a
  step of an active thread makes its measure, a list compared lexicographically, smaller.
\<close>

subsection \<open>Budgets and the stop signal\<close>

lemma sum_if_less: "sum_list (map (\<lambda>i. if i < r then 1 else 0) [0..<t]) = min r t"
  by (induction t) auto

lemma split_runs_sum:
  assumes "split_runs runs threads = Some bs"
  shows "length bs = threads" and "sum_list bs = unat runs"
proof -
  let ?base = "unat runs div threads" and ?rem = "unat runs mod threads"
  from assms have t: "0 < threads"
    and bs: "bs = map (\<lambda>i. ?base + (if i < ?rem then 1 else 0)) [0..<threads]"
    by (auto simp: split_runs_def Let_def split: if_splits)
  show "length bs = threads" by (simp add: bs)
  have "sum_list bs = threads * ?base + min ?rem threads"
    unfolding bs by (simp add: sum_list_addf sum_list_triv sum_if_less)
  with t show "sum_list bs = unat runs" by (simp add: min_def less_imp_le)
qed

text \<open>
  The run budget is split evenly and completely. For any number of threads but zero (where
  the division panics), \<open>split_runs\<close> gives every thread its share: the shares add up to the
  budget, and no two of them differ by more than one run.
\<close>

theorem split_runs_balanced:
  "split_runs runs 0 = None
   \<and> (\<exists>bs. split_runs runs (Suc n) = Some bs \<and> length bs = Suc n \<and> sum_list bs = unat runs
        \<and> (\<exists>k. set bs \<subseteq> {k, Suc k}))"
proof -
  obtain bs where bs: "split_runs runs (Suc n) = Some bs" by (auto simp: split_runs_def Let_def)
  have "set bs \<subseteq> {unat runs div Suc n, Suc (unat runs div Suc n)}"
    using bs by (auto simp: split_runs_def Let_def split: if_splits)
  with bs split_runs_sum [OF bs] show ?thesis by (auto simp: split_runs_def)
qed

text \<open>The runs a thread may still begin, and those it begins even when asked to stop.\<close>

fun runs_left :: "('db, 'env, 'cheat) f_pc \<Rightarrow> nat" where
  "runs_left (F_Loop n) = n"
| "runs_left (F_Full n) = Suc n"
| "runs_left (F_Begin n) = Suc n"
| "runs_left (F_Pick n) = n"
| "runs_left (F_Handler ctx) = cx_left ctx"
| "runs_left (F_Merge ctx _ _ _) = cx_left ctx"
| "runs_left (F_Submit ctx _ _) = cx_left ctx"
| "runs_left (F_Invariants ctx) = cx_left ctx"
| "runs_left (F_Halt n b) = n"
| "runs_left (F_Keep ctx) = cx_left ctx"
| "runs_left (F_Check n) = n"
| "runs_left (F_Stop nx) = (case nx of None \<Rightarrow> 0 | Some n \<Rightarrow> n)"
| "runs_left F_Done = 0"
| "runs_left (F_Failed e) = 0"

fun runs_begun :: "('db, 'env, 'cheat) f_pc \<Rightarrow> nat" where
  "runs_begun (F_Full n) = 1"
| "runs_begun (F_Begin n) = 1"
| "runs_begun _ = 0"

lemma f_handler_left:
  "f_handler X sh ctx call = (sh', pc) \<Longrightarrow>
   runs_left pc \<le> cx_left ctx \<and> runs_begun pc = 0 \<and> sf_runs sh' = sf_runs sh \<and> sf_stop sh' = sf_stop sh"
  by (erule f_handler_cases) (auto simp: counts_only_def)

lemma f_invariants_left:
  "f_invariants X sh ctx = (sh', pc) \<Longrightarrow>
   runs_left pc \<le> cx_left ctx \<and> runs_begun pc = 0 \<and> sf_runs sh' = sf_runs sh \<and> sf_stop sh' = sf_stop sh"
  by (erule f_invariants_cases) (auto simp: counts_only_def)

lemma f_merge_left:
  "f_merge sh ctx coverage bs nx = (sh', pc) \<Longrightarrow>
   runs_left pc \<le> cx_left ctx \<and> runs_begun pc = 0 \<and> sf_runs sh' = sf_runs sh \<and> sf_stop sh' = sf_stop sh"
  by (erule f_merge_cases) auto

lemma after_findings_left: "runs_left (after_findings ctx nx) = cx_left ctx"
  "runs_begun (after_findings ctx nx) = 0"
  by (cases nx; simp add: after_findings_def)+

lemma unat_plus_1: "unat ((n :: u64) + 1) \<le> Suc (unat n)"
  by (simp add: unat_word_ariths)

lemma f_step_left:
  assumes "f_step X clock sh w = (sh', w')"
  shows "unat (sf_runs sh') + runs_left (fw_pc w') \<le> unat (sf_runs sh) + runs_left (fw_pc w)"
    and "sf_stop sh \<Longrightarrow> sf_stop sh'"
    and "sf_stop sh \<Longrightarrow>
      unat (sf_runs sh') + runs_begun (fw_pc w') \<le> unat (sf_runs sh) + runs_begun (fw_pc w)"
proof -
  have "(unat (sf_runs sh') + runs_left (fw_pc w') \<le> unat (sf_runs sh) + runs_left (fw_pc w))
    \<and> (sf_stop sh \<longrightarrow> sf_stop sh' \<and>
        unat (sf_runs sh') + runs_begun (fw_pc w') \<le> unat (sf_runs sh) + runs_begun (fw_pc w))"
  proof (cases "fw_pc w")
    case (F_Begin n)
    with assms unat_plus_1 [of "sf_runs sh"] show ?thesis by (auto simp: f_step_def f_record_run_def)
  next
    case (F_Pick n)
    with assms show ?thesis by (auto simp: f_step_def split: prod.splits sum.splits)
  next
    case (F_Handler ctx)
    show ?thesis
    proof (cases "cx_index ctx < length (cx_sequence ctx)")
      case True
      obtain pc where "f_handler X sh ctx (cx_sequence ctx ! cx_index ctx) = (sh', pc)" "fw_pc w' = pc"
        using assms F_Handler True by (auto simp: f_step_def split: prod.splits)
      with f_handler_left [OF this(1)] F_Handler show ?thesis by simp
    qed (use assms F_Handler in \<open>auto simp: f_step_def\<close>)
  next
    case (F_Merge ctx coverage bs nx)
    obtain pc where "f_merge sh ctx coverage bs nx = (sh', pc)" "fw_pc w' = pc"
      using assms F_Merge by (auto simp: f_step_def split: prod.splits)
    with f_merge_left [OF this(1)] F_Merge show ?thesis by simp
  next
    case (F_Submit ctx bs nx)
    with assms show ?thesis
      by (cases bs) (auto simp: f_step_def after_findings_left f_add_finding_def)
  next
    case (F_Invariants ctx)
    obtain pc where "f_invariants X sh ctx = (sh', pc)" "fw_pc w' = pc"
      using assms F_Invariants by (auto simp: f_step_def split: prod.splits)
    with f_invariants_left [OF this(1)] F_Invariants show ?thesis by simp
  next
    case (F_Keep ctx)
    with assms show ?thesis by (cases "cx_edges ctx > 0") (auto simp: f_step_def f_keep_def)
  qed (use assms in \<open>auto simp: f_step_def f_add_finding_def f_request_stop_def split: option.splits\<close>)
  then show "unat (sf_runs sh') + runs_left (fw_pc w') \<le> unat (sf_runs sh) + runs_left (fw_pc w)"
    and "sf_stop sh \<Longrightarrow> sf_stop sh'"
    and "sf_stop sh \<Longrightarrow>
      unat (sf_runs sh') + runs_begun (fw_pc w') \<le> unat (sf_runs sh) + runs_begun (fw_pc w)" by auto
qed

interpretation tbudget: budget_pool "f_step X" "\<lambda>sh. unat (sf_runs sh)" "\<lambda>w. runs_left (fw_pc w)" "\<lambda>_. True"
  for X :: "('db, 'env, 'cheat, 'trace, 'r) t_exec"
  by unfold_locales (simp_all add: f_step_left(1))

interpretation tstop: budget_pool "f_step X" "\<lambda>sh. unat (sf_runs sh)" "\<lambda>w. runs_begun (fw_pc w)" sf_stop
  for X :: "('db, 'env, 'cheat, 'trace, 'r) t_exec"
  by unfold_locales (rule f_step_left(2,3); assumption)+

lemma runs_left_spawn: "sum_list (map (\<lambda>w. runs_left (fw_pc w)) (f_spawn X budgets)) = sum_list budgets"
proof -
  have "map (\<lambda>w. runs_left (fw_pc w)) (f_spawn X budgets) = map snd (enumerate 0 budgets)"
    by (simp add: f_spawn_def comp_def split_beta del: map_snd_enumerate)
  then show ?thesis by (simp only: map_snd_enumerate)
qed

subsection \<open>Termination\<close>

fun next_phase :: "f_next \<Rightarrow> nat" where
  "next_phase N_Handler = 8"
| "next_phase N_Invariants = 5"
| "next_phase (N_Halt b) = 2"

definition calls_left :: "('db, 'env, 'cheat) run_ctx \<Rightarrow> f_next \<Rightarrow> nat" where
  "calls_left ctx nx =
     (if nx = N_Invariants then Suc (length (cx_sequence ctx) - Suc (cx_index ctx))
      else length (cx_sequence ctx) - cx_index ctx)"

text \<open>Runs, stage of the run, calls, phase of the call, findings to submit.\<close>

fun f_measure :: "('db, 'env, 'cheat) f_pc \<Rightarrow> nat list" where
  "f_measure (F_Loop n) = [n, 3, 0, 0, 0]"
| "f_measure (F_Full n) = [Suc n, 2, 0, 0, 0]"
| "f_measure (F_Begin n) = [Suc n, 1, 0, 0, 0]"
| "f_measure (F_Pick n) = [n, 9, 0, 0, 0]"
| "f_measure (F_Handler ctx) = [cx_left ctx, 8, calls_left ctx N_Handler, 7, 0]"
| "f_measure (F_Merge ctx _ bs nx) = [cx_left ctx, 8, calls_left ctx nx, next_phase nx + 1, 0]"
| "f_measure (F_Submit ctx bs nx) = [cx_left ctx, 8, calls_left ctx nx, next_phase nx, length bs]"
| "f_measure (F_Invariants ctx) = [cx_left ctx, 8, calls_left ctx N_Invariants, 4, 0]"
| "f_measure (F_Halt n b) = [n, 7, 0, 0, 0]"
| "f_measure (F_Keep ctx) = [cx_left ctx, 7, 0, 0, 0]"
| "f_measure (F_Check n) = [n, 6, 0, 0, 0]"
| "f_measure (F_Stop nx) = (case nx of None \<Rightarrow> [0, 1, 0, 0, 0] | Some n \<Rightarrow> [n, 5, 0, 0, 0])"
| "f_measure F_Done = [0, 0, 0, 0, 0]"
| "f_measure (F_Failed e) = [0, 0, 0, 0, 0]"

text \<open>Lists of one length in lexicographic order.\<close>

definition f_smaller :: "(('db, 'env, 'cheat, 'r) f_worker \<times> ('db, 'env, 'cheat, 'r) f_worker) set" where
  "f_smaller = inv_image (lex less_than) (\<lambda>w. f_measure (fw_pc w))"

lemma f_smaller_wf: "wf f_smaller"
  by (simp add: f_smaller_def wf_lex wf_inv_image)

lemma f_handler_smaller:
  assumes "f_handler X sh ctx call = (sh', pc)" and "cx_index ctx < length (cx_sequence ctx)"
  shows "(f_measure pc, f_measure (F_Handler ctx)) \<in> lex less_than"
  using assms(1)
proof (cases rule: f_handler_cases)
  case (failed e)
  then show ?thesis by auto
next
  case (executed out ch' r)
  then show ?thesis
    using assms(2)
    by (cases "handler_halt X (take (Suc (cx_index ctx)) (cx_sequence ctx)) r")
      (auto simp: next_after_def calls_left_def)
qed

lemma f_invariants_smaller:
  assumes "f_invariants X sh ctx = (sh', pc)"
  shows "(f_measure pc, f_measure (F_Invariants ctx)) \<in> lex less_than"
  using assms
proof (cases rule: f_invariants_cases)
  case (failed e)
  then show ?thesis by auto
next
  case (executed out ch')
  then show ?thesis by (auto simp: calls_left_def next_after_def split: option.splits)
qed

lemma f_merge_smaller:
  assumes "f_merge sh ctx coverage bs nx = (sh', pc)"
  shows "(f_measure pc, f_measure (F_Merge ctx coverage bs nx)) \<in> lex less_than"
  using assms by (cases rule: f_merge_cases) (auto simp: calls_left_def)

lemma f_step_smaller:
  assumes active: "\<not> f_finished (fw_pc w)" and step: "f_step X clock sh w = (sh', w')"
  shows "(w', w) \<in> f_smaller"
proof -
  have "(f_measure (fw_pc w'), f_measure (fw_pc w)) \<in> lex less_than"
  proof (cases "fw_pc w")
    case (F_Loop n)
    with step show ?thesis by (cases n) (auto simp: f_step_def)
  next
    case (F_Pick n)
    with step show ?thesis by (auto simp: f_step_def split: prod.splits sum.splits)
  next
    case (F_Handler ctx)
    show ?thesis
    proof (cases "cx_index ctx < length (cx_sequence ctx)")
      case True
      obtain pc where "f_handler X sh ctx (cx_sequence ctx ! cx_index ctx) = (sh', pc)" "fw_pc w' = pc"
        using step F_Handler True by (auto simp: f_step_def split: prod.splits)
      with f_handler_smaller [OF this(1) True] F_Handler show ?thesis by simp
    qed (use step F_Handler in \<open>auto simp: f_step_def\<close>)
  next
    case (F_Merge ctx coverage bs nx)
    obtain pc where "f_merge sh ctx coverage bs nx = (sh', pc)" "fw_pc w' = pc"
      using step F_Merge by (auto simp: f_step_def split: prod.splits)
    with f_merge_smaller [OF this(1)] F_Merge show ?thesis by simp
  next
    case (F_Submit ctx bs nx)
    with step show ?thesis
      by (cases bs; cases nx) (auto simp: f_step_def after_findings_def calls_left_def)
  next
    case (F_Invariants ctx)
    obtain pc where "f_invariants X sh ctx = (sh', pc)" "fw_pc w' = pc"
      using step F_Invariants by (auto simp: f_step_def split: prod.splits)
    with f_invariants_smaller [OF this(1)] F_Invariants show ?thesis by simp
  qed (use step active in \<open>auto simp: f_step_def split: option.splits\<close>)
  then show ?thesis by (simp add: f_smaller_def)
qed

interpretation tterm: terminating_pool "f_step X" "\<lambda>w. f_finished (fw_pc w)" f_smaller
  for X :: "('db, 'env, 'cheat, 'trace, 'r) t_exec"
  by unfold_locales (simp_all add: f_smaller_wf f_step_smaller)

text \<open>
  C5: every campaign ends. No interleaving lets threads that have not finished take infinitely
  many steps, whatever they find and draw; and for any inputs some schedule brings \<open>run\<close> to an
  outcome: an output, a failure, or the panic of dividing the budget among zero threads.
\<close>

theorem campaigns_end:
  "\<not> (\<exists>run :: nat \<Rightarrow> _. \<forall>n. pool_step (f_step X) (\<lambda>w. f_finished (fw_pc w)) (run n) (run (Suc n)))
   \<and> (\<exists>sched. fst (f_run E fz sched) \<noteq> R_Running)"
proof
  show "\<not> (\<exists>run :: nat \<Rightarrow> _. \<forall>n. pool_step (f_step X) (\<lambda>w. f_finished (fw_pc w)) (run n) (run (Suc n)))"
    by (rule tterm.no_infinite_run)
  show "\<exists>sched. fst (f_run E fz sched) \<noteq> R_Running"
  proof (cases "f_resolve E fz")
    case (Inl e)
    then show ?thesis by (simp add: f_run_def)
  next
    case (Inr p)
    obtain Y sh where p: "p = (Y, sh)" by fastforce
    show ?thesis
    proof (cases "f_start Y sh")
      case None
      with Inr p show ?thesis by (auto simp: f_run_def)
    next
      case (Some start)
      obtain sched where "list_all (\<lambda>w. f_finished (fw_pc w)) (snd (run_schedule (f_step Y) sched start))"
        using tterm.can_finish [of Y start] by blast
      with Inr p Some show ?thesis
        by (auto simp: f_run_def Let_def split: prod.splits list.splits intro!: exI [of _ sched])
    qed
  qed
qed

end
