(* ===== verification/Test_Properties.thy ===== *)
theory Test_Properties
  imports Test_Safety Test_Progress
begin

section \<open>What campaigns of the test mode guarantee\<close>

text \<open>
  The properties of every interleaving, each with an instance: a concrete campaign that finds
  a revert.
\<close>

subsection \<open>A concrete campaign\<close>

text \<open>
  One thread, one run, a handler that reverts and a filter that stops on any revert: the
  eighth step stores the finding.
\<close>

definition demo_fuzz_env :: "(nat, u64, unit, unit, nat) fuzz_env" where
  "demo_fuzz_env =
     \<lparr>fx_ops = demo_ops, fx_codec = demo_codec, fx_text = demo_text, fx_rng = counter_rng,
      fx_seed_rng = unat\<rparr>"

definition demo_fuzzer :: "(nat, u64, unit) fuzzer" where
  "demo_fuzzer = fuzzer_new
     \<lparr>fz_chain := Some demo_chain, fz_target := Some 1, fz_deployer := Some 2,
      fz_handlers := Some [demo_fn 1], fz_invariants := Some [demo_fn 2],
      fz_corpus := Some (lp_new, []), fz_coverage := Some sh_new,
      fz_broken_invariants := Some (4, findings_new), fz_max_runs := Some 1,
      fz_max_calls := Some 2, fz_stop_on_revert := Some Revert_Any\<rparr>"

definition demo_exec :: "(nat, u64, unit, unit, nat) t_exec" where
  "demo_exec = fst (projr (f_resolve demo_fuzz_env demo_fuzzer))"

definition demo_shared :: "(nat, u64, unit) t_shared" where
  "demo_shared = snd (projr (f_resolve demo_fuzz_env demo_fuzzer))"

lemma demo_exec_simps [simp]: "fx_ops demo_exec = demo_ops" "fx_codec demo_exec = demo_codec"
 "fx_text demo_exec = demo_text" "fx_rng demo_exec = counter_rng" "fx_chain demo_exec = demo_chain" "fx_target demo_exec = 1"
 "fx_deployer demo_exec = 2" "fx_handlers demo_exec = [demo_fn 1]" "fx_invariants demo_exec = [demo_fn 2]"
 "fx_literals demo_exec = lp_new" "fx_limit demo_exec = 4" "fx_seed demo_exec = 0" "fx_threads demo_exec = 1" "fx_max_runs demo_exec = 1"
 "fx_max_calls demo_exec = 2" "fx_timeout demo_exec = None" "fx_stop_on_revert demo_exec = Some Revert_Any" "fx_stop_on_panic demo_exec = None"
 "fx_seed_rng demo_exec = unat"
  by (simp_all add: demo_exec_def f_resolve_def demo_fuzzer_def demo_fuzz_env_def fuzzer_new_def)

lemma demo_shared_eq: "demo_shared = \<lparr>sf_runs = 0, sf_calls = 0, sf_gas = 0, sf_stop = False, sf_findings = findings_new,
              sf_corpus = [], sf_coverage = sh_new, sf_stats = stats_new 1 1\<rparr>"
  by (simp_all add: demo_shared_def f_resolve_def demo_fuzzer_def demo_fuzz_env_def fuzzer_new_def)

lemma demo_spawn: "f_spawn demo_exec [Suc 0] = [\<lparr>fw_pc = F_Loop 1, fw_rng = 0\<rparr>]" by (simp add: f_spawn_def)

lemma demo_first_steps: "run_schedule (f_step demo_exec) (replicate 3 (0,False)) (demo_shared, f_spawn demo_exec [1]) = 
  (demo_shared\<lparr>sf_runs := 1\<rparr>, [\<lparr>fw_pc = F_Pick 0, fw_rng = 0\<rparr>])"
  by (simp add: demo_spawn demo_shared_eq numeral_eq_Suc Let_def f_step_def f_timed_out_def findings_full_def findings_new_def f_record_run_def)

lemma demo_pick: "run_state (f_pick demo_exec []) 0 = (Inr ([demo_call 1, demo_call 1], 0, demo_chain), 4)"
  by (simp add: f_pick_def f_fresh_def t_sequence_random_def draw_def counter_rng_def numeral_2_eq_2 t_call_random_def
     demo_fn_def demo_call_def)

lemma demo_result: "\<exists>out ch'. chain_exec demo_ops [call_transaction demo_codec 1 2 (demo_call 1)] demo_chain = (Inr out, ch')
   \<and> eo_results out = [mk_result False 1 (Some [1,0,0,0])]"
proof -
  have z: "rpc_saturating_sub rpc_zero rpc_zero = rpc_zero" by (simp add: rpc_saturating_sub_def rpc_zero_def sat_sub_def)
  show ?thesis
  by (simp add: chain_exec_def demo_chain_def exec_tx_def demo_ops_def demo_step_def tx_new_def call_transaction_def
        tx_with_calldata_def tx_with_caller_def Let_def call_calldata_def demo_call_def demo_fn_def demo_codec_def mk_result_def z)
qed

lemma demo_exec_ok: "exec_ok (\<lambda>_. 4) demo_exec"
proof -
  have "revm_sized (\<lambda>_. 4) demo_ops"
  proof -
    have "trace_sized (\<lambda>_. 4) [EvInit 77 4 [] 9, EvStep n 0x60 []]" for n by (simp add: trace_sized_def)
    then show ?thesis
    unfolding revm_sized_def demo_ops_def demo_step_def by (auto split: if_splits; blast)
  qed
  then show ?thesis by (simp add: exec_ok_def counter_rng_ok resolvable_def demo_fn_def)
qed

definition demo_finding :: broken where
  "demo_finding = \<lparr>br_sequence = [demo_call 1], br_id = revert_finding_id demo_text (mk_result False 1 (Some [1, 0, 0, 0])),
     br_description = []\<rparr>"

lemma demo_halt: "handler_halt demo_exec [demo_call 1] (mk_result False 1 (Some [1,0,0,0])) = Some demo_finding"
  by (simp add: handler_halt_def revert_halt_def revert_matches_def mk_result_def demo_finding_def broken_invariant_def bi_from_revert_def demo_ops_def demo_abi_def broken_with_id_def broken_with_calls_def broken_new_def)

lemma demo_reach:
  "\<exists>sh ws. pool_reach (f_step demo_exec) (demo_shared, f_spawn demo_exec [1]) (sh, ws)
    \<and> fi_items (sf_findings sh) = [demo_finding]"
proof -
  let ?st = "(demo_shared, f_spawn demo_exec [1])"
  let ?sh = "demo_shared\<lparr>sf_runs := 1\<rparr>"
  let ?ctx = "\<lparr>cx_left = 0, cx_sequence = [demo_call 1, demo_call 1], cx_index = 0, cx_chain = demo_chain, cx_edges = 0\<rparr>"
  have "pool_reach (f_step demo_exec) ?st (?sh, [\<lparr>fw_pc = F_Pick 0, fw_rng = 0\<rparr>])"
    using run_schedule_from [of "f_step demo_exec" ?st "replicate 3 (0, False)"] unfolding demo_first_steps .
  then have r1: "pool_reach (f_step demo_exec) ?st (?sh, [\<lparr>fw_pc = F_Handler ?ctx, fw_rng = 4\<rparr>])"
    by (rule reach_single) (simp add: f_step_def demo_pick demo_shared_eq)
  obtain out ch' where ex: "chain_exec demo_ops [call_transaction demo_codec 1 2 (demo_call 1)] demo_chain = (Inr out, ch')"
   "eo_results out = [mk_result False 1 (Some [1,0,0,0])]" using demo_result by blast
  have bs: "eo_broken_invariants out = [[]]"
    using chain_exec_results [OF ex(1)] ex(2) 
    by (simp add: demo_ops_def report_list_def broken_invariant_def bi_from_revert_def demo_abi_def mk_result_def)
  let ?pc = "F_Merge (?ctx\<lparr>cx_chain := ch'\<rparr>) (eo_coverage out) [] (N_Halt demo_finding)"
  have fn: "call_fn (demo_call 1) = demo_fn 1" by (simp add: demo_call_def)
  have "\<exists>sh'. f_handler demo_exec ?sh ?ctx (demo_call 1) = (sh', ?pc)"
    by (simp add: f_handler_def ex bs demo_halt handler_findings_def report_findings_def Let_def fn)
  then obtain sh1 where h: "f_handler demo_exec ?sh ?ctx (demo_call 1) = (sh1, ?pc)" by blast
  from h have c: "counts_only ?sh sh1" by (cases rule: f_handler_cases) auto
  have r2: "pool_reach (f_step demo_exec) ?st (sh1, [\<lparr>fw_pc = ?pc, fw_rng = 4\<rparr>])"
    by (intro reach_single [OF r1]) (simp add: f_step_def h)
  have sized: "revm_sized (\<lambda>_. 4) demo_ops" using demo_exec_ok by (simp add: exec_ok_def)
  have cov: "sf_coverage sh1 = sh_new" "fi_items (sf_findings sh1) = []" "sf_corpus sh1 = []"
    using c by (simp_all add: counts_only_def demo_shared_eq findings_new_def)
  obtain sh2 pc2 where m: "f_merge sh1 (?ctx\<lparr>cx_chain := ch'\<rparr>) (eo_coverage out) [] (N_Halt demo_finding) = (sh2, pc2)"
    by fastforce
  from m have "\<exists>ctx. pc2 = F_Submit ctx [] (N_Halt demo_finding) \<and> cx_left ctx = 0 \<and> fi_items (sf_findings sh2) = []"
  proof (cases rule: f_merge_cases)
    case (panicked cv)
    with chain_exec_cov [OF sized ex(1)] cov_merge_ok [OF sh_new_ok(1) _ _ sh_new_ok(2), of cv "\<lambda>_. 4"] cov
    show ?thesis by auto
  qed (use cov in auto)
  then obtain ctx where pc2: "pc2 = F_Submit ctx [] (N_Halt demo_finding)" "cx_left ctx = 0"
    "fi_items (sf_findings sh2) = []" by blast
  have r3: "pool_reach (f_step demo_exec) ?st (sh2, [\<lparr>fw_pc = pc2, fw_rng = 4\<rparr>])"
    by (intro reach_single [OF r2]) (use m in \<open>simp add: f_step_def\<close>)
  have r4: "pool_reach (f_step demo_exec) ?st (sh2, [\<lparr>fw_pc = F_Halt 0 demo_finding, fw_rng = 4\<rparr>])"
    by (intro reach_single [OF r3]) (simp add: f_step_def pc2 after_findings_def)
  have "pool_reach (f_step demo_exec) ?st
      (f_add_finding demo_exec demo_finding sh2, [\<lparr>fw_pc = F_Stop (Some 0), fw_rng = 4\<rparr>])"
    by (intro reach_single [OF r4]) (simp add: f_step_def)
  then show ?thesis using pc2(3) by (fastforce simp: f_add_finding_def try_add_def)
qed

lemma demo_start: "f_start demo_exec demo_shared = Some (demo_shared, f_spawn demo_exec [1])"
  by (simp add: f_start_def split_runs_def)

subsection \<open>Properties\<close>

text \<open>
  C2: every finding of a campaign was observed. In every state any number of threads reaches
  in any order of steps, a stored finding is one of those given at the start, or: some calls
  led from a starting state (the initial chain, or a snapshot of the given corpus) to a state
  where the finding's last call, or the batch of all invariants up to the finding's invariant,
  was executed, and that very result reports the finding's id and description or matches the
  stop filter the id is made of; the finding's sequence is those calls followed by that one.
\<close>

theorem findings_are_observed:
  assumes "f_start X sh0 = Some st" and "pool_reach (f_step X) st (sh, ws)"
  shows "\<forall>b \<in> set (fi_items (sf_findings sh)).
     b \<in> set (fi_items (sf_findings sh0)) \<or> was_observed X (sf_corpus sh0) b"
  using f_reach_real [OF assms] by (simp add: real_shared_def)

theorem findings_are_observed_witness:
  "was_observed demo_exec [] demo_finding"
proof -
  obtain sh ws where reach: "pool_reach (f_step demo_exec) (demo_shared, f_spawn demo_exec [1]) (sh, ws)"
    and fi: "fi_items (sf_findings sh) = [demo_finding]" using demo_reach by blast
  from findings_are_observed [OF demo_start reach] fi show ?thesis
    by (simp add: demo_shared_eq findings_new_def)
qed


definition demo_entry :: "(nat, u64, unit) chain t_entry" where
  "demo_entry = \<lparr>tn_sequence = [demo_call 1], tn_new_edges = 3, tn_chain = Some demo_chain\<rparr>"

text \<open>
  C4: snapshots are the states of their sequences. In every reachable state of a campaign, the
  chain stored with a corpus entry is exactly what executing the entry's calls one after the
  other leads to, from the initial chain, or from a snapshot of the given corpus whose sequence
  the entry extends: extending a snapshot is the same as running the whole sequence.
\<close>

theorem snapshots_are_states:
  assumes "f_start X sh0 = Some st" and "pool_reach (f_step X) st (sh, ws)"
    and "e \<in> set (sf_corpus sh)" and "tn_chain e = Some ch"
  shows "\<exists>bs bc cs. (bs = [] \<and> bc = fx_chain X
        \<or> (\<exists>e0 \<in> set (sf_corpus sh0). tn_sequence e0 = bs \<and> tn_chain e0 = Some bc))
     \<and> tn_sequence e = bs @ cs \<and> replay_calls X bc cs = Some ch"
proof -
  have "derived X (sf_corpus sh0) (tn_sequence e) ch"
    using f_reach_real [OF assms(1,2)] assms(3,4) by (simp add: real_shared_def corpus_ok_def)
  then show ?thesis by (simp add: derived_def is_base_def)
qed

theorem snapshots_are_states_witness:
  "\<exists>bs bc cs. [demo_call 1] = bs @ cs \<and> replay_calls demo_exec bc cs = Some demo_chain"
proof -
  let ?sh = "demo_shared\<lparr>sf_corpus := [demo_entry]\<rparr>"
  have start: "f_start demo_exec ?sh = Some (?sh, f_spawn demo_exec [1])"
    by (simp add: f_start_def split_runs_def)
  have "demo_entry \<in> set (sf_corpus ?sh)" "tn_chain demo_entry = Some demo_chain"
    "tn_sequence demo_entry = [demo_call 1]" by (simp_all add: demo_entry_def)
  with snapshots_are_states [OF start reach_start, of demo_entry demo_chain] show ?thesis by metis
qed


text \<open>
  C39: a campaign keeps to its budget and stops promptly. However the threads interleave, no
  more sequences are counted than the configured maximum; and from any state in which a stop
  has been requested, the request is never lost and every thread begins at most one more run.
\<close>

theorem runs_within_budget:
  assumes "f_start X sh0 = Some st" and "pool_reach (f_step X) st (sh, ws)"
    and "pool_reach (f_step X) (sh, ws) (sh', ws')"
  shows "unat (sf_runs sh) \<le> unat (sf_runs sh0) + unat (fx_max_runs X)
     \<and> (sf_stop sh \<longrightarrow> sf_stop sh' \<and> unat (sf_runs sh') \<le> unat (sf_runs sh) + fx_threads X)"
proof -
  obtain budgets where b: "split_runs (fx_max_runs X) (fx_threads X) = Some budgets"
    "st = (sh0, f_spawn X budgets)" using assms(1) by (rule f_start_cases)
  have "unat (sf_runs sh) \<le> unat (sf_runs sh0) + unat (fx_max_runs X)"
    using tbudget.reach_budget [OF assms(2) [unfolded b(2)]] split_runs_sum [OF b(1)]
    by (simp add: runs_left_spawn)
  moreover have "sf_stop sh' \<and> unat (sf_runs sh') \<le> unat (sf_runs sh) + fx_threads X" if "sf_stop sh"
  proof -
    have "length ws = length (f_spawn X budgets)"
      using treal.reach_pool [OF assms(2) [unfolded b(2)], of "sf_corpus sh0" "fi_items (sf_findings sh0)"]
        f_spawn_loops by (fastforce simp: real_shared_def corpus_ok_given)
    then have len: "length ws = fx_threads X" using split_runs_sum [OF b(1)] by (simp add: f_spawn_def)
    have "runs_begun pc \<le> 1" for pc :: "('a, 'b, 'c) f_pc" by (cases pc) simp_all
    then have "sum_list (map (\<lambda>w. runs_begun (fw_pc w)) ws) \<le> length ws"
      by (induction ws) (simp_all add: add_le_mono [of _ 1, simplified])
    with tstop.reach_budget [OF assms(3) that] len show ?thesis by simp
  qed
  ultimately show ?thesis by blast
qed

theorem runs_within_budget_witness:
  "\<exists>sh ws. pool_reach (f_step demo_exec) (demo_shared, f_spawn demo_exec [1]) (sh, ws)
     \<and> sf_runs sh = 1 \<and> unat (sf_runs sh) \<le> 1"
proof -
  let ?sh = "demo_shared\<lparr>sf_runs := 1\<rparr>" and ?ws = "[\<lparr>fw_pc = F_Pick 0, fw_rng = 0\<rparr>]"
  have "pool_reach (f_step demo_exec) (demo_shared, f_spawn demo_exec [1]) (?sh, ?ws)"
    using run_schedule_from [of "f_step demo_exec" "(demo_shared, f_spawn demo_exec [1])" "replicate 3 (0, False)"]
    unfolding demo_first_steps .
  moreover from runs_within_budget [OF demo_start this reach_start]
  have "unat (sf_runs ?sh) \<le> 1" by (simp add: demo_shared_eq)
  ultimately show ?thesis by (intro exI [of _ ?sh] exI [of _ ?ws]) simp
qed


text \<open>
  C3: threads fail only when the machine does. When the handlers' inputs resolve, the call limit
  is positive, the given corpus holds sequences of handler calls within it, and the machine
  drives the inspectors through their callbacks, then in every reachable state of a campaign:
  a failed thread failed because an execution returned an error, never by a panic or in the
  generator; every corpus sequence with a snapshot is a non-empty list of well-typed handler
  calls within the limit, and there are at most 256; no finding is longer than the limit and
  one invariant call, their ids are distinct and their number within the collection's limit;
  and the coverage map is well formed.
\<close>

theorem campaigns_are_safe:
  assumes "exec_ok code_len X" and "safe_shared code_len X sh0"
    and "f_start X sh0 = Some st" and "pool_reach (f_step X) st (sh, ws)"
  shows "safe_shared code_len X sh \<and> (\<forall>e \<in> set (f_failures ws). \<exists>ce. e = Fuzz_Chain ce)"
proof -
  obtain budgets where st: "st = (sh0, f_spawn X budgets)" using assms(3) by (rule f_start_cases)
  have "\<forall>w \<in> set (f_spawn X budgets). safe_pc code_len X (fw_pc w)"
    using f_spawn_loops by fastforce
  then have "safe_shared code_len X sh \<and> (\<forall>w \<in> set ws. safe_pc code_len X (fw_pc w))"
    using tsafe.reach_pool [OF assms(4) [unfolded st], of code_len] assms(1,2) by blast
  then show ?thesis
    by (fastforce simp: f_failures_def List.map_filter_def split: f_pc.splits)
qed

theorem campaigns_are_safe_witness:
  "\<exists>sh ws. pool_reach (f_step demo_exec) (demo_shared, f_spawn demo_exec [1]) (sh, ws)
     \<and> sf_findings sh \<noteq> findings_new \<and> safe_shared (\<lambda>_. 4) demo_exec sh"
proof -
  obtain sh ws where reach: "pool_reach (f_step demo_exec) (demo_shared, f_spawn demo_exec [1]) (sh, ws)"
    and fi: "fi_items (sf_findings sh) = [demo_finding]" using demo_reach by blast
  have "safe_shared (\<lambda>_. 4) demo_exec demo_shared"
    by (simp add: safe_shared_def demo_shared_eq findings_new_def sh_new_ok)
  from campaigns_are_safe [OF demo_exec_ok this demo_start reach] fi reach show ?thesis
    by (auto simp: findings_new_def intro!: exI [of _ sh] exI [of _ ws])
qed

end
