(* ===== verification/Max_Fuzzer.thy ===== *)
theory Max_Fuzzer
  imports Test_Fuzzer Max_Corpus Max_Records Max_Value_Gen
begin

section \<open>The fuzzer of the max mode\<close>

text \<open>
  \<open>src/src/maxer/fuzzer.rs\<close>. As in \<open>Test_Fuzzer\<close> the worker is cut at its accesses to the
  shared state: the stop flag, the run counter, the best result or the corpus it picks a base
  from, the coverage map, the records, the best result again, and one addition to the corpus
  per kept prefix. Unlike the invariants of the test mode, the value call runs on the working
  chain itself.
\<close>

subsection \<open>Inputs\<close>

record ('db, 'env, 'cheat) m_fuzzer =
  mz_chain :: "('db, 'env, 'cheat) chain option"
  mz_target :: "address option"
  mz_deployer :: "address option"
  mz_value_calldata :: "bytes option"
  mz_handlers :: "abi_fn list option"
  mz_corpus :: "('db, 'env, 'cheat) chain m_corpus option"
  mz_coverage :: "shared_coverage option"
  mz_initial_value :: "max_value option"
  mz_seed :: "u64 option"
  mz_threads :: "nat option"
  mz_max_runs :: "u64 option"
  mz_max_calls :: "nat option"
  mz_timeout :: "nat option"
  mz_target_value :: "max_value option"

definition m_fuzzer_new :: "('db, 'env, 'cheat) m_fuzzer" where
  "m_fuzzer_new =
     \<lparr>mz_chain = None, mz_target = None, mz_deployer = None, mz_value_calldata = None,
      mz_handlers = None, mz_corpus = None, mz_coverage = None, mz_initial_value = None,
      mz_seed = None, mz_threads = None, mz_max_runs = None, mz_max_calls = None,
      mz_timeout = None, mz_target_value = None\<rparr>"

record ('db, 'env, 'cheat, 'trace, 'r) m_env = "('db, 'env, 'cheat, 'trace, 'r) fuzz_env" +
  mx_uint256 :: "bytes \<Rightarrow> sol_value option"

record ('db, 'env, 'cheat, 'trace, 'r) m_exec = "('db, 'env, 'cheat, 'trace, 'r) m_env" +
  mx_chain :: "('db, 'env, 'cheat) chain"
  mx_target :: address
  mx_deployer :: address
  mx_value_calldata :: bytes
  mx_handlers :: "abi_fn list"
  mx_initial_value :: max_value
  mx_seed :: u64
  mx_threads :: nat
  mx_max_runs :: u64
  mx_max_calls :: nat
  mx_timeout :: "nat option"
  mx_target_value :: "max_value option"

record ('db, 'env, 'cheat) m_shared =
  mf_best :: "('db, 'env, 'cheat) chain best"
  mf_runs :: u64
  mf_calls :: u64
  mf_gas :: u64
  mf_stop :: bool
  mf_corpus :: "('db, 'env, 'cheat) chain m_corpus"
  mf_coverage :: shared_coverage
  mf_records :: delta_records

definition m_record_run :: "('db, 'env, 'cheat) m_shared \<Rightarrow> ('db, 'env, 'cheat) m_shared" where
  "m_record_run sh = sh\<lparr>mf_runs := mf_runs sh + 1\<rparr>"

definition m_record_call :: "('db, 'env, 'cheat) m_shared \<Rightarrow> ('db, 'env, 'cheat) m_shared" where
  "m_record_call sh = sh\<lparr>mf_calls := mf_calls sh + 1\<rparr>"

definition m_record_gas ::
  "tx_result list \<Rightarrow> ('db, 'env, 'cheat) m_shared \<Rightarrow> ('db, 'env, 'cheat) m_shared" where
  "m_record_gas results sh = sh\<lparr>mf_gas := mf_gas sh + sum_list (map tr_gas_used results)\<rparr>"

definition m_best_base ::
  "('db, 'env, 'cheat) m_shared \<Rightarrow> (seq_calls \<times> max_value \<times> ('db, 'env, 'cheat) chain) option" where
  "m_best_base sh =
     (case be_chain (mf_best sh) of
        None \<Rightarrow> None
      | Some ch \<Rightarrow>
          if be_sequence (mf_best sh) = [] then None
          else Some (be_sequence (mf_best sh), be_value (mf_best sh), ch))"

definition m_timed_out :: "('db, 'env, 'cheat, 'trace, 'r) m_exec \<Rightarrow> bool \<Rightarrow> bool" where
  "m_timed_out X clock = (case mx_timeout X of Some deadline \<Rightarrow> clock | None \<Rightarrow> False)"

definition m_split_runs :: "u64 \<Rightarrow> nat \<Rightarrow> nat list option" where
  "m_split_runs runs threads =
     (if threads = 0 then None
      else
        let base = unat runs div threads;
            remainder = unat runs mod threads
        in Some (map (\<lambda>index. base + (if index < remainder then 1 else 0)) [0..<threads]))"

text \<open>\<open>Shared::consider\<close>: the best tracker is locked, then the stop flag is set.\<close>

definition m_consider ::
  "('db, 'env, 'cheat, 'trace, 'r) m_exec \<Rightarrow> seq_calls \<Rightarrow> max_value \<Rightarrow> ('db, 'env, 'cheat) chain \<Rightarrow>
   ('db, 'env, 'cheat) m_shared \<Rightarrow> bool \<times> bool \<times> ('db, 'env, 'cheat) m_shared" where
  "m_consider X s v ch sh =
     (let (improved, best) = best_consider s v ch (mf_best sh);
          target_reached = (case mx_target_value X of Some target \<Rightarrow> target \<le> v | None \<Rightarrow> False)
      in (improved, improved \<and> target_reached, sh\<lparr>mf_best := best\<rparr>))"

definition m_request_stop :: "('db, 'env, 'cheat) m_shared \<Rightarrow> ('db, 'env, 'cheat) m_shared" where
  "m_request_stop sh = sh\<lparr>mf_stop := True\<rparr>"

subsection \<open>Picking a base and its pending calls\<close>

type_synonym ('db, 'env, 'cheat) m_start =
  "seq_calls \<times> max_value \<times> seq_calls \<times> ('db, 'env, 'cheat) chain"

definition m_fresh ::
  "('db, 'env, 'cheat, 'trace, 'r) m_exec \<Rightarrow>
   ('r, fuzz_failure + ('db, 'env, 'cheat) m_start) state" where
  "m_fresh X =
     do {
       s \<leftarrow> m_sequence_random (fx_rng X) (mx_handlers X) (mx_max_calls X);
       State_Monad.return (map_sum Fuzz_Generator (\<lambda>calls. ([], mx_initial_value X, calls, mx_chain X)) s)
     }"

definition m_random_call ::
  "('db, 'env, 'cheat, 'trace, 'r) m_exec \<Rightarrow> ('r, fuzz_failure + call) state" where
  "m_random_call X =
     do {
       f \<leftarrow> pick (fx_rng X) (mx_handlers X);
       case f of
         None \<Rightarrow> State_Monad.return (Inl Fuzz_Panic)
       | Some function \<Rightarrow> do {
           c \<leftarrow> m_call_random (fx_rng X) function;
           State_Monad.return (map_sum Fuzz_Generator id c)
         }
     }"

definition m_base ::
  "('db, 'env, 'cheat, 'trace, 'r) m_exec \<Rightarrow> ('db, 'env, 'cheat) m_shared \<Rightarrow>
   ('r, seq_calls \<times> max_value \<times> ('db, 'env, 'cheat) chain) state" where
  "m_base X sh =
     do {
       k \<leftarrow> draw (fx_rng X) 0 4;
       base \<leftarrow> (if k \<noteq> 0 then State_Monad.return (m_best_base sh)
               else State (\<lambda>r. m_random_base (fx_rng X) r (mf_corpus sh)));
       State_Monad.return (case base of Some b \<Rightarrow> b | None \<Rightarrow> ([], mx_initial_value X, mx_chain X))
     }"

definition m_extend ::
  "('db, 'env, 'cheat, 'trace, 'r) m_exec \<Rightarrow> seq_calls \<Rightarrow> max_value \<Rightarrow> ('db, 'env, 'cheat) chain \<Rightarrow>
   call \<Rightarrow> ('r, fuzz_failure + ('db, 'env, 'cheat) m_start) state" where
  "m_extend X base_sequence base_value base_chain call =
     (if length base_sequence \<ge> mx_max_calls X
      then (if base_sequence = [] then State_Monad.return (Inl Fuzz_Panic)
            else do {
              pos \<leftarrow> draw (fx_rng X) 0 (length base_sequence);
              State_Monad.return (Inr ([], mx_initial_value X, base_sequence[pos := call], mx_chain X))
            })
      else State_Monad.return (Inr (base_sequence, base_value, [call], base_chain)))"

definition m_pick ::
  "('db, 'env, 'cheat, 'trace, 'r) m_exec \<Rightarrow> ('db, 'env, 'cheat) m_shared \<Rightarrow>
   ('r, fuzz_failure + ('db, 'env, 'cheat) m_start) state" where
  "m_pick X sh =
     do {
       k \<leftarrow> draw (fx_rng X) 0 8;
       if k = 0 then m_fresh X
       else do {
         base \<leftarrow> m_base X sh;
         c \<leftarrow> m_random_call X;
         case c of
           Inl e \<Rightarrow> State_Monad.return (Inl e)
         | Inr call \<Rightarrow> (case base of (s, v, ch) \<Rightarrow> m_extend X s v ch call)
       }
     }"

subsection \<open>The worker\<close>

record ('db, 'env, 'cheat) measured_prefix =
  mp_sequence :: seq_calls
  mp_value :: max_value
  mp_chain :: "('db, 'env, 'cheat) chain"
  mp_new_edges :: u64
  mp_delta_activity :: u64
  mp_interesting :: bool
  mp_measured :: bool

record ('db, 'env, 'cheat) m_ctx =
  xc_left :: nat
  xc_pending :: seq_calls
  xc_chain :: "('db, 'env, 'cheat) chain"
  xc_executed :: seq_calls
  xc_prev :: max_value
  xc_prefixes :: "('db, 'env, 'cheat) measured_prefix list"

datatype ('db, 'env, 'cheat) x_pc =
    X_Loop nat
  | X_Begin nat
  | X_Pick nat
  | X_Call "('db, 'env, 'cheat) m_ctx"
  | X_Merge "('db, 'env, 'cheat) m_ctx" call "exec_coverage option"
  | X_Measure "('db, 'env, 'cheat) m_ctx" call cov_update
  | X_Consider "('db, 'env, 'cheat) m_ctx"
  | X_Stop nat "('db, 'env, 'cheat) measured_prefix list" bool
  | X_Keep nat "('db, 'env, 'cheat) measured_prefix list" bool
  | X_Done
  | X_Failed fuzz_failure

record ('db, 'env, 'cheat, 'r) x_worker =
  xw_pc :: "('db, 'env, 'cheat) x_pc"
  xw_rng :: 'r
  xw_best_known :: max_value

definition value_tx :: "('db, 'env, 'cheat, 'trace, 'r) m_exec \<Rightarrow> transaction" where
  "value_tx X = tx_with_calldata (mx_value_calldata X) (tx_new (mx_target X))"

text \<open>
  \<open>measure_value\<close>: \<open>Inr None\<close> when the value call reverts. The results are those whose gas the
  source records, whether or not the value is there and decodes; the chain is changed.
\<close>

definition measure_value ::
  "('db, 'env, 'cheat, 'trace, 'r) m_exec \<Rightarrow> ('db, 'env, 'cheat) chain \<Rightarrow>
   (fuzz_failure + max_value option) \<times> tx_result list \<times> ('db, 'env, 'cheat) chain" where
  "measure_value X ch =
     (case chain_exec (fx_ops X) [value_tx X] ch of
        (Inl e, ch') \<Rightarrow> (Inl (Fuzz_Chain e), [], ch')
      | (Inr out, ch') \<Rightarrow>
          (case eo_results out of
             [] \<Rightarrow> Inl Fuzz_Value_Missing
           | result # _ \<Rightarrow>
               if \<not> tr_success result then Inr None
               else case value_decode (mx_uint256 X) result of
                      Inl e \<Rightarrow> Inl Fuzz_Value_Undecodable
                    | Inr v \<Rightarrow> Inr (Some v),
           eo_results out, ch'))"

definition m_call ::
  "('db, 'env, 'cheat, 'trace, 'r) m_exec \<Rightarrow> ('db, 'env, 'cheat) m_shared \<Rightarrow>
   ('db, 'env, 'cheat) m_ctx \<Rightarrow> call \<Rightarrow> ('db, 'env, 'cheat) m_shared \<times> ('db, 'env, 'cheat) x_pc" where
  "m_call X sh ctx call =
     (case chain_exec (fx_ops X) [m_call_transaction (fx_codec X) (mx_target X) (mx_deployer X) call]
             (xc_chain ctx) of
        (Inl e, _) \<Rightarrow> (sh, X_Failed (Fuzz_Chain e))
      | (Inr exec, chain') \<Rightarrow>
          (m_record_gas (eo_results exec) (m_record_call sh),
           X_Merge (ctx\<lparr>xc_chain := chain'\<rparr>) call (eo_coverage exec)))"

definition m_merge ::
  "('db, 'env, 'cheat) m_shared \<Rightarrow> ('db, 'env, 'cheat) m_ctx \<Rightarrow> call \<Rightarrow> exec_coverage option \<Rightarrow>
   ('db, 'env, 'cheat) m_shared \<times> ('db, 'env, 'cheat) x_pc" where
  "m_merge sh ctx call coverage =
     (case coverage of
        None \<Rightarrow> (sh, X_Failed Fuzz_No_Coverage)
      | Some c \<Rightarrow>
          (case cov_merge c (mf_coverage sh) of
             None \<Rightarrow> (sh, X_Failed Fuzz_Panic)
           | Some (update, cov') \<Rightarrow> (sh\<lparr>mf_coverage := cov'\<rparr>, X_Measure ctx call update)))"

text \<open>The value after a call, its signal, and the prefix it makes.\<close>

definition m_measure_step ::
  "('db, 'env, 'cheat, 'trace, 'r) m_exec \<Rightarrow> ('db, 'env, 'cheat) m_shared \<Rightarrow>
   ('db, 'env, 'cheat) m_ctx \<Rightarrow> call \<Rightarrow> cov_update \<Rightarrow> max_value \<Rightarrow>
   ('db, 'env, 'cheat) m_shared \<times> ('db, 'env, 'cheat) x_pc \<times> max_value" where
  "m_measure_step X sh ctx call update best_known =
     (case measure_value X (xc_chain ctx) of
        (Inl e, results, _) \<Rightarrow> (m_record_gas results sh, X_Failed e, best_known)
      | (Inr measured, results, chain') \<Rightarrow>
          let val = (case measured of None \<Rightarrow> 0 | Some v \<Rightarrow> v);
              d = delta_between (xc_prev ctx) val;
              below_baseline = xc_prev ctx < mx_initial_value X;
              (observation, records') = observe (xc_executed ctx) call d below_baseline (mf_records sh);
              executed = xc_executed ctx @ [call];
              beats_local = best_known < val;
              p = \<lparr>mp_sequence = executed, mp_value = val, mp_chain = chain',
                   mp_new_edges = score update, mp_delta_activity = delta_activity d,
                   mp_interesting = is_interesting update \<or> beats_local \<or> obs_interesting observation,
                   mp_measured = measured \<noteq> None\<rparr>
          in ((m_record_gas results sh)\<lparr>mf_records := records'\<rparr>,
              X_Call (ctx\<lparr>xc_chain := chain', xc_executed := executed, xc_prev := val,
                          xc_prefixes := xc_prefixes ctx @ [p]\<rparr>),
              if beats_local then val else best_known))"

definition m_consider_step ::
  "('db, 'env, 'cheat, 'trace, 'r) m_exec \<Rightarrow> ('db, 'env, 'cheat) m_shared \<Rightarrow>
   ('db, 'env, 'cheat) m_ctx \<Rightarrow> ('db, 'env, 'cheat) m_shared \<times> ('db, 'env, 'cheat) x_pc" where
  "m_consider_step X sh ctx =
     (if xc_prefixes ctx = [] then (sh, X_Loop (xc_left ctx))
      else
        let p = last (xc_prefixes ctx) in
        if mp_measured p then
          let (improved, stop, sh') = m_consider X (mp_sequence p) (mp_value p) (mp_chain p) sh
          in (sh', if stop then X_Stop (xc_left ctx) (xc_prefixes ctx) improved
                   else X_Keep (xc_left ctx) (xc_prefixes ctx) improved)
        else (sh, X_Keep (xc_left ctx) (xc_prefixes ctx) False))"

definition m_keep ::
  "('db, 'env, 'cheat) m_shared \<Rightarrow> ('db, 'env, 'cheat) measured_prefix \<Rightarrow> bool \<Rightarrow>
   ('db, 'env, 'cheat) m_shared" where
  "m_keep sh p improved =
     (if mp_measured p \<and> (improved \<or> mp_interesting p)
      then sh\<lparr>mf_corpus := m_add (mp_sequence p) (mp_value p) (mp_new_edges p) (mp_delta_activity p)
                            (mp_chain p) (mf_corpus sh)\<rparr>
      else sh)"

definition m_step ::
  "('db, 'env, 'cheat, 'trace, 'r) m_exec \<Rightarrow>
   (('db, 'env, 'cheat) m_shared, ('db, 'env, 'cheat, 'r) x_worker) worker_step" where
  "m_step X clock sh w =
     (let goto = (\<lambda>(sh', pc). (sh', w\<lparr>xw_pc := pc\<rparr>)) in
      case xw_pc w of
        X_Loop n \<Rightarrow>
          goto (sh, if n = 0 \<or> mf_stop sh \<or> m_timed_out X clock then X_Done else X_Begin (n - 1))
      | X_Begin n \<Rightarrow> goto (m_record_run sh, X_Pick n)
      | X_Pick n \<Rightarrow>
          (case run_state (m_pick X sh) (xw_rng w) of
             (Inl e, r) \<Rightarrow> (sh, w\<lparr>xw_pc := X_Failed e, xw_rng := r\<rparr>)
           | (Inr (s, v, pending, ch), r) \<Rightarrow>
               (sh, w\<lparr>xw_pc := X_Call \<lparr>xc_left = n, xc_pending = pending, xc_chain = ch,
                                       xc_executed = s, xc_prev = v, xc_prefixes = []\<rparr>, xw_rng := r\<rparr>))
      | X_Call ctx \<Rightarrow>
          goto (case xc_pending ctx of
                  [] \<Rightarrow> (sh, X_Consider ctx)
                | call # pending \<Rightarrow> m_call X sh (ctx\<lparr>xc_pending := pending\<rparr>) call)
      | X_Merge ctx call coverage \<Rightarrow> goto (m_merge sh ctx call coverage)
      | X_Measure ctx call update \<Rightarrow>
          (case m_measure_step X sh ctx call update (xw_best_known w) of
             (sh', pc, best_known) \<Rightarrow> (sh', w\<lparr>xw_pc := pc, xw_best_known := best_known\<rparr>))
      | X_Consider ctx \<Rightarrow> goto (m_consider_step X sh ctx)
      | X_Stop n prefixes improved \<Rightarrow> goto (m_request_stop sh, X_Keep n prefixes improved)
      | X_Keep n prefixes improved \<Rightarrow>
          goto (case prefixes of
                  [] \<Rightarrow> (sh, X_Loop n)
                | p # ps \<Rightarrow> (m_keep sh p improved, X_Keep n ps improved))
      | X_Done \<Rightarrow> (sh, w)
      | X_Failed e \<Rightarrow> (sh, w))"

subsection \<open>The campaign\<close>

datatype m_not_set =
    M_Chain | M_Target | M_Deployer | M_Value_Calldata | M_Handlers | M_Corpus | M_Coverage
  | M_Initial_Value

text \<open>Steps 1 and 2 of \<open>run\<close>: the best is seeded from the best entry of the corpus, if any.\<close>

definition m_seed_best :: "max_value \<Rightarrow> 'c m_corpus \<Rightarrow> 'c best" where
  "m_seed_best initial corpus =
     (case m_best_entry corpus of
        Some (s, v, ch) \<Rightarrow> best_with_chain s v ch
      | None \<Rightarrow> best_new [] initial)"

definition m_resolve ::
  "('db, 'env, 'cheat, 'trace, 'r) m_env \<Rightarrow> ('db, 'env, 'cheat) m_fuzzer \<Rightarrow>
   m_not_set + ('db, 'env, 'cheat, 'trace, 'r) m_exec \<times> ('db, 'env, 'cheat) m_shared" where
  "m_resolve E mz =
     (case mz_chain mz of None \<Rightarrow> Inl M_Chain | Some chain \<Rightarrow>
     (case mz_target mz of None \<Rightarrow> Inl M_Target | Some target \<Rightarrow>
     (case mz_deployer mz of None \<Rightarrow> Inl M_Deployer | Some deployer \<Rightarrow>
     (case mz_value_calldata mz of None \<Rightarrow> Inl M_Value_Calldata | Some value_calldata \<Rightarrow>
     (case mz_handlers mz of None \<Rightarrow> Inl M_Handlers | Some handlers \<Rightarrow>
     (case mz_corpus mz of None \<Rightarrow> Inl M_Corpus | Some corpus \<Rightarrow>
     (case mz_coverage mz of None \<Rightarrow> Inl M_Coverage | Some coverage \<Rightarrow>
     (case mz_initial_value mz of None \<Rightarrow> Inl M_Initial_Value | Some initial \<Rightarrow>
        Inr (\<lparr>fx_ops = fx_ops E, fx_codec = fx_codec E, fx_text = fx_text E, fx_rng = fx_rng E,
              fx_seed_rng = fx_seed_rng E, mx_uint256 = mx_uint256 E, mx_chain = chain,
              mx_target = target, mx_deployer = deployer, mx_value_calldata = value_calldata,
              mx_handlers = handlers, mx_initial_value = initial,
              mx_seed = (case mz_seed mz of None \<Rightarrow> 0 | Some seed \<Rightarrow> seed),
              mx_threads = (case mz_threads mz of None \<Rightarrow> 1 | Some n \<Rightarrow> n),
              mx_max_runs = (case mz_max_runs mz of None \<Rightarrow> 0 | Some n \<Rightarrow> n),
              mx_max_calls = (case mz_max_calls mz of None \<Rightarrow> 8 | Some n \<Rightarrow> n),
              mx_timeout = mz_timeout mz, mx_target_value = mz_target_value mz\<rparr>,
             \<lparr>mf_best = m_seed_best initial corpus, mf_runs = 0, mf_calls = 0, mf_gas = 0,
              mf_stop = False, mf_corpus = corpus, mf_coverage = coverage,
              mf_records = Map.empty\<rparr>)))))))))"

definition x_spawn ::
  "('db, 'env, 'cheat, 'trace, 'r) m_exec \<Rightarrow> nat list \<Rightarrow> ('db, 'env, 'cheat, 'r) x_worker list" where
  "x_spawn X budgets =
     map (\<lambda>(i, budget). \<lparr>xw_pc = X_Loop budget, xw_rng = fx_seed_rng X (mx_seed X + of_nat i),
                         xw_best_known = mx_initial_value X\<rparr>)
       (enumerate 0 budgets)"

fun x_finished :: "('db, 'env, 'cheat) x_pc \<Rightarrow> bool" where
  "x_finished X_Done = True"
| "x_finished (X_Failed e) = True"
| "x_finished _ = False"

definition x_failures :: "('db, 'env, 'cheat, 'r) x_worker list \<Rightarrow> fuzz_failure list" where
  "x_failures ws = List.map_filter (\<lambda>w. case xw_pc w of X_Failed e \<Rightarrow> Some e | _ \<Rightarrow> None) ws"

definition m_start ::
  "('db, 'env, 'cheat, 'trace, 'r) m_exec \<Rightarrow> ('db, 'env, 'cheat) m_shared \<Rightarrow>
   (('db, 'env, 'cheat) m_shared \<times> ('db, 'env, 'cheat, 'r) x_worker list) option" where
  "m_start X sh =
     map_option (\<lambda>budgets. (sh, x_spawn X budgets)) (m_split_runs (mx_max_runs X) (mx_threads X))"

datatype 'o m_run_result =
    MR_Not_Set m_not_set
  | MR_Panicked
  | MR_Running
  | MR_Failed fuzz_failure nat
  | MR_Finished 'o

definition m_run ::
  "('db, 'env, 'cheat, 'trace, 'r) m_env \<Rightarrow> ('db, 'env, 'cheat) m_fuzzer \<Rightarrow> (nat \<times> bool) list \<Rightarrow>
   ('db, 'env, 'cheat) chain best m_run_result" where
  "m_run E mz sched =
     (case m_resolve E mz of
        Inl e \<Rightarrow> MR_Not_Set e
      | Inr (X, sh) \<Rightarrow>
          if (case mx_target_value X of Some target \<Rightarrow> target \<le> be_value (mf_best sh) | None \<Rightarrow> False)
          then MR_Finished (mf_best sh)
          else if mx_handlers X = [] then MR_Finished (mf_best sh)
          else
            (case m_start X sh of
               None \<Rightarrow> MR_Panicked
             | Some start \<Rightarrow>
                 let (sh', ws) = run_schedule (m_step X) sched start
                 in if list_all (\<lambda>w. x_finished (xw_pc w)) ws
                    then case x_failures ws of
                           [] \<Rightarrow> MR_Finished (mf_best sh')
                         | e # es \<Rightarrow> MR_Failed e (length (e # es))
                    else MR_Running))"

end
