(* ===== verification/Max_Campaign.thy ===== *)
theory Max_Campaign
  imports Max_Fuzzer
begin

section \<open>Campaigns of the max mode\<close>

text \<open>
  The measured results of \<open>Max_Fuzzer\<close>: in every interleaving the value kept with a sequence,
  in the corpus or as the best, is the value the harness returned right after the sequence, and
  the snapshot is the state at that moment.
\<close>

subsection \<open>States and values reached by calls\<close>

text \<open>One call as the worker runs it: the call, then the value call on the same chain.\<close>

definition measured_call ::
  "('db, 'env, 'cheat, 'trace, 'r) m_exec \<Rightarrow> ('db, 'env, 'cheat) chain \<Rightarrow> call \<Rightarrow>
   (('db, 'env, 'cheat) chain \<times> max_value option) option" where
  "measured_call X ch c =
     (case chain_exec (fx_ops X) [m_call_transaction (fx_codec X) (mx_target X) (mx_deployer X) c] ch of
        (Inl e, _) \<Rightarrow> None
      | (Inr out, ch1) \<Rightarrow>
          (case measure_value X ch1 of
             (Inl e, _, _) \<Rightarrow> None
           | (Inr v, _, ch2) \<Rightarrow> Some (ch2, v)))"

fun replay_measured ::
  "('db, 'env, 'cheat, 'trace, 'r) m_exec \<Rightarrow> ('db, 'env, 'cheat) chain \<Rightarrow> max_value option \<Rightarrow>
   seq_calls \<Rightarrow> (('db, 'env, 'cheat) chain \<times> max_value option) option" where
  "replay_measured X ch v [] = Some (ch, v)"
| "replay_measured X ch v (c # cs) =
     (case measured_call X ch c of
        None \<Rightarrow> None
      | Some (ch', v') \<Rightarrow> replay_measured X ch' v' cs)"

lemma replay_measured_append:
  "replay_measured X ch v (cs @ ds) =
     Option.bind (replay_measured X ch v cs) (\<lambda>(ch', v'). replay_measured X ch' v' ds)"
  by (induction cs arbitrary: ch v) (auto split: option.splits)

text \<open>Where a campaign starts: the initial chain and value, and the given snapshots.\<close>

definition m_is_base where
  "m_is_base X C0 bs bc bv \<longleftrightarrow>
     bs = [] \<and> bc = mx_chain X \<and> bv = mx_initial_value X
   \<or> (\<exists>e \<in> set C0. mn_sequence e = bs \<and> mn_chain e = Some bc \<and> mn_value e = bv)"

definition m_derived ::
  "('db, 'env, 'cheat, 'trace, 'r) m_exec \<Rightarrow> ('db, 'env, 'cheat) chain m_corpus \<Rightarrow> seq_calls \<Rightarrow>
   ('db, 'env, 'cheat) chain \<Rightarrow> max_value option \<Rightarrow> bool" where
  "m_derived X C0 s ch v \<longleftrightarrow>
     (\<exists>bs bc bv cs. m_is_base X C0 bs bc bv \<and> s = bs @ cs
        \<and> replay_measured X bc (Some bv) cs = Some (ch, v))"

lemma m_derived_initial: "m_derived X C0 [] (mx_chain X) (Some (mx_initial_value X))"
  by (auto simp: m_derived_def m_is_base_def)

lemma m_derived_given:
  "e \<in> set C0 \<Longrightarrow> mn_chain e = Some ch \<Longrightarrow> m_derived X C0 (mn_sequence e) ch (Some (mn_value e))"
  unfolding m_derived_def m_is_base_def
  by (intro exI [of _ "mn_sequence e"] exI [of _ ch] exI [of _ "mn_value e"] exI [of _ "[]"]) auto

lemma m_derived_step:
  assumes "m_derived X C0 s ch v" and "measured_call X ch c = Some (ch', v')"
  shows "m_derived X C0 (s @ [c]) ch' v'"
proof -
  from assms(1) obtain bs bc bv cs where "m_is_base X C0 bs bc bv" "s = bs @ cs"
    "replay_measured X bc (Some bv) cs = Some (ch, v)" by (auto simp: m_derived_def)
  with assms(2) show ?thesis
    unfolding m_derived_def
    by (intro exI [of _ bs] exI [of _ bc] exI [of _ bv] exI [of _ "cs @ [c]"])
      (simp add: replay_measured_append)
qed

subsection \<open>The invariant\<close>

definition m_corpus_ok where
  "m_corpus_ok X C0 C \<longleftrightarrow>
     (\<forall>e \<in> set C. \<forall>ch. mn_chain e = Some ch \<longrightarrow> m_derived X C0 (mn_sequence e) ch (Some (mn_value e)))"

definition best_ok where
  "best_ok X C0 b \<longleftrightarrow>
     (case be_chain b of
        None \<Rightarrow> b = best_new [] (mx_initial_value X)
      | Some ch \<Rightarrow> m_derived X C0 (be_sequence b) ch (Some (be_value b)))"

definition measured_shared where
  "measured_shared X C0 v0 sh \<longleftrightarrow>
     m_corpus_ok X C0 (mf_corpus sh) \<and> best_ok X C0 (mf_best sh) \<and> v0 \<le> be_value (mf_best sh)"

lemma measured_sharedD:
  assumes "measured_shared X C0 v0 sh"
  shows "m_corpus_ok X C0 (mf_corpus sh)" and "best_ok X C0 (mf_best sh)" and "v0 \<le> be_value (mf_best sh)"
  using assms unfolding measured_shared_def by blast+

definition prefix_ok where
  "prefix_ok X C0 p \<longleftrightarrow>
     (mp_measured p \<longrightarrow> m_derived X C0 (mp_sequence p) (mp_chain p) (Some (mp_value p)))"

definition called where
  "called X C0 ctx c \<longleftrightarrow>
     (\<exists>ch v out. m_derived X C0 (xc_executed ctx) ch v
        \<and> chain_exec (fx_ops X) [m_call_transaction (fx_codec X) (mx_target X) (mx_deployer X) c] ch
          = (Inr out, xc_chain ctx))"

fun measured_pc where
  "measured_pc X C0 (X_Call ctx) \<longleftrightarrow>
     (\<exists>v. m_derived X C0 (xc_executed ctx) (xc_chain ctx) v) \<and> list_all (prefix_ok X C0) (xc_prefixes ctx)"
| "measured_pc X C0 (X_Merge ctx c coverage) \<longleftrightarrow>
     called X C0 ctx c \<and> list_all (prefix_ok X C0) (xc_prefixes ctx)"
| "measured_pc X C0 (X_Measure ctx c u) \<longleftrightarrow>
     called X C0 ctx c \<and> list_all (prefix_ok X C0) (xc_prefixes ctx)"
| "measured_pc X C0 (X_Consider ctx) \<longleftrightarrow> list_all (prefix_ok X C0) (xc_prefixes ctx)"
| "measured_pc X C0 (X_Stop n ps improved) \<longleftrightarrow> list_all (prefix_ok X C0) ps"
| "measured_pc X C0 (X_Keep n ps improved) \<longleftrightarrow> list_all (prefix_ok X C0) ps"
| "measured_pc X C0 _ \<longleftrightarrow> True"

subsection \<open>The base of a run\<close>

definition m_starts where
  "m_starts X C0 x \<longleftrightarrow> (case x of Inl e \<Rightarrow> True | Inr (s, v, pending, ch) \<Rightarrow> m_derived X C0 s ch (Some v))"

lemma m_starts_fresh: "m_starts X C0 (map_sum Fuzz_Generator (\<lambda>cs. ([], mx_initial_value X, cs, mx_chain X)) x)"
  by (cases x) (simp_all add: m_starts_def m_derived_initial)

lemma m_fresh_derived: "pred_state (m_starts X C0) (m_fresh X)"
  unfolding m_fresh_def by (intro pred_bind_any pred_return m_starts_fresh)

lemma m_random_base_in:
  assumes "m_random_base R r C = (Some (s, v, ch), r')"
  shows "\<exists>e \<in> set C. mn_sequence e = s \<and> mn_value e = v \<and> mn_chain e = Some ch"
proof -
  have base: "\<exists>e \<in> set C. mn_sequence e = s \<and> mn_value e = v \<and> mn_chain e = Some ch"
    if "e \<in> set (m_replayed C)" "m_base_of e = Some (s, v, ch)" for e
    using that by (auto simp: m_replayed_def m_base_of_def)
  show ?thesis
    using assms base last_in_set
    by (fastforce simp: m_random_base_def Let_def dest: weighted_pick_in
        split: if_splits prod.splits option.splits)
qed

text \<open>What is known of the base, for any property of the sequences of the corpus and the best.\<close>

lemma m_base_pred:
  assumes corpus: "\<And>e ch. e \<in> set (mf_corpus sh) \<Longrightarrow> mn_chain e = Some ch \<Longrightarrow>
      P (mn_sequence e) (mn_value e) ch"
    and best: "\<And>ch. be_chain (mf_best sh) = Some ch \<Longrightarrow>
      P (be_sequence (mf_best sh)) (be_value (mf_best sh)) ch"
    and initial: "P [] (mx_initial_value X) (mx_chain X)"
  shows "pred_state (\<lambda>(s, v, ch). P s v ch) (m_base X sh)"
proof -
  let ?Q = "\<lambda>b. case b of None \<Rightarrow> True | Some (s, v, ch) \<Rightarrow> P s v ch"
  have b: "pred_state ?Q (State_Monad.return (m_best_base sh))"
    by (rule pred_return) (auto simp: m_best_base_def best split: option.splits)
  have c: "pred_state ?Q (State (\<lambda>r. m_random_base (fx_rng X) r (mf_corpus sh)))"
    by (rule pred_stateI) (auto split: option.splits dest!: m_random_base_in intro: corpus)
  have cond: "pred_state ?Q (if k \<noteq> 0 then State_Monad.return (m_best_base sh)
      else State (\<lambda>r. m_random_base (fx_rng X) r (mf_corpus sh)))" for k :: nat
    using b c by (cases "k = 0") (simp_all only: if_True if_False simp_thms)
  show ?thesis
    unfolding m_base_def
    by (rule pred_bind_any, rule pred_bind [OF cond])
      (auto intro!: pred_return simp: initial split: option.splits)
qed

lemma m_extend_derived:
  "m_derived X C0 s ch (Some v) \<Longrightarrow> pred_state (m_starts X C0) (m_extend X s v ch c)"
  unfolding m_extend_def
  by (auto intro!: pred_bind_any pred_return simp: m_starts_def m_derived_initial)

lemma m_pick_derived:
  assumes "measured_shared X C0 v0 sh"
  shows "pred_state (m_starts X C0) (m_pick X sh)"
proof -
  note D = measured_sharedD [OF assms]
  have base: "pred_state (\<lambda>(s, v, ch). m_derived X C0 s ch (Some v)) (m_base X sh)"
    by (rule m_base_pred)
      (use D(1,2) m_derived_initial in \<open>auto simp: m_corpus_ok_def best_ok_def\<close>)
  have "pred_state (m_starts X C0) (m_base X sh \<bind> (\<lambda>base. m_random_call X \<bind> (\<lambda>c. case c of
        Inl e \<Rightarrow> State_Monad.return (Inl e)
      | Inr call \<Rightarrow> (case base of (s, v, ch) \<Rightarrow> m_extend X s v ch call))))"
    by (rule pred_bind [OF base])
      (auto intro!: pred_bind_any pred_return m_extend_derived simp: m_starts_def split: sum.splits)
  then show ?thesis
    unfolding m_pick_def by (intro pred_bind_any) (auto simp: m_fresh_derived)
qed

subsection \<open>Preservation\<close>

lemma m_call_cases:
  assumes "m_call X sh ctx c = (sh', pc)"
  obtains (failed) e where "sh' = sh" and "pc = X_Failed (Fuzz_Chain e)"
  | (executed) out ch' where
      "chain_exec (fx_ops X) [m_call_transaction (fx_codec X) (mx_target X) (mx_deployer X) c] (xc_chain ctx)
       = (Inr out, ch')"
      and "sh' = m_record_gas (eo_results out) (m_record_call sh)"
      and "pc = X_Merge (ctx\<lparr>xc_chain := ch'\<rparr>) c (eo_coverage out)"
  using assms by (auto simp: m_call_def split: prod.splits sum.splits)

lemma m_merge_cases:
  assumes "m_merge sh ctx c coverage = (sh', pc)"
  obtains (uncovered) "coverage = None" and "sh' = sh" and "pc = X_Failed Fuzz_No_Coverage"
  | (panicked) cv where "coverage = Some cv" and "cov_merge cv (mf_coverage sh) = None"
      and "sh' = sh" and "pc = X_Failed Fuzz_Panic"
  | (merged) cv u S where "coverage = Some cv" and "cov_merge cv (mf_coverage sh) = Some (u, S)"
      and "sh' = sh\<lparr>mf_coverage := S\<rparr>" and "pc = X_Measure ctx c u"
proof (cases coverage)
  case None
  with assms show ?thesis by (intro uncovered) (auto simp: m_merge_def)
next
  case (Some cv)
  show ?thesis
  proof (cases "cov_merge cv (mf_coverage sh)")
    case None
    with Some assms show ?thesis by (intro panicked [of cv]) (auto simp: m_merge_def)
  next
    case (Some uS)
    obtain u S where "uS = (u, S)" by fastforce
    with Some assms \<open>coverage = Some cv\<close> show ?thesis
      by (intro merged [of cv u S]) (auto simp: m_merge_def)
  qed
qed

lemma m_measure_cases:
  assumes "m_measure_step X sh ctx c u known = (sh', pc, known')"
  obtains (failed) e results ch' where "measure_value X (xc_chain ctx) = (Inl e, results, ch')"
      and "sh' = m_record_gas results sh" and "pc = X_Failed e"
  | (measured) v results ch' edges activity interesting records where
      "measure_value X (xc_chain ctx) = (Inr v, results, ch')"
      and "sh' = (m_record_gas results sh)\<lparr>mf_records := records\<rparr>"
      and "pc = X_Call (ctx\<lparr>xc_chain := ch', xc_executed := xc_executed ctx @ [c],
          xc_prev := (case v of None \<Rightarrow> 0 | Some x \<Rightarrow> x),
          xc_prefixes := xc_prefixes ctx @
            [\<lparr>mp_sequence = xc_executed ctx @ [c], mp_value = (case v of None \<Rightarrow> 0 | Some x \<Rightarrow> x),
              mp_chain = ch', mp_new_edges = edges, mp_delta_activity = activity,
              mp_interesting = interesting, mp_measured = v \<noteq> None\<rparr>]\<rparr>)"
proof (cases "measure_value X (xc_chain ctx)")
  case (fields res results ch')
  show ?thesis
  proof (cases res)
    case (Inl e)
    with assms fields show ?thesis by (intro failed [of e results ch']) (auto simp: m_measure_step_def)
  next
    case (Inr v)
    obtain ob records where
      "observe (xc_executed ctx) c (delta_between (xc_prev ctx) (case v of None \<Rightarrow> 0 | Some x \<Rightarrow> x))
         (xc_prev ctx < mx_initial_value X) (mf_records sh) = (ob, records)" by fastforce
    with assms fields Inr show ?thesis
      by (intro measured [of v results ch' records]) (simp_all add: m_measure_step_def Let_def, blast)
  qed
qed

lemma m_consider_cases:
  assumes "m_consider_step X sh ctx = (sh', pc)"
  obtains (empty) "sh' = sh" and "xc_prefixes ctx = []" and "pc = X_Loop (xc_left ctx)"
  | (unmeasured) "sh' = sh" and "xc_prefixes ctx \<noteq> []" and "pc = X_Keep (xc_left ctx) (xc_prefixes ctx) False"
  | (considered) p improved where "p \<in> set (xc_prefixes ctx)" and "mp_measured p"
      and "sh' = sh\<lparr>mf_best := snd (best_consider (mp_sequence p) (mp_value p) (mp_chain p) (mf_best sh))\<rparr>"
      and "pc = X_Stop (xc_left ctx) (xc_prefixes ctx) improved
         \<or> pc = X_Keep (xc_left ctx) (xc_prefixes ctx) improved"
proof (cases "xc_prefixes ctx = []")
  case True
  with assms show ?thesis by (intro empty) (auto simp: m_consider_step_def)
next
  case False
  let ?p = "last (xc_prefixes ctx)"
  show ?thesis
  proof (cases "mp_measured ?p")
    case True
    obtain improved best where
      "best_consider (mp_sequence ?p) (mp_value ?p) (mp_chain ?p) (mf_best sh) = (improved, best)"
      by fastforce
    with True False assms show ?thesis
      by (intro considered [of ?p improved])
        (auto simp: m_consider_step_def m_consider_def Let_def split: if_splits)
  qed (use False assms in \<open>auto intro!: unmeasured simp: m_consider_step_def\<close>)
qed

lemma best_consider_ok:
  assumes "best_ok X C0 b" and "m_derived X C0 s ch (Some v)" and "v0 \<le> be_value b"
  shows "best_ok X C0 (snd (best_consider s v ch b)) \<and> v0 \<le> be_value (snd (best_consider s v ch b))"
  using assms by (auto simp: best_consider_def best_ok_def Let_def split: option.splits if_splits)

lemma m_add_ok:
  assumes "m_corpus_ok X C0 C" and "m_derived X C0 s ch (Some v)"
  shows "m_corpus_ok X C0 (m_add s v edges activity ch C)"
  using assms m_add_set by (fastforce simp: m_corpus_ok_def m_add_def)

lemma m_record_simps [simp]:
  "mf_best (m_record_gas rs sh) = mf_best sh" "mf_best (m_record_call sh) = mf_best sh"
  "mf_best (m_record_run sh) = mf_best sh" "mf_best (m_request_stop sh) = mf_best sh"
  "mf_corpus (m_record_gas rs sh) = mf_corpus sh" "mf_corpus (m_record_call sh) = mf_corpus sh"
  "mf_corpus (m_record_run sh) = mf_corpus sh" "mf_corpus (m_request_stop sh) = mf_corpus sh"
  "mf_coverage (m_record_gas rs sh) = mf_coverage sh" "mf_coverage (m_record_call sh) = mf_coverage sh"
  "mf_coverage (m_record_run sh) = mf_coverage sh" "mf_coverage (m_request_stop sh) = mf_coverage sh"
  "mf_runs (m_record_gas rs sh) = mf_runs sh" "mf_runs (m_record_call sh) = mf_runs sh"
  "mf_runs (m_request_stop sh) = mf_runs sh"
  by (simp_all add: m_record_gas_def m_record_call_def m_record_run_def m_request_stop_def)

lemma m_step_measured:
  assumes sh: "measured_shared X C0 v0 sh" and w: "measured_pc X C0 (xw_pc w)"
    and step: "m_step X clock sh w = (sh', w')"
  shows "measured_shared X C0 v0 sh' \<and> measured_pc X C0 (xw_pc w')"
proof (cases "xw_pc w")
  case (X_Pick n)
  obtain res r where pk: "run_state (m_pick X sh) (xw_rng w) = (res, r)" by fastforce
  from pred_state_run_state [OF m_pick_derived [OF sh], of "xw_rng w"] have "m_starts X C0 res"
    by (simp add: pk)
  with X_Pick step sh pk show ?thesis
    by (auto simp: m_step_def m_starts_def split: sum.splits)
next
  case (X_Call ctx)
  show ?thesis
  proof (cases "xc_pending ctx")
    case Nil
    with X_Call step sh w show ?thesis by (auto simp: m_step_def)
  next
    case (Cons c cs)
    obtain pc where c: "m_call X sh (ctx\<lparr>xc_pending := cs\<rparr>) c = (sh', pc)" "xw_pc w' = pc"
      using step X_Call Cons by (auto simp: m_step_def split: prod.splits)
    from c(1) show ?thesis
      by (cases rule: m_call_cases)
        (use c(2) sh w X_Call in \<open>auto simp: measured_shared_def called_def\<close>)
  qed
next
  case (X_Merge ctx c coverage)
  obtain pc where m: "m_merge sh ctx c coverage = (sh', pc)" "xw_pc w' = pc"
    using step X_Merge by (auto simp: m_step_def split: prod.splits)
  from m(1) show ?thesis
    by (cases rule: m_merge_cases) (use m(2) sh w X_Merge in \<open>auto simp: measured_shared_def\<close>)
next
  case (X_Measure ctx c u)
  obtain pc known where m: "m_measure_step X sh ctx c u (xw_best_known w) = (sh', pc, known)" "xw_pc w' = pc"
    using step X_Measure by (auto simp: m_step_def split: prod.splits)
  from w X_Measure obtain ch v out where d: "m_derived X C0 (xc_executed ctx) ch v"
    "chain_exec (fx_ops X) [m_call_transaction (fx_codec X) (mx_target X) (mx_deployer X) c] ch
     = (Inr out, xc_chain ctx)" by (auto simp: called_def)
  from m(1) show ?thesis
  proof (cases rule: m_measure_cases)
    case (failed e results ch')
    with m(2) sh show ?thesis by (simp add: measured_shared_def)
  next
    case (measured v' results ch' edges activity interesting records)
    have "measured_call X ch c = Some (ch', v')" using d(2) measured(1) by (simp add: measured_call_def)
    with d(1) have "m_derived X C0 (xc_executed ctx @ [c]) ch' v'" by (rule m_derived_step)
    with measured(2,3) m(2) sh w X_Measure show ?thesis
      by (auto simp: measured_shared_def prefix_ok_def)
  qed
next
  case (X_Consider ctx)
  obtain pc where m: "m_consider_step X sh ctx = (sh', pc)" "xw_pc w' = pc"
    using step X_Consider by (auto simp: m_step_def split: prod.splits)
  from m(1) show ?thesis
  proof (cases rule: m_consider_cases)
    case (considered p improved)
    have "m_derived X C0 (mp_sequence p) (mp_chain p) (Some (mp_value p))"
      using considered(1,2) w X_Consider by (auto simp: list_all_iff prefix_ok_def)
    with best_consider_ok [OF measured_sharedD(2) [OF sh] this measured_sharedD(3) [OF sh]]
      considered(3,4) m(2) w X_Consider measured_sharedD(1) [OF sh] show ?thesis
      by (auto simp: measured_shared_def)
  qed (use m(2) sh w X_Consider in auto)
next
  case (X_Keep n ps improved)
  show ?thesis
  proof (cases ps)
    case Nil
    with X_Keep step sh show ?thesis by (auto simp: m_step_def)
  next
    case (Cons p ps')
    have keep: "measured_shared X C0 v0 (m_keep sh p improved)"
    proof (cases "mp_measured p \<and> (improved \<or> mp_interesting p)")
      case True
      then have "m_derived X C0 (mp_sequence p) (mp_chain p) (Some (mp_value p))"
        using w X_Keep Cons by (simp add: prefix_ok_def)
      with True measured_sharedD [OF sh] show ?thesis
        by (simp add: m_keep_def measured_shared_def m_add_ok)
    qed (use sh in \<open>auto simp: m_keep_def\<close>)
    with X_Keep Cons step w show ?thesis by (auto simp: m_step_def)
  qed
qed (use step sh w in \<open>auto simp: m_step_def measured_shared_def\<close>)

interpretation mreal: worker_pool "m_step X" "measured_shared X C0 v0" "\<lambda>w. measured_pc X C0 (xw_pc w)"
  for X :: "('db, 'env, 'cheat, 'trace, 'r) m_exec" and C0 v0
  by unfold_locales (rule m_step_measured)

end
