(* ===== verification/Max_Safety.thy ===== *)
theory Max_Safety
  imports Max_Campaign Test_Safety Test_Progress
begin

section \<open>Safety, budgets and termination of the max mode\<close>

text \<open>
  The counterparts of \<open>Test_Safety\<close> and \<open>Test_Progress\<close> for \<open>Max_Fuzzer\<close>: sequences stay
  handler calls within the limit, no thread panics, runs are counted against the budget, a stop
  request is obeyed, and every campaign ends.
\<close>

subsection \<open>Threads do not panic\<close>

definition m_exec_ok :: "(cov_id \<Rightarrow> nat) \<Rightarrow> ('db, 'env, 'cheat, 'trace, 'r) m_exec \<Rightarrow> bool" where
  "m_exec_ok code_len X \<longleftrightarrow>
     rng_ok (fx_rng X) \<and> mx_handlers X \<noteq> [] \<and> list_all max_drawable (mx_handlers X)
   \<and> 0 < mx_max_calls X \<and> revm_sized code_len (fx_ops X)"

lemma m_exec_okD:
  assumes "m_exec_ok code_len X"
  shows "rng_ok (fx_rng X)" and "mx_handlers X \<noteq> []" and "\<forall>f \<in> set (mx_handlers X). max_drawable f"
    and "0 < mx_max_calls X" and "revm_sized code_len (fx_ops X)"
  using assms by (simp_all add: m_exec_ok_def list_all_iff)

definition m_seq_ok :: "('db, 'env, 'cheat, 'trace, 'r) m_exec \<Rightarrow> seq_calls \<Rightarrow> bool" where
  "m_seq_ok X s \<longleftrightarrow> length s \<le> mx_max_calls X \<and> list_all (call_ok (mx_handlers X)) s"

definition machine_failure :: "fuzz_failure \<Rightarrow> bool" where
  "machine_failure e \<longleftrightarrow>
     (case e of Fuzz_Chain ce \<Rightarrow> True | Fuzz_No_Coverage \<Rightarrow> True | Fuzz_Value_Undecodable \<Rightarrow> True | _ \<Rightarrow> False)"

definition safe_m_shared ::
  "(cov_id \<Rightarrow> nat) \<Rightarrow> ('db, 'env, 'cheat, 'trace, 'r) m_exec \<Rightarrow> ('db, 'env, 'cheat) m_shared \<Rightarrow> bool" where
  "safe_m_shared code_len X sh \<longleftrightarrow>
     (\<forall>e \<in> set (mf_corpus sh). mn_chain e \<noteq> None \<longrightarrow> m_seq_ok X (mn_sequence e))
   \<and> length (mf_corpus sh) \<le> M_MAX_ENTRIES
   \<and> m_seq_ok X (be_sequence (mf_best sh))
   \<and> sh_wf (mf_coverage sh) \<and> sh_sized code_len (mf_coverage sh)"

lemma safe_m_sharedD:
  assumes "safe_m_shared code_len X sh"
  shows "e \<in> set (mf_corpus sh) \<Longrightarrow> mn_chain e \<noteq> None \<Longrightarrow> m_seq_ok X (mn_sequence e)"
    and "length (mf_corpus sh) \<le> M_MAX_ENTRIES" and "m_seq_ok X (be_sequence (mf_best sh))"
    and "sh_wf (mf_coverage sh)" and "sh_sized code_len (mf_coverage sh)"
  using assms unfolding safe_m_shared_def by blast+

definition prefixes_ok where
  "prefixes_ok X ps \<longleftrightarrow> list_all (\<lambda>p. m_seq_ok X (mp_sequence p)) ps"

fun safe_m_pc where
  "safe_m_pc code_len X (X_Call ctx) \<longleftrightarrow>
     m_seq_ok X (xc_executed ctx @ xc_pending ctx) \<and> prefixes_ok X (xc_prefixes ctx)"
| "safe_m_pc code_len X (X_Merge ctx c coverage) \<longleftrightarrow>
     m_seq_ok X (xc_executed ctx @ c # xc_pending ctx) \<and> prefixes_ok X (xc_prefixes ctx)
   \<and> (case coverage of None \<Rightarrow> True | Some cv \<Rightarrow> cov_wf cv \<and> sized code_len cv)"
| "safe_m_pc code_len X (X_Measure ctx c u) \<longleftrightarrow>
     m_seq_ok X (xc_executed ctx @ c # xc_pending ctx) \<and> prefixes_ok X (xc_prefixes ctx)"
| "safe_m_pc code_len X (X_Consider ctx) \<longleftrightarrow> prefixes_ok X (xc_prefixes ctx)"
| "safe_m_pc code_len X (X_Stop n ps improved) \<longleftrightarrow> prefixes_ok X ps"
| "safe_m_pc code_len X (X_Keep n ps improved) \<longleftrightarrow> prefixes_ok X ps"
| "safe_m_pc code_len X (X_Failed e) \<longleftrightarrow> machine_failure e"
| "safe_m_pc code_len X _ \<longleftrightarrow> True"

definition m_starts_ok where
  "m_starts_ok X x \<longleftrightarrow> (\<exists>s v pending ch. x = Inr (s, v, pending, ch) \<and> m_seq_ok X (s @ pending))"

lemma m_fresh_ok:
  assumes "m_exec_ok code_len X"
  shows "pred_state (m_starts_ok X) (m_fresh X)"
proof -
  note D = m_exec_okD [OF assms]
  have "max (mx_max_calls X) 1 = mx_max_calls X" using D(4) by simp
  then have "pred_state (\<lambda>x. \<exists>s. x = Inr s \<and> m_seq_ok X s)
      (m_sequence_random (fx_rng X) (mx_handlers X) (mx_max_calls X))"
    using m_sequence_random_ok [OF D(1,2,3), of "mx_max_calls X"]
    by (intro pred_stateI) (metis fst_conv m_seq_ok_def)
  then show ?thesis
    unfolding m_fresh_def by (rule pred_bind) (auto intro!: pred_return simp: m_starts_ok_def)
qed

lemma m_random_call_typed:
  assumes "m_exec_ok code_len X"
  shows "pred_state (\<lambda>x. \<exists>c. x = Inr c \<and> call_ok (mx_handlers X) c) (m_random_call X)"
proof -
  note D = m_exec_okD [OF assms]
  have "pred_state (\<lambda>x. \<exists>c. x = Inr c \<and> call_ok (mx_handlers X) c)
      (m_call_random (fx_rng X) f \<bind> (\<lambda>c. State_Monad.return (map_sum Fuzz_Generator id c)))"
    if "f \<in> set (mx_handlers X)" for f
    by (rule pred_bind [OF m_call_random_ok [OF D(1) that]]) (use D(3) that in \<open>auto intro!: pred_return\<close>)
  then show ?thesis
    unfolding m_random_call_def
    by (intro pred_bind [OF pred_pick [OF D(1)]]) (use D(2) in \<open>auto split: option.splits\<close>)
qed

lemma m_extend_ok:
  assumes "m_exec_ok code_len X" and "m_seq_ok X s" and "call_ok (mx_handlers X) c"
  shows "pred_state (m_starts_ok X) (m_extend X s v ch c)"
proof -
  note R = m_exec_okD(1) [OF assms(1)]
  have pos: "0 < mx_max_calls X" by (rule m_exec_okD(4) [OF assms(1)])
  have s: "list_all (call_ok (mx_handlers X)) s" "length s \<le> mx_max_calls X"
    using assms(2) by (simp_all add: m_seq_ok_def)
  have "list_all (call_ok (mx_handlers X)) (s[pos := c])" for pos
    using s(1) assms(3) by (auto simp: list_all_iff dest: set_update_subset_insert [THEN subsetD])
  then show ?thesis
    unfolding m_extend_def using s assms(3) pos
    by (auto intro!: pred_bind [OF pred_draw [OF R]] pred_return simp: m_starts_ok_def m_seq_ok_def)
qed

lemma m_pick_ok:
  assumes X: "m_exec_ok code_len X" and sh: "safe_m_shared code_len X sh"
  shows "pred_state (m_starts_ok X) (m_pick X sh)"
proof -
  note D = safe_m_sharedD [OF sh]
  have base: "pred_state (\<lambda>(s, v, ch). m_seq_ok X s) (m_base X sh)"
    by (rule m_base_pred) (use D in \<open>auto simp: m_seq_ok_def\<close>)
  have "pred_state (m_starts_ok X) (m_base X sh \<bind> (\<lambda>base. m_random_call X \<bind> (\<lambda>c. case c of
        Inl e \<Rightarrow> State_Monad.return (Inl e)
      | Inr call \<Rightarrow> (case base of (s, v, ch) \<Rightarrow> m_extend X s v ch call))))"
    by (rule pred_bind [OF base], rule pred_bind [OF m_random_call_typed [OF X]])
      (use m_extend_ok [OF X] in auto)
  then show ?thesis
    unfolding m_pick_def by (intro pred_bind_any) (auto simp: m_fresh_ok [OF X])
qed

lemma measure_value_failure:
  assumes "measure_value X ch = (Inl e, results, ch2)"
  shows "machine_failure e"
proof (cases "chain_exec (fx_ops X) [value_tx X] ch")
  case (Pair res ch')
  show ?thesis
  proof (cases res)
    case (Inl ce)
    with Pair assms show ?thesis by (auto simp: measure_value_def machine_failure_def)
  next
    case (Inr out)
    with Pair have "length (eo_results out) = 1" using chain_exec_results by fastforce
    then obtain r where "eo_results out = [r]" by (auto simp: length_Suc_conv)
    with Pair Inr assms show ?thesis
      by (auto simp: measure_value_def machine_failure_def split: if_splits sum.splits)
  qed
qed

lemma m_keep_safe:
  assumes sh: "safe_m_shared code_len X sh" and p: "m_seq_ok X (mp_sequence p)"
  shows "safe_m_shared code_len X (m_keep sh p improved)"
proof (cases "mp_measured p \<and> (improved \<or> mp_interesting p)")
  case True
  note D = safe_m_sharedD [OF sh]
  let ?e = "\<lparr>mn_sequence = mp_sequence p, mn_value = mp_value p, mn_new_edges = mp_new_edges p,
             mn_delta_activity = mp_delta_activity p, mn_chain = Some (mp_chain p)\<rparr>"
  have "\<forall>e \<in> set (m_add_entry ?e (mf_corpus sh)). mn_chain e \<noteq> None \<longrightarrow> m_seq_ok X (mn_sequence e)"
    using m_add_set [of ?e "mf_corpus sh"] D(1) p by auto
  moreover have "length (m_add_entry ?e (mf_corpus sh)) \<le> M_MAX_ENTRIES"
    using D(2) by (simp add: m_add_length)
  ultimately show ?thesis using True D by (simp add: m_keep_def safe_m_shared_def m_add_def)
qed (use sh in \<open>auto simp: m_keep_def\<close>)

lemma m_step_safe:
  assumes X: "m_exec_ok code_len X" and sh: "safe_m_shared code_len X sh"
    and w: "safe_m_pc code_len X (xw_pc w)" and step: "m_step X clock sh w = (sh', w')"
  shows "safe_m_shared code_len X sh' \<and> safe_m_pc code_len X (xw_pc w')"
proof (cases "xw_pc w")
  case (X_Pick n)
  obtain res r where pk: "run_state (m_pick X sh) (xw_rng w) = (res, r)" by fastforce
  from pred_state_run_state [OF m_pick_ok [OF X sh], of "xw_rng w"] have "m_starts_ok X res"
    by (simp add: pk)
  with X_Pick step sh pk show ?thesis
    by (auto simp: m_step_def m_starts_ok_def prefixes_ok_def)
next
  case (X_Call ctx)
  show ?thesis
  proof (cases "xc_pending ctx")
    case Nil
    with X_Call step sh w show ?thesis by (auto simp: m_step_def)
  next
    case (Cons c cs)
    obtain pc where c: "m_call X sh (ctx\<lparr>xc_pending := cs\<rparr>) c = (sh', pc)" "xw_pc w' = pc"
      using step X_Call Cons by (auto simp: m_step_def split: prod.splits)
    from c(1) show ?thesis
    proof (cases rule: m_call_cases)
      case (failed e)
      with c(2) sh show ?thesis by (simp add: machine_failure_def)
    next
      case (executed out ch')
      with c(2) sh w X_Call Cons chain_exec_cov [OF m_exec_okD(5) [OF X] executed(1)] show ?thesis
        by (auto simp: safe_m_shared_def split: option.splits)
    qed
  qed
next
  case (X_Merge ctx c coverage)
  obtain pc where m: "m_merge sh ctx c coverage = (sh', pc)" "xw_pc w' = pc"
    using step X_Merge by (auto simp: m_step_def split: prod.splits)
  note D = safe_m_sharedD [OF sh]
  have merges: "\<exists>u S'. cov_merge cv (mf_coverage sh) = Some (u, S') \<and> sh_wf S' \<and> sh_sized code_len S'"
    if "coverage = Some cv" for cv
    using that w X_Merge cov_merge_ok [OF D(4) _ _ D(5), of cv] by auto
  from m(1) show ?thesis
  proof (cases rule: m_merge_cases)
    case uncovered
    with m(2) sh show ?thesis by (simp add: machine_failure_def)
  next
    case (panicked cv)
    with merges show ?thesis by fastforce
  next
    case (merged cv u S)
    have "sh_wf S \<and> sh_sized code_len S" using merges [OF merged(1)] merged(2) by auto
    with merged D w X_Merge m(2) show ?thesis by (simp add: safe_m_shared_def)
  qed
next
  case (X_Measure ctx c u)
  obtain pc known where m: "m_measure_step X sh ctx c u (xw_best_known w) = (sh', pc, known)" "xw_pc w' = pc"
    using step X_Measure by (auto simp: m_step_def split: prod.splits)
  from m(1) show ?thesis
  proof (cases rule: m_measure_cases)
    case (failed e results ch')
    with m(2) sh measure_value_failure [OF failed(1)] show ?thesis by (simp add: safe_m_shared_def)
  next
    case (measured v' results ch' edges activity interesting records)
    have "m_seq_ok X (xc_executed ctx @ [c])" using w X_Measure by (auto simp: m_seq_ok_def)
    with measured(2,3) m(2) sh w X_Measure show ?thesis
      by (auto simp: safe_m_shared_def prefixes_ok_def)
  qed
next
  case (X_Consider ctx)
  obtain pc where m: "m_consider_step X sh ctx = (sh', pc)" "xw_pc w' = pc"
    using step X_Consider by (auto simp: m_step_def split: prod.splits)
  from m(1) show ?thesis
  proof (cases rule: m_consider_cases)
    case (considered p improved)
    have "m_seq_ok X (mp_sequence p)"
      using considered(1) w X_Consider by (auto simp: prefixes_ok_def list_all_iff)
    then have "m_seq_ok X (be_sequence (snd (best_consider (mp_sequence p) (mp_value p) (mp_chain p)
        (mf_best sh))))"
      using safe_m_sharedD(3) [OF sh] by (simp add: best_consider_def Let_def)
    with considered(3,4) m(2) w X_Consider safe_m_sharedD [OF sh] show ?thesis
      by (auto simp: safe_m_shared_def)
  qed (use m(2) sh w X_Consider in auto)
next
  case (X_Keep n ps improved)
  with step sh w m_keep_safe [OF sh] show ?thesis
    by (cases ps) (auto simp: m_step_def prefixes_ok_def)
qed (use step sh w in \<open>auto simp: m_step_def safe_m_shared_def\<close>)

interpretation msafe: worker_pool "m_step X"
    "\<lambda>sh. m_exec_ok code_len X \<and> safe_m_shared code_len X sh" "\<lambda>w. safe_m_pc code_len X (xw_pc w)"
  for X :: "('db, 'env, 'cheat, 'trace, 'r) m_exec" and code_len
  by unfold_locales (use m_step_safe in blast)

subsection \<open>Budgets and the stop signal\<close>

lemma m_split_runs_eq: "m_split_runs = split_runs"
  by (simp add: fun_eq_iff m_split_runs_def split_runs_def)

fun m_runs_left :: "('db, 'env, 'cheat) x_pc \<Rightarrow> nat" where
  "m_runs_left (X_Loop n) = n"
| "m_runs_left (X_Begin n) = Suc n"
| "m_runs_left (X_Pick n) = n"
| "m_runs_left (X_Call ctx) = xc_left ctx"
| "m_runs_left (X_Merge ctx _ _) = xc_left ctx"
| "m_runs_left (X_Measure ctx _ _) = xc_left ctx"
| "m_runs_left (X_Consider ctx) = xc_left ctx"
| "m_runs_left (X_Stop n _ _) = n"
| "m_runs_left (X_Keep n _ _) = n"
| "m_runs_left X_Done = 0"
| "m_runs_left (X_Failed e) = 0"

text \<open>Runs, stage of the run, pending calls or prefixes, phase of the call.\<close>

fun m_rank :: "('db, 'env, 'cheat) x_pc \<Rightarrow> nat list" where
  "m_rank (X_Loop n) = [n, 3, 0, 0]"
| "m_rank (X_Begin n) = [Suc n, 2, 0, 0]"
| "m_rank (X_Pick n) = [n, 9, 0, 0]"
| "m_rank (X_Call ctx) = [xc_left ctx, 8, length (xc_pending ctx), 0]"
| "m_rank (X_Merge ctx _ _) = [xc_left ctx, 8, length (xc_pending ctx), 2]"
| "m_rank (X_Measure ctx _ _) = [xc_left ctx, 8, length (xc_pending ctx), 1]"
| "m_rank (X_Consider ctx) = [xc_left ctx, 7, 0, 0]"
| "m_rank (X_Stop n _ _) = [n, 6, 0, 0]"
| "m_rank (X_Keep n ps _) = [n, 5, length ps, 0]"
| "m_rank X_Done = [0, 0, 0, 0]"
| "m_rank (X_Failed e) = [0, 0, 0, 0]"

definition m_smaller :: "(('db, 'env, 'cheat, 'r) x_worker \<times> ('db, 'env, 'cheat, 'r) x_worker) set" where
  "m_smaller = inv_image (lex less_than) (\<lambda>w. m_rank (xw_pc w))"

text \<open>One pass over the program counters gives both the budget and the measure.\<close>

lemma m_step_progress:
  assumes step: "m_step X clock sh w = (sh', w')"
  shows "unat (mf_runs sh') + m_runs_left (xw_pc w') \<le> unat (mf_runs sh) + m_runs_left (xw_pc w)
     \<and> (\<not> x_finished (xw_pc w) \<longrightarrow> (m_rank (xw_pc w'), m_rank (xw_pc w)) \<in> lex less_than)"
proof (cases "xw_pc w")
  case (X_Loop n)
  with step show ?thesis by (cases n) (auto simp: m_step_def)
next
  case (X_Begin n)
  with step unat_plus_1 [of "mf_runs sh"] show ?thesis by (auto simp: m_step_def m_record_run_def)
next
  case (X_Pick n)
  with step show ?thesis by (auto simp: m_step_def split: prod.splits sum.splits)
next
  case (X_Call ctx)
  show ?thesis
  proof (cases "xc_pending ctx")
    case Nil
    with X_Call step show ?thesis by (auto simp: m_step_def)
  next
    case (Cons c cs)
    obtain pc where c: "m_call X sh (ctx\<lparr>xc_pending := cs\<rparr>) c = (sh', pc)" "xw_pc w' = pc"
      using step X_Call Cons by (auto simp: m_step_def split: prod.splits)
    from c(1) show ?thesis by (cases rule: m_call_cases) (use c(2) X_Call Cons in auto)
  qed
next
  case (X_Merge ctx c coverage)
  obtain pc where m: "m_merge sh ctx c coverage = (sh', pc)" "xw_pc w' = pc"
    using step X_Merge by (auto simp: m_step_def split: prod.splits)
  from m(1) show ?thesis by (cases rule: m_merge_cases) (use m(2) X_Merge in auto)
next
  case (X_Measure ctx c u)
  obtain pc known where m: "m_measure_step X sh ctx c u (xw_best_known w) = (sh', pc, known)" "xw_pc w' = pc"
    using step X_Measure by (auto simp: m_step_def split: prod.splits)
  from m(1) show ?thesis by (cases rule: m_measure_cases) (use m(2) X_Measure in auto)
next
  case (X_Consider ctx)
  obtain pc where m: "m_consider_step X sh ctx = (sh', pc)" "xw_pc w' = pc"
    using step X_Consider by (auto simp: m_step_def split: prod.splits)
  from m(1) show ?thesis by (cases rule: m_consider_cases) (use m(2) X_Consider in auto)
next
  case (X_Keep n ps improved)
  have "mf_runs (m_keep sh p improved) = mf_runs sh" for p by (simp add: m_keep_def)
  with X_Keep step show ?thesis by (cases ps) (auto simp: m_step_def)
qed (use step in \<open>auto simp: m_step_def\<close>)

interpretation mbudget: budget_pool "m_step X" "\<lambda>sh. unat (mf_runs sh)" "\<lambda>w. m_runs_left (xw_pc w)" "\<lambda>_. True"
  for X :: "('db, 'env, 'cheat, 'trace, 'r) m_exec"
  by unfold_locales (use m_step_progress in blast)+

interpretation mterm: terminating_pool "m_step X" "\<lambda>w. x_finished (xw_pc w)" m_smaller
  for X :: "('db, 'env, 'cheat, 'trace, 'r) m_exec"
proof
  show "wf m_smaller" by (simp add: m_smaller_def wf_lex wf_inv_image)
  fix w clock sh sh' w'
  assume "\<not> x_finished (xw_pc w)" "m_step X clock sh w = (sh', w')"
  with m_step_progress [OF this(2)] show "(w', w) \<in> m_smaller" by (simp add: m_smaller_def)
qed

end
