(* ===== verification/Max_Properties.thy ===== *)
theory Max_Properties
  imports Max_Safety Test_Properties
begin

section \<open>What campaigns of the max mode guarantee\<close>

text \<open>The properties of every interleaving, each with an instance: a concrete campaign that
  improves the initial value.\<close>

lemma m_resolve_shared:
  assumes "m_resolve E mz = Inr (X, sh)"
  shows "mf_best sh = m_seed_best (mx_initial_value X) (mf_corpus sh)"
  using assms by (auto simp: m_resolve_def split: option.splits)

lemma m_start_cases:
  assumes "m_start X sh0 = Some st"
  obtains budgets where "split_runs (mx_max_runs X) (mx_threads X) = Some budgets"
    and "st = (sh0, x_spawn X budgets)"
  using assms by (auto simp: m_start_def m_split_runs_eq)

lemma x_spawn_loops: "w \<in> set (x_spawn X budgets) \<Longrightarrow> \<exists>n. xw_pc w = X_Loop n"
  by (auto simp: x_spawn_def)

lemma m_seed_best_entry:
  "m_seed_best v0 C = best_new [] v0 \<and> m_replayed C = []
   \<or> (\<exists>e \<in> set C. \<exists>ch. mn_chain e = Some ch
        \<and> m_seed_best v0 C = best_with_chain (mn_sequence e) (mn_value e) ch
        \<and> (\<forall>x \<in> set C. mn_chain x \<noteq> None \<longrightarrow> mn_value x \<le> mn_value e))"
proof (cases "m_best_entry C")
  case None
  with m_best_entry_is_best [of C] show ?thesis by (simp add: m_seed_best_def)
next
  case (Some b)
  obtain s v ch where b: "b = (s, v, ch)" by (cases b) auto
  from m_best_entry_is_best [of C] Some [unfolded b] obtain e where
    "e \<in> set C" "mn_sequence e = s" "mn_value e = v" "mn_chain e = Some ch"
    "\<forall>x \<in> set C. mn_chain x \<noteq> None \<longrightarrow> mn_value x \<le> v" by blast
  with Some b show ?thesis by (auto simp: m_seed_best_def)
qed

lemma m_seed_measured:
  "best_ok X C (m_seed_best (mx_initial_value X) C)"
  using m_seed_best_entry [of "mx_initial_value X" C]
  by (auto simp: best_ok_def best_new_def best_with_chain_def intro: m_derived_given)

lemma m_reach_measured:
  assumes "m_resolve E mz = Inr (X, sh0)" and "m_start X sh0 = Some st"
    and "pool_reach (m_step X) st (sh, ws)"
  shows "measured_shared X (mf_corpus sh0) (be_value (mf_best sh0)) sh"
proof -
  obtain budgets where st: "st = (sh0, x_spawn X budgets)" using assms(2) by (rule m_start_cases)
  have "measured_shared X (mf_corpus sh0) (be_value (mf_best sh0)) sh0"
    using m_resolve_shared [OF assms(1)] m_seed_measured
    by (auto simp: measured_shared_def m_corpus_ok_def intro: m_derived_given)
  moreover have "\<forall>w \<in> set (x_spawn X budgets). measured_pc X (mf_corpus sh0) (xw_pc w)"
    using x_spawn_loops by fastforce
  ultimately show ?thesis using mreal.reach_pool [OF assms(3) [unfolded st]] by blast
qed

subsection \<open>A concrete campaign\<close>

text \<open>The value call of this machine succeeds with an empty output that decodes to 7.\<close>

definition demo_m_env :: "(nat, u64, unit, unit, nat) m_env" where
  "demo_m_env =
     \<lparr>fx_ops = demo_ops, fx_codec = demo_codec, fx_text = demo_text, fx_rng = counter_rng,
      fx_seed_rng = unat, mx_uint256 = (\<lambda>bs. Some (VUint 7 256))\<rparr>"

definition demo_m_fuzzer :: "(nat, u64, unit) m_fuzzer" where
  "demo_m_fuzzer = m_fuzzer_new
     \<lparr>mz_chain := Some demo_chain, mz_target := Some 1, mz_deployer := Some 2,
      mz_value_calldata := Some [], mz_handlers := Some [demo_fn 1], mz_corpus := Some [],
      mz_coverage := Some sh_new, mz_initial_value := Some 5, mz_max_runs := Some 1,
      mz_max_calls := Some 1\<rparr>"

definition demo_m_exec :: "(nat, u64, unit, unit, nat) m_exec" where
  "demo_m_exec = fst (projr (m_resolve demo_m_env demo_m_fuzzer))"

definition demo_m_shared :: "(nat, u64, unit) m_shared" where
  "demo_m_shared = snd (projr (m_resolve demo_m_env demo_m_fuzzer))"

lemma demo_m_resolve: "m_resolve demo_m_env demo_m_fuzzer = Inr (demo_m_exec, demo_m_shared)"
  by (simp add: demo_m_exec_def demo_m_shared_def m_resolve_def demo_m_fuzzer_def demo_m_env_def
      m_fuzzer_new_def)

lemma demo_m_exec_simps [simp]:
  "fx_ops demo_m_exec = demo_ops" "fx_codec demo_m_exec = demo_codec"
  "fx_rng demo_m_exec = counter_rng" "mx_uint256 demo_m_exec = (\<lambda>bs. Some (VUint 7 256))"
  "fx_seed_rng demo_m_exec = unat" "mx_chain demo_m_exec = demo_chain" "mx_target demo_m_exec = 1"
  "mx_deployer demo_m_exec = 2" "mx_value_calldata demo_m_exec = []" "mx_handlers demo_m_exec = [demo_fn 1]"
  "mx_initial_value demo_m_exec = 5" "mx_seed demo_m_exec = 0" "mx_threads demo_m_exec = 1"
  "mx_max_runs demo_m_exec = 1" "mx_max_calls demo_m_exec = 1" "mx_timeout demo_m_exec = None"
  "mx_target_value demo_m_exec = None"
  by (simp_all add: demo_m_exec_def m_resolve_def demo_m_fuzzer_def demo_m_env_def m_fuzzer_new_def)

lemma demo_m_shared_eq:
  "demo_m_shared = \<lparr>mf_best = best_new [] 5, mf_runs = 0, mf_calls = 0, mf_gas = 0, mf_stop = False,
     mf_corpus = [], mf_coverage = sh_new, mf_records = Map.empty\<rparr>"
  by (simp add: demo_m_shared_def m_resolve_def demo_m_fuzzer_def demo_m_env_def m_fuzzer_new_def
      m_seed_best_def m_best_entry_def m_replayed_def List.map_filter_simps)

lemma demo_m_exec_ok: "m_exec_ok (\<lambda>_. 4) demo_m_exec"
  using demo_exec_ok
  by (simp add: m_exec_ok_def exec_ok_def counter_rng_ok max_drawable_def demo_fn_def)

lemma demo_m_spawn: "x_spawn demo_m_exec [1] = [\<lparr>xw_pc = X_Loop 1, xw_rng = 0, xw_best_known = 5\<rparr>]"
  by (simp add: x_spawn_def)

lemma demo_m_start: "m_start demo_m_exec demo_m_shared = Some (demo_m_shared, x_spawn demo_m_exec [1])"
  by (simp add: m_start_def m_split_runs_def)

lemma demo_m_pick: "run_state (m_pick demo_m_exec sh) 0 = (Inr ([], 5, [demo_call 1], demo_chain), 3)"
  by (simp add: m_pick_def m_fresh_def m_sequence_random_def draw_def counter_rng_def m_call_random_def
      m_random_handler_call_def demo_fn_def demo_call_def)

lemma demo_m_called:
  "\<exists>out. chain_exec demo_ops [m_call_transaction demo_codec 1 2 (demo_call 1)] demo_chain
       = (Inr out, demo_chain\<lparr>ch_db := Some 1\<rparr>) \<and> eo_coverage out \<noteq> None"
  by (simp add: chain_exec_def demo_chain_def exec_tx_def demo_ops_def demo_step_def tx_new_def
      m_call_transaction_def m_call_calldata_def tx_with_calldata_def tx_with_caller_def Let_def
      demo_call_def demo_fn_def demo_codec_def)

lemma demo_m_measured:
  "\<exists>rs ch'. measure_value demo_m_exec (demo_chain\<lparr>ch_db := Some 1\<rparr>) = (Inr (Some 7), rs, ch')"
  by (simp add: measure_value_def value_tx_def chain_exec_def demo_chain_def exec_tx_def demo_ops_def
      demo_step_def tx_new_def tx_with_calldata_def Let_def value_decode_def)

lemma demo_m_reach:
  "\<exists>sh ws. pool_reach (m_step demo_m_exec) (demo_m_shared, x_spawn demo_m_exec [1]) (sh, ws)
    \<and> be_value (mf_best sh) = 7 \<and> be_sequence (mf_best sh) = [demo_call 1] \<and> be_chain (mf_best sh) \<noteq> None"
proof -
  let ?st = "(demo_m_shared, x_spawn demo_m_exec [1])"
  let ?w = "\<lambda>pc. \<lparr>xw_pc = pc, xw_rng = 3, xw_best_known = 5\<rparr> :: (nat, u64, unit, nat) x_worker"
  let ?ctx = "\<lparr>xc_left = 0, xc_pending = [demo_call 1], xc_chain = demo_chain, xc_executed = [],
               xc_prev = 5, xc_prefixes = []\<rparr>"
  let ?ctx1 = "?ctx\<lparr>xc_pending := [], xc_chain := demo_chain\<lparr>ch_db := Some 1\<rparr>\<rparr>"
  have r0: "pool_reach (m_step demo_m_exec) ?st
      (demo_m_shared, [\<lparr>xw_pc = X_Loop 1, xw_rng = 0, xw_best_known = 5\<rparr>])"
    using reach_start [of "m_step demo_m_exec" ?st] by (simp only: demo_m_spawn)
  have r1: "pool_reach (m_step demo_m_exec) ?st
      (demo_m_shared, [\<lparr>xw_pc = X_Begin 0, xw_rng = 0, xw_best_known = 5\<rparr>])"
    by (rule reach_single [OF r0, of False]) (simp add: m_step_def demo_m_shared_eq m_timed_out_def)
  let ?sh = "m_record_run demo_m_shared"
  have r2: "pool_reach (m_step demo_m_exec) ?st
      (?sh, [\<lparr>xw_pc = X_Pick 0, xw_rng = 0, xw_best_known = 5\<rparr>])"
    by (rule reach_single [OF r1, of False]) (simp add: m_step_def)
  have r3: "pool_reach (m_step demo_m_exec) ?st (?sh, [?w (X_Call ?ctx)])"
    by (rule reach_single [OF r2, of False]) (simp add: m_step_def demo_m_pick)
  obtain out cv where ex: "chain_exec demo_ops [m_call_transaction demo_codec 1 2 (demo_call 1)] demo_chain
       = (Inr out, demo_chain\<lparr>ch_db := Some 1\<rparr>)" and cv: "eo_coverage out = Some cv"
    using demo_m_called by blast
  obtain sh1 where r4: "pool_reach (m_step demo_m_exec) ?st
      (sh1, [?w (X_Merge ?ctx1 (demo_call 1) (Some cv))])"
    and sh1: "mf_best sh1 = best_new [] 5" "mf_coverage sh1 = sh_new"
  proof
    show "pool_reach (m_step demo_m_exec) ?st
      (m_record_gas (eo_results out) (m_record_call ?sh), [?w (X_Merge ?ctx1 (demo_call 1) (Some cv))])"
      by (rule reach_single [OF r3, of False]) (simp add: m_step_def m_call_def ex cv)
  qed (simp_all add: demo_m_shared_eq)
  have sized: "revm_sized (\<lambda>_. 4) demo_ops" using demo_m_exec_ok by (simp add: m_exec_ok_def)
  obtain u S where "cov_merge cv sh_new = Some (u, S)"
    using chain_exec_cov [OF sized ex cv] cov_merge_ok [OF sh_new_ok(1) _ _ sh_new_ok(2), of cv "\<lambda>_. 4"] by blast
  then have r5: "pool_reach (m_step demo_m_exec) ?st
      (sh1\<lparr>mf_coverage := S\<rparr>, [?w (X_Measure ?ctx1 (demo_call 1) u)])"
    by (intro reach_single [OF r4, of False]) (simp add: m_step_def m_merge_def sh1)
  obtain sh2 pc known where m: "m_measure_step demo_m_exec (sh1\<lparr>mf_coverage := S\<rparr>) ?ctx1 (demo_call 1) u 5
      = (sh2, pc, known)" by (cases "m_measure_step demo_m_exec (sh1\<lparr>mf_coverage := S\<rparr>) ?ctx1 (demo_call 1) u 5")
  have r6: "pool_reach (m_step demo_m_exec) ?st (sh2, [(?w pc)\<lparr>xw_best_known := known\<rparr>])"
    by (rule reach_single [OF r5, of False]) (use m in \<open>simp add: m_step_def\<close>)
  obtain p where pc: "\<exists>ctx. pc = X_Call ctx \<and> xc_pending ctx = [] \<and> xc_prefixes ctx = [p] \<and> xc_left ctx = 0"
    and p: "mp_sequence p = [demo_call 1]" "mp_value p = 7" "mp_measured p" and b2: "mf_best sh2 = best_new [] 5"
    using m
  proof (cases rule: m_measure_cases)
    case (failed e results ch')
    then show ?thesis using demo_m_measured by auto
  next
    case (measured v results ch' edges activity interesting records)
    then have "v = Some 7" using demo_m_measured by auto
    with measured sh1 show ?thesis by (intro that) auto
  qed
  obtain ctx where ctx: "pc = X_Call ctx" "xc_pending ctx = []" "xc_prefixes ctx = [p]" "xc_left ctx = 0"
    using pc by blast
  have r7: "pool_reach (m_step demo_m_exec) ?st (sh2, [(?w (X_Consider ctx))\<lparr>xw_best_known := known\<rparr>])"
    by (rule reach_single [OF r6, of False]) (simp add: m_step_def ctx)
  let ?b = "\<lparr>be_value = 7, be_sequence = [demo_call 1], be_chain = Some (mp_chain p)\<rparr>"
  have "pool_reach (m_step demo_m_exec) ?st
      (sh2\<lparr>mf_best := ?b\<rparr>, [(?w (X_Keep 0 [p] True))\<lparr>xw_best_known := known\<rparr>])"
    by (rule reach_single [OF r7, of False])
      (simp add: m_step_def m_consider_step_def m_consider_def ctx p b2 best_consider_def best_new_def)
  then show ?thesis by (intro exI conjI, assumption) simp_all
qed

subsection \<open>Properties\<close>

text \<open>
  C6: what the max mode reports was measured. In every state any number of threads reaches in
  any order of steps from the start of a campaign, the best value is at least that of the seed,
  and the best is the empty sequence with the initial value, or executing its calls from the
  initial chain or from a given snapshot, each followed by a value call, leads to exactly its
  snapshot, the last value call returning its value; and the same holds of every corpus entry
  with a snapshot: no value is ever kept with calls or a state it was not measured after.
\<close>

theorem max_results_are_measured:
  assumes "m_resolve E mz = Inr (X, sh0)" and "m_start X sh0 = Some st"
    and "pool_reach (m_step X) st (sh, ws)"
  shows "be_value (mf_best sh0) \<le> be_value (mf_best sh)
     \<and> (be_chain (mf_best sh) = None \<longrightarrow> mf_best sh = best_new [] (mx_initial_value X))
     \<and> (\<forall>ch. be_chain (mf_best sh) = Some ch \<longrightarrow>
          m_derived X (mf_corpus sh0) (be_sequence (mf_best sh)) ch (Some (be_value (mf_best sh))))
     \<and> (\<forall>e \<in> set (mf_corpus sh). \<forall>ch. mn_chain e = Some ch \<longrightarrow>
          m_derived X (mf_corpus sh0) (mn_sequence e) ch (Some (mn_value e)))"
  using measured_sharedD [OF m_reach_measured [OF assms]]
  by (auto simp: best_ok_def m_corpus_ok_def)

theorem max_results_are_measured_witness:
  "\<exists>ch. m_derived demo_m_exec [] [demo_call 1] ch (Some 7)"
proof -
  obtain sh ws where r: "pool_reach (m_step demo_m_exec) (demo_m_shared, x_spawn demo_m_exec [1]) (sh, ws)"
    "be_value (mf_best sh) = 7" "be_sequence (mf_best sh) = [demo_call 1]" "be_chain (mf_best sh) \<noteq> None"
    using demo_m_reach by blast
  from max_results_are_measured [OF demo_m_resolve demo_m_start r(1)] r(2,3,4) show ?thesis
    by (auto simp: demo_m_shared_eq)
qed

text \<open>
  C7: threads of the max mode fail only when the machine does. When the handlers' inputs can be
  drawn, the call limit is positive and the machine drives the inspectors through their
  callbacks, then from a start whose corpus holds sequences within the limit, in every
  reachable state: a thread has failed only because an execution returned an error, coverage was
  switched off or the value call's output does not decode, never by a panic or in the generator;
  the best and the corpus hold handler calls within the limit, at most 256 entries, and the
  coverage map is well formed.
\<close>

theorem max_campaigns_are_safe:
  assumes "m_exec_ok code_len X" and "safe_m_shared code_len X sh0"
    and "m_start X sh0 = Some st" and "pool_reach (m_step X) st (sh, ws)"
  shows "safe_m_shared code_len X sh \<and> (\<forall>e \<in> set (x_failures ws). machine_failure e)"
proof -
  obtain budgets where st: "st = (sh0, x_spawn X budgets)" using assms(3) by (rule m_start_cases)
  have "\<forall>w \<in> set (x_spawn X budgets). safe_m_pc code_len X (xw_pc w)"
    using x_spawn_loops by fastforce
  then have "safe_m_shared code_len X sh \<and> (\<forall>w \<in> set ws. safe_m_pc code_len X (xw_pc w))"
    using msafe.reach_pool [OF assms(4) [unfolded st], of code_len] assms(1,2) by blast
  then show ?thesis
    by (fastforce simp: x_failures_def List.map_filter_def split: x_pc.splits)
qed

theorem max_campaigns_are_safe_witness:
  "\<exists>sh ws. pool_reach (m_step demo_m_exec) (demo_m_shared, x_spawn demo_m_exec [1]) (sh, ws)
     \<and> be_value (mf_best sh) = 7 \<and> safe_m_shared (\<lambda>_. 4) demo_m_exec sh"
proof -
  obtain sh ws where r: "pool_reach (m_step demo_m_exec) (demo_m_shared, x_spawn demo_m_exec [1]) (sh, ws)"
    "be_value (mf_best sh) = 7" using demo_m_reach by blast
  have "safe_m_shared (\<lambda>_. 4) demo_m_exec demo_m_shared"
    by (simp add: safe_m_shared_def demo_m_shared_eq best_new_def sh_new_ok m_seq_ok_def)
  from max_campaigns_are_safe [OF demo_m_exec_ok this demo_m_start r(1)] r show ?thesis by blast
qed

text \<open>
  C8: every campaign of the max mode ends within its budget. No interleaving lets threads that
  have not finished take infinitely many steps; for any inputs some schedule brings \<open>run\<close> to
  an outcome; and no reachable state has counted more runs than configured.
\<close>

theorem max_campaigns_end:
  "\<not> (\<exists>run :: nat \<Rightarrow> _. \<forall>n. pool_step (m_step X) (\<lambda>w. x_finished (xw_pc w)) (run n) (run (Suc n)))
   \<and> (\<exists>sched. m_run E mz sched \<noteq> MR_Running)
   \<and> (\<forall>st sh ws. m_start X sh0 = Some st \<longrightarrow> pool_reach (m_step X) st (sh, ws) \<longrightarrow>
        unat (mf_runs sh) \<le> unat (mf_runs sh0) + unat (mx_max_runs X))"
proof (intro conjI allI impI)
  show "\<not> (\<exists>run :: nat \<Rightarrow> _. \<forall>n. pool_step (m_step X) (\<lambda>w. x_finished (xw_pc w)) (run n) (run (Suc n)))"
    by (rule mterm.no_infinite_run)
  show "\<exists>sched. m_run E mz sched \<noteq> MR_Running"
  proof (cases "m_resolve E mz")
    case (Inl e)
    then show ?thesis by (simp add: m_run_def)
  next
    case (Inr p)
    obtain Y sh where p: "p = (Y, sh)" by fastforce
    show ?thesis
    proof (cases "m_start Y sh")
      case None
      with Inr p show ?thesis by (auto simp: m_run_def)
    next
      case (Some start)
      obtain sched where "list_all (\<lambda>w. x_finished (xw_pc w)) (snd (run_schedule (m_step Y) sched start))"
        using mterm.can_finish [of Y start] by blast
      with Inr p Some show ?thesis
        by (auto simp: m_run_def Let_def split: prod.splits list.splits intro!: exI [of _ sched])
    qed
  qed
next
  fix st sh ws
  assume a: "m_start X sh0 = Some st" "pool_reach (m_step X) st (sh, ws)"
  obtain budgets where b: "split_runs (mx_max_runs X) (mx_threads X) = Some budgets"
    "st = (sh0, x_spawn X budgets)" using a(1) by (rule m_start_cases)
  have "map (\<lambda>w. m_runs_left (xw_pc w)) (x_spawn X budgets) = map snd (enumerate 0 budgets)"
    by (simp add: x_spawn_def comp_def split_beta del: map_snd_enumerate)
  then have "sum_list (map (\<lambda>w. m_runs_left (xw_pc w)) (x_spawn X budgets)) = unat (mx_max_runs X)"
    using split_runs_sum(2) [OF b(1)] by (simp only: map_snd_enumerate)
  with mbudget.reach_budget [OF a(2) [unfolded b(2)]]
  show "unat (mf_runs sh) \<le> unat (mf_runs sh0) + unat (mx_max_runs X)" by simp
qed

theorem max_campaigns_end_witness:
  "\<exists>sh ws. pool_reach (m_step demo_m_exec) (demo_m_shared, x_spawn demo_m_exec [1]) (sh, ws)
     \<and> be_value (mf_best sh) = 7 \<and> unat (mf_runs sh) \<le> 1"
proof -
  obtain sh ws where r: "pool_reach (m_step demo_m_exec) (demo_m_shared, x_spawn demo_m_exec [1]) (sh, ws)"
    "be_value (mf_best sh) = 7" using demo_m_reach by blast
  from max_campaigns_end [of demo_m_exec demo_m_env demo_m_fuzzer demo_m_shared] demo_m_start r(1)
  have "unat (mf_runs sh) \<le> unat (mf_runs demo_m_shared) + unat (mx_max_runs demo_m_exec)" by blast
  with r show ?thesis by (auto simp: demo_m_shared_eq)
qed

text \<open>
  The best is seeded from the corpus without a comparison with the initial value. With a
  replayed entry in the corpus, the seed is an entry of the highest replayed value, even when
  that value is below the initial one; only an empty corpus seeds the initial value.
\<close>

theorem best_seed_ignores_initial:
  "(m_replayed C = [] \<longrightarrow> m_seed_best v0 C = best_new [] v0)
   \<and> (m_replayed C \<noteq> [] \<longrightarrow> be_value (m_seed_best v0 C) = Max (mn_value ` set (m_replayed C)))"
proof (intro conjI impI)
  assume "m_replayed C = []"
  with m_seed_best_entry [of v0 C] show "m_seed_best v0 C = best_new [] v0"
    by (auto simp: m_replayed_def filter_empty_conv)
next
  assume "m_replayed C \<noteq> []"
  with m_seed_best_entry [of v0 C] obtain e ch where e: "e \<in> set C" "mn_chain e = Some ch"
    "m_seed_best v0 C = best_with_chain (mn_sequence e) (mn_value e) ch"
    "\<forall>x \<in> set C. mn_chain x \<noteq> None \<longrightarrow> mn_value x \<le> mn_value e" by blast
  have "e \<in> set (m_replayed C)" using e(1,2) by (simp add: m_replayed_def)
  moreover have "be_value (m_seed_best v0 C) = mn_value e" using e(3) by (simp add: best_with_chain_def)
  moreover have "\<forall>x \<in> set (m_replayed C). mn_value x \<le> mn_value e"
    using e(4) by (simp add: m_replayed_def)
  ultimately show "be_value (m_seed_best v0 C) = Max (mn_value ` set (m_replayed C))"
    by (intro Max_eqI [symmetric]) auto
qed

theorem best_seed_ignores_initial_witness:
  "be_value (m_seed_best 100 [demo_m_entry 9 1, demo_m_entry 1 8]) = 8"
proof -
  have "m_replayed [demo_m_entry 9 1, demo_m_entry 1 8] = [demo_m_entry 9 1, demo_m_entry 1 8]"
    by (simp add: m_replayed_def demo_m_entry_def)
  with best_seed_ignores_initial [of "[demo_m_entry 9 1, demo_m_entry 1 8]" 100] show ?thesis
    by (simp add: demo_m_entry_def)
qed

end
