(* ===== verification/Rate_Limiter.thy ===== *)
theory Rate_Limiter
  imports Prelude
begin

unbundle bit_operations_syntax

section \<open>The rate limiter of the RPC client\<close>

text \<open>
  \<open>evm/forkdb/limiter.rs\<close>: a token bucket in one atomic word, the time of the last refill in the
  upper half and the tokens in the lower one. \<open>acquire\<close> is a loop of compare-and-swap updates:
  an update that does not change the word is a refusal, after which the thread sleeps. The
  clock is \<open>start.elapsed().as_millis()\<close>, a natural number that the code truncates to 32 bits.
\<close>

record limiter =
  rl_state :: u64
  rl_max_tokens :: u64
  rl_interval_ms :: u64

definition rl_pack :: "u32 \<Rightarrow> u32 \<Rightarrow> u64" where
  "rl_pack last_refill_ms tokens = push_bit 32 (ucast last_refill_ms) OR ucast tokens"

definition rl_unpack :: "u64 \<Rightarrow> u32 \<times> u32" where
  "rl_unpack packed = (ucast (drop_bit 32 packed), ucast (packed AND 0xFFFFFFFF))"

text \<open>\<open>None\<close> is the unlimited limiter, the source's \<open>inner: None\<close>.\<close>

definition rl_new :: "u64 \<Rightarrow> limiter option" where
  "rl_new requests_per_second =
     (if requests_per_second = 0 then None
      else let max_tokens = min requests_per_second 0xFFFFFFFF
           in Some \<lparr>rl_state = rl_pack 0 (ucast max_tokens), rl_max_tokens = max_tokens,
                    rl_interval_ms = 1000\<rparr>)"

text \<open>\<open>compute_refill\<close>: the product is saturated at 128 bits, the result truncated to 64.\<close>

definition compute_refill :: "u64 \<Rightarrow> u64 \<Rightarrow> u64 \<Rightarrow> u64" where
  "compute_refill elapsed_ms max_tokens interval_ms =
     of_nat (min (unat elapsed_ms * unat max_tokens) (2 ^ 128 - 1) div unat interval_ms)"

definition rl_elapsed :: "nat \<Rightarrow> u32 \<Rightarrow> u64" where
  "rl_elapsed clock last_refill_ms = ucast ((of_nat clock :: u32) - last_refill_ms)"

text \<open>The update of one compare-and-swap: the new word, or \<open>None\<close> without a token.\<close>

definition rl_update :: "limiter \<Rightarrow> nat \<Rightarrow> u64 \<Rightarrow> u64 option" where
  "rl_update L clock packed =
     (let max_tokens = ucast (rl_max_tokens L) :: u32;
          (last_refill_ms, tokens) = rl_unpack packed;
          now_ms = of_nat clock :: u32;
          add = ucast (compute_refill (rl_elapsed clock last_refill_ms) (rl_max_tokens L) (rl_interval_ms L)) :: u32;
          new_tokens = if add > 0 then min (sat_add tokens add) max_tokens else tokens
      in if new_tokens \<ge> 1
         then Some (rl_pack (if add > 0 then now_ms else last_refill_ms) (new_tokens - 1))
         else None)"

text \<open>The time a refused thread sleeps.\<close>

definition rl_sleep :: "limiter \<Rightarrow> nat \<Rightarrow> u64 \<Rightarrow> u64" where
  "rl_sleep L clock packed =
     (let (last_refill_ms, _) = rl_unpack packed;
          n = sat_mul (rl_elapsed clock last_refill_ms) (rl_max_tokens L);
          remainder = n mod rl_interval_ms L;
          missing = rl_interval_ms L - remainder;
          sleep_ms = (if missing mod rl_max_tokens L = 0 then missing div rl_max_tokens L
                      else missing div rl_max_tokens L + 1)
      in max sleep_ms 1)"

text \<open>
  One turn of the loop of \<open>acquire\<close> at a clock reading: whether the token was granted. Turns of
  any threads in any order are a list of readings; the clock is monotone, and a compare-and-swap
  only succeeds on the word it read, so the readings of successful updates are in order.
\<close>

definition rl_turn :: "nat \<Rightarrow> limiter \<Rightarrow> bool \<times> limiter" where
  "rl_turn clock L =
     (case rl_update L clock (rl_state L) of
        Some packed \<Rightarrow> (True, L\<lparr>rl_state := packed\<rparr>)
      | None \<Rightarrow> (False, L))"

fun rl_turns :: "nat list \<Rightarrow> limiter \<Rightarrow> nat \<times> limiter" where
  "rl_turns [] L = (0, L)"
| "rl_turns (clock # clocks) L =
     (let (granted, L') = rl_turn clock L;
          (n, L'') = rl_turns clocks L'
      in ((if granted then 1 else 0) + n, L''))"

subsection \<open>Words\<close>

lemma rl_unpack_pack [simp]: "rl_unpack (rl_pack a b) = (a, b)"
proof -
  have "ucast (drop_bit 32 (push_bit 32 (ucast a :: u64) OR ucast b)) = a"
    by (rule bit_eqI) (auto simp: bit_simps dest: bit_imp_le_length)
  moreover have "ucast ((push_bit 32 (ucast a :: u64) OR ucast b) AND 0xFFFFFFFF) = b"
  proof -
    have mask: "(0xFFFFFFFF :: u64) = mask 32" by (simp add: mask_eq_exp_minus_1)
    show ?thesis unfolding mask by (rule bit_eqI) (auto simp: bit_simps)
  qed
  ultimately show ?thesis by (simp add: rl_unpack_def rl_pack_def)
qed

lemma unat_of_nat_le: "unat (of_nat n :: 'a::len word) \<le> n"
  by (simp add: unat_of_nat)

lemma unat_ucast_le: "unat (ucast w :: 'b::len word) \<le> unat (w :: 'a::len word)"
  by (simp add: unsigned_ucast_eq take_bit_eq_mod)

lemma unat_ucast_up: "LENGTH('a) \<le> LENGTH('b) \<Longrightarrow> unat (ucast w :: 'b::len word) = unat (w :: 'a::len word)"
  by (simp add: unsigned_ucast_eq take_bit_eq_mod)
     (metis mod_less less_le_trans unsigned_less power_increasing one_le_numeral)

subsection \<open>The bound\<close>

lemma unat_sat_add_le: "unat (sat_add a b) \<le> unat a + unat b"
  by (auto simp: sat_add_def unat_word_ariths unat_minus_one_word' not_less)

lemma unat_min: "unat (min a b :: 'a::len word) = min (unat a) (unat b)"
  by (simp add: min_def word_le_nat_alt)

lemma unat_max: "unat (max a b :: 'a::len word) = max (unat a) (unat b)"
  by (simp add: max_def word_le_nat_alt)

lemma compute_refill_le: "unat (compute_refill e m i) \<le> unat e * unat m div unat i"
  unfolding compute_refill_def by (rule order_trans [OF unat_of_nat_le]) (simp add: div_le_mono)

lemma rl_elapsed_le: "refilled \<le> clock \<Longrightarrow> unat (rl_elapsed clock (of_nat refilled)) \<le> clock - refilled"
  unfolding rl_elapsed_def
  by (rule order_trans [OF unat_ucast_le]) (simp flip: of_nat_diff add: unat_of_nat_le)

text \<open>
  The tokens granted and left never exceed the bucket and what time has refilled: \<open>refilled\<close> is the
  untruncated time of the last refill.
\<close>

definition rl_within :: "nat \<Rightarrow> nat \<Rightarrow> limiter \<Rightarrow> bool" where
  "rl_within granted clock L \<longleftrightarrow>
     rl_interval_ms L = 1000
     \<and> (\<exists>refilled \<le> clock. fst (rl_unpack (rl_state L)) = of_nat refilled
          \<and> 1000 * (granted + unat (snd (rl_unpack (rl_state L)))) \<le> (1000 + refilled) * unat (rl_max_tokens L))"

lemma rl_turn_within:
  assumes inv: "rl_within granted t L" and t: "t \<le> clock" and turn: "rl_turn clock L = (ok, L')"
  shows "rl_within (granted + (if ok then 1 else 0)) clock L' \<and> rl_max_tokens L' = rl_max_tokens L"
proof (cases "rl_update L clock (rl_state L)")
  case None
  with turn have "\<not> ok" "L' = L" by (auto simp: rl_turn_def)
  with inv t show ?thesis by (auto simp: rl_within_def intro: le_trans)
next
  case (Some packed)
  then have turn': "ok" "L' = L\<lparr>rl_state := packed\<rparr>" using turn by (auto simp: rl_turn_def)
  obtain r k where rk: "rl_unpack (rl_state L) = (r, k)" by fastforce
  from inv rk obtain refilled where rfl: "refilled \<le> t" "r = of_nat refilled" "rl_interval_ms L = 1000"
    "1000 * (granted + unat k) \<le> (1000 + refilled) * unat (rl_max_tokens L)"
    by (auto simp: rl_within_def)
  define M where "M = unat (rl_max_tokens L)"
  define add where "add = (ucast (compute_refill (rl_elapsed clock r) (rl_max_tokens L) 1000) :: u32)"
  define new where "new = (if add > 0 then min (sat_add k add) (ucast (rl_max_tokens L)) else k)"
  from Some rk rfl(3) have new: "1 \<le> new" "packed = rl_pack (if add > 0 then of_nat clock else r) (new - 1)"
    by (auto simp: rl_update_def Let_def add_def new_def split: if_splits)
  have "unat add \<le> unat (rl_elapsed clock r) * M div 1000" unfolding add_def M_def
    by (rule order_trans [OF unat_ucast_le], rule order_trans [OF compute_refill_le]) simp
  moreover have "unat (rl_elapsed clock r) * M \<le> (clock - refilled) * M"
    using rl_elapsed_le [of refilled clock] rfl(1,2) t by (intro mult_le_mono1) simp
  ultimately have add: "1000 * unat add \<le> (clock - refilled) * M" by linarith
  define rest where "rest = unat (new - 1)"
  have pos: "rest + 1 = unat new" unfolding rest_def using new(1) by (simp add: unat_sub word_le_nat_alt)
  show ?thesis
  proof (cases "add > 0")
    case True
    then have "unat new \<le> unat k + unat add" by (simp add: new_def unat_min unat_sat_add_le min.coboundedI1)
    with pos have "granted + 1 + rest \<le> granted + unat k + unat add" by simp
    from mult_le_mono2 [OF this, of 1000]
    have "1000 * (granted + 1 + rest) \<le> 1000 * (granted + unat k) + 1000 * unat add" by simp
    also have "\<dots> \<le> (1000 + refilled) * M + (clock - refilled) * M"
      using rfl(4) add unfolding M_def by linarith
    also have "\<dots> = (1000 + clock) * M" using rfl(1) t by (simp flip: distrib_right)
    finally show ?thesis using True new(2) turn' rfl(3)
      by (auto simp: rl_within_def M_def rest_def intro!: exI [of _ clock])
  next
    case False
    then have "rest + 1 = unat k" using pos by (simp add: new_def)
    then have "granted + 1 + rest = granted + unat k" by simp
    with rfl(4) have "1000 * (granted + 1 + rest) \<le> (1000 + refilled) * M" by (simp add: M_def)
    with False new(2) turn' rfl(1-3) t show ?thesis
      by (auto simp: rl_within_def M_def rest_def intro!: exI [of _ refilled])
  qed
qed

lemma rl_turns_within:
  assumes "rl_within granted t L" and "sorted (t # clocks)" and "rl_turns clocks L = (n, L')"
  shows "rl_within (granted + n) (List.last (t # clocks)) L' \<and> rl_max_tokens L' = rl_max_tokens L"
  using assms
proof (induction clocks arbitrary: granted t L n)
  case (Cons clock clocks)
  obtain ok L1 where turn: "rl_turn clock L = (ok, L1)" by fastforce
  obtain m L2 where rest: "rl_turns clocks L1 = (m, L2)" by fastforce
  from rl_turn_within [OF Cons.prems(1) _ turn] Cons.prems(2)
  have w: "rl_within (granted + (if ok then 1 else 0)) clock L1" "rl_max_tokens L1 = rl_max_tokens L" by simp_all
  from Cons.prems(3) turn rest have n: "n = (if ok then 1 else 0) + m" "L' = L2"
    by (auto split: if_splits)
  with Cons.IH [OF w(1) _ rest [folded n(2)]] Cons.prems(2) w(2) show ?case
    by (simp add: add.assoc)
qed simp

lemma rl_new_within: "rl_new r = Some L \<Longrightarrow> rl_within 0 0 L \<and> rl_max_tokens L \<le> r"
  by (auto simp: rl_new_def rl_within_def Let_def intro: unat_ucast_le split: if_splits)



subsection \<open>A sleep is long enough\<close>

lemma unat_compute_refill:
  assumes "unat e < 2 ^ 32" and "unat m < 2 ^ 32" and "unat e * unat m div 1000 < 2 ^ 32"
  shows "unat (ucast (compute_refill e m 1000) :: u32) = unat e * unat m div 1000"
proof -
  have "unat e * unat m < 2 ^ 32 * 2 ^ 32" using assms(1,2) by (intro mult_strict_mono) auto
  then show ?thesis using assms(3)
    by (simp add: compute_refill_def unat_of_nat unsigned_ucast_eq take_bit_eq_mod)
qed

lemma rl_refused:
  assumes "rl_update L clock packed = None" and "rl_unpack packed = (r, k)"
    and "rl_interval_ms L = 1000" and "0 < rl_max_tokens L" and "rl_max_tokens L \<le> 0xFFFFFFFF"
  shows "k = 0" and "(ucast (compute_refill (rl_elapsed clock r) (rl_max_tokens L) 1000) :: u32) = 0"
proof -
  let ?add = "ucast (compute_refill (rl_elapsed clock r) (rl_max_tokens L) 1000) :: u32"
  have m: "unat (ucast (rl_max_tokens L) :: u32) = unat (rl_max_tokens L)" using assms(5)
    by (simp add: unsigned_ucast_eq take_bit_eq_mod word_le_nat_alt)
  have m1: "1 \<le> (ucast (rl_max_tokens L) :: u32)" using assms(4) m
    by (simp add: word_le_nat_alt word_less_nat_alt)
  have none: "\<not> (if ?add > 0 then min (sat_add k ?add) (ucast (rl_max_tokens L)) else k) \<ge> 1"
    using assms(1-3) by (auto simp: rl_update_def Let_def split: if_splits)
  have "?add = 0"
  proof (rule ccontr)
    assume "?add \<noteq> 0"
    then have "?add > 0" by (simp add: word_neq_0_conv)
    moreover have "1 \<le> sat_add k ?add" using \<open>?add > 0\<close>
      by (auto simp: sat_add_def word_le_nat_alt word_less_nat_alt unat_word_ariths unat_minus_one_word')
    ultimately show False using none m1 by simp
  qed
  then show "?add = 0" .
  with none have "unat k = 0" by (simp add: word_le_nat_alt)
  then show "k = 0" by (simp add: unat_eq_zero)
qed

lemma div_ceil_mult:
  assumes "0 < (m :: nat)"
  shows "a \<le> (if a mod m = 0 then a div m else a div m + 1) * m"
    and "(if a mod m = 0 then a div m else a div m + 1) * m < a + m"
proof -
  have "a mod m < m" "a div m * m + a mod m = a" using assms by simp_all
  then show "a \<le> (if a mod m = 0 then a div m else a div m + 1) * m"
    and "(if a mod m = 0 then a div m else a div m + 1) * m < a + m"
    by (simp_all only: add_mult_distrib split: if_split) linarith+
qed

lemma unat_rl_elapsed_less: "unat (rl_elapsed clock r) < 2 ^ 32"
proof -
  have "unat (rl_elapsed clock r) \<le> unat ((of_nat clock :: u32) - r)"
    unfolding rl_elapsed_def by (rule unat_ucast_le)
  also have "\<dots> < 2 ^ 32" using unsigned_less [of "(of_nat clock :: u32) - r"] by simp
  finally show ?thesis .
qed

lemma unat_rl_sleep:
  assumes "rl_interval_ms L = 1000" and "rl_max_tokens L \<le> 0xFFFFFFFF" and "rl_unpack packed = (r, k)"
    and "unat (rl_elapsed clock r) * unat (rl_max_tokens L) < 1000"
  defines "missing \<equiv> 1000 - unat (rl_elapsed clock r) * unat (rl_max_tokens L)"
  shows "unat (rl_sleep L clock packed) =
    max 1 (if missing mod unat (rl_max_tokens L) = 0 then missing div unat (rl_max_tokens L)
           else missing div unat (rl_max_tokens L) + 1)"
proof -
  let ?n = "sat_mul (rl_elapsed clock r) (rl_max_tokens L)"
  have n: "unat ?n = unat (rl_elapsed clock r) * unat (rl_max_tokens L)"
    using assms(4) by (simp add: sat_mul_def unat_word_ariths)
  have "unat (?n mod 1000) = unat ?n" using assms(4) n by (simp add: unat_mod)
  then have "?n mod 1000 = ?n" by (simp only: word_unat_eq_iff)
  moreover have "unat (1000 - ?n) = missing"
    using assms(4) n by (simp add: missing_def unat_sub word_le_nat_alt)
  moreover have "unat ((1000 - ?n) div rl_max_tokens L + 1) = unat ((1000 - ?n) div rl_max_tokens L) + 1"
  proof -
    have "unat ((1000 - ?n) div rl_max_tokens L) \<le> 1000"
      unfolding unat_div \<open>unat (1000 - ?n) = missing\<close>
      by (rule le_trans [OF div_le_dividend]) (simp add: missing_def)
    then show ?thesis by (simp add: unat_word_ariths)
  qed
  moreover have "(1000 - ?n) mod rl_max_tokens L = 0 \<longleftrightarrow> missing mod unat (rl_max_tokens L) = 0"
    unfolding \<open>unat (1000 - ?n) = missing\<close> [symmetric] unat_mod [symmetric] unat_eq_zero ..
  moreover have "rl_sleep L clock packed =
    max (if (1000 - ?n) mod rl_max_tokens L = 0 then (1000 - ?n) div rl_max_tokens L
         else (1000 - ?n) div rl_max_tokens L + 1) 1"
    using assms(1,3) \<open>?n mod 1000 = ?n\<close> by (simp add: rl_sleep_def Let_def)
  ultimately show ?thesis by (auto simp: unat_max unat_div max.commute)
qed

text \<open>
  C36: a refused thread sleeps long enough. When an update is refused, and the time since the last
  refill is below the point where the refill count no longer fits into 32 bits, then after the
  computed sleep, with no other thread in between, the update succeeds: \<open>acquire\<close> needs at most
  two turns.
\<close>

theorem rate_limit_sleep_suffices:
  assumes "rl_new requests_per_second = Some L0" and "L = L0\<lparr>rl_state := packed\<rparr>"
    and "rl_unpack packed = (r, k)" and "rl_update L clock packed = None"
    and "unat (rl_elapsed clock r) * unat (rl_max_tokens L) div 1000 < 2 ^ 32"
  shows "rl_update L (clock + unat (rl_sleep L clock packed)) packed \<noteq> None"
proof
  let ?s = "unat (rl_sleep L clock packed)" and ?M = "unat (rl_max_tokens L)"
  let ?e = "unat (rl_elapsed clock r)"
  assume refused: "rl_update L (clock + ?s) packed = None"
  have L: "rl_interval_ms L = 1000" "0 < rl_max_tokens L" "rl_max_tokens L \<le> 0xFFFFFFFF"
    using assms(1,2) by (auto simp: rl_new_def Let_def word_neq_0_conv min_def word_le_nat_alt
        word_less_nat_alt split: if_splits)
  have M: "0 < ?M" "?M < 2 ^ 32" using L(2,3) by (simp_all add: word_le_nat_alt word_less_nat_alt)
  from rl_refused(2) [OF assms(4,3) L] unat_compute_refill [OF unat_rl_elapsed_less M(2) assms(5)]
  have "?e * ?M div 1000 = 0" by simp
  then have e: "?e * ?M < 1000" by (simp add: div_eq_0_iff)
  with M(1) have e1: "?e < 1000" by (metis le_less_trans less_one mult_le_mono2 mult.right_neutral not_le)
  define missing where "missing = 1000 - ?e * ?M"
  have s: "?s = max 1 (if missing mod ?M = 0 then missing div ?M else missing div ?M + 1)"
    using unat_rl_sleep [OF L(1,3) assms(3) e] by (simp add: missing_def)
  have "0 < missing" using e by (simp add: missing_def)
  then have "0 < (if missing mod ?M = 0 then missing div ?M else missing div ?M + 1)"
    using div_ceil_mult(1) [OF M(1), of missing] by (metis le_zero_eq mult_0 not_gr_zero)
  then have s': "?s = (if missing mod ?M = 0 then missing div ?M else missing div ?M + 1)" using s by simp
  note c = div_ceil_mult [OF M(1), of missing, folded s']
  have "(?s - 1) * ?M < missing" using c(2) \<open>0 < missing\<close> by (simp add: diff_mult_distrib)
  moreover have "?s - 1 \<le> (?s - 1) * ?M" using M(1) by simp
  ultimately have s1: "?s \<le> 1000" unfolding missing_def by linarith
  have later: "unat (rl_elapsed (clock + ?s) r) = ?e + ?s"
  proof -
    have "unat ((of_nat clock :: u32) - r) = ?e" by (simp add: rl_elapsed_def unat_ucast_up)
    moreover have "(of_nat (clock + ?s) :: u32) - r = (of_nat clock - r) + of_nat ?s" by simp
    ultimately have "unat ((of_nat (clock + ?s) :: u32) - r) = ?e + ?s"
      using e1 s1 by (simp only: unat_word_ariths unat_of_nat) simp
    then show ?thesis by (simp add: rl_elapsed_def unat_ucast_up)
  qed
  have enough: "1000 \<le> (?e + ?s) * ?M" using c(1) e unfolding missing_def add_mult_distrib by linarith
  have "(?e + ?s) * ?M < 1000 + ?M" using c(2) e unfolding missing_def add_mult_distrib by linarith
  then have "(?e + ?s) * ?M div 1000 < 2 ^ 32" using M(2) by linarith
  with rl_refused(2) [OF refused assms(3) L]
    unat_compute_refill [OF unat_rl_elapsed_less [of "clock + ?s" r] M(2)] later
  have "(?e + ?s) * ?M div 1000 = 0" by simp
  with enough show False by (simp add: div_eq_0_iff)
qed

theorem rate_limit_sleep_suffices_witness:
  "\<exists>L packed. rl_update L 100 packed = None \<and> rl_update L (100 + unat (rl_sleep L 100 packed)) packed \<noteq> None
     \<and> rl_sleep L 100 packed = 400"
proof -
  let ?L = "\<lparr>rl_state = rl_pack 0 0, rl_max_tokens = 2, rl_interval_ms = 1000\<rparr>"
  let ?Init = "\<lparr>rl_state = rl_pack 0 2, rl_max_tokens = 2, rl_interval_ms = 1000\<rparr>"
  have L: "rl_new 2 = Some ?Init" by (simp add: rl_new_def Let_def min_def)
  have eq: "?L = ?Init\<lparr>rl_state := rl_pack 0 0\<rparr>" by simp
  have none: "rl_update ?L 100 (rl_pack 0 0) = None"
    by (simp add: rl_update_def Let_def compute_refill_def rl_elapsed_def)
  have "rl_update ?L (100 + unat (rl_sleep ?L 100 (rl_pack 0 0))) (rl_pack 0 0) \<noteq> None"
    by (rule rate_limit_sleep_suffices [OF L eq rl_unpack_pack none]) (simp add: rl_elapsed_def)
  moreover have "rl_sleep ?L 100 (rl_pack 0 0) = 400"
    by (simp add: rl_sleep_def rl_elapsed_def sat_mul_def max_def word_le_nat_alt)
  ultimately show ?thesis using none by blast
qed

end
