(* ===== verification/Fork_Rpc.thy ===== *)
theory Fork_Rpc
  imports Tx_Result "HOL-Library.Multiset"
begin

section \<open>Requests, responses and batches of the fork RPC client\<close>

text \<open>
  \<open>evm/forkdb/request.rs\<close>, \<open>response.rs\<close>, \<open>error.rs\<close> and the part of \<open>backend.rs\<close> that sends one
  batch: JSON values as \<open>serde_json\<close> has them, the cache key of a request, the payload of a
  batch, the check of its response, and the retries. Numbers are printed as Rust prints them.
  Printing an address or a 256-bit slot, hashing, and the parsers of the primitive types come
  from crates: they are fields of \<open>rpc_text\<close>. Message texts of errors are left out, except where the
  code looks into them.
\<close>

subsection \<open>Printing numbers\<close>

definition digit_char :: "nat \<Rightarrow> char" where
  "digit_char d = ''0123456789abcdef'' ! d"

function digits :: "nat \<Rightarrow> nat \<Rightarrow> string" where
  "digits b n = (if n < b \<or> b < 2 then [digit_char n] else digits b (n div b) @ [digit_char (n mod b)])"
  by auto
termination by (relation "measure snd") (auto intro: div_less_dividend)

declare digits.simps [simp del]

definition show_dec :: "'a::len word \<Rightarrow> string" where
  "show_dec w = digits 10 (unat w)"

definition show_hex :: "'a::len word \<Rightarrow> string" where
  "show_hex w = digits 16 (unat w)"

subsection \<open>JSON\<close>

datatype json_num = Num_Pos u64 | Num_Neg "64 word" | Num_Float u64

datatype json =
    J_Null
  | J_Bool bool
  | J_Num json_num
  | J_Str string
  | J_Arr "json list"
  | J_Obj "(string \<times> json) list"

fun json_get :: "string \<Rightarrow> json \<Rightarrow> json option" where
  "json_get k (J_Obj members) = map_of members k"
| "json_get k _ = None"

fun json_as_u64 :: "json \<Rightarrow> u64 option" where
  "json_as_u64 (J_Num (Num_Pos n)) = Some n"
| "json_as_u64 _ = None"

text \<open>\<open>as_i64\<close>: the result as an integer; a positive number only when it fits.\<close>

fun json_as_i64 :: "json \<Rightarrow> int option" where
  "json_as_i64 (J_Num (Num_Pos n)) = (if unat n < 2 ^ 63 then Some (int (unat n)) else None)"
| "json_as_i64 (J_Num (Num_Neg n)) = Some (sint n)"
| "json_as_i64 _ = None"

fun json_as_str :: "json \<Rightarrow> string option" where
  "json_as_str (J_Str s) = Some s"
| "json_as_str _ = None"

subsection \<open>Errors\<close>

datatype rpc_error =
    Rpc_Timeout string
  | Connection_Error string
  | Rate_Limited string
  | Decode_Error
  | Rpc_Code int
  | Unexpected_Response
  | Missing_Account
  | Internal_Error

definition is_transient :: "rpc_error \<Rightarrow> bool" where
  "is_transient e =
     (case e of
        Rpc_Timeout url \<Rightarrow> True
      | Connection_Error url \<Rightarrow> True
      | Rate_Limited url \<Rightarrow> True
      | Rpc_Code code \<Rightarrow> code = 429 \<or> (500 \<le> code \<and> code \<le> 599)
      | _ \<Rightarrow> False)"

text \<open>An error of the transport or of a parser: its text and the type of its root cause.\<close>

datatype root_cause = Root_Status nat | Root_Timeout | Root_Http_Other | Root_Io | Root_Json | Root_Other

record any_error =
  ae_message :: string
  ae_root :: root_cause

fun str_contains :: "string \<Rightarrow> string \<Rightarrow> bool" where
  "str_contains [] p = (p = [])"
| "str_contains (c # s) p = (starts_with (c # s) p \<or> str_contains s p)"

definition from_anyhow :: "any_error \<Rightarrow> string \<Rightarrow> rpc_error" where
  "from_anyhow e url =
     (let msg = ae_message e;
          by_message =
            (if str_contains msg ''429'' \<or> str_contains msg ''503'' \<or> str_contains msg ''504''
                \<or> str_contains msg ''rate limit'' \<or> str_contains msg ''too many requests''
                \<or> str_contains msg ''service unavailable'' then Rate_Limited url
             else if str_contains msg ''timeout'' \<or> str_contains msg ''timed out'' then Rpc_Timeout url
             else if str_contains msg ''connection'' \<or> str_contains msg ''connect'' then Connection_Error url
             else Internal_Error)
      in case ae_root e of
           Root_Status code \<Rightarrow>
             if code = 429 \<or> code = 503 \<or> code = 504 then Rate_Limited url else by_message
         | Root_Timeout \<Rightarrow> Rpc_Timeout url
         | Root_Io \<Rightarrow> Connection_Error url
         | Root_Json \<Rightarrow> Decode_Error
         | _ \<Rightarrow> by_message)"

subsection \<open>Requests\<close>

datatype request =
    Get_Chain_Id (rq_url_hash: u64)
  | Get_Block (rq_chain: u64) (rq_block: u64)
  | Get_Balance (rq_chain: u64) (rq_address: address) (rq_block: u64)
  | Get_Nonce (rq_chain: u64) (rq_address: address) (rq_block: u64)
  | Get_Code (rq_chain: u64) (rq_address: address) (rq_block: u64)
  | Get_Storage (rq_chain: u64) (rq_address: address) (rq_slot: u256) (rq_block: u64)

record block_header =
  bh_number :: u64
  bh_timestamp :: u64
  bh_coinbase :: address
  bh_gas_limit :: u64
  bh_basefee :: u64
  bh_prevrandao :: "u256 option"
  bh_difficulty :: u256
  bh_excess_blob_gas :: "u64 option"
  bh_hash :: "u256 option"

record rpc_text =
  rt_address_hex :: "address \<Rightarrow> string"
  rt_slot_hex :: "u256 \<Rightarrow> string"
  rt_keccak :: "bytes \<Rightarrow> bytes"
  rt_u64_radix16 :: "string \<Rightarrow> u64 option"
  rt_u256 :: "string \<Rightarrow> u256 option"
  rt_bytes :: "string \<Rightarrow> bytes option"
  rt_block :: "json \<Rightarrow> block_header option"

fun rq_method :: "request \<Rightarrow> string" where
  "rq_method (Get_Chain_Id _) = ''eth_chainId''"
| "rq_method (Get_Block _ _) = ''eth_getBlockByNumber''"
| "rq_method (Get_Balance _ _ _) = ''eth_getBalance''"
| "rq_method (Get_Nonce _ _ _) = ''eth_getTransactionCount''"
| "rq_method (Get_Code _ _ _) = ''eth_getCode''"
| "rq_method (Get_Storage _ _ _ _) = ''eth_getStorageAt''"

definition hex_0x :: "string \<Rightarrow> json" where
  "hex_0x s = J_Str (''0x'' @ s)"

fun rq_params :: "rpc_text \<Rightarrow> request \<Rightarrow> json list" where
  "rq_params T (Get_Chain_Id _) = []"
| "rq_params T (Get_Block _ block) = [hex_0x (show_hex block), J_Bool False]"
| "rq_params T (Get_Balance _ a block) = [hex_0x (rt_address_hex T a), hex_0x (show_hex block)]"
| "rq_params T (Get_Nonce _ a block) = [hex_0x (rt_address_hex T a), hex_0x (show_hex block)]"
| "rq_params T (Get_Code _ a block) = [hex_0x (rt_address_hex T a), hex_0x (show_hex block)]"
| "rq_params T (Get_Storage _ a slot block) =
     [hex_0x (rt_address_hex T a), hex_0x (rt_slot_hex T slot), hex_0x (show_hex block)]"

fun cache_key :: "rpc_text \<Rightarrow> request \<Rightarrow> string" where
  "cache_key T (Get_Chain_Id url_hash) = ''eth_chainId/'' @ show_hex url_hash"
| "cache_key T (Get_Block chain_id block) =
     ''eth_getBlockByNumber/'' @ show_dec chain_id @ ''/'' @ show_dec block"
| "cache_key T (Get_Balance chain_id a block) =
     ''eth_getBalance/'' @ show_dec chain_id @ ''/'' @ show_dec block @ ''/'' @ rt_address_hex T a"
| "cache_key T (Get_Nonce chain_id a block) =
     ''eth_getTransactionCount/'' @ show_dec chain_id @ ''/'' @ show_dec block @ ''/'' @ rt_address_hex T a"
| "cache_key T (Get_Code chain_id a block) =
     ''eth_getCode/'' @ show_dec chain_id @ ''/'' @ show_dec block @ ''/'' @ rt_address_hex T a"
| "cache_key T (Get_Storage chain_id a slot block) =
     ''eth_getStorageAt/'' @ show_dec chain_id @ ''/'' @ show_dec block @ ''/'' @ rt_address_hex T a
       @ ''/'' @ rt_slot_hex T slot"

text \<open>\<open>url_hash\<close>: the first eight bytes of the hash, in big-endian order.\<close>

definition url_hash :: "rpc_text \<Rightarrow> string \<Rightarrow> u64" where
  "url_hash T url = word_rcat (take 8 (rt_keccak T (map (of_nat \<circ> of_char) url)))"

subsection \<open>Responses\<close>

datatype response =
    R_Chain_Id u64
  | R_Block block_header
  | R_Balance u256
  | R_Nonce u64
  | R_Code bytes
  | R_Storage u256

definition opt_err :: "string \<Rightarrow> 'a option \<Rightarrow> any_error + 'a" where
  "opt_err msg x =
     (case x of Some y \<Rightarrow> Inr y | None \<Rightarrow> Inl \<lparr>ae_message = msg, ae_root = Root_Other\<rparr>)"

definition parse_str ::
  "string \<Rightarrow> string \<Rightarrow> (string \<Rightarrow> 'a option) \<Rightarrow> ('a \<Rightarrow> response) \<Rightarrow> json \<Rightarrow> any_error + response" where
  "parse_str expected invalid parser mk result =
     (case opt_err expected (json_as_str result) of
        Inl e \<Rightarrow> Inl e
      | Inr s \<Rightarrow> map_sum id mk (opt_err invalid (parser s)))"

definition strip_0x :: "string \<Rightarrow> string" where
  "strip_0x s = (case strip_prefix ''0x'' s of Some t \<Rightarrow> t | None \<Rightarrow> s)"

fun parse_response :: "rpc_text \<Rightarrow> request \<Rightarrow> json \<Rightarrow> any_error + response" where
  "parse_response T (Get_Chain_Id _) result =
     parse_str ''expected hex string for chainId'' ''invalid chainId hex'' (rt_u64_radix16 T \<circ> strip_0x)
       R_Chain_Id result"
| "parse_response T (Get_Block _ _) result =
     (if result = J_Null then Inl \<lparr>ae_message = ''block not found'', ae_root = Root_Other\<rparr>
      else case rt_block T result of
             None \<Rightarrow> Inl \<lparr>ae_message = ''invalid block response'', ae_root = Root_Json\<rparr>
           | Some b \<Rightarrow> Inr (R_Block b))"
| "parse_response T (Get_Balance _ _ _) result =
     parse_str ''expected hex string for balance'' ''invalid balance hex'' (rt_u256 T) R_Balance result"
| "parse_response T (Get_Nonce _ _ _) result =
     parse_str ''expected hex string for nonce'' ''invalid nonce hex'' (rt_u64_radix16 T \<circ> strip_0x)
       R_Nonce result"
| "parse_response T (Get_Code _ _ _) result =
     parse_str ''expected hex string for code'' ''invalid code hex'' (rt_bytes T) R_Code result"
| "parse_response T (Get_Storage _ _ _ _) result =
     parse_str ''expected hex string for storage'' ''invalid storage hex'' (rt_u256 T) R_Storage result"

subsection \<open>One batch\<close>

definition build_payload :: "rpc_text \<Rightarrow> request list \<Rightarrow> json" where
  "build_payload T batch =
     J_Arr (map (\<lambda>(idx, req). J_Obj
       [(''jsonrpc'', J_Str ''2.0''), (''id'', J_Num (Num_Pos (of_nat idx))),
        (''method'', J_Str (rq_method req)), (''params'', J_Arr (rq_params T req))])
       (enumerate 0 batch))"

definition deduplicate_requests :: "rpc_text \<Rightarrow> request list \<Rightarrow> request list" where
  "deduplicate_requests T batch = dedup_by (cache_key T) {} batch"

text \<open>One item of a response: its id and its result.\<close>

definition response_item :: "json \<Rightarrow> rpc_error + nat \<times> json" where
  "response_item item =
     (case Option.bind (json_get ''id'' item) json_as_u64 of
        None \<Rightarrow> Inl Unexpected_Response
      | Some i \<Rightarrow>
          (case json_get ''error'' item of
             Some error \<Rightarrow>
               Inl (Rpc_Code (case Option.bind (json_get ''code'' error) json_as_i64 of
                                Some code \<Rightarrow> code | None \<Rightarrow> 0))
           | None \<Rightarrow>
               (case json_get ''result'' item of
                  None \<Rightarrow> Inl Unexpected_Response
                | Some result \<Rightarrow> Inr (unat i, result))))"

fun collect_items :: "json list \<Rightarrow> (nat \<Rightarrow> json option) \<Rightarrow> rpc_error + (nat \<Rightarrow> json option)" where
  "collect_items [] by_id = Inr by_id"
| "collect_items (item # items) by_id =
     (case response_item item of
        Inl e \<Rightarrow> Inl e
      | Inr (i, result) \<Rightarrow> collect_items items (by_id(i \<mapsto> result)))"

text \<open>The results in the order of the requests, each under its cache key.\<close>

fun match_requests ::
  "rpc_text \<Rightarrow> nat \<Rightarrow> request list \<Rightarrow> (nat \<Rightarrow> json option) \<Rightarrow> rpc_error + (string \<times> json) list" where
  "match_requests T idx [] by_id = Inr []"
| "match_requests T idx (req # reqs) by_id =
     (case by_id idx of
        None \<Rightarrow> Inl Unexpected_Response
      | Some result \<Rightarrow>
          if result = J_Null \<and> (case req of Get_Block _ _ \<Rightarrow> True | _ \<Rightarrow> False)
          then Inl Unexpected_Response
          else map_sum id (Cons (cache_key T req, result))
                 (match_requests T (Suc idx) reqs (by_id(idx := None))))"

definition parse_batch_response ::
  "rpc_text \<Rightarrow> json \<Rightarrow> request list \<Rightarrow> rpc_error + (string \<times> json) list" where
  "parse_batch_response T response deduped =
     (case (case response of
              J_Obj _ \<Rightarrow> if length deduped = 1 then Some [response] else None
            | J_Arr items \<Rightarrow> Some items
            | _ \<Rightarrow> None) of
        None \<Rightarrow> Inl Unexpected_Response
      | Some items \<Rightarrow>
          if length items \<noteq> length deduped then Inl Unexpected_Response
          else case collect_items items Map.empty of
                 Inl e \<Rightarrow> Inl e
               | Inr by_id \<Rightarrow> match_requests T 0 deduped by_id)"

text \<open>
  The retries of \<open>dispatch_batch\<close>: \<open>post\<close> is what the transport answers to each attempt, an
  arbitrary function. The results are the outcome and the attempts made.
\<close>

function dispatch_from ::
  "rpc_text \<Rightarrow> string \<Rightarrow> nat \<Rightarrow> (nat \<Rightarrow> any_error + json) \<Rightarrow> request list \<Rightarrow> nat \<Rightarrow>
   (rpc_error + (string \<times> json) list) \<times> nat" where
  "dispatch_from T url retries post deduped attempt =
     (case (case post attempt of
              Inr response \<Rightarrow> parse_batch_response T response deduped
            | Inl e \<Rightarrow> Inl (from_anyhow e url)) of
        Inr results \<Rightarrow> (Inr results, Suc attempt)
      | Inl err \<Rightarrow>
          if \<not> is_transient err \<or> attempt \<ge> retries then (Inl err, Suc attempt)
          else dispatch_from T url retries post deduped (Suc attempt))"
  by pat_completeness auto
termination by (relation "measure (\<lambda>(_, _, retries, _, _, attempt). retries - attempt)") auto

declare dispatch_from.simps [simp del]

definition dispatch_batch ::
  "rpc_text \<Rightarrow> string \<Rightarrow> u32 \<Rightarrow> (nat \<Rightarrow> any_error + json) \<Rightarrow> request list \<Rightarrow>
   (rpc_error + (string \<times> json) list) \<times> nat" where
  "dispatch_batch T url retries post batch =
     dispatch_from T url (unat retries) post (deduplicate_requests T batch) 0"

text \<open>Durations are in nanoseconds; \<open>None\<close> of \<open>checked_mul\<close> is a product that is no duration.\<close>

definition sat_pow2 :: "nat \<Rightarrow> nat" where
  "sat_pow2 attempt = min (2 ^ attempt) (2 ^ 32 - 1)"

definition sleep_duration :: "nat \<Rightarrow> nat \<Rightarrow> nat" where
  "sleep_duration backoff attempt =
     (let max_backoff = 5000 * 10 ^ 6;
          d = backoff * sat_pow2 attempt
      in if d \<le> duration_max then min d max_backoff else max_backoff)"

subsection \<open>Cache keys\<close>

lemma digit_char_inj: "m < 16 \<Longrightarrow> n < 16 \<Longrightarrow> digit_char m = digit_char n \<Longrightarrow> m = n"
  unfolding digit_char_def by (subst (asm) nth_eq_iff_index_eq) simp_all

lemma digit_char_not_slash: "n < 16 \<Longrightarrow> digit_char n \<noteq> CHR ''/''"
proof
  assume "n < 16" "digit_char n = CHR ''/''"
  then have "CHR ''/'' \<in> set ''0123456789abcdef''"
    unfolding digit_char_def by (metis nth_mem length_Cons list.size(3) numeral_eq_Suc pred_numeral_simps
        BitM.simps)
  then show False by simp
qed

lemma digits_not_slash:
  assumes "2 \<le> b" and "b \<le> 16"
  shows "CHR ''/'' \<notin> set (digits b n)"
proof (induction n rule: less_induct)
  case (less n)
  have "digit_char (n mod b) \<noteq> CHR ''/''" using assms by (intro digit_char_not_slash) (simp add: less_le_trans [of _ b])
  with less [of "n div b"] assms digit_char_not_slash [of n] show ?case
    by (subst digits.simps) (auto simp: div_less_dividend)
qed

lemma digits_inj:
  assumes "2 \<le> b" and "b \<le> 16"
  shows "digits b m = digits b n \<Longrightarrow> m = n"
proof (induction m arbitrary: n rule: less_induct)
  case (less m)
  have small: "length (digits b k) = 1 \<longleftrightarrow> k < b" for k
    using assms(1) by (subst digits.simps) (auto, subst (asm) digits.simps, auto split: if_splits)
  show ?case
  proof (cases "m < b")
    case True
    with less.prems small have "n < b" by metis
    with True less.prems assms show ?thesis by (simp add: digits.simps digit_char_inj)
  next
    case False
    with less.prems small have "\<not> n < b" by metis
    with False less.prems assms(1) have "digits b (m div b) = digits b (n div b)"
      and last: "digit_char (m mod b) = digit_char (n mod b)"
      by (simp_all add: digits.simps [of b m] digits.simps [of b n])
    then have "m div b = n div b" using less.IH False assms(1) by (simp add: div_less_dividend)
    moreover have "m mod b = n mod b"
      using last assms by (intro digit_char_inj) (simp_all add: less_le_trans [of _ b])
    ultimately show ?thesis by (metis div_mult_mod_eq)
  qed
qed

lemma show_dec_inj [simp]: "show_dec v = show_dec w \<longleftrightarrow> v = w"
  and show_hex_inj [simp]: "show_hex v = show_hex w \<longleftrightarrow> v = w"
  using digits_inj [of 10 "unat v" "unat w"] digits_inj [of 16 "unat v" "unat w"]
  by (auto simp: show_dec_def show_hex_def word_unat_eq_iff)

lemma show_dec_not_slash [simp]: "CHR ''/'' \<notin> set (show_dec w)"
  by (simp add: show_dec_def digits_not_slash)

text \<open>What the code relies on of the printers: no two values print alike, and no slash is printed.\<close>

definition text_keys_ok :: "rpc_text \<Rightarrow> bool" where
  "text_keys_ok T \<longleftrightarrow>
     (\<forall>a. CHR ''/'' \<notin> set (rt_address_hex T a)) \<and> inj (rt_address_hex T) \<and> inj (rt_slot_hex T)"

lemma append_slash_eq:
  assumes "CHR ''/'' \<notin> set a" and "CHR ''/'' \<notin> set b"
  shows "a @ CHR ''/'' # s = b @ CHR ''/'' # t \<longleftrightarrow> a = b \<and> s = t"
  using assms by (metis split_once_append option.inject prod.inject)

text \<open>
  A cached value can never answer another request. Two requests have the same cache key
  only when they are the same request: same method, chain, account, slot and block. The key is
  the index of the in-memory cache and the path of the file on disk.
\<close>

theorem cache_key_identifies:
  assumes "text_keys_ok T" and "cache_key T r1 = cache_key T r2"
  shows "r1 = r2"
  using assms by (cases r1; cases r2) (auto simp: text_keys_ok_def append_slash_eq dest: injD)

definition demo_rpc_text :: rpc_text where
  "demo_rpc_text =
     \<lparr>rt_address_hex = show_hex, rt_slot_hex = show_hex, rt_keccak = id,
      rt_u64_radix16 = (\<lambda>s. Some (of_nat (length s))), rt_u256 = (\<lambda>s. Some (of_nat (length s))),
      rt_bytes = (\<lambda>s. Some []), rt_block = (\<lambda>j. None)\<rparr>"

lemma demo_rpc_text_ok: "text_keys_ok demo_rpc_text"
  by (auto simp: text_keys_ok_def demo_rpc_text_def show_hex_def digits_not_slash
      simp flip: show_hex_inj [unfolded show_hex_def] intro!: injI)

theorem cache_key_identifies_witness:
  "text_keys_ok demo_rpc_text \<and> cache_key demo_rpc_text (Get_Nonce 1 17 2) = ''eth_getTransactionCount/1/2/11''
     \<and> cache_key demo_rpc_text (Get_Nonce 1 17 2) \<noteq> cache_key demo_rpc_text (Get_Nonce 1 2 17)"
proof -
  have "cache_key demo_rpc_text (Get_Nonce 1 17 2) = ''eth_getTransactionCount/1/2/11''"
    by (simp add: demo_rpc_text_def show_dec_def show_hex_def digits.simps digit_char_def)
  then show ?thesis
    using cache_key_identifies [OF demo_rpc_text_ok, of "Get_Nonce 1 17 2" "Get_Nonce 1 2 17"]
      demo_rpc_text_ok by auto
qed

subsection \<open>Batches\<close>

lemma collect_items_Inr:
  "collect_items items m = Inr m' \<longleftrightarrow>
     (\<exists>ps. map response_item items = map Inr ps \<and> m' = m ++ map_of (rev ps))"
proof (induction items m rule: collect_items.induct)
  case (2 item items m)
  show ?case
  proof (cases "response_item item")
    case (Inl e)
    then show ?thesis by (auto simp: Cons_eq_map_conv)
  next
    case (Inr p)
    obtain i result where p: "p = (i, result)" by fastforce
    have "m ++ map_of (rev ((i, result) # ps)) = m(i \<mapsto> result) ++ map_of (rev ps)" for ps
      by (rule ext) (simp add: map_add_def split: option.splits)
    moreover have "collect_items (item # items) m = collect_items items (m(i \<mapsto> result))"
      using Inr p by simp
    moreover have "(map response_item (item # items) = map Inr ps) \<longleftrightarrow>
        (\<exists>qs. ps = (i, result) # qs \<and> map response_item items = map Inr qs)" for ps
      using Inr p by (auto simp: Cons_eq_map_conv)
    ultimately show ?thesis using 2 [OF Inr [unfolded p] refl] by metis
  qed
qed auto

definition null_block :: "request \<Rightarrow> json \<Rightarrow> bool" where
  "null_block req result \<longleftrightarrow> result = J_Null \<and> (case req of Get_Block _ _ \<Rightarrow> True | _ \<Rightarrow> False)"

lemma match_requests_Inr:
  "match_requests T idx reqs by_id = Inr ms \<longleftrightarrow>
     (\<exists>rs. length rs = length reqs \<and> ms = zip (map (cache_key T) reqs) rs
        \<and> (\<forall>i < length reqs. by_id (idx + i) = Some (rs ! i) \<and> \<not> null_block (reqs ! i) (rs ! i)))"
proof (induction reqs arbitrary: idx by_id ms)
  case (Cons req reqs)
  have IH: "match_requests T (Suc idx) reqs (by_id(idx := None)) = Inr ms' \<longleftrightarrow>
     (\<exists>rs. length rs = length reqs \<and> ms' = zip (map (cache_key T) reqs) rs
        \<and> (\<forall>i < length reqs. by_id (Suc (idx + i)) = Some (rs ! i) \<and> \<not> null_block (reqs ! i) (rs ! i)))" for ms'
    by (subst Cons.IH) simp
  show ?case (is "?lhs \<longleftrightarrow> ?rhs")
  proof
    assume ?lhs
    obtain result where res: "by_id idx = Some result" "\<not> null_block req result"
      using \<open>?lhs\<close> by (cases "by_id idx") (auto simp: null_block_def split: if_splits)
    moreover obtain ms' where "match_requests T (Suc idx) reqs (by_id(idx := None)) = Inr ms'"
      "ms = (cache_key T req, result) # ms'"
      using \<open>?lhs\<close> res
      by (cases "match_requests T (Suc idx) reqs (by_id(idx := None))") (auto simp: null_block_def)
    ultimately have r: "by_id idx = Some result" "\<not> null_block req result"
      "match_requests T (Suc idx) reqs (by_id(idx := None)) = Inr ms'" "ms = (cache_key T req, result) # ms'"
      by simp_all
    then obtain rs where "length rs = length reqs" "ms' = zip (map (cache_key T) reqs) rs"
      "\<forall>i < length reqs. by_id (Suc (idx + i)) = Some (rs ! i) \<and> \<not> null_block (reqs ! i) (rs ! i)"
      using IH by blast
    with r show ?rhs by (intro exI [of _ "result # rs"]) (auto simp: less_Suc_eq_0_disj)
  next
    assume ?rhs
    then obtain rs where rs: "length rs = Suc (length reqs)" "ms = zip (map (cache_key T) (req # reqs)) rs"
      "\<forall>i < Suc (length reqs). by_id (idx + i) = Some (rs ! i) \<and> \<not> null_block ((req # reqs) ! i) (rs ! i)"
      by auto
    then obtain result rs' where r: "rs = result # rs'" by (cases rs) auto
    from rs(3) r have z: "by_id idx = Some result" "\<not> null_block req result"
      "\<forall>i < length reqs. by_id (Suc (idx + i)) = Some (rs' ! i) \<and> \<not> null_block (reqs ! i) (rs' ! i)"
      by (auto dest: spec [of _ 0] spec [of _ "Suc _"])
    have "match_requests T (Suc idx) reqs (by_id(idx := None)) = Inr (zip (map (cache_key T) reqs) rs')"
      using z(3) rs(1) r IH by auto
    with z r rs(2) show ?lhs by (auto simp: null_block_def)
  qed
qed auto

lemma mset_eq_of_subset:
  assumes "distinct xs" and "set xs \<subseteq> set ys" and "length ys = length xs"
  shows "mset ys = mset xs"
proof -
  have "card (set xs) = length ys" using assms(1,3) by (simp add: distinct_card)
  then have "card (set ys) \<le> card (set xs)" using card_length [of ys] by simp
  then have set: "set xs = set ys" using assms(2) by (intro card_seteq) auto
  then have "distinct ys" using \<open>card (set xs) = length ys\<close> by (intro card_distinct) simp
  with assms(1) set show ?thesis by (metis set_eq_iff_mset_eq_distinct)
qed

lemma indexed_results:
  assumes "length ps = n"
  shows "(\<forall>i < n. map_of (rev ps) i = Some (f i)) \<longleftrightarrow> mset ps = mset (map (\<lambda>i. (i, f i)) [0..<n])"
    (is "?lhs \<longleftrightarrow> mset ps = mset ?L")
proof
  assume ?lhs
  then have "set ?L \<subseteq> set ps" by (fastforce dest: map_of_SomeD)
  moreover have "distinct ?L" by (simp add: distinct_map inj_on_def)
  ultimately show "mset ps = mset ?L" using assms by (intro mset_eq_of_subset) auto
next
  assume m: "mset ps = mset ?L"
  then have "mset (map fst ps) = mset [0..<n]"
    by (metis (no_types, lifting) mset_map map_map comp_def fst_conv map_idI)
  then have "distinct (map fst (rev ps))" by (metis distinct_upt mset_eq_imp_distinct_iff mset_rev rev_map)
  moreover have "\<forall>i < n. (i, f i) \<in> set (rev ps)"
    using mset_eq_setD [OF m] by (auto simp: image_iff)
  ultimately show ?lhs by (auto intro: map_of_is_SomeI)
qed

lemma mset_map_Inr: "mset (map (\<lambda>i. Inr (g i)) xs) = image_mset Inr (mset (map g xs))"
  by (simp add: multiset.map_comp comp_def)

lemma image_mset_InrD: "image_mset Inr M = image_mset Inr N \<Longrightarrow> M = N"
  by (drule arg_cong [where f = "image_mset projr"]) (simp add: multiset.map_comp comp_def)

text \<open>
  C34: responses are matched to requests by id and by nothing else. A batch is accepted exactly
  when its items, in any order, carry the ids of the requests, each once, with a result and no
  error object, and no block is null; every request then gets the result of its own id, under
  its own cache key.
\<close>

theorem batch_matched_by_id:
  "parse_batch_response T (J_Arr items) reqs = Inr ms \<longleftrightarrow>
     (\<exists>rs. length rs = length reqs \<and> ms = zip (map (cache_key T) reqs) rs
        \<and> (\<forall>i < length reqs. \<not> null_block (reqs ! i) (rs ! i))
        \<and> mset (map response_item items) = mset (map (\<lambda>i. Inr (i, rs ! i)) [0..<length reqs]))"
    (is "?lhs \<longleftrightarrow> ?rhs")
proof -
  let ?n = "length reqs"
  have items: "mset (map response_item items) = mset (map (\<lambda>i. Inr (i, rs ! i)) [0..<?n]) \<longleftrightarrow>
      (\<exists>ps. map response_item items = map Inr ps \<and> length ps = ?n
        \<and> mset ps = mset (map (\<lambda>i. (i, rs ! i)) [0..<?n]))" (is "?m \<longleftrightarrow> ?e") for rs :: "json list"
  proof
    assume m: ?m
    then have "set (map response_item items) \<subseteq> range Inr" using mset_eq_setD [OF m] by auto
    then obtain ps where ps: "map response_item items = map Inr ps"
      by (metis (no_types, lifting) ex_map_conv rangeE subsetD)
    have "image_mset (Inr :: _ \<Rightarrow> rpc_error + _) (mset ps)
        = image_mset Inr (mset (map (\<lambda>i. (i, rs ! i)) [0..<?n]))"
      using m unfolding ps mset_map_Inr by (simp only: mset_map multiset.map_ident)
    then have "mset ps = mset (map (\<lambda>i. (i, rs ! i)) [0..<?n])" by (rule image_mset_InrD)
    moreover from mset_eq_length [OF this] have "length ps = ?n" by simp
    ultimately show ?e using ps by blast
  next
    assume ?e
    then obtain ps where "map response_item items = map Inr ps" "mset ps = mset (map (\<lambda>i. (i, rs ! i)) [0..<?n])"
      by blast
    then show ?m unfolding mset_map_Inr by (simp only: mset_map)
  qed
  have "?lhs \<longleftrightarrow> (\<exists>ps. map response_item items = map Inr ps \<and> length ps = ?n
     \<and> match_requests T 0 reqs (map_of (rev ps)) = Inr ms)"
  proof (cases "length items = ?n")
    case True
    then have len: "length ps = ?n" if "map response_item items = map Inr ps" for ps :: "(nat \<times> json) list"
      using map_eq_imp_length_eq [OF that] by simp
    have "?lhs \<longleftrightarrow> (\<exists>by_id. collect_items items Map.empty = Inr by_id \<and> match_requests T 0 reqs by_id = Inr ms)"
      using True by (simp add: parse_batch_response_def split: sum.split)
    then show ?thesis unfolding collect_items_Inr empty_map_add using len by blast
  next
    case False
    then have "\<not> ?lhs" by (simp add: parse_batch_response_def)
    moreover have "length ps = length items" if "map response_item items = map Inr ps" for ps :: "(nat \<times> json) list"
      using map_eq_imp_length_eq [OF that] by simp
    ultimately show ?thesis using False by metis
  qed
  also have "\<dots> \<longleftrightarrow> ?rhs"
  proof -
    have idx: "(\<forall>i < ?n. map_of (rev ps) (0 + i) = Some (rs ! i) \<and> \<not> null_block (reqs ! i) (rs ! i))
        \<longleftrightarrow> (\<forall>i < ?n. \<not> null_block (reqs ! i) (rs ! i)) \<and> mset ps = mset (map (\<lambda>i. (i, rs ! i)) [0..<?n])"
      if "length ps = ?n" for ps and rs :: "json list"
      using indexed_results [OF that, of "\<lambda>i. rs ! i"] by auto
    show ?thesis unfolding items match_requests_Inr by (simp only: idx cong: conj_cong) blast
  qed
  finally show ?thesis .
qed

definition demo_item :: "u64 \<Rightarrow> json \<Rightarrow> json" where
  "demo_item n result = J_Obj [(''id'', J_Num (Num_Pos n)), (''result'', result)]"

theorem batch_matched_by_id_witness:
  "parse_batch_response demo_rpc_text (J_Arr [demo_item 1 (J_Str ''b''), demo_item 0 (J_Str ''a'')])
     [Get_Chain_Id 1, Get_Nonce 1 17 2]
   = Inr [(cache_key demo_rpc_text (Get_Chain_Id 1), J_Str ''a''),
          (cache_key demo_rpc_text (Get_Nonce 1 17 2), J_Str ''b'')]"
  unfolding batch_matched_by_id
  by (rule exI [of _ "[J_Str ''a'', J_Str ''b'']"])
     (auto simp: demo_item_def response_item_def null_block_def less_Suc_eq add_mset_commute)

lemma parse_batch_keys:
  assumes "parse_batch_response T response reqs = Inr ms"
  shows "map fst ms = map (cache_key T) reqs"
proof -
  obtain by_id where "match_requests T 0 reqs by_id = Inr ms"
    using assms by (auto simp: parse_batch_response_def split: json.splits if_splits sum.splits option.splits)
  then show ?thesis unfolding match_requests_Inr by auto
qed

subsection \<open>Retries\<close>

text \<open>What one attempt gives: the parsed response, or the classified transport error.\<close>

definition attempt_result ::
  "rpc_text \<Rightarrow> string \<Rightarrow> request list \<Rightarrow> any_error + json \<Rightarrow> rpc_error + (string \<times> json) list" where
  "attempt_result T url reqs answer =
     (case answer of Inr response \<Rightarrow> parse_batch_response T response reqs
      | Inl e \<Rightarrow> Inl (from_anyhow e url))"

lemma dispatch_from_spec:
  assumes "dispatch_from T url retries post reqs attempt = (res, n)" and "attempt \<le> retries"
  shows "attempt < n \<and> n \<le> Suc retries \<and> res = attempt_result T url reqs (post (n - 1))
     \<and> (\<forall>k. attempt \<le> k \<longrightarrow> k < n - 1 \<longrightarrow>
          (\<exists>e. attempt_result T url reqs (post k) = Inl e \<and> is_transient e))
     \<and> (\<forall>e. res = Inl e \<longrightarrow> is_transient e \<longrightarrow> n = Suc retries)"
  using assms
proof (induction T url retries post reqs attempt rule: dispatch_from.induct)
  case (1 T url retries post reqs attempt)
  note step = "1.prems"(1) [unfolded dispatch_from.simps [of _ _ _ _ _ attempt], folded attempt_result_def]
  show ?case
  proof (cases "attempt_result T url reqs (post attempt)")
    case (Inr results)
    with step "1.prems"(2) show ?thesis by auto
  next
    case (Inl err)
    show ?thesis
    proof (cases "\<not> is_transient err \<or> attempt \<ge> retries")
      case True
      with step Inl "1.prems"(2) show ?thesis by auto
    next
      case False
      with step Inl have rest: "dispatch_from T url retries post reqs (Suc attempt) = (res, n)" by simp
      have le: "Suc attempt \<le> retries" using False by simp
      have IH: "Suc attempt < n \<and> n \<le> Suc retries \<and> res = attempt_result T url reqs (post (n - 1))
         \<and> (\<forall>k. Suc attempt \<le> k \<longrightarrow> k < n - 1 \<longrightarrow>
              (\<exists>e. attempt_result T url reqs (post k) = Inl e \<and> is_transient e))
         \<and> (\<forall>e. res = Inl e \<longrightarrow> is_transient e \<longrightarrow> n = Suc retries)"
        by (rule "1.IH" [folded attempt_result_def, OF Inl False rest le])
      have "\<exists>e. attempt_result T url reqs (post k) = Inl e \<and> is_transient e"
        if "attempt \<le> k" "k < n - 1" for k
      proof (cases "k = attempt")
        case True
        with Inl False show ?thesis by blast
      next
        case False
        with that(1) have "Suc attempt \<le> k" by linarith
        with IH that(2) show ?thesis by blast
      qed
      with IH show ?thesis by (metis Suc_lessD)
    qed
  qed
qed

lemma from_anyhow_timeout:
  assumes "ae_root e = Root_Timeout"
  shows "from_anyhow e url = Rpc_Timeout url"
  unfolding from_anyhow_def Let_def assms by (rule root_cause.case)

text \<open>
  A batch is sent at least once and at most one time more than the configured retries. The
  result is that of the last attempt, every attempt before it failed in a transient way, and a
  transient failure is only given up on when the retries are used up; in particular a permanent
  failure and a success are never retried.
\<close>

theorem batch_retries:
  assumes "dispatch_batch T url retries post batch = (res, n)"
  defines "reqs \<equiv> deduplicate_requests T batch"
  shows "0 < n \<and> n \<le> unat retries + 1 \<and> res = attempt_result T url reqs (post (n - 1))
     \<and> (\<forall>k < n - 1. \<exists>e. attempt_result T url reqs (post k) = Inl e \<and> is_transient e)
     \<and> (\<forall>e. res = Inl e \<and> is_transient e \<longrightarrow> n = unat retries + 1)"
proof -
  have "dispatch_from T url (unat retries) post reqs 0 = (res, n)"
    using assms(1) by (simp add: dispatch_batch_def reqs_def)
  from dispatch_from_spec [OF this le0] show ?thesis unfolding Suc_eq_plus1 by blast
qed

theorem batch_retries_witness:
  "fst (dispatch_batch demo_rpc_text ''u'' 3
      (\<lambda>k. if k = 0 then Inl \<lparr>ae_message = [], ae_root = Root_Timeout\<rparr> else Inr J_Null) [Get_Chain_Id 1])
   = Inl Unexpected_Response"
proof -
  let ?post = "\<lambda>k. if k = (0::nat) then Inl \<lparr>ae_message = [], ae_root = Root_Timeout\<rparr> else Inr J_Null"
  obtain res n where d: "dispatch_batch demo_rpc_text ''u'' 3 ?post [Get_Chain_Id 1] = (res, n)"
    by fastforce
  have first: "attempt_result demo_rpc_text ''u'' reqs (?post 0) = Inl (Rpc_Timeout ''u'')" for reqs
    by (simp add: attempt_result_def from_anyhow_timeout)
  have later: "attempt_result demo_rpc_text ''u'' reqs (?post k) = Inl Unexpected_Response" if "k \<noteq> 0" for reqs k
    using that by (simp add: attempt_result_def parse_batch_response_def)
  note r = batch_retries [OF d]
  have "n \<noteq> 1"
  proof
    assume "n = 1"
    with r first have "res = Inl (Rpc_Timeout ''u'')" by simp
    with r have "n = 4" by (simp add: is_transient_def)
    with \<open>n = 1\<close> show False by simp
  qed
  with r have "n - 1 \<noteq> 0" by linarith
  with r later have "res = Inl Unexpected_Response" by metis
  with d show ?thesis by simp
qed

lemma dispatch_batch_keys:
  assumes "dispatch_batch T url retries post batch = (Inr ms, n)"
  shows "map fst ms = map (cache_key T) (deduplicate_requests T batch)"
proof -
  have "attempt_result T url (deduplicate_requests T batch) (post (n - 1)) = Inr ms"
    using dispatch_from_spec [OF assms [unfolded dispatch_batch_def] le0] by (elim conjE) (rule sym)
  then show ?thesis
    by (cases "post (n - 1)") (simp_all add: attempt_result_def parse_batch_keys)
qed

text \<open>The wait before a retry doubles up to five seconds; an overflow of the product waits as long.\<close>

lemma sleep_duration_eq: "sleep_duration backoff attempt = min (backoff * sat_pow2 attempt) (5000 * 10 ^ 6)"
  by (simp add: sleep_duration_def Let_def duration_max_def)

lemma sleep_duration_mono: "a \<le> b \<Longrightarrow> sleep_duration backoff a \<le> sleep_duration backoff b"
  unfolding sleep_duration_eq sat_pow2_def
  by (intro min.mono mult_le_mono2 order_refl power_increasing) simp_all

end
