(* ===== verification/Fork_Backend.thy ===== *)
theory Fork_Backend
  imports Fork_Rpc Worker_Pool
begin

section \<open>The shared backend of the fork database\<close>

text \<open>
  \<open>evm/forkdb/backend.rs\<close>: threads fetch requests through one cache. A fetch reads the cache
  without a lock (the fast path); otherwise it takes the batch mutex, queues what is missing
  and either sends the queue as one batch, holding the mutex, or waits for another thread to
  do so. Every step below reads or writes one cache entry or is one section under the mutex; only the holder of
  the mutex writes the cache. What the transport answers to an attempt of a batch is the
  arbitrary function \<open>bc_post\<close> of the number of the batch, its payload and the attempt. Loading and
  writing the disk cache are left out: the initial cache is arbitrary. The rate limiter only
  delays and is modelled on its own.
\<close>

record backend_cfg =
  bc_text :: rpc_text
  bc_url :: string
  bc_retries :: u32
  bc_batch_size :: nat
  bc_post :: "nat \<Rightarrow> json \<Rightarrow> nat \<Rightarrow> any_error + json"

record backend =
  bk_cache :: "string \<Rightarrow> json option"
  bk_locked :: bool
  bk_pending :: "request list"
  bk_started :: bool
  bk_hits :: u64
  bk_misses :: u64
  bk_sent :: nat

definition bk_new :: "(string \<Rightarrow> json option) \<Rightarrow> backend" where
  "bk_new cache =
     \<lparr>bk_cache = cache, bk_locked = False, bk_pending = [], bk_started = False, bk_hits = 0,
      bk_misses = 0, bk_sent = 0\<rparr>"

datatype b_pc =
    B_Start
  | B_Fast "request list" "response list"
  | B_Count "request list" u64 u64
  | B_Lock
  | B_Turn
  | B_Insert "(string \<times> json) list"
  | B_Collect "request list" "response list"
  | B_Wait
  | B_Check "request list" "response list"
  | B_Done "rpc_error + response list"

text \<open>A thread with its request and its thread-local counters.\<close>

record b_worker =
  bw_pc :: b_pc
  bw_reqs :: "request list"
  bw_hits :: u64
  bw_misses :: u64

definition bk_record_hits :: "nat \<Rightarrow> backend \<Rightarrow> backend" where
  "bk_record_hits n sh = sh\<lparr>bk_hits := bk_hits sh + of_nat n\<rparr>"

definition bk_unlock :: "backend \<Rightarrow> backend" where
  "bk_unlock sh = sh\<lparr>bk_locked := False\<rparr>"

definition add_thread_hits :: "u64 \<Rightarrow> b_worker \<Rightarrow> b_worker" where
  "add_thread_hits n w = w\<lparr>bw_hits := sat_add (bw_hits w) n\<rparr>"

definition add_thread_misses :: "u64 \<Rightarrow> b_worker \<Rightarrow> b_worker" where
  "add_thread_misses n w = w\<lparr>bw_misses := sat_add (bw_misses w) n\<rparr>"

text \<open>One read of \<open>try_fast_path\<close>: the entry is missing, does not parse, or is the response.\<close>

datatype read_result = Read_Missing | Read_Invalid rpc_error | Read_Hit response

definition read_cache :: "rpc_text \<Rightarrow> (string \<Rightarrow> json option) \<Rightarrow> request \<Rightarrow> read_result" where
  "read_cache T cache req =
     (case cache (cache_key T req) of
        None \<Rightarrow> Read_Missing
      | Some value \<Rightarrow>
          (case parse_response T req value of
             Inl e \<Rightarrow> Read_Invalid (from_anyhow e [])
           | Inr r \<Rightarrow> Read_Hit r))"

text \<open>Steps 1 to 3 of the slow path: queue what is missing, without duplicates, and start the timer.\<close>

definition enqueue :: "rpc_text \<Rightarrow> request list \<Rightarrow> backend \<Rightarrow> backend" where
  "enqueue T reqs sh =
     (let missing = filter (\<lambda>req. bk_cache sh (cache_key T req) = None) reqs;
          pending = dedup_by (cache_key T) {} (bk_pending sh @ missing)
      in sh\<lparr>bk_pending := pending,
            bk_started := (if bk_pending sh = [] \<and> pending \<noteq> [] then True else bk_started sh)\<rparr>)"

definition execute_batch ::
  "backend_cfg \<Rightarrow> request list \<Rightarrow> backend \<Rightarrow> (rpc_error + (string \<times> json) list) \<times> backend" where
  "execute_batch C batch sh =
     (let deduped = deduplicate_requests (bc_text C) batch;
          payload = build_payload (bc_text C) deduped;
          (res, _) = dispatch_batch (bc_text C) (bc_url C) (bc_retries C) (bc_post C (bk_sent sh) payload) batch
      in (res, sh\<lparr>bk_misses := bk_misses sh + of_nat (length deduped), bk_sent := Suc (bk_sent sh)\<rparr>))"

text \<open>
  Steps 1 to 4 of a turn of the slow path, under the mutex; \<open>clock\<close> says whether the batch has
  been collecting for the batch timeout.
\<close>

definition slow_turn :: "backend_cfg \<Rightarrow> bool \<Rightarrow> request list \<Rightarrow> backend \<Rightarrow> backend \<times> b_pc" where
  "slow_turn C clock reqs sh =
     (let sh1 = enqueue (bc_text C) reqs sh;
          time_exceeded = bk_started sh1 \<and> clock
      in if length (bk_pending sh1) \<ge> bc_batch_size C \<or> time_exceeded
         then case execute_batch C (bk_pending sh1) (sh1\<lparr>bk_pending := [], bk_started := False\<rparr>) of
                (Inl e, sh2) \<Rightarrow> (bk_unlock sh2, B_Done (Inl e))
              | (Inr successes, sh2) \<Rightarrow>
                  (bk_record_hits
                     (length (filter (\<lambda>req. cache_key (bc_text C) req \<notin> fst ` set successes) reqs)) sh2,
                   B_Insert successes)
         else (bk_unlock sh1, B_Wait))"

definition b_step :: "backend_cfg \<Rightarrow> (backend, b_worker) worker_step" where
  "b_step C clock sh w =
     (let T = bc_text C; reqs = bw_reqs w; goto = (\<lambda>(sh', pc). (sh', w\<lparr>bw_pc := pc\<rparr>)) in
      case bw_pc w of
        B_Start \<Rightarrow> goto (sh, if reqs = [] then B_Done (Inr []) else B_Fast reqs [])
      | B_Fast [] results \<Rightarrow>
          (bk_record_hits (length results) sh,
           add_thread_hits (of_nat (length results)) (w\<lparr>bw_pc := B_Done (Inr results)\<rparr>))
      | B_Fast (req # rest) results \<Rightarrow>
          goto (sh, case read_cache T (bk_cache sh) req of
                      Read_Missing \<Rightarrow> B_Count reqs 0 0
                    | Read_Invalid e \<Rightarrow> B_Done (Inl e)
                    | Read_Hit r \<Rightarrow> B_Fast rest (results @ [r]))
      | B_Count [] hits misses \<Rightarrow>
          (sh, add_thread_misses misses (add_thread_hits hits (w\<lparr>bw_pc := B_Lock\<rparr>)))
      | B_Count (req # rest) hits misses \<Rightarrow>
          goto (sh, if bk_cache sh (cache_key T req) \<noteq> None then B_Count rest (hits + 1) misses
                    else B_Count rest hits (misses + 1))
      | B_Lock \<Rightarrow>
          goto (if bk_locked sh then (sh, B_Lock) else (sh\<lparr>bk_locked := True\<rparr>, B_Turn))
      | B_Turn \<Rightarrow> goto (slow_turn C clock reqs sh)
      | B_Insert [] \<Rightarrow> goto (sh, B_Collect reqs [])
      | B_Insert ((key, value) # rest) \<Rightarrow>
          goto (sh\<lparr>bk_cache := (bk_cache sh)(key \<mapsto> value)\<rparr>, B_Insert rest)
      | B_Collect [] results \<Rightarrow> goto (bk_unlock sh, B_Done (Inr results))
      | B_Collect (req # rest) results \<Rightarrow>
          goto (case read_cache T (bk_cache sh) req of
                  Read_Missing \<Rightarrow> (bk_unlock sh, B_Done (Inl Internal_Error))
                | Read_Invalid e \<Rightarrow> (bk_unlock sh, B_Done (Inl e))
                | Read_Hit r \<Rightarrow> (sh, B_Collect rest (results @ [r])))
      | B_Wait \<Rightarrow>
          goto (if bk_locked sh then (sh, B_Wait) else (sh\<lparr>bk_locked := True\<rparr>, B_Check reqs []))
      | B_Check [] results \<Rightarrow>
          goto (bk_unlock (bk_record_hits (length results) sh), B_Done (Inr results))
      | B_Check (req # rest) results \<Rightarrow>
          goto (case read_cache T (bk_cache sh) req of
                  Read_Missing \<Rightarrow> (sh, B_Turn)
                | Read_Invalid e \<Rightarrow> (bk_unlock sh, B_Done (Inl e))
                | Read_Hit r \<Rightarrow> (sh, B_Check rest (results @ [r])))
      | B_Done r \<Rightarrow> (sh, w))"

definition b_thread :: "request list \<Rightarrow> b_worker" where
  "b_thread reqs = \<lparr>bw_pc = B_Start, bw_reqs = reqs, bw_hits = 0, bw_misses = 0\<rparr>"

subsection \<open>The invariant\<close>

text \<open>Responses are the parsed cache entries of their requests.\<close>

definition answered :: "rpc_text \<Rightarrow> (string \<Rightarrow> json option) \<Rightarrow> request list \<Rightarrow> response list \<Rightarrow> bool" where
  "answered T cache reqs results \<longleftrightarrow> list_all2 (\<lambda>req r. read_cache T cache req = Read_Hit r) reqs results"

fun holds_lock :: "b_pc \<Rightarrow> bool" where
  "holds_lock B_Turn = True"
| "holds_lock (B_Insert _) = True"
| "holds_lock (B_Collect _ _) = True"
| "holds_lock (B_Check _ _) = True"
| "holds_lock _ = False"

definition reading :: "rpc_text \<Rightarrow> (string \<Rightarrow> json option) \<Rightarrow> request list \<Rightarrow> request list \<Rightarrow> response list \<Rightarrow> bool" where
  "reading T cache reqs rest results \<longleftrightarrow> (\<exists>read. reqs = read @ rest \<and> answered T cache read results)"

definition unique_pending :: "rpc_text \<Rightarrow> backend \<Rightarrow> bool" where
  "unique_pending T sh \<longleftrightarrow>
     distinct (map (cache_key T) (bk_pending sh)) \<and> (\<forall>req \<in> set (bk_pending sh). bk_cache sh (cache_key T req) = None)"

fun b_pc_ok :: "rpc_text \<Rightarrow> backend \<Rightarrow> request list \<Rightarrow> b_pc \<Rightarrow> bool" where
  "b_pc_ok T sh reqs (B_Fast rest results) = reading T (bk_cache sh) reqs rest results"
| "b_pc_ok T sh reqs (B_Insert kvs) =
     (bk_pending sh = [] \<and> distinct (map fst kvs) \<and> (\<forall>k \<in> fst ` set kvs. bk_cache sh k = None)
      \<and> (\<forall>req \<in> set reqs. bk_cache sh (cache_key T req) \<noteq> None \<or> cache_key T req \<in> fst ` set kvs))"
| "b_pc_ok T sh reqs (B_Collect rest results) =
     (reading T (bk_cache sh) reqs rest results \<and> (\<forall>req \<in> set reqs. bk_cache sh (cache_key T req) \<noteq> None))"
| "b_pc_ok T sh reqs (B_Check rest results) = reading T (bk_cache sh) reqs rest results"
| "b_pc_ok T sh reqs (B_Done (Inr results)) = answered T (bk_cache sh) reqs results"
| "b_pc_ok T sh reqs _ = True"

lemma answered_mono: "m \<subseteq>\<^sub>m m' \<Longrightarrow> answered T m reqs results \<Longrightarrow> answered T m' reqs results"
  unfolding answered_def
  by (erule list_all2_mono) (auto simp: read_cache_def map_le_def dom_def split: option.splits sum.splits)

lemma reading_mono: "m \<subseteq>\<^sub>m m' \<Longrightarrow> reading T m reqs rest results \<Longrightarrow> reading T m' reqs rest results"
  unfolding reading_def using answered_mono by blast

lemma reading_start: "reading T m reqs reqs []"
  by (simp add: reading_def answered_def)

lemma reading_hit:
  "reading T m reqs (req # rest) results \<Longrightarrow> read_cache T m req = Read_Hit r \<Longrightarrow> reading T m reqs rest (results @ [r])"
  unfolding reading_def answered_def by (fastforce simp: list_all2_appendI)

lemma reading_end: "reading T m reqs [] results \<Longrightarrow> answered T m reqs results"
  by (auto simp: reading_def)

lemmas readings = reading_start reading_hit reading_end

lemma other_pc_ok:
  assumes "b_pc_ok T sh reqs pc" and "bk_cache sh \<subseteq>\<^sub>m bk_cache sh'"
    and "\<not> holds_lock pc \<or> bk_cache sh' = bk_cache sh \<and> bk_pending sh' = bk_pending sh"
  shows "b_pc_ok T sh' reqs pc"
  using assms answered_mono [OF assms(2)] reading_mono [OF assms(2)]
  by (cases "(T, sh, reqs, pc)" rule: b_pc_ok.cases) auto

lemma enqueue_spec:
  assumes "unique_pending T sh"
  shows "unique_pending T (enqueue T reqs sh)" and "bk_cache (enqueue T reqs sh) = bk_cache sh"
    and "bk_locked (enqueue T reqs sh) = bk_locked sh"
    and "\<forall>req \<in> set reqs. bk_cache sh (cache_key T req) \<noteq> None
           \<or> cache_key T req \<in> cache_key T ` set (bk_pending (enqueue T reqs sh))"
proof -
  let ?missing = "filter (\<lambda>req. bk_cache sh (cache_key T req) = None) reqs"
  have pending: "bk_pending (enqueue T reqs sh) = dedup_by (cache_key T) {} (bk_pending sh @ ?missing)"
    by (simp add: enqueue_def Let_def)
  show cache: "bk_cache (enqueue T reqs sh) = bk_cache sh" "bk_locked (enqueue T reqs sh) = bk_locked sh"
    by (simp_all add: enqueue_def Let_def)
  have "bk_cache sh (cache_key T req) = None" if "req \<in> set (bk_pending (enqueue T reqs sh))" for req
  proof -
    have "req \<in> set (bk_pending sh @ ?missing)"
      using that unfolding pending by (rule subsetD [OF dedup_by_subset])
    with assms show ?thesis by (auto simp: unique_pending_def)
  qed
  moreover have "distinct (map (cache_key T) (bk_pending (enqueue T reqs sh)))"
    unfolding pending by (rule distinct_dedup_by)
  ultimately show "unique_pending T (enqueue T reqs sh)" unfolding unique_pending_def cache by blast
  show "\<forall>req \<in> set reqs. bk_cache sh (cache_key T req) \<noteq> None
           \<or> cache_key T req \<in> cache_key T ` set (bk_pending (enqueue T reqs sh))"
    unfolding pending dedup_by_keys by auto
qed

lemma execute_batch_spec:
  assumes "execute_batch C batch sh = (res, sh')"
  shows "bk_cache sh' = bk_cache sh" and "bk_locked sh' = bk_locked sh" and "bk_pending sh' = bk_pending sh"
    and "res = Inr kvs \<Longrightarrow> map fst kvs = map (cache_key (bc_text C)) (deduplicate_requests (bc_text C) batch)"
proof -
  let ?payload = "build_payload (bc_text C) (deduplicate_requests (bc_text C) batch)"
  obtain n where d: "dispatch_batch (bc_text C) (bc_url C) (bc_retries C) (bc_post C (bk_sent sh) ?payload) batch = (res, n)"
    using assms by (auto simp: execute_batch_def Let_def split: prod.splits)
  with assms show "bk_cache sh' = bk_cache sh" "bk_locked sh' = bk_locked sh" "bk_pending sh' = bk_pending sh"
    by (auto simp: execute_batch_def Let_def)
  show "map fst kvs = map (cache_key (bc_text C)) (deduplicate_requests (bc_text C) batch)" if "res = Inr kvs"
    using dispatch_batch_keys [OF d [unfolded that]] .
qed

text \<open>One turn: the queue is kept, or sent; a success names exactly the keys that were queued.\<close>

lemma slow_turn_cases:
  assumes "slow_turn C clock reqs sh = (sh', pc)" and "unique_pending (bc_text C) sh"
  obtains (waiting) "pc = B_Wait" and "sh' = bk_unlock (enqueue (bc_text C) reqs sh)"
  | (failed) e where "pc = B_Done (Inl e)" and "bk_cache sh' = bk_cache sh" and "bk_pending sh' = []"
      and "\<not> bk_locked sh'"
  | (fetched) kvs where "pc = B_Insert kvs" and "bk_cache sh' = bk_cache sh" and "bk_pending sh' = []"
      and "bk_locked sh' = bk_locked sh"
      and "map fst kvs = map (cache_key (bc_text C)) (bk_pending (enqueue (bc_text C) reqs sh))"
proof -
  let ?T = "bc_text C"
  let ?sh = "enqueue ?T reqs sh"
  note e = enqueue_spec [OF assms(2), of reqs]
  let ?taken = "?sh\<lparr>bk_pending := [], bk_started := False\<rparr>"
  obtain res sh2 where x: "execute_batch C (bk_pending ?sh) ?taken = (res, sh2)" by fastforce
  note xs = execute_batch_spec [OF x]
  have dedup: "deduplicate_requests ?T (bk_pending ?sh) = bk_pending ?sh"
    using e(1) by (simp add: deduplicate_requests_def unique_pending_def dedup_by_id)
  show ?thesis
  proof (cases "length (bk_pending ?sh) \<ge> bc_batch_size C \<or> (bk_started ?sh \<and> clock)")
    case False
    with assms(1) show ?thesis by (intro waiting) (auto simp: slow_turn_def Let_def)
  next
    case send: True
    show ?thesis
    proof (cases res)
      case (Inl err)
      with send assms(1) x xs e(2) show ?thesis
        by (intro failed) (auto simp: slow_turn_def Let_def bk_unlock_def)
    next
      case (Inr kvs)
      with send assms(1) x xs e(2,3) dedup show ?thesis
        by (intro fetched [of kvs]) (auto simp: slow_turn_def Let_def bk_record_hits_def)
    qed
  qed
qed

definition step_spec :: "rpc_text \<Rightarrow> backend \<Rightarrow> b_worker \<Rightarrow> backend \<Rightarrow> b_worker \<Rightarrow> bool" where
  "step_spec T sh w sh' w' \<longleftrightarrow>
     unique_pending T sh' \<and> b_pc_ok T sh' (bw_reqs w') (bw_pc w') \<and> bw_reqs w' = bw_reqs w
     \<and> bk_cache sh \<subseteq>\<^sub>m bk_cache sh'
     \<and> (if holds_lock (bw_pc w) \<or> \<not> bk_locked sh then bk_locked sh' = holds_lock (bw_pc w')
        else bk_locked sh' \<and> \<not> holds_lock (bw_pc w'))
     \<and> (holds_lock (bw_pc w) \<or> bk_cache sh' = bk_cache sh \<and> bk_pending sh' = bk_pending sh)"

lemmas step_unfold = b_step_def Let_def bk_unlock_def bk_record_hits_def add_thread_hits_def
  add_thread_misses_def

lemma b_step_spec:
  assumes step: "b_step C clock sh w = (sh', w')"
    and up: "unique_pending (bc_text C) sh"
    and ok: "b_pc_ok (bc_text C) sh (bw_reqs w) (bw_pc w)"
    and lock: "holds_lock (bw_pc w) \<Longrightarrow> bk_locked sh"
  shows "step_spec (bc_text C) sh w sh' w'"
proof (cases "bw_pc w")
  case B_Start
  with step up show ?thesis
    by (cases "bw_reqs w = []") (auto simp: step_spec_def step_unfold readings answered_def)
next
  case (B_Fast rest results)
  show ?thesis
  proof (cases rest)
    case Nil
    with B_Fast step up ok show ?thesis
      by (auto simp: step_spec_def step_unfold readings unique_pending_def)
  next
    case (Cons req reqs)
    with B_Fast step up ok show ?thesis
      by (auto simp: step_spec_def step_unfold intro: readings split: read_result.splits)
  qed
next
  case (B_Count rest hits misses)
  with step up show ?thesis
    by (cases rest) (auto simp: step_spec_def step_unfold split: if_splits)
next
  case B_Lock
  with step up show ?thesis
    by (auto simp: step_spec_def step_unfold unique_pending_def split: if_splits)
next
  case B_Turn
  then obtain pc where turn: "slow_turn C clock (bw_reqs w) sh = (sh', pc)" "w' = w\<lparr>bw_pc := pc\<rparr>"
    using step by (auto simp: b_step_def Let_def split: prod.splits)
  note e = enqueue_spec [OF up, of "bw_reqs w"]
  from turn(1) up show ?thesis
  proof (cases rule: slow_turn_cases)
    case waiting
    with turn B_Turn e show ?thesis by (auto simp: step_spec_def unique_pending_def bk_unlock_def)
  next
    case (failed err)
    with turn B_Turn show ?thesis by (auto simp: step_spec_def unique_pending_def)
  next
    case (fetched kvs)
    have keys: "fst ` set kvs = cache_key (bc_text C) ` set (bk_pending (enqueue (bc_text C) (bw_reqs w) sh))"
      using fetched(5) by (metis list.set_map)
    have "distinct (map fst kvs)" using e(1) fetched(5) by (simp add: unique_pending_def)
    moreover have "\<forall>k \<in> fst ` set kvs. bk_cache sh' k = None"
      using e(1,2) fetched(2) keys by (auto simp: unique_pending_def)
    moreover have "\<forall>req \<in> set (bw_reqs w). bk_cache sh' (cache_key (bc_text C) req) \<noteq> None
        \<or> cache_key (bc_text C) req \<in> fst ` set kvs"
      using e(4) unfolding keys fetched(2) .
    ultimately show ?thesis using fetched turn B_Turn lock by (auto simp: step_spec_def unique_pending_def)
  qed
next
  case (B_Insert kvs)
  show ?thesis
  proof (cases kvs)
    case Nil
    with B_Insert step up ok lock show ?thesis
      by (auto simp: step_spec_def step_unfold intro: readings)
  next
    case (Cons kv rest)
    obtain k v where "kv = (k, v)" by fastforce
    with Cons B_Insert step up ok lock show ?thesis
      by (auto simp: step_spec_def step_unfold unique_pending_def map_le_def dom_def image_iff)
  qed
next
  case (B_Collect rest results)
  show ?thesis
  proof (cases rest)
    case Nil
    with B_Collect step up ok show ?thesis
      by (auto simp: step_spec_def step_unfold unique_pending_def readings)
  next
    case (Cons req reqs)
    with B_Collect step up ok lock show ?thesis
      by (auto simp: step_spec_def step_unfold unique_pending_def intro: readings split: read_result.splits)
  qed
next
  case B_Wait
  with step up show ?thesis
    by (auto simp: step_spec_def step_unfold unique_pending_def intro: readings split: if_splits)
next
  case (B_Check rest results)
  show ?thesis
  proof (cases rest)
    case Nil
    with B_Check step up ok show ?thesis
      by (auto simp: step_spec_def step_unfold unique_pending_def readings)
  next
    case (Cons req reqs)
    with B_Check step up ok lock show ?thesis
      by (auto simp: step_spec_def step_unfold unique_pending_def intro: readings split: read_result.splits)
  qed
next
  case (B_Done r)
  with step up ok show ?thesis by (auto simp: step_spec_def step_unfold)
qed

subsection \<open>Every interleaving\<close>

text \<open>
  The state of all threads: each is where its answers are the cache's, the mutex is held exactly
  when some thread is inside it, and never by two.
\<close>

definition b_inv :: "backend_cfg \<Rightarrow> backend \<times> b_worker list \<Rightarrow> bool" where
  "b_inv C st \<longleftrightarrow>
     (case st of (sh, ws) \<Rightarrow>
        unique_pending (bc_text C) sh
        \<and> (\<forall>i < length ws. b_pc_ok (bc_text C) sh (bw_reqs (ws ! i)) (bw_pc (ws ! i)))
        \<and> (bk_locked sh \<longleftrightarrow> (\<exists>i < length ws. holds_lock (bw_pc (ws ! i))))
        \<and> (\<forall>i < length ws. \<forall>j < length ws.
             holds_lock (bw_pc (ws ! i)) \<longrightarrow> holds_lock (bw_pc (ws ! j)) \<longrightarrow> i = j))"

lemma b_inv_step:
  assumes inv: "b_inv C (sh, ws)" and i: "i < length ws" and step: "b_step C clock sh (ws ! i) = (sh', w')"
  shows "b_inv C (sh', ws[i := w']) \<and> bk_cache sh \<subseteq>\<^sub>m bk_cache sh' \<and> bw_reqs w' = bw_reqs (ws ! i)"
proof -
  let ?T = "bc_text C" and ?H = "\<lambda>w. holds_lock (bw_pc w)"
  from inv have parts: "unique_pending ?T sh"
    "\<And>j. j < length ws \<Longrightarrow> b_pc_ok ?T sh (bw_reqs (ws ! j)) (bw_pc (ws ! j))"
    "bk_locked sh \<longleftrightarrow> (\<exists>j < length ws. ?H (ws ! j))"
    "\<And>j k. j < length ws \<Longrightarrow> k < length ws \<Longrightarrow> ?H (ws ! j) \<Longrightarrow> ?H (ws ! k) \<Longrightarrow> j = k"
    by (auto simp: b_inv_def)
  have "step_spec ?T sh (ws ! i) sh' w'"
    using b_step_spec [OF step parts(1) parts(2) [OF i]] parts(3) i by blast
  then have s: "unique_pending ?T sh'" "b_pc_ok ?T sh' (bw_reqs w') (bw_pc w')" "bw_reqs w' = bw_reqs (ws ! i)"
    "bk_cache sh \<subseteq>\<^sub>m bk_cache sh'"
    "?H (ws ! i) \<or> \<not> bk_locked sh \<Longrightarrow> bk_locked sh' = ?H w'"
    "\<not> ?H (ws ! i) \<Longrightarrow> bk_locked sh \<Longrightarrow> bk_locked sh' \<and> \<not> ?H w'"
    "?H (ws ! i) \<or> bk_cache sh' = bk_cache sh \<and> bk_pending sh' = bk_pending sh"
    unfolding step_spec_def by (auto split: if_splits)
  have others: "?H (ws ! j) \<Longrightarrow> \<not> ?H (ws ! i)" if "j < length ws" "j \<noteq> i" for j
    using parts(4) [OF that(1) i] that(2) by blast
  have "b_pc_ok ?T sh' (bw_reqs (ws ! j)) (bw_pc (ws ! j))" if "j < length ws" "j \<noteq> i" for j
    using other_pc_ok [OF parts(2) [OF that(1)] s(4)] others [OF that] s(7) by blast
  then have "\<forall>j < length (ws[i := w']). b_pc_ok ?T sh' (bw_reqs (ws[i := w'] ! j)) (bw_pc (ws[i := w'] ! j))"
    using s(2) i by (auto simp: nth_list_update)
  moreover have "bk_locked sh' \<longleftrightarrow> (\<exists>j < length (ws[i := w']). ?H (ws[i := w'] ! j))"
  proof (cases "?H (ws ! i) \<or> \<not> bk_locked sh")
    case True
    then have none: "\<not> ?H (ws ! j)" if "j < length ws" "j \<noteq> i" for j
      using others [OF that] parts(3) that(1) by blast
    have "(\<exists>j < length (ws[i := w']). ?H (ws[i := w'] ! j)) \<longleftrightarrow> ?H w'"
      using none i by (auto simp: nth_list_update)
    with s(5) [OF True] show ?thesis by simp
  next
    case False
    then obtain j where "j < length ws" "?H (ws ! j)" "j \<noteq> i" using parts(3) by auto
    then have "\<exists>j < length (ws[i := w']). ?H (ws[i := w'] ! j)" by (auto intro: exI [of _ j])
    with s(6) False show ?thesis by simp
  qed
  moreover have "\<forall>j < length (ws[i := w']). \<forall>k < length (ws[i := w']).
      ?H (ws[i := w'] ! j) \<longrightarrow> ?H (ws[i := w'] ! k) \<longrightarrow> j = k"
  proof -
    have "\<not> ?H (ws ! j)" if "?H w'" "j < length ws" "j \<noteq> i" for j
      using s(6) that(1) others [OF that(2,3)] parts(3) that(2) by blast
    then show ?thesis using parts(4) i by (simp add: nth_list_update) blast
  qed
  ultimately show ?thesis using s by (simp add: b_inv_def)
qed

lemma b_inv_start: "b_inv C (bk_new cache, map b_thread reqss)"
  by (auto simp: b_inv_def bk_new_def b_thread_def unique_pending_def)

lemma b_inv_reach:
  assumes "pool_reach (b_step C) st0 st" and "b_inv C st0"
  shows "b_inv C st \<and> bk_cache (fst st0) \<subseteq>\<^sub>m bk_cache (fst st) \<and> map bw_reqs (snd st) = map bw_reqs (snd st0)"
  using assms
proof (induction rule: pool_reach.induct)
  case (reach_step sh ws i clock sh' w')
  then have IH: "b_inv C (sh, ws)" "bk_cache (fst st0) \<subseteq>\<^sub>m bk_cache sh" "map bw_reqs ws = map bw_reqs (snd st0)"
    by simp_all
  note s = b_inv_step [OF IH(1) reach_step.hyps(2,3)]
  have "map bw_reqs (ws[i := w']) = map bw_reqs ws" using s by (simp add: map_update list_update_same_conv reach_step.hyps(2))
  with s IH show ?case by (auto intro: map_le_trans)
qed simp

text \<open>
  C10: all threads see one consistent chain. In every state any number of threads reaches in any
  order of steps: nothing that was in the cache has changed; a thread whose fetch has succeeded holds,
  for each of its requests, the parsed entry the cache has for it now, so that two threads
  asking the same request, at any times, are given the same answer; at most one thread is
  inside the mutex; and no request is queued twice or queued although it is cached, so nothing
  is fetched again.
\<close>

theorem fetches_are_consistent:
  assumes "pool_reach (b_step C) (bk_new cache, map b_thread reqss) (sh, ws)"
  defines "T \<equiv> bc_text C"
  shows "cache \<subseteq>\<^sub>m bk_cache sh
     \<and> (\<forall>i < length reqss. \<forall>results. bw_pc (ws ! i) = B_Done (Inr results) \<longrightarrow>
          list_all2 (\<lambda>req r. \<exists>v. bk_cache sh (cache_key T req) = Some v \<and> parse_response T req v = Inr r)
            (reqss ! i) results)
     \<and> (\<forall>i < length ws. \<forall>j < length ws.
          holds_lock (bw_pc (ws ! i)) \<and> holds_lock (bw_pc (ws ! j)) \<longrightarrow> i = j)
     \<and> distinct (map (cache_key T) (bk_pending sh))
     \<and> (\<forall>req \<in> set (bk_pending sh). bk_cache sh (cache_key T req) = None)"
proof -
  have inv: "b_inv C (sh, ws)" "cache \<subseteq>\<^sub>m bk_cache sh" "map bw_reqs ws = map bw_reqs (map b_thread reqss)"
    using b_inv_reach [OF assms(1) b_inv_start] by (simp_all add: bk_new_def)
  then have reqs: "map bw_reqs ws = reqss" by (simp add: b_thread_def comp_def)
  have "list_all2 (\<lambda>req r. \<exists>v. bk_cache sh (cache_key T req) = Some v \<and> parse_response T req v = Inr r)
      (reqss ! i) results"
    if "i < length reqss" "bw_pc (ws ! i) = B_Done (Inr results)" for i results
  proof -
    have "answered T (bk_cache sh) (reqss ! i) results"
      using inv(1) that reqs by (auto simp: b_inv_def T_def)
    then show ?thesis unfolding answered_def
      by (rule list_all2_mono) (auto simp: read_cache_def split: option.splits sum.splits)
  qed
  with inv show ?thesis by (auto simp: b_inv_def unique_pending_def T_def)
qed

definition demo_backend_cfg :: backend_cfg where
  "demo_backend_cfg =
     \<lparr>bc_text = demo_rpc_text, bc_url = ''u'', bc_retries = 0, bc_batch_size = 1,
      bc_post = (\<lambda>_ _ _. Inr (J_Arr [J_Obj [(''id'', J_Num (Num_Pos 0)), (''result'', J_Str ''0xabc'')]]))\<rparr>"

definition demo_request :: request where
  "demo_request = Get_Nonce 1 17 2"

lemma demo_dispatch:
  "dispatch_batch demo_rpc_text ''u'' 0 (\<lambda>_. bc_post demo_backend_cfg n p 0) [demo_request]
   = (Inr [(cache_key demo_rpc_text demo_request, J_Str ''0xabc'')], 1)"
  by (simp add: dispatch_batch_def dispatch_from.simps deduplicate_requests_def demo_backend_cfg_def
      parse_batch_response_def response_item_def demo_request_def)

lemma demo_reads:
  "read_cache demo_rpc_text Map.empty demo_request = Read_Missing"
  "read_cache demo_rpc_text [cache_key demo_rpc_text demo_request \<mapsto> J_Str ''0xabc''] demo_request
   = Read_Hit (R_Nonce 3)"
  by (simp_all add: read_cache_def demo_request_def demo_rpc_text_def parse_str_def opt_err_def
      strip_0x_def strip_prefix_def starts_with_def)

lemma demo_turn:
  "slow_turn demo_backend_cfg False [demo_request] ((bk_new Map.empty)\<lparr>bk_locked := True\<rparr>)
   = ((bk_new Map.empty)\<lparr>bk_locked := True, bk_misses := 1, bk_sent := 1\<rparr>,
      B_Insert [(cache_key demo_rpc_text demo_request, J_Str ''0xabc'')])"
  using demo_dispatch
  by (simp add: slow_turn_def enqueue_def execute_batch_def Let_def bk_new_def bk_record_hits_def
      demo_backend_cfg_def deduplicate_requests_def)

lemma demo_fetch:
  "\<exists>sh w. pool_reach (b_step demo_backend_cfg) (bk_new Map.empty, map b_thread [[demo_request]]) (sh, [w])
     \<and> bw_pc w = B_Done (Inr [R_Nonce 3])"
proof -
  let ?R = "pool_reach (b_step demo_backend_cfg) (bk_new Map.empty, map b_thread [[demo_request]])"
  let ?w = "\<lambda>pc. \<lparr>bw_pc = pc, bw_reqs = [demo_request], bw_hits = 0, bw_misses = 0\<rparr>"
  let ?v = "\<lambda>pc. (?w pc)\<lparr>bw_misses := 1\<rparr>"
  let ?kv = "(cache_key demo_rpc_text demo_request, J_Str ''0xabc'')"
  have T: "bc_text demo_backend_cfg = demo_rpc_text" by (simp add: demo_backend_cfg_def)
  have "?R (bk_new Map.empty, [?w B_Start])"
    using reach_start [of "b_step demo_backend_cfg" "(bk_new Map.empty, map b_thread [[demo_request]])"]
    by (simp add: b_thread_def)
  then have "?R (bk_new Map.empty, [?w (B_Fast [demo_request] [])])"
    by (rule reach_single [of _ _ _ _ False]) (simp add: step_unfold)
  then have "?R (bk_new Map.empty, [?w (B_Count [demo_request] 0 0)])"
    by (rule reach_single [of _ _ _ _ False]) (simp add: step_unfold T demo_reads bk_new_def)
  then have "?R (bk_new Map.empty, [?w (B_Count [] 0 1)])"
    by (rule reach_single [of _ _ _ _ False]) (simp add: step_unfold bk_new_def)
  then have "?R (bk_new Map.empty, [?v B_Lock])"
    by (rule reach_single [of _ _ _ _ False]) (simp add: step_unfold sat_add_def)
  then have "?R ((bk_new Map.empty)\<lparr>bk_locked := True\<rparr>, [?v B_Turn])"
    by (rule reach_single [of _ _ _ _ False]) (simp add: step_unfold bk_new_def)
  then have "?R ((bk_new Map.empty)\<lparr>bk_locked := True, bk_misses := 1, bk_sent := 1\<rparr>, [?v (B_Insert [?kv])])"
    by (rule reach_single [of _ _ _ _ False]) (simp add: b_step_def Let_def demo_turn)
  then have "?R ((bk_new [fst ?kv \<mapsto> snd ?kv])\<lparr>bk_locked := True, bk_misses := 1, bk_sent := 1\<rparr>, [?v (B_Insert [])])"
    by (rule reach_single [of _ _ _ _ False]) (simp add: step_unfold bk_new_def)
  then have "?R ((bk_new [fst ?kv \<mapsto> snd ?kv])\<lparr>bk_locked := True, bk_misses := 1, bk_sent := 1\<rparr>,
      [?v (B_Collect [demo_request] [])])"
    by (rule reach_single [of _ _ _ _ False]) (simp add: step_unfold)
  then have "?R ((bk_new [fst ?kv \<mapsto> snd ?kv])\<lparr>bk_locked := True, bk_misses := 1, bk_sent := 1\<rparr>,
      [?v (B_Collect [] [R_Nonce 3])])"
    by (rule reach_single [of _ _ _ _ False]) (simp add: step_unfold T demo_reads bk_new_def)
  then have "?R ((bk_new [fst ?kv \<mapsto> snd ?kv])\<lparr>bk_locked := False, bk_misses := 1, bk_sent := 1\<rparr>,
      [?v (B_Done (Inr [R_Nonce 3]))])"
    by (rule reach_single [of _ _ _ _ False]) (simp add: step_unfold bk_new_def)
  then show ?thesis by (intro exI conjI, assumption) simp
qed

theorem fetches_are_consistent_witness:
  "\<exists>cache v. cache (cache_key demo_rpc_text demo_request) = Some v
     \<and> parse_response demo_rpc_text demo_request v = Inr (R_Nonce 3)"
proof -
  obtain sh w where r: "pool_reach (b_step demo_backend_cfg) (bk_new Map.empty, map b_thread [[demo_request]]) (sh, [w])"
    "bw_pc w = B_Done (Inr [R_Nonce 3])" using demo_fetch by blast
  from fetches_are_consistent [OF r(1)] r(2) show ?thesis
    by (auto simp: demo_backend_cfg_def)
qed

text \<open>
  An unusable response is never fetched again. Responses are cached before they are parsed: once
  the entry of a request does not parse, no fetch that contains the request can succeed any more, in
  no interleaving, however often it is repeated.
\<close>

theorem invalid_entry_is_final:
  assumes "pool_reach (b_step C) (bk_new cache, map b_thread reqss) (sh, ws)"
    and "bk_cache sh (cache_key (bc_text C) req) = Some v" and "parse_response (bc_text C) req v = Inl e"
    and "pool_reach (b_step C) (sh, ws) (sh', ws')"
    and "i < length reqss" and "req \<in> set (reqss ! i)"
  shows "bw_pc (ws' ! i) \<noteq> B_Done (Inr results)"
proof
  assume fetched: "bw_pc (ws' ! i) = B_Done (Inr results)"
  have inv: "b_inv C (sh, ws)" "map bw_reqs ws = map bw_reqs (map b_thread reqss)"
    using b_inv_reach [OF assms(1) b_inv_start] by simp_all
  have inv': "b_inv C (sh', ws')" "bk_cache sh \<subseteq>\<^sub>m bk_cache sh'" "map bw_reqs ws' = reqss"
    using b_inv_reach [OF assms(4) inv(1)] inv(2) by (simp_all add: b_thread_def comp_def)
  have "answered (bc_text C) (bk_cache sh') (reqss ! i) results"
    using inv'(1,3) assms(5) fetched by (auto simp: b_inv_def)
  then obtain r where "read_cache (bc_text C) (bk_cache sh') req = Read_Hit r"
    using assms(6) unfolding answered_def by (auto simp: list_all2_conv_all_nth in_set_conv_nth)
  moreover have "bk_cache sh' (cache_key (bc_text C) req) = Some v"
    using inv'(2) assms(2) by (metis domI map_le_def)
  ultimately show False using assms(3) by (simp add: read_cache_def)
qed

theorem invalid_entry_is_final_witness:
  "\<forall>n results. bw_pc (snd (run_schedule (b_step demo_backend_cfg) (replicate n (0, True))
      (bk_new [cache_key demo_rpc_text demo_request \<mapsto> J_Null], [b_thread [demo_request]])) ! 0)
   \<noteq> B_Done (Inr results)"
proof (intro allI)
  fix n results
  let ?st = "(bk_new [cache_key demo_rpc_text demo_request \<mapsto> J_Null], map b_thread [[demo_request]])"
  obtain sh' ws' where run: "run_schedule (b_step demo_backend_cfg) (replicate n (0, True)) ?st = (sh', ws')"
    by fastforce
  have T: "bc_text demo_backend_cfg = demo_rpc_text" by (simp add: demo_backend_cfg_def)
  have cached: "bk_cache (fst ?st) (cache_key (bc_text demo_backend_cfg) demo_request) = Some J_Null"
    by (simp add: bk_new_def T)
  have invalid: "parse_response (bc_text demo_backend_cfg) demo_request J_Null
      = Inl \<lparr>ae_message = ''expected hex string for nonce'', ae_root = Root_Other\<rparr>"
    by (simp add: demo_request_def parse_str_def opt_err_def)
  have reach: "pool_reach (b_step demo_backend_cfg) ?st (sh', ws')"
    using run_schedule_from [of "b_step demo_backend_cfg" ?st "replicate n (0, True)"] unfolding run .
  have "bw_pc (ws' ! 0) \<noteq> B_Done (Inr results)"
    by (rule invalid_entry_is_final [OF reach_start cached [unfolded fst_conv] invalid reach]) simp_all
  with run show "bw_pc (snd (run_schedule (b_step demo_backend_cfg) (replicate n (0, True))
      (bk_new [cache_key demo_rpc_text demo_request \<mapsto> J_Null], [b_thread [demo_request]])) ! 0)
   \<noteq> B_Done (Inr results)" by simp
qed

end
