(* ===== verification/Chain_Specs.thy ===== *)
theory Chain_Specs
  imports Prelude
begin

section \<open>Hard forks of the forked chains\<close>

text \<open>
  \<open>evm/specs\<close>: the execution spec of a forked block. The activation tables of Ethereum and of the
  Optimism family come from crates (\<open>EthereumHardfork::from_chain_and_timestamp\<close> and its
  Optimism counterpart): they are parameters. The two mappings to specs and the schedule of the
  Flare networks are the repository's.
\<close>

datatype spec_id =
    FRONTIER | FRONTIER_THAWING | HOMESTEAD | DAO_FORK | TANGERINE | SPURIOUS_DRAGON | BYZANTIUM
  | CONSTANTINOPLE | PETERSBURG | ISTANBUL | MUIR_GLACIER | BERLIN | LONDON | ARROW_GLACIER
  | GRAY_GLACIER | MERGE | SHANGHAI | CANCUN | PRAGUE | OSAKA | AMSTERDAM

datatype eth_hardfork =
    Eth_Frontier | Eth_Homestead | Eth_Dao | Eth_Tangerine | Eth_SpuriousDragon | Eth_Byzantium
  | Eth_Constantinople | Eth_Petersburg | Eth_Istanbul | Eth_MuirGlacier | Eth_Berlin | Eth_London
  | Eth_ArrowGlacier | Eth_GrayGlacier | Eth_Paris | Eth_Shanghai | Eth_Cancun | Eth_Prague
  | Eth_Osaka | Eth_Bpo1 | Eth_Bpo2 | Eth_Bpo3 | Eth_Bpo4 | Eth_Bpo5 | Eth_Amsterdam | Eth_Other

datatype op_hardfork =
    Op_Bedrock | Op_Regolith | Op_Canyon | Op_Ecotone | Op_Fjord | Op_Granite | Op_Holocene
  | Op_Isthmus | Op_Jovian | Op_Karst | Op_Interop | Op_Other

fun spec_id_from_ethereum_hardfork :: "eth_hardfork \<Rightarrow> spec_id" where
  "spec_id_from_ethereum_hardfork Eth_Frontier = FRONTIER"
| "spec_id_from_ethereum_hardfork Eth_Homestead = HOMESTEAD"
| "spec_id_from_ethereum_hardfork Eth_Dao = DAO_FORK"
| "spec_id_from_ethereum_hardfork Eth_Tangerine = TANGERINE"
| "spec_id_from_ethereum_hardfork Eth_SpuriousDragon = SPURIOUS_DRAGON"
| "spec_id_from_ethereum_hardfork Eth_Byzantium = BYZANTIUM"
| "spec_id_from_ethereum_hardfork Eth_Constantinople = CONSTANTINOPLE"
| "spec_id_from_ethereum_hardfork Eth_Petersburg = PETERSBURG"
| "spec_id_from_ethereum_hardfork Eth_Istanbul = ISTANBUL"
| "spec_id_from_ethereum_hardfork Eth_MuirGlacier = MUIR_GLACIER"
| "spec_id_from_ethereum_hardfork Eth_Berlin = BERLIN"
| "spec_id_from_ethereum_hardfork Eth_London = LONDON"
| "spec_id_from_ethereum_hardfork Eth_ArrowGlacier = ARROW_GLACIER"
| "spec_id_from_ethereum_hardfork Eth_GrayGlacier = GRAY_GLACIER"
| "spec_id_from_ethereum_hardfork Eth_Paris = MERGE"
| "spec_id_from_ethereum_hardfork Eth_Shanghai = SHANGHAI"
| "spec_id_from_ethereum_hardfork Eth_Cancun = CANCUN"
| "spec_id_from_ethereum_hardfork Eth_Prague = PRAGUE"
| "spec_id_from_ethereum_hardfork Eth_Osaka = OSAKA"
| "spec_id_from_ethereum_hardfork Eth_Amsterdam = AMSTERDAM"
| "spec_id_from_ethereum_hardfork Eth_Bpo1 = AMSTERDAM"
| "spec_id_from_ethereum_hardfork Eth_Bpo2 = AMSTERDAM"
| "spec_id_from_ethereum_hardfork Eth_Bpo3 = AMSTERDAM"
| "spec_id_from_ethereum_hardfork Eth_Bpo4 = AMSTERDAM"
| "spec_id_from_ethereum_hardfork Eth_Bpo5 = AMSTERDAM"
| "spec_id_from_ethereum_hardfork Eth_Other = AMSTERDAM"

fun spec_id_from_op_hardfork :: "op_hardfork \<Rightarrow> spec_id" where
  "spec_id_from_op_hardfork Op_Bedrock = MERGE"
| "spec_id_from_op_hardfork Op_Regolith = MERGE"
| "spec_id_from_op_hardfork Op_Canyon = SHANGHAI"
| "spec_id_from_op_hardfork Op_Ecotone = CANCUN"
| "spec_id_from_op_hardfork Op_Fjord = CANCUN"
| "spec_id_from_op_hardfork Op_Granite = CANCUN"
| "spec_id_from_op_hardfork Op_Holocene = CANCUN"
| "spec_id_from_op_hardfork Op_Isthmus = PRAGUE"
| "spec_id_from_op_hardfork Op_Jovian = PRAGUE"
| "spec_id_from_op_hardfork Op_Karst = OSAKA"
| "spec_id_from_op_hardfork Op_Interop = OSAKA"
| "spec_id_from_op_hardfork Op_Other = AMSTERDAM"

text \<open>Chain id, time of Shanghai, time of Cancun.\<close>

definition ACTIVATIONS :: "(u64 \<times> u64 \<times> u64) list" where
  "ACTIVATIONS =
     [(14, 1754395200, 1764676800), (19, 1753185600, 1764072000),
      (114, 1750766400, 1763042400), (16, 1751371200, 1763028000)]"

definition flare_spec_id :: "u64 \<Rightarrow> u64 \<Rightarrow> spec_id option" where
  "flare_spec_id chain_id timestamp =
     (case find (\<lambda>(i, _, _). i = chain_id) ACTIVATIONS of
        None \<Rightarrow> None
      | Some (_, shanghai, cancun) \<Rightarrow>
          Some (if timestamp < shanghai then LONDON
                else if timestamp < cancun then SHANGHAI else CANCUN))"

record hardfork_tables =
  ht_ethereum :: "u64 \<Rightarrow> u64 \<Rightarrow> eth_hardfork option"
  ht_optimism :: "u64 \<Rightarrow> u64 \<Rightarrow> op_hardfork option"

definition get_spec_id :: "hardfork_tables \<Rightarrow> u64 \<Rightarrow> u64 \<Rightarrow> spec_id" where
  "get_spec_id HT chain_id timestamp =
     (case map_option spec_id_from_ethereum_hardfork (ht_ethereum HT chain_id timestamp) of
        Some s \<Rightarrow> s
      | None \<Rightarrow>
          (case map_option spec_id_from_op_hardfork (ht_optimism HT chain_id timestamp) of
             Some s \<Rightarrow> s
           | None \<Rightarrow>
               (case flare_spec_id chain_id timestamp of Some s \<Rightarrow> s | None \<Rightarrow> AMSTERDAM)))"

subsection \<open>Specs only move forward\<close>

text \<open>The order of activation, as the declarations list the forks.\<close>

fun spec_rank :: "spec_id \<Rightarrow> nat" where
  "spec_rank FRONTIER = 0" | "spec_rank FRONTIER_THAWING = 1" | "spec_rank HOMESTEAD = 2"
| "spec_rank DAO_FORK = 3" | "spec_rank TANGERINE = 4" | "spec_rank SPURIOUS_DRAGON = 5"
| "spec_rank BYZANTIUM = 6" | "spec_rank CONSTANTINOPLE = 7" | "spec_rank PETERSBURG = 8"
| "spec_rank ISTANBUL = 9" | "spec_rank MUIR_GLACIER = 10" | "spec_rank BERLIN = 11"
| "spec_rank LONDON = 12" | "spec_rank ARROW_GLACIER = 13" | "spec_rank GRAY_GLACIER = 14"
| "spec_rank MERGE = 15" | "spec_rank SHANGHAI = 16" | "spec_rank CANCUN = 17"
| "spec_rank PRAGUE = 18" | "spec_rank OSAKA = 19" | "spec_rank AMSTERDAM = 20"

instantiation spec_id :: linorder
begin

definition less_eq_spec_id :: "spec_id \<Rightarrow> spec_id \<Rightarrow> bool" where
  "less_eq_spec_id a b \<longleftrightarrow> spec_rank a \<le> spec_rank b"

definition less_spec_id :: "spec_id \<Rightarrow> spec_id \<Rightarrow> bool" where
  "less_spec_id a b \<longleftrightarrow> spec_rank a < spec_rank b"

instance
proof
  have inj: "spec_rank a = spec_rank b \<Longrightarrow> a = b" for a b :: spec_id
    by (cases a; cases b) simp_all
  show "x \<le> y \<Longrightarrow> y \<le> x \<Longrightarrow> x = y" for x y :: spec_id
    using inj by (simp add: less_eq_spec_id_def)
qed (auto simp: less_eq_spec_id_def less_spec_id_def)

end

fun eth_rank :: "eth_hardfork \<Rightarrow> nat" where
  "eth_rank Eth_Frontier = 0" | "eth_rank Eth_Homestead = 1" | "eth_rank Eth_Dao = 2"
| "eth_rank Eth_Tangerine = 3" | "eth_rank Eth_SpuriousDragon = 4" | "eth_rank Eth_Byzantium = 5"
| "eth_rank Eth_Constantinople = 6" | "eth_rank Eth_Petersburg = 7" | "eth_rank Eth_Istanbul = 8"
| "eth_rank Eth_MuirGlacier = 9" | "eth_rank Eth_Berlin = 10" | "eth_rank Eth_London = 11"
| "eth_rank Eth_ArrowGlacier = 12" | "eth_rank Eth_GrayGlacier = 13" | "eth_rank Eth_Paris = 14"
| "eth_rank Eth_Shanghai = 15" | "eth_rank Eth_Cancun = 16" | "eth_rank Eth_Prague = 17"
| "eth_rank Eth_Osaka = 18" | "eth_rank Eth_Bpo1 = 19" | "eth_rank Eth_Bpo2 = 20"
| "eth_rank Eth_Bpo3 = 21" | "eth_rank Eth_Bpo4 = 22" | "eth_rank Eth_Bpo5 = 23"
| "eth_rank Eth_Amsterdam = 24" | "eth_rank Eth_Other = 25"

lemma eth_spec_rank:
  "spec_rank (spec_id_from_ethereum_hardfork h) =
     (if eth_rank h = 0 then 0 else min (eth_rank h + 1) 20)"
  by (cases h) simp_all

text \<open>
  A later block never runs on an earlier spec. On a Flare network the spec is monotone in the
  timestamp and one of London, Shanghai and Cancun; the mapping of Ethereum forks is monotone in
  the order of activation, and every fork after Osaka, the blob-parameter forks too, is
  Amsterdam.
\<close>

theorem specs_move_forward:
  "(t \<le> t' \<and> flare_spec_id c t = Some s \<longrightarrow>
      (\<exists>s'. flare_spec_id c t' = Some s' \<and> s \<le> s' \<and> s \<in> {LONDON, SHANGHAI, CANCUN}))
   \<and> (eth_rank h \<le> eth_rank h' \<longrightarrow>
        spec_id_from_ethereum_hardfork h \<le> spec_id_from_ethereum_hardfork h')
   \<and> (eth_rank Eth_Osaka < eth_rank h \<longrightarrow> spec_id_from_ethereum_hardfork h = AMSTERDAM)"
proof (intro conjI impI)
  assume a: "t \<le> t' \<and> flare_spec_id c t = Some s"
  then obtain i shanghai cancun where row: "find (\<lambda>(i, _, _). i = c) ACTIVATIONS = Some (i, shanghai, cancun)"
    by (auto simp: flare_spec_id_def split: option.splits)
  then have "shanghai \<le> cancun" by (auto simp: ACTIVATIONS_def word_le_nat_alt split: if_splits)
  with a row show "\<exists>s'. flare_spec_id c t' = Some s' \<and> s \<le> s' \<and> s \<in> {LONDON, SHANGHAI, CANCUN}"
    by (auto simp: flare_spec_id_def less_eq_spec_id_def split: if_splits)
next
  assume "eth_rank h \<le> eth_rank h'"
  then show "spec_id_from_ethereum_hardfork h \<le> spec_id_from_ethereum_hardfork h'"
    unfolding less_eq_spec_id_def eth_spec_rank by auto
next
  assume "eth_rank Eth_Osaka < eth_rank h"
  then show "spec_id_from_ethereum_hardfork h = AMSTERDAM" by (cases h) simp_all
qed

theorem specs_move_forward_witness:
  "flare_spec_id 14 1754395199 = Some LONDON \<and> flare_spec_id 14 1764676800 = Some CANCUN
   \<and> LONDON \<le> CANCUN"
proof -
  have "flare_spec_id 14 1754395199 = Some LONDON" "flare_spec_id 14 1764676800 = Some CANCUN"
    by (simp_all add: flare_spec_id_def ACTIVATIONS_def)
  with specs_move_forward [of 1754395199 1764676800 14 LONDON Eth_Osaka Eth_Osaka] show ?thesis
    by (simp add: word_le_nat_alt)
qed

end
