(* ===== verification/Fork_Db.thy ===== *)
theory Fork_Db
  imports Fork_Rpc
begin

section \<open>The read-only database of one fork\<close>

text \<open>
  \<open>evm/forkdb/db.rs\<close>, \<open>local_registry.rs\<close> and \<open>inspector.rs\<close>: reading accounts, code, storage and block
  hashes of a forked block. The registry is one set of addresses shared by all its clones. The
  backend is behind \<open>fetch\<close>, a state transformer on the world \<open>'w\<close> that holds every shared
  backend (\<open>Fork_Backend\<close> models what it does under interleaving). Bytecode is the type \<open>'c\<close> of
  the EVM crate: \<open>bt_new_raw\<close> is \<open>None\<close> where \<open>Bytecode::new_raw\<close> panics.
\<close>

type_synonym registry = "address set"

definition mark_local :: "address \<Rightarrow> registry \<Rightarrow> registry" where
  "mark_local a R = insert a R"

definition is_local :: "registry \<Rightarrow> address \<Rightarrow> bool" where
  "is_local R a \<longleftrightarrow> a \<in> R"

record 'c bytecode_ops =
  bt_new_raw :: "bytes \<Rightarrow> 'c option"
  bt_default :: 'c
  bt_hash :: "'c \<Rightarrow> u256"

definition KECCAK_EMPTY :: u256 where
  "KECCAK_EMPTY = 0xc5d2460186f7233c927e7db2dcc703c0e500b653ca82273b7bfad8045d85a470"

record 'c account_info =
  ai_balance :: u256
  ai_nonce :: u64
  ai_code_hash :: u256
  ai_code :: "'c option"

datatype db_error = Db_Rpc rpc_error | Db_Select | Db_Panic

record 'b fork_db =
  fd_backend :: 'b
  fd_block :: u64
  fd_chain :: u64

type_synonym ('b, 'w) fetch = "'b \<Rightarrow> request list \<Rightarrow> 'w \<Rightarrow> (rpc_error + response list) \<times> 'w"

subsection \<open>Accounts\<close>

text \<open>The fields of \<open>basic_ref\<close>'s batch by variant: a second one of a kind, or another kind, is an error.\<close>

fun basic_fields ::
  "response list \<Rightarrow> u256 option \<Rightarrow> u64 option \<Rightarrow> bytes option \<Rightarrow>
   rpc_error + u256 option \<times> u64 option \<times> bytes option" where
  "basic_fields [] balance nonce code = Inr (balance, nonce, code)"
| "basic_fields (R_Balance v # rs) balance nonce code =
     (if balance \<noteq> None then Inl Unexpected_Response else basic_fields rs (Some v) nonce code)"
| "basic_fields (R_Nonce v # rs) balance nonce code =
     (if nonce \<noteq> None then Inl Unexpected_Response else basic_fields rs balance (Some v) code)"
| "basic_fields (R_Code v # rs) balance nonce code =
     (if code \<noteq> None then Inl Unexpected_Response else basic_fields rs balance nonce (Some v))"
| "basic_fields (_ # rs) balance nonce code = Inl Unexpected_Response"

definition parse_basic_responses ::
  "'c bytecode_ops \<Rightarrow> response list \<Rightarrow> db_error + 'c account_info option" where
  "parse_basic_responses B responses =
     (case basic_fields responses None None None of
        Inl e \<Rightarrow> Inl (Db_Rpc e)
      | Inr (Some balance, Some nonce, Some code) \<Rightarrow>
          (case (if code = [] then Some (bt_default B) else bt_new_raw B code) of
             None \<Rightarrow> Inl Db_Panic
           | Some bytecode \<Rightarrow>
               Inr (Some \<lparr>ai_balance = balance, ai_nonce = nonce, ai_code_hash = bt_hash B bytecode,
                          ai_code = Some bytecode\<rparr>))
      | Inr _ \<Rightarrow> Inl (Db_Rpc Unexpected_Response))"

definition basic_ref ::
  "'c bytecode_ops \<Rightarrow> ('b, 'w) fetch \<Rightarrow> registry \<Rightarrow> 'b fork_db \<Rightarrow> address \<Rightarrow> 'w \<Rightarrow>
   (db_error + 'c account_info option) \<times> 'w" where
  "basic_ref B fetch R db a w =
     (if is_local R a then (Inr None, w)
      else case fetch (fd_backend db)
             [Get_Balance (fd_chain db) a (fd_block db), Get_Nonce (fd_chain db) a (fd_block db),
              Get_Code (fd_chain db) a (fd_block db)] w of
             (Inl e, w') \<Rightarrow> (Inl (Db_Rpc e), w')
           | (Inr responses, w') \<Rightarrow> (parse_basic_responses B responses, w'))"

definition code_by_hash_ref :: "'c bytecode_ops \<Rightarrow> u256 \<Rightarrow> db_error + 'c" where
  "code_by_hash_ref B code_hash =
     (if code_hash = KECCAK_EMPTY \<or> code_hash = 0 then Inr (bt_default B) else Inl (Db_Rpc Missing_Account))"

definition pop_response :: "response list \<Rightarrow> (response \<Rightarrow> 'a option) \<Rightarrow> db_error + 'a" where
  "pop_response responses field =
     (if responses = [] then Inl (Db_Rpc Unexpected_Response)
      else case field (last responses) of
             None \<Rightarrow> Inl (Db_Rpc Unexpected_Response)
           | Some v \<Rightarrow> Inr v)"

definition storage_ref ::
  "('b, 'w) fetch \<Rightarrow> registry \<Rightarrow> 'b fork_db \<Rightarrow> address \<Rightarrow> u256 \<Rightarrow> 'w \<Rightarrow> (db_error + u256) \<times> 'w" where
  "storage_ref fetch R db a index w =
     (if is_local R a then (Inr 0, w)
      else case fetch (fd_backend db) [Get_Storage (fd_chain db) a index (fd_block db)] w of
             (Inl e, w') \<Rightarrow> (Inl (Db_Rpc e), w')
           | (Inr responses, w') \<Rightarrow>
               (pop_response responses (\<lambda>r. case r of R_Storage v \<Rightarrow> Some v | _ \<Rightarrow> None), w'))"

definition block_hash_ref ::
  "('b, 'w) fetch \<Rightarrow> 'b fork_db \<Rightarrow> u64 \<Rightarrow> 'w \<Rightarrow> (db_error + u256) \<times> 'w" where
  "block_hash_ref fetch db number w =
     (case fetch (fd_backend db) [Get_Block (fd_chain db) number] w of
        (Inl e, w') \<Rightarrow> (Inl (Db_Rpc e), w')
      | (Inr responses, w') \<Rightarrow>
          (pop_response responses (\<lambda>r. case r of R_Block b \<Rightarrow> bh_hash b | _ \<Rightarrow> None), w'))"

subsection \<open>Tracking created addresses\<close>

text \<open>
  \<open>LocalTracker::mark_from_inputs\<close>: the journal's nonce of the caller, zero without an account,
  determines the address that is created; \<open>created_address\<close> is the EVM crate's.
\<close>

definition mark_from_inputs ::
  "('i \<Rightarrow> u64 \<Rightarrow> address) \<Rightarrow> (address \<Rightarrow> u64 option) \<Rightarrow> ('i \<Rightarrow> address) \<Rightarrow> 'i \<Rightarrow> registry \<Rightarrow> registry" where
  "mark_from_inputs created_address journal_nonce caller inputs R =
     (let nonce = (case journal_nonce (caller inputs) of Some n \<Rightarrow> n | None \<Rightarrow> 0)
      in mark_local (created_address inputs nonce) R)"

subsection \<open>Properties\<close>

lemma add_mset_mset_eq: "add_mset x (mset rs) = N \<longleftrightarrow> x \<in># N \<and> mset rs = N - {#x#}"
  by auto

text \<open>What is still expected of the batch, as a multiset.\<close>

definition expected_fields :: "u256 option \<Rightarrow> u64 option \<Rightarrow> bytes option \<Rightarrow> u256 \<Rightarrow> u64 \<Rightarrow> bytes \<Rightarrow> response multiset" where
  "expected_fields balance nonce code b n c =
     (if balance = None then {#R_Balance b#} else {#}) + (if nonce = None then {#R_Nonce n#} else {#})
     + (if code = None then {#R_Code c#} else {#})"

lemma basic_fields_Inr:
  "basic_fields rs balance nonce code = Inr (Some b, Some n, Some c) \<longleftrightarrow>
     mset rs = expected_fields balance nonce code b n c
     \<and> (balance = None \<or> balance = Some b) \<and> (nonce = None \<or> nonce = Some n) \<and> (code = None \<or> code = Some c)"
  by (induction rs balance nonce code rule: basic_fields.induct)
     (auto simp: expected_fields_def add_mset_mset_eq split: if_splits)

lemma parse_basic_Inr:
  "parse_basic_responses B responses = Inr info \<longleftrightarrow>
     (\<exists>b n c code. mset responses = {#R_Balance b, R_Nonce n, R_Code c#}
        \<and> (if c = [] then Some (bt_default B) else bt_new_raw B c) = Some code
        \<and> info = Some \<lparr>ai_balance = b, ai_nonce = n, ai_code_hash = bt_hash B code, ai_code = Some code\<rparr>)"
proof -
  have "parse_basic_responses B responses = Inr info \<longleftrightarrow>
     (\<exists>b n c code. basic_fields responses None None None = Inr (Some b, Some n, Some c)
        \<and> (if c = [] then Some (bt_default B) else bt_new_raw B c) = Some code
        \<and> info = Some \<lparr>ai_balance = b, ai_nonce = n, ai_code_hash = bt_hash B code, ai_code = Some code\<rparr>)"
    unfolding parse_basic_responses_def by (auto split: sum.splits option.splits)
  moreover have "expected_fields None None None b n c = {#R_Balance b, R_Nonce n, R_Code c#}" for b n c
    by (simp add: expected_fields_def add_mset_commute)
  ultimately show ?thesis by (simp only: basic_fields_Inr simp_thms)
qed

text \<open>
  An account is built from exactly its three answers, in any order. \<open>basic_ref\<close> of an address that is
  not local gives an account exactly when the batch is one balance, one nonce and one code,
  whatever their order; anything missing, doubled or of another kind is an error. For a local
  address neither an account nor a storage slot is ever fetched: the world is unchanged, the account
  is absent and the slot is zero.
\<close>

theorem accounts_from_three_answers:
  "(is_local R a \<longrightarrow> basic_ref B fetch R db a w = (Inr None, w) \<and> storage_ref fetch R db a k w = (Inr 0, w))
   \<and> (\<not> is_local R a \<longrightarrow>
        (fst (basic_ref B fetch R db a w) = Inr info \<longleftrightarrow>
           (\<exists>responses b n c code.
              fst (fetch (fd_backend db)
                [Get_Balance (fd_chain db) a (fd_block db), Get_Nonce (fd_chain db) a (fd_block db),
                 Get_Code (fd_chain db) a (fd_block db)] w) = Inr responses
              \<and> mset responses = {#R_Balance b, R_Nonce n, R_Code c#}
              \<and> (if c = [] then Some (bt_default B) else bt_new_raw B c) = Some code
              \<and> info = Some \<lparr>ai_balance = b, ai_nonce = n, ai_code_hash = bt_hash B code, ai_code = Some code\<rparr>)))"
proof (intro conjI impI)
  assume "is_local R a"
  then show "basic_ref B fetch R db a w = (Inr None, w)" "storage_ref fetch R db a k w = (Inr 0, w)"
    by (simp_all add: basic_ref_def storage_ref_def)
next
  assume "\<not> is_local R a"
  then show "fst (basic_ref B fetch R db a w) = Inr info \<longleftrightarrow>
           (\<exists>responses b n c code.
              fst (fetch (fd_backend db)
                [Get_Balance (fd_chain db) a (fd_block db), Get_Nonce (fd_chain db) a (fd_block db),
                 Get_Code (fd_chain db) a (fd_block db)] w) = Inr responses
              \<and> mset responses = {#R_Balance b, R_Nonce n, R_Code c#}
              \<and> (if c = [] then Some (bt_default B) else bt_new_raw B c) = Some code
              \<and> info = Some \<lparr>ai_balance = b, ai_nonce = n, ai_code_hash = bt_hash B code, ai_code = Some code\<rparr>)"
    by (cases "fetch (fd_backend db)
          [Get_Balance (fd_chain db) a (fd_block db), Get_Nonce (fd_chain db) a (fd_block db),
           Get_Code (fd_chain db) a (fd_block db)] w" rule: prod.exhaust)
       (auto simp: basic_ref_def parse_basic_Inr split: sum.splits)
qed

definition demo_bytecode :: "bytes bytecode_ops" where
  "demo_bytecode = \<lparr>bt_new_raw = Some, bt_default = [], bt_hash = (\<lambda>c. of_nat (length c))\<rparr>"

theorem accounts_from_three_answers_witness:
  "fst (basic_ref demo_bytecode (\<lambda>_ _ w. (Inr [R_Code [1], R_Balance 5, R_Nonce 2], w)) {7}
      \<lparr>fd_backend = (), fd_block = 1, fd_chain = 1\<rparr> 9 ())
     = Inr (Some \<lparr>ai_balance = 5, ai_nonce = 2, ai_code_hash = 1, ai_code = Some [1]\<rparr>)
   \<and> basic_ref demo_bytecode (\<lambda>_ _ w. (Inr [], w)) {7} \<lparr>fd_backend = (), fd_block = 1, fd_chain = 1\<rparr> 7 ()
     = (Inr None, ())"
proof -
  let ?fetch = "\<lambda>_ _ w. (Inr [R_Code [1], R_Balance 5, R_Nonce 2], w)"
  let ?db = "\<lparr>fd_backend = (), fd_block = 1, fd_chain = 1\<rparr> :: unit fork_db"
  have "fst (basic_ref demo_bytecode ?fetch {7} ?db 9 ()) =
      Inr (Some \<lparr>ai_balance = 5, ai_nonce = 2, ai_code_hash = 1, ai_code = Some [1]\<rparr>)"
    using accounts_from_three_answers [of "{7}" 9 demo_bytecode ?fetch ?db "()" 0
        "Some \<lparr>ai_balance = 5, ai_nonce = 2, ai_code_hash = 1, ai_code = Some [1]\<rparr>"]
    by (auto simp: is_local_def demo_bytecode_def)
  moreover have "basic_ref demo_bytecode (\<lambda>_ _ w. (Inr [], w)) {7} ?db 7 () = (Inr None, ())"
    using accounts_from_three_answers [of "{7}" 7 demo_bytecode "\<lambda>_ _ w. (Inr [], w)" ?db "()"]
    by (simp add: is_local_def)
  ultimately show ?thesis by blast
qed

end
