(* ===== verification/Fork_Database.thy ===== *)
theory Fork_Database
  imports Fork_Db Chain_Specs Chain "HOL-Library.AList"
begin

section \<open>The database with several forks\<close>

text \<open>
  \<open>evm/database.rs\<close>: a database that is empty or holds several forks, one of them active, each
  with its own overlay. The overlay (\<open>CacheDB\<close> of the EVM crate, over the fork database and over
  the empty database) is a record of its operations; \<open>cache_ok\<close> states what its documentation
  says of them. A shared backend is a handle, its state is in the world \<open>'w\<close>; the registry of
  local addresses is one shared set, an argument.
\<close>

record fork_config =
  fg_url :: string
  fg_retries :: u32
  fg_backoff_ms :: u64
  fg_timeout_ms :: u64
  fg_batch_size :: nat
  fg_batch_timeout_ms :: u64
  fg_rate_limit :: "u64 option"
  fg_cache_dir :: "string option"
  fg_block_number :: u64

definition fork_config_new :: "nat option \<Rightarrow> string \<Rightarrow> fork_config" where
  "fork_config_new parallelism url =
     \<lparr>fg_url = url, fg_retries = 3, fg_backoff_ms = 100, fg_timeout_ms = 30000,
      fg_batch_size = (case parallelism of Some n \<Rightarrow> n | None \<Rightarrow> 1), fg_batch_timeout_ms = 50,
      fg_rate_limit = None, fg_cache_dir = None, fg_block_number = 1\<rparr>"

record fork_key =
  fk_url_hash :: u64
  fk_block :: u64

record fork_env =
  fe_chain_id :: u64
  fe_block_number :: u64
  fe_timestamp :: u256
  fe_beneficiary :: address
  fe_difficulty :: u256
  fe_prevrandao :: "u256 option"
  fe_excess_blob_gas :: "u64 option"
  fe_block_hash :: "u256 option"
  fe_spec_id :: spec_id

definition VM_ADDRESS :: address where
  "VM_ADDRESS = 0x628dC59F11F72B611132eC40437F125ba1312F08"

subsection \<open>Overlays\<close>

record ('cdb, 'c, 'ch, 'w) cache_ops =
  co_accounts :: "'cdb \<Rightarrow> (address \<times> 'c account_info \<times> (u256 \<times> u256) list) list"
  co_insert_info :: "address \<Rightarrow> 'c account_info \<Rightarrow> 'cdb \<Rightarrow> 'cdb"
  co_insert_storage :: "address \<Rightarrow> u256 \<Rightarrow> u256 \<Rightarrow> 'cdb \<Rightarrow> 'w \<Rightarrow> (db_error + unit) \<times> 'cdb \<times> 'w"
  co_basic :: "address \<Rightarrow> 'cdb \<Rightarrow> 'w \<Rightarrow> (db_error + 'c account_info option) \<times> 'cdb \<times> 'w"
  co_code :: "u256 \<Rightarrow> 'cdb \<Rightarrow> 'w \<Rightarrow> (db_error + 'c) \<times> 'cdb \<times> 'w"
  co_storage :: "address \<Rightarrow> u256 \<Rightarrow> 'cdb \<Rightarrow> 'w \<Rightarrow> (db_error + u256) \<times> 'cdb \<times> 'w"
  co_block_hash :: "u64 \<Rightarrow> 'cdb \<Rightarrow> 'w \<Rightarrow> (db_error + u256) \<times> 'cdb \<times> 'w"
  co_commit :: "'ch \<Rightarrow> 'cdb \<Rightarrow> 'cdb"
  co_set_block_hash :: "u256 \<Rightarrow> u256 \<Rightarrow> 'cdb \<Rightarrow> 'cdb"

record ('edb, 'cdb, 'b, 't, 'c, 'ch, 'w) fork_ops =
  fo_text :: rpc_text
  fo_fetch :: "('b, 'w) fetch"
  fo_backend_new :: "fork_config \<Rightarrow> 't option \<Rightarrow> 'w \<Rightarrow> 'b \<times> 'w"
  fo_specs :: hardfork_tables
  fo_empty :: "('edb, 'c, 'ch, 'w) cache_ops"
  fo_cache :: "('cdb, 'c, 'ch, 'w) cache_ops"
  fo_overlay :: "'b fork_db \<Rightarrow> 'cdb"

record ('cdb, 'b) multi_fork =
  mdb_active :: fork_key
  mdb_forks :: "fork_key \<Rightarrow> ('cdb \<times> fork_env) option"
  mdb_backends :: "u64 \<Rightarrow> 'b option"

datatype ('edb, 'cdb, 'b) database = Empty_Db 'edb | Multi_Db "('cdb, 'b) multi_fork"

type_synonym 'c persistent_account = "address \<times> 'c account_info \<times> (u256 \<times> u256) list"

definition is_persistent :: "registry \<Rightarrow> address \<Rightarrow> bool" where
  "is_persistent R a \<longleftrightarrow> a = DEFAULT_DEPLOYER \<or> a = VM_ADDRESS \<or> is_local R a"

definition collect_cached_accounts :: "('edb, 'c, 'ch, 'w) cache_ops \<Rightarrow> 'edb \<Rightarrow> 'c persistent_account list" where
  "collect_cached_accounts CO db = co_accounts CO db"

definition active_db :: "('cdb, 'b) multi_fork \<Rightarrow> db_error + 'cdb" where
  "active_db m = (case mdb_forks m (mdb_active m) of None \<Rightarrow> Inl Db_Select | Some (db, env) \<Rightarrow> Inr db)"

definition set_active_db :: "'cdb \<Rightarrow> ('cdb, 'b) multi_fork \<Rightarrow> ('cdb, 'b) multi_fork" where
  "set_active_db db m =
     (case mdb_forks m (mdb_active m) of
        None \<Rightarrow> m
      | Some (_, env) \<Rightarrow> m\<lparr>mdb_forks := (mdb_forks m)(mdb_active m \<mapsto> (db, env))\<rparr>)"

definition collect_persistent_from_active ::
  "('cdb, 'c, 'ch, 'w) cache_ops \<Rightarrow> registry \<Rightarrow> ('cdb, 'b) multi_fork \<Rightarrow> db_error + 'c persistent_account list" where
  "collect_persistent_from_active CO R m =
     map_sum id (\<lambda>db. filter (\<lambda>(a, _). is_persistent R a) (co_accounts CO db)) (active_db m)"

text \<open>Errors of \<open>insert_account_storage\<close> are ignored.\<close>

fun apply_storage ::
  "('cdb, 'c, 'ch, 'w) cache_ops \<Rightarrow> address \<Rightarrow> (u256 \<times> u256) list \<Rightarrow> 'cdb \<Rightarrow> 'w \<Rightarrow> 'cdb \<times> 'w" where
  "apply_storage CO a [] db w = (db, w)"
| "apply_storage CO a ((slot, value) # rest) db w =
     (case co_insert_storage CO a slot value db w of (_, db', w') \<Rightarrow> apply_storage CO a rest db' w')"

fun apply_persistent ::
  "('cdb, 'c, 'ch, 'w) cache_ops \<Rightarrow> 'c persistent_account list \<Rightarrow> 'cdb \<Rightarrow> 'w \<Rightarrow> 'cdb \<times> 'w" where
  "apply_persistent CO [] db w = (db, w)"
| "apply_persistent CO ((a, info, storage) # rest) db w =
     (case apply_storage CO a storage (co_insert_info CO a info db) w of
        (db', w') \<Rightarrow> apply_persistent CO rest db' w')"

subsection \<open>Creating a fork\<close>

definition last_response :: "response list \<Rightarrow> (response \<Rightarrow> 'a option) \<Rightarrow> 'a option" where
  "last_response rs field = (if rs = [] then None else field (last rs))"

text \<open>\<open>build_fork_slot\<close>: the chain id, then the header of the pinned block, give the environment.\<close>

definition build_fork_slot ::
  "('edb, 'cdb, 'b, 't, 'c, 'ch, 'w) fork_ops \<Rightarrow> 'b \<Rightarrow> fork_config \<Rightarrow> 'w \<Rightarrow>
   (db_error + 'cdb \<times> fork_env) \<times> 'w" where
  "build_fork_slot FO backend config w =
     (let block_number = fg_block_number config
      in case fo_fetch FO backend [Get_Chain_Id (url_hash (fo_text FO) (fg_url config))] w of
           (Inl e, w1) \<Rightarrow> (Inl (Db_Rpc e), w1)
         | (Inr responses, w1) \<Rightarrow>
             (case last_response responses (\<lambda>r. case r of R_Chain_Id v \<Rightarrow> Some v | _ \<Rightarrow> None) of
                None \<Rightarrow> (Inl Db_Select, w1)
              | Some chain_id \<Rightarrow>
                  (case fo_fetch FO backend [Get_Block chain_id block_number] w1 of
                     (Inl e, w2) \<Rightarrow> (Inl (Db_Rpc e), w2)
                   | (Inr responses', w2) \<Rightarrow>
                       (case last_response responses' (\<lambda>r. case r of R_Block b \<Rightarrow> Some b | _ \<Rightarrow> None) of
                          None \<Rightarrow> (Inl Db_Select, w2)
                        | Some block \<Rightarrow>
                            if bh_number block \<noteq> block_number then (Inl Db_Select, w2)
                            else
                              let db = fo_overlay FO \<lparr>fd_backend = backend, fd_block = block_number,
                                                      fd_chain = chain_id\<rparr>;
                                  db1 = (case bh_hash block of
                                           Some hash \<Rightarrow> co_set_block_hash (fo_cache FO) (ucast (bh_number block)) hash db
                                         | None \<Rightarrow> db);
                                  db2 = co_insert_info (fo_cache FO) (bh_coinbase block)
                                          \<lparr>ai_balance = - 1, ai_nonce = 0, ai_code_hash = KECCAK_EMPTY,
                                           ai_code = None\<rparr> db1
                              in (Inr (db2,
                                    \<lparr>fe_chain_id = chain_id, fe_block_number = block_number,
                                     fe_timestamp = ucast (bh_timestamp block), fe_beneficiary = bh_coinbase block,
                                     fe_difficulty = bh_difficulty block, fe_prevrandao = bh_prevrandao block,
                                     fe_excess_blob_gas = bh_excess_blob_gas block,
                                     fe_block_hash = bh_hash block,
                                     fe_spec_id = get_spec_id (fo_specs FO) chain_id (bh_timestamp block)\<rparr>), w2)))))"

text \<open>A backend made for a new endpoint stays when the fork cannot be built.\<close>

definition create_fork ::
  "('edb, 'cdb, 'b, 't, 'c, 'ch, 'w) fork_ops \<Rightarrow> fork_key \<Rightarrow> fork_config \<Rightarrow> 't option \<Rightarrow>
   'c persistent_account list \<Rightarrow> ('cdb, 'b) multi_fork \<Rightarrow> 'w \<Rightarrow>
   (db_error + unit) \<times> ('cdb, 'b) multi_fork \<times> 'w" where
  "create_fork FO key config transport persistent m w =
     (let (backend, w1) = (case mdb_backends m (fk_url_hash key) of
                             Some b \<Rightarrow> (b, w)
                           | None \<Rightarrow> fo_backend_new FO config transport w);
          m1 = m\<lparr>mdb_backends := (mdb_backends m)(fk_url_hash key \<mapsto> backend)\<rparr>
      in case build_fork_slot FO backend config w1 of
           (Inl e, w2) \<Rightarrow> (Inl e, m1, w2)
         | (Inr (db, env), w2) \<Rightarrow>
             let (db', w3) = apply_persistent (fo_cache FO) persistent db w2
             in (Inr (), m1\<lparr>mdb_forks := (mdb_forks m1)(key \<mapsto> (db', env)), mdb_active := key\<rparr>, w3))"

definition select_or_create ::
  "('edb, 'cdb, 'b, 't, 'c, 'ch, 'w) fork_ops \<Rightarrow> registry \<Rightarrow> fork_key \<Rightarrow> fork_config \<Rightarrow> 't option \<Rightarrow>
   ('cdb, 'b) multi_fork \<Rightarrow> 'w \<Rightarrow> (db_error + unit) \<times> ('cdb, 'b) multi_fork \<times> 'w" where
  "select_or_create FO R key config transport m w =
     (case collect_persistent_from_active (fo_cache FO) R m of
        Inl e \<Rightarrow> (Inl e, m, w)
      | Inr persistent \<Rightarrow>
          (case mdb_forks m key of
             Some (target, env) \<Rightarrow>
               let (target', w') = apply_persistent (fo_cache FO) persistent target w
               in (Inr (), m\<lparr>mdb_forks := (mdb_forks m)(key \<mapsto> (target', env)), mdb_active := key\<rparr>, w')
           | None \<Rightarrow> create_fork FO key config transport persistent m w))"

definition fork_key_of :: "('edb, 'cdb, 'b, 't, 'c, 'ch, 'w) fork_ops \<Rightarrow> string \<Rightarrow> u64 \<Rightarrow> fork_key" where
  "fork_key_of FO url block = \<lparr>fk_url_hash = url_hash (fo_text FO) url, fk_block = block\<rparr>"

fun is_active_fork ::
  "('edb, 'cdb, 'b, 't, 'c, 'ch, 'w) fork_ops \<Rightarrow> string \<Rightarrow> u64 \<Rightarrow> ('edb, 'cdb, 'b) database \<Rightarrow> bool" where
  "is_active_fork FO url block (Empty_Db _) = False"
| "is_active_fork FO url block (Multi_Db m) =
     (mdb_active m = fork_key_of FO url block \<and> mdb_forks m (fork_key_of FO url block) \<noteq> None)"

text \<open>\<open>Database::fork\<close>. Indexing a missing fork panics.\<close>

definition fork_env_of :: "('cdb, 'b) multi_fork \<Rightarrow> fork_key \<Rightarrow> db_error + fork_env" where
  "fork_env_of m key = (case mdb_forks m key of Some (_, env) \<Rightarrow> Inr env | None \<Rightarrow> Inl Db_Panic)"

fun database_fork ::
  "('edb, 'cdb, 'b, 't, 'c, 'ch, 'w) fork_ops \<Rightarrow> registry \<Rightarrow> string \<Rightarrow> u64 \<Rightarrow> fork_config \<Rightarrow> 't option \<Rightarrow>
   ('edb, 'cdb, 'b) database \<Rightarrow> 'w \<Rightarrow> (db_error + fork_env) \<times> ('edb, 'cdb, 'b) database \<times> 'w" where
  "database_fork FO R url block config0 transport (Multi_Db m) w =
     (let config = config0\<lparr>fg_url := url, fg_block_number := block\<rparr>;
          key = fork_key_of FO url block
      in if mdb_active m = key \<and> mdb_forks m key \<noteq> None then (fork_env_of m key, Multi_Db m, w)
         else case select_or_create FO R key config transport m w of
                (Inl e, m', w') \<Rightarrow> (Inl e, Multi_Db m', w')
              | (Inr _, m', w') \<Rightarrow> (fork_env_of m' (mdb_active m'), Multi_Db m', w'))"
| "database_fork FO R url block config0 transport (Empty_Db edb) w =
     (let config = config0\<lparr>fg_url := url, fg_block_number := block\<rparr>;
          key = fork_key_of FO url block;
          persistent = collect_cached_accounts (fo_empty FO) edb;
          m = \<lparr>mdb_active = key, mdb_forks = Map.empty, mdb_backends = Map.empty\<rparr>
      in case create_fork FO key config transport persistent m w of
           (Inl e, m', w') \<Rightarrow> (Inl e, Empty_Db edb, w')
         | (Inr _, m', w') \<Rightarrow> (fork_env_of m' key, Multi_Db m', w'))"


subsection \<open>Reading and writing through the active fork\<close>

text \<open>
  The methods of \<open>Database\<close> delegate to the overlay that is active. Without an active fork the
  writes of account infos and commits do nothing, the others are errors.
\<close>

fun database_insert_account_info ::
  "('edb, 'cdb, 'b, 't, 'c, 'ch, 'w) fork_ops \<Rightarrow> address \<Rightarrow> 'c account_info \<Rightarrow> ('edb, 'cdb, 'b) database \<Rightarrow>
   ('edb, 'cdb, 'b) database" where
  "database_insert_account_info FO a info (Empty_Db db) = Empty_Db (co_insert_info (fo_empty FO) a info db)"
| "database_insert_account_info FO a info (Multi_Db m) =
     (case active_db m of
        Inl _ \<Rightarrow> Multi_Db m
      | Inr db \<Rightarrow> Multi_Db (set_active_db (co_insert_info (fo_cache FO) a info db) m))"

fun database_commit ::
  "('edb, 'cdb, 'b, 't, 'c, 'ch, 'w) fork_ops \<Rightarrow> 'ch \<Rightarrow> ('edb, 'cdb, 'b) database \<Rightarrow> ('edb, 'cdb, 'b) database" where
  "database_commit FO changes (Empty_Db db) = Empty_Db (co_commit (fo_empty FO) changes db)"
| "database_commit FO changes (Multi_Db m) =
     (case active_db m of
        Inl _ \<Rightarrow> Multi_Db m
      | Inr db \<Rightarrow> Multi_Db (set_active_db (co_commit (fo_cache FO) changes db) m))"

text \<open>The fallible methods; a read may put what it fetched in the overlay.\<close>

fun on_active ::
  "('edb \<Rightarrow> 'w \<Rightarrow> (db_error + 'a) \<times> 'edb \<times> 'w) \<Rightarrow> ('cdb \<Rightarrow> 'w \<Rightarrow> (db_error + 'a) \<times> 'cdb \<times> 'w) \<Rightarrow>
   ('edb, 'cdb, 'b) database \<Rightarrow> 'w \<Rightarrow> (db_error + 'a) \<times> ('edb, 'cdb, 'b) database \<times> 'w" where
  "on_active on_empty on_fork (Empty_Db db) w =
     (case on_empty db w of (r, db', w') \<Rightarrow> (r, Empty_Db db', w'))"
| "on_active on_empty on_fork (Multi_Db m) w =
     (case active_db m of
        Inl e \<Rightarrow> (Inl e, Multi_Db m, w)
      | Inr db \<Rightarrow> (case on_fork db w of (r, db', w') \<Rightarrow> (r, Multi_Db (set_active_db db' m), w')))"

definition database_insert_account_storage ::
  "('edb, 'cdb, 'b, 't, 'c, 'ch, 'w) fork_ops \<Rightarrow> address \<Rightarrow> u256 \<Rightarrow> u256 \<Rightarrow> ('edb, 'cdb, 'b) database \<Rightarrow> 'w \<Rightarrow>
   (db_error + unit) \<times> ('edb, 'cdb, 'b) database \<times> 'w" where
  "database_insert_account_storage FO a slot value =
     on_active (co_insert_storage (fo_empty FO) a slot value) (co_insert_storage (fo_cache FO) a slot value)"

definition database_basic ::
  "('edb, 'cdb, 'b, 't, 'c, 'ch, 'w) fork_ops \<Rightarrow> address \<Rightarrow> ('edb, 'cdb, 'b) database \<Rightarrow> 'w \<Rightarrow>
   (db_error + 'c account_info option) \<times> ('edb, 'cdb, 'b) database \<times> 'w" where
  "database_basic FO a = on_active (co_basic (fo_empty FO) a) (co_basic (fo_cache FO) a)"

definition database_code_by_hash ::
  "('edb, 'cdb, 'b, 't, 'c, 'ch, 'w) fork_ops \<Rightarrow> u256 \<Rightarrow> ('edb, 'cdb, 'b) database \<Rightarrow> 'w \<Rightarrow>
   (db_error + 'c) \<times> ('edb, 'cdb, 'b) database \<times> 'w" where
  "database_code_by_hash FO h = on_active (co_code (fo_empty FO) h) (co_code (fo_cache FO) h)"

definition database_storage ::
  "('edb, 'cdb, 'b, 't, 'c, 'ch, 'w) fork_ops \<Rightarrow> address \<Rightarrow> u256 \<Rightarrow> ('edb, 'cdb, 'b) database \<Rightarrow> 'w \<Rightarrow>
   (db_error + u256) \<times> ('edb, 'cdb, 'b) database \<times> 'w" where
  "database_storage FO a slot = on_active (co_storage (fo_empty FO) a slot) (co_storage (fo_cache FO) a slot)"

definition database_block_hash ::
  "('edb, 'cdb, 'b, 't, 'c, 'ch, 'w) fork_ops \<Rightarrow> u64 \<Rightarrow> ('edb, 'cdb, 'b) database \<Rightarrow> 'w \<Rightarrow>
   (db_error + u256) \<times> ('edb, 'cdb, 'b) database \<times> 'w" where
  "database_block_hash FO n = on_active (co_block_hash (fo_empty FO) n) (co_block_hash (fo_cache FO) n)"

subsection \<open>What an overlay keeps\<close>

text \<open>
  The cached accounts of an overlay as a map, and the laws of \<open>CacheDB\<close> that the code relies on:
  accounts and slots are hash maps; \<open>insert_account_info\<close> replaces the info (whose code hash it
  may normalise) and keeps the slots; \<open>insert_account_storage\<close> on a cached account cannot fail and
  needs no fetch; a block hash is apart from the accounts.
\<close>

definition view ::
  "('cdb, 'c, 'ch, 'w) cache_ops \<Rightarrow> 'cdb \<Rightarrow> address \<Rightarrow> ('c account_info \<times> (u256 \<Rightarrow> u256 option)) option" where
  "view CO db a = map_option (\<lambda>(info, storage). (info, map_of storage)) (map_of (co_accounts CO db) a)"

definition cached_slots :: "('c account_info \<times> (u256 \<Rightarrow> u256 option)) option \<Rightarrow> u256 \<Rightarrow> u256 option" where
  "cached_slots v = (case v of None \<Rightarrow> Map.empty | Some (_, st) \<Rightarrow> st)"

definition cache_keys_ok :: "('cdb, 'c, 'ch, 'w) cache_ops \<Rightarrow> bool" where
  "cache_keys_ok CO \<longleftrightarrow>
     (\<forall>db. distinct (map fst (co_accounts CO db))
        \<and> (\<forall>p \<in> set (co_accounts CO db). distinct (map fst (snd (snd p)))))"

definition cache_ok :: "('c account_info \<Rightarrow> 'c account_info) \<Rightarrow> ('cdb, 'c, 'ch, 'w) cache_ops \<Rightarrow> bool" where
  "cache_ok norm CO \<longleftrightarrow>
     cache_keys_ok CO
     \<and> (\<forall>info. ai_balance (norm info) = ai_balance info \<and> ai_nonce (norm info) = ai_nonce info
                \<and> ai_code (norm info) = ai_code info)
     \<and> (\<forall>a info db. view CO (co_insert_info CO a info db)
                     = (view CO db)(a \<mapsto> (norm info, cached_slots (view CO db a))))
     \<and> (\<forall>a k v db w info st. view CO db a = Some (info, st) \<longrightarrow>
          (\<exists>db'. co_insert_storage CO a k v db w = (Inr (), db', w)
             \<and> view CO db' = (view CO db)(a \<mapsto> (info, st(k \<mapsto> v)))))
     \<and> (\<forall>n h db. view CO (co_set_block_hash CO n h db) = view CO db)"

lemma cache_norm:
  "cache_ok norm CO \<Longrightarrow> ai_balance (norm info) = ai_balance info"
  "cache_ok norm CO \<Longrightarrow> ai_nonce (norm info) = ai_nonce info"
  "cache_ok norm CO \<Longrightarrow> ai_code (norm info) = ai_code info"
  by (simp_all add: cache_ok_def)

lemma cache_insert_info:
  "cache_ok norm CO \<Longrightarrow>
   view CO (co_insert_info CO a info db) = (view CO db)(a \<mapsto> (norm info, cached_slots (view CO db a)))"
  by (simp add: cache_ok_def)

lemma cache_insert_storage:
  assumes "cache_ok norm CO" "view CO db a = Some (info, st)"
  obtains db' where "co_insert_storage CO a k v db w = (Inr (), db', w)"
    "view CO db' = (view CO db)(a \<mapsto> (info, st(k \<mapsto> v)))"
  using assms unfolding cache_ok_def by blast

lemma map_of_rev_distinct: "distinct (map fst xs) \<Longrightarrow> map_of (rev xs) = map_of xs"
proof (induction xs)
  case (Cons x xs)
  then have "fst x \<notin> dom (map_of xs)" by (simp add: dom_map_of_conv_image_fst)
  then have "map_of [x] ++ map_of xs = map_of xs ++ map_of [x]"
    by (intro map_add_comm) (cases x, simp)
  with Cons show ?case by (cases x) simp
qed simp

lemma apply_storage_view:
  assumes "cache_ok norm CO"
  shows "view CO db a = Some (info, st) \<Longrightarrow>
    \<exists>db'. apply_storage CO a storage db w = (db', w)
      \<and> view CO db' = (view CO db)(a \<mapsto> (info, st ++ map_of (rev storage)))"
proof (induction storage arbitrary: db st)
  case Nil
  then show ?case by auto
next
  case (Cons p storage)
  obtain k v where p: "p = (k, v)" by (cases p)
  obtain db1 where db1: "co_insert_storage CO a k v db w = (Inr (), db1, w)"
    "view CO db1 = (view CO db)(a \<mapsto> (info, st(k \<mapsto> v)))"
    using cache_insert_storage [OF assms Cons.prems] .
  then have "view CO db1 a = Some (info, st(k \<mapsto> v))" by simp
  from Cons.IH [OF this] obtain db2 where db2: "apply_storage CO a storage db1 w = (db2, w)"
    "view CO db2 = (view CO db1)(a \<mapsto> (info, st(k \<mapsto> v) ++ map_of (rev storage)))"
    by blast
  have st: "st(k \<mapsto> v) ++ map_of (rev storage) = st ++ map_of (rev (p # storage))"
    by (rule ext) (simp add: p map_add_def split: option.split)
  have "apply_storage CO a (p # storage) db w = (db2, w)" by (simp add: p db1(1) db2(1))
  moreover have "view CO db2 = (view CO db)(a \<mapsto> (info, st ++ map_of (rev (p # storage))))"
    by (simp only: db2(2) db1(2) st fun_upd_upd)
  ultimately show ?case by blast
qed

text \<open>What an account becomes under the accounts that are copied.\<close>

definition carried ::
  "('c account_info \<Rightarrow> 'c account_info) \<Rightarrow> 'c persistent_account list \<Rightarrow> address \<Rightarrow>
   ('c account_info \<times> (u256 \<Rightarrow> u256 option)) option \<Rightarrow> ('c account_info \<times> (u256 \<Rightarrow> u256 option)) option" where
  "carried norm ps a v =
     (case map_of ps a of
        None \<Rightarrow> v
      | Some (info, storage) \<Rightarrow> Some (norm info, cached_slots v ++ map_of storage))"

lemma apply_persistent_view:
  assumes "cache_ok norm CO"
  shows "distinct (map fst ps) \<Longrightarrow> \<forall>p \<in> set ps. distinct (map fst (snd (snd p))) \<Longrightarrow>
    \<exists>db'. apply_persistent CO ps db w = (db', w)
      \<and> (\<forall>a. view CO db' a = carried norm ps a (view CO db a))"
proof (induction ps arbitrary: db)
  case Nil
  then show ?case by (simp add: carried_def)
next
  case (Cons p ps)
  obtain b info storage where p: "p = (b, info, storage)" by (cases p) auto
  let ?db1 = "co_insert_info CO b info db"
  have view1: "view CO ?db1 = (view CO db)(b \<mapsto> (norm info, cached_slots (view CO db b)))"
    by (rule cache_insert_info [OF assms])
  obtain db2 where db2: "apply_storage CO b storage ?db1 w = (db2, w)"
    "view CO db2 = (view CO ?db1)(b \<mapsto> (norm info, cached_slots (view CO db b) ++ map_of (rev storage)))"
    using apply_storage_view [OF assms, of ?db1 b "norm info" "cached_slots (view CO db b)"] view1 by auto
  obtain db3 where db3: "apply_persistent CO ps db2 w = (db3, w)"
    "\<forall>a. view CO db3 a = carried norm ps a (view CO db2 a)"
    using Cons.IH [of db2] Cons.prems by auto
  have "b \<notin> fst ` set ps" "distinct (map fst storage)" using Cons.prems by (auto simp: p)
  then have "map_of ps b = None" "map_of (rev storage) = map_of storage"
    by (simp_all add: map_of_eq_None_iff map_of_rev_distinct)
  then have "\<forall>a. carried norm ps a (view CO db2 a) = carried norm (p # ps) a (view CO db a)"
    by (simp add: carried_def p db2 view1)
  then show ?case using db2 db3 by (simp add: p)
qed


lemma collect_persistent_filter:
  assumes "collect_persistent_from_active CO R m = Inr ps"
  obtains db where "active_db m = Inr db" "ps = filter (\<lambda>(a, _). is_persistent R a) (co_accounts CO db)"
  using assms by (auto simp: collect_persistent_from_active_def map_sum_def split: sum.splits)

lemma collect_persistent_keys:
  assumes "cache_ok norm CO" "collect_persistent_from_active CO R m = Inr ps"
  shows "distinct (map fst ps)" "\<forall>p \<in> set ps. distinct (map fst (snd (snd p)))"
proof -
  obtain db where ps: "ps = filter (\<lambda>(a, _). is_persistent R a) (co_accounts CO db)"
    using collect_persistent_filter [OF assms(2)] by blast
  have keys: "distinct (map fst (co_accounts CO db))"
    "\<forall>p \<in> set (co_accounts CO db). distinct (map fst (snd (snd p)))"
    using assms(1) by (simp_all add: cache_ok_def cache_keys_ok_def)
  show "distinct (map fst ps)" unfolding ps by (rule distinct_map_filter [OF keys(1)])
  show "\<forall>p \<in> set ps. distinct (map fst (snd (snd p)))" using keys(2) unfolding ps by simp
qed

lemma map_of_filter_fst:
  "map_of (filter (\<lambda>(a, _). P a) xs) a = (if P a then map_of xs a else None)"
  by (induction xs) auto

lemma collect_persistent_lookup:
  assumes "collect_persistent_from_active CO R m = Inr ps" "active_db m = Inr db"
  shows "map_of ps a = (if is_persistent R a then map_of (co_accounts CO db) a else None)"
proof -
  obtain db' where "active_db m = Inr db'" and ps: "ps = filter (\<lambda>(a, _). is_persistent R a) (co_accounts CO db')"
    using collect_persistent_filter [OF assms(1)] .
  then have "db' = db" using assms(2) by simp
  then show ?thesis unfolding ps by (simp only: map_of_filter_fst)
qed

lemma carried_view:
  "map_of ps a = map_of (co_accounts CO db) a \<Longrightarrow>
   carried norm ps a v =
     (case view CO db a of None \<Rightarrow> v | Some (info, st) \<Rightarrow> Some (norm info, cached_slots v ++ st))"
  by (cases "map_of (co_accounts CO db) a") (simp_all add: carried_def view_def split_beta)

subsection \<open>Properties\<close>

text \<open>The overlay of a fork, and what a successful creation leaves.\<close>

lemma create_fork_Inr:
  assumes "cache_ok norm (fo_cache FO)" "distinct (map fst ps)" "\<forall>p \<in> set ps. distinct (map fst (snd (snd p)))"
    and "create_fork FO key config transport ps m w = (Inr u, m', w')"
  obtains db0 db env backend w1 where
    "build_fork_slot FO backend config w1 = (Inr (db0, env), w')"
    "mdb_active m' = key" "mdb_forks m' = (mdb_forks m)(key \<mapsto> (db, env))"
    "\<forall>a. view (fo_cache FO) db a = carried norm ps a (view (fo_cache FO) db0 a)"
proof -
  obtain backend w1 where bk: "(case mdb_backends m (fk_url_hash key) of Some b \<Rightarrow> (b, w)
      | None \<Rightarrow> fo_backend_new FO config transport w) = (backend, w1)"
    by fastforce
  obtain r w2 where slot: "build_fork_slot FO backend config w1 = (r, w2)" by fastforce
  obtain db0 env where r: "r = Inr (db0, env)"
    using assms(4) bk slot by (cases r) (auto simp: create_fork_def Let_def)
  obtain db where db: "apply_persistent (fo_cache FO) ps db0 w2 = (db, w2)"
    "\<forall>a. view (fo_cache FO) db a = carried norm ps a (view (fo_cache FO) db0 a)"
    using apply_persistent_view [OF assms(1-3)] by blast
  have "m' = m\<lparr>mdb_backends := (mdb_backends m)(fk_url_hash key \<mapsto> backend),
      mdb_forks := (mdb_forks m)(key \<mapsto> (db, env)), mdb_active := key\<rparr>" "w' = w2"
    using assms(4) bk slot r db(1) by (auto simp: create_fork_def Let_def)
  then show ?thesis using that slot r db(2) by simp
qed

lemma create_fork_Inl:
  "create_fork FO key config transport ps m w = (Inl e, m', w') \<Longrightarrow>
   mdb_active m' = mdb_active m \<and> mdb_forks m' = mdb_forks m
   \<and> (\<forall>h b. mdb_backends m h = Some b \<longrightarrow> mdb_backends m' h = Some b)"
  by (auto simp: create_fork_def Let_def split: prod.splits sum.splits option.splits)


lemma carried_persistent:
  assumes "collect_persistent_from_active CO R m = Inr ps" "active_db m = Inr db"
  shows "carried norm ps a v =
     (if is_persistent R a
      then case view CO db a of None \<Rightarrow> v | Some (info, st) \<Rightarrow> Some (norm info, cached_slots v ++ st)
      else v)"
  using collect_persistent_lookup [OF assms, of a]
  by (simp add: carried_view) (simp add: carried_def)

lemma select_or_create_Inr:
  assumes "cache_ok norm (fo_cache FO)" "select_or_create FO R key config transport m w = (Inr u, m', w')"
    and "active_db m = Inr old"
  obtains db0 db env where
    "mdb_active m' = key" "mdb_forks m' = (mdb_forks m)(key \<mapsto> (db, env))"
    "\<forall>target env0. mdb_forks m key = Some (target, env0) \<longrightarrow> db0 = target \<and> env = env0 \<and> w' = w"
    "\<forall>a. view (fo_cache FO) db a =
       (if is_persistent R a
        then case view (fo_cache FO) old a of None \<Rightarrow> view (fo_cache FO) db0 a
             | Some (info, st) \<Rightarrow> Some (norm info, cached_slots (view (fo_cache FO) db0 a) ++ st)
        else view (fo_cache FO) db0 a)"
proof -
  obtain ps where ps: "collect_persistent_from_active (fo_cache FO) R m = Inr ps"
    using assms(2) by (auto simp: select_or_create_def split: sum.splits)
  note keys = collect_persistent_keys [OF assms(1) ps]
  note car = carried_persistent [OF ps assms(3)]
  show ?thesis
  proof (cases "mdb_forks m key")
    case None
    then have "create_fork FO key config transport ps m w = (Inr u, m', w')"
      using assms(2) ps by (simp add: select_or_create_def)
    from create_fork_Inr [OF assms(1) keys this] obtain db0 db env where new:
      "mdb_active m' = key" "mdb_forks m' = (mdb_forks m)(key \<mapsto> (db, env))"
      "\<forall>a. view (fo_cache FO) db a = carried norm ps a (view (fo_cache FO) db0 a)"
      by blast
    show ?thesis by (rule that [OF new(1,2) _ new(3) [unfolded car]]) (simp add: None)
  next
    case (Some p)
    obtain target env where p: "p = (target, env)" by (cases p)
    obtain db where db: "apply_persistent (fo_cache FO) ps target w = (db, w)"
      "\<forall>a. view (fo_cache FO) db a = carried norm ps a (view (fo_cache FO) target a)"
      using apply_persistent_view [OF assms(1) keys] by blast
    have m': "m' = m\<lparr>mdb_forks := (mdb_forks m)(key \<mapsto> (db, env)), mdb_active := key\<rparr>" "w' = w"
      using assms(2) ps Some p db(1) by (auto simp: select_or_create_def)
    then have new: "mdb_active m' = key" "mdb_forks m' = (mdb_forks m)(key \<mapsto> (db, env))" by simp_all
    show ?thesis by (rule that [OF new _ db(2) [unfolded car]]) (use Some p m'(2) in auto)
  qed
qed

lemma select_or_create_Inl:
  "select_or_create FO R key config transport m w = (Inl e, m', w') \<Longrightarrow>
   mdb_active m' = mdb_active m \<and> mdb_forks m' = mdb_forks m
   \<and> (\<forall>h b. mdb_backends m h = Some b \<longrightarrow> mdb_backends m' h = Some b)"
  using create_fork_Inl [of FO key config transport _ m w e m' w']
  by (auto simp: select_or_create_def split: prod.splits sum.splits option.splits)


text \<open>That a cached account still holds what another one held.\<close>

definition holds_account ::
  "('c account_info \<times> (u256 \<Rightarrow> u256 option)) option \<Rightarrow> ('c account_info \<times> (u256 \<Rightarrow> u256 option)) option \<Rightarrow> bool" where
  "holds_account old new \<longleftrightarrow>
     (case old of
        None \<Rightarrow> True
      | Some (info, st) \<Rightarrow>
          (\<exists>info' st'. new = Some (info', st') \<and> st \<subseteq>\<^sub>m st' \<and> ai_balance info' = ai_balance info
             \<and> ai_nonce info' = ai_nonce info \<and> ai_code info' = ai_code info))"

lemma holds_carried:
  "cache_ok norm CO \<Longrightarrow>
   holds_account old (case old of None \<Rightarrow> v | Some (info, st) \<Rightarrow> Some (norm info, cached_slots v ++ st))"
  by (simp add: holds_account_def cache_norm map_le_def map_add_def dom_def split: option.split)

lemma multi_fork_carries:
  assumes "cache_ok norm (fo_cache FO)" "mdb_forks m (mdb_active m) = Some (old, env0)"
    and "\<not> is_active_fork FO url block (Multi_Db m)"
    and "database_fork FO R url block config transport (Multi_Db m) w = (Inr env, db', w')"
  shows "\<exists>m' new. db' = Multi_Db m' \<and> mdb_active m' = fork_key_of FO url block
     \<and> mdb_forks m' = (mdb_forks m)(fork_key_of FO url block \<mapsto> (new, env))
     \<and> (\<forall>a. is_persistent R a \<longrightarrow> holds_account (view (fo_cache FO) old a) (view (fo_cache FO) new a))
     \<and> (\<forall>target env1. mdb_forks m (fork_key_of FO url block) = Some (target, env1) \<longrightarrow>
          w' = w \<and> env = env1
          \<and> (\<forall>a. \<not> is_persistent R a \<longrightarrow> view (fo_cache FO) new a = view (fo_cache FO) target a))"
proof -
  let ?key = "fork_key_of FO url block"
  have act: "active_db m = Inr old" using assms(2) by (simp add: active_db_def)
  obtain r m' w1 where r: "select_or_create FO R ?key (config\<lparr>fg_url := url, fg_block_number := block\<rparr>) transport m w
      = (r, m', w1)"
    by (rule prod_cases3)
  then obtain u where "r = Inr u" "db' = Multi_Db m'" "w' = w1" "fork_env_of m' (mdb_active m') = Inr env"
    using assms(3,4) by (cases r) (auto simp: Let_def)
  note res = this
  from r res have sc: "select_or_create FO R ?key (config\<lparr>fg_url := url, fg_block_number := block\<rparr>) transport m w
      = (Inr u, m', w')" by simp
  obtain db0 db env1 where new:
    "mdb_active m' = ?key" "mdb_forks m' = (mdb_forks m)(?key \<mapsto> (db, env1))"
    "\<forall>target env0. mdb_forks m ?key = Some (target, env0) \<longrightarrow> db0 = target \<and> env1 = env0 \<and> w' = w"
    "\<forall>a. view (fo_cache FO) db a =
       (if is_persistent R a
        then case view (fo_cache FO) old a of None \<Rightarrow> view (fo_cache FO) db0 a
             | Some (info, st) \<Rightarrow> Some (norm info, cached_slots (view (fo_cache FO) db0 a) ++ st)
        else view (fo_cache FO) db0 a)"
    by (rule select_or_create_Inr [OF assms(1) sc act], rule that)
  have "env1 = env" using res(4) new(1,2) by (simp add: fork_env_of_def)
  moreover have "is_persistent R a \<longrightarrow> holds_account (view (fo_cache FO) old a) (view (fo_cache FO) db a)" for a
    using new(4) holds_carried [OF assms(1), of "view (fo_cache FO) old a" "view (fo_cache FO) db0 a"] by simp
  moreover have "w' = w \<and> env = env2 \<and> (\<forall>a. \<not> is_persistent R a \<longrightarrow> view (fo_cache FO) db a = view (fo_cache FO) target a)"
    if "mdb_forks m ?key = Some (target, env2)" for target env2
    using new(3) that new(4) \<open>env1 = env\<close> by simp
  ultimately show ?thesis using res(2) new(1,2) by blast
qed

lemma empty_fork_carries:
  assumes "cache_ok norm (fo_cache FO)" "cache_keys_ok (fo_empty FO)"
    and "database_fork FO R url block config transport (Empty_Db edb) w = (Inr env, db', w')"
  shows "\<exists>m' new. db' = Multi_Db m' \<and> mdb_active m' = fork_key_of FO url block
     \<and> mdb_forks m' = [fork_key_of FO url block \<mapsto> (new, env)]
     \<and> (\<forall>a. holds_account (view (fo_empty FO) edb a) (view (fo_cache FO) new a))"
proof -
  let ?key = "fork_key_of FO url block" and ?ps = "co_accounts (fo_empty FO) edb"
  let ?m = "\<lparr>mdb_active = ?key, mdb_forks = Map.empty, mdb_backends = Map.empty\<rparr>"
  have keys: "distinct (map fst ?ps)" "\<forall>p \<in> set ?ps. distinct (map fst (snd (snd p)))"
    using assms(2) by (simp_all add: cache_keys_ok_def)
  obtain r m' w1 where r: "create_fork FO ?key (config\<lparr>fg_url := url, fg_block_number := block\<rparr>) transport ?ps ?m w
      = (r, m', w1)"
    by (rule prod_cases3)
  then obtain u where "r = Inr u" "db' = Multi_Db m'" "w' = w1" "fork_env_of m' ?key = Inr env"
    using assms(3) by (cases r) (auto simp: Let_def collect_cached_accounts_def)
  note res = this
  obtain db0 db env1 backend w2 where new:
    "build_fork_slot FO backend (config\<lparr>fg_url := url, fg_block_number := block\<rparr>) w2 = (Inr (db0, env1), w1)"
    "mdb_active m' = ?key" "mdb_forks m' = [?key \<mapsto> (db, env1)]"
    "\<forall>a. view (fo_cache FO) db a = carried norm ?ps a (view (fo_cache FO) db0 a)"
    by (rule create_fork_Inr [OF assms(1) keys r [unfolded res(1)], simplified], rule that)
  have "holds_account (view (fo_empty FO) edb a) (view (fo_cache FO) db a)" for a
    using new(4) holds_carried [OF assms(1), of "view (fo_empty FO) edb a" "view (fo_cache FO) db0 a"]
    by (simp add: carried_view [where CO = "fo_empty FO" and db = edb])
  moreover have "env1 = env" using res(4) new(3) by (simp add: fork_env_of_def)
  ultimately show ?thesis using res(2) new(2,3) by auto
qed


lemma same_fork_is_free:
  "is_active_fork FO url block (Multi_Db m) \<Longrightarrow>
   database_fork FO R url block config transport (Multi_Db m) w
     = (fork_env_of m (fork_key_of FO url block), Multi_Db m, w)"
  by simp

text \<open>
  C9: harness state survives a fork. After a fork that succeeds, the requested endpoint and block
  are active. Asking for the active fork changes nothing. Otherwise the deployer, the VM and every
  local account of the overlay that was active are in the new overlay with their balance, nonce,
  code and all their cached slots; every other fork is as it was, and coming back to a known fork
  fetches nothing, gives its environment and leaves its other accounts alone. From the empty
  database every cached account is carried over.
\<close>

theorem fork_carries_harness_state:
  assumes "cache_ok norm (fo_cache FO)" "cache_keys_ok (fo_empty FO)"
    and "database_fork FO R url block config transport db w = (Inr env, db', w')"
  shows "is_active_fork FO url block db' \<and>
     (case db of
        Empty_Db edb \<Rightarrow>
          (\<exists>m' new. db' = Multi_Db m' \<and> mdb_forks m' = [fork_key_of FO url block \<mapsto> (new, env)]
             \<and> (\<forall>a. holds_account (view (fo_empty FO) edb a) (view (fo_cache FO) new a)))
      | Multi_Db m \<Rightarrow>
          if is_active_fork FO url block (Multi_Db m) then db' = db \<and> w' = w
          else \<exists>m' old env0 new. db' = Multi_Db m' \<and> mdb_forks m (mdb_active m) = Some (old, env0)
             \<and> mdb_forks m' = (mdb_forks m)(fork_key_of FO url block \<mapsto> (new, env))
             \<and> (\<forall>a. is_persistent R a \<longrightarrow> holds_account (view (fo_cache FO) old a) (view (fo_cache FO) new a))
             \<and> (\<forall>target env1. mdb_forks m (fork_key_of FO url block) = Some (target, env1) \<longrightarrow>
                  w' = w \<and> env = env1
                  \<and> (\<forall>a. \<not> is_persistent R a \<longrightarrow> view (fo_cache FO) new a = view (fo_cache FO) target a)))"
proof (cases db)
  case (Empty_Db edb)
  with empty_fork_carries [OF assms(1,2)] assms(3) show ?thesis by fastforce
next
  case (Multi_Db m)
  show ?thesis
  proof (cases "is_active_fork FO url block (Multi_Db m)")
    case True
    then show ?thesis using assms(3) Multi_Db same_fork_is_free [OF True] by auto
  next
    case False
    obtain old env0 where old: "mdb_forks m (mdb_active m) = Some (old, env0)"
      using assms(3) Multi_Db False
      by (auto simp: Let_def select_or_create_def collect_persistent_from_active_def active_db_def
          map_sum_def split: option.splits)
    from multi_fork_carries [OF assms(1) old False assms(3) [unfolded Multi_Db]] obtain m' new where m':
      "db' = Multi_Db m'" "mdb_active m' = fork_key_of FO url block"
      "mdb_forks m' = (mdb_forks m)(fork_key_of FO url block \<mapsto> (new, env))"
      "\<forall>a. is_persistent R a \<longrightarrow> holds_account (view (fo_cache FO) old a) (view (fo_cache FO) new a)"
      "\<forall>target env1. mdb_forks m (fork_key_of FO url block) = Some (target, env1) \<longrightarrow>
          w' = w \<and> env = env1
          \<and> (\<forall>a. \<not> is_persistent R a \<longrightarrow> view (fo_cache FO) new a = view (fo_cache FO) target a)"
      by (elim exE conjE) (rule that)
    have "is_active_fork FO url block db'" by (simp add: m'(1-3))
    then show ?thesis
      unfolding Multi_Db database.case if_not_P [OF False] using m'(1,3-5) old by blast
  qed
qed

text \<open>
  C33: a fork that fails leaves the chain where it was. The empty database stays empty and
  unchanged; with several forks the active one and every overlay are as before. Only shared backends
  may have been added, and none was replaced.
\<close>

theorem failed_fork_keeps_state:
  assumes "database_fork FO R url block config transport db w = (Inl e, db', w')"
  shows "case db of
      Empty_Db edb \<Rightarrow> db' = db
    | Multi_Db m \<Rightarrow>
        (\<exists>m'. db' = Multi_Db m' \<and> mdb_active m' = mdb_active m \<and> mdb_forks m' = mdb_forks m
           \<and> mdb_backends m \<subseteq>\<^sub>m mdb_backends m')"
proof (cases db)
  case (Empty_Db edb)
  then show ?thesis using assms
    by (auto simp: Let_def create_fork_def fork_env_of_def split: prod.splits sum.splits)
next
  case (Multi_Db m)
  let ?key = "fork_key_of FO url block"
  let ?config = "config\<lparr>fg_url := url, fg_block_number := block\<rparr>"
  show ?thesis
  proof (cases "is_active_fork FO url block (Multi_Db m)")
    case True
    then show ?thesis using assms Multi_Db by (auto simp: fork_env_of_def)
  next
    case False
    obtain r m' w1 where r: "select_or_create FO R ?key ?config transport m w = (r, m', w1)"
      by (rule prod_cases3)
    show ?thesis
    proof (cases r)
      case (Inl e')
      then show ?thesis using assms Multi_Db False r select_or_create_Inl [OF r [unfolded Inl]]
        by (auto simp: Let_def map_le_def dom_def)
    next
      case (Inr u)
      then have "mdb_forks m' (mdb_active m') \<noteq> None"
        using r by (auto simp: select_or_create_def create_fork_def Let_def split: sum.splits option.splits prod.splits)
      then show ?thesis using assms Multi_Db False r Inr by (auto simp: Let_def fork_env_of_def)
    qed
  qed
qed


subsection \<open>An overlay as an association list\<close>

type_synonym demo_overlay = "bytes persistent_account list"

definition demo_accounts :: "demo_overlay \<Rightarrow> demo_overlay" where
  "demo_accounts db = AList.clearjunk (map (\<lambda>(a, info, st). (a, info, AList.clearjunk st)) db)"

definition demo_slots :: "address \<Rightarrow> demo_overlay \<Rightarrow> (u256 \<times> u256) list" where
  "demo_slots a db = (case map_of db a of None \<Rightarrow> [] | Some (_, st) \<Rightarrow> st)"

definition demo_info :: "bytes account_info" where
  "demo_info = \<lparr>ai_balance = 5, ai_nonce = 1, ai_code_hash = 0, ai_code = None\<rparr>"

definition demo_cache :: "(demo_overlay, bytes, unit, unit) cache_ops" where
  "demo_cache =
     \<lparr>co_accounts = demo_accounts,
      co_insert_info = (\<lambda>a info db. (a, info, demo_slots a db) # db),
      co_insert_storage = (\<lambda>a k v db w.
        case map_of db a of
          None \<Rightarrow> (Inr (), (a, demo_info, [(k, v)]) # db, w)
        | Some (info, st) \<Rightarrow> (Inr (), (a, info, (k, v) # st) # db, w)),
      co_basic = (\<lambda>a db w. (Inr (map_option fst (map_of db a)), db, w)),
      co_code = (\<lambda>h db w. (Inr [], db, w)),
      co_storage = (\<lambda>a k db w. (Inr (case map_of (demo_slots a db) k of None \<Rightarrow> 0 | Some v \<Rightarrow> v), db, w)),
      co_block_hash = (\<lambda>n db w. (Inr 0, db, w)),
      co_commit = (\<lambda>_ db. db),
      co_set_block_hash = (\<lambda>_ _ db. db)\<rparr>"

lemma map_of_map_accounts:
  "map_of (map (\<lambda>(a, info, st). (a, info, f st)) db) a = map_option (\<lambda>(info, st). (info, f st)) (map_of db a)"
  by (induction db) auto

lemma demo_view: "view demo_cache db a = map_option (\<lambda>(info, st). (info, map_of st)) (map_of db a)"
  by (cases "map_of db a")
    (simp_all add: view_def demo_cache_def demo_accounts_def map_of_clearjunk map_of_map_accounts split_beta)

lemma demo_cache_keys: "cache_keys_ok demo_cache"
proof -
  have "distinct (map fst (snd (snd p)))" if "p \<in> set (demo_accounts db)" for p db
  proof -
    have "p \<in> set (map (\<lambda>(a, info, st). (a, info, AList.clearjunk st)) db)"
      using that unfolding demo_accounts_def graph_map_of [symmetric] by (cases p) (auto dest!: in_graphD map_of_SomeD)
    then show ?thesis by (auto simp: distinct_clearjunk)
  qed
  then show ?thesis by (simp add: cache_keys_ok_def demo_cache_def demo_accounts_def distinct_clearjunk)
qed

lemma demo_cache_ok: "cache_ok id demo_cache"
proof -
  have "\<exists>db'. co_insert_storage demo_cache a k v db w = (Inr (), db', w)
      \<and> view demo_cache db' = (view demo_cache db)(a \<mapsto> (info, st(k \<mapsto> v)))"
    if "view demo_cache db a = Some (info, st)" for a k v db w info st
    using that unfolding demo_view fun_eq_iff by (auto simp: demo_cache_def demo_view)
  moreover have "view demo_cache (co_insert_info demo_cache a info db)
      = (view demo_cache db)(a \<mapsto> (id info, cached_slots (view demo_cache db a)))" for a info db
    unfolding demo_view fun_eq_iff
    by (auto simp: demo_cache_def cached_slots_def demo_slots_def split: option.split)
  ultimately show ?thesis by (simp add: cache_ok_def demo_cache_keys) (simp add: demo_cache_def)
qed

definition demo_fork_ops :: "(demo_overlay, demo_overlay, unit, unit, bytes, unit, unit) fork_ops" where
  "demo_fork_ops =
     \<lparr>fo_text = demo_rpc_text, fo_fetch = (\<lambda>_ _ w. (Inl Unexpected_Response, w)),
      fo_backend_new = (\<lambda>_ _ w. ((), w)), fo_specs = \<lparr>ht_ethereum = \<lambda>_ _. None, ht_optimism = \<lambda>_ _. None\<rparr>,
      fo_empty = demo_cache, fo_cache = demo_cache, fo_overlay = (\<lambda>_. [])\<rparr>"

definition demo_env :: fork_env where
  "demo_env = \<lparr>fe_chain_id = 1, fe_block_number = 8, fe_timestamp = 0, fe_beneficiary = 0, fe_difficulty = 0,
     fe_prevrandao = None, fe_excess_blob_gas = None, fe_block_hash = None, fe_spec_id = FRONTIER\<rparr>"

text \<open>Block 7 is active and has the local account 3 with a slot; block 8 is known and has account 4.\<close>

definition demo_multi :: "(demo_overlay, unit) multi_fork" where
  "demo_multi = \<lparr>mdb_active = fork_key_of demo_fork_ops ''u'' 7,
     mdb_forks = [fork_key_of demo_fork_ops ''u'' 7 \<mapsto> ([(3, demo_info, [(1, 2)])], demo_env),
                  fork_key_of demo_fork_ops ''u'' 8 \<mapsto> ([(4, demo_info, [])], demo_env)],
     mdb_backends = Map.empty\<rparr>"

lemma demo_keys: "fork_key_of demo_fork_ops ''u'' 7 \<noteq> fork_key_of demo_fork_ops ''u'' 8"
  by (simp add: fork_key_of_def)

lemma demo_fork_ops_cache [simp]: "fo_cache demo_fork_ops = demo_cache" "fo_empty demo_fork_ops = demo_cache"
  by (simp_all add: demo_fork_ops_def)

lemma demo_multi_forks:
  "active_db demo_multi = Inr [(3, demo_info, [(1, 2)])]"
  "mdb_active demo_multi = fork_key_of demo_fork_ops ''u'' 7"
  "mdb_forks demo_multi (fork_key_of demo_fork_ops ''u'' 7) = Some ([(3, demo_info, [(1, 2)])], demo_env)"
  "mdb_forks demo_multi (fork_key_of demo_fork_ops ''u'' 8) = Some ([(4, demo_info, [])], demo_env)"
  "mdb_forks demo_multi (fork_key_of demo_fork_ops ''u'' 9) = None"
  by (simp_all add: active_db_def demo_multi_def demo_keys) (simp_all add: fork_key_of_def)

lemma demo_fork:
  "\<exists>db'. database_fork demo_fork_ops {3} ''u'' 8 (fork_config_new None ''u'') (None :: unit option)
        (Multi_Db demo_multi) () = (Inr demo_env, db', ())"
proof -
  obtain ps where ps: "collect_persistent_from_active demo_cache {3} demo_multi = Inr ps"
    by (simp add: collect_persistent_from_active_def demo_multi_forks)
  obtain db' w' where "apply_persistent demo_cache ps [(4, demo_info, [])] () = (db', w')"
    by (rule prod.exhaust)
  then show ?thesis using demo_keys ps
    by (auto simp: Let_def select_or_create_def fork_env_of_def demo_multi_forks)
qed

theorem fork_carries_harness_state_witness:
  "\<exists>m' new. database_fork demo_fork_ops {3} ''u'' 8 (fork_config_new None ''u'') (None :: unit option)
        (Multi_Db demo_multi) () = (Inr demo_env, Multi_Db m', ())
     \<and> mdb_forks m' (fork_key_of demo_fork_ops ''u'' 8) = Some (new, demo_env)
     \<and> cached_slots (view demo_cache new 3) 1 = Some 2
     \<and> view demo_cache new 4 = Some (demo_info, Map.empty)"
proof -
  have ops: "cache_ok id (fo_cache demo_fork_ops)" "cache_keys_ok (fo_empty demo_fork_ops)"
    by (simp_all add: demo_cache_ok demo_cache_keys)
  obtain db' where db': "database_fork demo_fork_ops {3} ''u'' 8 (fork_config_new None ''u'') (None :: unit option)
        (Multi_Db demo_multi) () = (Inr demo_env, db', ())" using demo_fork by blast
  have other: "\<not> is_active_fork demo_fork_ops ''u'' 8 (Multi_Db demo_multi)"
    using demo_keys by (simp add: demo_multi_forks)
  have known: "mdb_forks demo_multi (mdb_active demo_multi) = Some ([(3, demo_info, [(1, 2)])], demo_env)"
    "mdb_forks demo_multi (fork_key_of demo_fork_ops ''u'' 8) = Some ([(4, demo_info, [])], demo_env)"
    by (simp_all add: demo_multi_forks)
  obtain m' old env0 new where m': "db' = Multi_Db m'"
    "mdb_forks demo_multi (mdb_active demo_multi) = Some (old, env0)"
    "mdb_forks m' = (mdb_forks demo_multi)(fork_key_of demo_fork_ops ''u'' 8 \<mapsto> (new, demo_env))"
    "\<forall>a. is_persistent {3} a \<longrightarrow> holds_account (view demo_cache old a) (view demo_cache new a)"
    "\<forall>target env1. mdb_forks demo_multi (fork_key_of demo_fork_ops ''u'' 8) = Some (target, env1) \<longrightarrow>
        (\<forall>a. \<not> is_persistent {3} a \<longrightarrow> view demo_cache new a = view demo_cache target a)"
    using fork_carries_harness_state [OF ops db'] other
    unfolding database.case if_not_P [OF other] demo_fork_ops_cache by blast
  have "holds_account (view demo_cache [(3, demo_info, [(1, 2)])] 3) (view demo_cache new 3)"
    using m'(2,4) known(1) by (auto simp: is_persistent_def is_local_def)
  then have "cached_slots (view demo_cache new 3) 1 = Some 2"
    by (auto simp: holds_account_def demo_view cached_slots_def map_le_def)
  moreover have "view demo_cache new 4 = Some (demo_info, Map.empty)"
    using m'(5) known(2) by (simp add: is_persistent_def is_local_def DEFAULT_DEPLOYER_def VM_ADDRESS_def demo_view)
  ultimately show ?thesis using db' m'(1,3) by auto
qed

lemma demo_fork_unknown:
  "\<exists>db'. database_fork demo_fork_ops {3} ''u'' 9 (fork_config_new None ''u'') (None :: unit option)
        (Multi_Db demo_multi) () = (Inl (Db_Rpc Unexpected_Response), db', ())"
proof -
  have "build_fork_slot demo_fork_ops b c w = (Inl (Db_Rpc Unexpected_Response), w)" for b c w
    by (simp add: build_fork_slot_def demo_fork_ops_def)
  moreover have "fork_key_of demo_fork_ops ''u'' 7 \<noteq> fork_key_of demo_fork_ops ''u'' 9"
    by (simp add: fork_key_of_def)
  ultimately show ?thesis
    by (auto simp: Let_def select_or_create_def create_fork_def collect_persistent_from_active_def
        demo_multi_forks split: prod.split)
qed

theorem failed_fork_keeps_state_witness:
  "\<exists>m'. database_fork demo_fork_ops {3} ''u'' 9 (fork_config_new None ''u'') (None :: unit option)
        (Multi_Db demo_multi) () = (Inl (Db_Rpc Unexpected_Response), Multi_Db m', ())
     \<and> mdb_active m' = mdb_active demo_multi \<and> mdb_forks m' = mdb_forks demo_multi"
proof -
  obtain db' where "database_fork demo_fork_ops {3} ''u'' 9 (fork_config_new None ''u'') (None :: unit option)
        (Multi_Db demo_multi) () = (Inl (Db_Rpc Unexpected_Response), db', ())"
    using demo_fork_unknown by blast
  with failed_fork_keeps_state [OF this] show ?thesis by auto
qed

end
