(* ===== verification/Cheat_State.thy ===== *)
theory Cheat_State
  imports Fork_Database Literals
begin

section \<open>Cheatcodes: state, context and outcomes\<close>

text \<open>
  \<open>evm/cheatcode/state.rs\<close>, \<open>outcome.rs\<close> and \<open>config.rs\<close>: what the cheatcode inspector keeps between
  calls, the part of the EVM context it changes, and the outcomes it answers calls with. The
  journal with its database is the type \<open>'j\<close> with the operations \<open>journal_ops\<close>, which are those of the
  traits that bound the handlers' \<open>CTX\<close>; crates and the host are the functions of \<open>cheat_lib\<close>.
  Strings are read as code points below 256.
\<close>

subsection \<open>The inspector's state\<close>

record block_cheats =
  bs_timestamp :: "u256 option"
  bs_number :: "u256 option"
  bs_basefee :: "u256 option"
  bs_beneficiary :: "address option"
  bs_prevrandao :: "u256 option"
  bs_chain_id :: "u256 option"

record prank_state =
  pk_caller :: address
  pk_origin :: "address option"
  pk_single_call :: bool
  pk_set_depth :: u64
  pk_prank_caller :: address
  pk_used :: bool

record start_prank_state =
  sp_caller :: address
  sp_origin :: "address option"
  sp_set_depth :: u64
  sp_prank_caller :: address
  sp_used :: bool

record prank_cheats =
  pc_active :: "prank_state option"
  pc_start :: "start_prank_state option"
  pc_original_origin :: "address option"

record 't exec_state =
  xs_block :: block_cheats
  xs_prank :: prank_cheats
  xs_labels :: "address \<Rightarrow> string option"
  xs_project_root :: string
  xs_ffi_enabled :: bool
  xs_fork_defaults :: fork_config
  xs_transport :: "'t option"

record 't cheat_config =
  cc_ffi :: bool
  cc_project_root :: string
  cc_fork_defaults :: fork_config
  cc_transport :: "'t option"

definition cheat_config_new :: "nat option \<Rightarrow> string \<Rightarrow> 't cheat_config" where
  "cheat_config_new parallelism root =
     \<lparr>cc_ffi = False, cc_project_root = root, cc_fork_defaults = fork_config_new parallelism [],
      cc_transport = None\<rparr>"

definition block_cheats_default :: block_cheats where
  "block_cheats_default =
     \<lparr>bs_timestamp = None, bs_number = None, bs_basefee = None, bs_beneficiary = None,
      bs_prevrandao = None, bs_chain_id = None\<rparr>"

definition prank_cheats_default :: prank_cheats where
  "prank_cheats_default = \<lparr>pc_active = None, pc_start = None, pc_original_origin = None\<rparr>"

definition exec_state_from_config :: "'t cheat_config \<Rightarrow> 't exec_state" where
  "exec_state_from_config config =
     \<lparr>xs_block = block_cheats_default, xs_prank = prank_cheats_default, xs_labels = Map.empty,
      xs_project_root = cc_project_root config, xs_ffi_enabled = cc_ffi config,
      xs_fork_defaults = cc_fork_defaults config, xs_transport = cc_transport config\<rparr>"

subsection \<open>The context\<close>

type_synonym blob_env = "u64 \<times> 128 word"

record block_env =
  bl_number :: u256
  bl_timestamp :: u256
  bl_beneficiary :: address
  bl_difficulty :: u256
  bl_prevrandao :: "u256 option"
  bl_gas_limit :: u64
  bl_basefee :: u64
  bl_blob :: "blob_env option"

text \<open>\<open>cx_origin\<close> is \<open>tx.caller\<close>; the registry of local addresses is the one the chain shares.\<close>

record 'j cheat_ctx =
  cx_origin :: address
  cx_block :: block_env
  cx_chain_id :: u64
  cx_spec :: spec_id
  cx_journal :: 'j
  cx_registry :: registry

text \<open>
  Operations of the journal and, through it, of the database. \<open>jo_load_account\<close> gives the nonce
  of the loaded account; \<open>jo_sload\<close> reads a slot of a loaded account.
\<close>

record ('j, 't) journal_ops =
  jo_load_account :: "address \<Rightarrow> 'j \<Rightarrow> u64 option \<times> 'j"
  jo_set_balance :: "address \<Rightarrow> u256 \<Rightarrow> 'j \<Rightarrow> 'j"
  jo_set_nonce :: "address \<Rightarrow> u64 \<Rightarrow> 'j \<Rightarrow> 'j"
  jo_precompiles :: "'j \<Rightarrow> address \<Rightarrow> bool"
  jo_code_valid :: "bytes \<Rightarrow> bool"
  jo_set_code :: "address \<Rightarrow> bytes \<Rightarrow> 'j \<Rightarrow> 'j"
  jo_insert_storage :: "address \<Rightarrow> u256 \<Rightarrow> u256 \<Rightarrow> 'j \<Rightarrow> 'j"
  jo_sstore :: "address \<Rightarrow> u256 \<Rightarrow> u256 \<Rightarrow> 'j \<Rightarrow> bool \<times> 'j"
  jo_sload :: "address \<Rightarrow> u256 \<Rightarrow> 'j \<Rightarrow> u256 option \<times> 'j"
  jo_is_active_fork :: "string \<Rightarrow> u64 \<Rightarrow> 'j \<Rightarrow> bool"
  jo_commit_remote :: "(address \<Rightarrow> bool) \<Rightarrow> 'j \<Rightarrow> 'j"
  jo_fork :: "string \<Rightarrow> u64 \<Rightarrow> fork_config \<Rightarrow> 't option \<Rightarrow> registry \<Rightarrow> 'j \<Rightarrow> (db_error + fork_env) \<times> 'j"

datatype env_value = Env_Ok string | Env_Not_Present | Env_Not_Unicode

text \<open>What running a command gives: a failure to start it, or its success flag, output and error text.\<close>

datatype run_value = Run_Failed string | Run_Done bool string string

record cheat_lib =
  cl_encode_string :: "string \<Rightarrow> bytes"
  cl_encode_bytes :: "bytes \<Rightarrow> bytes"
  cl_address_text :: "address \<Rightarrow> string"
  cl_hex_encode :: "bytes \<Rightarrow> string"
  cl_hex_decode :: "string \<Rightarrow> string + bytes"
  cl_parse_u256 :: "string \<Rightarrow> u256 option"
  cl_parse_i256 :: "string \<Rightarrow> u256 option"
  cl_show_i256 :: "u256 \<Rightarrow> string"
  cl_parse_address :: "string \<Rightarrow> address option"
  cl_curve_order :: u256
  cl_public_key :: "u256 \<Rightarrow> bytes option"
  cl_sign :: "u256 \<Rightarrow> bytes \<Rightarrow> (bool \<times> bytes \<times> bytes) option"
  cl_keccak :: "bytes \<Rightarrow> bytes"
  cl_env_var :: "string \<Rightarrow> env_value"
  cl_run :: "string \<Rightarrow> string \<Rightarrow> string list \<Rightarrow> run_value"
  cl_db_error_text :: "db_error \<Rightarrow> string"
  cl_blob :: "u64 \<Rightarrow> spec_id \<Rightarrow> blob_env"

subsection \<open>Outcomes\<close>

datatype instr_result = Ir_Stop | Ir_Return | Ir_Revert

record call_outcome =
  oc_result :: instr_result
  oc_output :: bytes
  oc_gas :: u64
  oc_memory_offset :: "nat \<times> nat"

definition outcome :: "instr_result \<Rightarrow> bytes \<Rightarrow> call_outcome" where
  "outcome result output = \<lparr>oc_result = result, oc_output = output, oc_gas = 0, oc_memory_offset = (0, 0)\<rparr>"

definition outcome_success :: call_outcome where
  "outcome_success = outcome Ir_Stop []"

definition outcome_u256 :: "u256 \<Rightarrow> call_outcome" where
  "outcome_u256 value = outcome Ir_Return (be_bytes 32 value)"

definition outcome_address :: "address \<Rightarrow> call_outcome" where
  "outcome_address value = outcome Ir_Return (replicate 12 0 @ be_bytes 20 (ucast value))"

definition outcome_bool :: "bool \<Rightarrow> call_outcome" where
  "outcome_bool value = outcome Ir_Return (replicate 31 0 @ [if value then 1 else 0])"

definition outcome_bytes :: "bytes \<Rightarrow> call_outcome" where
  "outcome_bytes value = outcome Ir_Return value"

definition outcome_sign :: "u8 \<Rightarrow> bytes \<Rightarrow> bytes \<Rightarrow> call_outcome" where
  "outcome_sign v r s = outcome Ir_Return (replicate 31 0 @ [v] @ r @ s)"

definition outcome_revert :: "cheat_lib \<Rightarrow> string \<Rightarrow> call_outcome" where
  "outcome_revert CL reason = outcome Ir_Revert ([0x08, 0xc3, 0x79, 0xa0] @ cl_encode_string CL reason)"

lemma outcome_results [simp]:
  "oc_result outcome_success = Ir_Stop" "oc_result (outcome_u256 v) = Ir_Return"
  "oc_result (outcome_address a) = Ir_Return" "oc_result (outcome_bool b) = Ir_Return"
  "oc_result (outcome_bytes bs) = Ir_Return" "oc_result (outcome_sign y r s) = Ir_Return"
  "oc_result (outcome_revert CL reason) = Ir_Revert"
  by (simp_all add: outcome_success_def outcome_u256_def outcome_address_def outcome_bool_def
      outcome_bytes_def outcome_sign_def outcome_revert_def outcome_def)

subsection \<open>The cheatcodes\<close>

record fork_call_config =
  fc_retries :: u32
  fc_backoff_ms :: u64
  fc_timeout_ms :: u64
  fc_rate_limit :: u64

datatype vm_call =
    Vm_Warp u256 | Vm_Roll u256 | Vm_Fee u256 | Vm_Coinbase address | Vm_Prevrandao u256 | Vm_Chain_Id u256
  | Vm_Deal address u256 | Vm_Etch address bytes | Vm_Set_Nonce address u64 | Vm_Get_Nonce address
  | Vm_Store address u256 u256 | Vm_Load address u256
  | Vm_Prank address | Vm_Prank_Origin address address | Vm_Start_Prank address
  | Vm_Start_Prank_Origin address address | Vm_Stop_Prank
  | Vm_Label address string | Vm_Get_Label address
  | Vm_String_Address address | Vm_String_Bool bool | Vm_String_Uint u256 | Vm_String_Int u256
  | Vm_String_Bytes32 u256 | Vm_String_Bytes bytes
  | Vm_Parse_Uint string | Vm_Parse_Int string | Vm_Parse_Bool string | Vm_Parse_Address string
  | Vm_Parse_Bytes string | Vm_Parse_Bytes32 string
  | Vm_Addr u256 | Vm_Sign u256 bytes | Vm_Ffi "string list"
  | Vm_Get_Env string | Vm_Get_Env_Or string string
  | Vm_Fork string u256 | Vm_Fork_With string u256 fork_call_config

end
