(* ===== verification/Cheat_Calls.thy ===== *)
theory Cheat_Calls
  imports Cheat_State
begin

section \<open>The handlers of the cheatcodes\<close>

text \<open>
  \<open>evm/cheatcode/calls\<close>: one definition per handler and \<open>cheat_dispatch\<close> over them all. A handler gives
  an outcome, or \<open>None\<close> where the code returns early with \<open>?\<close>, together with the context and
  the state after it.
\<close>

type_synonym ('j, 't) handled = "call_outcome option \<times> 'j cheat_ctx \<times> 't exec_state"

subsection \<open>Block\<close>

definition cheat_warp :: "u256 \<Rightarrow> 'j cheat_ctx \<Rightarrow> 't exec_state \<Rightarrow> ('j, 't) handled" where
  "cheat_warp value cx xs =
     (Some outcome_success,
      cx\<lparr>cx_block := (cx_block cx)\<lparr>bl_timestamp := value\<rparr>\<rparr>,
      xs\<lparr>xs_block := (xs_block xs)\<lparr>bs_timestamp := Some value\<rparr>\<rparr>)"

definition cheat_roll :: "u256 \<Rightarrow> 'j cheat_ctx \<Rightarrow> 't exec_state \<Rightarrow> ('j, 't) handled" where
  "cheat_roll value cx xs =
     (Some outcome_success,
      cx\<lparr>cx_block := (cx_block cx)\<lparr>bl_number := value\<rparr>\<rparr>,
      xs\<lparr>xs_block := (xs_block xs)\<lparr>bs_number := Some value\<rparr>\<rparr>)"

definition cheat_fee :: "u256 \<Rightarrow> 'j cheat_ctx \<Rightarrow> 't exec_state \<Rightarrow> ('j, 't) handled" where
  "cheat_fee value cx xs =
     (Some outcome_success,
      cx\<lparr>cx_block := (cx_block cx)\<lparr>bl_basefee := if unat value < 2 ^ 64 then ucast value else 0\<rparr>\<rparr>,
      xs\<lparr>xs_block := (xs_block xs)\<lparr>bs_basefee := Some value\<rparr>\<rparr>)"

definition cheat_coinbase :: "address \<Rightarrow> 'j cheat_ctx \<Rightarrow> 't exec_state \<Rightarrow> ('j, 't) handled" where
  "cheat_coinbase a cx xs =
     (Some outcome_success,
      cx\<lparr>cx_block := (cx_block cx)\<lparr>bl_beneficiary := a\<rparr>\<rparr>,
      xs\<lparr>xs_block := (xs_block xs)\<lparr>bs_beneficiary := Some a\<rparr>\<rparr>)"

definition cheat_prevrandao :: "u256 \<Rightarrow> 'j cheat_ctx \<Rightarrow> 't exec_state \<Rightarrow> ('j, 't) handled" where
  "cheat_prevrandao value cx xs =
     (Some outcome_success,
      cx\<lparr>cx_block := (cx_block cx)\<lparr>bl_prevrandao := Some value\<rparr>\<rparr>,
      xs\<lparr>xs_block := (xs_block xs)\<lparr>bs_prevrandao := Some value\<rparr>\<rparr>)"

definition cheat_chain_id :: "u256 \<Rightarrow> 'j cheat_ctx \<Rightarrow> 't exec_state \<Rightarrow> ('j, 't) handled" where
  "cheat_chain_id value cx xs =
     (Some outcome_success,
      cx\<lparr>cx_chain_id := if unat value < 2 ^ 64 then ucast value else - 1\<rparr>,
      xs\<lparr>xs_block := (xs_block xs)\<lparr>bs_chain_id := Some value\<rparr>\<rparr>)"

subsection \<open>Accounts\<close>

definition cheat_deal ::
  "('j, 't) journal_ops \<Rightarrow> address \<Rightarrow> u256 \<Rightarrow> 'j cheat_ctx \<Rightarrow> call_outcome option \<times> 'j cheat_ctx" where
  "cheat_deal JO a value cx =
     (case jo_load_account JO a (cx_journal cx) of
        (None, j1) \<Rightarrow> (None, cx\<lparr>cx_journal := j1\<rparr>)
      | (Some _, j1) \<Rightarrow>
          (case jo_load_account JO a j1 of
             (None, j2) \<Rightarrow> (None, cx\<lparr>cx_journal := j2\<rparr>)
           | (Some _, j2) \<Rightarrow> (Some outcome_success, cx\<lparr>cx_journal := jo_set_balance JO a value j2\<rparr>)))"

definition cheat_etch ::
  "cheat_lib \<Rightarrow> ('j, 't) journal_ops \<Rightarrow> address \<Rightarrow> bytes \<Rightarrow> 'j cheat_ctx \<Rightarrow> call_outcome option \<times> 'j cheat_ctx" where
  "cheat_etch CL JO a code cx =
     (if jo_precompiles JO (cx_journal cx) a
      then (Some (outcome_revert CL ''cannot etch precompile address''), cx)
      else case jo_load_account JO a (cx_journal cx) of
             (None, j1) \<Rightarrow> (None, cx\<lparr>cx_journal := j1\<rparr>)
           | (Some _, j1) \<Rightarrow>
               if jo_code_valid JO code
               then (Some outcome_success, cx\<lparr>cx_journal := jo_set_code JO a code j1\<rparr>)
               else (None, cx\<lparr>cx_journal := j1\<rparr>))"

definition cheat_set_nonce ::
  "cheat_lib \<Rightarrow> ('j, 't) journal_ops \<Rightarrow> address \<Rightarrow> u64 \<Rightarrow> 'j cheat_ctx \<Rightarrow> call_outcome option \<times> 'j cheat_ctx" where
  "cheat_set_nonce CL JO a nonce cx =
     (let (loaded, j1) = jo_load_account JO a (cx_journal cx);
          current = (case loaded of Some n \<Rightarrow> n | None \<Rightarrow> 0)
      in if nonce < current
         then (Some (outcome_revert CL (''new nonce ('' @ show_dec nonce
                       @ '') must be >= current nonce ('' @ show_dec current @ '')'')),
               cx\<lparr>cx_journal := j1\<rparr>)
         else case jo_load_account JO a j1 of
                (None, j2) \<Rightarrow> (None, cx\<lparr>cx_journal := j2\<rparr>)
              | (Some _, j2) \<Rightarrow> (Some outcome_success, cx\<lparr>cx_journal := jo_set_nonce JO a nonce j2\<rparr>))"

definition cheat_get_nonce ::
  "('j, 't) journal_ops \<Rightarrow> address \<Rightarrow> 'j cheat_ctx \<Rightarrow> call_outcome option \<times> 'j cheat_ctx" where
  "cheat_get_nonce JO a cx =
     (let (loaded, j1) = jo_load_account JO a (cx_journal cx)
      in (Some (outcome_u256 (case loaded of Some n \<Rightarrow> ucast n | None \<Rightarrow> 0)), cx\<lparr>cx_journal := j1\<rparr>))"

definition cheat_store ::
  "cheat_lib \<Rightarrow> ('j, 't) journal_ops \<Rightarrow> address \<Rightarrow> u256 \<Rightarrow> u256 \<Rightarrow> 'j cheat_ctx \<Rightarrow>
   call_outcome option \<times> 'j cheat_ctx" where
  "cheat_store CL JO a slot value cx =
     (if jo_precompiles JO (cx_journal cx) a
      then (Some (outcome_revert CL ''store: cannot write to precompile''), cx)
      else case jo_load_account JO a (cx_journal cx) of
             (None, j1) \<Rightarrow> (None, cx\<lparr>cx_journal := j1\<rparr>)
           | (Some _, j1) \<Rightarrow>
               (case jo_sstore JO a slot value (jo_insert_storage JO a slot 0 j1) of
                  (stored, j2) \<Rightarrow> (if stored then Some outcome_success else None, cx\<lparr>cx_journal := j2\<rparr>)))"

definition cheat_load ::
  "cheat_lib \<Rightarrow> ('j, 't) journal_ops \<Rightarrow> address \<Rightarrow> u256 \<Rightarrow> 'j cheat_ctx \<Rightarrow> call_outcome option \<times> 'j cheat_ctx" where
  "cheat_load CL JO a slot cx =
     (if jo_precompiles JO (cx_journal cx) a
      then (Some (outcome_revert CL ''load: cannot read from precompile''), cx)
      else case jo_load_account JO a (cx_journal cx) of
             (None, j1) \<Rightarrow> (Some (outcome_bytes (be_bytes 32 0)), cx\<lparr>cx_journal := j1\<rparr>)
           | (Some _, j1) \<Rightarrow>
               (case jo_sload JO a slot j1 of
                  (value, j2) \<Rightarrow>
                    (Some (outcome_bytes (be_bytes 32 (case value of Some v \<Rightarrow> v | None \<Rightarrow> 0))),
                     cx\<lparr>cx_journal := j2\<rparr>)))"

subsection \<open>Pranks\<close>

definition prank_pending :: "prank_cheats \<Rightarrow> bool" where
  "prank_pending pc = (case pc_active pc of Some p \<Rightarrow> \<not> pk_used p | None \<Rightarrow> False)"

definition start_pending :: "prank_cheats \<Rightarrow> bool" where
  "start_pending pc = (case pc_start pc of Some s \<Rightarrow> \<not> sp_used s | None \<Rightarrow> False)"

definition set_prank ::
  "cheat_lib \<Rightarrow> address \<Rightarrow> address option \<Rightarrow> prank_cheats \<Rightarrow> call_outcome \<times> prank_cheats" where
  "set_prank CL a origin pc =
     (if prank_pending pc
      then (outcome_revert CL ''prank(address) cannot be called when a prank is already active'', pc)
      else if pc_start pc \<noteq> None
      then (outcome_revert CL ''prank(address) cannot be called when a startPrank is already active'', pc)
      else (outcome_success,
            pc\<lparr>pc_active := Some \<lparr>pk_caller = a, pk_origin = origin, pk_single_call = True, pk_set_depth = 0,
                                 pk_prank_caller = 0, pk_used = False\<rparr>\<rparr>))"

definition set_start_prank ::
  "cheat_lib \<Rightarrow> address \<Rightarrow> address option \<Rightarrow> prank_cheats \<Rightarrow> call_outcome \<times> prank_cheats" where
  "set_start_prank CL a origin pc =
     (if prank_pending pc
      then (outcome_revert CL ''startPrank(address) cannot be called when a prank is already active'', pc)
      else if start_pending pc
      then (outcome_revert CL ''startPrank(address) cannot be called when a startPrank is already active'', pc)
      else (outcome_success,
            pc\<lparr>pc_start := Some \<lparr>sp_caller = a, sp_origin = origin, sp_set_depth = 0, sp_prank_caller = 0,
                                sp_used = False\<rparr>\<rparr>))"

definition stop_prank :: "prank_cheats \<Rightarrow> call_outcome \<times> prank_cheats" where
  "stop_prank pc = (outcome_success, pc\<lparr>pc_active := None, pc_start := None\<rparr>)"

subsection \<open>Labels\<close>

definition cheat_label :: "address \<Rightarrow> string \<Rightarrow> 't exec_state \<Rightarrow> call_outcome \<times> 't exec_state" where
  "cheat_label a name xs = (outcome_success, xs\<lparr>xs_labels := (xs_labels xs)(a \<mapsto> name)\<rparr>)"

definition cheat_get_label :: "cheat_lib \<Rightarrow> address \<Rightarrow> 't exec_state \<Rightarrow> call_outcome" where
  "cheat_get_label CL a xs =
     outcome_bytes (cl_encode_string CL (case xs_labels xs a of Some name \<Rightarrow> name | None \<Rightarrow> []))"


subsection \<open>Conversions\<close>

definition is_space :: "char \<Rightarrow> bool" where
  "is_space c = (let n = (of_char c :: nat) in (9 \<le> n \<and> n \<le> 13) \<or> n = 32 \<or> n = 133 \<or> n = 160)"

definition str_trim :: "string \<Rightarrow> string" where
  "str_trim s = rev (dropWhile is_space (rev (dropWhile is_space s)))"

definition ascii_lower :: "char \<Rightarrow> char" where
  "ascii_lower c = (let n = (of_char c :: nat) in if 65 \<le> n \<and> n \<le> 90 then char_of (n + 32) else c)"

definition eq_ignore_ascii_case :: "string \<Rightarrow> string \<Rightarrow> bool" where
  "eq_ignore_ascii_case s t = (map ascii_lower s = map ascii_lower t)"

definition to_string_outcome :: "cheat_lib \<Rightarrow> string \<Rightarrow> call_outcome" where
  "to_string_outcome CL s = outcome_bytes (cl_encode_string CL s)"

definition to_string_bool :: "cheat_lib \<Rightarrow> bool \<Rightarrow> call_outcome" where
  "to_string_bool CL b = to_string_outcome CL (if b then ''true'' else ''false'')"

definition to_string_bytes :: "cheat_lib \<Rightarrow> bytes \<Rightarrow> call_outcome" where
  "to_string_bytes CL bs = to_string_outcome CL (''0x'' @ cl_hex_encode CL bs)"

definition parse_uint :: "cheat_lib \<Rightarrow> string \<Rightarrow> call_outcome option" where
  "parse_uint CL s = map_option outcome_u256 (cl_parse_u256 CL s)"

definition parse_int :: "cheat_lib \<Rightarrow> string \<Rightarrow> call_outcome option" where
  "parse_int CL s = map_option outcome_u256 (cl_parse_i256 CL s)"

definition parse_bool :: "cheat_lib \<Rightarrow> string \<Rightarrow> call_outcome" where
  "parse_bool CL s =
     (let trimmed = str_trim s
      in if trimmed = ''1'' then outcome_bool True
         else if trimmed = ''0'' then outcome_bool False
         else if eq_ignore_ascii_case trimmed ''true'' then outcome_bool True
         else if eq_ignore_ascii_case trimmed ''false'' then outcome_bool False
         else outcome_revert CL ''parseBool: invalid bool string'')"

definition parse_address :: "cheat_lib \<Rightarrow> string \<Rightarrow> call_outcome option" where
  "parse_address CL s = map_option outcome_address (cl_parse_address CL s)"

definition parse_bytes :: "cheat_lib \<Rightarrow> string \<Rightarrow> call_outcome option" where
  "parse_bytes CL s =
     (case cl_hex_decode CL (strip_0x s) of
        Inl _ \<Rightarrow> None
      | Inr value \<Rightarrow> Some (outcome_bytes (cl_encode_bytes CL value)))"

definition parse_bytes32 :: "cheat_lib \<Rightarrow> string \<Rightarrow> call_outcome option" where
  "parse_bytes32 CL s =
     (case cl_hex_decode CL (strip_0x s) of
        Inl _ \<Rightarrow> None
      | Inr value \<Rightarrow>
          if length value \<noteq> 32 then Some (outcome_revert CL ''parseBytes32: invalid length'')
          else Some (outcome_bytes value))"

subsection \<open>Keys, commands, environment\<close>

text \<open>The guards that \<open>addr\<close> and \<open>sign\<close> share.\<close>

definition check_key :: "cheat_lib \<Rightarrow> u256 \<Rightarrow> call_outcome option" where
  "check_key CL sk =
     (if sk = 0 then Some (outcome_revert CL ''private key cannot be 0'')
      else if sk \<ge> cl_curve_order CL
      then Some (outcome_revert CL (''private key must be less than the secp256k1 curve order (''
                   @ show_dec (cl_curve_order CL) @ '')''))
      else None)"

definition cheat_addr :: "cheat_lib \<Rightarrow> u256 \<Rightarrow> call_outcome option" where
  "cheat_addr CL sk =
     (case check_key CL sk of
        Some o1 \<Rightarrow> Some o1
      | None \<Rightarrow>
          (case cl_public_key CL sk of
             None \<Rightarrow> None
           | Some pk \<Rightarrow>
               if length pk \<noteq> 65 then Some (outcome_revert CL ''invalid public key length'')
               else Some (outcome_address (word_rcat (drop 12 (cl_keccak CL (drop 1 pk)))))))"

definition cheat_sign :: "cheat_lib \<Rightarrow> u256 \<Rightarrow> bytes \<Rightarrow> call_outcome option" where
  "cheat_sign CL sk digest =
     (case check_key CL sk of
        Some o1 \<Rightarrow> Some o1
      | None \<Rightarrow>
          (case cl_sign CL sk digest of
             None \<Rightarrow> None
           | Some (odd_y, r, s) \<Rightarrow> Some (outcome_sign (if odd_y then 28 else 27) r s)))"

definition run_ffi :: "cheat_lib \<Rightarrow> string list \<Rightarrow> string \<Rightarrow> string + bytes" where
  "run_ffi CL args project_root =
     (case cl_run CL project_root (hd args) (tl args) of
        Run_Failed e \<Rightarrow> Inl (''ffi failed: '' @ e)
      | Run_Done success out err \<Rightarrow>
          if \<not> success then Inl (''ffi command failed: '' @ err)
          else case cl_hex_decode CL (strip_0x (str_trim out)) of
                 Inl e \<Rightarrow> Inl (''ffi output is not valid hex: '' @ e)
               | Inr bs \<Rightarrow> Inr bs)"

definition cheat_ffi :: "cheat_lib \<Rightarrow> string list \<Rightarrow> 't exec_state \<Rightarrow> call_outcome" where
  "cheat_ffi CL args xs =
     (if \<not> xs_ffi_enabled xs then outcome_revert CL ''ffi disabled: use --ffi to enable''
      else if args = [] then outcome_revert CL ''ffi: empty command''
      else case run_ffi CL args (xs_project_root xs) of
             Inl e \<Rightarrow> outcome_revert CL e
           | Inr out \<Rightarrow> outcome_bytes (cl_encode_bytes CL out))"

definition env_error :: "string \<Rightarrow> string \<Rightarrow> string" where
  "env_error key what =
     ''Failed to get environment variable '' @ key @ '' as type string: environment variable '' @ what"

definition get_env :: "cheat_lib \<Rightarrow> string \<Rightarrow> call_outcome" where
  "get_env CL key =
     (case cl_env_var CL key of
        Env_Ok value \<Rightarrow> to_string_outcome CL value
      | Env_Not_Present \<Rightarrow> outcome_revert CL (env_error key ''not found'')
      | Env_Not_Unicode \<Rightarrow> outcome_revert CL (env_error key ''was not valid unicode''))"

definition get_env_or_default :: "cheat_lib \<Rightarrow> string \<Rightarrow> string \<Rightarrow> call_outcome" where
  "get_env_or_default CL key fallback =
     (case cl_env_var CL key of
        Env_Ok value \<Rightarrow> to_string_outcome CL value
      | Env_Not_Present \<Rightarrow> to_string_outcome CL fallback
      | Env_Not_Unicode \<Rightarrow> outcome_revert CL (env_error key ''was not valid unicode''))"

subsection \<open>Forks\<close>

record fork_options =
  fx_retries :: "u32 option"
  fx_backoff_ms :: "u64 option"
  fx_timeout_ms :: "u64 option"
  fx_rate_limit :: "u64 option"

definition fork_options_default :: fork_options where
  "fork_options_default = \<lparr>fx_retries = None, fx_backoff_ms = None, fx_timeout_ms = None, fx_rate_limit = None\<rparr>"

definition or_keep :: "'a option \<Rightarrow> 'a \<Rightarrow> 'a" where
  "or_keep x old = (case x of Some v \<Rightarrow> v | None \<Rightarrow> old)"

text \<open>The configuration of a fork: the defaults with the options of the call; a rate limit of 0 is none.\<close>

definition fork_call_settings :: "fork_config \<Rightarrow> string \<Rightarrow> u64 \<Rightarrow> fork_options \<Rightarrow> fork_config" where
  "fork_call_settings defaults url block options =
     defaults\<lparr>fg_url := url, fg_block_number := block,
              fg_retries := or_keep (fx_retries options) (fg_retries defaults),
              fg_backoff_ms := or_keep (fx_backoff_ms options) (fg_backoff_ms defaults),
              fg_timeout_ms := or_keep (fx_timeout_ms options) (fg_timeout_ms defaults),
              fg_rate_limit := (case fx_rate_limit options of
                                  None \<Rightarrow> fg_rate_limit defaults
                                | Some r \<Rightarrow> if r = 0 then None else Some r)\<rparr>"

text \<open>The environment of the fork in the context and in the scratchpad of block cheats.\<close>

definition apply_fork_env :: "cheat_lib \<Rightarrow> fork_env \<Rightarrow> 'j cheat_ctx \<Rightarrow> 'j cheat_ctx" where
  "apply_fork_env CL env cx =
     cx\<lparr>cx_block := (cx_block cx)
          \<lparr>bl_number := ucast (fe_block_number env), bl_timestamp := fe_timestamp env,
           bl_beneficiary := fe_beneficiary env, bl_difficulty := fe_difficulty env,
           bl_prevrandao := fe_prevrandao env, bl_gas_limit := - 1, bl_basefee := 0,
           bl_blob := Some (cl_blob CL (or_keep (fe_excess_blob_gas env) 0) (fe_spec_id env))\<rparr>,
        cx_chain_id := fe_chain_id env, cx_spec := fe_spec_id env\<rparr>"

definition sync_fork_env :: "fork_env \<Rightarrow> 't exec_state \<Rightarrow> 't exec_state" where
  "sync_fork_env env xs =
     xs\<lparr>xs_block := (xs_block xs)
          \<lparr>bs_chain_id := Some (ucast (fe_chain_id env)), bs_number := Some (ucast (fe_block_number env)),
           bs_timestamp := Some (fe_timestamp env), bs_beneficiary := Some (fe_beneficiary env),
           bs_prevrandao := fe_prevrandao env\<rparr>\<rparr>"

definition fork_with_options ::
  "cheat_lib \<Rightarrow> ('j, 't) journal_ops \<Rightarrow> string \<Rightarrow> u256 \<Rightarrow> fork_options \<Rightarrow> 'j cheat_ctx \<Rightarrow> 't exec_state \<Rightarrow>
   ('j, 't) handled" where
  "fork_with_options CL JO url block_number options cx xs =
     (if url = [] then (Some (outcome_revert CL ''fork: empty RPC URL''), cx, xs)
      else if unat block_number \<ge> 2 ^ 64
      then (Some (outcome_revert CL (''fork: block number '' @ show_dec block_number @ '' does not fit in u64'')),
            cx, xs)
      else
        let block = ucast block_number :: u64;
            config = fork_call_settings (xs_fork_defaults xs) url block options;
            R = cx_registry cx;
            j1 = (if jo_is_active_fork JO url block (cx_journal cx) then cx_journal cx
                  else jo_commit_remote JO (is_persistent R) (cx_journal cx))
        in case jo_fork JO url block config (xs_transport xs) R j1 of
             (Inl e, j2) \<Rightarrow>
               (Some (outcome_revert CL (''fork failed: '' @ cl_db_error_text CL e)), cx\<lparr>cx_journal := j2\<rparr>, xs)
           | (Inr env, j2) \<Rightarrow>
               (Some outcome_success, apply_fork_env CL env (cx\<lparr>cx_journal := j2\<rparr>), sync_fork_env env xs))"

definition cheat_fork ::
  "cheat_lib \<Rightarrow> ('j, 't) journal_ops \<Rightarrow> string \<Rightarrow> u256 \<Rightarrow> 'j cheat_ctx \<Rightarrow> 't exec_state \<Rightarrow> ('j, 't) handled" where
  "cheat_fork CL JO url block_number = fork_with_options CL JO url block_number fork_options_default"

subsection \<open>Dispatch\<close>

definition on_ctx :: "(call_outcome option \<times> 'j cheat_ctx) \<Rightarrow> 't exec_state \<Rightarrow> ('j, 't) handled" where
  "on_ctx r xs = (fst r, snd r, xs)"

definition on_prank :: "call_outcome \<times> prank_cheats \<Rightarrow> 'j cheat_ctx \<Rightarrow> 't exec_state \<Rightarrow> ('j, 't) handled" where
  "on_prank r cx xs = (Some (fst r), cx, xs\<lparr>xs_prank := snd r\<rparr>)"

fun cheat_dispatch ::
  "cheat_lib \<Rightarrow> ('j, 't) journal_ops \<Rightarrow> vm_call \<Rightarrow> 'j cheat_ctx \<Rightarrow> 't exec_state \<Rightarrow> ('j, 't) handled" where
  "cheat_dispatch CL JO (Vm_Warp v) cx xs = cheat_warp v cx xs"
| "cheat_dispatch CL JO (Vm_Roll v) cx xs = cheat_roll v cx xs"
| "cheat_dispatch CL JO (Vm_Fee v) cx xs = cheat_fee v cx xs"
| "cheat_dispatch CL JO (Vm_Coinbase a) cx xs = cheat_coinbase a cx xs"
| "cheat_dispatch CL JO (Vm_Prevrandao v) cx xs = cheat_prevrandao v cx xs"
| "cheat_dispatch CL JO (Vm_Chain_Id v) cx xs = cheat_chain_id v cx xs"
| "cheat_dispatch CL JO (Vm_Deal a v) cx xs = on_ctx (cheat_deal JO a v cx) xs"
| "cheat_dispatch CL JO (Vm_Etch a code) cx xs = on_ctx (cheat_etch CL JO a code cx) xs"
| "cheat_dispatch CL JO (Vm_Set_Nonce a n) cx xs = on_ctx (cheat_set_nonce CL JO a n cx) xs"
| "cheat_dispatch CL JO (Vm_Get_Nonce a) cx xs = on_ctx (cheat_get_nonce JO a cx) xs"
| "cheat_dispatch CL JO (Vm_Store a slot v) cx xs = on_ctx (cheat_store CL JO a slot v cx) xs"
| "cheat_dispatch CL JO (Vm_Load a slot) cx xs = on_ctx (cheat_load CL JO a slot cx) xs"
| "cheat_dispatch CL JO (Vm_Prank a) cx xs = on_prank (set_prank CL a None (xs_prank xs)) cx xs"
| "cheat_dispatch CL JO (Vm_Prank_Origin a origin) cx xs = on_prank (set_prank CL a (Some origin) (xs_prank xs)) cx xs"
| "cheat_dispatch CL JO (Vm_Start_Prank a) cx xs = on_prank (set_start_prank CL a None (xs_prank xs)) cx xs"
| "cheat_dispatch CL JO (Vm_Start_Prank_Origin a origin) cx xs =
     on_prank (set_start_prank CL a (Some origin) (xs_prank xs)) cx xs"
| "cheat_dispatch CL JO Vm_Stop_Prank cx xs = on_prank (stop_prank (xs_prank xs)) cx xs"
| "cheat_dispatch CL JO (Vm_Label a name) cx xs = (case cheat_label a name xs of (out, xs') \<Rightarrow> (Some out, cx, xs'))"
| "cheat_dispatch CL JO (Vm_Get_Label a) cx xs = (Some (cheat_get_label CL a xs), cx, xs)"
| "cheat_dispatch CL JO (Vm_String_Address a) cx xs = (Some (to_string_outcome CL (cl_address_text CL a)), cx, xs)"
| "cheat_dispatch CL JO (Vm_String_Bool b) cx xs = (Some (to_string_bool CL b), cx, xs)"
| "cheat_dispatch CL JO (Vm_String_Uint v) cx xs = (Some (to_string_outcome CL (show_dec v)), cx, xs)"
| "cheat_dispatch CL JO (Vm_String_Int v) cx xs = (Some (to_string_outcome CL (cl_show_i256 CL v)), cx, xs)"
| "cheat_dispatch CL JO (Vm_String_Bytes32 v) cx xs = (Some (to_string_bytes CL (be_bytes 32 v)), cx, xs)"
| "cheat_dispatch CL JO (Vm_String_Bytes bs) cx xs = (Some (to_string_bytes CL bs), cx, xs)"
| "cheat_dispatch CL JO (Vm_Parse_Uint s) cx xs = (parse_uint CL s, cx, xs)"
| "cheat_dispatch CL JO (Vm_Parse_Int s) cx xs = (parse_int CL s, cx, xs)"
| "cheat_dispatch CL JO (Vm_Parse_Bool s) cx xs = (Some (parse_bool CL s), cx, xs)"
| "cheat_dispatch CL JO (Vm_Parse_Address s) cx xs = (parse_address CL s, cx, xs)"
| "cheat_dispatch CL JO (Vm_Parse_Bytes s) cx xs = (parse_bytes CL s, cx, xs)"
| "cheat_dispatch CL JO (Vm_Parse_Bytes32 s) cx xs = (parse_bytes32 CL s, cx, xs)"
| "cheat_dispatch CL JO (Vm_Addr sk) cx xs = (cheat_addr CL sk, cx, xs)"
| "cheat_dispatch CL JO (Vm_Sign sk digest) cx xs = (cheat_sign CL sk digest, cx, xs)"
| "cheat_dispatch CL JO (Vm_Ffi args) cx xs = (Some (cheat_ffi CL args xs), cx, xs)"
| "cheat_dispatch CL JO (Vm_Get_Env key) cx xs = (Some (get_env CL key), cx, xs)"
| "cheat_dispatch CL JO (Vm_Get_Env_Or key fallback) cx xs = (Some (get_env_or_default CL key fallback), cx, xs)"
| "cheat_dispatch CL JO (Vm_Fork url block) cx xs = cheat_fork CL JO url block cx xs"
| "cheat_dispatch CL JO (Vm_Fork_With url block config) cx xs =
     fork_with_options CL JO url block
       \<lparr>fx_retries = Some (fc_retries config), fx_backoff_ms = Some (fc_backoff_ms config),
        fx_timeout_ms = Some (fc_timeout_ms config), fx_rate_limit = Some (fc_rate_limit config)\<rparr> cx xs"

end
