(* ===== verification/Cheat_Inspector.thy ===== *)
theory Cheat_Inspector
  imports Cheat_Calls
begin

section \<open>The cheatcode inspector\<close>

text \<open>
  \<open>evm/cheatcode/inspector.rs\<close>: the callbacks of the inspector. The EVM drives them: it enters a call
  frame (\<open>frame_start\<close>, which may change the caller, then \<open>call\<close>, which may answer instead of
  the EVM), enters a creation, or ends a frame. Between two callbacks it may change the journal.
  \<open>tx.origin\<close> is changed by nothing but the inspector during a transaction.
\<close>

record call_inputs =
  ci_caller :: address
  ci_target :: address
  ci_input :: bytes
  ci_gas_limit :: u64
  ci_return_offset :: "nat \<times> nat"

text \<open>
  \<open>in_shared_labels\<close> is the content of the shared map, when there is one; \<open>in_marks_local\<close> says that
  \<open>local_registry\<close> is present, which is then the registry of the context.
\<close>

record 't cheat_inspector =
  in_state :: "'t exec_state"
  in_shared_labels :: "(address \<Rightarrow> string option) option"
  in_depth :: u64
  in_marks_local :: bool

definition inspector_new :: "'t cheat_config \<Rightarrow> 't cheat_inspector" where
  "inspector_new config =
     \<lparr>in_state = exec_state_from_config config, in_shared_labels = None, in_depth = 0, in_marks_local = False\<rparr>"

definition inspector_from_state :: "'t exec_state \<Rightarrow> 't cheat_inspector" where
  "inspector_from_state xs = \<lparr>in_state = xs, in_shared_labels = None, in_depth = 0, in_marks_local = True\<rparr>"

subsection \<open>Applying a prank\<close>

type_synonym 'j pranked = "'j cheat_ctx \<times> prank_cheats"

definition patch_origin :: "address \<Rightarrow> 'j pranked \<Rightarrow> 'j pranked" where
  "patch_origin new_origin s =
     (case s of (cx, pc) \<Rightarrow>
        (cx\<lparr>cx_origin := new_origin\<rparr>,
         if pc_original_origin pc = None then pc\<lparr>pc_original_origin := Some (cx_origin cx)\<rparr> else pc))"

definition maybe_restore_origin :: "'j pranked \<Rightarrow> 'j pranked" where
  "maybe_restore_origin s =
     (case s of (cx, pc) \<Rightarrow>
        if pc_start pc \<noteq> None \<or> pc_active pc \<noteq> None then (cx, pc)
        else case pc_original_origin pc of
               None \<Rightarrow> (cx, pc)
             | Some orig \<Rightarrow> (cx\<lparr>cx_origin := orig\<rparr>, pc\<lparr>pc_original_origin := None\<rparr>))"

definition load_pranked_caller :: "('j, 't) journal_ops \<Rightarrow> address \<Rightarrow> 'j cheat_ctx \<Rightarrow> 'j cheat_ctx" where
  "load_pranked_caller JO a cx = cx\<lparr>cx_journal := snd (jo_load_account JO a (cx_journal cx))\<rparr>"

text \<open>The caller and origin a prank gives to a frame, when it applies; \<open>not_vm\<close> holds of creations.\<close>

definition start_info :: "u64 \<Rightarrow> bool \<Rightarrow> address \<Rightarrow> prank_cheats \<Rightarrow> (address \<times> address option) option" where
  "start_info depth not_vm caller pc =
     (case pc_start pc of
        None \<Rightarrow> None
      | Some s \<Rightarrow> if caller = sp_prank_caller s \<and> sp_set_depth s < depth \<and> not_vm
                  then Some (sp_caller s, sp_origin s) else None)"

definition prank_info :: "u64 \<Rightarrow> bool \<Rightarrow> address \<Rightarrow> prank_cheats \<Rightarrow> (address \<times> address option) option" where
  "prank_info depth not_vm caller pc =
     (case pc_active pc of
        None \<Rightarrow> None
      | Some p \<Rightarrow> if caller = pk_prank_caller p \<and> pk_set_depth p < depth \<and> not_vm \<and> \<not> pk_used p
                  then Some (pk_caller p, pk_origin p) else None)"

definition spoof ::
  "('j, 't) journal_ops \<Rightarrow> (address \<times> address option) option \<Rightarrow> address \<times> 'j pranked \<Rightarrow> address \<times> 'j pranked" where
  "spoof JO info s =
     (case info of
        None \<Rightarrow> s
      | Some (a, origin) \<Rightarrow>
          (case s of (_, cx, pc) \<Rightarrow>
             let s1 = (load_pranked_caller JO a cx, pc)
             in (a, case origin of None \<Rightarrow> s1 | Some new_origin \<Rightarrow> patch_origin new_origin s1)))"

definition mark_used :: "bool \<Rightarrow> bool \<Rightarrow> prank_cheats \<Rightarrow> prank_cheats" where
  "mark_used by_start by_prank pc =
     pc\<lparr>pc_start := (if by_start then map_option (\<lambda>s. s\<lparr>sp_used := True\<rparr>) (pc_start pc) else pc_start pc),
        pc_active := (if by_prank then map_option (\<lambda>p. p\<lparr>pk_used := True\<rparr>) (pc_active pc) else pc_active pc)\<rparr>"

text \<open>\<open>apply_prank\<close> and \<open>apply_create_prank\<close>: the new caller of the frame, the context and the pranks.\<close>

definition apply_prank ::
  "('j, 't) journal_ops \<Rightarrow> u64 \<Rightarrow> bool \<Rightarrow> address \<Rightarrow> 'j pranked \<Rightarrow> address \<times> 'j pranked" where
  "apply_prank JO depth not_vm caller s =
     (case s of (cx, pc) \<Rightarrow>
        if pc_start pc = None \<and> pc_active pc = None then (caller, cx, pc)
        else
          let by_start = start_info depth not_vm caller pc;
              by_prank = prank_info depth not_vm caller pc
          in case spoof JO by_prank (spoof JO by_start (caller, cx, pc)) of
               (caller', cx', pc') \<Rightarrow> (caller', cx', mark_used (by_start \<noteq> None) (by_prank \<noteq> None) pc'))"

definition put_pranked :: "'j pranked \<Rightarrow> 't cheat_inspector \<Rightarrow> 't cheat_inspector \<times> 'j cheat_ctx" where
  "put_pranked s ins = (case s of (cx, pc) \<Rightarrow> (ins\<lparr>in_state := (in_state ins)\<lparr>xs_prank := pc\<rparr>\<rparr>, cx))"

subsection \<open>Callbacks\<close>

definition frame_start ::
  "('j, 't) journal_ops \<Rightarrow> bool \<Rightarrow> address \<Rightarrow> 't cheat_inspector \<times> 'j cheat_ctx \<Rightarrow>
   address \<times> 't cheat_inspector \<times> 'j cheat_ctx" where
  "frame_start JO not_vm caller st =
     (case st of (ins, cx) \<Rightarrow>
        let depth = in_depth ins + 1
        in case apply_prank JO depth not_vm caller (cx, xs_prank (in_state ins)) of
             (caller', s) \<Rightarrow> (caller', put_pranked s (ins\<lparr>in_depth := depth\<rparr>)))"

text \<open>The caller and depth of a prank are filled in by the first cheatcode call that finds them zero.\<close>

definition stamp_prank :: "address \<Rightarrow> u64 \<Rightarrow> prank_state \<Rightarrow> prank_state" where
  "stamp_prank caller depth p =
     p\<lparr>pk_prank_caller := (if pk_prank_caller p = 0 then caller else pk_prank_caller p),
       pk_set_depth := (if pk_set_depth p = 0 then depth else pk_set_depth p)\<rparr>"

definition stamp_start :: "address \<Rightarrow> u64 \<Rightarrow> start_prank_state \<Rightarrow> start_prank_state" where
  "stamp_start caller depth s =
     s\<lparr>sp_prank_caller := (if sp_prank_caller s = 0 then caller else sp_prank_caller s),
       sp_set_depth := (if sp_set_depth s = 0 then depth else sp_set_depth s)\<rparr>"

definition stamp :: "address \<Rightarrow> u64 \<Rightarrow> prank_cheats \<Rightarrow> prank_cheats" where
  "stamp caller depth pc =
     pc\<lparr>pc_active := map_option (stamp_prank caller depth) (pc_active pc),
        pc_start := map_option (stamp_start caller depth) (pc_start pc)\<rparr>"

text \<open>The address \<open>vm.addr\<close> derived, from its return data.\<close>

definition derived_address :: "vm_call \<Rightarrow> call_outcome option \<Rightarrow> address option" where
  "derived_address call out =
     (case (call, out) of
        (Vm_Addr _, Some o1) \<Rightarrow>
          if oc_result o1 = Ir_Return \<and> 32 \<le> length (oc_output o1)
          then Some (word_rcat (take 20 (drop 12 (oc_output o1)))) else None
      | _ \<Rightarrow> None)"

definition on_call ::
  "cheat_lib \<Rightarrow> ('j, 't) journal_ops \<Rightarrow> (bytes \<Rightarrow> vm_call option) \<Rightarrow> call_inputs \<Rightarrow>
   't cheat_inspector \<times> 'j cheat_ctx \<Rightarrow> call_outcome option \<times> 't cheat_inspector \<times> 'j cheat_ctx" where
  "on_call CL JO decode inputs st =
     (case st of (ins, cx) \<Rightarrow>
        if ci_target inputs \<noteq> VM_ADDRESS \<or> length (ci_input inputs) < 4 then (None, st)
        else case decode (ci_input inputs) of
               None \<Rightarrow> (None, st)
             | Some call \<Rightarrow>
                 (case cheat_dispatch CL JO call cx (in_state ins) of
                    (out, cx1, xs1) \<Rightarrow>
                      let out' = map_option (\<lambda>o1. o1\<lparr>oc_memory_offset := ci_return_offset inputs,
                                                     oc_gas := ci_gas_limit inputs\<rparr>) out;
                          cx2 = (case derived_address call out' of
                                   Some a \<Rightarrow>
                                     if in_marks_local ins then cx1\<lparr>cx_registry := mark_local a (cx_registry cx1)\<rparr>
                                     else cx1
                                 | None \<Rightarrow> cx1);
                          pc1 = stamp (ci_caller inputs) (sat_sub (in_depth ins) 1) (xs_prank xs1);
                          s = (if call = Vm_Stop_Prank \<and> map_option oc_result out' = Some Ir_Stop
                               then maybe_restore_origin (cx2, pc1) else (cx2, pc1))
                      in (out',
                          ins\<lparr>in_state := xs1\<lparr>xs_prank := snd s\<rparr>,
                              in_shared_labels := map_option (\<lambda>_. xs_labels xs1) (in_shared_labels ins)\<rparr>, fst s)))"

text \<open>\<open>call_end\<close> and \<open>create_end\<close>: a prank of one call ends with the frame that asked for it.\<close>

definition frame_end :: "'t cheat_inspector \<times> 'j cheat_ctx \<Rightarrow> 't cheat_inspector \<times> 'j cheat_ctx" where
  "frame_end st =
     (case st of (ins, cx) \<Rightarrow>
        let pc = xs_prank (in_state ins);
            initiator_exited = (case pc_active pc of
                                  Some p \<Rightarrow> pk_single_call p \<and> in_depth ins = pk_set_depth p
                                | None \<Rightarrow> False);
            ins' = ins\<lparr>in_depth := sat_sub (in_depth ins) 1\<rparr>
        in if initiator_exited then put_pranked (maybe_restore_origin (cx, pc\<lparr>pc_active := None\<rparr>)) ins'
           else (ins', cx))"

subsection \<open>Runs of callbacks\<close>

datatype 'j cheat_event =
    Enter_Call call_inputs
  | Enter_Create address
  | Enter_Empty
  | Frame_End
  | Evm_Step 'j

text \<open>
  A frame is observed with the caller it asked for and the one it gets; \<open>call\<close> sees the changed
  inputs.
\<close>

fun cheat_step ::
  "cheat_lib \<Rightarrow> ('j, 't) journal_ops \<Rightarrow> (bytes \<Rightarrow> vm_call option) \<Rightarrow> 'j cheat_event \<Rightarrow>
   't cheat_inspector \<times> 'j cheat_ctx \<Rightarrow> (address \<times> address) list \<times> 't cheat_inspector \<times> 'j cheat_ctx" where
  "cheat_step CL JO decode (Enter_Call inputs) st =
     (case frame_start JO (ci_target inputs \<noteq> VM_ADDRESS) (ci_caller inputs) st of
        (caller, st1) \<Rightarrow>
          (case on_call CL JO decode (inputs\<lparr>ci_caller := caller\<rparr>) st1 of
             (_, st2) \<Rightarrow> ([(ci_caller inputs, caller)], st2)))"
| "cheat_step CL JO decode (Enter_Create caller) st =
     (case frame_start JO True caller st of (caller', st1) \<Rightarrow> ([(caller, caller')], st1))"
| "cheat_step CL JO decode Enter_Empty st =
     (case st of (ins, cx) \<Rightarrow> ([], ins\<lparr>in_depth := in_depth ins + 1\<rparr>, cx))"
| "cheat_step CL JO decode Frame_End st = ([], frame_end st)"
| "cheat_step CL JO decode (Evm_Step j) st = (case st of (ins, cx) \<Rightarrow> ([], ins, cx\<lparr>cx_journal := j\<rparr>))"

fun cheat_run ::
  "cheat_lib \<Rightarrow> ('j, 't) journal_ops \<Rightarrow> (bytes \<Rightarrow> vm_call option) \<Rightarrow> 'j cheat_event list \<Rightarrow>
   't cheat_inspector \<times> 'j cheat_ctx \<Rightarrow> (address \<times> address) list \<times> 't cheat_inspector \<times> 'j cheat_ctx" where
  "cheat_run CL JO decode [] st = ([], st)"
| "cheat_run CL JO decode (ev # evs) st =
     (case cheat_step CL JO decode ev st of
        (frames, st1) \<Rightarrow> (case cheat_run CL JO decode evs st1 of (frames', st2) \<Rightarrow> (frames @ frames', st2)))"

lemma cheat_run_append:
  "cheat_run CL JO decode (xs @ ys) st =
     (case cheat_run CL JO decode xs st of
        (f1, st1) \<Rightarrow> (case cheat_run CL JO decode ys st1 of (f2, st2) \<Rightarrow> (f1 @ f2, st2)))"
  by (induction xs arbitrary: st) (auto split: prod.splits)

end
