(* ===== verification/Cheat_Pranks.thy ===== *)
theory Cheat_Pranks
  imports Cheat_Inspector
begin

section \<open>What pranks do to a transaction\<close>

text \<open>
  The invariants of the pranks over arbitrary runs of callbacks: \<open>tx.origin\<close> is only ever the real one
  or one that a prank asked for, and it is the real one whenever no prank is left; a prank of one
  call changes one frame and ends with the frame that asked for it.
\<close>

subsection \<open>The origin\<close>

definition prank_origins :: "prank_cheats \<Rightarrow> address set" where
  "prank_origins pc =
     (case pc_active pc of Some p \<Rightarrow> set_option (pk_origin p) | None \<Rightarrow> {})
     \<union> (case pc_start pc of Some s \<Rightarrow> set_option (sp_origin s) | None \<Rightarrow> {})"

definition no_prank :: "prank_cheats \<Rightarrow> bool" where
  "no_prank pc \<longleftrightarrow> pc_active pc = None \<and> pc_start pc = None"

definition origin_base :: "address \<Rightarrow> address set \<Rightarrow> 'j pranked \<Rightarrow> bool" where
  "origin_base real origins s \<longleftrightarrow>
     (case s of (cx, pc) \<Rightarrow>
        (case pc_original_origin pc of None \<Rightarrow> cx_origin cx = real | Some orig \<Rightarrow> orig = real)
        \<and> cx_origin cx \<in> insert real origins \<and> prank_origins pc \<subseteq> origins)"

definition origin_ok :: "address \<Rightarrow> address set \<Rightarrow> 'j pranked \<Rightarrow> bool" where
  "origin_ok real origins s \<longleftrightarrow>
     origin_base real origins s \<and> (no_prank (snd s) \<longrightarrow> pc_original_origin (snd s) = None)"

text \<open>The origins that the cheatcode calls of a run ask for.\<close>

fun call_origins :: "vm_call \<Rightarrow> address set" where
  "call_origins (Vm_Prank_Origin a origin) = {origin}"
| "call_origins (Vm_Start_Prank_Origin a origin) = {origin}"
| "call_origins _ = {}"

definition vm_call_of :: "(bytes \<Rightarrow> vm_call option) \<Rightarrow> call_inputs \<Rightarrow> vm_call option" where
  "vm_call_of decode inputs =
     (if ci_target inputs \<noteq> VM_ADDRESS \<or> length (ci_input inputs) < 4 then None else decode (ci_input inputs))"

fun event_call :: "(bytes \<Rightarrow> vm_call option) \<Rightarrow> 'j cheat_event \<Rightarrow> vm_call option" where
  "event_call decode (Enter_Call inputs) = vm_call_of decode inputs"
| "event_call decode _ = None"

definition asked_origins :: "(bytes \<Rightarrow> vm_call option) \<Rightarrow> 'j cheat_event list \<Rightarrow> address set" where
  "asked_origins decode evs = (\<Union>ev \<in> set evs. \<Union>call \<in> set_option (event_call decode ev). call_origins call)"

definition inspector_prank :: "'t cheat_inspector \<times> 'j cheat_ctx \<Rightarrow> 'j pranked" where
  "inspector_prank st = (case st of (ins, cx) \<Rightarrow> (cx, xs_prank (in_state ins)))"

lemma prank_original_update [simp]:
  "prank_origins (pc\<lparr>pc_original_origin := x\<rparr>) = prank_origins pc"
  "no_prank (pc\<lparr>pc_original_origin := x\<rparr>) = no_prank pc"
  by (simp_all add: prank_origins_def no_prank_def)

lemma origin_ok_restore:
  "origin_base real origins (cx, pc) \<Longrightarrow> origin_ok real origins (maybe_restore_origin (cx, pc))"
  by (auto simp: origin_ok_def origin_base_def maybe_restore_origin_def no_prank_def split: option.splits)

lemma prank_origins_stamp [simp]: "prank_origins (stamp caller depth pc) = prank_origins pc"
  by (simp add: prank_origins_def stamp_def stamp_prank_def stamp_start_def split: option.split)

lemma no_prank_stamp [simp]: "no_prank (stamp caller depth pc) = no_prank pc"
  by (simp add: no_prank_def stamp_def)

lemma original_stamp [simp]: "pc_original_origin (stamp caller depth pc) = pc_original_origin pc"
  by (simp add: stamp_def)

lemma origin_base_stamp [simp]:
  "origin_base real origins (cx, stamp caller depth pc) = origin_base real origins (cx, pc)"
  by (simp add: origin_base_def)

lemma prank_origins_mark [simp]: "prank_origins (mark_used b c pc) = prank_origins pc"
  by (simp add: prank_origins_def mark_used_def split: option.split)

lemma no_prank_mark [simp]: "no_prank (mark_used b c pc) = no_prank pc"
  by (simp add: no_prank_def mark_used_def)

lemma original_mark [simp]: "pc_original_origin (mark_used b c pc) = pc_original_origin pc"
  by (simp add: mark_used_def)

lemma origin_ok_mark: "origin_ok real origins (cx, mark_used b c pc) = origin_ok real origins (cx, pc)"
  by (simp add: origin_ok_def origin_base_def)

lemma load_pranked_origin [simp]: "cx_origin (load_pranked_caller JO a cx) = cx_origin cx"
  by (simp add: load_pranked_caller_def)

lemma patch_ok:
  "origin_base real origins (cx, pc) \<Longrightarrow> new_origin \<in> origins \<Longrightarrow>
   origin_base real origins (patch_origin new_origin (cx, pc))"
  by (auto simp: origin_base_def patch_origin_def split: option.splits)

lemma spoof_ok:
  assumes "origin_base real origins (cx, pc)" "\<And>a origin. info = Some (a, Some origin) \<Longrightarrow> origin \<in> origins"
  shows "origin_base real origins (snd (spoof JO info (c, cx, pc)))"
proof (cases info)
  case None
  then show ?thesis using assms(1) by (simp add: spoof_def)
next
  case (Some i)
  obtain a new_origin where i: "i = (a, new_origin)" by (rule prod.exhaust)
  have "origin_base real origins (load_pranked_caller JO a cx, pc)"
    using assms(1) by (simp add: origin_base_def split: option.splits)
  then show ?thesis using assms(2) Some i
    by (cases new_origin) (simp_all add: spoof_def Let_def patch_ok)
qed

lemma spoof_pranks:
  "spoof JO info (c, cx, pc) = (c', cx', pc') \<Longrightarrow> pc_active pc' = pc_active pc \<and> pc_start pc' = pc_start pc"
  by (auto simp: spoof_def patch_origin_def Let_def split: option.splits if_splits)

lemma prank_info_origin: "prank_info depth nv c pc = Some (a, Some origin) \<Longrightarrow> origin \<in> prank_origins pc"
  by (auto simp: prank_info_def prank_origins_def split: option.splits if_splits)

lemma start_info_origin: "start_info depth nv c pc = Some (a, Some origin) \<Longrightarrow> origin \<in> prank_origins pc"
  by (auto simp: start_info_def prank_origins_def split: option.splits if_splits)

lemma apply_prank_cases:
  assumes "\<not> no_prank pc"
  obtains c1 cx1 pc1 c2 cx2 pc2 where
    "spoof JO (start_info depth nv c pc) (c, cx, pc) = (c1, cx1, pc1)"
    "spoof JO (prank_info depth nv c pc) (c1, cx1, pc1) = (c2, cx2, pc2)"
    "apply_prank JO depth nv c (cx, pc) =
       (c2, cx2, mark_used (start_info depth nv c pc \<noteq> None) (prank_info depth nv c pc \<noteq> None) pc2)"
    "pc_active pc2 = pc_active pc" "pc_start pc2 = pc_start pc"
proof -
  obtain c1 cx1 pc1 where s1: "spoof JO (start_info depth nv c pc) (c, cx, pc) = (c1, cx1, pc1)"
    by (rule prod_cases3)
  obtain c2 cx2 pc2 where s2: "spoof JO (prank_info depth nv c pc) (c1, cx1, pc1) = (c2, cx2, pc2)"
    by (rule prod_cases3)
  show ?thesis
    by (rule that [OF s1 s2]) (use assms s1 s2 spoof_pranks [OF s1] spoof_pranks [OF s2] in
        \<open>auto simp: apply_prank_def no_prank_def Let_def\<close>)
qed

lemma apply_prank_ok:
  assumes "origin_ok real origins (cx, pc)"
  shows "origin_ok real origins (snd (apply_prank JO depth nv c (cx, pc)))"
proof (cases "no_prank pc")
  case True
  then show ?thesis using assms by (simp add: apply_prank_def no_prank_def)
next
  case False
  have base: "origin_base real origins (cx, pc)" using assms by (simp add: origin_ok_def)
  then have origins: "prank_origins pc \<subseteq> origins" by (simp add: origin_base_def)
  obtain c1 cx1 pc1 c2 cx2 pc2 where s:
    "spoof JO (start_info depth nv c pc) (c, cx, pc) = (c1, cx1, pc1)"
    "spoof JO (prank_info depth nv c pc) (c1, cx1, pc1) = (c2, cx2, pc2)"
    "apply_prank JO depth nv c (cx, pc) =
       (c2, cx2, mark_used (start_info depth nv c pc \<noteq> None) (prank_info depth nv c pc \<noteq> None) pc2)"
    "pc_active pc2 = pc_active pc" "pc_start pc2 = pc_start pc"
    by (rule apply_prank_cases [OF False])
  have "origin_base real origins (cx1, pc1)"
    using spoof_ok [OF base, of "start_info depth nv c pc" JO c] s(1) start_info_origin origins by fastforce
  then have "origin_base real origins (cx2, pc2)"
    using spoof_ok [of real origins cx1 pc1 "prank_info depth nv c pc" JO c1] s(2) prank_info_origin origins by fastforce
  moreover have "\<not> no_prank pc2" using False s(4,5) by (simp add: no_prank_def)
  ultimately show ?thesis by (simp add: s(3) origin_ok_mark) (simp add: origin_ok_def)
qed


text \<open>What a cheatcode call does to the pranks.\<close>

definition prank_after :: "cheat_lib \<Rightarrow> vm_call \<Rightarrow> prank_cheats \<Rightarrow> prank_cheats" where
  "prank_after CL call pc =
     (case call of
        Vm_Prank a \<Rightarrow> snd (set_prank CL a None pc)
      | Vm_Prank_Origin a origin \<Rightarrow> snd (set_prank CL a (Some origin) pc)
      | Vm_Start_Prank a \<Rightarrow> snd (set_start_prank CL a None pc)
      | Vm_Start_Prank_Origin a origin \<Rightarrow> snd (set_start_prank CL a (Some origin) pc)
      | Vm_Stop_Prank \<Rightarrow> snd (stop_prank pc)
      | _ \<Rightarrow> pc)"

lemmas block_cheat_defs =
  cheat_warp_def cheat_roll_def cheat_fee_def cheat_coinbase_def cheat_prevrandao_def cheat_chain_id_def

lemmas account_cheat_defs =
  cheat_deal_def cheat_etch_def cheat_set_nonce_def cheat_get_nonce_def cheat_store_def cheat_load_def

lemma account_cheats_origin:
  "cx_origin (snd (cheat_deal JO a v cx)) = cx_origin cx"
  "cx_origin (snd (cheat_etch CL JO a code cx)) = cx_origin cx"
  "cx_origin (snd (cheat_set_nonce CL JO a n cx)) = cx_origin cx"
  "cx_origin (snd (cheat_get_nonce JO a cx)) = cx_origin cx"
  "cx_origin (snd (cheat_store CL JO a slot v cx)) = cx_origin cx"
  "cx_origin (snd (cheat_load CL JO a slot cx)) = cx_origin cx"
  by (simp_all add: account_cheat_defs Let_def split: prod.split option.split)

lemma fork_options_keep:
  "cx_origin (fst (snd (fork_with_options CL JO url block opts cx xs))) = cx_origin cx"
  "xs_prank (snd (snd (fork_with_options CL JO url block opts cx xs))) = xs_prank xs"
  by (simp_all add: fork_with_options_def apply_fork_env_def sync_fork_env_def Let_def
      split: prod.split sum.split)

lemma dispatch_origin: "cx_origin (fst (snd (cheat_dispatch CL JO call cx xs))) = cx_origin cx"
  by (cases call) (simp_all add: block_cheat_defs on_ctx_def on_prank_def account_cheats_origin cheat_label_def
      cheat_fork_def fork_options_keep)

lemma dispatch_prank: "xs_prank (snd (snd (cheat_dispatch CL JO call cx xs))) = prank_after CL call (xs_prank xs)"
  by (cases call) (simp_all add: block_cheat_defs on_ctx_def on_prank_def cheat_label_def cheat_fork_def
      fork_options_keep prank_after_def)

lemma dispatch_keeps:
  assumes "cheat_dispatch CL JO call cx xs = (out, cx1, xs1)"
  shows "cx_origin cx1 = cx_origin cx" "xs_prank xs1 = prank_after CL call (xs_prank xs)"
  using dispatch_origin [of CL JO call cx xs] dispatch_prank [of CL JO call cx xs] by (simp_all add: assms)

lemma prank_after_origins: "prank_origins (prank_after CL call pc) \<subseteq> prank_origins pc \<union> call_origins call"
  by (cases call) (auto simp: prank_after_def set_prank_def set_start_prank_def stop_prank_def prank_origins_def
      split: option.splits if_splits)

lemma prank_after_original [simp]: "pc_original_origin (prank_after CL call pc) = pc_original_origin pc"
  by (cases call) (auto simp: prank_after_def set_prank_def set_start_prank_def stop_prank_def)

lemma prank_after_no_prank: "call \<noteq> Vm_Stop_Prank \<Longrightarrow> no_prank (prank_after CL call pc) \<Longrightarrow> no_prank pc"
  by (cases call) (auto simp: prank_after_def set_prank_def set_start_prank_def no_prank_def split: if_splits)

lemma stop_prank_outcome:
  "cheat_dispatch CL JO Vm_Stop_Prank cx xs = (out, cx1, xs1) \<Longrightarrow> out = Some outcome_success"
  by (auto simp: on_prank_def stop_prank_def)

lemma on_call_other: "vm_call_of decode inputs = None \<Longrightarrow> snd (on_call CL JO decode inputs st) = st"
  by (auto simp: on_call_def vm_call_of_def split: if_splits prod.splits)

lemma on_call_result:
  assumes "vm_call_of decode inputs = Some call"
  obtains cx2 where "cx_origin cx2 = cx_origin cx"
    "inspector_prank (snd (on_call CL JO decode inputs (ins, cx))) =
       (if call = Vm_Stop_Prank then maybe_restore_origin else id)
         (cx2, stamp (ci_caller inputs) (sat_sub (in_depth ins) 1) (prank_after CL call (xs_prank (in_state ins))))"
    "in_depth (fst (snd (on_call CL JO decode inputs (ins, cx)))) = in_depth ins"
proof -
  have vm: "ci_target inputs = VM_ADDRESS" "\<not> length (ci_input inputs) < 4" "decode (ci_input inputs) = Some call"
    using assms by (auto simp: vm_call_of_def split: if_splits)
  obtain out cx1 xs1 where d: "cheat_dispatch CL JO call cx (in_state ins) = (out, cx1, xs1)"
    by (rule prod_cases3)
  note keeps = dispatch_keeps [OF d]
  define pc1 where "pc1 = stamp (ci_caller inputs) (sat_sub (in_depth ins) 1) (xs_prank xs1)"
  define out' where "out' = map_option (\<lambda>o1. o1\<lparr>oc_memory_offset := ci_return_offset inputs,
                                                   oc_gas := ci_gas_limit inputs\<rparr>) out"
  define cx2 where "cx2 = (case derived_address call out' of
       Some a \<Rightarrow> if in_marks_local ins then cx1\<lparr>cx_registry := mark_local a (cx_registry cx1)\<rparr> else cx1
     | None \<Rightarrow> cx1)"
  let ?stop = "call = Vm_Stop_Prank \<and> map_option oc_result out' = Some Ir_Stop"
  have "inspector_prank (snd (on_call CL JO decode inputs (ins, cx))) =
      (if ?stop then maybe_restore_origin (cx2, pc1) else (cx2, pc1))"
    "in_depth (fst (snd (on_call CL JO decode inputs (ins, cx)))) = in_depth ins"
    unfolding on_call_def prod.case
    by (simp_all only: vm d option.case prod.case Let_def if_False simp_thms not_not out'_def [symmetric]
          cx2_def [symmetric] pc1_def [symmetric])
       (simp_all add: inspector_prank_def)
  moreover have "?stop \<longleftrightarrow> call = Vm_Stop_Prank" using d stop_prank_outcome by (fastforce simp: out'_def)
  moreover have "cx_origin cx2 = cx_origin cx" by (simp add: cx2_def keeps(1) split: option.split)
  ultimately show ?thesis using that [of cx2] by (simp add: pc1_def keeps(2))
qed

lemma on_call_ok:
  assumes ok: "origin_ok real origins (inspector_prank st)"
    and asked: "\<And>call. vm_call_of decode inputs = Some call \<Longrightarrow> call_origins call \<subseteq> origins"
  shows "origin_ok real origins (inspector_prank (snd (on_call CL JO decode inputs st)))"
proof (cases "vm_call_of decode inputs")
  case None
  then show ?thesis using ok by (simp add: on_call_other)
next
  case (Some call)
  obtain ins cx where st: "st = (ins, cx)" by (rule prod.exhaust)
  let ?pc = "xs_prank (in_state ins)"
  let ?pc1 = "stamp (ci_caller inputs) (sat_sub (in_depth ins) 1) (prank_after CL call ?pc)"
  obtain cx2 where cx2: "cx_origin cx2 = cx_origin cx"
    "inspector_prank (snd (on_call CL JO decode inputs (ins, cx))) =
       (if call = Vm_Stop_Prank then maybe_restore_origin else id) (cx2, ?pc1)"
    by (rule on_call_result [OF Some])
  have base: "origin_base real origins (cx2, ?pc1)"
    using ok asked [OF Some] prank_after_origins [of CL call ?pc]
    by (auto simp: origin_ok_def origin_base_def inspector_prank_def st cx2(1) split: option.splits)
  show ?thesis
  proof (cases "call = Vm_Stop_Prank")
    case True
    then show ?thesis using origin_ok_restore [OF base] by (simp add: st cx2(2))
  next
    case False
    have "no_prank ?pc1 \<longrightarrow> pc_original_origin ?pc1 = None"
      using ok prank_after_no_prank [OF False, of CL ?pc] by (simp add: origin_ok_def inspector_prank_def st)
    then show ?thesis using base False by (simp add: st cx2(2) origin_ok_def)
  qed
qed

lemma frame_start_ok:
  "origin_ok real origins (inspector_prank st) \<Longrightarrow>
   origin_ok real origins (inspector_prank (snd (frame_start JO nv c st)))"
  using apply_prank_ok [of real origins "snd st" "xs_prank (in_state (fst st))" JO "in_depth (fst st) + 1" nv c]
  by (auto simp: frame_start_def inspector_prank_def put_pranked_def Let_def split: prod.splits)

lemma frame_end_ok:
  assumes "origin_ok real origins (inspector_prank st)"
  shows "origin_ok real origins (inspector_prank (frame_end st))"
proof -
  obtain ins cx where st: "st = (ins, cx)" by (rule prod.exhaust)
  let ?pc = "xs_prank (in_state ins)"
  have "origin_base real origins (cx, ?pc\<lparr>pc_active := None\<rparr>)"
    using assms by (auto simp: origin_ok_def origin_base_def inspector_prank_def st prank_origins_def)
  from origin_ok_restore [OF this] show ?thesis
    using assms by (auto simp: frame_end_def st inspector_prank_def put_pranked_def Let_def split: prod.splits)
qed

lemma cheat_step_ok:
  assumes "origin_ok real origins (inspector_prank st)" "asked_origins decode [ev] \<subseteq> origins"
  shows "origin_ok real origins (inspector_prank (snd (cheat_step CL JO decode ev st)))"
proof (cases ev)
  case (Enter_Call inputs)
  obtain c st1 where s1: "frame_start JO (ci_target inputs \<noteq> VM_ADDRESS) (ci_caller inputs) st = (c, st1)"
    by (rule prod.exhaust)
  have "origin_ok real origins (inspector_prank st1)" using frame_start_ok [OF assms(1)] s1 by (metis snd_conv)
  moreover have "call_origins call \<subseteq> origins" if "vm_call_of decode (inputs\<lparr>ci_caller := c\<rparr>) = Some call" for call
    using that assms(2) by (simp add: asked_origins_def Enter_Call vm_call_of_def split: if_splits)
  ultimately have "origin_ok real origins (inspector_prank (snd (on_call CL JO decode (inputs\<lparr>ci_caller := c\<rparr>) st1)))"
    by (rule on_call_ok)
  then show ?thesis by (simp add: Enter_Call s1 split_beta)
next
  case (Enter_Create c)
  then show ?thesis using frame_start_ok [OF assms(1), of JO True c] by (simp add: split_beta)
next
  case Enter_Empty
  then show ?thesis using assms(1) by (simp add: inspector_prank_def split: prod.splits)
next
  case Frame_End
  then show ?thesis using frame_end_ok [OF assms(1)] by simp
next
  case (Evm_Step j)
  then show ?thesis using assms(1)
    by (auto simp: inspector_prank_def origin_ok_def origin_base_def split: prod.splits option.splits)
qed

lemma asked_Cons: "asked_origins decode (ev # evs) = asked_origins decode [ev] \<union> asked_origins decode evs"
  by (simp add: asked_origins_def)

lemma cheat_run_ok:
  "origin_ok real origins (inspector_prank st) \<Longrightarrow> asked_origins decode evs \<subseteq> origins \<Longrightarrow>
   origin_ok real origins (inspector_prank (snd (cheat_run CL JO decode evs st)))"
proof (induction evs arbitrary: st)
  case (Cons ev evs)
  obtain f1 st1 where s1: "cheat_step CL JO decode ev st = (f1, st1)" by (rule prod.exhaust)
  have "origin_ok real origins (inspector_prank st1)"
    using cheat_step_ok [OF Cons.prems(1), of decode ev CL JO] Cons.prems(2) s1 by (simp add: asked_Cons [of _ _ evs])
  then have "origin_ok real origins (inspector_prank (snd (cheat_run CL JO decode evs st1)))"
    using Cons.IH [of st1] Cons.prems(2) by (simp add: asked_Cons [of _ _ evs])
  then show ?case using s1 by (simp add: split_beta)
qed simp


text \<open>
  C13: \<open>tx.origin\<close> is given back. In a transaction that starts without a patched origin, after any
  sequence of frames, cheatcode calls and EVM steps the origin is the real one or one that a prank
  of the state or of the run asked for, and whenever no prank is left it is the real one again.
\<close>

theorem origins_are_restored:
  assumes "pc_original_origin (xs_prank (in_state ins)) = None"
    and "cheat_run CL JO decode evs (ins, cx) = (frames, ins', cx')"
  shows "cx_origin cx' \<in> insert (cx_origin cx) (prank_origins (xs_prank (in_state ins)) \<union> asked_origins decode evs)
    \<and> (no_prank (xs_prank (in_state ins')) \<longrightarrow>
         cx_origin cx' = cx_origin cx \<and> pc_original_origin (xs_prank (in_state ins')) = None)"
proof -
  let ?origins = "prank_origins (xs_prank (in_state ins)) \<union> asked_origins decode evs"
  have "origin_ok (cx_origin cx) ?origins (inspector_prank (ins, cx))"
    using assms(1) by (simp add: origin_ok_def origin_base_def inspector_prank_def)
  from cheat_run_ok [OF this, of decode evs CL JO] show ?thesis
    by (auto simp: assms(2) origin_ok_def origin_base_def inspector_prank_def)
qed

subsection \<open>Pranks of one call\<close>

fun installs_prank :: "vm_call \<Rightarrow> bool" where
  "installs_prank (Vm_Prank _) = True"
| "installs_prank (Vm_Prank_Origin _ _) = True"
| "installs_prank (Vm_Start_Prank _) = True"
| "installs_prank (Vm_Start_Prank_Origin _ _) = True"
| "installs_prank _ = False"

definition installs_none :: "(bytes \<Rightarrow> vm_call option) \<Rightarrow> 'j cheat_event list \<Rightarrow> bool" where
  "installs_none decode evs \<longleftrightarrow> (\<forall>ev \<in> set evs. \<forall>call. event_call decode ev = Some call \<longrightarrow> \<not> installs_prank call)"

text \<open>Every frame that is entered in the run is ended in it, in order.\<close>

inductive nested :: "'j cheat_event list \<Rightarrow> bool" where
  nested_Nil: "nested []"
| nested_Evm: "nested evs \<Longrightarrow> nested (Evm_Step j # evs)"
| nested_Frame: "ev \<in> range Enter_Call \<union> range Enter_Create \<union> {Enter_Empty} \<Longrightarrow> nested evs1 \<Longrightarrow> nested evs2 \<Longrightarrow>
    nested (ev # evs1 @ Frame_End # evs2)"

text \<open>The only prank is one of a single call by \<open>a\<close>, as \<open>c\<close>, asked for at depth \<open>d\<close>, if there is one.\<close>

definition only_single :: "address \<Rightarrow> address \<Rightarrow> u64 \<Rightarrow> prank_cheats \<Rightarrow> bool" where
  "only_single a c d pc \<longleftrightarrow>
     pc_start pc = None
     \<and> (\<forall>p. pc_active pc = Some p \<longrightarrow>
          pk_single_call p \<and> pk_prank_caller p = a \<and> pk_caller p = c \<and> pk_set_depth p = d)"

definition pranks_left :: "prank_cheats \<Rightarrow> nat" where
  "pranks_left pc = (if prank_pending pc then 1 else 0)"

definition spoofed_frames :: "(address \<times> address) list \<Rightarrow> (address \<times> address) list" where
  "spoofed_frames frames = filter (\<lambda>(caller, effective). effective \<noteq> caller) frames"

definition prank_of :: "'t cheat_inspector \<times> 'j cheat_ctx \<Rightarrow> prank_cheats" where
  "prank_of st = xs_prank (in_state (fst st))"

definition depth_of :: "'t cheat_inspector \<times> 'j cheat_ctx \<Rightarrow> u64" where
  "depth_of st = in_depth (fst st)"

text \<open>What a run of events keeps of a single prank, and how many frames it changes.\<close>

definition single_step ::
  "address \<Rightarrow> address \<Rightarrow> u64 \<Rightarrow> 't cheat_inspector \<times> 'j cheat_ctx \<Rightarrow>
   (address \<times> address) list \<times> 't cheat_inspector \<times> 'j cheat_ctx \<Rightarrow> bool" where
  "single_step a c d st r \<longleftrightarrow>
     only_single a c d (prank_of (snd r))
     \<and> length (spoofed_frames (fst r)) + pranks_left (prank_of (snd r)) \<le> pranks_left (prank_of st)
     \<and> set (spoofed_frames (fst r)) \<subseteq> {(a, c)}"

lemma spoofed_append [simp]: "spoofed_frames (f1 @ f2) = spoofed_frames f1 @ spoofed_frames f2"
  by (simp add: spoofed_frames_def)

lemma spoofed_simps [simp]:
  "spoofed_frames [] = []"
  "spoofed_frames [(x, y)] = (if x = y then [] else [(x, y)])"
  by (auto simp: spoofed_frames_def)

lemma apply_prank_single:
  assumes "only_single a c d pc" "apply_prank JO depth nv caller (cx, pc) = (caller', cx', pc')"
  shows "only_single a c d pc'"
    "length (spoofed_frames [(caller, caller')]) + pranks_left pc' \<le> pranks_left pc"
    "set (spoofed_frames [(caller, caller')]) \<subseteq> {(a, c)}"
  using assms
  by (auto simp: apply_prank_def only_single_def start_info_def prank_info_def spoof_def mark_used_def
      patch_origin_def pranks_left_def prank_pending_def Let_def split: option.splits if_splits)

lemma prank_after_single:
  "\<not> installs_prank call \<Longrightarrow> prank_after CL call pc = pc \<or> prank_after CL call pc = pc\<lparr>pc_active := None, pc_start := None\<rparr>"
  by (cases call) (auto simp: prank_after_def stop_prank_def)

lemma stamp_single:
  "only_single a c d pc \<Longrightarrow> a \<noteq> 0 \<Longrightarrow> d \<noteq> 0 \<Longrightarrow> stamp caller depth pc = pc"
  by (cases "pc_active pc") (auto simp: only_single_def stamp_def stamp_prank_def)


lemma restore_pranks [simp]:
  "pc_active (snd (maybe_restore_origin (cx, pc))) = pc_active pc"
  "pc_start (snd (maybe_restore_origin (cx, pc))) = pc_start pc"
  by (simp_all add: maybe_restore_origin_def split: option.split)

lemma only_single_cong:
  "pc_active pc = pc_active pc' \<Longrightarrow> pc_start pc = pc_start pc' \<Longrightarrow> only_single a c d pc = only_single a c d pc'"
  by (simp add: only_single_def)

lemma pranks_left_cong: "pc_active pc = pc_active pc' \<Longrightarrow> pranks_left pc = pranks_left pc'"
  by (simp add: pranks_left_def prank_pending_def)

lemma prank_of_inspector: "prank_of st = snd (inspector_prank st)"
  by (simp add: prank_of_def inspector_prank_def split: prod.split)

lemma on_call_single:
  assumes "only_single a c d (prank_of st)" "a \<noteq> 0" "d \<noteq> 0"
    and "\<And>call. vm_call_of decode inputs = Some call \<Longrightarrow> \<not> installs_prank call"
  shows "only_single a c d (prank_of (snd (on_call CL JO decode inputs st)))"
    "pranks_left (prank_of (snd (on_call CL JO decode inputs st))) \<le> pranks_left (prank_of st)"
    "depth_of (snd (on_call CL JO decode inputs st)) = depth_of st"
proof -
  let ?st' = "snd (on_call CL JO decode inputs st)"
  have "only_single a c d (prank_of ?st') \<and> pranks_left (prank_of ?st') \<le> pranks_left (prank_of st)
      \<and> depth_of ?st' = depth_of st"
  proof (cases "vm_call_of decode inputs")
    case None
    then show ?thesis using assms(1) by (simp add: on_call_other)
  next
    case (Some call)
    obtain ins cx where st: "st = (ins, cx)" by (rule prod.exhaust)
    let ?pc = "xs_prank (in_state ins)"
    obtain cx2 where cx2:
      "inspector_prank (snd (on_call CL JO decode inputs (ins, cx))) =
         (if call = Vm_Stop_Prank then maybe_restore_origin else id)
           (cx2, stamp (ci_caller inputs) (sat_sub (in_depth ins) 1) (prank_after CL call ?pc))"
      "in_depth (fst (snd (on_call CL JO decode inputs (ins, cx)))) = in_depth ins"
      by (rule on_call_result [OF Some])
    have after: "only_single a c d (prank_after CL call ?pc)" "pranks_left (prank_after CL call ?pc) \<le> pranks_left ?pc"
      using prank_after_single [OF assms(4) [OF Some], of CL ?pc] assms(1)
      by (auto simp: only_single_def prank_of_def st pranks_left_def prank_pending_def)
    have active: "pc_active (prank_of ?st') = pc_active (prank_after CL call ?pc)"
      and start: "pc_start (prank_of ?st') = pc_start (prank_after CL call ?pc)"
      using stamp_single [OF after(1) assms(2,3)] by (simp_all add: prank_of_inspector st cx2)
    have "only_single a c d (prank_of ?st')" using only_single_cong [OF active start] after(1) by simp
    moreover have "pranks_left (prank_of ?st') \<le> pranks_left (prank_of st)"
      using pranks_left_cong [OF active] after(2) by (simp add: prank_of_def st)
    moreover have "depth_of ?st' = depth_of st" using cx2(2) by (simp add: depth_of_def st)
    ultimately show ?thesis by blast
  qed
  then show "only_single a c d (prank_of ?st')" "pranks_left (prank_of ?st') \<le> pranks_left (prank_of st)"
    "depth_of ?st' = depth_of st" by simp_all
qed

lemma frame_start_single:
  assumes "only_single a c d (prank_of st)" "frame_start JO nv caller st = (caller', st')"
  shows "single_step a c d st ([(caller, caller')], st')" "depth_of st' = depth_of st + 1"
proof -
  obtain ins cx where st: "st = (ins, cx)" by (rule prod.exhaust)
  obtain cl cx1 pc1 where a: "apply_prank JO (in_depth ins + 1) nv caller (cx, xs_prank (in_state ins)) = (cl, cx1, pc1)"
    by (rule prod_cases3)
  have st': "caller' = cl" "st' = (ins\<lparr>in_depth := in_depth ins + 1, in_state := (in_state ins)\<lparr>xs_prank := pc1\<rparr>\<rparr>, cx1)"
    using assms(2) a by (auto simp: frame_start_def st Let_def put_pranked_def)
  show "single_step a c d st ([(caller, caller')], st')"
    using apply_prank_single [OF _ a] assms(1) by (simp add: single_step_def st' prank_of_def st)
  show "depth_of st' = depth_of st + 1" by (simp add: st' st depth_of_def)
qed


text \<open>Entering a frame in a run that installs no prank.\<close>

lemma enter_single:
  assumes "only_single a c d (prank_of st)" "a \<noteq> 0" "d \<noteq> 0" "installs_none decode [ev]"
    and "ev \<in> range Enter_Call \<union> range Enter_Create \<union> {Enter_Empty}"
  shows "single_step a c d st (cheat_step CL JO decode ev st)"
    "depth_of (snd (cheat_step CL JO decode ev st)) = depth_of st + 1"
proof -
  have "single_step a c d st (cheat_step CL JO decode ev st)
      \<and> depth_of (snd (cheat_step CL JO decode ev st)) = depth_of st + 1"
  proof (cases ev)
    case (Enter_Call inputs)
    obtain cl st1 where s1: "frame_start JO (ci_target inputs \<noteq> VM_ADDRESS) (ci_caller inputs) st = (cl, st1)"
      by (rule prod.exhaust)
    note f = frame_start_single [OF assms(1) s1]
    have single1: "only_single a c d (prank_of st1)" using f(1) by (simp add: single_step_def)
    have none: "\<not> installs_prank call" if "vm_call_of decode (inputs\<lparr>ci_caller := cl\<rparr>) = Some call" for call
      using assms(4) that by (auto simp: installs_none_def Enter_Call vm_call_of_def split: if_splits)
    let ?st2 = "snd (on_call CL JO decode (inputs\<lparr>ci_caller := cl\<rparr>) st1)"
    have c: "only_single a c d (prank_of ?st2)" "pranks_left (prank_of ?st2) \<le> pranks_left (prank_of st1)"
      "depth_of ?st2 = depth_of st1"
      using on_call_single [OF single1 assms(2,3)] none by blast+
    have step: "cheat_step CL JO decode ev st = ([(ci_caller inputs, cl)], ?st2)"
      by (simp add: Enter_Call s1 split_beta)
    show ?thesis unfolding step using f c by (auto simp: single_step_def split: if_splits)
  next
    case (Enter_Create caller)
    obtain cl st1 where s1: "frame_start JO True caller st = (cl, st1)" by (rule prod.exhaust)
    show ?thesis using frame_start_single [OF assms(1) s1] by (simp add: Enter_Create s1)
  next
    case Enter_Empty
    then show ?thesis using assms(1) by (simp add: single_step_def prank_of_def depth_of_def split_beta)
  qed (use assms(5) in auto)
  then show "single_step a c d st (cheat_step CL JO decode ev st)"
    "depth_of (snd (cheat_step CL JO decode ev st)) = depth_of st + 1" by simp_all
qed

lemma frame_end_single:
  assumes "only_single a c d (prank_of st)"
  shows "single_step a c d st ([], frame_end st)" "depth_of (frame_end st) = sat_sub (depth_of st) 1"
  using assms
  by (auto simp: frame_end_def single_step_def only_single_def prank_of_def depth_of_def put_pranked_def Let_def
      pranks_left_def prank_pending_def maybe_restore_origin_def split: prod.splits option.splits)

lemma single_step_trans:
  assumes "single_step a c d st (f1, st1)" "single_step a c d st1 (f2, st2)"
  shows "single_step a c d st (f1 @ f2, st2)"
  using assms by (auto simp: single_step_def)

lemma cheat_run_Cons:
  "cheat_step CL JO decode ev st = (f1, st1) \<Longrightarrow> cheat_run CL JO decode evs st1 = (f2, st2) \<Longrightarrow>
   cheat_run CL JO decode (ev # evs) st = (f1 @ f2, st2)"
  by simp

lemma sat_sub_one: "unat x + 1 < 2 ^ LENGTH('a) \<Longrightarrow> sat_sub (x + 1) 1 = (x :: 'a::len word)"
  by (simp add: word_unat_eq_iff unat_sat_sub unat_word_ariths)

lemma nested_single:
  assumes "a \<noteq> 0" "d \<noteq> 0"
  shows "nested evs \<Longrightarrow> only_single a c d (prank_of st) \<Longrightarrow> installs_none decode evs \<Longrightarrow>
    unat (depth_of st) + length evs < 2 ^ 64 \<Longrightarrow>
    single_step a c d st (cheat_run CL JO decode evs st)
    \<and> depth_of (snd (cheat_run CL JO decode evs st)) = depth_of st"
proof (induction evs arbitrary: st rule: nested.induct)
  case nested_Nil
  then show ?case by (simp add: single_step_def)
next
  case (nested_Evm evs j)
  obtain f1 st1 where s1: "cheat_step CL JO decode (Evm_Step j) st = (f1, st1)" by (rule prod.exhaust)
  have one: "f1 = []" "fst st1 = fst st" using s1 by (auto split: prod.splits)
  then have "only_single a c d (prank_of st1)" "installs_none decode evs"
    "unat (depth_of st1) + length evs < 2 ^ 64" "single_step a c d st (f1, st1)" "depth_of st1 = depth_of st"
    using nested_Evm.prems by (auto simp: prank_of_def depth_of_def installs_none_def single_step_def)
  note st1 = this
  obtain f2 st2 where s2: "cheat_run CL JO decode evs st1 = (f2, st2)" by (rule prod.exhaust)
  show ?case using nested_Evm.IH [OF st1(1-3)] single_step_trans [OF st1(4), of f2 st2] st1(5)
    by (simp only: cheat_run_Cons [OF s1 s2] s2 snd_conv simp_thms)
next
  case (nested_Frame ev evs1 evs2)
  have none: "installs_none decode [ev]" "installs_none decode evs1" "installs_none decode evs2"
    using nested_Frame.prems(2) by (auto simp: installs_none_def)
  obtain f1 st1 where s1: "cheat_step CL JO decode ev st = (f1, st1)" by (rule prod.exhaust)
  obtain f2 st2 where s2: "cheat_run CL JO decode evs1 st1 = (f2, st2)" by (rule prod.exhaust)
  obtain f3 st3 where s3: "cheat_run CL JO decode evs2 (frame_end st2) = (f3, st3)" by (rule prod.exhaust)
  have run: "cheat_run CL JO decode (ev # evs1 @ Frame_End # evs2) st = (f1 @ f2 @ [] @ f3, st3)"
    by (simp add: s1 cheat_run_append s2 s3)
  note enter = enter_single [OF nested_Frame.prems(1) assms none(1) nested_Frame.hyps(1), where CL = CL and JO = JO,
      unfolded s1 snd_conv]
  have len: "unat (depth_of st) + length evs1 + length evs2 + 2 < 2 ^ 64" using nested_Frame.prems(3) by simp
  then have depth1: "unat (depth_of st1) = unat (depth_of st) + 1"
    by (simp add: enter(2) unat_word_ariths)
  have only1: "only_single a c d (prank_of st1)" using enter(1) by (simp add: single_step_def)
  have body: "single_step a c d st1 (f2, st2)" "depth_of st2 = depth_of st1"
    using nested_Frame.IH(1) [OF only1 none(2)] len depth1 by (simp_all add: s2)
  have only2: "only_single a c d (prank_of st2)" using body(1) by (simp add: single_step_def)
  note ending = frame_end_single [OF only2]
  have depth2: "depth_of (frame_end st2) = depth_of st"
    using ending(2) body(2) enter(2) len by (simp add: sat_sub_one)
  have only3: "only_single a c d (prank_of (frame_end st2))" using ending(1) by (simp add: single_step_def)
  have rest: "single_step a c d (frame_end st2) (f3, st3)" "depth_of st3 = depth_of st"
    using nested_Frame.IH(2) [OF only3 none(3)] len depth2 by (simp_all add: s3)
  have "single_step a c d st (f1 @ f2 @ [] @ f3, st3)"
    by (rule single_step_trans [OF enter(1) single_step_trans [OF body(1) single_step_trans [OF ending(1) rest(1)]]])
  then show ?case unfolding run using rest(2) by simp
qed

text \<open>Asking for a prank of one call.\<close>

lemma prank_call_single:
  assumes "decode (ci_input inputs) = Some (Vm_Prank_Origin a origin) \<or> decode (ci_input inputs) = Some (Vm_Prank a)"
    and "ci_target inputs = VM_ADDRESS" "4 \<le> length (ci_input inputs)" "ci_caller inputs \<noteq> 0"
    and "no_prank (prank_of st)" "0 < depth_of st" "unat (depth_of st) + 1 < 2 ^ 64"
  shows "\<exists>st' p. cheat_run CL JO decode [Enter_Call inputs, Frame_End] st = ([(ci_caller inputs, ci_caller inputs)], st')
     \<and> depth_of st' = depth_of st \<and> pc_start (prank_of st') = None \<and> pc_active (prank_of st') = Some p
     \<and> pk_single_call p \<and> pk_prank_caller p = ci_caller inputs \<and> pk_caller p = a \<and> pk_set_depth p = depth_of st
     \<and> \<not> pk_used p"
proof -
  obtain ins cx where st: "st = (ins, cx)" by (rule prod.exhaust)
  let ?ins1 = "ins\<lparr>in_depth := in_depth ins + 1\<rparr>"
  have pc: "pc_active (xs_prank (in_state ins)) = None" "pc_start (xs_prank (in_state ins)) = None"
    using assms(5) by (simp_all add: no_prank_def prank_of_def st)
  have start: "frame_start JO (ci_target inputs \<noteq> VM_ADDRESS) (ci_caller inputs) st = (ci_caller inputs, ?ins1, cx)"
    by (simp add: frame_start_def st Let_def apply_prank_def pc put_pranked_def)
  have "\<exists>call origin'. vm_call_of decode inputs = Some call \<and> call \<noteq> Vm_Stop_Prank
      \<and> (\<forall>pc. prank_after CL call pc = snd (set_prank CL a origin' pc))"
    using assms(1-3) by (auto simp: vm_call_of_def prank_after_def)
  then obtain call origin' where call: "vm_call_of decode inputs = Some call" "call \<noteq> Vm_Stop_Prank"
    "\<And>pc. prank_after CL call pc = snd (set_prank CL a origin' pc)" by blast
  obtain cx2 where cx2: "inspector_prank (snd (on_call CL JO decode inputs (?ins1, cx))) =
       (if call = Vm_Stop_Prank then maybe_restore_origin else id)
         (cx2, stamp (ci_caller inputs) (sat_sub (in_depth ?ins1) 1) (prank_after CL call (xs_prank (in_state ?ins1))))"
    "in_depth (fst (snd (on_call CL JO decode inputs (?ins1, cx)))) = in_depth ?ins1"
    by (rule on_call_result [OF call(1)])
  obtain out st2 where st2: "on_call CL JO decode inputs (?ins1, cx) = (out, st2)" by (rule prod.exhaust)
  have depth1: "sat_sub (in_depth ins + 1) 1 = in_depth ins"
    using assms(7) by (simp add: sat_sub_one depth_of_def st)
  let ?p = "\<lparr>pk_caller = a, pk_origin = origin', pk_single_call = True, pk_set_depth = in_depth ins,
             pk_prank_caller = ci_caller inputs, pk_used = False\<rparr>"
  have after: "pc_active (prank_of st2) = Some ?p" "pc_start (prank_of st2) = None" "depth_of st2 = in_depth ins + 1"
    using cx2 call(2)
    by (simp_all add: st2 prank_of_inspector depth_of_def call(3) set_prank_def prank_pending_def pc depth1 stamp_def
        stamp_prank_def assms(4))
  have "in_depth ins + 1 \<noteq> in_depth ins" by simp
  then have "frame_end st2 = ((fst st2)\<lparr>in_depth := in_depth ins\<rparr>, snd st2)"
    using after depth1 by (cases st2) (simp add: frame_end_def prank_of_def depth_of_def)
  then have "cheat_run CL JO decode [Enter_Call inputs, Frame_End] st =
      ([(ci_caller inputs, ci_caller inputs)], (fst st2)\<lparr>in_depth := in_depth ins\<rparr>, snd st2)"
    using start st2 by simp
  then show ?thesis using after by (simp add: prank_of_def depth_of_def st)
qed


lemma next_call_pranked:
  assumes "pc_start (prank_of st) = None" "pc_active (prank_of st) = Some p" "\<not> pk_used p"
    and "pk_set_depth p = depth_of st" "unat (depth_of st) + 1 < 2 ^ 64"
    and "ci_caller call = pk_prank_caller p" "ci_target call \<noteq> VM_ADDRESS"
  shows "fst (cheat_step CL JO decode (Enter_Call call) st) = [(pk_prank_caller p, pk_caller p)]"
proof -
  obtain ins cx where st: "st = (ins, cx)" by (rule prod.exhaust)
  have "depth_of st < depth_of st + 1" using assms(5) by (simp add: word_less_nat_alt unat_word_ariths)
  then have info: "prank_info (in_depth ins + 1) True (pk_prank_caller p) (xs_prank (in_state ins)) = Some (pk_caller p, pk_origin p)"
    using assms(2-4) by (simp add: prank_info_def prank_of_def st depth_of_def)
  have active: "pc_active (xs_prank (in_state ins)) = Some p"
    using assms(2) by (simp add: prank_of_def st)
  have "fst (frame_start JO True (pk_prank_caller p) st) = pk_caller p"
    using assms(1) info active
    by (simp add: frame_start_def st Let_def apply_prank_def prank_of_def start_info_def spoof_def split_beta)
  then show ?thesis using assms(6,7) by (simp add: split_beta)
qed

text \<open>
  C12: a prank of one call covers one call and ends with its frame. When a frame asks for
  \<open>prank(a)\<close> or \<open>prank(a, origin)\<close>, its next call out of the cheatcodes is made by \<open>a\<close>; whatever
  properly nested frames follow (that ask for no other prank), at most one of them gets another
  caller, it is one that this frame calls and it gets \<open>a\<close>; and when the frame ends no prank is
  left, the depth is that of its caller and \<open>tx.origin\<close> is the real one.
\<close>

theorem single_pranks_are_scoped:
  assumes call: "decode (ci_input inputs) = Some (Vm_Prank_Origin a origin) \<or> decode (ci_input inputs) = Some (Vm_Prank a)"
      "ci_target inputs = VM_ADDRESS" "4 \<le> length (ci_input inputs)" "ci_caller inputs \<noteq> 0"
    and state: "no_prank (prank_of st)" "pc_original_origin (prank_of st) = None" "0 < depth_of st"
      "unat (depth_of st) + length body + 1 < 2 ^ 64"
    and body: "nested body" "installs_none decode body"
    and run: "cheat_run CL JO decode ([Enter_Call inputs, Frame_End] @ body @ [Frame_End]) st = (frames, st')"
  shows "(\<exists>rest. frames = (ci_caller inputs, ci_caller inputs) # rest \<and> length (spoofed_frames rest) \<le> 1
            \<and> set (spoofed_frames rest) \<subseteq> {(ci_caller inputs, a)})
    \<and> no_prank (prank_of st') \<and> depth_of st' = depth_of st - 1 \<and> cx_origin (snd st') = cx_origin (snd st)
    \<and> (\<forall>out j. ci_caller out = ci_caller inputs \<and> ci_target out \<noteq> VM_ADDRESS \<longrightarrow>
         fst (cheat_run CL JO decode [Enter_Call inputs, Frame_End, Evm_Step j, Enter_Call out] st)
           = [(ci_caller inputs, ci_caller inputs), (ci_caller inputs, a)])"
proof -
  let ?c = "ci_caller inputs" and ?d = "depth_of st"
  have "unat ?d + 1 < 2 ^ 64" using state(4) by simp
  from prank_call_single [where decode = decode and a = a and origin = origin, OF call state(1,3) this, of CL JO]
  obtain st1 p where st1:
    "cheat_run CL JO decode [Enter_Call inputs, Frame_End] st = ([(?c, ?c)], st1)" "depth_of st1 = ?d"
    and p: "pc_start (prank_of st1) = None" "pc_active (prank_of st1) = Some p" "pk_single_call p"
      "pk_prank_caller p = ?c" "pk_caller p = a" "pk_set_depth p = ?d" "\<not> pk_used p"
    by blast
  obtain f2 st2 where s2: "cheat_run CL JO decode body st1 = (f2, st2)" by (rule prod.exhaust)
  have only: "only_single ?c a ?d (prank_of st1)" using p by (simp add: only_single_def)
  have single: "single_step ?c a ?d st1 (f2, st2)" "depth_of st2 = ?d"
    using nested_single [OF call(4) _ body(1) only body(2), of CL JO] state(3,4) st1(2) s2 by auto
  have st': "frames = (?c, ?c) # f2" "st' = frame_end st2"
    using run unfolding cheat_run_append st1(1) prod.case s2 by simp_all
  have only2: "only_single ?c a ?d (prank_of st2)" using single(1) by (simp add: single_step_def)
  have left: "length (spoofed_frames f2) \<le> 1" "set (spoofed_frames f2) \<subseteq> {(?c, a)}"
    using single(1) by (simp_all add: single_step_def pranks_left_def split: if_splits)
  have free: "no_prank (prank_of st')"
    using only2 single(2) unfolding st'(2)
    by (auto simp: frame_end_def only_single_def no_prank_def prank_of_def depth_of_def put_pranked_def Let_def
        maybe_restore_origin_def split: prod.splits option.splits)
  have "depth_of st' = sat_sub ?d 1" using frame_end_single(2) [OF only2] single(2) st'(2) by simp
  then have depth: "depth_of st' = ?d - 1" using state(3) by (simp add: sat_sub_def word_le_nat_alt word_less_nat_alt)
  have origin: "cx_origin (snd st') = cx_origin (snd st)"
  proof -
    have "cheat_run CL JO decode ([Enter_Call inputs, Frame_End] @ body @ [Frame_End]) (fst st, snd st)
        = (frames, fst st', snd st')" using run by (simp only: prod.collapse)
    from origins_are_restored [OF _ this] state(2) free show ?thesis unfolding prank_of_def by blast
  qed
  have "fst (cheat_run CL JO decode [Enter_Call inputs, Frame_End, Evm_Step j, Enter_Call out] st)
      = [(?c, ?c), (?c, a)]" if out: "ci_caller out = ?c" "ci_target out \<noteq> VM_ADDRESS" for out j
  proof -
    obtain st3 where st3: "cheat_step CL JO decode (Evm_Step j) st1 = ([], st3)" "fst st3 = fst st1"
      by (cases st1) simp
    obtain f4 st4 where st4: "cheat_step CL JO decode (Enter_Call out) st3 = (f4, st4)" by (rule prod.exhaust)
    have "f4 = [(?c, a)]"
      using next_call_pranked [of st3 p out CL JO decode, unfolded st4] p st3(2) st1(2) state(4) out
      by (simp add: prank_of_def depth_of_def)
    moreover have "cheat_run CL JO decode [Evm_Step j, Enter_Call out] st1 = ([] @ f4 @ [], st4)"
      by (rule cheat_run_Cons [OF st3(1) cheat_run_Cons [OF st4]]) simp
    ultimately show ?thesis
      using cheat_run_append [of CL JO decode "[Enter_Call inputs, Frame_End]" "[Evm_Step j, Enter_Call out]" st]
      by (simp only: st1(1) prod.case append.simps fst_conv)
  qed
  then show ?thesis using st'(1) left free depth origin by blast
qed


subsection \<open>A harness that pranks\<close>

definition demo_journal_ops :: "(unit, unit) journal_ops" where
  "demo_journal_ops =
     \<lparr>jo_load_account = (\<lambda>_ j. (Some 0, j)), jo_set_balance = (\<lambda>_ _ j. j), jo_set_nonce = (\<lambda>_ _ j. j),
      jo_precompiles = (\<lambda>_ _. False), jo_code_valid = (\<lambda>_. True), jo_set_code = (\<lambda>_ _ j. j),
      jo_insert_storage = (\<lambda>_ _ _ j. j), jo_sstore = (\<lambda>_ _ _ j. (True, j)), jo_sload = (\<lambda>_ _ j. (Some 0, j)),
      jo_is_active_fork = (\<lambda>_ _ _. False), jo_commit_remote = (\<lambda>_ j. j),
      jo_fork = (\<lambda>_ _ _ _ _ j. (Inl Db_Select, j))\<rparr>"

definition demo_cheat_lib :: cheat_lib where
  "demo_cheat_lib =
     \<lparr>cl_encode_string = (\<lambda>_. []), cl_encode_bytes = id, cl_address_text = (\<lambda>_. []), cl_hex_encode = (\<lambda>_. []),
      cl_hex_decode = (\<lambda>_. Inr []), cl_parse_u256 = (\<lambda>_. None), cl_parse_i256 = (\<lambda>_. None),
      cl_show_i256 = (\<lambda>_. []), cl_parse_address = (\<lambda>_. None), cl_curve_order = 100, cl_public_key = (\<lambda>_. None),
      cl_sign = (\<lambda>_ _. None), cl_keccak = id, cl_env_var = (\<lambda>_. Env_Not_Present),
      cl_run = (\<lambda>_ _ _. Run_Failed []), cl_db_error_text = (\<lambda>_. []), cl_blob = (\<lambda>e _. (e, 0))\<rparr>"

definition demo_decode :: "bytes \<Rightarrow> vm_call option" where
  "demo_decode input = (if input = [1, 1, 1, 1] then Some (Vm_Prank_Origin 5 6) else None)"

definition demo_inputs :: "address \<Rightarrow> address \<Rightarrow> bytes \<Rightarrow> call_inputs" where
  "demo_inputs caller target input =
     \<lparr>ci_caller = caller, ci_target = target, ci_input = input, ci_gas_limit = 0, ci_return_offset = (0, 0)\<rparr>"

definition demo_inspector :: "unit cheat_inspector" where
  "demo_inspector = (inspector_from_state (exec_state_from_config (cheat_config_new None [])))\<lparr>in_depth := 1\<rparr>"

definition demo_block_env :: block_env where
  "demo_block_env = \<lparr>bl_number = 0, bl_timestamp = 0, bl_beneficiary = 0, bl_difficulty = 0, bl_prevrandao = None,
     bl_gas_limit = 0, bl_basefee = 0, bl_blob = None\<rparr>"

definition demo_cheat_ctx :: "unit cheat_ctx" where
  "demo_cheat_ctx = \<lparr>cx_origin = 9, cx_block = demo_block_env, cx_chain_id = 1, cx_spec = FRONTIER, cx_journal = (),
     cx_registry = {}\<rparr>"

text \<open>The frame of account 3 asks to be 5 with origin 6, then calls account 7 twice and ends.\<close>

definition demo_body :: "unit cheat_event list" where
  "demo_body = [Enter_Call (demo_inputs 3 7 []), Frame_End, Enter_Call (demo_inputs 3 7 []), Frame_End]"

definition demo_ask :: call_inputs where
  "demo_ask = demo_inputs 3 VM_ADDRESS [1, 1, 1, 1]"

lemma demo_prank_of: "prank_of (demo_inspector, cx) = prank_cheats_default" "depth_of (demo_inspector, cx) = 1"
  by (simp_all add: prank_of_def depth_of_def demo_inspector_def inspector_from_state_def exec_state_from_config_def)

lemma demo_nested: "nested demo_body"
proof -
  let ?ev = "Enter_Call (demo_inputs 3 7 []) :: unit cheat_event"
  have "nested [?ev, Frame_End]" using nested_Frame [of ?ev "[]" "[]"] nested_Nil by simp
  then have "nested (?ev # [] @ Frame_End # [?ev, Frame_End])" by (intro nested_Frame nested_Nil) simp
  then show ?thesis by (simp add: demo_body_def)
qed

lemma demo_installs: "installs_none demo_decode demo_body"
  by (simp add: installs_none_def demo_body_def vm_call_of_def demo_inputs_def)

theorem single_pranks_are_scoped_witness:
  "\<exists>rest st'. cheat_run demo_cheat_lib demo_journal_ops demo_decode
        ([Enter_Call demo_ask, Frame_End] @ demo_body @ [Frame_End]) (demo_inspector, demo_cheat_ctx)
      = ((3, 3) # rest, st')
     \<and> length (spoofed_frames rest) \<le> 1 \<and> no_prank (prank_of st') \<and> depth_of st' = 0 \<and> cx_origin (snd st') = 9
     \<and> fst (cheat_run demo_cheat_lib demo_journal_ops demo_decode
          [Enter_Call demo_ask, Frame_End, Evm_Step (), Enter_Call (demo_inputs 3 7 [])] (demo_inspector, demo_cheat_ctx))
        = [(3, 3), (3, 5)]"
proof -
  let ?st = "(demo_inspector, demo_cheat_ctx)"
  obtain frames st' where run: "cheat_run demo_cheat_lib demo_journal_ops demo_decode
      ([Enter_Call demo_ask, Frame_End] @ demo_body @ [Frame_End]) ?st = (frames, st')" by (rule prod.exhaust)
  have state: "no_prank (prank_of ?st)" "pc_original_origin (prank_of ?st) = None" "0 < depth_of ?st"
    "unat (depth_of ?st) + length demo_body + 1 < 2 ^ 64"
    by (simp_all add: demo_prank_of prank_cheats_default_def no_prank_def demo_body_def)
  have ask: "demo_decode (ci_input demo_ask) = Some (Vm_Prank_Origin 5 6) \<or> demo_decode (ci_input demo_ask) = Some (Vm_Prank 5)"
    "ci_target demo_ask = VM_ADDRESS" "4 \<le> length (ci_input demo_ask)" "ci_caller demo_ask \<noteq> 0"
    by (simp_all add: demo_ask_def demo_inputs_def demo_decode_def)
  have out: "ci_caller (demo_inputs 3 7 []) = 3" "ci_target (demo_inputs 3 7 []) \<noteq> VM_ADDRESS" "ci_caller demo_ask = 3"
    by (simp_all add: demo_inputs_def VM_ADDRESS_def demo_ask_def)
  have start: "depth_of ?st - 1 = 0" "cx_origin (snd ?st) = 9" by (simp_all add: demo_prank_of demo_cheat_ctx_def)
  from single_pranks_are_scoped [OF ask state demo_nested demo_installs run]
  show ?thesis unfolding run start out(3) using out by blast
qed

text \<open>
  The origin that comes with a prank of one call is not given back after that call, but when the
  frame ends: in the middle of the same run, after the pranked call, it is still 6.
\<close>

lemma demo_origin_after_call:
  "cx_origin (snd (snd (cheat_run demo_cheat_lib demo_journal_ops demo_decode
      ([Enter_Call demo_ask, Frame_End] @ demo_body) (demo_inspector, demo_cheat_ctx)))) = 6"
  by code_simp

theorem origins_are_restored_witness:
  "cx_origin (snd (snd (cheat_run demo_cheat_lib demo_journal_ops demo_decode
      ([Enter_Call demo_ask, Frame_End] @ demo_body) (demo_inspector, demo_cheat_ctx)))) \<in> {9, 6}"
proof -
  obtain frames ins' cx' where run: "cheat_run demo_cheat_lib demo_journal_ops demo_decode
      ([Enter_Call demo_ask, Frame_End] @ demo_body) (demo_inspector, demo_cheat_ctx) = (frames, ins', cx')"
    by (rule prod_cases3)
  have "asked_origins demo_decode ([Enter_Call demo_ask, Frame_End] @ demo_body) = {6}"
    by (simp add: asked_origins_def demo_body_def demo_ask_def demo_inputs_def vm_call_of_def demo_decode_def)
  moreover have "prank_origins (xs_prank (in_state demo_inspector)) = {}"
    using demo_prank_of(1) [of demo_cheat_ctx] by (simp add: prank_of_def prank_origins_def prank_cheats_default_def)
  moreover have "pc_original_origin (xs_prank (in_state demo_inspector)) = None"
    using demo_prank_of(1) [of demo_cheat_ctx] by (simp add: prank_of_def prank_cheats_default_def)
  ultimately show ?thesis
    unfolding run using origins_are_restored [OF _ run] by (simp add: demo_cheat_ctx_def)
qed

end
