(* ===== verification/Cheat_Fork.thy ===== *)
theory Cheat_Fork
  imports Cheat_Pranks
begin

section \<open>Forks from inside a transaction, and the block scratchpad\<close>

text \<open>
  \<open>evm/cheatcode/calls/fork.rs\<close> on the journal: before the database switches, the accounts that do
  not belong to the harness are committed to the active fork and leave the journal, with the entries
  that would revert them. The journal is that of the EVM crate: its accounts (a hash map, here an
  association list with distinct keys), the entries of its undo log with the addresses they touch,
  and the database.
\<close>

datatype journal_entry =
    Account_Warmed address | Account_Touched address | Balance_Change address | Nonce_Change address
  | Nonce_Bump address | Account_Created address | Storage_Changed address | Storage_Warmed address
  | Transient_Storage_Change address | Code_Change address
  | Account_Destroyed address address
  | Balance_Transfer address address

record ('acc, 'db) journal =
  jn_state :: "(address \<times> 'acc) list"
  jn_entries :: "journal_entry list"
  jn_db :: 'db

fun journal_entry_is_persistent :: "(address \<Rightarrow> bool) \<Rightarrow> journal_entry \<Rightarrow> bool" where
  "journal_entry_is_persistent P (Account_Destroyed a target) \<longleftrightarrow> P a \<and> P target"
| "journal_entry_is_persistent P (Balance_Transfer from_a to_a) \<longleftrightarrow> P from_a \<and> P to_a"
| "journal_entry_is_persistent P (Account_Warmed a) \<longleftrightarrow> P a"
| "journal_entry_is_persistent P (Account_Touched a) \<longleftrightarrow> P a"
| "journal_entry_is_persistent P (Balance_Change a) \<longleftrightarrow> P a"
| "journal_entry_is_persistent P (Nonce_Change a) \<longleftrightarrow> P a"
| "journal_entry_is_persistent P (Nonce_Bump a) \<longleftrightarrow> P a"
| "journal_entry_is_persistent P (Account_Created a) \<longleftrightarrow> P a"
| "journal_entry_is_persistent P (Storage_Changed a) \<longleftrightarrow> P a"
| "journal_entry_is_persistent P (Storage_Warmed a) \<longleftrightarrow> P a"
| "journal_entry_is_persistent P (Transient_Storage_Change a) \<longleftrightarrow> P a"
| "journal_entry_is_persistent P (Code_Change a) \<longleftrightarrow> P a"

definition commit_remote_before_fork_switch ::
  "((address \<times> 'acc) list \<Rightarrow> 'db \<Rightarrow> 'db) \<Rightarrow> (address \<Rightarrow> bool) \<Rightarrow> ('acc, 'db) journal \<Rightarrow> ('acc, 'db) journal" where
  "commit_remote_before_fork_switch commit P j =
     (let remote = filter (\<lambda>(a, _). \<not> P a) (jn_state j)
      in if remote = [] then j
         else j\<lparr>jn_state := filter (\<lambda>(a, _). P a) (jn_state j),
                jn_db := commit remote (jn_db j),
                jn_entries := filter (journal_entry_is_persistent P) (jn_entries j)\<rparr>)"

text \<open>The fork traits of the journal and of \<open>Database\<close>, on top of the other operations.\<close>

definition fork_journal_ops ::
  "('edb, 'cdb, 'b, 't, 'c, (address \<times> 'acc) list, 'w) fork_ops \<Rightarrow>
   (('acc, ('edb, 'cdb, 'b) database) journal \<times> 'w, 't) journal_ops \<Rightarrow>
   (('acc, ('edb, 'cdb, 'b) database) journal \<times> 'w, 't) journal_ops" where
  "fork_journal_ops FO JO =
     JO\<lparr>jo_is_active_fork := (\<lambda>url block s. is_active_fork FO url block (jn_db (fst s))),
        jo_commit_remote := (\<lambda>P s. (commit_remote_before_fork_switch (database_commit FO) P (fst s), snd s)),
        jo_fork := (\<lambda>url block config transport R s.
          case database_fork FO R url block config transport (jn_db (fst s)) (snd s) of
            (r, db', w') \<Rightarrow> (r, (fst s)\<lparr>jn_db := db'\<rparr>, w'))\<rparr>"

subsection \<open>What a fork leaves in the journal\<close>

fun entry_addresses :: "journal_entry \<Rightarrow> address set" where
  "entry_addresses (Account_Destroyed a target) = {a, target}"
| "entry_addresses (Balance_Transfer from_a to_a) = {from_a, to_a}"
| "entry_addresses (Account_Warmed a) = {a}"
| "entry_addresses (Account_Touched a) = {a}"
| "entry_addresses (Balance_Change a) = {a}"
| "entry_addresses (Nonce_Change a) = {a}"
| "entry_addresses (Nonce_Bump a) = {a}"
| "entry_addresses (Account_Created a) = {a}"
| "entry_addresses (Storage_Changed a) = {a}"
| "entry_addresses (Storage_Warmed a) = {a}"
| "entry_addresses (Transient_Storage_Change a) = {a}"
| "entry_addresses (Code_Change a) = {a}"

text \<open>Reverting an entry looks up its accounts in the journal and panics when one is missing.\<close>

definition revertible :: "('acc, 'db) journal \<Rightarrow> bool" where
  "revertible j \<longleftrightarrow> (\<forall>e \<in> set (jn_entries j). entry_addresses e \<subseteq> fst ` set (jn_state j))"

lemma entry_persistent_iff: "journal_entry_is_persistent P e \<longleftrightarrow> (\<forall>a \<in> entry_addresses e. P a)"
  by (cases e) auto

lemma commit_remote_revertible:
  assumes "revertible j"
  shows "revertible (commit_remote_before_fork_switch commit P j)"
proof -
  have "entry_addresses e \<subseteq> fst ` set (filter (\<lambda>(a, _). P a) (jn_state j))"
    if "e \<in> set (jn_entries j)" "journal_entry_is_persistent P e" for e
    using assms that by (force simp: revertible_def entry_persistent_iff)
  then show ?thesis using assms
    by (simp add: commit_remote_before_fork_switch_def Let_def) (simp add: revertible_def)
qed

lemma commit_remote_state:
  "jn_state (commit_remote_before_fork_switch commit P j) = filter (\<lambda>(a, _). P a) (jn_state j)"
  by (simp add: commit_remote_before_fork_switch_def Let_def filter_empty_conv) (simp add: split_beta filter_True[symmetric])

lemma commit_remote_db:
  "jn_db (commit_remote_before_fork_switch commit P j) =
     (let remote = filter (\<lambda>(a, _). \<not> P a) (jn_state j)
      in if remote = [] then jn_db j else commit remote (jn_db j))"
  by (simp add: commit_remote_before_fork_switch_def Let_def)

lemma fork_success_active:
  assumes "database_fork FO R url block config transport db w = (Inr env, db', w')"
  shows "is_active_fork FO url block db'"
proof (cases db)
  case (Empty_Db edb)
  then show ?thesis using assms
    by (auto simp: Let_def create_fork_def fork_env_of_def split: prod.splits sum.splits)
next
  case (Multi_Db m)
  then show ?thesis using assms
    by (auto simp: Let_def select_or_create_def create_fork_def split: prod.splits sum.splits option.splits if_splits)
qed


lemma select_or_create_others:
  "select_or_create FO R key config transport m w = (r, m', w') \<Longrightarrow> k \<noteq> key \<Longrightarrow> mdb_forks m' k = mdb_forks m k"
  by (auto simp: select_or_create_def create_fork_def Let_def split: prod.splits sum.splits option.splits)

lemma fork_keeps_others:
  assumes "database_fork FO R url block config transport (Multi_Db m) w = (r, db', w')"
    and "k \<noteq> fork_key_of FO url block"
  shows "\<exists>m'. db' = Multi_Db m' \<and> mdb_forks m' k = mdb_forks m k"
  using assms select_or_create_others [OF _ assms(2)]
  by (fastforce simp: Let_def split: prod.splits sum.splits if_splits)

lemma failed_fork_inactive:
  assumes "database_fork FO R url block config transport db w = (Inl e, db', w')" "\<not> is_active_fork FO url block db"
  shows "\<not> is_active_fork FO url block db'"
proof (cases db)
  case (Empty_Db edb)
  then show ?thesis using assms
    by (auto simp: Let_def create_fork_def fork_env_of_def split: prod.splits sum.splits)
next
  case (Multi_Db m)
  obtain r m' w1 where s: "select_or_create FO R (fork_key_of FO url block)
      (config\<lparr>fg_url := url, fg_block_number := block\<rparr>) transport m w = (r, m', w1)" by (rule prod_cases3)
  have inactive: "\<not> (mdb_active m = fork_key_of FO url block \<and> mdb_forks m (fork_key_of FO url block) \<noteq> None)"
    using assms(2) Multi_Db by simp
  show ?thesis
  proof (cases r)
    case (Inl e')
    then have "db' = Multi_Db m'" using assms(1) Multi_Db inactive s by (auto simp: Let_def)
    then show ?thesis using select_or_create_Inl [OF s [unfolded Inl]] inactive by simp
  next
    case (Inr u)
    then have "mdb_forks m' (mdb_active m') \<noteq> None"
      using s by (auto simp: select_or_create_def create_fork_def Let_def split: sum.splits option.splits prod.splits)
    then show ?thesis using assms(1) Multi_Db inactive s Inr by (auto simp: Let_def fork_env_of_def)
  qed
qed

lemma commit_active [simp]: "is_active_fork FO url block (database_commit FO changes db) = is_active_fork FO url block db"
  by (cases db) (auto simp: active_db_def set_active_db_def split: option.splits sum.splits)

lemma fork_success_env:
  assumes "database_fork FO R url block config transport db w = (Inr env, db', w')"
  shows "\<exists>m' overlay. db' = Multi_Db m' \<and> mdb_forks m' (fork_key_of FO url block) = Some (overlay, env)"
proof (cases db)
  case (Empty_Db edb)
  then show ?thesis using assms
    by (auto simp: Let_def create_fork_def fork_env_of_def split: prod.splits sum.splits)
next
  case (Multi_Db m)
  obtain r m' w1 where s: "select_or_create FO R (fork_key_of FO url block)
      (config\<lparr>fg_url := url, fg_block_number := block\<rparr>) transport m w = (r, m', w1)" by (rule prod_cases3)
  have active: "r = Inr u \<Longrightarrow> mdb_active m' = fork_key_of FO url block" for u
    using s by (auto simp: select_or_create_def create_fork_def Let_def split: sum.splits option.splits prod.splits)
  show ?thesis using assms Multi_Db s active
    by (cases r) (auto simp: Let_def fork_env_of_def split: if_splits option.splits)
qed

text \<open>The handler with the fork traits of the journal.\<close>

lemma fork_call_cases:
  assumes "fork_with_options CL (fork_journal_ops FO JO) url n opts cx xs = (out, cx', xs')"
    and "url \<noteq> []" "unat n < 2 ^ 64" "\<not> is_active_fork FO url (ucast n) (jn_db (fst (cx_journal cx)))"
  obtains r db' w' j1 where
    "j1 = commit_remote_before_fork_switch (database_commit FO) (is_persistent (cx_registry cx)) (fst (cx_journal cx))"
    "database_fork FO (cx_registry cx) url (ucast n) (fork_call_settings (xs_fork_defaults xs) url (ucast n) opts)
       (xs_transport xs) (jn_db j1) (snd (cx_journal cx)) = (r, db', w')"
    "cx_journal cx' = (j1\<lparr>jn_db := db'\<rparr>, w')"
    "case r of
       Inl e \<Rightarrow> (\<exists>text. out = Some (outcome_revert CL text)) \<and> cx_block cx' = cx_block cx
                \<and> cx_chain_id cx' = cx_chain_id cx \<and> cx_spec cx' = cx_spec cx \<and> xs' = xs
     | Inr env \<Rightarrow> out = Some outcome_success \<and> cx_block cx' = cx_block (apply_fork_env CL env cx)
                \<and> cx_chain_id cx' = fe_chain_id env \<and> cx_spec cx' = fe_spec_id env"
proof -
  let ?j1 = "commit_remote_before_fork_switch (database_commit FO) (is_persistent (cx_registry cx)) (fst (cx_journal cx))"
  let ?c = "fork_call_settings (xs_fork_defaults xs) url (ucast n) opts"
  obtain r db' w' where f: "database_fork FO (cx_registry cx) url (ucast n) ?c (xs_transport xs) (jn_db ?j1)
      (snd (cx_journal cx)) = (r, db', w')" by (rule prod_cases3)
  have "\<not> unat n \<ge> 2 ^ 64" using assms(3) by simp
  then show ?thesis
    using assms(1,2,4)
    by (intro that [OF refl f])
       (auto simp: fork_with_options_def fork_journal_ops_def f Let_def apply_fork_env_def split: sum.splits)
qed



definition demo_commit_cache :: "(demo_overlay, bytes, (address \<times> unit) list, unit) cache_ops" where
  "demo_commit_cache =
     \<lparr>co_accounts = co_accounts demo_cache, co_insert_info = co_insert_info demo_cache,
      co_insert_storage = co_insert_storage demo_cache, co_basic = co_basic demo_cache,
      co_code = co_code demo_cache, co_storage = co_storage demo_cache,
      co_block_hash = co_block_hash demo_cache,
      co_commit = (\<lambda>changes db. map (\<lambda>(a, _). (a, demo_info, [])) changes @ db),
      co_set_block_hash = co_set_block_hash demo_cache\<rparr>"

definition demo_commit_ops :: "(demo_overlay, demo_overlay, unit, unit, bytes, (address \<times> unit) list, unit) fork_ops" where
  "demo_commit_ops =
     \<lparr>fo_text = fo_text demo_fork_ops, fo_fetch = fo_fetch demo_fork_ops, fo_backend_new = fo_backend_new demo_fork_ops,
      fo_specs = fo_specs demo_fork_ops, fo_empty = demo_commit_cache, fo_cache = demo_commit_cache,
      fo_overlay = fo_overlay demo_fork_ops\<rparr>"

text \<open>Account 3 is local, account 4 is not; both are in the journal when block 8 is forked.\<close>

definition demo_fork_ctx :: "((unit, (demo_overlay, demo_overlay, unit) database) journal \<times> unit) cheat_ctx" where
  "demo_fork_ctx = \<lparr>cx_origin = 9, cx_block = demo_block_env, cx_chain_id = 1, cx_spec = FRONTIER,
     cx_journal = (\<lparr>jn_state = [(3, ()), (4, ())], jn_entries = [Balance_Transfer 3 4, Nonce_Bump 3],
                    jn_db = Multi_Db demo_multi\<rparr>, ()),
     cx_registry = {3}\<rparr>"

definition demo_fork_journal_ops ::
  "((unit, (demo_overlay, demo_overlay, unit) database) journal \<times> unit, unit) journal_ops" where
  "demo_fork_journal_ops =
     \<lparr>jo_load_account = (\<lambda>_ j. (Some 0, j)), jo_set_balance = (\<lambda>_ _ j. j), jo_set_nonce = (\<lambda>_ _ j. j),
      jo_precompiles = (\<lambda>_ _. False), jo_code_valid = (\<lambda>_. True), jo_set_code = (\<lambda>_ _ j. j),
      jo_insert_storage = (\<lambda>_ _ _ j. j), jo_sstore = (\<lambda>_ _ _ j. (True, j)), jo_sload = (\<lambda>_ _ j. (Some 0, j)),
      jo_is_active_fork = (\<lambda>_ _ _. False), jo_commit_remote = (\<lambda>_ j. j),
      jo_fork = (\<lambda>_ _ _ _ _ j. (Inl Db_Select, j))\<rparr>"

lemma demo_fork_keys: "fork_key_of demo_commit_ops u b = fork_key_of demo_fork_ops u b"
  by (simp add: fork_key_of_def demo_commit_ops_def)


end
