(* ===== verification/Cheat_Block.thy ===== *)
theory Cheat_Block
  imports Cheat_Fork Rate_Limiter
begin

section \<open>The block environment and the scratchpad\<close>

text \<open>
  The inspector notes every block value it sets in its scratchpad (\<open>BlockCheatState\<close>). Over any run of
  callbacks the two agree on the time, the number, the beneficiary, the randomness and the chain id.
\<close>

definition u64_or :: "u64 \<Rightarrow> u256 \<Rightarrow> u64" where
  "u64_or fallback v = (if unat v < 2 ^ 64 then ucast v else fallback)"

definition scratch_holds :: "block_cheats \<Rightarrow> block_env \<Rightarrow> u64 \<Rightarrow> bool" where
  "scratch_holds bs block chain_id \<longleftrightarrow>
     (bs_timestamp bs \<noteq> None \<longrightarrow> bs_timestamp bs = Some (bl_timestamp block))
     \<and> (bs_number bs \<noteq> None \<longrightarrow> bs_number bs = Some (bl_number block))
     \<and> (bs_beneficiary bs \<noteq> None \<longrightarrow> bs_beneficiary bs = Some (bl_beneficiary block))
     \<and> (bs_prevrandao bs \<noteq> None \<longrightarrow> bs_prevrandao bs = bl_prevrandao block)
     \<and> (\<forall>v. bs_chain_id bs = Some v \<longrightarrow> chain_id = u64_or (- 1) v)"

definition scratch_ok :: "block_cheats \<Rightarrow> 'j cheat_ctx \<Rightarrow> bool" where
  "scratch_ok bs cx \<longleftrightarrow> scratch_holds bs (cx_block cx) (cx_chain_id cx)"

lemma account_cheats_block:
  "cx_block (snd (cheat_deal JO a v cx)) = cx_block cx" "cx_chain_id (snd (cheat_deal JO a v cx)) = cx_chain_id cx"
  "cx_block (snd (cheat_etch CL JO a code cx)) = cx_block cx" "cx_chain_id (snd (cheat_etch CL JO a code cx)) = cx_chain_id cx"
  "cx_block (snd (cheat_set_nonce CL JO a n cx)) = cx_block cx" "cx_chain_id (snd (cheat_set_nonce CL JO a n cx)) = cx_chain_id cx"
  "cx_block (snd (cheat_get_nonce JO a cx)) = cx_block cx" "cx_chain_id (snd (cheat_get_nonce JO a cx)) = cx_chain_id cx"
  "cx_block (snd (cheat_store CL JO a slot v cx)) = cx_block cx" "cx_chain_id (snd (cheat_store CL JO a slot v cx)) = cx_chain_id cx"
  "cx_block (snd (cheat_load CL JO a slot cx)) = cx_block cx" "cx_chain_id (snd (cheat_load CL JO a slot cx)) = cx_chain_id cx"
  by (simp_all add: account_cheat_defs Let_def split: prod.split option.split)

lemma u64_or_ucast [simp]: "u64_or d (ucast (n :: u64)) = n"
proof -
  have "unat (ucast n :: u256) = unat n" by (simp add: unat_ucast_up)
  moreover have "unat n < 2 ^ 64" using unsigned_less [of n] by simp
  moreover have "ucast (ucast n :: u256) = n" by (rule bit_eqI) (auto simp: bit_simps)
  ultimately show ?thesis by (simp add: u64_or_def)
qed

lemma fork_options_scratch:
  "scratch_ok (xs_block xs) cx \<Longrightarrow>
   scratch_ok (xs_block (snd (snd (fork_with_options CL JO url n opts cx xs)))) (fst (snd (fork_with_options CL JO url n opts cx xs)))"
  by (simp add: fork_with_options_def Let_def split: prod.split sum.split)
     (simp add: scratch_ok_def scratch_holds_def apply_fork_env_def sync_fork_env_def)

lemma dispatch_scratch:
  assumes "scratch_ok (xs_block xs) cx"
  shows "scratch_ok (xs_block (snd (snd (cheat_dispatch CL JO call cx xs)))) (fst (snd (cheat_dispatch CL JO call cx xs)))"
proof (cases call)
  case (Vm_Fork url n)
  then show ?thesis using fork_options_scratch [OF assms] by (simp add: cheat_fork_def)
next
  case (Vm_Fork_With url n config)
  then show ?thesis using fork_options_scratch [OF assms] by simp
qed (use assms in \<open>simp_all add: scratch_ok_def on_ctx_def on_prank_def cheat_label_def block_cheat_defs
        account_cheats_block\<close>, simp_all add: scratch_holds_def u64_or_def)

definition inspector_scratch :: "'t cheat_inspector \<times> 'j cheat_ctx \<Rightarrow> bool" where
  "inspector_scratch st = scratch_ok (xs_block (in_state (fst st))) (snd st)"

lemma spoof_block:
  "cx_block (fst (snd (spoof JO info (c, cx, pc)))) = cx_block cx"
  "cx_chain_id (fst (snd (spoof JO info (c, cx, pc)))) = cx_chain_id cx"
  by (auto simp: spoof_def Let_def load_pranked_caller_def patch_origin_def split: option.split)

lemma apply_prank_block:
  "cx_block (fst (snd (apply_prank JO depth nv c (cx, pc)))) = cx_block cx"
  "cx_chain_id (fst (snd (apply_prank JO depth nv c (cx, pc)))) = cx_chain_id cx"
proof -
  obtain c1 cx1 pc1 where s1: "spoof JO (start_info depth nv c pc) (c, cx, pc) = (c1, cx1, pc1)" by (rule prod_cases3)
  have same1: "cx_block cx1 = cx_block cx" "cx_chain_id cx1 = cx_chain_id cx"
    using spoof_block [of JO "start_info depth nv c pc" c cx pc] by (simp_all add: s1)
  show "cx_block (fst (snd (apply_prank JO depth nv c (cx, pc)))) = cx_block cx"
    "cx_chain_id (fst (snd (apply_prank JO depth nv c (cx, pc)))) = cx_chain_id cx"
    using spoof_block [of JO "prank_info depth nv c pc" c1 cx1 pc1] same1
    by (simp_all add: apply_prank_def Let_def s1 split_beta)
qed

lemma restore_block [simp]:
  "cx_block (fst (maybe_restore_origin (cx, pc))) = cx_block cx"
  "cx_chain_id (fst (maybe_restore_origin (cx, pc))) = cx_chain_id cx"
  by (simp_all add: maybe_restore_origin_def split: option.split)

lemma frame_start_scratch:
  "inspector_scratch st \<Longrightarrow> inspector_scratch (snd (frame_start JO nv c st))"
  using apply_prank_block [of JO "in_depth (fst st) + 1" nv c "snd st" "xs_prank (in_state (fst st))"]
  by (simp add: frame_start_def put_pranked_def inspector_scratch_def Let_def split_beta scratch_ok_def)

lemma frame_end_scratch: "inspector_scratch st \<Longrightarrow> inspector_scratch (frame_end st)"
  by (simp add: frame_end_def put_pranked_def inspector_scratch_def Let_def split_beta scratch_ok_def)

lemma on_call_scratch:
  assumes "inspector_scratch st"
  shows "inspector_scratch (snd (on_call CL JO decode inputs st))"
proof (cases "vm_call_of decode inputs")
  case None
  then show ?thesis using assms by (simp add: on_call_other)
next
  case (Some call)
  obtain ins cx where st: "st = (ins, cx)" by (rule prod.exhaust)
  have vm: "ci_target inputs = VM_ADDRESS" "\<not> length (ci_input inputs) < 4" "decode (ci_input inputs) = Some call"
    using Some by (auto simp: vm_call_of_def split: if_splits)
  obtain out cx1 xs1 where d: "cheat_dispatch CL JO call cx (in_state ins) = (out, cx1, xs1)" by (rule prod_cases3)
  have "scratch_ok (xs_block xs1) cx1"
    using dispatch_scratch [of "in_state ins" cx CL JO call] assms by (simp add: d st inspector_scratch_def)
  moreover have "xs_block (in_state (fst (snd (on_call CL JO decode inputs st)))) = xs_block xs1"
    "cx_block (snd (snd (on_call CL JO decode inputs st))) = cx_block cx1"
    "cx_chain_id (snd (snd (on_call CL JO decode inputs st))) = cx_chain_id cx1"
    unfolding on_call_def st prod.case
    by (simp_all only: vm d option.case prod.case Let_def if_False simp_thms not_not)
       (simp_all split: option.split)
  ultimately show ?thesis by (simp add: inspector_scratch_def scratch_ok_def)
qed

lemma cheat_step_scratch:
  "inspector_scratch st \<Longrightarrow> inspector_scratch (snd (cheat_step CL JO decode ev st))"
  by (cases ev)
     (simp_all add: split_beta frame_start_scratch frame_end_scratch on_call_scratch,
      simp_all add: inspector_scratch_def scratch_ok_def)

lemma cheat_run_scratch:
  "inspector_scratch st \<Longrightarrow> inspector_scratch (snd (cheat_run CL JO decode evs st))"
proof (induction evs arbitrary: st)
  case (Cons ev evs)
  then show ?case using cheat_step_scratch [OF Cons.prems, of CL JO decode ev] by (simp add: split_beta)
qed simp

text \<open>
  What the scratchpad notes is what the block says. After any sequence of frames, cheatcode
  calls (forks included) and EVM steps, every time, number, beneficiary, randomness and chain id
  noted in the inspector's scratchpad is the value in force in the context; a chain id that does not
  fit 64 bits is in force as the largest one. (The base fee is not among them: a fork sets it to zero
  and leaves the note of an earlier \<open>fee\<close>.)
\<close>

theorem scratchpad_in_sync:
  assumes "scratch_ok (xs_block (in_state ins)) cx"
    and "cheat_run CL JO decode evs (ins, cx) = (frames, ins', cx')"
  shows "scratch_ok (xs_block (in_state ins')) cx'"
  using cheat_run_scratch [of "(ins, cx)" CL JO decode evs] assms by (simp add: inspector_scratch_def)

definition demo_block_decode :: "bytes \<Rightarrow> vm_call option" where
  "demo_block_decode input = (if input = [2, 2, 2, 2] then Some (Vm_Warp 77) else Some (Vm_Chain_Id (- 1)))"

theorem scratchpad_in_sync_witness:
  "\<exists>frames ins' cx'. cheat_run demo_cheat_lib demo_journal_ops demo_block_decode
       [Enter_Call (demo_inputs 3 VM_ADDRESS [2, 2, 2, 2]), Frame_End,
        Enter_Call (demo_inputs 3 VM_ADDRESS [3, 3, 3, 3]), Frame_End] (demo_inspector, demo_cheat_ctx)
     = (frames, ins', cx')
     \<and> scratch_ok (xs_block (in_state ins')) cx'"
proof -
  have "scratch_ok (xs_block (in_state demo_inspector)) demo_cheat_ctx"
    by (simp add: scratch_ok_def scratch_holds_def demo_inspector_def inspector_from_state_def exec_state_from_config_def
        block_cheats_default_def)
  with scratchpad_in_sync [OF this] show ?thesis by (metis prod_cases3)
qed

end
