(* ===== verification/Trace_Slots.thy ===== *)
theory Trace_Slots
  imports Prelude
begin

section \<open>Recorded mapping slots\<close>

text \<open>
  \<open>evm/trace/mod.rs\<close>, \<open>MappingSlots\<close>: what the trace inspector remembers of the hashes a contract
  computed, so that a storage slot can be read back as \<open>mapping[key]\<close>. A 32-byte hash and a slot
  are the same 256-bit word. The code iterates over its hash maps in an order the standard library
  leaves open: a definition that does so takes the order as an argument, a list of the keys.

  \<open>K key parent\<close> is \<open>keccak256(key || parent)\<close>, the address Solidity gives the value of \<open>key\<close> in the
  mapping at \<open>parent\<close>. The loops that walk from a slot to its base follow recorded hashes; they end
  because a hash function has no known cycles, which is the named hypothesis \<open>hashes_acyclic\<close>.
\<close>

record mapping_slots =
  ms_parents :: "u256 \<rightharpoonup> u256"
  ms_keys :: "u256 \<rightharpoonup> u256"
  ms_seen :: "u256 \<rightharpoonup> u256 \<times> u256"
  ms_arrays :: "u256 \<rightharpoonup> u256"

definition ms_empty :: mapping_slots where
  "ms_empty = \<lparr>ms_parents = Map.empty, ms_keys = Map.empty, ms_seen = Map.empty, ms_arrays = Map.empty\<rparr>"

definition record_sha3 :: "u256 \<Rightarrow> u256 \<Rightarrow> u256 \<Rightarrow> mapping_slots \<Rightarrow> mapping_slots" where
  "record_sha3 result key parent ms = ms\<lparr>ms_seen := (ms_seen ms)(result \<mapsto> (key, parent))\<rparr>"

definition record_array_start :: "u256 \<Rightarrow> u256 \<Rightarrow> mapping_slots \<Rightarrow> mapping_slots" where
  "record_array_start result parent ms = ms\<lparr>ms_arrays := (ms_arrays ms)(result \<mapsto> parent)\<rparr>"

definition ms_link :: "u256 \<Rightarrow> u256 \<Rightarrow> u256 \<Rightarrow> mapping_slots \<Rightarrow> mapping_slots" where
  "ms_link slot key parent ms =
     ms\<lparr>ms_keys := (ms_keys ms)(slot \<mapsto> key), ms_parents := (ms_parents ms)(slot \<mapsto> parent)\<rparr>"

lemma ms_link_sel [simp]:
  "ms_keys (ms_link s k p ms) = (ms_keys ms)(s \<mapsto> k)"
  "ms_parents (ms_link s k p ms) = (ms_parents ms)(s \<mapsto> p)"
  "ms_seen (ms_link s k p ms) = ms_seen ms"
  "ms_arrays (ms_link s k p ms) = ms_arrays ms"
  by (simp_all add: ms_link_def)

text \<open>The slots not registered yet become fewer with every recursive call.\<close>

lemma unregistered_less:
  assumes "ms_keys ms slot = None"
  shows "card {s. ms_keys (ms_link slot key parent ms) s = None} < card {s. ms_keys ms s = None}"
proof (rule psubset_card_mono)
  show "finite {s. ms_keys ms s = None}" by (rule finite_subset [OF subset_UNIV]) simp
  show "{s. ms_keys (ms_link slot key parent ms) s = None} \<subset> {s. ms_keys ms s = None}"
    using assms by (auto split: if_splits)
qed

function ms_insert :: "u256 \<Rightarrow> mapping_slots \<Rightarrow> bool \<times> mapping_slots" where
  "ms_insert slot ms =
     (case ms_seen ms slot of
        None \<Rightarrow> (False, ms)
      | Some (key, parent) \<Rightarrow>
          if ms_keys ms slot \<noteq> None then (False, ms)
          else (True, snd (ms_insert parent (ms_link slot key parent ms))))"
  by pat_completeness auto
termination
  by (relation "measure (\<lambda>(slot, ms). card {s. ms_keys ms s = None})")
     (simp, simp only: in_measure prod.case, rule unregistered_less, simp)

declare ms_insert.simps [simp del]

fun insert_scan :: "u256 list \<Rightarrow> u256 \<Rightarrow> mapping_slots \<Rightarrow> bool \<times> mapping_slots" where
  "insert_scan [] slot ms = (False, ms)"
| "insert_scan (known # order) slot ms =
     (case ms_seen ms known of
        None \<Rightarrow> insert_scan order slot ms
      | Some (key, parent) \<Rightarrow>
          if known \<le> slot \<and> slot - known < 128
          then (True, if ms_keys ms known = None
                      then snd (ms_insert parent (ms_link known key parent ms)) else ms)
          else insert_scan order slot ms)"

definition insert_nearby :: "u256 list \<Rightarrow> u256 \<Rightarrow> mapping_slots \<Rightarrow> bool \<times> mapping_slots" where
  "insert_nearby order slot ms =
     (case ms_insert slot ms of
        (True, ms') \<Rightarrow> (True, ms')
      | (False, ms') \<Rightarrow> insert_scan order slot ms')"

text \<open>The loops, with \<open>None\<close> for running forever.\<close>

partial_function (option) chain_loop ::
  "mapping_slots \<Rightarrow> u256 \<Rightarrow> u256 list \<Rightarrow> u256 list option option" where
  "chain_loop ms current keys =
     (case ms_keys ms current of
        None \<Rightarrow> Some (Some keys)
      | Some key \<Rightarrow>
          (case ms_parents ms current of
             None \<Rightarrow> Some None
           | Some parent \<Rightarrow>
               if ms_keys ms parent = None then Some (Some (keys @ [key]))
               else chain_loop ms parent (keys @ [key])))"

definition key_chain :: "mapping_slots \<Rightarrow> u256 \<Rightarrow> u256 list option option" where
  "key_chain ms slot =
     (if ms_keys ms slot = None then Some None
      else map_option (map_option rev) (chain_loop ms slot []))"

partial_function (option) base_loop :: "mapping_slots \<Rightarrow> u256 \<Rightarrow> u256 option option" where
  "base_loop ms current =
     (case ms_keys ms current of
        None \<Rightarrow> Some None
      | Some key \<Rightarrow>
          (case ms_parents ms current of
             None \<Rightarrow> Some None
           | Some parent \<Rightarrow>
               if ms_keys ms parent = None then Some (Some parent) else base_loop ms parent))"

definition base_slot :: "mapping_slots \<Rightarrow> u256 \<Rightarrow> u256 option option" where
  "base_slot ms slot = (if ms_keys ms slot = None then Some None else base_loop ms slot)"

definition array_start_parent :: "mapping_slots \<Rightarrow> u256 \<Rightarrow> u256 option" where
  "array_start_parent ms slot = ms_arrays ms slot"

definition array_start_entries :: "u256 list \<Rightarrow> mapping_slots \<Rightarrow> (u256 \<times> u256) list" where
  "array_start_entries order ms =
     List.map_filter (\<lambda>s. map_option (Pair s) (ms_arrays ms s)) order"

definition is_mapping_result :: "mapping_slots \<Rightarrow> u256 \<Rightarrow> bool" where
  "is_mapping_result ms slot = (case ms_seen ms slot of None \<Rightarrow> False | Some (k, _) \<Rightarrow> k \<noteq> 0)"

subsection \<open>What the inspector feeds in\<close>

datatype slot_event =
    Sha3 u256 u256
  | Array_Start u256 u256
  | Store "u256 list" u256

fun on_slot_event :: "(u256 \<Rightarrow> u256 \<Rightarrow> u256) \<Rightarrow> slot_event \<Rightarrow> mapping_slots \<Rightarrow> mapping_slots" where
  "on_slot_event K (Sha3 key parent) ms = record_sha3 (K key parent) key parent ms"
| "on_slot_event K (Array_Start result parent) ms = record_array_start result parent ms"
| "on_slot_event K (Store order slot) ms = snd (insert_nearby order slot ms)"

definition ms_inv :: "(u256 \<Rightarrow> u256 \<Rightarrow> u256) \<Rightarrow> mapping_slots \<Rightarrow> bool" where
  "ms_inv K ms \<longleftrightarrow>
     (\<forall>s k p. ms_seen ms s = Some (k, p) \<longrightarrow> K k p = s)
   \<and> (\<forall>s. ms_keys ms s = None \<longleftrightarrow> ms_parents ms s = None)
   \<and> (\<forall>s k p. ms_keys ms s = Some k \<longrightarrow> ms_parents ms s = Some p \<longrightarrow> K k p = s)"

definition hashes_acyclic :: "mapping_slots \<Rightarrow> bool" where
  "hashes_acyclic ms \<longleftrightarrow> acyclic {(p, s). ms_parents ms s = Some p}"

lemma ms_inv_empty: "ms_inv K ms_empty"
  by (simp add: ms_inv_def ms_empty_def)

lemma ms_inv_link:
  "ms_inv K ms \<Longrightarrow> ms_seen ms s = Some (k, p) \<Longrightarrow> ms_inv K (ms_link s k p ms)"
  by (auto simp: ms_inv_def)

lemma ms_inv_insert: "ms_inv K ms \<Longrightarrow> ms_inv K (snd (ms_insert slot ms))"
proof (induction slot ms rule: ms_insert.induct)
  case (1 slot ms)
  show ?case
  proof (cases "ms_seen ms slot")
    case None
    with 1 show ?thesis by (simp add: ms_insert.simps [of slot])
  next
    case (Some kp)
    obtain k p where kp: "kp = (k, p)" by (rule prod.exhaust)
    have seen: "ms_seen ms slot = Some (k, p)" using Some kp by simp
    show ?thesis
    proof (cases "ms_keys ms slot = None")
      case True
      have "ms_inv K (snd (ms_insert p (ms_link slot k p ms)))"
        using 1(1) [OF seen] True ms_inv_link [OF 1(2) seen] by simp
      with seen True show ?thesis by (simp add: ms_insert.simps [of slot])
    qed (use 1 seen in \<open>simp add: ms_insert.simps [of slot]\<close>)
  qed
qed

lemma ms_inv_scan: "ms_inv K ms \<Longrightarrow> ms_inv K (snd (insert_scan order slot ms))"
  by (induction order) (auto simp: ms_inv_insert ms_inv_link split: option.splits)

lemma ms_inv_nearby: "ms_inv K ms \<Longrightarrow> ms_inv K (snd (insert_nearby order slot ms))"
  using ms_inv_insert [of K ms slot]
  by (auto simp: insert_nearby_def ms_inv_scan split: prod.splits bool.splits)

lemma ms_inv_event: "ms_inv K ms \<Longrightarrow> ms_inv K (on_slot_event K e ms)"
proof (cases e)
  case (Sha3 key parent)
  assume "ms_inv K ms"
  with Sha3 show ?thesis by (auto simp: ms_inv_def record_sha3_def)
next
  case (Array_Start result parent)
  assume "ms_inv K ms"
  with Array_Start show ?thesis by (simp add: ms_inv_def record_array_start_def)
qed (simp add: ms_inv_nearby)

lemma ms_inv_events: "ms_inv K (fold (on_slot_event K) es ms_empty)"
proof -
  have "ms_inv K ms \<Longrightarrow> ms_inv K (fold (on_slot_event K) es ms)" for ms
    by (induction es arbitrary: ms) (auto simp: ms_inv_event)
  then show ?thesis using ms_inv_empty .
qed

subsection \<open>Walking back to the base\<close>

lemma parents_wf:
  assumes "hashes_acyclic ms"
  shows "wf {(p, s). ms_parents ms s = Some p}"
  using assms unfolding hashes_acyclic_def
  by (intro finite_acyclic_wf) (auto intro: finite_subset [OF subset_UNIV])

lemma base_loop_step:
  assumes "ms_keys ms s = Some k" and "ms_parents ms s = Some p"
  shows "base_loop ms s = (if ms_keys ms p = None then Some (Some p) else base_loop ms p)"
  by (subst base_loop.simps) (simp add: assms)

lemma chain_loop_step:
  assumes "ms_keys ms s = Some k" and "ms_parents ms s = Some p"
  shows "chain_loop ms s ks =
    (if ms_keys ms p = None then Some (Some (ks @ [k])) else chain_loop ms p (ks @ [k]))"
  by (subst chain_loop.simps) (simp add: assms)

text \<open>Both loops find the same path: the keys lead back from the base to the slot.\<close>

lemma walk_back:
  assumes "ms_inv K ms" and "hashes_acyclic ms" and "ms_keys ms slot \<noteq> None"
  shows "\<exists>path base. path \<noteq> [] \<and> base_loop ms slot = Some (Some base)
    \<and> ms_keys ms base = None
    \<and> (\<forall>ks. chain_loop ms slot ks = Some (Some (ks @ rev path)))
    \<and> foldl (\<lambda>p k. K k p) base path = slot"
  using assms(3)
proof (induction slot rule: wf_induct_rule [OF parents_wf [OF assms(2)]])
  case (1 slot)
  obtain k where k: "ms_keys ms slot = Some k" using 1(2) by auto
  obtain p where p: "ms_parents ms slot = Some p"
    using assms(1) k by (metis ms_inv_def not_None_eq option.distinct(1))
  have hash: "K k p = slot" using assms(1) k p by (simp add: ms_inv_def)
  show ?case
  proof (cases "ms_keys ms p = None")
    case True
    then show ?thesis
      by (intro exI [of _ "[k]"] exI [of _ p]) (simp add: base_loop_step [OF k p] chain_loop_step [OF k p] hash)
  next
    case False
    from 1(1) [of p] p False obtain path base where
      "path \<noteq> []" "base_loop ms p = Some (Some base)" "ms_keys ms base = None"
      "\<forall>ks. chain_loop ms p ks = Some (Some (ks @ rev path))" "foldl (\<lambda>p k. K k p) base path = p"
      by auto
    then show ?thesis using False
      by (intro exI [of _ "path @ [k]"] exI [of _ base])
         (simp add: base_loop_step [OF k p] chain_loop_step [OF k p] hash)
  qed
qed

lemma key_chain_base:
  assumes "ms_inv K ms" and "hashes_acyclic ms" and "ms_keys ms slot \<noteq> None"
  shows "\<exists>keys base. keys \<noteq> [] \<and> key_chain ms slot = Some (Some keys)
    \<and> base_slot ms slot = Some (Some base) \<and> ms_keys ms base = None
    \<and> foldl (\<lambda>p k. K k p) base keys = slot"
proof -
  from walk_back [OF assms] obtain path base where
    "path \<noteq> []" "base_loop ms slot = Some (Some base)" "ms_keys ms base = None"
    "\<forall>ks. chain_loop ms slot ks = Some (Some (ks @ rev path))" "foldl (\<lambda>p k. K k p) base path = slot"
    by auto
  with assms(3) show ?thesis
    by (intro exI [of _ path] exI [of _ base]) (simp add: key_chain_def base_slot_def)
qed

lemma unknown_slot:
  "ms_keys ms slot = None \<Longrightarrow> key_chain ms slot = Some None \<and> base_slot ms slot = Some None"
  by (simp add: key_chain_def base_slot_def)


text \<open>A nested mapping at slot 3: the value of key 5, and in it the value of key 7.\<close>

definition demo_slot_hash :: "u256 \<Rightarrow> u256 \<Rightarrow> u256" where
  "demo_slot_hash key parent = parent * 1000 + key"

definition demo_mapping_slots :: mapping_slots where
  "demo_mapping_slots = fold (on_slot_event demo_slot_hash)
     [Sha3 5 3, Sha3 7 3005, Store [3005, 3005007] 3005009] ms_empty"

lemma demo_mapping_slots_fields:
  "ms_keys demo_mapping_slots = [3005 \<mapsto> 5, 3005007 \<mapsto> 7]"
  "ms_parents demo_mapping_slots = [3005 \<mapsto> 3, 3005007 \<mapsto> 3005]"
  by (simp_all add: demo_mapping_slots_def demo_slot_hash_def record_sha3_def ms_empty_def insert_nearby_def
      ms_insert.simps fun_upd_def word_le_nat_alt word_less_nat_alt ms_link_def fun_eq_iff)

lemma demo_mapping_slots_acyclic: "hashes_acyclic demo_mapping_slots"
proof -
  have "{(p, s). ms_parents demo_mapping_slots s = Some p} \<subseteq> measure unat"
    by (auto simp: demo_mapping_slots_fields split: if_splits)
  then show ?thesis
    unfolding hashes_acyclic_def by (rule acyclic_subset [OF wf_acyclic [OF wf_measure]])
qed

lemma demo_mapping_slots_chain:
  "key_chain demo_mapping_slots 3005007 = Some (Some [5, 7])" "base_slot demo_mapping_slots 3005007 = Some (Some 3)"
  by (simp_all add: key_chain_def base_slot_def chain_loop.simps base_loop.simps demo_mapping_slots_fields)


end
