(* ===== verification/Trace_Types.thy ===== *)
theory Trace_Types
  imports Literals
begin

section \<open>Storage types and their values\<close>

text \<open>
  \<open>evm/trace/mod.rs\<close>, \<open>StorageType\<close>: the types of storage variables, read from the type names of the
  storage layout solc prints, and the text of a storage word at a type. A string is its UTF-8
  bytes. What crates print (hexadecimal, checksummed addresses, 256-bit numbers) and parse, and the
  hash, are the parameter \<open>trace_text\<close>. A panic is \<open>None\<close>.
\<close>

record trace_text =
  tx_u256 :: "u256 \<Rightarrow> string"
  tx_i256 :: "u256 \<Rightarrow> string"
  tx_hex :: "bytes \<Rightarrow> string"
  tx_checksum :: "address \<Rightarrow> string"
  tx_keccak :: "bytes \<Rightarrow> u256"
  tx_parse_u256 :: "string \<Rightarrow> u256 option"

subsection \<open>Decimal numbers\<close>

definition dec_digit :: "nat \<Rightarrow> char" where
  "dec_digit n = ''0123456789'' ! n"

fun dec :: "nat \<Rightarrow> string" where
  "dec n = (if n < 10 then [dec_digit n] else dec (n div 10) @ [dec_digit (n mod 10)])"

declare dec.simps [simp del]

fun dec_value :: "nat \<Rightarrow> string \<Rightarrow> nat option" where
  "dec_value acc [] = Some acc"
| "dec_value acc (c # cs) =
     (let d = (of_char c :: nat)
      in if 48 \<le> d \<and> d \<le> 57 then dec_value (10 * acc + (d - 48)) cs else None)"

text \<open>\<open>str::parse::<usize>\<close>: an optional plus sign, at least one digit, no overflow.\<close>

definition parse_usize :: "string \<Rightarrow> nat option" where
  "parse_usize s =
     (let t = (case s of [] \<Rightarrow> [] | c # cs \<Rightarrow> if c = CHR ''+'' then cs else s)
      in if t = [] then None
         else case dec_value 0 t of None \<Rightarrow> None | Some n \<Rightarrow> if n < 2 ^ 64 then Some n else None)"

lemma dec_digit_cases: "n < 10 \<Longrightarrow> dec_digit n \<in> set ''0123456789''"
  unfolding dec_digit_def by (rule nth_mem) simp

lemma dec_digit_value [simp]:
  assumes "n < 10"
  shows "of_char (dec_digit n) = (48 + n :: nat)"
proof -
  from assms have "n = 0 \<or> n = 1 \<or> n = 2 \<or> n = 3 \<or> n = 4 \<or> n = 5 \<or> n = 6 \<or> n = 7 \<or> n = 8 \<or> n = 9"
    by arith
  then show ?thesis by (elim disjE) (simp_all add: dec_digit_def)
qed

lemma dec_not_Nil [simp]: "dec n \<noteq> []"
  by (subst dec.simps) simp

lemma dec_chars: "set (dec n) \<subseteq> set ''0123456789''"
proof (induction n rule: dec.induct)
  case (1 n)
  show ?case
  proof (cases "n < 10")
    case True
    then show ?thesis using dec_digit_cases [of n] by (subst dec.simps) simp
  next
    case False
    then have "dec n = dec (n div 10) @ [dec_digit (n mod 10)]" by (subst dec.simps) simp
    with 1 [OF False] dec_digit_cases [of "n mod 10"] show ?thesis by simp
  qed
qed

lemma dec_value_append:
  "dec_value a (s @ t) = (case dec_value a s of None \<Rightarrow> None | Some b \<Rightarrow> dec_value b t)"
  by (induction s arbitrary: a) (auto simp: Let_def)

lemma dec_value_dec: "dec_value 0 (dec n) = Some n"
proof (induction n rule: dec.induct)
  case (1 n)
  show ?case
  proof (cases "n < 10")
    case True
    then show ?thesis by (subst dec.simps) simp
  next
    case False
    then have "dec n = dec (n div 10) @ [dec_digit (n mod 10)]" by (subst dec.simps) simp
    with 1 [OF False] show ?thesis by (simp add: dec_value_append)
  qed
qed

lemma parse_usize_dec: "n < 2 ^ 64 \<Longrightarrow> parse_usize (dec n) = Some n"
proof -
  assume n: "n < 2 ^ 64"
  obtain c cs where d: "dec n = c # cs" by (cases "dec n") auto
  then have "c \<noteq> CHR ''+''" using dec_chars [of n] by auto
  with n dec_value_dec [of n] show ?thesis by (simp add: parse_usize_def d del: dec_value.simps)
qed

subsection \<open>Types\<close>

datatype storage_type =
    St_Bool
  | St_Uint nat
  | St_Int nat
  | St_Address
  | St_Fixed_Bytes nat
  | St_Bytes
  | St_String
  | St_Array storage_type "nat option"
  | St_Mapping
  | St_Struct

fun find_close :: "nat \<Rightarrow> nat \<Rightarrow> string \<Rightarrow> nat option" where
  "find_close i depth [] = None"
| "find_close i depth (c # cs) =
     (if c = CHR ''('' then find_close (Suc i) (Suc depth) cs
      else if c = CHR '')'' then
        (if depth - 1 = 0 then Some i else find_close (Suc i) (depth - 1) cs)
      else find_close (Suc i) depth cs)"

definition find_matching_paren :: "string \<Rightarrow> nat option" where
  "find_matching_paren s = find_close 0 1 s"

lemma strip_prefix_length: "strip_prefix p s = Some t \<Longrightarrow> length s = length p + length t"
  by (auto simp: strip_prefix_Some)

function parse_type :: "string \<Rightarrow> storage_type option" where
  "parse_type t =
     (if t = ''t_bool'' then Some St_Bool
      else if t = ''t_address'' then Some St_Address
      else if t = ''t_bytes_storage'' then Some St_Bytes
      else if t = ''t_string_storage'' then Some St_String
      else case strip_prefix ''t_uint'' t of
        Some bits \<Rightarrow> map_option St_Uint (parse_usize bits)
      | None \<Rightarrow>
      (case strip_prefix ''t_int'' t of
        Some bits \<Rightarrow> map_option St_Int (parse_usize bits)
      | None \<Rightarrow>
      (case strip_prefix ''t_bytes'' t of
        Some sz \<Rightarrow> map_option St_Fixed_Bytes (parse_usize sz)
      | None \<Rightarrow>
      (case strip_prefix ''t_array('' t of
        Some inner \<Rightarrow>
          (case find_matching_paren inner of
             None \<Rightarrow> None
           | Some e \<Rightarrow>
               (case parse_type (take e inner) of
                  None \<Rightarrow> None
                | Some element \<Rightarrow>
                    let rest = drop (Suc e) inner in
                    if starts_with rest ''dyn_'' then Some (St_Array element None)
                    else map_option (\<lambda>n. St_Array element (Some n))
                      (parse_usize (takeWhile (\<lambda>c. c \<noteq> CHR ''_'') rest))))
      | None \<Rightarrow>
          if starts_with t ''t_mapping('' then Some St_Mapping
          else if starts_with t ''t_struct('' then Some St_Struct
          else if starts_with t ''t_contract('' then Some St_Address
          else None))))"
  by pat_completeness auto
termination
  by (relation "measure length") (auto dest: strip_prefix_length)

declare parse_type.simps [simp del]

fun slot_size :: "storage_type \<Rightarrow> nat" where
  "slot_size St_Bool = 1"
| "slot_size (St_Uint bits) = bits div 8"
| "slot_size (St_Int bits) = bits div 8"
| "slot_size St_Address = 20"
| "slot_size (St_Fixed_Bytes sz) = sz"
| "slot_size St_Bytes = 32"
| "slot_size St_String = 32"
| "slot_size (St_Array _ _) = 32"
| "slot_size St_Mapping = 32"
| "slot_size St_Struct = 32"

subsection \<open>Values\<close>

text \<open>\<open>str::from_utf8\<close>: the well-formed byte sequences of the Unicode standard.\<close>

definition utf8_tail :: "u8 \<Rightarrow> bool" where
  "utf8_tail b \<longleftrightarrow> 0x80 \<le> b \<and> b \<le> 0xBF"

fun utf8_valid :: "bytes \<Rightarrow> bool" where
  "utf8_valid [] = True"
| "utf8_valid (a # bs) =
     (if a < 0x80 then utf8_valid bs
      else if 0xC2 \<le> a \<and> a \<le> 0xDF then
        (case bs of b # r \<Rightarrow> utf8_tail b \<and> utf8_valid r | _ \<Rightarrow> False)
      else if 0xE0 \<le> a \<and> a \<le> 0xEF then
        (case bs of
           b # c # r \<Rightarrow>
             utf8_tail b \<and> (a = 0xE0 \<longrightarrow> 0xA0 \<le> b) \<and> (a = 0xED \<longrightarrow> b \<le> 0x9F) \<and> utf8_tail c
             \<and> utf8_valid r
         | _ \<Rightarrow> False)
      else if 0xF0 \<le> a \<and> a \<le> 0xF4 then
        (case bs of
           b # c # d # r \<Rightarrow>
             utf8_tail b \<and> (a = 0xF0 \<longrightarrow> 0x90 \<le> b) \<and> (a = 0xF4 \<longrightarrow> b \<le> 0x8F) \<and> utf8_tail c
             \<and> utf8_tail d \<and> utf8_valid r
         | _ \<Rightarrow> False)
      else False)"

definition bytes_text :: "bytes \<Rightarrow> string" where
  "bytes_text bs = map (\<lambda>b. char_of (unat b)) bs"

definition extract_packed :: "u256 \<Rightarrow> nat \<Rightarrow> nat \<Rightarrow> u256" where
  "extract_packed value offset nbytes =
     (if offset = 0 \<and> 32 \<le> nbytes then value
      else and (drop_bit (offset * 8) value) (push_bit (nbytes * 8) 1 - 1))"

definition trimmed_hex :: "trace_text \<Rightarrow> bytes \<Rightarrow> string" where
  "trimmed_hex TX bs =
     (let trimmed = dropWhile (\<lambda>c. c = CHR ''0'') (tx_hex TX bs)
      in if trimmed = [] then ''0x00'' else ''0x'' @ trimmed)"

definition format_string_slot :: "trace_text \<Rightarrow> u256 \<Rightarrow> string option" where
  "format_string_slot TX value =
     (let bs = be_bytes 32 value;
          low_byte = bs ! 31;
          len = unat low_byte div 2
      in if even (unat low_byte) then
           if len = 0 then Some [CHR 0x22, CHR 0x22]
           else if 32 < len then None
           else if utf8_valid (take len bs) then Some (CHR 0x22 # bytes_text (take len bs) @ [CHR 0x22])
           else Some (trimmed_hex TX bs)
         else Some (trimmed_hex TX bs))"

definition format_int_slot :: "trace_text \<Rightarrow> nat \<Rightarrow> u256 \<Rightarrow> string option" where
  "format_int_slot TX bits extracted =
     (if bits < 256 then
        if bits = 0 then None
        else if push_bit (bits - 1) 1 \<le> extracted
          then Some (CHR ''-'' # tx_u256 TX (push_bit bits 1 - extracted))
          else Some (tx_i256 TX extracted)
      else Some (tx_i256 TX extracted))"

fun format_storage :: "trace_text \<Rightarrow> storage_type \<Rightarrow> u256 \<Rightarrow> nat \<Rightarrow> nat \<Rightarrow> string option" where
  "format_storage TX St_Bool value offset nbytes =
     Some (if extract_packed value offset nbytes = 0 then ''false'' else ''true'')"
| "format_storage TX St_Address value offset nbytes =
     Some (tx_checksum TX (ucast (extract_packed value offset nbytes)))"
| "format_storage TX (St_Fixed_Bytes _) value offset nbytes =
     Some (trimmed_hex TX (be_bytes 32 (extract_packed value offset nbytes)))"
| "format_storage TX St_Bytes value offset nbytes =
     Some (trimmed_hex TX (be_bytes 32 (extract_packed value offset nbytes)))"
| "format_storage TX St_String value offset nbytes = format_string_slot TX value"
| "format_storage TX (St_Int bits) value offset nbytes =
     format_int_slot TX bits (extract_packed value offset nbytes)"
| "format_storage TX (St_Uint _) value offset nbytes = Some (tx_u256 TX (extract_packed value offset nbytes))"
| "format_storage TX (St_Array _ _) value offset nbytes = Some (tx_u256 TX (extract_packed value offset nbytes))"
| "format_storage TX St_Mapping value offset nbytes = Some (tx_u256 TX (extract_packed value offset nbytes))"
| "format_storage TX St_Struct value offset nbytes = Some (tx_u256 TX (extract_packed value offset nbytes))"

subsection \<open>The type names solc prints\<close>

definition plain :: "string \<Rightarrow> bool" where
  "plain s \<longleftrightarrow> CHR ''('' \<notin> set s \<and> CHR '')'' \<notin> set s"

inductive solc_name :: "string \<Rightarrow> storage_type \<Rightarrow> bool" where
  solc_bool: "solc_name ''t_bool'' St_Bool"
| solc_address: "solc_name ''t_address'' St_Address"
| solc_bytes: "solc_name ''t_bytes_storage'' St_Bytes"
| solc_string: "solc_name ''t_string_storage'' St_String"
| solc_uint: "n < 2 ^ 64 \<Longrightarrow> solc_name (''t_uint'' @ dec n) (St_Uint n)"
| solc_int: "n < 2 ^ 64 \<Longrightarrow> solc_name (''t_int'' @ dec n) (St_Int n)"
| solc_fixed_bytes: "n < 2 ^ 64 \<Longrightarrow> solc_name (''t_bytes'' @ dec n) (St_Fixed_Bytes n)"
| solc_contract: "plain s \<Longrightarrow> plain r \<Longrightarrow> solc_name (''t_contract('' @ s @ '')'' @ r) St_Address"
| solc_struct: "plain s \<Longrightarrow> plain r \<Longrightarrow> solc_name (''t_struct('' @ s @ '')'' @ r) St_Struct"
| solc_mapping:
    "solc_name k kt \<Longrightarrow> solc_name v vt \<Longrightarrow> solc_name (''t_mapping('' @ k @ '','' @ v @ '')'') St_Mapping"
| solc_dyn_array: "solc_name t ty \<Longrightarrow> solc_name (''t_array('' @ t @ '')dyn_storage'') (St_Array ty None)"
| solc_fixed_array:
    "solc_name t ty \<Longrightarrow> n < 2 ^ 64 \<Longrightarrow>
     solc_name (''t_array('' @ t @ '')'' @ dec n @ ''_storage'') (St_Array ty (Some n))"

definition balanced :: "string \<Rightarrow> bool" where
  "balanced s \<longleftrightarrow>
     (\<forall>i d rest. 0 < d \<longrightarrow> find_close i d (s @ rest) = find_close (i + length s) d rest)"

lemma balancedD: "balanced s \<Longrightarrow> 0 < d \<Longrightarrow> find_close i d (s @ rest) = find_close (i + length s) d rest"
  by (simp add: balanced_def)

lemma balanced_plain: "plain s \<Longrightarrow> balanced s"
proof -
  have "plain s \<Longrightarrow> find_close i d (s @ rest) = find_close (i + length s) d rest" for i d rest
    by (induction s arbitrary: i) (auto simp: plain_def)
  then show "plain s \<Longrightarrow> balanced s" by (simp add: balanced_def)
qed

lemma balanced_append: "balanced s \<Longrightarrow> balanced t \<Longrightarrow> balanced (s @ t)"
  by (simp add: balanced_def add.assoc)

lemma balanced_paren: "balanced s \<Longrightarrow> balanced (''('' @ s @ '')'')"
  unfolding balanced_def by simp

lemma plain_dec: "plain (dec n)"
  using dec_chars [of n] by (auto simp: plain_def)

lemma balanced_wrapped:
  assumes "plain p" and "balanced s" and "plain r"
  shows "balanced (p @ ''('' @ s @ '')'' @ r)"
  using balanced_append [OF balanced_plain [OF assms(1)]
      balanced_append [OF balanced_paren [OF assms(2)] balanced_plain [OF assms(3)]]]
  by simp

lemma solc_name_balanced: "solc_name t ty \<Longrightarrow> balanced t"
proof (induction rule: solc_name.induct)
  case (solc_mapping k kt v vt)
  have "balanced (k @ '','' @ v)"
    by (intro balanced_append solc_mapping.IH balanced_plain) (simp add: plain_def)
  from balanced_wrapped [OF _ this, of "''t_mapping''" "[]"] show ?case by (simp add: plain_def)
next
  case (solc_dyn_array t ty)
  from balanced_wrapped [OF _ solc_dyn_array.IH, of "''t_array''" "''dyn_storage''"]
  show ?case by (simp add: plain_def)
next
  case (solc_fixed_array t ty n)
  from balanced_wrapped [OF _ solc_fixed_array.IH, of "''t_array''" "dec n @ ''_storage''"] plain_dec [of n]
  show ?case by (simp add: plain_def)
next
  case (solc_contract s r)
  from balanced_wrapped [OF _ balanced_plain [OF solc_contract(1)] solc_contract(2), of "''t_contract''"]
  show ?case by (simp add: plain_def)
next
  case (solc_struct s r)
  from balanced_wrapped [OF _ balanced_plain [OF solc_struct(1)] solc_struct(2), of "''t_struct''"]
  show ?case by (simp add: plain_def)
qed (use plain_dec in \<open>auto intro!: balanced_plain simp: plain_def\<close>)

lemma matching_paren: "balanced s \<Longrightarrow> find_matching_paren (s @ CHR '')'' # r) = Some (length s)"
  by (simp add: find_matching_paren_def balancedD)

lemma dec_no_mark: "CHR ''_'' \<notin> set (dec n)"
  using dec_chars [of n] by auto

lemma takeWhile_dec: "takeWhile (\<lambda>c. c \<noteq> CHR ''_'') (dec n @ CHR ''_'' # r) = dec n"
proof -
  have "\<forall>c \<in> set (dec n). c \<noteq> CHR ''_''" using dec_no_mark [of n] by auto
  then show ?thesis by simp
qed

lemma dec_not_dyn: "\<not> starts_with (dec n @ r) (CHR ''d'' # s)"
proof -
  obtain c cs where d: "dec n = c # cs" by (cases "dec n") auto
  then have "c \<noteq> CHR ''d''" using dec_chars [of n] by auto
  with d show ?thesis by (simp add: starts_with_def)
qed

lemma dec_not_storage: "dec n \<noteq> ''_storage''"
  using dec_no_mark [of n] by auto

lemmas parse_type_eval = parse_type.simps strip_prefix_def starts_with_def

text \<open>
  The types of a storage layout are recognised: reading the name solc gives to a type (a value
  type, \<open>bytes\<close>, \<open>string\<close>, a contract, a struct, a mapping over such types, or a fixed or dynamic
  array of such a type, nested to any depth) gives that type.
\<close>

theorem type_names_are_parsed: "solc_name t ty \<Longrightarrow> parse_type t = Some ty"
proof (induction rule: solc_name.induct)
  case (solc_dyn_array t ty)
  from matching_paren [OF solc_name_balanced [OF solc_dyn_array(1)], of "''dyn_storage''"] solc_dyn_array.IH
  show ?case by (subst parse_type.simps) (simp add: strip_prefix_def starts_with_def)
next
  case (solc_fixed_array t ty n)
  from matching_paren [OF solc_name_balanced [OF solc_fixed_array(1)], of "dec n @ ''_storage''"]
    solc_fixed_array.IH takeWhile_dec [of n "''storage''"] dec_not_dyn [of n "''_storage''" "''yn_''"]
    parse_usize_dec [OF solc_fixed_array(2)]
  show ?case
    by (subst parse_type.simps) (simp add: strip_prefix_def starts_with_def [of "_ # _"] starts_with_def [of "[]"])
next
  case (solc_uint n)
  then show ?case by (simp add: parse_type_eval parse_usize_dec)
next
  case (solc_int n)
  then show ?case by (simp add: parse_type_eval parse_usize_dec)
next
  case (solc_fixed_bytes n)
  then show ?case using dec_not_storage [of n] by (simp add: parse_type_eval parse_usize_dec)
qed (simp_all add: parse_type_eval)

theorem type_names_are_parsed_witness:
  "parse_type ''t_array(t_array(t_uint8)3_storage)dyn_storage''
     = Some (St_Array (St_Array (St_Uint 8) (Some 3)) None)"
proof -
  have "dec 8 = ''8''" "dec 3 = ''3''" by (simp_all add: dec.simps dec_digit_def)
  then show ?thesis
    using type_names_are_parsed [OF solc_dyn_array [OF solc_fixed_array [OF solc_uint [of 8], of 3]]]
    by simp
qed

text \<open>Enums, payable addresses, function types and user-defined value types are not recognised.\<close>

lemma unsupported_types:
  "parse_type ''t_address_payable'' = None"
  "parse_type (''t_enum('' @ r) = None"
  "parse_type (''t_userDefinedValueType('' @ r) = None"
  "parse_type (''t_function'' @ r) = None"
  by (simp_all add: parse_type_eval)

subsection \<open>Signed values\<close>

definition trace_text_ok :: "trace_text \<Rightarrow> bool" where
  "trace_text_ok TX \<longleftrightarrow>
     (\<forall>w. tx_u256 TX w = dec (unat w))
   \<and> (\<forall>w. tx_i256 TX w = (if sint w < 0 then CHR ''-'' # dec (nat (- sint w)) else dec (nat (sint w))))"

definition show_int :: "int \<Rightarrow> string" where
  "show_int i = (if i < 0 then CHR ''-'' # dec (nat (- i)) else dec (nat i))"

text \<open>The signed number in the \<open>bits\<close> bits of a word that start at a bit.\<close>

definition packed_int :: "nat \<Rightarrow> nat \<Rightarrow> u256 \<Rightarrow> int" where
  "packed_int bits start value = signed_take_bit (bits - 1) (uint value div 2 ^ start)"

lemma unat_extract:
  assumes "8 * nbytes < 256"
  shows "uint (extract_packed value offset nbytes) = take_bit (8 * nbytes) (uint value div 2 ^ (8 * offset))"
proof -
  have "push_bit (nbytes * 8) 1 - 1 = (mask (8 * nbytes) :: u256)"
    by (simp add: mask_eq_exp_minus_1 push_bit_eq_mult mult.commute)
  with assms have packed: "extract_packed value offset nbytes = take_bit (8 * nbytes) (drop_bit (8 * offset) value)"
    by (auto simp: extract_packed_def take_bit_eq_mask mult.commute)
  have "uint (take_bit n (drop_bit m value)) = take_bit n (drop_bit m (uint value))" for n m
    by (rule bit_eqI) (auto simp: bit_simps)
  then show ?thesis by (simp only: packed drop_bit_eq_div)
qed

lemma show_int_i256: "trace_text_ok TX \<Longrightarrow> tx_i256 TX w = show_int (sint w)"
  by (simp add: trace_text_ok_def show_int_def)

lemma signed_take_bit_int:
  fixes x :: int
  assumes "0 < bits"
  shows "signed_take_bit (bits - 1) x =
    (if 2 ^ (bits - 1) \<le> take_bit bits x then take_bit bits x - 2 ^ bits else take_bit bits x)"
proof -
  obtain n where n: "bits = Suc n" using assms by (cases bits) auto
  have bit: "bit x n \<longleftrightarrow> 2 ^ n \<le> take_bit (Suc n) x"
    by (simp add: take_bit_Suc_from_most of_bool_def take_bit_int_less_exp not_le)
  have "signed_take_bit n x = take_bit (Suc n) x - of_bool (bit x n) * 2 ^ Suc n"
    by (simp add: signed_take_bit_eq_take_bit_minus)
  with bit n show ?thesis by simp
qed

lemma uint_bit:
  assumes "n < 256"
  shows "uint (2 ^ n :: u256) = 2 ^ n"
proof -
  have "(2::int) ^ n < 2 ^ 256" using assms by (simp only: power_strict_increasing)
  then have "uint (word_of_int (2 ^ n) :: u256) = 2 ^ n"
    by (simp only: uint_word_of_int_eq take_bit_int_eq_self zero_le_power zero_le_numeral
        len_num1 len_bit0 len_bit1 mult_numeral_1_right) (simp add: take_bit_int_eq_self assms)
  then show ?thesis by simp
qed

lemma format_int_packed:
  assumes TX: "trace_text_ok TX" and bits: "bits = 8 * nbytes" "0 < nbytes" "8 * offset + bits \<le> 256"
  shows "format_int_slot TX bits (extract_packed value offset nbytes)
    = Some (show_int (packed_int bits (8 * offset) value))"
proof (cases "bits < 256")
  case False
  then have "offset = 0" "nbytes = 32" "bits = 256" using bits by auto
  moreover have "packed_int 256 0 value = sint value"
    by (simp add: packed_int_def sint_uint)
  ultimately show ?thesis using TX by (simp add: format_int_slot_def extract_packed_def show_int_i256)
next
  case True
  let ?e = "extract_packed value offset nbytes"
  let ?x = "uint value div 2 ^ (8 * offset)"
  have nz: "bits \<noteq> 0" using bits by simp
  have e: "uint ?e = take_bit bits ?x" using unat_extract [of nbytes "value" offset] True bits by simp
  have less: "uint ?e < 2 ^ bits" unfolding e by simp
  have pow: "(2::int) ^ (bits - 1) < 2 ^ 256" "(2::int) ^ bits < 2 ^ 256"
    using True power_strict_increasing [of "bits - 1" 256 "2::int"] power_strict_increasing [of bits 256 "2::int"]
    by (simp_all only: less_imp_diff_less)
  have half: "uint (2 ^ (bits - 1) :: u256) = 2 ^ (bits - 1)"
    "uint (2 ^ bits :: u256) = 2 ^ bits"
    using True by (simp_all only: uint_bit less_imp_diff_less)
  have le: "push_bit (bits - 1) 1 \<le> ?e \<longleftrightarrow> 2 ^ (bits - 1) \<le> uint ?e"
    using half(1) by (simp add: word_le_def)
  have packed: "packed_int bits (8 * offset) value
      = (if 2 ^ (bits - 1) \<le> uint ?e then uint ?e - 2 ^ bits else uint ?e)"
    unfolding packed_int_def e using bits by (subst signed_take_bit_int) auto
  show ?thesis
  proof (cases "2 ^ (bits - 1) \<le> uint ?e")
    case neg: True
    have "uint (2 ^ bits - ?e) = 2 ^ bits - uint ?e"
      using less half(2) uint_sub_lem [of ?e "2 ^ bits"] by simp
    then have u: "nat (2 ^ bits - uint ?e) = unat (2 ^ bits - ?e)" by (metis unat_eq_nat_uint)
    have "format_int_slot TX bits ?e = Some (CHR ''-'' # dec (unat (2 ^ bits - ?e)))"
      using neg True nz TX le by (simp add: format_int_slot_def trace_text_ok_def)
    with neg less u show ?thesis by (simp add: packed show_int_def)
  next
    case pos: False
    have "bits - 1 \<le> 255" using True by arith
    then have "(2::int) ^ (bits - 1) \<le> 2 ^ 255" by (rule power_increasing) simp
    with pos have "uint ?e < 2 ^ 255" by (simp only: not_le)
    moreover have "sint ?e = signed_take_bit 255 (uint ?e)" by (simp add: sint_uint)
    moreover have "- (2 ^ 255) \<le> uint ?e"
      by (rule order_trans [OF _ unsigned_greater_eq]) simp
    ultimately have "sint ?e = uint ?e" using signed_take_bit_int_eq_self [of 255 "uint ?e"] by (simp only:)
    with pos True nz TX le show ?thesis
      by (simp add: format_int_slot_def packed show_int_i256)
  qed
qed

text \<open>
  A signed storage variable is printed as the signed number it holds. For an integer of \<open>8 n\<close>
  bits at any byte offset of its slot, the text is the decimal text of the two's-complement number
  in exactly those bits, whatever else the slot holds, and the printer does not panic.
\<close>

theorem signed_variables_are_printed:
  assumes "trace_text_ok TX" and "0 < nbytes" and "offset + nbytes \<le> 32"
  shows "format_storage TX (St_Int (8 * nbytes)) value offset nbytes
    = Some (show_int (packed_int (8 * nbytes) (8 * offset) value))"
  using format_int_packed [OF assms(1), of "8 * nbytes" nbytes offset "value"] assms(2,3) by simp

definition demo_trace_text :: trace_text where
  "demo_trace_text = \<lparr>tx_u256 = (\<lambda>w. dec (unat w)),
     tx_i256 = (\<lambda>w. if sint w < 0 then CHR ''-'' # dec (nat (- sint w)) else dec (nat (sint w))),
     tx_hex = (\<lambda>bs. concat (map (\<lambda>b. dec (unat b)) bs)),
     tx_checksum = (\<lambda>a. ''0x'' @ dec (unat a)),
     tx_keccak = (\<lambda>bs. of_nat (length bs)),
     tx_parse_u256 = (\<lambda>s. map_option of_nat (dec_value 0 s))\<rparr>"

lemma demo_trace_text_ok: "trace_text_ok demo_trace_text"
  by (simp add: trace_text_ok_def demo_trace_text_def)

theorem signed_variables_are_printed_witness:
  "format_storage demo_trace_text (St_Int 8) 0xFE05 1 1 = Some ''-2''"
proof -
  have "packed_int 8 8 (0xFE05 :: u256) = - 2"
    by (simp add: packed_int_def signed_take_bit_int [of 8, simplified] take_bit_eq_mod)
  moreover have "show_int (- 2) = ''-2''" by (simp add: show_int_def dec.simps dec_digit_def)
  ultimately show ?thesis
    using signed_variables_are_printed [OF demo_trace_text_ok, of 1 1 "0xFE05"] by simp
qed

text \<open>
  The keys of a mapping are formatted as whole words, but a negative key is sign-extended: the
  \<open>int8\<close> key -1 is printed as -257.
\<close>

lemma negative_keys_are_misprinted: "format_storage TX (St_Int 8) (- 1) 0 32 = Some (CHR ''-'' # tx_u256 TX 257)"
  by (simp add: extract_packed_def format_int_slot_def)

text \<open>A word that is no valid string (its lowest byte even and above 64) panics the printer.\<close>

lemma bad_string_slot_panics: "format_storage TX St_String 66 offset nbytes = None"
proof -
  have "be_bytes 32 66 ! 31 = 66" by (simp add: be_bytes_def)
  then show ?thesis by (simp add: format_string_slot_def Let_def)
qed

end
