(* ===== verification/Trace_Tree.thy ===== *)
theory Trace_Tree
  imports Tx_Result Trace_Slots Trace_Types
begin

section \<open>Call frames and the trace inspector\<close>

text \<open>
  \<open>evm/trace/mod.rs\<close> (\<open>CallFrame\<close>) and \<open>evm/trace/inspector.rs\<close>: the inspector sees the callbacks of
  the EVM (a call or creation starts or ends, a log is emitted, an instruction is about to run)
  and builds the tree of frames. Its stack is kept with the top first. What the interpreter shows
  at a step is \<open>step_view\<close>: the stack with its top last, the memory, and the value the journal
  gives for a slot, \<open>None\<close> when it cannot load it.
\<close>

record storage_change =
  sg_slot :: u256
  sg_old :: u256
  sg_new :: u256

datatype call_scheme = Scheme_Call | Scheme_Callcode | Scheme_Delegatecall | Scheme_Staticcall

datatype frame_kind = Kind_Call call_scheme | Kind_Create

record frame_info =
  fr_depth :: nat
  fr_kind :: frame_kind
  fr_address :: "address option"
  fr_code_address :: "address option"
  fr_code_bytes :: "bytes option"
  fr_caller :: address
  fr_value :: u256
  fr_timestamp :: u256
  fr_number :: u256
  fr_input :: bytes
  fr_output :: bytes
  fr_gas_used :: u64
  fr_success :: bool
  fr_storage_changes :: "storage_change list"
  fr_logs :: "evm_log list"

datatype call_frame = Call_Frame (frame_info: frame_info) (frame_children: "call_frame list")

record trace_state =
  ts_stack :: "call_frame list"
  ts_roots :: "call_frame list"
  ts_slots :: "address \<rightharpoonup> mapping_slots"

record trace =
  tr_roots :: "call_frame list"
  tr_slots :: "address \<rightharpoonup> mapping_slots"

definition trace_inspector_new :: trace_state where
  "trace_inspector_new = \<lparr>ts_stack = [], ts_roots = [], ts_slots = Map.empty\<rparr>"

definition into_trace :: "trace_state \<Rightarrow> trace" where
  "into_trace st = \<lparr>tr_roots = ts_roots st, tr_slots = ts_slots st\<rparr>"

subsection \<open>Steps\<close>

record step_view =
  sv_target :: address
  sv_opcode :: u8
  sv_stack :: "u256 list"
  sv_memory :: "nat \<Rightarrow> nat \<Rightarrow> bytes"
  sv_sload :: "u256 \<Rightarrow> u256 option"
  sv_order :: "u256 list"

definition peek :: "nat \<Rightarrow> u256 list \<Rightarrow> u256 option" where
  "peek i s = (if i < length s then Some (s ! (length s - 1 - i)) else None)"

definition saturating_usize :: "u256 \<Rightarrow> nat" where
  "saturating_usize w = min (unat w) (2 ^ 64 - 1)"

definition slots_at :: "address \<Rightarrow> (address \<rightharpoonup> mapping_slots) \<Rightarrow> mapping_slots" where
  "slots_at a slots = (case slots a of None \<Rightarrow> ms_empty | Some ms \<Rightarrow> ms)"

definition step_keccak :: "trace_text \<Rightarrow> step_view \<Rightarrow> (address \<rightharpoonup> mapping_slots) \<Rightarrow> (address \<rightharpoonup> mapping_slots)" where
  "step_keccak TX v slots =
     (case peek 1 (sv_stack v) of
        None \<Rightarrow> slots
      | Some len \<Rightarrow>
          if len = 0x40 then
            (case peek 0 (sv_stack v) of
               None \<Rightarrow> slots
             | Some offset \<Rightarrow>
                 let data = sv_memory v (saturating_usize offset) 0x40;
                     key = be_u256 (take 32 data);
                     parent = be_u256 (drop 32 data)
                 in slots(sv_target v \<mapsto>
                      record_sha3 (tx_keccak TX data) key parent (slots_at (sv_target v) slots)))
          else if len = 0x20 then
            (case peek 0 (sv_stack v) of
               None \<Rightarrow> slots
             | Some offset \<Rightarrow>
                 let data = sv_memory v (saturating_usize offset) 0x20;
                     parent = be_u256 (take 32 data)
                 in slots(sv_target v \<mapsto>
                      record_array_start (tx_keccak TX data) parent (slots_at (sv_target v) slots)))
          else slots)"

definition step_store_slots :: "step_view \<Rightarrow> (address \<rightharpoonup> mapping_slots) \<Rightarrow> (address \<rightharpoonup> mapping_slots)" where
  "step_store_slots v slots =
     (case (peek 0 (sv_stack v), slots (sv_target v)) of
        (Some slot, Some ms) \<Rightarrow> slots(sv_target v \<mapsto> snd (insert_nearby (sv_order v) slot ms))
      | _ \<Rightarrow> slots)"

definition step_change :: "step_view \<Rightarrow> storage_change list" where
  "step_change v =
     (case (peek 0 (sv_stack v), peek 1 (sv_stack v)) of
        (Some slot, Some new) \<Rightarrow>
          [\<lparr>sg_slot = slot,
            sg_old = (case sv_sload v slot of None \<Rightarrow> 0 | Some w \<Rightarrow> w),
            sg_new = new\<rparr>]
      | _ \<Rightarrow> [])"

definition KECCAK256 :: u8 where "KECCAK256 = 0x20"
definition SSTORE :: u8 where "SSTORE = 0x55"

fun map_top :: "('a \<Rightarrow> 'a) \<Rightarrow> 'a list \<Rightarrow> 'a list" where
  "map_top f [] = []"
| "map_top f (x # xs) = f x # xs"

definition with_info :: "(frame_info \<Rightarrow> frame_info) \<Rightarrow> call_frame \<Rightarrow> call_frame" where
  "with_info f fr = Call_Frame (f (frame_info fr)) (frame_children fr)"

definition push_change :: "storage_change list \<Rightarrow> frame_info \<Rightarrow> frame_info" where
  "push_change cs fi = fi\<lparr>fr_storage_changes := fr_storage_changes fi @ cs\<rparr>"

definition trace_step :: "trace_text \<Rightarrow> step_view \<Rightarrow> trace_state \<Rightarrow> trace_state" where
  "trace_step TX v st =
     (if sv_opcode v = KECCAK256 then st\<lparr>ts_slots := step_keccak TX v (ts_slots st)\<rparr>
      else if sv_opcode v = SSTORE then
        if length (sv_stack v) < 2 then st
        else st\<lparr>ts_slots := step_store_slots v (ts_slots st),
                ts_stack := map_top (with_info (push_change (step_change v))) (ts_stack st)\<rparr>
      else st)"

subsection \<open>Frames\<close>

record call_data =
  cd_scheme :: call_scheme
  cd_target :: address
  cd_code_address :: address
  cd_known_code :: "bytes option"
  cd_caller :: address
  cd_value :: u256
  cd_input :: bytes
  cd_timestamp :: u256
  cd_number :: u256

record create_data =
  cr_caller :: address
  cr_value :: u256
  cr_init_code :: bytes
  cr_timestamp :: u256
  cr_number :: u256

record end_data =
  ed_gas :: u64
  ed_ok :: bool
  ed_output :: bytes
  ed_address :: "address option"

text \<open>The code is unknown when it is empty; \<open>cd_known_code\<close> is \<open>None\<close> for an empty bytecode object.\<close>

definition nonempty_code :: "bytes option \<Rightarrow> bytes option" where
  "nonempty_code code = (case code of None \<Rightarrow> None | Some raw \<Rightarrow> if raw = [] then None else Some raw)"

definition call_info :: "nat \<Rightarrow> call_data \<Rightarrow> frame_info" where
  "call_info depth c =
     \<lparr>fr_depth = depth, fr_kind = Kind_Call (cd_scheme c), fr_address = Some (cd_target c),
      fr_code_address = Some (cd_code_address c), fr_code_bytes = nonempty_code (cd_known_code c),
      fr_caller = cd_caller c, fr_value = cd_value c, fr_timestamp = cd_timestamp c,
      fr_number = cd_number c, fr_input = cd_input c, fr_output = [], fr_gas_used = 0,
      fr_success = False, fr_storage_changes = [], fr_logs = []\<rparr>"

definition create_info :: "nat \<Rightarrow> create_data \<Rightarrow> frame_info" where
  "create_info depth c =
     \<lparr>fr_depth = depth, fr_kind = Kind_Create, fr_address = None, fr_code_address = None,
      fr_code_bytes = None, fr_caller = cr_caller c, fr_value = cr_value c,
      fr_timestamp = cr_timestamp c, fr_number = cr_number c, fr_input = cr_init_code c,
      fr_output = [], fr_gas_used = 0, fr_success = False, fr_storage_changes = [], fr_logs = []\<rparr>"

definition lost_info :: "frame_kind \<Rightarrow> frame_info" where
  "lost_info kind =
     \<lparr>fr_depth = 0, fr_kind = kind, fr_address = None, fr_code_address = None,
      fr_code_bytes = None, fr_caller = 0, fr_value = 0, fr_timestamp = 0, fr_number = 0,
      fr_input = [], fr_output = [], fr_gas_used = 0, fr_success = False,
      fr_storage_changes = [], fr_logs = []\<rparr>"

definition trace_call :: "call_data \<Rightarrow> trace_state \<Rightarrow> trace_state" where
  "trace_call c st = st\<lparr>ts_stack := Call_Frame (call_info (length (ts_stack st)) c) [] # ts_stack st\<rparr>"

definition trace_create :: "create_data \<Rightarrow> trace_state \<Rightarrow> trace_state" where
  "trace_create c st = st\<lparr>ts_stack := Call_Frame (create_info (length (ts_stack st)) c) [] # ts_stack st\<rparr>"

definition add_child :: "call_frame \<Rightarrow> call_frame \<Rightarrow> call_frame" where
  "add_child child fr = Call_Frame (frame_info fr) (frame_children fr @ [child])"

definition pop_call_frame :: "frame_kind \<Rightarrow> call_frame list \<Rightarrow> call_frame \<times> call_frame list" where
  "pop_call_frame kind s = (case s of [] \<Rightarrow> (Call_Frame (lost_info kind) [], []) | f # s' \<Rightarrow> (f, s'))"

definition deliver :: "call_frame \<Rightarrow> call_frame list \<Rightarrow> trace_state \<Rightarrow> trace_state" where
  "deliver fr s st =
     (case s of
        [] \<Rightarrow> st\<lparr>ts_stack := [], ts_roots := ts_roots st @ [fr]\<rparr>
      | parent # s' \<Rightarrow> st\<lparr>ts_stack := add_child fr parent # s'\<rparr>)"

definition end_info :: "end_data \<Rightarrow> frame_info \<Rightarrow> frame_info" where
  "end_info e fi = fi\<lparr>fr_gas_used := ed_gas e, fr_success := ed_ok e, fr_output := ed_output e\<rparr>"

definition created_info :: "end_data \<Rightarrow> frame_info \<Rightarrow> frame_info" where
  "created_info e fi =
     (case ed_address e of None \<Rightarrow> end_info e fi | Some a \<Rightarrow> (end_info e fi)\<lparr>fr_address := Some a\<rparr>)"

definition trace_call_end :: "end_data \<Rightarrow> trace_state \<Rightarrow> trace_state" where
  "trace_call_end e st =
     (case pop_call_frame (Kind_Call Scheme_Call) (ts_stack st) of
        (fr, s) \<Rightarrow> deliver (with_info (end_info e) fr) s st)"

definition trace_create_end :: "end_data \<Rightarrow> trace_state \<Rightarrow> trace_state" where
  "trace_create_end e st =
     (case pop_call_frame Kind_Create (ts_stack st) of
        (fr, s) \<Rightarrow> deliver (with_info (created_info e) fr) s st)"

definition push_logs :: "evm_log list \<Rightarrow> frame_info \<Rightarrow> frame_info" where
  "push_logs ls fi = fi\<lparr>fr_logs := fr_logs fi @ ls\<rparr>"

definition trace_log :: "evm_log \<Rightarrow> trace_state \<Rightarrow> trace_state" where
  "trace_log l st = st\<lparr>ts_stack := map_top (with_info (push_logs [l])) (ts_stack st)\<rparr>"

subsection \<open>The tree behind a run\<close>

datatype trace_event =
    Ev_Step step_view
  | Ev_Log evm_log
  | Ev_Call call_data
  | Ev_Call_End end_data
  | Ev_Create create_data
  | Ev_Create_End end_data

fun on_trace_event :: "trace_text \<Rightarrow> trace_event \<Rightarrow> trace_state \<Rightarrow> trace_state" where
  "on_trace_event TX (Ev_Step v) st = trace_step TX v st"
| "on_trace_event TX (Ev_Log l) st = trace_log l st"
| "on_trace_event TX (Ev_Call c) st = trace_call c st"
| "on_trace_event TX (Ev_Call_End e) st = trace_call_end e st"
| "on_trace_event TX (Ev_Create c) st = trace_create c st"
| "on_trace_event TX (Ev_Create_End e) st = trace_create_end e st"

text \<open>
  What the EVM runs: in a frame, steps, logs and the frames of nested calls and creations. The
  callbacks of such a run are its events in order.
\<close>

datatype run_item =
    Run_Step step_view
  | Run_Log evm_log
  | Run_Call call_data "run_item list" end_data
  | Run_Create create_data "run_item list" end_data

fun run_events :: "run_item \<Rightarrow> trace_event list" where
  "run_events (Run_Step v) = [Ev_Step v]"
| "run_events (Run_Log l) = [Ev_Log l]"
| "run_events (Run_Call c items e) = Ev_Call c # concat (map run_events items) @ [Ev_Call_End e]"
| "run_events (Run_Create c items e) = Ev_Create c # concat (map run_events items) @ [Ev_Create_End e]"

definition item_changes :: "run_item \<Rightarrow> storage_change list" where
  "item_changes x =
     (case x of
        Run_Step v \<Rightarrow> if sv_opcode v = SSTORE \<and> \<not> length (sv_stack v) < 2 then step_change v else []
      | _ \<Rightarrow> [])"

definition item_logs :: "run_item \<Rightarrow> evm_log list" where
  "item_logs x = (case x of Run_Log l \<Rightarrow> [l] | _ \<Rightarrow> [])"

definition body_info :: "run_item list \<Rightarrow> frame_info \<Rightarrow> frame_info" where
  "body_info items fi =
     fi\<lparr>fr_storage_changes := fr_storage_changes fi @ concat (map item_changes items),
        fr_logs := fr_logs fi @ concat (map item_logs items)\<rparr>"

fun run_frames :: "nat \<Rightarrow> run_item \<Rightarrow> call_frame list" where
  "run_frames depth (Run_Step v) = []"
| "run_frames depth (Run_Log l) = []"
| "run_frames depth (Run_Call c items e) =
     [Call_Frame (end_info e (body_info items (call_info depth c)))
        (concat (map (run_frames (Suc depth)) items))]"
| "run_frames depth (Run_Create c items e) =
     [Call_Frame (created_info e (body_info items (create_info depth c)))
        (concat (map (run_frames (Suc depth)) items))]"

fun run_slots :: "trace_text \<Rightarrow> run_item \<Rightarrow> (address \<rightharpoonup> mapping_slots) \<Rightarrow> (address \<rightharpoonup> mapping_slots)" where
  "run_slots TX (Run_Step v) slots =
     (if sv_opcode v = KECCAK256 then step_keccak TX v slots
      else if sv_opcode v = SSTORE \<and> \<not> length (sv_stack v) < 2 then step_store_slots v slots
      else slots)"
| "run_slots TX (Run_Log l) slots = slots"
| "run_slots TX (Run_Call c items e) slots = fold (run_slots TX) items slots"
| "run_slots TX (Run_Create c items e) slots = fold (run_slots TX) items slots"

text \<open>The effect of a whole item on the inspector.\<close>

definition absorb :: "nat \<Rightarrow> run_item list \<Rightarrow> call_frame \<Rightarrow> call_frame" where
  "absorb depth items fr =
     Call_Frame (body_info items (frame_info fr))
       (frame_children fr @ concat (map (run_frames depth) items))"

definition absorb_all :: "trace_text \<Rightarrow> run_item list \<Rightarrow> trace_state \<Rightarrow> trace_state" where
  "absorb_all TX items st =
     (case ts_stack st of
        [] \<Rightarrow> st\<lparr>ts_roots := ts_roots st @ concat (map (run_frames 0) items),
                  ts_slots := fold (run_slots TX) items (ts_slots st)\<rparr>
      | fr # s \<Rightarrow> st\<lparr>ts_stack := absorb (Suc (length s)) items fr # s,
                     ts_slots := fold (run_slots TX) items (ts_slots st)\<rparr>)"

lemma absorb_cons: "absorb d (x # xs) fr = absorb d xs (absorb d [x] fr)"
  by (simp add: absorb_def body_info_def)

lemma absorb_all_cons: "absorb_all TX (x # xs) st = absorb_all TX xs (absorb_all TX [x] st)"
  by (simp add: absorb_all_def absorb_cons [of _ x xs] split: list.splits)

lemma absorb_all_nil: "absorb_all TX [] st = st"
  by (simp add: absorb_all_def absorb_def body_info_def split: list.splits)

lemmas trace_step_defs = trace_step_def absorb_all_def absorb_def body_info_def item_changes_def
  item_logs_def with_info_def push_change_def push_logs_def

lemma absorb_step: "trace_step TX v st = absorb_all TX [Run_Step v] st"
  by (cases "ts_stack st") (simp_all add: trace_step_defs KECCAK256_def SSTORE_def)

lemma absorb_log: "trace_log l st = absorb_all TX [Run_Log l] st"
  by (cases "ts_stack st") (simp_all add: trace_log_def trace_step_defs)

lemma absorb_items:
  assumes "\<And>x st. x \<in> set items \<Longrightarrow> fold (on_trace_event TX) (run_events x) st = absorb_all TX [x] st"
  shows "fold (on_trace_event TX) (concat (map run_events items)) st = absorb_all TX items st"
  using assms
proof (induction items arbitrary: st)
  case (Cons x xs)
  have "fold (on_trace_event TX) (concat (map run_events xs)) st' = absorb_all TX xs st'" for st'
    by (rule Cons.IH) (simp add: Cons.prems)
  then show ?case by (simp add: Cons.prems flip: absorb_all_cons [of TX x xs])
qed (simp add: absorb_all_nil)

lemma absorb_run: "fold (on_trace_event TX) (run_events x) st = absorb_all TX [x] st"
proof (induction x arbitrary: st)
  case (Run_Call c items e)
  from absorb_items [OF Run_Call] show ?case
    by (cases "ts_stack st")
       (simp_all add: trace_call_def trace_call_end_def pop_call_frame_def deliver_def add_child_def
         with_info_def absorb_all_def absorb_def [of _ items] absorb_def [of _ "[_]"] body_info_def [of "[_]"]
         item_changes_def [of "Run_Call _ _ _"] item_logs_def [of "Run_Call _ _ _"])
next
  case (Run_Create c items e)
  from absorb_items [OF Run_Create] show ?case
    by (cases "ts_stack st")
       (simp_all add: trace_create_def trace_create_end_def pop_call_frame_def deliver_def add_child_def
         with_info_def absorb_all_def absorb_def [of _ items] absorb_def [of _ "[_]"] body_info_def [of "[_]"]
         item_changes_def [of "Run_Create _ _ _"] item_logs_def [of "Run_Create _ _ _"])
qed (simp_all add: absorb_step absorb_log)

text \<open>
  C14: A trace is the tree of the calls that ran. For every run of nested calls, creations, logs and
  instructions, the callbacks leave the inspector with an empty stack and a trace equal to the one
  read off the tree directly: one root per outermost call, children, logs and storage changes in
  order of execution in the frame they belong to, every frame with its own result and its nesting
  depth, and the mapping slots of every hash and store at any depth.
\<close>

theorem trace_is_the_call_tree:
  "let st = fold (on_trace_event TX) (concat (map run_events items)) trace_inspector_new
   in ts_stack st = []
    \<and> into_trace st = \<lparr>tr_roots = concat (map (run_frames 0) items),
                       tr_slots = fold (run_slots TX) items Map.empty\<rparr>"
  using absorb_items [OF absorb_run, of TX items trace_inspector_new]
  by (simp add: Let_def absorb_all_def trace_inspector_new_def into_trace_def)

end
