(* ===== verification/Trace_Layout.thy ===== *)
theory Trace_Layout
  imports Trace_Types Trace_Slots "HOL-Library.Monad_Syntax"
begin

section \<open>Storage layouts\<close>

text \<open>
  \<open>evm/trace/context.rs\<close>, the storage layouts of contracts: \<open>parse_storage_layout\<close> reads the layout
  solc prints into the variables of every slot, the arrays and the mappings of a contract. The
  layout itself (types of the \<open>solc\<close> crate) is its JSON fields. \<open>None\<close> is not returning: the walks
  over the types follow names, and end when the types are not cyclic.
\<close>

record layout_entry =
  le_label :: string
  le_slot :: string
  le_type :: string
  le_offset :: int

record type_info =
  ti_bytes :: string
  ti_key :: "string option"
  ti_value :: "string option"
  ti_base :: "string option"
  ti_members :: "layout_entry list option"

type_synonym layout_types = "string \<rightharpoonup> type_info"

record storage_layout =
  sl_storage :: "layout_entry list"
  sl_types :: "layout_types option"

record struct_field =
  sf_name :: string
  sf_slot_offset :: nat
  sf_ty :: storage_type
  sf_bytes :: nat

record array_info =
  ai_name :: string
  ai_element :: storage_type
  ai_element_slots :: nat
  ai_start :: u256
  ai_len :: "nat option"
  ai_fields :: "struct_field list option"

record storage_entry =
  se_offset :: nat
  se_name :: string
  se_ty :: storage_type
  se_bytes :: nat

record mapping_info =
  mi_name :: string
  mi_base :: u256
  mi_key_types :: "string list"
  mi_value :: storage_type
  mi_fields :: "struct_field list option"
  mi_element_slots :: nat

definition ceil_div :: "nat \<Rightarrow> nat \<Rightarrow> nat" where
  "ceil_div a b = (a + b - 1) div b"

subsection \<open>Walks over the types\<close>

partial_function (option) key_types_loop ::
  "layout_types \<Rightarrow> string \<Rightarrow> string list \<Rightarrow> string list option" where
  "key_types_loop types current keys =
     (case types current of
        None \<Rightarrow> Some keys
      | Some info \<Rightarrow>
          (case ti_key info of
             None \<Rightarrow> Some keys
           | Some key \<Rightarrow>
               (case ti_value info of
                  None \<Rightarrow> Some (keys @ [key])
                | Some v \<Rightarrow> key_types_loop types v (keys @ [key]))))"

definition resolve_mapping_key_types :: "storage_layout \<Rightarrow> string \<Rightarrow> string list option" where
  "resolve_mapping_key_types layout t =
     (case sl_types layout of None \<Rightarrow> Some [] | Some types \<Rightarrow> key_types_loop types t [])"

partial_function (option) value_type_loop :: "layout_types \<Rightarrow> string \<Rightarrow> string option" where
  "value_type_loop types current =
     (case types current of
        None \<Rightarrow> Some current
      | Some info \<Rightarrow>
          if ti_key info = None then Some current
          else (case ti_value info of None \<Rightarrow> Some current | Some v \<Rightarrow> value_type_loop types v))"

definition resolve_mapping_value_type :: "storage_layout \<Rightarrow> string \<Rightarrow> string option" where
  "resolve_mapping_value_type layout t =
     (case sl_types layout of None \<Rightarrow> Some t | Some types \<Rightarrow> value_type_loop types t)"

definition type_bytes :: "layout_types \<Rightarrow> string \<Rightarrow> nat option" where
  "type_bytes types t = (case types t of None \<Rightarrow> None | Some info \<Rightarrow> parse_usize (ti_bytes info))"

definition bytes_or_word :: "nat option \<Rightarrow> nat" where
  "bytes_or_word n = (case n of None \<Rightarrow> 32 | Some k \<Rightarrow> k)"

definition element_byte_slots :: "storage_layout \<Rightarrow> string \<Rightarrow> nat" where
  "element_byte_slots layout t =
     (case sl_types layout of
        None \<Rightarrow> 1
      | Some types \<Rightarrow>
          let base = (case types t of None \<Rightarrow> None | Some info \<Rightarrow> ti_base info);
              base_bytes = (case base of None \<Rightarrow> None | Some b \<Rightarrow> type_bytes types b);
              n = (case base_bytes of None \<Rightarrow> type_bytes types t | Some n \<Rightarrow> Some n)
          in ceil_div (bytes_or_word n) 32)"

text \<open>
  The members of a struct, those of nested structs flattened. The recursion follows the struct
  members; its fuel is the depth of the nesting, and \<open>None\<close> means the fuel did not suffice.
\<close>

fun collect_fields :: "nat \<Rightarrow> layout_types \<Rightarrow> string \<Rightarrow> string \<Rightarrow> nat \<Rightarrow> struct_field list option option"
and collect_members ::
  "nat \<Rightarrow> layout_types \<Rightarrow> string \<Rightarrow> nat \<Rightarrow> layout_entry list \<Rightarrow> struct_field list option option" where
  "collect_fields 0 types t pre base = None"
| "collect_fields (Suc n) types t pre base =
     (case types t of
        None \<Rightarrow> Some None
      | Some info \<Rightarrow>
          collect_members n types pre base (case ti_members info of None \<Rightarrow> [] | Some ms \<Rightarrow> ms))"
| "collect_members n types pre base [] = Some (Some [])"
| "collect_members n types pre base (m # ms) =
     (case (parse_usize (le_slot m), parse_type (le_type m)) of
        (Some slot_offset, Some ty) \<Rightarrow>
          let abs_offset = base + slot_offset;
              name = (if pre = [] then le_label m else pre @ ''.'' @ le_label m);
              field = \<lparr>sf_name = name, sf_slot_offset = abs_offset, sf_ty = ty,
                       sf_bytes = bytes_or_word (type_bytes types (le_type m))\<rparr>
          in do {
            fields \<leftarrow> (if ty = St_Struct
                      then map_option (\<lambda>sub. case sub of None \<Rightarrow> [field] | Some fs \<Rightarrow> fs)
                             (collect_fields n types (le_type m) name abs_offset)
                      else Some [field]);
            rest \<leftarrow> collect_members n types pre base ms;
            Some (map_option (\<lambda>fs. fields @ fs) rest)
          }
      | _ \<Rightarrow> Some None)"

definition parse_struct_fields :: "nat \<Rightarrow> storage_layout \<Rightarrow> string \<Rightarrow> struct_field list option option" where
  "parse_struct_fields n layout t =
     (case sl_types layout of
        None \<Rightarrow> Some None
      | Some types \<Rightarrow>
          (case types t of
             None \<Rightarrow> Some None
           | Some info \<Rightarrow>
               let struct_name = (case ti_base info of None \<Rightarrow> t | Some b \<Rightarrow> b) in
               (case types struct_name of
                  None \<Rightarrow> Some None
                | Some struct_info \<Rightarrow>
                    (case ti_members struct_info of
                       None \<Rightarrow> Some None
                     | Some [] \<Rightarrow> Some None
                     | Some _ \<Rightarrow> collect_fields n types struct_name [] 0))))"

subsection \<open>The layout of a contract\<close>

type_synonym layout_index =
  "(u256 \<rightharpoonup> storage_entry list) \<times> array_info list \<times> mapping_info list"

definition entry_array ::
  "trace_text \<Rightarrow> nat \<Rightarrow> storage_layout \<Rightarrow> layout_entry \<Rightarrow> u256 \<Rightarrow> storage_type \<Rightarrow> nat option \<Rightarrow> array_info option" where
  "entry_array TX n layout e slot element len =
     map_option (\<lambda>fields.
       \<lparr>ai_name = le_label e, ai_element = element,
        ai_element_slots = element_byte_slots layout (le_type e),
        ai_start = (if len \<noteq> None then slot else tx_keccak TX (be_bytes 32 slot)),
        ai_len = len, ai_fields = fields\<rparr>)
       (parse_struct_fields n layout (le_type e))"

definition entry_mapping :: "nat \<Rightarrow> storage_layout \<Rightarrow> layout_entry \<Rightarrow> u256 \<Rightarrow> mapping_info option" where
  "entry_mapping n layout e slot =
     do {
       key_types \<leftarrow> resolve_mapping_key_types layout (le_type e);
       value_type \<leftarrow> resolve_mapping_value_type layout (le_type e);
       fields \<leftarrow> parse_struct_fields n layout value_type;
       Some \<lparr>mi_name = le_label e, mi_base = slot, mi_key_types = key_types,
             mi_value = (case parse_type value_type of None \<Rightarrow> St_Mapping | Some ty \<Rightarrow> ty),
             mi_fields = fields, mi_element_slots = element_byte_slots layout value_type\<rparr>
     }"

definition add_variable :: "u256 \<Rightarrow> storage_entry \<Rightarrow> (u256 \<rightharpoonup> storage_entry list) \<Rightarrow> (u256 \<rightharpoonup> storage_entry list)" where
  "add_variable slot v names =
     names(slot \<mapsto> (case names slot of None \<Rightarrow> [v] | Some vs \<Rightarrow> vs @ [v]))"

fun layout_entries ::
  "trace_text \<Rightarrow> nat \<Rightarrow> storage_layout \<Rightarrow> layout_types \<Rightarrow> layout_entry list \<Rightarrow> layout_index \<Rightarrow> layout_index option option" where
  "layout_entries TX n layout types [] ix = Some (Some ix)"
| "layout_entries TX n layout types (e # es) (names, arrays, mappings) =
     (case tx_parse_u256 TX (le_slot e) of
        None \<Rightarrow> Some None
      | Some slot \<Rightarrow>
      (case parse_type (le_type e) of
        None \<Rightarrow> Some None
      | Some ty \<Rightarrow>
          if le_offset e < 0 \<or> 2 ^ 64 \<le> le_offset e then Some None
          else
            let names' = add_variable slot
                  \<lparr>se_offset = nat (le_offset e), se_name = le_label e, se_ty = ty,
                   se_bytes = bytes_or_word (type_bytes types (le_type e))\<rparr> names
            in case ty of
                 St_Array element len \<Rightarrow>
                   do {
                     a \<leftarrow> entry_array TX n layout e slot element len;
                     layout_entries TX n layout types es (names', arrays @ [a], mappings)
                   }
               | St_Mapping \<Rightarrow>
                   if (case types (le_type e) of None \<Rightarrow> False | Some info \<Rightarrow> ti_key info \<noteq> None)
                   then do {
                     m \<leftarrow> entry_mapping n layout e slot;
                     layout_entries TX n layout types es (names', arrays, mappings @ [m])
                   }
                   else layout_entries TX n layout types es (names', arrays, mappings)
               | _ \<Rightarrow> layout_entries TX n layout types es (names', arrays, mappings)))"

text \<open>The names are empty exactly when the layout has no variable.\<close>

definition parse_storage_layout :: "trace_text \<Rightarrow> nat \<Rightarrow> storage_layout \<Rightarrow> layout_index option option" where
  "parse_storage_layout TX n layout =
     (case sl_types layout of
        None \<Rightarrow> Some None
      | Some types \<Rightarrow>
          map_option
            (\<lambda>r. case r of
               None \<Rightarrow> None
             | Some (names, arrays, mappings) \<Rightarrow>
                 if sl_storage layout = [] then None
                 else Some (names, sort_key (\<lambda>a. - uint (ai_start a)) arrays, mappings))
            (layout_entries TX n layout types (sl_storage layout) (Map.empty, [], [])))"

subsection \<open>The walks end\<close>

text \<open>
  A layout is ranked when every type has a rank above the ranks of the value type of a mapping and
  of the struct members it names, as the types of a compiled contract are.
\<close>

definition ranked :: "(string \<Rightarrow> nat) \<Rightarrow> layout_types \<Rightarrow> bool" where
  "ranked rank types \<longleftrightarrow>
     (\<forall>t info. types t = Some info \<longrightarrow>
        (\<forall>v. ti_value info = Some v \<longrightarrow> rank v < rank t)
      \<and> (\<forall>ms m. ti_members info = Some ms \<longrightarrow> m \<in> set ms \<longrightarrow> parse_type (le_type m) = Some St_Struct \<longrightarrow>
           rank (le_type m) < rank t))"

lemma rankedD:
  assumes "ranked rank types" and "types t = Some info"
  shows "ti_value info = Some v \<Longrightarrow> rank v < rank t"
    and "ti_members info = Some ms \<Longrightarrow> m \<in> set ms \<Longrightarrow> parse_type (le_type m) = Some St_Struct \<Longrightarrow>
      rank (le_type m) < rank t"
  using assms by (auto simp: ranked_def)

lemma key_types_loop_ends:
  assumes "ranked rank types"
  shows "key_types_loop types t keys \<noteq> None"
proof (induction "rank t" arbitrary: t keys rule: less_induct)
  case less
  show ?case
  proof (subst key_types_loop.simps, split option.split, intro conjI impI allI)
    fix info assume "types t = Some info"
    then show "(case ti_key info of None \<Rightarrow> Some keys
        | Some key \<Rightarrow> (case ti_value info of None \<Rightarrow> Some (keys @ [key])
            | Some v \<Rightarrow> key_types_loop types v (keys @ [key]))) \<noteq> None"
      using less rankedD(1) [OF assms] by (auto split: option.splits)
  qed simp
qed

lemma value_type_loop_ends:
  assumes "ranked rank types"
  shows "value_type_loop types t \<noteq> None"
proof (induction "rank t" arbitrary: t rule: less_induct)
  case less
  show ?case
    by (subst value_type_loop.simps)
       (use less rankedD(1) [OF assms] in \<open>auto split: option.splits\<close>)
qed

lemma bind_not_None: "m \<noteq> None \<Longrightarrow> (\<And>x. m = Some x \<Longrightarrow> f x \<noteq> None) \<Longrightarrow> m \<bind> f \<noteq> None"
  by (cases m) auto

lemma members_end:
  assumes sub: "\<And>t pre base. rank t < n \<Longrightarrow> collect_fields n types t pre base \<noteq> None"
    and "\<forall>m \<in> set ms. parse_type (le_type m) = Some St_Struct \<longrightarrow> rank (le_type m) < n"
  shows "collect_members n types pre base ms \<noteq> None"
  using assms(2)
proof (induction ms)
  case (Cons m ms)
  then obtain r where rest: "collect_members n types pre base ms = Some r" by auto
  show ?case
  proof (cases "parse_usize (le_slot m)"; cases "parse_type (le_type m)")
    fix so ty assume "parse_usize (le_slot m) = Some so" and ty: "parse_type (le_type m) = Some ty"
    moreover have "\<exists>g. \<forall>p b. ty = St_Struct \<longrightarrow> collect_fields n types (le_type m) p b = Some (g p b)"
      using Cons.prems ty sub [of "le_type m"] by (intro choice allI) auto
    ultimately show ?thesis using rest by (auto simp: Let_def)
  qed simp_all
qed simp

lemma collect_ends:
  assumes "ranked rank types" and "rank t < n"
  shows "collect_fields n types t pre base \<noteq> None"
  using assms(2)
proof (induction n arbitrary: t pre base)
  case (Suc n)
  show ?case
  proof (cases "types t")
    case (Some info)
    have "\<forall>m \<in> set (case ti_members info of None \<Rightarrow> [] | Some ms \<Rightarrow> ms).
        parse_type (le_type m) = Some St_Struct \<longrightarrow> rank (le_type m) < n"
      using rankedD(2) [OF assms(1) Some] Suc.prems by (cases "ti_members info") (simp_all, fastforce)
    with Some show ?thesis using members_end [OF Suc.IH] by simp
  qed simp
qed simp

lemma parse_struct_fields_ends:
  assumes "\<And>types. sl_types layout = Some types \<Longrightarrow> ranked rank types" and "\<And>t. rank t < n"
  shows "parse_struct_fields n layout t \<noteq> None"
proof (cases "sl_types layout")
  case (Some types)
  then have "collect_fields n types u [] 0 \<noteq> None" for u by (rule collect_ends [OF assms(1) assms(2)])
  with Some show ?thesis by (auto simp: parse_struct_fields_def Let_def split: option.splits list.splits)
qed (simp add: parse_struct_fields_def)

lemma entry_mapping_ends:
  assumes "\<And>types. sl_types layout = Some types \<Longrightarrow> ranked rank types" and "\<And>t. rank t < n"
  shows "entry_mapping n layout e slot \<noteq> None"
  unfolding entry_mapping_def
proof (intro bind_not_None)
  show "resolve_mapping_key_types layout (le_type e) \<noteq> None"
    using assms(1) key_types_loop_ends by (auto simp: resolve_mapping_key_types_def split: option.splits)
  show "resolve_mapping_value_type layout (le_type e) \<noteq> None"
    using assms(1) value_type_loop_ends by (auto simp: resolve_mapping_value_type_def split: option.splits)
qed (use parse_struct_fields_ends [OF assms] in simp_all)

lemma entry_array_ends:
  assumes "\<And>types. sl_types layout = Some types \<Longrightarrow> ranked rank types" and "\<And>t. rank t < n"
  shows "entry_array TX n layout e slot element len \<noteq> None"
  using parse_struct_fields_ends [OF assms] by (simp add: entry_array_def)

lemma layout_entries_end:
  assumes "\<And>types. sl_types layout = Some types \<Longrightarrow> ranked rank types" and "\<And>t. rank t < n"
  shows "layout_entries TX n layout types es ix \<noteq> None"
proof (induction es arbitrary: ix)
  case (Cons e es)
  obtain names arrays mappings where ix: "ix = (names, arrays, mappings)" by (rule prod_cases3)
  have "\<exists>f. \<forall>slot element len. entry_array TX n layout e slot element len = Some (f slot element len)"
    using entry_array_ends [OF assms] by (intro choice allI) auto
  then obtain f where ea: "\<And>slot element len. entry_array TX n layout e slot element len = Some (f slot element len)"
    by blast
  have "\<exists>g. \<forall>slot. entry_mapping n layout e slot = Some (g slot)"
    using entry_mapping_ends [OF assms] by (intro choice allI) auto
  then obtain g where em: "\<And>slot. entry_mapping n layout e slot = Some (g slot)" by blast
  have "(case ty of St_Array element len \<Rightarrow>
          (entry_array TX n layout e slot element len \<bind>
             (\<lambda>a. layout_entries TX n layout types es (ns, arrays @ [a], mappings)))
        | St_Mapping \<Rightarrow> (if b then entry_mapping n layout e slot \<bind>
             (\<lambda>m. layout_entries TX n layout types es (ns, arrays, mappings @ [m]))
             else layout_entries TX n layout types es (ns, arrays, mappings))
        | _ \<Rightarrow> layout_entries TX n layout types es (ns, arrays, mappings)) \<noteq> None" for ty slot ns b
    using Cons.IH by (cases ty) (simp_all add: ea em)
  then show ?case unfolding ix by (auto simp: Let_def split: option.splits simp del: not_None_eq)
qed simp

text \<open>The variables of a layout, each at the slot it names.\<close>

definition layout_variable :: "trace_text \<Rightarrow> layout_types \<Rightarrow> layout_entry \<Rightarrow> (u256 \<times> storage_entry) option" where
  "layout_variable TX types e =
     (case (tx_parse_u256 TX (le_slot e), parse_type (le_type e)) of
        (Some slot, Some ty) \<Rightarrow>
          if le_offset e < 0 \<or> 2 ^ 64 \<le> le_offset e then None
          else Some (slot, \<lparr>se_offset = nat (le_offset e), se_name = le_label e, se_ty = ty,
                           se_bytes = bytes_or_word (type_bytes types (le_type e))\<rparr>)
      | _ \<Rightarrow> None)"

definition variables_at :: "trace_text \<Rightarrow> layout_types \<Rightarrow> u256 \<Rightarrow> layout_entry list \<Rightarrow> storage_entry list" where
  "variables_at TX types slot es =
     List.map_filter (\<lambda>e. case layout_variable TX types e of
        None \<Rightarrow> None | Some (s, v) \<Rightarrow> if s = slot then Some v else None) es"

definition listed :: "(u256 \<rightharpoonup> storage_entry list) \<Rightarrow> u256 \<Rightarrow> storage_entry list" where
  "listed names slot = (case names slot of None \<Rightarrow> [] | Some vs \<Rightarrow> vs)"

lemma listed_add [simp]:
  "listed (add_variable s v names) slot = (if slot = s then listed names slot @ [v] else listed names slot)"
  by (simp add: listed_def add_variable_def split: option.splits)

lemma layout_entries_names:
  assumes "layout_entries TX n layout types es (names, arrays, mappings) = Some (Some (names', arrays', mappings'))"
  shows "(\<forall>e \<in> set es. layout_variable TX types e \<noteq> None)
    \<and> (\<forall>slot. listed names' slot = listed names slot @ variables_at TX types slot es)"
  using assms
proof (induction es arbitrary: names arrays mappings)
  case (Cons e es)
  from Cons.prems obtain slot where slot: "tx_parse_u256 TX (le_slot e) = Some slot"
    by (auto split: option.splits)
  from Cons.prems slot obtain ty where ty: "parse_type (le_type e) = Some ty"
    by (auto split: option.splits)
  from Cons.prems slot ty have range: "\<not> (le_offset e < 0 \<or> 2 ^ 64 \<le> le_offset e)"
    by (auto split: if_splits)
  define v where "v = \<lparr>se_offset = nat (le_offset e), se_name = le_label e, se_ty = ty,
    se_bytes = bytes_or_word (type_bytes types (le_type e))\<rparr>"
  have var: "layout_variable TX types e = Some (slot, v)"
    using slot ty range by (simp add: layout_variable_def v_def)
  have "\<exists>as ms. layout_entries TX n layout types es (add_variable slot v names, as, ms)
      = Some (Some (names', arrays', mappings'))"
    using Cons.prems slot ty range
    by (cases ty) (auto simp: Let_def bind_eq_Some_conv v_def split: if_splits)
  then obtain as ms where "layout_entries TX n layout types es (add_variable slot v names, as, ms)
      = Some (Some (names', arrays', mappings'))" by auto
  from Cons.IH [OF this] var show ?case
    by (auto simp: variables_at_def List.map_filter_def)
qed (simp add: variables_at_def List.map_filter_def)

lemma layout_entries_reject:
  assumes "layout_entries TX n layout types es ix = Some None"
  shows "\<exists>e \<in> set es. layout_variable TX types e = None"
  using assms
proof (induction es arbitrary: ix)
  case (Cons e es)
  obtain names arrays mappings where ix: "ix = (names, arrays, mappings)" by (rule prod_cases3)
  show ?case
  proof (cases "layout_variable TX types e")
    case (Some sv)
    then obtain slot ty where e: "tx_parse_u256 TX (le_slot e) = Some slot" "parse_type (le_type e) = Some ty"
      "\<not> (le_offset e < 0 \<or> 2 ^ 64 \<le> le_offset e)"
      by (auto simp: layout_variable_def split: option.splits if_splits)
    have "\<exists>ix'. layout_entries TX n layout types es ix' = Some None"
      using Cons.prems e unfolding ix
      by (cases ty) (auto simp: Let_def bind_eq_Some_conv split: if_splits)
    with Cons.IH show ?thesis by auto
  qed simp
qed simp


text \<open>A contract with a packed pair of integers and a mapping.\<close>

definition demo_layout :: storage_layout where
  "demo_layout =
     \<lparr>sl_storage =
        [\<lparr>le_label = ''a'', le_slot = ''0'', le_type = ''t_uint8'', le_offset = 0\<rparr>,
         \<lparr>le_label = ''b'', le_slot = ''0'', le_type = ''t_uint8'', le_offset = 1\<rparr>],
      sl_types = Some [''t_uint8'' \<mapsto>
        \<lparr>ti_bytes = ''1'', ti_key = None, ti_value = None, ti_base = None, ti_members = None\<rparr>]\<rparr>"

lemma parse_uint8: "parse_type ''t_uint8'' = Some (St_Uint 8)"
  by (simp add: parse_type_eval parse_usize_def)


end
