(* ===== verification/Trace_Resolve.thy ===== *)
theory Trace_Resolve
  imports Trace_Layout
begin

section \<open>Names and types of storage slots\<close>

text \<open>
  \<open>evm/trace/context.rs\<close>, \<open>resolve_storage_name\<close>, \<open>resolve_storage_type\<close> and
  \<open>resolve_storage_changes\<close>. Each stage of a resolution either returns, falls through to the next
  one, or fails: it panics (a division by a size of zero, a malformed string) or does not return
  (a cycle of recorded hashes). The orders of the two hash maps the code iterates over are
  arguments.
\<close>

datatype 'a look = Fails | Returns "'a option" | Falls_Through

definition look_or :: "'a look \<Rightarrow> 'a look \<Rightarrow> 'a look" where
  "look_or a b = (case a of Falls_Through \<Rightarrow> b | _ \<Rightarrow> a)"

fun look_first :: "('x \<Rightarrow> 'a look) \<Rightarrow> 'x list \<Rightarrow> 'a look" where
  "look_first f [] = Falls_Through"
| "look_first f (x # xs) = look_or (f x) (look_first f xs)"

definition look_end :: "'a look \<Rightarrow> 'a look" where
  "look_end a = look_or a (Returns None)"

record storage_ctx =
  sx_names :: "string \<rightharpoonup> (u256 \<rightharpoonup> storage_entry list)"
  sx_arrays :: "string \<rightharpoonup> array_info list"
  sx_mappings :: "string \<rightharpoonup> mapping_info list"

definition has_storage :: "('a) storage_ctx_scheme \<Rightarrow> string \<Rightarrow> bool" where
  "has_storage ctx c \<longleftrightarrow> sx_names ctx c \<noteq> None \<or> sx_mappings ctx c \<noteq> None"

definition bracket :: "string \<Rightarrow> string \<Rightarrow> string" where
  "bracket label i = label @ ''['' @ i @ '']''"

definition dotted :: "string \<Rightarrow> string \<Rightarrow> string" where
  "dotted label f = label @ ''.'' @ f"

definition field_at :: "nat \<Rightarrow> struct_field list \<Rightarrow> struct_field option" where
  "field_at off fs = find (\<lambda>f. sf_slot_offset f = off) fs"

definition field_in :: "struct_field list option \<Rightarrow> nat \<Rightarrow> struct_field option" where
  "field_in fs off = (case fs of None \<Rightarrow> None | Some fs \<Rightarrow> field_at off fs)"

subsection \<open>Plain variables\<close>

definition first_entry :: "('a) storage_ctx_scheme \<Rightarrow> string \<Rightarrow> u256 \<Rightarrow> storage_entry option" where
  "first_entry ctx c slot =
     (case sx_names ctx c of
        None \<Rightarrow> None
      | Some m \<Rightarrow> (case m slot of Some (e # _) \<Rightarrow> Some e | _ \<Rightarrow> None))"

definition entry_label :: "storage_entry \<Rightarrow> string" where
  "entry_label e =
     (case se_ty e of
        St_Array _ (Some _) \<Rightarrow> bracket (se_name e) ''0''
      | St_Array _ None \<Rightarrow> dotted (se_name e) ''length''
      | _ \<Rightarrow> se_name e)"

definition entry_type :: "storage_entry \<Rightarrow> storage_type" where
  "entry_type e = (case se_ty e of St_Array element (Some _) \<Rightarrow> element | ty \<Rightarrow> ty)"

definition name_of_variable :: "('a) storage_ctx_scheme \<Rightarrow> string \<Rightarrow> u256 \<Rightarrow> string look" where
  "name_of_variable ctx c slot =
     (case first_entry ctx c slot of None \<Rightarrow> Falls_Through | Some e \<Rightarrow> Returns (Some (entry_label e)))"

definition type_of_variable :: "('a) storage_ctx_scheme \<Rightarrow> string \<Rightarrow> u256 \<Rightarrow> storage_type look" where
  "type_of_variable ctx c slot =
     (case first_entry ctx c slot of None \<Rightarrow> Falls_Through | Some e \<Rightarrow> Returns (Some (entry_type e)))"

subsection \<open>Array elements\<close>

definition array_index :: "array_info \<Rightarrow> u256 \<Rightarrow> nat" where
  "array_index a slot = unat (slot - ai_start a) div ai_element_slots a"

definition in_bounds :: "array_info \<Rightarrow> nat \<Rightarrow> bool" where
  "in_bounds a index \<longleftrightarrow>
     (case ai_len a of
        Some len \<Rightarrow> index < 2 ^ 64 \<and> index < len
      | None \<Rightarrow> (if index < 2 ^ 64 then index else 2 ^ 64 - 1) < 10000000)"

fun best_array :: "array_info list \<Rightarrow> u256 \<Rightarrow> array_info option \<Rightarrow> array_info option option" where
  "best_array [] slot best = Some best"
| "best_array (a # as) slot best =
     (if \<not> ai_start a \<le> slot then best_array as slot best
      else if ai_element_slots a = 0 then None
      else if \<not> in_bounds a (array_index a slot) then best_array as slot best
      else if (case best of None \<Rightarrow> True | Some b \<Rightarrow> ai_start b < ai_start a)
        then best_array as slot (Some a)
      else best_array as slot best)"

definition field_offset :: "array_info \<Rightarrow> u256 \<Rightarrow> nat" where
  "field_offset a slot =
     (let r = unat (slot - ai_start a) mod ai_element_slots a in if r < 2 ^ 64 then r else 0)"

definition element_label :: "trace_text \<Rightarrow> array_info \<Rightarrow> u256 \<Rightarrow> string" where
  "element_label TX a slot =
     (let name = bracket (ai_name a) (tx_u256 TX (of_nat (array_index a slot)))
      in case field_in (ai_fields a) (field_offset a slot) of
           None \<Rightarrow> name
         | Some f \<Rightarrow> dotted name (sf_name f))"

definition name_of_element :: "trace_text \<Rightarrow> ('a) storage_ctx_scheme \<Rightarrow> string \<Rightarrow> u256 \<Rightarrow> string look" where
  "name_of_element TX ctx c slot =
     (case sx_arrays ctx c of
        None \<Rightarrow> Falls_Through
      | Some arrays \<Rightarrow>
          (case best_array arrays slot None of
             None \<Rightarrow> Fails
           | Some None \<Rightarrow> Falls_Through
           | Some (Some a) \<Rightarrow> Returns (Some (element_label TX a slot))))"

definition type_of_element :: "('a) storage_ctx_scheme \<Rightarrow> string \<Rightarrow> u256 \<Rightarrow> storage_type look" where
  "type_of_element ctx c slot =
     (case sx_arrays ctx c of
        None \<Rightarrow> Falls_Through
      | Some arrays \<Rightarrow>
          (case best_array arrays slot None of
             None \<Rightarrow> Fails
           | Some None \<Rightarrow> Falls_Through
           | Some (Some a) \<Rightarrow>
               Returns (Some (case field_in (ai_fields a) (field_offset a slot) of
                   None \<Rightarrow> ai_element a
                 | Some f \<Rightarrow> sf_ty f))))"

subsection \<open>Mapping entries\<close>

text \<open>The label of the keys: \<open>Some None\<close> when a key type is not recognised.\<close>

fun key_label :: "trace_text \<Rightarrow> string \<Rightarrow> (u256 \<times> string) list \<Rightarrow> string option option" where
  "key_label TX label [] = Some (Some label)"
| "key_label TX label ((key, key_type) # ks) =
     (case parse_type key_type of
        None \<Rightarrow> Some None
      | Some ty \<Rightarrow>
          (case format_storage TX ty key 0 32 of
             None \<Rightarrow> None
           | Some text \<Rightarrow> key_label TX (bracket label text) ks))"

definition mapping_at :: "('a) storage_ctx_scheme \<Rightarrow> string \<Rightarrow> u256 \<Rightarrow> (mapping_info \<Rightarrow> 'b look) \<Rightarrow> 'b look" where
  "mapping_at ctx c base f =
     (case sx_mappings ctx c of
        None \<Rightarrow> Returns None
      | Some infos \<Rightarrow>
          (case find (\<lambda>i. mi_base i = base) infos of
             None \<Rightarrow> Falls_Through
           | Some info \<Rightarrow> f info))"

definition labelled ::
  "trace_text \<Rightarrow> u256 list \<Rightarrow> mapping_info \<Rightarrow> (string \<Rightarrow> string look) \<Rightarrow> string look" where
  "labelled TX keys info f =
     (case key_label TX (mi_name info) (zip keys (mi_key_types info)) of
        None \<Rightarrow> Fails
      | Some None \<Rightarrow> Returns None
      | Some (Some label) \<Rightarrow> f label)"

definition direct_label :: "mapping_info \<Rightarrow> string \<Rightarrow> string" where
  "direct_label info label =
     (case mi_value info of
        St_Array _ None \<Rightarrow> dotted label ''length''
      | _ \<Rightarrow> (case field_in (mi_fields info) 0 of
                None \<Rightarrow> label
              | Some f \<Rightarrow> dotted label (sf_name f)))"

definition name_of_mapped ::
  "trace_text \<Rightarrow> ('a) storage_ctx_scheme \<Rightarrow> string \<Rightarrow> mapping_slots \<Rightarrow> u256 \<Rightarrow> string look" where
  "name_of_mapped TX ctx c ms slot =
     (case key_chain ms slot of
        None \<Rightarrow> Fails
      | Some None \<Rightarrow> Falls_Through
      | Some (Some keys) \<Rightarrow>
          (case base_slot ms slot of
             None \<Rightarrow> Fails
           | Some None \<Rightarrow> Returns None
           | Some (Some base) \<Rightarrow>
               mapping_at ctx c base (\<lambda>info.
                 labelled TX keys info (\<lambda>label. Returns (Some (direct_label info label))))))"

definition type_of_mapped ::
  "('a) storage_ctx_scheme \<Rightarrow> string \<Rightarrow> mapping_slots \<Rightarrow> u256 \<Rightarrow> storage_type look" where
  "type_of_mapped ctx c ms slot =
     (case key_chain ms slot of
        None \<Rightarrow> Fails
      | Some None \<Rightarrow> Falls_Through
      | Some (Some keys) \<Rightarrow>
          (case base_slot ms slot of
             None \<Rightarrow> Fails
           | Some None \<Rightarrow> Returns None
           | Some (Some base) \<Rightarrow> mapping_at ctx c base (\<lambda>info. Returns (Some (mi_value info)))))"

subsection \<open>Slots after a mapping entry\<close>

definition inner_array_label :: "string \<Rightarrow> nat \<Rightarrow> struct_field \<Rightarrow> string look" where
  "inner_array_label label off f =
     (case sf_ty f of
        St_Array element (Some len) \<Rightarrow>
          let total_slots = ceil_div (sf_bytes f) 32 in
          if sf_slot_offset f \<le> off \<and> off < sf_slot_offset f + total_slots then
            let slot_index = off - sf_slot_offset f;
                element_slots = ceil_div (slot_size element) 32
            in if \<not> 1 < element_slots \<and> slot_size element = 0 then Fails
               else
                 let index = (if 1 < element_slots then slot_index div element_slots
                              else slot_index * (32 div slot_size element))
                 in if index < len then Returns (Some (bracket (dotted label (sf_name f)) (dec index)))
                    else Falls_Through
          else Falls_Through
      | _ \<Rightarrow> Falls_Through)"

definition struct_label :: "mapping_info \<Rightarrow> string \<Rightarrow> nat \<Rightarrow> string look" where
  "struct_label info label off =
     (case mi_fields info of
        None \<Rightarrow> Falls_Through
      | Some fs \<Rightarrow>
          (case field_at off fs of
             Some f \<Rightarrow>
               Returns (Some (case sf_ty f of
                   St_Array _ (Some _) \<Rightarrow> bracket (dotted label (sf_name f)) ''0''
                 | _ \<Rightarrow> dotted label (sf_name f)))
           | None \<Rightarrow> look_first (inner_array_label label off) fs))"

definition value_array_label :: "mapping_info \<Rightarrow> string \<Rightarrow> nat \<Rightarrow> string look" where
  "value_array_label info label off =
     (case mi_value info of
        St_Array _ (Some len) \<Rightarrow>
          if mi_element_slots info = 0 then Fails
          else
            let index = off div mi_element_slots info in
            if index < len then
              (case field_in (mi_fields info) (off mod mi_element_slots info) of
                 Some f \<Rightarrow> Returns (Some (dotted (bracket label (dec index)) (sf_name f)))
               | None \<Rightarrow> Returns (Some (bracket label (dec index))))
            else Falls_Through
      | St_Array _ None \<Rightarrow> if off = 0 then Returns (Some (dotted label ''length'')) else Falls_Through
      | _ \<Rightarrow> Falls_Through)"

definition name_after_mapped ::
  "trace_text \<Rightarrow> ('a) storage_ctx_scheme \<Rightarrow> string \<Rightarrow> mapping_slots \<Rightarrow> u256 \<Rightarrow> u256 \<Rightarrow> string look" where
  "name_after_mapped TX ctx c ms slot m_slot =
     (if \<not> m_slot \<le> slot then Falls_Through
      else
        let off = unat (slot - m_slot) in
        if 2 ^ 64 \<le> off then Falls_Through
        else case key_chain ms m_slot of
          None \<Rightarrow> Fails
        | Some None \<Rightarrow> Falls_Through
        | Some (Some keys) \<Rightarrow>
            (case base_slot ms m_slot of
               None \<Rightarrow> Fails
             | Some None \<Rightarrow> Falls_Through
             | Some (Some base) \<Rightarrow>
                 mapping_at ctx c base (\<lambda>info. labelled TX keys info (\<lambda>label.
                   look_or (struct_label info label off) (value_array_label info label off)))))"

definition struct_type :: "mapping_info \<Rightarrow> nat \<Rightarrow> storage_type look" where
  "struct_type info off =
     (case mi_fields info of
        None \<Rightarrow> Falls_Through
      | Some fs \<Rightarrow>
          (case field_at off fs of
             Some f \<Rightarrow> Returns (Some (case sf_ty f of St_Array element _ \<Rightarrow> element | ty \<Rightarrow> ty))
           | None \<Rightarrow>
               look_first (\<lambda>f.
                 case sf_ty f of
                   St_Array element _ \<Rightarrow>
                     if sf_slot_offset f \<le> off \<and> off < sf_slot_offset f + ceil_div (sf_bytes f) 32
                     then Returns (Some element) else Falls_Through
                 | _ \<Rightarrow> Falls_Through) fs))"

definition value_array_type :: "mapping_info \<Rightarrow> nat \<Rightarrow> storage_type look" where
  "value_array_type info off =
     (case mi_value info of
        St_Array element (Some _) \<Rightarrow>
          if mi_element_slots info = 0 then Fails
          else
            (case field_in (mi_fields info) (off mod mi_element_slots info) of
               Some f \<Rightarrow> Returns (Some (sf_ty f))
             | None \<Rightarrow> Returns (Some element))
      | St_Array _ None \<Rightarrow> if off = 0 then Returns (Some (mi_value info)) else Falls_Through
      | _ \<Rightarrow> Falls_Through)"

definition type_after_mapped ::
  "('a) storage_ctx_scheme \<Rightarrow> string \<Rightarrow> mapping_slots \<Rightarrow> u256 \<Rightarrow> u256 \<Rightarrow> storage_type look" where
  "type_after_mapped ctx c ms slot m_slot =
     (if \<not> m_slot \<le> slot then Falls_Through
      else
        let off = unat (slot - m_slot) in
        if 2 ^ 64 \<le> off then Falls_Through
        else case base_slot ms m_slot of
          None \<Rightarrow> Fails
        | Some None \<Rightarrow> Falls_Through
        | Some (Some base) \<Rightarrow>
            mapping_at ctx c base (\<lambda>info. look_or (struct_type info off) (value_array_type info off)))"

subsection \<open>Elements of dynamic arrays in mappings and structs\<close>

definition data_index :: "trace_text \<Rightarrow> u256 \<Rightarrow> u256 \<Rightarrow> nat option" where
  "data_index TX slot m_slot =
     (let data_start = tx_keccak TX (be_bytes 32 m_slot);
          index = unat (slot - data_start)
      in if data_start \<le> slot \<and> index < 2 ^ 64 \<and> index < 10000000 then Some index else None)"

definition name_of_mapped_element ::
  "trace_text \<Rightarrow> ('a) storage_ctx_scheme \<Rightarrow> string \<Rightarrow> mapping_slots \<Rightarrow> u256 \<Rightarrow> u256 \<Rightarrow> string look" where
  "name_of_mapped_element TX ctx c ms slot m_slot =
     (case data_index TX slot m_slot of
        None \<Rightarrow> Falls_Through
      | Some index \<Rightarrow>
          (case key_chain ms m_slot of
             None \<Rightarrow> Fails
           | Some None \<Rightarrow> Falls_Through
           | Some (Some keys) \<Rightarrow>
               (case base_slot ms m_slot of
                  None \<Rightarrow> Fails
                | Some None \<Rightarrow> Falls_Through
                | Some (Some base) \<Rightarrow>
                    mapping_at ctx c base (\<lambda>info.
                      case mi_value info of
                        St_Array _ None \<Rightarrow>
                          labelled TX keys info (\<lambda>label.
                            if mi_element_slots info = 0 then Fails
                            else Returns (Some
                              (case field_in (mi_fields info) (index mod mi_element_slots info) of
                                 Some f \<Rightarrow> dotted (bracket label (dec index)) (sf_name f)
                               | None \<Rightarrow> bracket label (dec index))))
                      | _ \<Rightarrow> Falls_Through))))"

definition type_of_mapped_element ::
  "trace_text \<Rightarrow> ('a) storage_ctx_scheme \<Rightarrow> string \<Rightarrow> mapping_slots \<Rightarrow> u256 \<Rightarrow> u256 \<Rightarrow> storage_type look" where
  "type_of_mapped_element TX ctx c ms slot m_slot =
     (case data_index TX slot m_slot of
        None \<Rightarrow> Falls_Through
      | Some index \<Rightarrow>
          (case base_slot ms m_slot of
             None \<Rightarrow> Fails
           | Some None \<Rightarrow> Falls_Through
           | Some (Some base) \<Rightarrow>
               mapping_at ctx c base (\<lambda>info.
                 case mi_value info of
                   St_Array element None \<Rightarrow>
                     if mi_element_slots info = 0 then Fails
                     else Returns (Some
                       (case field_in (mi_fields info) (index mod mi_element_slots info) of
                          Some f \<Rightarrow> sf_ty f
                        | None \<Rightarrow> element))
                 | _ \<Rightarrow> Falls_Through)))"

text \<open>
  The element a slot falls on when it lies in the data area of a dynamic array that is a struct
  field of an array element: the array, the index of its element, the field, its element type and
  the index in the field.
\<close>

definition nested_element ::
  "('a) storage_ctx_scheme \<Rightarrow> string \<Rightarrow> mapping_slots \<Rightarrow> u256 \<Rightarrow> u256 \<times> u256 \<Rightarrow>
   (array_info \<times> nat \<times> struct_field \<times> storage_type \<times> nat) look" where
  "nested_element ctx c ms slot entry =
     (case entry of (data_start, parent) \<Rightarrow>
        if is_mapping_result ms parent \<or> slot < data_start \<or> 2 ^ 64 \<le> unat (slot - data_start)
        then Falls_Through
        else case sx_arrays ctx c of
          None \<Rightarrow> Falls_Through
        | Some arrays \<Rightarrow>
            (case best_array arrays parent None of
               None \<Rightarrow> Fails
             | Some None \<Rightarrow> Falls_Through
             | Some (Some a) \<Rightarrow>
                 (case field_in (ai_fields a) (field_offset a parent) of
                    None \<Rightarrow> Falls_Through
                  | Some f \<Rightarrow>
                      (case sf_ty f of
                         St_Array element None \<Rightarrow>
                           let element_slots = ceil_div (slot_size element) 32 in
                           if element_slots = 0 then Fails
                           else
                             let index = unat (slot - data_start) div element_slots in
                             if 10000000 \<le> index then Falls_Through
                             else Returns (Some (a, array_index a parent, f, element, index))
                       | _ \<Rightarrow> Falls_Through))))"

definition name_of_nested ::
  "trace_text \<Rightarrow> ('a) storage_ctx_scheme \<Rightarrow> string \<Rightarrow> mapping_slots \<Rightarrow> u256 \<Rightarrow> u256 \<times> u256 \<Rightarrow> string look" where
  "name_of_nested TX ctx c ms slot entry =
     (case nested_element ctx c ms slot entry of
        Returns (Some (a, elem, f, element, index)) \<Rightarrow>
          Returns (Some (bracket (dotted (bracket (ai_name a) (tx_u256 TX (of_nat elem))) (sf_name f)) (dec index)))
      | Returns None \<Rightarrow> Returns None
      | Fails \<Rightarrow> Fails
      | Falls_Through \<Rightarrow> Falls_Through)"

definition type_of_nested ::
  "('a) storage_ctx_scheme \<Rightarrow> string \<Rightarrow> mapping_slots \<Rightarrow> u256 \<Rightarrow> u256 \<times> u256 \<Rightarrow> storage_type look" where
  "type_of_nested ctx c ms slot entry =
     (case nested_element ctx c ms slot entry of
        Returns (Some (a, elem, f, element, index)) \<Rightarrow> Returns (Some element)
      | Returns None \<Rightarrow> Returns None
      | Fails \<Rightarrow> Fails
      | Falls_Through \<Rightarrow> Falls_Through)"

subsection \<open>Resolution\<close>

definition keyed_slots :: "mapping_slots \<Rightarrow> u256 list \<Rightarrow> u256 list" where
  "keyed_slots ms order = filter (\<lambda>s. ms_keys ms s \<noteq> None) order"

fun resolve_storage_name ::
  "trace_text \<Rightarrow> u256 list \<Rightarrow> u256 list \<Rightarrow> ('a) storage_ctx_scheme \<Rightarrow> string \<Rightarrow> u256 \<Rightarrow> mapping_slots option \<Rightarrow> string look" where
  "resolve_storage_name TX order order' ctx c slot slots =
     look_end (look_or (name_of_variable ctx c slot) (look_or (name_of_element TX ctx c slot)
       (case slots of
          None \<Rightarrow> Falls_Through
        | Some ms \<Rightarrow>
            look_or (name_of_mapped TX ctx c ms slot)
              (look_or (look_first (name_after_mapped TX ctx c ms slot) (keyed_slots ms order))
              (look_or (look_first (name_of_mapped_element TX ctx c ms slot) (keyed_slots ms order))
                (look_first (name_of_nested TX ctx c ms slot) (array_start_entries order' ms)))))))"

fun resolve_storage_type ::
  "trace_text \<Rightarrow> u256 list \<Rightarrow> u256 list \<Rightarrow> ('a) storage_ctx_scheme \<Rightarrow> string \<Rightarrow> u256 \<Rightarrow> mapping_slots option \<Rightarrow> storage_type look" where
  "resolve_storage_type TX order order' ctx c slot slots =
     look_end (look_or (type_of_variable ctx c slot) (look_or (type_of_element ctx c slot)
       (case slots of
          None \<Rightarrow> Falls_Through
        | Some ms \<Rightarrow>
            look_or (type_of_mapped ctx c ms slot)
              (look_or (look_first (type_after_mapped ctx c ms slot) (keyed_slots ms order))
              (look_or (look_first (type_of_mapped_element TX ctx c ms slot) (keyed_slots ms order))
                (look_first (type_of_nested ctx c ms slot) (array_start_entries order' ms)))))))"

record change_info =
  ch_name :: string
  ch_ty :: storage_type
  ch_offset :: nat
  ch_bytes :: nat

definition resolve_storage_changes ::
  "('a) storage_ctx_scheme \<Rightarrow> string \<Rightarrow> u256 \<Rightarrow> u256 \<Rightarrow> u256 \<Rightarrow> change_info list" where
  "resolve_storage_changes ctx c slot old_value new_value =
     (case sx_names ctx c of
        None \<Rightarrow> []
      | Some m \<Rightarrow>
          (case m slot of
             None \<Rightarrow> []
           | Some entries \<Rightarrow>
               map (\<lambda>e. \<lparr>ch_name = entry_label e, ch_ty = se_ty e, ch_offset = se_offset e, ch_bytes = se_bytes e\<rparr>)
                 (filter (\<lambda>e. extract_packed old_value (se_offset e) (se_bytes e)
                            \<noteq> extract_packed new_value (se_offset e) (se_bytes e)) entries)))"

subsection \<open>What has a name has a type\<close>

definition follows :: "'a look \<Rightarrow> 'b look \<Rightarrow> bool" where
  "follows a b \<longleftrightarrow>
     (a = Falls_Through \<longrightarrow> b = Falls_Through \<or> (\<exists>y. b = Returns (Some y)))
   \<and> (\<forall>x. a = Returns (Some x) \<longrightarrow> (\<exists>y. b = Returns (Some y)))"

lemma follows_or: "follows a b \<Longrightarrow> follows a' b' \<Longrightarrow> follows (look_or a a') (look_or b b')"
  by (auto simp: follows_def look_or_def split: look.splits)

lemma follows_first: "(\<And>x. x \<in> set xs \<Longrightarrow> follows (f x) (g x)) \<Longrightarrow> follows (look_first f xs) (look_first g xs)"
  by (induction xs) (simp_all add: follows_or, simp add: follows_def)

lemma follows_falls [simp]: "follows Falls_Through Falls_Through"
  by (simp add: follows_def)

lemma follows_fails [simp]: "follows Fails b" "follows (Returns None) b"
  by (simp_all add: follows_def)

lemma follows_returns [simp]: "follows (Returns x) (Returns (Some y))" "follows Falls_Through (Returns (Some y))"
  by (simp_all add: follows_def)

lemma follows_mapping_at:
  "(\<And>info. follows (f info) (g info)) \<Longrightarrow> follows (mapping_at ctx c base f) (mapping_at ctx c base g)"
  by (simp add: mapping_at_def split: option.splits)

lemma follows_labelled:
  "(\<And>label. follows (f label) b) \<Longrightarrow> follows (labelled TX keys info f) b"
  by (simp add: labelled_def split: option.splits)

lemma follows_variable: "follows (name_of_variable ctx c slot) (type_of_variable ctx c slot)"
  by (simp add: name_of_variable_def type_of_variable_def split: option.splits)

lemma follows_element: "follows (name_of_element TX ctx c slot) (type_of_element ctx c slot)"
  by (simp add: name_of_element_def type_of_element_def split: option.splits)

lemma follows_nested: "follows (name_of_nested TX ctx c ms slot e) (type_of_nested ctx c ms slot e)"
  by (simp add: name_of_nested_def type_of_nested_def split: look.splits option.splits)

lemma follows_mapped: "follows (name_of_mapped TX ctx c ms slot) (type_of_mapped ctx c ms slot)"
  by (auto simp: name_of_mapped_def type_of_mapped_def intro!: follows_mapping_at follows_labelled split: option.splits)

lemma follows_inner:
  "follows (inner_array_label label off f)
     (case sf_ty f of
        St_Array element _ \<Rightarrow>
          if sf_slot_offset f \<le> off \<and> off < sf_slot_offset f + ceil_div (sf_bytes f) 32
          then Returns (Some element) else Falls_Through
      | _ \<Rightarrow> Falls_Through)"
  by (auto simp: inner_array_label_def Let_def follows_def split: storage_type.splits option.splits)

lemma follows_struct: "follows (struct_label info label off) (struct_type info off)"
  by (auto simp: struct_label_def struct_type_def intro!: follows_first follows_inner split: option.splits)

lemma follows_value_array: "follows (value_array_label info label off) (value_array_type info off)"
  by (auto simp: value_array_label_def value_array_type_def Let_def follows_def
      split: storage_type.splits option.splits if_splits)

lemma known_chain:
  assumes "ms_inv K ms" and "hashes_acyclic ms"
  shows "key_chain ms m = Some None \<Longrightarrow> base_slot ms m = Some None"
  using key_chain_base [OF assms, of m] unknown_slot [of ms m] by (cases "ms_keys ms m") auto

lemma follows_after:
  assumes "ms_inv K ms" and "hashes_acyclic ms"
  shows "follows (name_after_mapped TX ctx c ms slot m) (type_after_mapped ctx c ms slot m)"
  using known_chain [OF assms, of m]
  by (auto simp: name_after_mapped_def type_after_mapped_def Let_def
      intro!: follows_mapping_at follows_labelled follows_or follows_struct follows_value_array
      split: option.splits)

lemma follows_dynamic:
  "follows
     (case mi_value info of
        St_Array _ None \<Rightarrow> labelled TX keys info (\<lambda>label.
          if mi_element_slots info = 0 then Fails else Returns (Some (l label)))
      | _ \<Rightarrow> Falls_Through)
     (case mi_value info of
        St_Array element None \<Rightarrow>
          if mi_element_slots info = 0 then Fails else Returns (Some (t element))
      | _ \<Rightarrow> Falls_Through)"
  by (auto intro!: follows_labelled split: storage_type.splits option.splits)

lemma follows_mapped_element:
  assumes "ms_inv K ms" and "hashes_acyclic ms"
  shows "follows (name_of_mapped_element TX ctx c ms slot m) (type_of_mapped_element TX ctx c ms slot m)"
  using known_chain [OF assms, of m]
  by (auto simp: name_of_mapped_element_def type_of_mapped_element_def
      intro!: follows_mapping_at follows_dynamic split: option.splits)

text \<open>
  C16: A storage slot that has a name has a type. Whatever the layouts of the contracts, the slots
  recorded in the trace and the order of the hash maps, when the resolution of a slot gives a
  label (of a variable, an array element, a mapping entry, a field or element in one, or an element
  of a dynamic array in one of these), then the resolution of its type gives a type and does
  not panic.
\<close>

theorem named_slots_have_types:
  assumes "\<forall>ms. slots = Some ms \<longrightarrow> (\<exists>K events. ms = fold (on_slot_event K) events ms_empty) \<and> hashes_acyclic ms"
    and "resolve_storage_name TX order order' ctx c slot slots = Returns (Some label)"
  shows "\<exists>ty. resolve_storage_type TX order order' ctx c slot slots = Returns (Some ty)"
proof -
  have "follows (resolve_storage_name TX order order' ctx c slot slots)
      (resolve_storage_type TX order order' ctx c slot slots)"
  proof (cases slots)
    case None
    then show ?thesis
      by (auto simp: look_end_def intro!: follows_or follows_variable follows_element)
  next
    case (Some ms)
    with assms(1) obtain K where "ms_inv K ms" "hashes_acyclic ms" using ms_inv_events by blast
    note inv = this
    show ?thesis unfolding Some
      by (simp add: look_end_def)
         (intro follows_or follows_first follows_variable follows_element follows_mapped
            follows_after [OF inv] follows_mapped_element [OF inv] follows_nested follows_fails)
  qed
  with assms(2) show ?thesis by (simp add: follows_def del: resolve_storage_name.simps resolve_storage_type.simps)
qed

definition demo_storage_ctx :: storage_ctx where
  "demo_storage_ctx =
     \<lparr>sx_names = Map.empty,
      sx_arrays = [''C'' \<mapsto> [\<lparr>ai_name = ''xs'', ai_element = St_Uint 256, ai_element_slots = 2, ai_start = 10,
          ai_len = Some 3,
          ai_fields = Some [\<lparr>sf_name = ''f'', sf_slot_offset = 0, sf_ty = St_Bool, sf_bytes = 1\<rparr>]\<rparr>]],
      sx_mappings = [''C'' \<mapsto> [\<lparr>mi_name = ''m'', mi_base = 3, mi_key_types = [''t_address'', ''t_bool''],
          mi_value = St_Uint 256, mi_fields = None, mi_element_slots = 1\<rparr>]]\<rparr>"

lemma demo_resolved:
  "resolve_storage_name demo_trace_text order order' demo_storage_ctx ''C'' 3005007 (Some demo_mapping_slots)
     = Returns (Some ''m[0x5][true]'')"
proof -
  have types: "parse_type ''t_address'' = Some St_Address" "parse_type ''t_bool'' = Some St_Bool"
    by (simp_all add: parse_type_eval)
  have addr: "tx_checksum demo_trace_text 5 = ''0x5''"
    by (simp add: demo_trace_text_def dec.simps dec_digit_def)
  show ?thesis
    by (simp add: look_end_def look_or_def name_of_variable_def first_entry_def name_of_element_def
        name_of_mapped_def demo_mapping_slots_chain mapping_at_def labelled_def demo_storage_ctx_def types addr
        extract_packed_def bracket_def direct_label_def field_in_def in_bounds_def array_index_def
        word_le_nat_alt)
qed

theorem named_slots_have_types_witness:
  "\<exists>ty. resolve_storage_type demo_trace_text [] [] demo_storage_ctx ''C'' 3005007 (Some demo_mapping_slots) = Returns (Some ty)"
  by (rule named_slots_have_types [OF _ demo_resolved]) (use demo_mapping_slots_def demo_mapping_slots_acyclic in blast)

subsection \<open>Array elements are found\<close>

definition holds_slot :: "u256 \<Rightarrow> array_info \<Rightarrow> bool" where
  "holds_slot slot a \<longleftrightarrow> ai_start a \<le> slot \<and> in_bounds a (array_index a slot)"

lemma best_array_found:
  assumes "\<forall>a \<in> set as. ai_element_slots a \<noteq> 0"
  shows "\<exists>r. best_array as slot best = Some r
    \<and> (case r of
         None \<Rightarrow> best = None \<and> (\<forall>a \<in> set as. \<not> holds_slot slot a)
       | Some b \<Rightarrow> (best = Some b \<or> b \<in> set as \<and> holds_slot slot b)
           \<and> (\<forall>a. a \<in> set as \<and> holds_slot slot a \<or> best = Some a \<longrightarrow> ai_start a \<le> ai_start b))"
  using assms
proof (induction as arbitrary: best)
  case (Cons a as)
  show ?case
  proof (cases "holds_slot slot a \<and> (case best of None \<Rightarrow> True | Some b \<Rightarrow> ai_start b < ai_start a)")
    case True
    with Cons.IH [of "Some a"] Cons.prems obtain b where
      "best_array as slot (Some a) = Some (Some b)" "a = b \<or> b \<in> set as \<and> holds_slot slot b"
      "\<forall>x. x \<in> set as \<and> holds_slot slot x \<or> x = a \<longrightarrow> ai_start x \<le> ai_start b"
      by (auto split: option.splits)
    with True Cons.prems show ?thesis
      by (intro exI [of _ "Some b"]) (auto simp: holds_slot_def split: option.splits)
  next
    case False
    have step: "best_array (a # as) slot best = best_array as slot best"
      using False Cons.prems by (auto simp: holds_slot_def split: option.splits)
    from Cons.IH [of best] Cons.prems False show ?thesis
      unfolding step by (fastforce split: option.splits)
  qed
qed (auto split: option.splits)

text \<open>
  The elements of arrays are named. When no variable has its base at the slot, the array is in
  the layout of the contract, the index is within its bounds and the slot is the one Solidity gives
  to that index (and field offset), and no other array that covers the slot starts at or after
  this one, the label is the name of the array with the index, followed by the field at that offset
  when the elements are structs.
\<close>

theorem array_elements_are_named:
  assumes "sx_arrays ctx c = Some arrays" and "a \<in> set arrays" and "\<forall>x \<in> set arrays. ai_element_slots x \<noteq> 0"
    and "first_entry ctx c slot = None"
    and "in_bounds a i" and "off < ai_element_slots a" and "ai_element_slots a < 2 ^ 64"
    and "unat slot = unat (ai_start a) + (i * ai_element_slots a + off)"
    and "\<forall>x \<in> set arrays. x \<noteq> a \<longrightarrow> holds_slot slot x \<longrightarrow> ai_start x < ai_start a"
  shows "resolve_storage_name TX order order' ctx c slot slots = Returns (Some
    (let name = bracket (ai_name a) (tx_u256 TX (of_nat i))
     in case field_in (ai_fields a) off of None \<Rightarrow> name | Some f \<Rightarrow> dotted name (sf_name f)))"
proof -
  have le: "ai_start a \<le> slot" using assms(8) by (simp add: word_le_nat_alt)
  have diff: "unat (slot - ai_start a) = i * ai_element_slots a + off"
    using unat_sub [OF le] assms(8) by simp
  then have index: "array_index a slot = i" and offset: "field_offset a slot = off"
    using assms(6,7) by (simp_all add: array_index_def field_offset_def Let_def)
  have holds: "holds_slot slot a" using le index assms(5) by (simp add: holds_slot_def)
  from best_array_found [OF assms(3), of slot None] assms(2) holds obtain b where
    b: "best_array arrays slot None = Some (Some b)" "b \<in> set arrays" "holds_slot slot b"
      "\<forall>x. x \<in> set arrays \<and> holds_slot slot x \<longrightarrow> ai_start x \<le> ai_start b"
    by (auto split: option.splits)
  have "b = a"
  proof (rule ccontr)
    assume "b \<noteq> a"
    with assms(9) b(2,3) have "ai_start b < ai_start a" by simp
    moreover have "ai_start a \<le> ai_start b" using b(4) assms(2) holds by simp
    ultimately show False by simp
  qed
  with b(1) assms(1,4) show ?thesis
    by (simp add: look_end_def look_or_def name_of_variable_def name_of_element_def element_label_def
        index offset Let_def)
qed

theorem array_elements_are_named_witness:
  "resolve_storage_name demo_trace_text [] [] demo_storage_ctx ''C'' 14 None = Returns (Some ''xs[2].f'')"
proof -
  define a where "a = \<lparr>ai_name = ''xs'', ai_element = St_Uint 256, ai_element_slots = 2, ai_start = 10,
      ai_len = Some 3,
      ai_fields = Some [\<lparr>sf_name = ''f'', sf_slot_offset = 0, sf_ty = St_Bool, sf_bytes = 1\<rparr>]\<rparr>"
  have "sx_arrays demo_storage_ctx ''C'' = Some [a]" by (simp add: demo_storage_ctx_def a_def)
  note named = array_elements_are_named [OF this, of a 14 2 0 demo_trace_text "[]" "[]" None]
  have "tx_u256 demo_trace_text 2 = ''2''" by (simp add: demo_trace_text_def dec.simps dec_digit_def)
  with named show ?thesis
    by (simp add: a_def first_entry_def demo_storage_ctx_def in_bounds_def field_in_def field_at_def
        bracket_def dotted_def)
qed

text \<open>
  The elements of a dynamic array in a mapping are numbered by slots, not by elements: with elements
  of two slots, the second element is labelled with index 2.
\<close>

lemma mapped_elements_are_numbered_by_slot:
  assumes "data_index TX slot m = Some index" and "key_chain ms m = Some (Some [])"
    and "base_slot ms m = Some (Some base)" and "sx_mappings ctx c = Some [info]" and "mi_base info = base"
    and "mi_value info = St_Array element None" and "mi_element_slots info = 2" and "mi_fields info = None"
  shows "name_of_mapped_element TX ctx c ms slot m = Returns (Some (bracket (mi_name info) (dec index)))"
  using assms
  by (simp add: name_of_mapped_element_def mapping_at_def labelled_def field_in_def)

end
