(* ===== verification/Trace_Codes.thy ===== *)
theory Trace_Codes
  imports Trace_Types
begin

section \<open>Contracts recognised by their code\<close>

text \<open>
  \<open>evm/trace/context.rs\<close>, the bytecode index: \<open>bytecode_entry\<close> hashes the code of an artifact with the
  bytes that differ after deployment set to zero (linked library addresses, immutables, the
  address a library pushes first), and \<open>resolve_by_bytecode\<close> looks a deployed code up. The link references
  of solc are listed in the order the hash maps give them. Decoding hexadecimal digits is a
  parameter; \<open>None\<close> is a panic.
\<close>

record bytecode_index_entry =
  bi_name :: string
  bi_hash :: u256
  bi_positions :: "(nat \<times> nat) list"

record artifact_code =
  ac_object :: "string option"
  ac_links :: "(nat \<times> nat) list option"
  ac_immutables :: "(nat \<times> nat) list option"

definition zero_range :: "nat \<times> nat \<Rightarrow> bytes \<Rightarrow> bytes" where
  "zero_range p buf =
     fold (\<lambda>i b. if i < length b then b[i := 0] else b) [fst p..<fst p + snd p] buf"

definition zero_out_positions :: "(nat \<times> nat) list \<Rightarrow> bytes \<Rightarrow> bytes" where
  "zero_out_positions positions buf = fold zero_range positions buf"

definition restore_range :: "bytes \<Rightarrow> nat \<times> nat \<Rightarrow> bytes \<Rightarrow> bytes" where
  "restore_range code p masked =
     fold (\<lambda>i b. if i < length b then b[i := code ! i] else b) [fst p..<fst p + snd p] masked"

fun resolve_entries :: "(bytes \<Rightarrow> u256) \<Rightarrow> bytes \<Rightarrow> bytecode_index_entry list \<Rightarrow> bytes \<Rightarrow> string option" where
  "resolve_entries K code [] masked = None"
| "resolve_entries K code (e # es) masked =
     (let m = zero_out_positions (bi_positions e) masked
      in if K m = bi_hash e then Some (bi_name e)
         else resolve_entries K code es (fold (restore_range code) (bi_positions e) m))"

definition resolve_by_bytecode :: "(bytes \<Rightarrow> u256) \<Rightarrow> bytecode_index_entry list \<Rightarrow> bytes \<Rightarrow> string option" where
  "resolve_by_bytecode K entries code = resolve_entries K code entries code"

definition resolve_by_initcode :: "(bytes \<Rightarrow> u256) \<Rightarrow> bytecode_index_entry list \<Rightarrow> bytes \<Rightarrow> string option" where
  "resolve_by_initcode K entries code = resolve_entries K code entries code"

definition resolve_by_code_hash :: "bytecode_index_entry list \<Rightarrow> u256 \<Rightarrow> string option" where
  "resolve_by_code_hash entries hash = map_option bi_name (find (\<lambda>e. bi_hash e = hash) entries)"

subsection \<open>Indexing an artifact\<close>

definition slice_text :: "nat \<Rightarrow> nat \<Rightarrow> string \<Rightarrow> string option" where
  "slice_text i j s = (if i \<le> j \<and> j \<le> length s then Some (take (j - i) (drop i s)) else None)"

fun fill_placeholders :: "string \<Rightarrow> (nat \<times> nat) list \<Rightarrow> nat \<Rightarrow> string \<Rightarrow> string option" where
  "fill_placeholders hex [] last_end cleaned =
     map_option (\<lambda>r. cleaned @ r) (slice_text last_end (length hex) hex)"
| "fill_placeholders hex ((start, len) # ps) last_end cleaned =
     (case slice_text last_end start hex of
        None \<Rightarrow> None
      | Some part \<Rightarrow>
          fill_placeholders hex ps (start + len)
            (cleaned @ part @ concat (replicate (len div 2) ''00'')))"

definition parse_bytecode_with_placeholders ::
  "(string \<Rightarrow> bytes option) \<Rightarrow> string \<Rightarrow> (nat \<times> nat) list \<Rightarrow> bytes option" where
  "parse_bytecode_with_placeholders H object links =
     (let hex = (case strip_prefix ''0x'' object of None \<Rightarrow> object | Some r \<Rightarrow> r);
          hex_positions = sort_key fst (map (\<lambda>(s, l). (s * 2, l * 2)) links)
      in map_option (\<lambda>cleaned. case H cleaned of None \<Rightarrow> [] | Some bs \<Rightarrow> bs)
           (fill_placeholders hex hex_positions 0 []))"

definition list_or_nil :: "'a list option \<Rightarrow> 'a list" where
  "list_or_nil xs = (case xs of None \<Rightarrow> [] | Some ys \<Rightarrow> ys)"

definition masked_positions :: "artifact_code \<Rightarrow> bool \<Rightarrow> bytes \<Rightarrow> (nat \<times> nat) list" where
  "masked_positions bc is_library code =
     list_or_nil (ac_links bc) @ list_or_nil (ac_immutables bc)
     @ (if is_library \<and> take 1 code = [0x73] then [(1, 20)] else [])"

definition bytecode_entry ::
  "(bytes \<Rightarrow> u256) \<Rightarrow> (string \<Rightarrow> bytes option) \<Rightarrow> string \<Rightarrow> artifact_code option \<Rightarrow> bool \<Rightarrow>
   bytecode_index_entry option option" where
  "bytecode_entry K H name bytecode is_library =
     (case bytecode of
        None \<Rightarrow> Some None
      | Some bc \<Rightarrow>
          (case parse_bytecode_with_placeholders H (case ac_object bc of None \<Rightarrow> [] | Some s \<Rightarrow> s)
                  (list_or_nil (ac_links bc)) of
             None \<Rightarrow> None
           | Some code \<Rightarrow>
               if code = [] then Some None
               else
                 let positions = masked_positions bc is_library code
                 in Some (Some \<lparr>bi_name = name, bi_hash = K (zero_out_positions positions code),
                                bi_positions = positions\<rparr>)))"

subsection \<open>Masking\<close>

definition covers :: "(nat \<times> nat) list \<Rightarrow> nat \<Rightarrow> bool" where
  "covers ps i \<longleftrightarrow> (\<exists>p \<in> set ps. fst p \<le> i \<and> i < fst p + snd p)"

lemma write_range:
  "length (fold (\<lambda>i b. if i < length b then b[i := f i] else b) xs buf) = length buf
   \<and> (i < length buf \<longrightarrow>
       fold (\<lambda>i b. if i < length b then b[i := f i] else b) xs buf ! i = (if i \<in> set xs then f i else buf ! i))"
  by (induction xs arbitrary: buf) auto

lemma write_positions:
  "length (fold (\<lambda>p. fold (\<lambda>i b. if i < length b then b[i := f i] else b) [fst p..<fst p + snd p]) ps buf) = length buf
   \<and> (i < length buf \<longrightarrow>
       fold (\<lambda>p. fold (\<lambda>i b. if i < length b then b[i := f i] else b) [fst p..<fst p + snd p]) ps buf ! i
         = (if covers ps i then f i else buf ! i))"
proof (induction ps arbitrary: buf)
  case (Cons p ps)
  let ?b = "fold (\<lambda>i b. if i < length b then b[i := f i] else b) [fst p..<fst p + snd p] buf"
  from write_range [of f "[fst p..<fst p + snd p]" buf i] Cons.IH [of ?b] show ?case
    by (auto simp: covers_def)
qed (simp add: covers_def)

lemma zero_out_nth:
  "length (zero_out_positions ps buf) = length buf"
  "i < length buf \<Longrightarrow> zero_out_positions ps buf ! i = (if covers ps i then 0 else buf ! i)"
  using write_positions [of "\<lambda>_. 0" ps buf i]
  by (simp_all add: zero_out_positions_def zero_range_def [abs_def])

lemma restore_nth:
  "length (fold (restore_range code) ps buf) = length buf"
  "i < length buf \<Longrightarrow> fold (restore_range code) ps buf ! i = (if covers ps i then code ! i else buf ! i)"
  using write_positions [of "\<lambda>i. code ! i" ps buf i]
  by (simp_all add: restore_range_def [abs_def])

lemma restore_zero_out: "fold (restore_range code) ps (zero_out_positions ps code) = code"
  by (rule nth_equalityI) (simp_all add: restore_nth zero_out_nth)

lemma zero_out_cong:
  assumes "length c = length d" and "\<And>i. i < length c \<Longrightarrow> \<not> covers ps i \<Longrightarrow> c ! i = d ! i"
  shows "zero_out_positions ps c = zero_out_positions ps d"
  by (rule nth_equalityI) (use assms in \<open>simp_all add: zero_out_nth\<close>)

lemma resolve_entries_find:
  "resolve_entries K code es code
    = map_option bi_name (find (\<lambda>e. K (zero_out_positions (bi_positions e) code) = bi_hash e) es)"
  by (induction es) (simp_all add: Let_def restore_zero_out)

text \<open>
  C18: Deployed code is looked up by its masked hash. Masking in place and restoring between the entries
  gives the same as masking a fresh copy for every entry: the name of the first entry whose hash the
  masked code has. So a contract is recognised whatever libraries were linked into it and whatever
  its immutables are: code that agrees with the artifact outside the masked positions
  resolves to the entry of the artifact, or to an earlier one with the same masked hash.
\<close>

theorem deployed_code_is_recognised:
  assumes "bytecode_entry K H name (Some bc) is_library = Some (Some e)"
    and "parse_bytecode_with_placeholders H (case ac_object bc of None \<Rightarrow> [] | Some s \<Rightarrow> s)
           (list_or_nil (ac_links bc)) = Some code"
    and "length deployed = length code"
    and "\<And>i. i < length code \<Longrightarrow> \<not> covers (masked_positions bc is_library code) i \<Longrightarrow> deployed ! i = code ! i"
  shows "resolve_by_bytecode K (es @ e # es') deployed =
    (case find (\<lambda>x. K (zero_out_positions (bi_positions x) deployed) = bi_hash x) es of
       None \<Rightarrow> Some name
     | Some x \<Rightarrow> Some (bi_name x))"
proof -
  let ?ps = "masked_positions bc is_library code"
  have e: "e = \<lparr>bi_name = name, bi_hash = K (zero_out_positions ?ps code), bi_positions = ?ps\<rparr>"
    using assms(1,2) by (auto simp: bytecode_entry_def Let_def split: if_splits)
  have same: "zero_out_positions ?ps deployed = zero_out_positions ?ps code"
    by (rule zero_out_cong) (use assms(3,4) in auto)
  have append: "find P (xs @ ys) = (case find P xs of None \<Rightarrow> find P ys | Some x \<Rightarrow> Some x)"
    for P :: "bytecode_index_entry \<Rightarrow> bool" and xs ys
    by (induction xs) auto
  show ?thesis
    by (simp add: resolve_by_bytecode_def resolve_entries_find append e same split: option.splits)
qed

definition demo_artifact :: artifact_code where
  "demo_artifact = \<lparr>ac_object = Some ''aa____bb'', ac_links = Some [(1, 2)], ac_immutables = None\<rparr>"

definition demo_code_hex :: "string \<Rightarrow> bytes option" where
  "demo_code_hex s = (if s = ''aa0000bb'' then Some [0xAA, 0, 0, 0xBB] else None)"

theorem deployed_code_is_recognised_witness:
  "\<exists>e. resolve_by_bytecode be_u256 [e] [0xAA, 7, 9, 0xBB] = Some ''C''"
proof -
  have two: "replicate 2 x = [x, x]" for x :: string by (simp add: numeral_2_eq_2)
  have parsed: "parse_bytecode_with_placeholders demo_code_hex ''aa____bb'' [(1, 2)] = Some [0xAA, 0, 0, 0xBB]"
    by (simp add: parse_bytecode_with_placeholders_def strip_prefix_def starts_with_def slice_text_def
        demo_code_hex_def two)
  obtain e where e: "bytecode_entry be_u256 demo_code_hex ''C'' (Some demo_artifact) False = Some (Some e)"
    by (simp add: bytecode_entry_def demo_artifact_def list_or_nil_def parsed [simplified] Let_def)
  have outside: "[0xAA, 7, 9, 0xBB] ! i = ([0xAA, 0, 0, 0xBB] :: bytes) ! i"
    if "i < 4" "\<not> covers [(1, 2)] i" for i
  proof -
    from that have "i = 0 \<or> i = 3" by (simp add: covers_def) arith
    then show ?thesis by auto
  qed
  have "resolve_by_bytecode be_u256 ([] @ [e]) [0xAA, 7, 9, 0xBB] = Some ''C''"
    by (subst deployed_code_is_recognised [OF e, of "[0xAA, 0, 0, 0xBB]"])
       (use parsed outside in \<open>simp_all add: demo_artifact_def list_or_nil_def masked_positions_def\<close>)
  then show ?thesis by auto
qed

end
