(* ===== verification/Trace_Decode.thy ===== *)
theory Trace_Decode
  imports Trace_Tree Sol_Values Cheat_State "HOL-Library.Monad_Syntax"
begin

section \<open>Decoding calls, results and logs\<close>

text \<open>
  \<open>evm/trace/context.rs\<close>, the decoding of calls, return values, events and reverts into text. An ABI
  (crate \<open>alloy_json_abi\<close>) is what the code asks of it: functions by selector, events and errors in
  order, for a parameter its name, its components, whether it is a struct and the type its
  selector type parses to. The decoders of the ABI crates and what they print are the
  parameter \<open>abi_decoder\<close>; \<open>None\<close> is a decoding error.
\<close>

datatype abi_param =
  Abi_Param (pm_name: string) (pm_is_struct: bool) (pm_struct_name: "string option")
    (pm_type: "sol_type option") (pm_components: "abi_param list")

record abi_function =
  af_name :: string
  af_inputs :: "abi_param list"
  af_outputs :: "abi_param list"

record abi_event =
  ae_name :: string
  ae_selector :: u256
  ae_inputs :: "(bool \<times> abi_param) list"

record abi_error =
  ar_name :: string
  ar_selector :: bytes
  ar_inputs :: "abi_param list"

record json_abi =
  ja_function :: "bytes \<Rightarrow> abi_function option"
  ja_events :: "abi_event list"
  ja_errors :: "abi_error list"

datatype panic_kind =
    Panic_Generic | Panic_Assert | Panic_Under_Overflow | Panic_Division_By_Zero
  | Panic_Enum_Conversion | Panic_Storage_Encoding | Panic_Empty_Array_Pop
  | Panic_Array_Out_Of_Bounds | Panic_Resource | Panic_Invalid_Internal_Function
  | Panic_Other string

record abi_decoder =
  dc_params :: "sol_type list \<Rightarrow> bytes \<Rightarrow> sol_value option"
  dc_value :: "sol_type \<Rightarrow> bytes \<Rightarrow> sol_value option"
  dc_sequence :: "sol_type \<Rightarrow> bytes \<Rightarrow> sol_value option"
  dc_event_ok :: "u256 \<Rightarrow> sol_type list \<Rightarrow> sol_type list \<Rightarrow> bool"
  dc_event :: "sol_type list \<Rightarrow> sol_type list \<Rightarrow> evm_log \<Rightarrow> (sol_value list \<times> sol_value list) option"
  dc_revert :: "bytes \<Rightarrow> string option"
  dc_panic :: "bytes \<Rightarrow> panic_kind option option"
  dc_address :: "address \<Rightarrow> string"
  dc_debug :: "sol_value \<Rightarrow> string"

type_synonym labels = "address \<rightharpoonup> string"

subsection \<open>Values\<close>

fun join_text :: "string list \<Rightarrow> string" where
  "join_text [] = []"
| "join_text [s] = s"
| "join_text (s # t # ts) = s @ '', '' @ join_text (t # ts)"

fun format_value :: "trace_text \<Rightarrow> abi_decoder \<Rightarrow> labels \<Rightarrow> sol_value \<Rightarrow> string" where
  "format_value TX D labels (VBool b) = (if b then ''true'' else ''false'')"
| "format_value TX D labels (VUint n _) = tx_u256 TX n"
| "format_value TX D labels (VInt n _) = tx_i256 TX n"
| "format_value TX D labels (VAddress a) =
     (case labels a of
        Some label \<Rightarrow> label @ '': ['' @ dc_address D a @ '']''
      | None \<Rightarrow> dc_address D a)"
| "format_value TX D labels (VString s) = CHR 0x22 # s @ [CHR 0x22]"
| "format_value TX D labels (VBytes b) = ''0x'' @ tx_hex TX b"
| "format_value TX D labels (VFixedBytes b _) = ''0x'' @ tx_hex TX b"
| "format_value TX D labels (VArray vs) = ''['' @ join_text (map (format_value TX D labels) vs) @ '']''"
| "format_value TX D labels (VFixedArray vs) = ''['' @ join_text (map (format_value TX D labels) vs) @ '']''"
| "format_value TX D labels (VTuple vs) = ''('' @ join_text (map (format_value TX D labels) vs) @ '')''"
| "format_value TX D labels (VFunction b) = dc_debug D (VFunction b)"

function format_abi_value :: "trace_text \<Rightarrow> abi_decoder \<Rightarrow> labels \<Rightarrow> sol_value \<Rightarrow> abi_param \<Rightarrow> string" where
  "format_abi_value TX D labels v p =
     (case v of
        VTuple vals \<Rightarrow>
          if pm_is_struct p then
            let name = (case pm_struct_name p of
                   Some n \<Rightarrow> takeWhile (\<lambda>c. c \<noteq> CHR ''['') n
                 | None \<Rightarrow> ''tuple'');
                inner = map (\<lambda>(w, q). pm_name q @ '': '' @ format_abi_value TX D labels w q)
                  (zip vals (pm_components p))
            in name @ ''({ '' @ join_text inner @ '' })''
          else ''('' @ join_text (map (\<lambda>(w, q). format_abi_value TX D labels w q) (zip vals (pm_components p))) @ '')''
      | VArray vals \<Rightarrow> ''['' @ join_text (map (\<lambda>w. format_abi_value TX D labels w p) vals) @ '']''
      | VFixedArray vals \<Rightarrow> ''['' @ join_text (map (\<lambda>w. format_abi_value TX D labels w p) vals) @ '']''
      | _ \<Rightarrow> format_value TX D labels v)"
  by pat_completeness auto
termination
  by (relation "measure (\<lambda>(TX, D, labels, v, p). size v)")
     (auto dest!: set_zip_leftD simp: less_Suc_eq_le size_list_estimation')

declare format_abi_value.simps [simp del]

definition format_abi_args :: "trace_text \<Rightarrow> abi_decoder \<Rightarrow> labels \<Rightarrow> sol_value list \<Rightarrow> abi_param list \<Rightarrow> string" where
  "format_abi_args TX D labels values params =
     (if values = [] then []
      else join_text (map (\<lambda>(v, p). format_abi_value TX D labels v p) (zip values params)))"

subsection \<open>The index over solc's syntax trees\<close>

datatype elementary =
    El_Uint nat | El_Int nat | El_Address | El_Payable | El_Bool | El_String | El_Bytes
  | El_Fixed_Bytes nat | El_Ufixed nat nat | El_Fixed nat nat

datatype ast_type =
    Ast_Elementary elementary
  | Ast_Mapping
  | Ast_User "int option"
  | Ast_Array bool ast_type
  | Ast_Function_Type

text \<open>A declaration is its type and whether it lies in storage.\<close>

type_synonym ast_var = "ast_type \<times> bool"
type_synonym struct_index = "int \<rightharpoonup> ast_var list"

record ast_fn =
  fd_name :: string
  fd_selector :: "string option"
  fd_params :: "ast_var list"

datatype ast_node =
    Ast_Node_Function ast_fn
  | Ast_Node_Struct int "ast_var list"
  | Ast_Node_Other

definition insert_absent :: "'k \<Rightarrow> 'v \<Rightarrow> ('k \<rightharpoonup> 'v) \<Rightarrow> ('k \<rightharpoonup> 'v)" where
  "insert_absent k v m = (if m k = None then m(k \<mapsto> v) else m)"

definition collect_function :: "(string \<Rightarrow> bytes option) \<Rightarrow> ast_node \<Rightarrow> (bytes \<rightharpoonup> ast_fn) \<Rightarrow> (bytes \<rightharpoonup> ast_fn)" where
  "collect_function H node out =
     (case node of
        Ast_Node_Function f \<Rightarrow>
          (case fd_selector f of
             None \<Rightarrow> out
           | Some s \<Rightarrow>
               (case H (case strip_prefix ''0x'' s of None \<Rightarrow> s | Some r \<Rightarrow> r) of
                  None \<Rightarrow> out
                | Some key \<Rightarrow> if length key = 4 then insert_absent key f out else out))
      | _ \<Rightarrow> out)"

definition collect_contract_functions ::
  "(string \<Rightarrow> bytes option) \<Rightarrow> ast_node list \<Rightarrow> (bytes \<rightharpoonup> ast_fn) \<Rightarrow> (bytes \<rightharpoonup> ast_fn)" where
  "collect_contract_functions H nodes out = fold (collect_function H) nodes out"

definition collect_contract_structs :: "ast_node list \<Rightarrow> struct_index \<Rightarrow> struct_index" where
  "collect_contract_structs nodes out =
     fold (\<lambda>node out. case node of Ast_Node_Struct i members \<Rightarrow> insert_absent i members out | _ \<Rightarrow> out) nodes out"

fun elementary_to_dyn :: "elementary \<Rightarrow> sol_type" where
  "elementary_to_dyn (El_Uint bits) = TUint bits"
| "elementary_to_dyn (El_Int bits) = TInt bits"
| "elementary_to_dyn El_Address = TAddress"
| "elementary_to_dyn El_Payable = TAddress"
| "elementary_to_dyn El_Bool = TBool"
| "elementary_to_dyn El_String = TString"
| "elementary_to_dyn El_Bytes = TBytes"
| "elementary_to_dyn (El_Fixed_Bytes n) = TFixedBytes n"
| "elementary_to_dyn (El_Ufixed _ _) = TUint 256"
| "elementary_to_dyn (El_Fixed _ _) = TUint 256"

text \<open>The fuel bounds the nesting of structs; \<open>None\<close> means that it did not suffice.\<close>

fun ast_type_to_dyn :: "nat \<Rightarrow> struct_index \<Rightarrow> bool \<Rightarrow> ast_type \<Rightarrow> sol_type option"
and ast_vars_to_dyn :: "nat \<Rightarrow> struct_index \<Rightarrow> ast_var list \<Rightarrow> sol_type list option" where
  "ast_type_to_dyn n ix st (Ast_Elementary e) = Some (elementary_to_dyn e)"
| "ast_type_to_dyn n ix st Ast_Mapping = Some (TUint 256)"
| "ast_type_to_dyn n ix st (Ast_User ref) =
     (if st then Some (TUint 256)
      else case (case ref of None \<Rightarrow> None | Some i \<Rightarrow> ix i) of
        None \<Rightarrow> Some TBytes
      | Some vars \<Rightarrow>
          (case n of 0 \<Rightarrow> None | Suc k \<Rightarrow> map_option TTuple (ast_vars_to_dyn k ix vars)))"
| "ast_type_to_dyn n ix st (Ast_Array fixed_len ty) =
     (if st then Some (TUint 256)
      else if fixed_len then Some TBytes
      else map_option TArray (ast_type_to_dyn n ix st ty))"
| "ast_type_to_dyn n ix st Ast_Function_Type = Some TBytes"
| "ast_vars_to_dyn n ix [] = Some []"
| "ast_vars_to_dyn n ix ((ty, st) # vars) =
     do { t \<leftarrow> ast_type_to_dyn n ix st ty; ts \<leftarrow> ast_vars_to_dyn n ix vars; Some (t # ts) }"

subsection \<open>The context\<close>

record decode_ctx =
  dx_labels :: labels
  dx_abis :: "json_abi list"
  dx_functions :: "bytes \<rightharpoonup> ast_fn"
  dx_structs :: struct_index

definition tuple_values :: "sol_value \<Rightarrow> sol_value list" where
  "tuple_values v = (case v of VTuple vs \<Rightarrow> vs | other \<Rightarrow> [other])"

definition param_types :: "abi_param list \<Rightarrow> sol_type list" where
  "param_types ps = List.map_filter pm_type ps"

definition get_abi :: "decode_ctx \<Rightarrow> bytes \<Rightarrow> json_abi option" where
  "get_abi cx selector = find (\<lambda>abi. ja_function abi selector \<noteq> None) (dx_abis cx)"

definition abi_function_of :: "decode_ctx \<Rightarrow> bytes \<Rightarrow> abi_function option" where
  "abi_function_of cx selector =
     (case get_abi cx selector of None \<Rightarrow> None | Some abi \<Rightarrow> ja_function abi selector)"

definition plain_args :: "trace_text \<Rightarrow> abi_decoder \<Rightarrow> labels \<Rightarrow> sol_type list \<Rightarrow> bytes \<Rightarrow> string" where
  "plain_args TX D labels types body =
     (if types = [] then []
      else case dc_params D types body of
        None \<Rightarrow> ''...''
      | Some (VTuple vs) \<Rightarrow> join_text (map (format_value TX D labels) vs)
      | Some other \<Rightarrow> format_value TX D labels other)"

definition decode_ast_call ::
  "trace_text \<Rightarrow> abi_decoder \<Rightarrow> nat \<Rightarrow> ast_fn \<Rightarrow> bytes \<Rightarrow> struct_index \<Rightarrow> (string \<times> string) option" where
  "decode_ast_call TX D n f body ix =
     (if length body \<le> 4 then Some (fd_name f, [])
      else map_option (\<lambda>types. (fd_name f, plain_args TX D Map.empty types (drop 4 body)))
             (ast_vars_to_dyn n ix (fd_params f)))"

definition format_evmole_args :: "trace_text \<Rightarrow> abi_decoder \<Rightarrow> decode_ctx \<Rightarrow> sol_type list \<Rightarrow> bytes \<Rightarrow> string" where
  "format_evmole_args TX D cx types body = plain_args TX D (dx_labels cx) types (drop 4 body)"

definition decode_trace_call ::
  "trace_text \<Rightarrow> abi_decoder \<Rightarrow> nat \<Rightarrow> decode_ctx \<Rightarrow> bytes \<Rightarrow> (bytes \<Rightarrow> sol_type list option) option \<Rightarrow>
   (string option \<times> string) option" where
  "decode_trace_call TX D n cx body evmole =
     (if length body < 4 then Some (None, [])
      else
        let sel = take 4 body in
        case abi_function_of cx sel of
          Some f \<Rightarrow>
            let types = param_types (af_inputs f);
                args = (if types = [] then []
                        else case dc_params D types (drop 4 body) of
                          None \<Rightarrow> ''...''
                        | Some v \<Rightarrow> format_abi_args TX D (dx_labels cx) (tuple_values v) (af_inputs f))
            in Some (Some (af_name f), args)
        | None \<Rightarrow>
        (case dx_functions cx sel of
          Some f \<Rightarrow> map_option (\<lambda>(name, args). (Some name, args)) (decode_ast_call TX D n f body (dx_structs cx))
        | None \<Rightarrow>
        (case (case evmole of None \<Rightarrow> None | Some extracted \<Rightarrow> extracted sel) of
          Some types \<Rightarrow> Some (None, format_evmole_args TX D cx types body)
        | None \<Rightarrow> Some (None, ''...''))))"

definition decode_trace_return :: "trace_text \<Rightarrow> abi_decoder \<Rightarrow> decode_ctx \<Rightarrow> bytes \<Rightarrow> bytes \<Rightarrow> string option" where
  "decode_trace_return TX D cx input output =
     (if length input < 4 \<or> output = [] then None
      else case abi_function_of cx (take 4 input) of
        None \<Rightarrow> None
      | Some f \<Rightarrow>
          if af_outputs f = [] then None
          else
            let types = param_types (af_outputs f) in
            if types = [] then None
            else case dc_params D types output of
              Some v \<Rightarrow> Some (format_abi_args TX D (dx_labels cx) (tuple_values v) (af_outputs f))
            | None \<Rightarrow> Some ''...'')"

subsection \<open>Events, log messages and reverts\<close>

definition event_arg :: "trace_text \<Rightarrow> abi_decoder \<Rightarrow> labels \<Rightarrow> sol_value \<Rightarrow> abi_param \<Rightarrow> string" where
  "event_arg TX D labels v p = pm_name p @ '': '' @ format_abi_value TX D labels v p"

text \<open>The decoded topics and the decoded body are merged in the order of the declaration.\<close>

fun event_args ::
  "trace_text \<Rightarrow> abi_decoder \<Rightarrow> labels \<Rightarrow> (bool \<times> abi_param) list \<Rightarrow> sol_value list \<Rightarrow> sol_value list \<Rightarrow> string list" where
  "event_args TX D labels [] ix body = []"
| "event_args TX D labels ((True, p) # ps) ix body =
     (case ix of
        v # ix' \<Rightarrow> event_arg TX D labels v p # event_args TX D labels ps ix' body
      | [] \<Rightarrow> event_args TX D labels ps [] body)"
| "event_args TX D labels ((False, p) # ps) ix body =
     (case body of
        v # body' \<Rightarrow> event_arg TX D labels v p # event_args TX D labels ps ix body'
      | [] \<Rightarrow> event_args TX D labels ps ix [])"

definition event_types :: "bool \<Rightarrow> abi_event \<Rightarrow> sol_type list" where
  "event_types indexed e = param_types (map snd (filter (\<lambda>p. fst p = indexed) (ae_inputs e)))"

definition decode_known_event ::
  "trace_text \<Rightarrow> abi_decoder \<Rightarrow> decode_ctx \<Rightarrow> u256 \<Rightarrow> evm_log \<Rightarrow> (string \<times> string) option" where
  "decode_known_event TX D cx topic_0 l =
     (case find (\<lambda>e. ae_selector e = topic_0) (concat (map ja_events (dx_abis cx))) of
        None \<Rightarrow> None
      | Some e \<Rightarrow>
          let indexed = event_types True e; body = event_types False e in
          if \<not> dc_event_ok D topic_0 indexed body then Some (ae_name e, ''...'')
          else case dc_event D indexed body l of
            None \<Rightarrow> Some (ae_name e, ''...'')
          | Some (ix, vs) \<Rightarrow> Some (ae_name e, join_text (event_args TX D (dx_labels cx) (ae_inputs e) ix vs)))"

definition decode_trace_event ::
  "trace_text \<Rightarrow> abi_decoder \<Rightarrow> decode_ctx \<Rightarrow> evm_log \<Rightarrow> string option \<times> string" where
  "decode_trace_event TX D cx l =
     (case log_topics l of
        [] \<Rightarrow> (None, ''0x'' @ tx_hex TX (log_data l))
      | topic_0 # _ \<Rightarrow>
          (case decode_known_event TX D cx topic_0 l of
             Some (name, args) \<Rightarrow> (Some name, args)
           | None \<Rightarrow> (None, ''0x'' @ tx_hex TX (log_data l))))"

definition log_string_topic :: u256 where
  "log_string_topic = 0xcf34ef537ac33ee1ac626ca1587a0a7e8e51561e5514f8cb36afa1c5102b3bab"

definition log_pair_topics :: "(u256 \<times> sol_type) list" where
  "log_pair_topics =
     [(0x821f337ab34a905a52ea2a22aa6b9ef872196a034e37c2bc08d88e21d8cece09, TString),
      (0xdd970dd9b5bfe707922155b058a407655cb18288b807e2216442bca8ad83d6b5, TUint 256),
      (0x1dfffa052d4a63bd70f14b863e128979d1c59e3589a0a3beb2633a120047042d, TAddress),
      (0x381e6feca73f11fec6ca464f9d2a06ae1bb0ee33a55355e128d2d3aca53cc5f4, TBytes),
      (0x52dd9d08c343f72c69027ade2a075f6242dba2eeca3a3c61bfd8d00d32f6bd20, TBool)]"

definition decode_log_event :: "trace_text \<Rightarrow> abi_decoder \<Rightarrow> decode_ctx \<Rightarrow> evm_log \<Rightarrow> string option" where
  "decode_log_event TX D cx l =
     (case log_topics l of
        [] \<Rightarrow> None
      | topic0 # _ \<Rightarrow>
          if topic0 = log_string_topic then
            (case dc_value D TString (log_data l) of Some (VString msg) \<Rightarrow> Some msg | _ \<Rightarrow> None)
          else case map_of log_pair_topics topic0 of
            None \<Rightarrow> None
          | Some ty \<Rightarrow>
              (case dc_sequence D (TTuple [TString, ty]) (log_data l) of
                 Some (VTuple [VString msg, v]) \<Rightarrow> Some (msg @ format_value TX D (dx_labels cx) v)
               | _ \<Rightarrow> None))"

fun panic_text :: "panic_kind \<Rightarrow> string" where
  "panic_text Panic_Generic = ''generic panic''"
| "panic_text Panic_Assert = ''assertion failed''"
| "panic_text Panic_Under_Overflow = ''arithmetic overflow/underflow''"
| "panic_text Panic_Division_By_Zero = ''division by zero''"
| "panic_text Panic_Enum_Conversion = ''enum conversion error''"
| "panic_text Panic_Storage_Encoding = ''storage encoding error''"
| "panic_text Panic_Empty_Array_Pop = ''empty array pop''"
| "panic_text Panic_Array_Out_Of_Bounds = ''array out of bounds''"
| "panic_text Panic_Resource = ''resource error''"
| "panic_text Panic_Invalid_Internal_Function = ''invalid internal function''"
| "panic_text (Panic_Other s) = s"

definition error_text :: "trace_text \<Rightarrow> abi_decoder \<Rightarrow> decode_ctx \<Rightarrow> abi_error \<Rightarrow> bytes \<Rightarrow> string" where
  "error_text TX D cx e body =
     (if ar_inputs e = [] then ar_name e @ ''()''
      else
        let types = param_types (ar_inputs e) in
        if types = [] then ar_name e @ ''(...)''
        else case dc_params D types body of
          None \<Rightarrow> ar_name e @ ''(...)''
        | Some v \<Rightarrow> ar_name e @ ''('' @ format_abi_args TX D (dx_labels cx) (tuple_values v) (ar_inputs e) @ '')'')"

definition decode_trace_revert :: "trace_text \<Rightarrow> abi_decoder \<Rightarrow> decode_ctx \<Rightarrow> bytes \<Rightarrow> string" where
  "decode_trace_revert TX D cx body =
     (let sel = take 4 body;
          reason = (if 4 \<le> length body \<and> sel = [0x08, 0xc3, 0x79, 0xa0] then dc_revert D body else None);
          panic = (if 4 \<le> length body \<and> sel = [0x4e, 0x48, 0x7b, 0x71] then dc_panic D body else None);
          abi_error = (if 4 \<le> length body
            then find (\<lambda>e. ar_selector e = sel) (concat (map ja_errors (dx_abis cx))) else None)
      in if body = [] then ''reverted''
         else case reason of
           Some r \<Rightarrow> r
         | None \<Rightarrow>
         (case panic of
           Some kind \<Rightarrow> ''panic: '' @ (case kind of None \<Rightarrow> ''unknown code'' | Some k \<Rightarrow> panic_text k)
         | None \<Rightarrow>
         (case abi_error of
           Some e \<Rightarrow> error_text TX D cx e (drop 4 body)
         | None \<Rightarrow> ''0x'' @ tx_hex TX body)))"

end
