(* ===== verification/Trace_Display.thy ===== *)
theory Trace_Display
  imports Trace_Tree Trace_Decode Trace_Resolve Trace_Codes
begin

section \<open>The text of a trace\<close>

text \<open>
  \<open>evm/trace/mod.rs\<close> (\<open>Trace\<close>, \<open>TraceDisplay\<close>) and the construction of the context in
  \<open>evm/trace/context.rs\<close>: the labels a trace itself gives to addresses, and the rendering of the tree
  of frames. The text is its lines; a line is its UTF-8 bytes. Which addresses are precompiles and what
  evmole extracts from a code are parameters, as are the orders of the hash maps of recorded
  slots. \<open>None\<close> is a panic (or a walk that does not return).
\<close>

record trace_context =
  tc_storage :: storage_ctx
  tc_decode :: decode_ctx
  tc_codes :: "bytecode_index_entry list"
  tc_initcodes :: "bytecode_index_entry list"

subsection \<open>The context of a compilation\<close>

record contract_artifact =
  ca_name :: string
  ca_abi :: "json_abi option"
  ca_evm :: "(artifact_code option \<times> artifact_code option) option"
  ca_layout :: "storage_layout option"

text \<open>A definition in a syntax tree: its name, whether it is a library, its nodes.\<close>

type_synonym contract_def = "string \<times> bool \<times> ast_node list"

record source_output =
  so_ast :: "contract_def list option"
  so_contracts :: "contract_artifact list"

definition default_context :: trace_context where
  "default_context =
     \<lparr>tc_storage = \<lparr>sx_names = Map.empty, sx_arrays = Map.empty, sx_mappings = Map.empty\<rparr>,
      tc_decode = \<lparr>dx_labels = [VM_ADDRESS \<mapsto> ''RipfuzzVM'', DEFAULT_DEPLOYER \<mapsto> ''RipfuzzDeployer''],
                   dx_abis = [], dx_functions = Map.empty, dx_structs = Map.empty\<rparr>,
      tc_codes = [], tc_initcodes = []\<rparr>"

definition with_label :: "address \<Rightarrow> string \<Rightarrow> trace_context \<Rightarrow> trace_context" where
  "with_label a label cx =
     cx\<lparr>tc_decode := (tc_decode cx)\<lparr>dx_labels := (dx_labels (tc_decode cx))(a \<mapsto> label)\<rparr>\<rparr>"

definition with_abi :: "json_abi \<Rightarrow> trace_context \<Rightarrow> trace_context" where
  "with_abi abi cx = cx\<lparr>tc_decode := (tc_decode cx)\<lparr>dx_abis := dx_abis (tc_decode cx) @ [abi]\<rparr>\<rparr>"

definition get_label :: "trace_context \<Rightarrow> address \<Rightarrow> string option" where
  "get_label cx a = dx_labels (tc_decode cx) a"

definition add_layout :: "string \<Rightarrow> layout_index option \<Rightarrow> storage_ctx \<Rightarrow> storage_ctx" where
  "add_layout c r sx =
     (case r of
        None \<Rightarrow> sx
      | Some (names, arrays, mappings) \<Rightarrow>
          \<lparr>sx_names = (sx_names sx)(c \<mapsto> names), sx_arrays = (sx_arrays sx)(c \<mapsto> arrays),
           sx_mappings = (sx_mappings sx)(c \<mapsto> mappings)\<rparr>)"

definition list_of_option :: "'a option \<Rightarrow> 'a list" where
  "list_of_option x = (case x of None \<Rightarrow> [] | Some y \<Rightarrow> [y])"

definition index_contract ::
  "trace_text \<Rightarrow> (string \<Rightarrow> bytes option) \<Rightarrow> nat \<Rightarrow> contract_def list \<Rightarrow> contract_artifact \<Rightarrow> trace_context \<Rightarrow>
   trace_context option" where
  "index_contract TX H n ast c cx =
     (case find (\<lambda>d. fst d = ca_name c) ast of
        None \<Rightarrow> Some cx
      | Some (_, is_library, _) \<Rightarrow>
          (case ca_abi c of
             None \<Rightarrow> Some cx
           | Some abi \<Rightarrow>
               do {
                 deployed \<leftarrow> (case ca_evm c of None \<Rightarrow> Some None
                   | Some (d, _) \<Rightarrow> bytecode_entry (tx_keccak TX) H (ca_name c) d is_library);
                 init \<leftarrow> (case ca_evm c of None \<Rightarrow> Some None
                   | Some (_, i) \<Rightarrow> bytecode_entry (tx_keccak TX) H (ca_name c) i False);
                 layout \<leftarrow> (case ca_layout c of None \<Rightarrow> Some None
                   | Some l \<Rightarrow> parse_storage_layout TX n l);
                 Some (with_abi abi
                   (cx\<lparr>tc_codes := tc_codes cx @ list_of_option deployed,
                       tc_initcodes := tc_initcodes cx @ list_of_option init,
                       tc_storage := add_layout (ca_name c) layout (tc_storage cx)\<rparr>))
               }))"

definition index_source ::
  "trace_text \<Rightarrow> (string \<Rightarrow> bytes option) \<Rightarrow> nat \<Rightarrow> source_output \<Rightarrow> trace_context \<Rightarrow> trace_context option" where
  "index_source TX H n src cx =
     (case so_ast src of
        None \<Rightarrow> Some cx
      | Some ast \<Rightarrow>
          let d = tc_decode cx;
              d' = d\<lparr>dx_structs := fold (\<lambda>(_, _, nodes). collect_contract_structs nodes) ast (dx_structs d),
                     dx_functions := fold (\<lambda>(_, _, nodes). collect_contract_functions H nodes) ast (dx_functions d)\<rparr>
          in fold_opt (index_contract TX H n ast) (so_contracts src) (cx\<lparr>tc_decode := d'\<rparr>))"

definition from_solc_output ::
  "trace_text \<Rightarrow> (string \<Rightarrow> bytes option) \<Rightarrow> nat \<Rightarrow> json_abi \<Rightarrow> source_output list \<Rightarrow> trace_context option" where
  "from_solc_output TX H n common sources =
     map_option (with_abi common) (fold_opt (index_source TX H n) sources default_context)"

subsection \<open>Labels from the trace\<close>

type_synonym evmole_index = "u256 \<rightharpoonup> (bytes \<Rightarrow> sol_type list option)"

record trace_env =
  te_text :: trace_text
  te_decoder :: abi_decoder
  te_fuel :: nat
  te_precompile :: "address \<Rightarrow> bool"
  te_evmole :: "bytes \<Rightarrow> bytes \<Rightarrow> sol_type list option"
  te_key_order :: "address \<Rightarrow> u256 list"
  te_array_order :: "address \<Rightarrow> u256 list"

definition resolve_code :: "trace_env \<Rightarrow> trace_context \<Rightarrow> bytes \<Rightarrow> string option" where
  "resolve_code E cx code = resolve_by_bytecode (tx_keccak (te_text E)) (tc_codes cx) code"

definition opt_or :: "'a option \<Rightarrow> 'a option \<Rightarrow> 'a option" where
  "opt_or a b = (case a of None \<Rightarrow> b | Some _ \<Rightarrow> a)"

definition label_selector :: bytes where
  "label_selector = [0xc6, 0x57, 0xc7, 0x18]"

definition vm_label :: "trace_env \<Rightarrow> frame_info \<Rightarrow> labels \<Rightarrow> labels" where
  "vm_label E fi labels =
     (if fr_address fi = Some VM_ADDRESS \<and> 4 \<le> length (fr_input fi) \<and> take 4 (fr_input fi) = label_selector
      then case dc_params (te_decoder E) [TAddress, TString] (drop 4 (fr_input fi)) of
             Some (VTuple (VAddress a # VString label # _)) \<Rightarrow> labels(a \<mapsto> label)
           | _ \<Rightarrow> labels
      else labels)"

definition create_label :: "trace_env \<Rightarrow> trace_context \<Rightarrow> frame_info \<Rightarrow> labels \<Rightarrow> labels" where
  "create_label E cx fi labels =
     (case (fr_kind fi, fr_address fi) of
        (Kind_Create, Some a) \<Rightarrow>
          (case opt_or (resolve_code E cx (fr_output fi))
                  (resolve_by_initcode (tx_keccak (te_text E)) (tc_initcodes cx) (fr_input fi)) of
             Some name \<Rightarrow> labels(a \<mapsto> name)
           | None \<Rightarrow> (case get_label cx a of Some name \<Rightarrow> labels(a \<mapsto> name) | None \<Rightarrow> labels))
      | _ \<Rightarrow> labels)"

definition code_label :: "trace_env \<Rightarrow> trace_context \<Rightarrow> frame_info \<Rightarrow> labels \<Rightarrow> labels" where
  "code_label E cx fi labels =
     (case (fr_code_address fi, fr_code_bytes fi) of
        (Some a, Some code) \<Rightarrow>
          if labels a = None \<and> get_label cx a = None
          then case resolve_code E cx code of Some name \<Rightarrow> labels(a \<mapsto> name) | None \<Rightarrow> labels
          else labels
      | _ \<Rightarrow> labels)"

definition evmole_of :: "trace_env \<Rightarrow> frame_info \<Rightarrow> evmole_index \<Rightarrow> evmole_index" where
  "evmole_of E fi out =
     (case fr_code_bytes fi of
        None \<Rightarrow> out
      | Some code \<Rightarrow> insert_absent (tx_keccak (te_text E) code) (te_evmole E code) out)"

text \<open>A pass over a frame and its children, in preorder.\<close>

fun collect :: "(frame_info \<Rightarrow> 'm \<Rightarrow> 'm) \<Rightarrow> call_frame \<Rightarrow> 'm \<Rightarrow> 'm" where
  "collect f (Call_Frame fi children) m = fold (collect f) children (f fi m)"

record trace_display =
  td_trace :: trace
  td_context :: trace_context
  td_labels :: labels
  td_compact :: bool
  td_evmole :: evmole_index
  td_logs_only :: bool

definition root_labels :: "trace_env \<Rightarrow> trace_context \<Rightarrow> call_frame \<Rightarrow> labels \<Rightarrow> labels" where
  "root_labels E cx root labels =
     collect (code_label E cx) root (collect (vm_label E) root (collect (create_label E cx) root labels))"

definition display_impl :: "trace_env \<Rightarrow> trace_context \<Rightarrow> bool \<Rightarrow> trace \<Rightarrow> trace_display" where
  "display_impl E cx compact tr =
     \<lparr>td_trace = tr, td_context = cx, td_labels = fold (root_labels E cx) (tr_roots tr) Map.empty,
      td_compact = compact, td_evmole = fold (collect (evmole_of E)) (tr_roots tr) Map.empty,
      td_logs_only = False\<rparr>"

definition display_with :: "trace_env \<Rightarrow> trace_context \<Rightarrow> trace \<Rightarrow> trace_display" where
  "display_with E cx tr = display_impl E cx False tr"

definition display_compact_with :: "trace_env \<Rightarrow> trace_context \<Rightarrow> trace \<Rightarrow> trace_display" where
  "display_compact_with E cx tr = display_impl E cx True tr"

definition display_logs_with :: "trace_env \<Rightarrow> trace_context \<Rightarrow> trace \<Rightarrow> trace_display" where
  "display_logs_with E cx tr = (display_impl E cx True tr)\<lparr>td_logs_only := True\<rparr>"

subsection \<open>Lines\<close>

definition bar :: string where "bar = [CHR 0xE2, CHR 0x94, CHR 0x82]"
definition branch :: string where
  "branch = [CHR 0xE2, CHR 0x94, CHR 0x9C, CHR 0xE2, CHR 0x94, CHR 0x80, CHR 0x20]"
definition corner :: string where
  "corner = [CHR 0xE2, CHR 0x94, CHR 0x94, CHR 0xE2, CHR 0x94, CHR 0x80, CHR 0x20]"
definition arrow_right :: string where "arrow_right = [CHR 0xE2, CHR 0x86, CHR 0x92]"
definition arrow_left :: string where "arrow_left = [CHR 0xE2, CHR 0x86, CHR 0x90]"

definition spaces :: "nat \<Rightarrow> string" where
  "spaces n = replicate n CHR 0x20"

fun tree_prefix_from :: "nat \<Rightarrow> nat list \<Rightarrow> nat \<Rightarrow> string" where
  "tree_prefix_from pos [] target = spaces (target - pos)"
| "tree_prefix_from pos (col # cols) target = spaces (col - pos) @ bar @ tree_prefix_from (col + 1) cols target"

definition tree_prefix :: "nat list \<Rightarrow> nat \<Rightarrow> string" where
  "tree_prefix cols target = tree_prefix_from 0 cols target"

definition shown_label :: "trace_display \<Rightarrow> address \<Rightarrow> string option" where
  "shown_label td a = opt_or (td_labels td a) (get_label (td_context td) a)"

definition selector_text :: "trace_env \<Rightarrow> frame_info \<Rightarrow> string" where
  "selector_text E fi =
     ''0x'' @ tx_hex (te_text E) (if 4 \<le> length (fr_input fi) then take 4 (fr_input fi) else fr_input fi)"

definition scheme_suffix :: "frame_kind \<Rightarrow> string" where
  "scheme_suffix kind =
     (case kind of
        Kind_Call Scheme_Staticcall \<Rightarrow> '' [staticcall]''
      | Kind_Call Scheme_Delegatecall \<Rightarrow> '' [delegatecall]''
      | Kind_Call Scheme_Callcode \<Rightarrow> '' [callcode]''
      | _ \<Rightarrow> [])"

definition default_to :: "'a \<Rightarrow> 'a option \<Rightarrow> 'a" where
  "default_to d x = (case x of None \<Rightarrow> d | Some y \<Rightarrow> y)"

definition frame_label :: "trace_env \<Rightarrow> trace_display \<Rightarrow> frame_info \<Rightarrow> string option" where
  "frame_label E td fi =
     (let resolve_addr = (case (fr_code_address fi, fr_address fi) of
            (Some ca, Some a) \<Rightarrow> if ca \<noteq> a then Some ca else fr_address fi
          | _ \<Rightarrow> fr_address fi)
      in map_option (\<lambda>a. default_to (tx_checksum (te_text E) a) (shown_label td a)) resolve_addr)"

definition create_line :: "trace_env \<Rightarrow> trace_display \<Rightarrow> string \<Rightarrow> frame_info \<Rightarrow> string" where
  "create_line E td pre fi =
     (let label = default_to ''<unknown>''
            (opt_or (resolve_code E (td_context td) (fr_output fi))
              (case fr_address fi of None \<Rightarrow> None | Some a \<Rightarrow> shown_label td a));
          addr = (case fr_address fi of None \<Rightarrow> ''unknown'' | Some a \<Rightarrow> dc_address (te_decoder E) a)
      in pre @ ''['' @ dec (unat (fr_gas_used fi)) @ ''] '' @ arrow_right @ '' new '' @ label @ ''@'' @ addr)"

definition call_line :: "trace_env \<Rightarrow> trace_display \<Rightarrow> string \<Rightarrow> frame_info \<Rightarrow> string option" where
  "call_line E td pre fi =
     (let addr = default_to ''unknown'' (frame_label E td fi);
          evmole = (case fr_code_bytes fi of
              None \<Rightarrow> None
            | Some code \<Rightarrow> td_evmole td (tx_keccak (te_text E) code))
      in map_option
           (\<lambda>(name, args).
              pre @ ''['' @ dec (unat (fr_gas_used fi)) @ ''] '' @ addr @ ''::''
              @ default_to (selector_text E fi) name @ ''('' @ args @ '')'' @ scheme_suffix (fr_kind fi))
           (decode_trace_call (te_text E) (te_decoder E) (te_fuel E) (tc_decode (td_context td))
              (fr_input fi) evmole))"

definition head_line :: "trace_env \<Rightarrow> trace_display \<Rightarrow> string \<Rightarrow> frame_info \<Rightarrow> string option" where
  "head_line E td pre fi =
     (if fr_kind fi = Kind_Create then Some (create_line E td pre fi) else call_line E td pre fi)"

subsection \<open>The call context\<close>

definition caller_label :: "trace_env \<Rightarrow> trace_display \<Rightarrow> address \<Rightarrow> string" where
  "caller_label E td a =
     (case shown_label td a of
        Some s \<Rightarrow> s @ '' ['' @ tx_checksum (te_text E) a @ '']''
      | None \<Rightarrow> tx_checksum (te_text E) a)"

definition context_lines ::
  "trace_env \<Rightarrow> trace_display \<Rightarrow> string \<Rightarrow> string \<Rightarrow> frame_info \<Rightarrow> frame_info option \<Rightarrow> string list" where
  "context_lines E td meta detail fi parent =
     (let TX = te_text E;
          sender = detail @ ''@ msg.sender: '' @ caller_label E td (fr_caller fi);
          val = detail @ ''@ msg.value: '' @ tx_u256 TX (fr_value fi);
          timestamp = detail @ ''@ block.timestamp: '' @ tx_u256 TX (fr_timestamp fi);
          number = detail @ ''@ block.number: '' @ tx_u256 TX (fr_number fi)
      in case parent of
           None \<Rightarrow> [meta @ '' call context:'', sender, val, timestamp, number]
         | Some p \<Rightarrow>
             let changes =
               (if fr_caller fi \<noteq> fr_caller p then [sender] else [])
               @ (if fr_value fi \<noteq> fr_value p then [val] else [])
               @ (if fr_timestamp fi \<noteq> fr_timestamp p then [timestamp] else [])
               @ (if fr_number fi \<noteq> fr_number p then [number] else [])
             in if changes = [] then [] else (meta @ '' call context changes:'') # changes)"

subsection \<open>Logs and storage changes\<close>

definition log_lines :: "trace_env \<Rightarrow> trace_display \<Rightarrow> string \<Rightarrow> evm_log list \<Rightarrow> string list" where
  "log_lines E td pre logs =
     List.map_filter (\<lambda>l.
       if decode_log_event (te_text E) (te_decoder E) (tc_decode (td_context td)) l \<noteq> None then None
       else case decode_trace_event (te_text E) (te_decoder E) (tc_decode (td_context td)) l of
         (name, args) \<Rightarrow> Some (pre @ ''emit '' @ default_to ''Log'' name @ ''('' @ args @ '')'')) logs"

definition code_name :: "trace_env \<Rightarrow> trace_display \<Rightarrow> frame_info \<Rightarrow> string option" where
  "code_name E td fi =
     (case fr_code_bytes fi of
        None \<Rightarrow> None
      | Some code \<Rightarrow>
          (case resolve_code E (td_context td) code of
             None \<Rightarrow> None
           | Some n \<Rightarrow> if has_storage (tc_storage (td_context td)) n then Some n else None))"

definition storage_owner :: "trace_env \<Rightarrow> trace_display \<Rightarrow> frame_info \<Rightarrow> frame_info option \<Rightarrow> string option" where
  "storage_owner E td fi parent =
     opt_or
       (opt_or (code_name E td fi) (case parent of None \<Rightarrow> None | Some p \<Rightarrow> code_name E td p))
       (case fr_address fi of None \<Rightarrow> None | Some a \<Rightarrow> shown_label td a)"

definition look_option :: "'a look \<Rightarrow> 'a option option" where
  "look_option r = (case r of Fails \<Rightarrow> None | Returns x \<Rightarrow> Some x | Falls_Through \<Rightarrow> Some None)"

definition change_line ::
  "trace_text \<Rightarrow> string \<Rightarrow> string \<Rightarrow> storage_type option \<Rightarrow> storage_change \<Rightarrow> nat \<Rightarrow> nat \<Rightarrow> string option" where
  "change_line TX pre name ty ch offset nbytes =
     do {
       old \<leftarrow> (case ty of None \<Rightarrow> Some (tx_u256 TX (sg_old ch))
         | Some t \<Rightarrow> format_storage TX t (sg_old ch) offset nbytes);
       new \<leftarrow> (case ty of None \<Rightarrow> Some (tx_u256 TX (sg_new ch))
         | Some t \<Rightarrow> format_storage TX t (sg_new ch) offset nbytes);
       Some (pre @ ''@ '' @ name @ '': '' @ old @ '' -> '' @ new)
     }"

fun all_some :: "'a option list \<Rightarrow> 'a list option" where
  "all_some [] = Some []"
| "all_some (x # xs) = do { a \<leftarrow> x; as \<leftarrow> all_some xs; Some (a # as) }"

definition change_lines ::
  "trace_env \<Rightarrow> trace_display \<Rightarrow> string \<Rightarrow> frame_info \<Rightarrow> frame_info option \<Rightarrow> storage_change \<Rightarrow> string list option" where
  "change_lines E td pre fi parent ch =
     (let TX = te_text E;
          sx = tc_storage (td_context td);
          slots = (case fr_address fi of None \<Rightarrow> None | Some a \<Rightarrow> tr_slots (td_trace td) a);
          keys = (case fr_address fi of None \<Rightarrow> [] | Some a \<Rightarrow> te_key_order E a);
          arrays = (case fr_address fi of None \<Rightarrow> [] | Some a \<Rightarrow> te_array_order E a);
          owner = storage_owner E td fi parent;
          packed = (case owner of None \<Rightarrow> []
            | Some c \<Rightarrow> resolve_storage_changes sx c (sg_slot ch) (sg_old ch) (sg_new ch))
      in if packed = [] then
           do {
             named \<leftarrow> (case owner of
                 None \<Rightarrow> Some None
               | Some c \<Rightarrow>
                   do {
                     name \<leftarrow> look_option (resolve_storage_name TX keys arrays sx c (sg_slot ch) slots);
                     case name of
                       None \<Rightarrow> Some None
                     | Some l \<Rightarrow>
                         map_option (\<lambda>ty. Some (l, ty))
                           (look_option (resolve_storage_type TX keys arrays sx c (sg_slot ch) slots))
                   });
             line \<leftarrow> (case named of
                 None \<Rightarrow> change_line TX pre (tx_u256 TX (sg_slot ch)) None ch 0 32
               | Some (l, ty) \<Rightarrow> change_line TX pre l ty ch 0 32);
             Some [line]
           }
         else all_some (map (\<lambda>i. change_line TX pre (ch_name i) (Some (ch_ty i)) ch (ch_offset i) (ch_bytes i)) packed))"

definition storage_lines ::
  "trace_env \<Rightarrow> trace_display \<Rightarrow> string \<Rightarrow> string \<Rightarrow> frame_info \<Rightarrow> frame_info option \<Rightarrow> string list option" where
  "storage_lines E td pre detail fi parent =
     (let actual = (if td_compact td then []
            else filter (\<lambda>c. sg_old c \<noteq> sg_new c) (fr_storage_changes fi))
      in if actual = [] then Some []
         else map_option (\<lambda>ls. (pre @ '' storage changes:'') # concat ls)
                (all_some (map (change_lines E td detail fi parent) actual)))"

subsection \<open>Results\<close>

definition is_empty_code_call :: "trace_env \<Rightarrow> frame_info \<Rightarrow> bool" where
  "is_empty_code_call E fi \<longleftrightarrow>
     fr_kind fi \<noteq> Kind_Create \<and> fr_code_bytes fi = None
     \<and> (case opt_or (fr_address fi) (fr_code_address fi) of
          None \<Rightarrow> False
        | Some a \<Rightarrow> \<not> te_precompile E a)"

definition empty_code_revert_reason :: "trace_env \<Rightarrow> call_frame \<Rightarrow> string option" where
  "empty_code_revert_reason E fr =
     (if fr_output (frame_info fr) \<noteq> [] then None
      else case find (is_empty_code_call E) (rev (map frame_info (frame_children fr))) of
        None \<Rightarrow> None
      | Some child \<Rightarrow>
          map_option (\<lambda>a. ''no contract code at '' @ tx_checksum (te_text E) a)
            (opt_or (fr_address child) (fr_code_address child)))"

definition success_text :: "trace_env \<Rightarrow> trace_display \<Rightarrow> frame_info \<Rightarrow> string" where
  "success_text E td fi =
     (if fr_kind fi = Kind_Create then
        if 0 < length (fr_output fi)
        then ''[return] '' @ dec (length (fr_output fi)) @ '' bytes of code'' else ''[stop]''
      else
        let out = (case decode_trace_return (te_text E) (te_decoder E) (tc_decode (td_context td)) (fr_input fi) (fr_output fi) of
              Some decoded \<Rightarrow> decoded
            | None \<Rightarrow> if fr_output fi = [] then [] else ''0x'' @ tx_hex (te_text E) (fr_output fi))
        in if out = [] then (if is_empty_code_call E fi then ''[stop] (no code)'' else ''[stop]'')
           else ''[return] '' @ out)"

definition result_line :: "trace_env \<Rightarrow> trace_display \<Rightarrow> string \<Rightarrow> call_frame \<Rightarrow> string" where
  "result_line E td pre fr =
     (let fi = frame_info fr in
      pre @ arrow_left @ '' ''
      @ (if fr_success fi then success_text E td fi
         else ''[revert] '' @ default_to (decode_trace_revert (te_text E) (te_decoder E) (tc_decode (td_context td)) (fr_output fi))
                (empty_code_revert_reason E fr)))"

subsection \<open>Frames\<close>

definition frame_prefix :: "nat list \<Rightarrow> nat option \<Rightarrow> string" where
  "frame_prefix cols call_index =
     (if cols \<noteq> [] then tree_prefix (butlast cols) (last cols) @ branch
      else case call_index of None \<Rightarrow> [] | Some i \<Rightarrow> ''['' @ dec i @ ''] '')"

definition name_column :: "nat list \<Rightarrow> string \<Rightarrow> frame_info \<Rightarrow> nat" where
  "name_column cols pre fi =
     (let gas_len = length (dec (unat (fr_gas_used fi)))
      in if cols \<noteq> [] then last cols + gas_len + 6 else length pre + gas_len + 3)"

fun write_frame ::
  "trace_env \<Rightarrow> trace_display \<Rightarrow> frame_info option \<Rightarrow> nat list \<Rightarrow> nat option \<Rightarrow> call_frame \<Rightarrow> string list option" where
  "write_frame E td parent cols call_index (Call_Frame fi children) =
     (let pre = frame_prefix cols call_index;
          name_col = name_column cols pre fi;
          at_name = tree_prefix cols name_col;
          meta = at_name @ branch;
          detail = at_name @ bar @ spaces 3
      in do {
        head \<leftarrow> head_line E td pre fi;
        below \<leftarrow> all_some (map (write_frame E td (Some fi) (cols @ [name_col]) None) children);
        changes \<leftarrow> storage_lines E td meta detail fi parent;
        Some ([head] @ (if td_compact td then [] else context_lines E td meta detail fi parent)
          @ concat below @ log_lines E td meta (fr_logs fi) @ changes
          @ [result_line E td (at_name @ corner) (Call_Frame fi children)])
      })"

fun collect_log_events :: "trace_env \<Rightarrow> trace_display \<Rightarrow> call_frame \<Rightarrow> string list" where
  "collect_log_events E td (Call_Frame fi children) =
     List.map_filter (decode_log_event (te_text E) (te_decoder E) (tc_decode (td_context td))) (fr_logs fi)
     @ concat (map (collect_log_events E td) children)"

definition root_lines :: "trace_env \<Rightarrow> trace_display \<Rightarrow> string list option" where
  "root_lines E td =
     (if td_logs_only td then Some []
      else map_option concat
        (all_some (map (\<lambda>(i, root). map_option (\<lambda>ls. (if 0 < i then [[]] else []) @ ls)
             (write_frame E td None [] (Some (i + 1)) root))
           (enumerate 0 (tr_roots (td_trace td))))))"

definition display_lines :: "trace_env \<Rightarrow> trace_display \<Rightarrow> string list option" where
  "display_lines E td =
     (let logs = concat (map (collect_log_events E td) (tr_roots (td_trace td)))
      in map_option
           (\<lambda>ls. ls @ (if logs = [] then []
              else (if td_logs_only td then [[], []] else [[], ''Logs:'']) @ map (\<lambda>l. ''  '' @ l) logs))
           (root_lines E td))"

subsection \<open>Log messages\<close>

text \<open>The logs of a run, in the order they are emitted.\<close>

fun emitted_logs :: "run_item \<Rightarrow> evm_log list" where
  "emitted_logs (Run_Step v) = []"
| "emitted_logs (Run_Log l) = [l]"
| "emitted_logs (Run_Call c items e) = concat (map emitted_logs items)"
| "emitted_logs (Run_Create c items e) = concat (map emitted_logs items)"

definition is_frame_item :: "run_item \<Rightarrow> bool" where
  "is_frame_item x = (case x of Run_Call _ _ _ \<Rightarrow> True | Run_Create _ _ _ \<Rightarrow> True | _ \<Rightarrow> False)"

definition log_message :: "trace_env \<Rightarrow> trace_display \<Rightarrow> evm_log \<Rightarrow> string option" where
  "log_message E td l = decode_log_event (te_text E) (te_decoder E) (tc_decode (td_context td)) l"

lemma map_filter_append [simp]: "List.map_filter f (xs @ ys) = List.map_filter f xs @ List.map_filter f ys"
  by (simp add: List.map_filter_def)

lemma collect_log_events_eq:
  "collect_log_events E td fr =
     List.map_filter (log_message E td) (fr_logs (frame_info fr))
     @ concat (map (collect_log_events E td) (frame_children fr))"
  by (cases fr) (simp add: log_message_def [abs_def])

lemma info_logs [simp]:
  "fr_logs (end_info e fi) = fr_logs fi" "fr_logs (created_info e fi) = fr_logs fi"
  "fr_logs (body_info items fi) = fr_logs fi @ concat (map item_logs items)"
  "fr_logs (call_info d c) = []" "fr_logs (create_info d k) = []"
  by (simp_all add: end_info_def created_info_def body_info_def call_info_def create_info_def split: option.splits)

lemma mset_frames:
  "mset (List.map_filter (log_message E td) (item_logs x))
     + mset (concat (map (collect_log_events E td) (run_frames d x)))
   = mset (List.map_filter (log_message E td) (emitted_logs x))"
proof (induction x arbitrary: d)
  have items: "mset (List.map_filter (log_message E td) (concat (map item_logs items)))
      + mset (concat (map (collect_log_events E td) (concat (map (run_frames d) items))))
     = mset (List.map_filter (log_message E td) (concat (map emitted_logs items)))"
    if "\<And>x d. x \<in> set items \<Longrightarrow> mset (List.map_filter (log_message E td) (item_logs x))
        + mset (concat (map (collect_log_events E td) (run_frames d x)))
       = mset (List.map_filter (log_message E td) (emitted_logs x))" for items d
    using that
  proof (induction items)
    case (Cons y ys)
    from Cons.prems [of y d] Cons.IH [OF Cons.prems] show ?case by (simp add: ac_simps)
  qed (simp add: List.map_filter_def)
  {
    case (Run_Call c its e)
    from items [OF Run_Call, of _ "Suc d"] show ?case
      by (simp add: collect_log_events_eq item_logs_def List.map_filter_def [of _ "[]"])
  next
    case (Run_Create c its e)
    from items [OF Run_Create, of _ "Suc d"] show ?case
      by (simp add: collect_log_events_eq item_logs_def List.map_filter_def [of _ "[]"])
  }
qed (simp_all add: item_logs_def)

lemma mset_roots:
  assumes "\<forall>x \<in> set items. is_frame_item x"
  shows "mset (concat (map (collect_log_events E td) (concat (map (run_frames d) items))))
    = mset (List.map_filter (log_message E td) (concat (map emitted_logs items)))"
  using assms
proof (induction items)
  case (Cons x xs)
  then have "item_logs x = []" by (auto simp: is_frame_item_def item_logs_def split: run_item.splits)
  with Cons mset_frames [of E td x d] show ?case
    by (simp add: List.map_filter_def [of _ "[]"])
qed (simp add: List.map_filter_def)

text \<open>
  C19: The log view of a trace loses nothing and adds nothing. For every run of calls and creations, the
  view prints, below two empty lines, one line for every log of the run that decodes as a log
  message, however deep the frame that emitted it, and prints nothing at all when there is none;
  it never panics. (The lines are grouped by frame, outer frames first, so only their order can
  differ from the order of emission.)
\<close>

theorem log_view_is_complete:
  assumes "\<forall>x \<in> set items. is_frame_item x"
  shows "\<exists>messages.
    display_lines E (display_logs_with E cx (into_trace
        (fold (on_trace_event (te_text E)) (concat (map run_events items)) trace_inspector_new)))
      = Some (if messages = [] then [] else [[], []] @ map (\<lambda>m. ''  '' @ m) messages)
    \<and> mset messages = mset (List.map_filter
        (decode_log_event (te_text E) (te_decoder E) (tc_decode cx)) (concat (map emitted_logs items)))"
proof -
  let ?st = "fold (on_trace_event (te_text E)) (concat (map run_events items)) trace_inspector_new"
  let ?td = "display_logs_with E cx (into_trace ?st)"
  have roots: "tr_roots (td_trace ?td) = concat (map (run_frames 0) items)"
    using absorb_items [OF absorb_run, of "te_text E" items trace_inspector_new]
    by (simp add: absorb_all_def trace_inspector_new_def into_trace_def display_logs_with_def display_impl_def)
  have ctx: "td_context ?td = cx" "td_logs_only ?td"
    by (simp_all add: display_logs_with_def display_impl_def)
  have message: "log_message E ?td = decode_log_event (te_text E) (te_decoder E) (tc_decode cx)"
    by (simp add: log_message_def [abs_def] ctx)
  from mset_roots [OF assms, of E ?td 0] show ?thesis
    by (intro exI [of _ "concat (map (collect_log_events E ?td) (concat (map (run_frames 0) items)))"])
       (simp add: display_lines_def root_lines_def ctx roots message Let_def)
qed

definition demo_decoder :: abi_decoder where
  "demo_decoder = \<lparr>dc_params = (\<lambda>_ _. None), dc_value = (\<lambda>_ _. Some (VString ''hi'')),
     dc_sequence = (\<lambda>_ _. None), dc_event_ok = (\<lambda>_ _ _. False), dc_event = (\<lambda>_ _ _. None),
     dc_revert = (\<lambda>_. None), dc_panic = (\<lambda>_. None), dc_address = (\<lambda>_. ''a''), dc_debug = (\<lambda>_. [])\<rparr>"

definition demo_trace_env :: trace_env where
  "demo_trace_env = \<lparr>te_text = demo_trace_text, te_decoder = demo_decoder, te_fuel = 0,
     te_precompile = (\<lambda>_. False), te_evmole = (\<lambda>_ _. None), te_key_order = (\<lambda>_. []), te_array_order = (\<lambda>_. [])\<rparr>"

definition demo_run :: run_item where
  "demo_run = Run_Call
     \<lparr>cd_scheme = Scheme_Call, cd_target = 1, cd_code_address = 1, cd_known_code = None, cd_caller = 2,
      cd_value = 0, cd_input = [], cd_timestamp = 0, cd_number = 0\<rparr>
     [Run_Log \<lparr>log_address = 1, log_topics = [log_string_topic], log_data = []\<rparr>]
     \<lparr>ed_gas = 0, ed_ok = True, ed_output = [], ed_address = None\<rparr>"

theorem log_view_is_complete_witness:
  "display_lines demo_trace_env (display_logs_with demo_trace_env default_context (into_trace
     (fold (on_trace_event (te_text demo_trace_env)) (concat (map run_events [demo_run])) trace_inspector_new)))
   = Some [[], [], ''  hi'']"
proof -
  have logs: "List.map_filter (decode_log_event (te_text demo_trace_env) (te_decoder demo_trace_env) (tc_decode default_context))
      (concat (map emitted_logs [demo_run])) = [''hi'']"
    by (simp add: demo_run_def demo_trace_env_def demo_decoder_def decode_log_event_def List.map_filter_def)
  have "\<forall>x \<in> set [demo_run]. is_frame_item x" by (simp add: is_frame_item_def demo_run_def)
  from log_view_is_complete [OF this, of demo_trace_env default_context] show ?thesis
    unfolding logs by auto
qed

end
