(* ===== verification/Source_Text.thy ===== *)
theory Source_Text
  imports Prelude
begin

section \<open>Text and paths\<close>

text \<open>
  What the report and the compiler front end use of Rust's strings and paths. A string is its UTF-8
  bytes; a path is its text, two paths are the same when their components are.
\<close>

subsection \<open>Splitting and joining\<close>

fun split_on :: "char \<Rightarrow> string \<Rightarrow> string list" where
  "split_on c [] = [[]]"
| "split_on c (x # xs) =
     (if x = c then [] # split_on c xs
      else case split_on c xs of [] \<Rightarrow> [[x]] | p # ps \<Rightarrow> (x # p) # ps)"

fun join_on :: "char \<Rightarrow> string list \<Rightarrow> string" where
  "join_on c [] = []"
| "join_on c [p] = p"
| "join_on c (p # q # ps) = p @ c # join_on c (q # ps)"

lemma split_on_no: "c \<notin> set p \<Longrightarrow> split_on c p = [p]"
  by (induction p) auto

lemma split_on_append: "c \<notin> set p \<Longrightarrow> split_on c (p @ c # s) = p # split_on c s"
  by (induction p) auto

lemma split_on_join: "ps \<noteq> [] \<Longrightarrow> \<forall>p \<in> set ps. c \<notin> set p \<Longrightarrow> split_on c (join_on c ps) = ps"
  by (induction c ps rule: join_on.induct) (auto simp: split_on_no split_on_append)

lemma join_on_chars: "x \<in> set (join_on c ps) \<Longrightarrow> x = c \<or> (\<exists>p \<in> set ps. x \<in> set p)"
  by (induction c ps rule: join_on.induct) auto

subsection \<open>Lines and white space\<close>

definition newline :: char where "newline = CHR 0x0A"

definition strip_cr :: "string \<Rightarrow> string" where
  "strip_cr s = (if s \<noteq> [] \<and> last s = CHR 0x0D then butlast s else s)"

text \<open>\<open>str::lines\<close>: the text after the last newline is a line only when it is not empty.\<close>

definition content_lines :: "string \<Rightarrow> string list" where
  "content_lines s =
     (let ps = split_on newline s
      in map strip_cr (butlast ps) @ (if last ps = [] then [] else [last ps]))"

text \<open>The UTF-8 forms of the characters with the Unicode property \<open>White_Space\<close>.\<close>

definition white_space :: "string list" where
  "white_space =
     [[CHR 0x09], [CHR 0x0A], [CHR 0x0B], [CHR 0x0C], [CHR 0x0D], [CHR 0x20], [CHR 0xC2, CHR 0x85],
      [CHR 0xC2, CHR 0xA0], [CHR 0xE1, CHR 0x9A, CHR 0x80], [CHR 0xE2, CHR 0x80, CHR 0x80],
      [CHR 0xE2, CHR 0x80, CHR 0x81], [CHR 0xE2, CHR 0x80, CHR 0x82], [CHR 0xE2, CHR 0x80, CHR 0x83],
      [CHR 0xE2, CHR 0x80, CHR 0x84], [CHR 0xE2, CHR 0x80, CHR 0x85], [CHR 0xE2, CHR 0x80, CHR 0x86],
      [CHR 0xE2, CHR 0x80, CHR 0x87], [CHR 0xE2, CHR 0x80, CHR 0x88], [CHR 0xE2, CHR 0x80, CHR 0x89],
      [CHR 0xE2, CHR 0x80, CHR 0x8A], [CHR 0xE2, CHR 0x80, CHR 0xA8], [CHR 0xE2, CHR 0x80, CHR 0xA9],
      [CHR 0xE2, CHR 0x80, CHR 0xAF], [CHR 0xE2, CHR 0x81, CHR 0x9F], [CHR 0xE3, CHR 0x80, CHR 0x80]]"

function strip_front :: "string list \<Rightarrow> string \<Rightarrow> string" where
  "strip_front ws s =
     (case find (\<lambda>w. w \<noteq> [] \<and> starts_with s w) ws of
        None \<Rightarrow> s
      | Some w \<Rightarrow> strip_front ws (drop (length w) s))"
  by pat_completeness auto
termination
proof (relation "measure (\<lambda>(ws, s). length s)")
  fix ws :: "string list" and s w
  assume "find (\<lambda>w. w \<noteq> [] \<and> starts_with s w) ws = Some w"
  then have "w \<noteq> [] \<and> starts_with s w" by (auto simp: find_Some_iff)
  then show "((ws, drop (length w) s), (ws, s)) \<in> measure (\<lambda>(ws, s). length s)"
    by (cases s) (auto simp: starts_with_def)
qed simp

declare strip_front.simps [simp del]

definition trim_text :: "string \<Rightarrow> string" where
  "trim_text s = rev (strip_front (map rev white_space) (rev (strip_front white_space s)))"

text \<open>No blank at the front; the ends of a text are the fronts of its reverse.\<close>

definition blank_free :: "string list \<Rightarrow> string \<Rightarrow> bool" where
  "blank_free ws s \<longleftrightarrow> (\<forall>w \<in> set ws. w \<noteq> [] \<longrightarrow> \<not> starts_with s w)"

definition trimmed :: "string \<Rightarrow> bool" where
  "trimmed s \<longleftrightarrow> blank_free white_space s \<and> blank_free (map rev white_space) (rev s)"

lemma find_in_set: "find P xs = Some x \<Longrightarrow> x \<in> set xs \<and> P x"
  by (induction xs) (auto split: if_splits)

lemma strip_front_done: "blank_free ws s \<Longrightarrow> strip_front ws s = s"
  by (subst strip_front.simps) (auto simp: blank_free_def find_None_iff split: option.splits dest: find_in_set)

lemma blank_free_strip_front: "blank_free ws (strip_front ws s)"
proof (induction ws s rule: strip_front.induct)
  case (1 ws s)
  show ?case
  proof (cases "find (\<lambda>w. w \<noteq> [] \<and> starts_with s w) ws")
    case None
    then have "blank_free ws s" by (auto simp: blank_free_def find_None_iff)
    then show ?thesis by (simp add: strip_front_done)
  next
    case (Some w)
    with 1 show ?thesis by (subst strip_front.simps) simp
  qed
qed

lemma strip_front_suffix: "\<exists>p. s = p @ strip_front ws s"
proof (induction ws s rule: strip_front.induct)
  case (1 ws s)
  show ?case
  proof (cases "find (\<lambda>w. w \<noteq> [] \<and> starts_with s w) ws")
    case None
    then show ?thesis by (subst strip_front.simps) simp
  next
    case (Some w)
    with 1 obtain p where "drop (length w) s = p @ strip_front ws (drop (length w) s)" by blast
    then have "s = (take (length w) s @ p) @ strip_front ws (drop (length w) s)"
      by (metis append.assoc append_take_drop_id)
    moreover have "strip_front ws s = strip_front ws (drop (length w) s)"
      using Some by (subst strip_front.simps) simp
    ultimately show ?thesis by metis
  qed
qed

lemma blank_free_prefix: "blank_free ws (p @ q) \<Longrightarrow> blank_free ws p"
  by (auto simp: blank_free_def starts_with_iff)

lemma blank_free_extend:
  assumes "blank_free ws p" and "\<forall>w \<in> set ws. c \<notin> set w"
  shows "blank_free ws (p @ c # q)"
  unfolding blank_free_def
proof (intro ballI impI notI)
  fix w assume w: "w \<in> set ws" "w \<noteq> []" "starts_with (p @ c # q) w"
  then obtain t where t: "p @ c # q = w @ t" by (auto simp: starts_with_iff)
  then consider u where "p = w @ u" | u where "w = p @ c # u"
    by (auto simp: append_eq_append_conv2 Cons_eq_append_conv)
  then show False
  proof cases
    case 1
    with w assms(1) show False by (auto simp: blank_free_def)
  next
    case 2
    with w(1) assms(2) show False by auto
  qed
qed

lemma trimmed_trim_text: "trimmed (trim_text s)"
proof -
  let ?v = "strip_front white_space s"
  have rear: "blank_free (map rev white_space) (rev (trim_text s))"
    by (simp add: trim_text_def blank_free_strip_front)
  obtain p where "rev ?v = p @ rev (trim_text s)"
    using strip_front_suffix [of "rev ?v" "map rev white_space"] by (auto simp: trim_text_def)
  then have "?v = trim_text s @ rev p" by (metis rev_append rev_rev_ident)
  with blank_free_strip_front [of white_space s] blank_free_prefix have "blank_free white_space (trim_text s)"
    by metis
  with rear show ?thesis by (simp add: trimmed_def)
qed

lemma trim_text_trimmed: "trimmed s \<Longrightarrow> trim_text s = s"
  by (simp add: trimmed_def trim_text_def strip_front_done)

lemma trim_text_parts: "\<exists>p q. s = p @ trim_text s @ q"
proof -
  obtain p where p: "s = p @ strip_front white_space s" using strip_front_suffix by blast
  obtain q where "rev (strip_front white_space s) = q @ rev (trim_text s)"
    using strip_front_suffix [of "rev (strip_front white_space s)" "map rev white_space"]
    by (auto simp: trim_text_def)
  then have "strip_front white_space s = trim_text s @ rev q" by (metis rev_append rev_rev_ident)
  with p show ?thesis by metis
qed

text \<open>The separators the parsers use are in no blank.\<close>

lemma separators_not_blank:
  assumes "c \<in> set '':/=''"
  shows "\<forall>w \<in> set white_space. c \<notin> set w" "\<forall>w \<in> set (map rev white_space). c \<notin> set w"
  using assms by (auto simp: white_space_def)

lemma trimmed_around:
  assumes "trimmed (p @ s)" and "trimmed (t @ q)" and "c \<in> set '':/=''"
  shows "trimmed (p @ c # q)"
proof -
  have "blank_free white_space p" using assms(1) by (auto simp: trimmed_def intro: blank_free_prefix)
  moreover have "blank_free (map rev white_space) (rev q)"
    using assms(2) by (auto simp: trimmed_def intro: blank_free_prefix)
  ultimately show ?thesis
    using blank_free_extend separators_not_blank [OF assms(3)] by (simp add: trimmed_def)
qed

subsection \<open>Paths\<close>

datatype path_component =
    Root_Dir
  | Cur_Dir
  | Parent_Dir
  | Normal_Dir string

text \<open>\<open>Path::components\<close>: repeated separators and all but a leading \<open>.\<close> are dropped.\<close>

definition name_component :: "string \<Rightarrow> path_component" where
  "name_component c = (if c = ''..'' then Parent_Dir else Normal_Dir c)"

definition path_components :: "string \<Rightarrow> path_component list" where
  "path_components p =
     (let parts = filter (\<lambda>c. c \<noteq> []) (split_on CHR ''/'' p);
          root = starts_with p ''/''
      in (if root then [Root_Dir] else [])
         @ (if \<not> root \<and> parts \<noteq> [] \<and> hd parts = ''.'' then [Cur_Dir] else [])
         @ map name_component (filter (\<lambda>c. c \<noteq> ''.'') parts))"

fun component_text :: "path_component \<Rightarrow> string" where
  "component_text Root_Dir = ''/''"
| "component_text Cur_Dir = ''.''"
| "component_text Parent_Dir = ''..''"
| "component_text (Normal_Dir c) = c"

text \<open>\<open>Path::join\<close>: an absolute path replaces the first one.\<close>

definition path_join :: "string \<Rightarrow> string \<Rightarrow> string" where
  "path_join p q =
     (if starts_with q ''/'' then q
      else if p = [] \<or> last p = CHR ''/'' then p @ q
      else p @ ''/'' @ q)"

definition components_path :: "path_component list \<Rightarrow> string" where
  "components_path cs = fold (\<lambda>c p. path_join p (component_text c)) cs []"

text \<open>\<open>Path\<close> is ordered by its components: the root, \<open>.\<close>, \<open>..\<close>, then names.\<close>

fun component_key :: "path_component \<Rightarrow> nat \<times> string" where
  "component_key Root_Dir = (0, [])"
| "component_key Cur_Dir = (1, [])"
| "component_key Parent_Dir = (2, [])"
| "component_key (Normal_Dir c) = (3, c)"

definition path_key :: "string \<Rightarrow> (nat \<times> string) list" where
  "path_key p = map component_key (path_components p)"

end
