(* ===== verification/Report_Source_Map.thy ===== *)
theory Report_Source_Map
  imports Trace_Types Source_Text
begin

section \<open>Source maps\<close>

text \<open>
  \<open>evm/coverage/source_map.rs\<close> and the first half of \<open>evm/coverage/reporter.rs\<close>: the source maps of solc,
  which leave out the fields that do not change, the source position of every instruction of a
  bytecode, and the line of a position. A jump type is the first byte of its field.
\<close>

definition parse_isize :: "string \<Rightarrow> int option" where
  "parse_isize s =
     (case s of
        [] \<Rightarrow> None
      | c # cs \<Rightarrow>
          let t = (if c = CHR ''+'' \<or> c = CHR ''-'' then cs else s) in
          if t = [] then None
          else case dec_value 0 t of
            None \<Rightarrow> None
          | Some n \<Rightarrow>
              if c = CHR ''-'' then (if n \<le> 2 ^ 63 then Some (- int n) else None)
              else if n < 2 ^ 63 then Some (int n) else None)"

record source_entry =
  sm_offset :: nat
  sm_length :: nat
  sm_source :: int
  sm_jump :: char
  sm_depth :: nat

definition source_entry_default :: source_entry where
  "source_entry_default = \<lparr>sm_offset = 0, sm_length = 0, sm_source = 0, sm_jump = CHR 0x00, sm_depth = 0\<rparr>"

definition part :: "nat \<Rightarrow> string list \<Rightarrow> string" where
  "part i parts = (if i < length parts then parts ! i else [])"

definition unless_empty :: "string \<Rightarrow> 'a \<Rightarrow> 'a \<Rightarrow> 'a" where
  "unless_empty s new old = (if s = [] then old else new)"

definition or_zero :: "'a::zero option \<Rightarrow> 'a" where
  "or_zero x = (case x of None \<Rightarrow> 0 | Some n \<Rightarrow> n)"

definition apply_segment :: "string \<Rightarrow> source_entry \<Rightarrow> source_entry" where
  "apply_segment segment current =
     (if segment = [] then current
      else
        let parts = split_on CHR '':'' segment in
        \<lparr>sm_offset = unless_empty (part 0 parts) (or_zero (parse_usize (part 0 parts))) (sm_offset current),
         sm_length = unless_empty (part 1 parts) (or_zero (parse_usize (part 1 parts))) (sm_length current),
         sm_source = unless_empty (part 2 parts) (or_zero (parse_isize (part 2 parts))) (sm_source current),
         sm_jump = unless_empty (part 3 parts) (hd (part 3 parts)) (sm_jump current),
         sm_depth = unless_empty (part 4 parts) (or_zero (parse_usize (part 4 parts))) (sm_depth current)\<rparr>)"

fun apply_segments :: "string list \<Rightarrow> source_entry \<Rightarrow> source_entry list" where
  "apply_segments [] current = []"
| "apply_segments (s # ss) current =
     (let next_entry = apply_segment s current in next_entry # apply_segments ss next_entry)"

definition parse_source_map :: "string \<Rightarrow> source_entry list" where
  "parse_source_map s = (if s = [] then [] else apply_segments (split_on CHR '';'' s) source_entry_default)"

subsection \<open>Positions of instructions\<close>

definition push_size :: "u8 \<Rightarrow> nat" where
  "push_size opcode = (if 0x60 \<le> opcode \<and> opcode \<le> 0x7f then unat (opcode - 0x60 + 1) else 0)"

function pc_loop ::
  "bytes \<Rightarrow> source_entry list \<Rightarrow> nat \<Rightarrow> nat \<Rightarrow> source_entry option list \<Rightarrow> source_entry option list" where
  "pc_loop code source_map pc idx result =
     (if pc < length code then
        pc_loop code source_map (pc + (1 + push_size (code ! pc))) (idx + 1)
          (if idx < length source_map then result[pc := Some (source_map ! idx)] else result)
      else result)"
  by pat_completeness auto
termination
  by (relation "measure (\<lambda>(code, source_map, pc, idx, result). length code - pc)") auto

declare pc_loop.simps [simp del]

definition build_pc_to_source_map :: "bytes \<Rightarrow> source_entry list \<Rightarrow> source_entry option list" where
  "build_pc_to_source_map code source_map = pc_loop code source_map 0 0 (replicate (length code) None)"

definition offset_to_line :: "string \<Rightarrow> nat \<Rightarrow> nat" where
  "offset_to_line content offset =
     (let safe_offset = min offset (length content);
          line = length (filter (\<lambda>b. b = newline) (take safe_offset content)) + 1
      in if safe_offset = length content \<and> content \<noteq> [] \<and> last content = newline then line - 1 else line)"

subsection \<open>The instructions of a bytecode\<close>

function instruction_starts :: "bytes \<Rightarrow> nat \<Rightarrow> nat list" where
  "instruction_starts code pc =
     (if pc < length code then pc # instruction_starts code (pc + (1 + push_size (code ! pc))) else [])"
  by pat_completeness auto
termination
  by (relation "measure (\<lambda>(code, pc). length code - pc)") auto

declare instruction_starts.simps [simp del]

lemma starts_bounds: "p \<in> set (instruction_starts code pc) \<Longrightarrow> pc \<le> p \<and> p < length code"
proof (induction code pc rule: instruction_starts.induct)
  case (1 code pc)
  show ?case
  proof (cases "pc < length code")
    case True
    with 1 show ?thesis by (subst (asm) (2) instruction_starts.simps) auto
  next
    case False
    with 1(2) show ?thesis by (subst (asm) instruction_starts.simps) simp
  qed
qed

lemma length_pc_loop: "length (pc_loop code sm pc idx res) = length res"
proof (induction code sm pc idx res rule: pc_loop.induct)
  case (1 code sm pc idx res)
  then show ?case by (subst pc_loop.simps) simp
qed

lemma pc_loop_before: "p < pc \<Longrightarrow> pc_loop code sm pc idx res ! p = res ! p"
proof (induction code sm pc idx res rule: pc_loop.induct)
  case (1 code sm pc idx res)
  then show ?case by (subst pc_loop.simps) simp
qed

lemma pc_loop_other: "p \<notin> set (instruction_starts code pc) \<Longrightarrow> pc_loop code sm pc idx res ! p = res ! p"
proof (induction code sm pc idx res rule: pc_loop.induct)
  case (1 code sm pc idx res)
  show ?case
  proof (cases "pc < length code")
    case True
    with 1(2) have "p \<noteq> pc" "p \<notin> set (instruction_starts code (pc + (1 + push_size (code ! pc))))"
      by (simp_all add: instruction_starts.simps [of code pc])
    with True 1(1) show ?thesis by (subst pc_loop.simps) simp
  qed (subst pc_loop.simps, simp)
qed

lemma pc_loop_start:
  assumes "i < length (instruction_starts code pc)" and "length res = length code"
  shows "pc_loop code sm pc idx res ! (instruction_starts code pc ! i)
    = (if idx + i < length sm then Some (sm ! (idx + i)) else res ! (instruction_starts code pc ! i))"
  using assms
proof (induction code sm pc idx res arbitrary: i rule: pc_loop.induct)
  case (1 code sm pc idx res)
  have pc: "pc < length code" using 1(2) by (rule contrapos_pp) (simp add: instruction_starts.simps)
  let ?n = "pc + (1 + push_size (code ! pc))"
  let ?r = "if idx < length sm then res[pc := Some (sm ! idx)] else res"
  have starts: "instruction_starts code pc = pc # instruction_starts code ?n"
    using pc by (subst instruction_starts.simps) simp
  have loop: "pc_loop code sm pc idx res = pc_loop code sm ?n (idx + 1) ?r"
    using pc by (subst pc_loop.simps) simp
  show ?case
  proof (cases i)
    case 0
    then show ?thesis using pc 1(3) by (simp add: loop starts pc_loop_before)
  next
    case (Suc k)
    then have k: "k < length (instruction_starts code ?n)" using 1(2) starts by simp
    then have "instruction_starts code ?n ! k \<in> set (instruction_starts code ?n)" by simp
    then have "instruction_starts code ?n ! k \<noteq> pc" using starts_bounds by fastforce
    with 1(1) [OF pc k] 1(3) Suc show ?thesis by (simp add: loop starts)
  qed
qed

text \<open>
  Every instruction gets its own source position. In the map from program counters, the i-th
  instruction of a bytecode has the i-th entry of the source map (or none when the source map is
  shorter), and the bytes pushed by a PUSH instruction have no entry.
\<close>

theorem instructions_get_their_entries:
  "length (build_pc_to_source_map code sm) = length code
   \<and> (\<forall>i < length (instruction_starts code 0).
        build_pc_to_source_map code sm ! (instruction_starts code 0 ! i)
          = (if i < length sm then Some (sm ! i) else None))
   \<and> (\<forall>pc < length code. pc \<notin> set (instruction_starts code 0) \<longrightarrow> build_pc_to_source_map code sm ! pc = None)"
proof (intro conjI allI impI)
  fix i assume i: "i < length (instruction_starts code 0)"
  then have "instruction_starts code 0 ! i \<in> set (instruction_starts code 0)" by simp
  then have "instruction_starts code 0 ! i < length code" by (simp add: starts_bounds)
  with pc_loop_start [OF i] show "build_pc_to_source_map code sm ! (instruction_starts code 0 ! i)
      = (if i < length sm then Some (sm ! i) else None)"
    by (simp add: build_pc_to_source_map_def)
qed (simp_all add: build_pc_to_source_map_def length_pc_loop pc_loop_other)

theorem instructions_get_their_entries_witness:
  "map (map_option sm_offset) (build_pc_to_source_map [0x60, 5, 0x00]
     [source_entry_default, source_entry_default\<lparr>sm_offset := 7\<rparr>]) = [Some 0, None, Some 7]"
proof -
  let ?sm = "[source_entry_default, source_entry_default\<lparr>sm_offset := 7\<rparr>]"
  have starts: "instruction_starts [0x60, 5, 0x00] 0 = [0, 2]"
    by (simp add: instruction_starts.simps push_size_def word_le_nat_alt)
  let ?m = "build_pc_to_source_map [0x60, 5, 0x00] ?sm"
  have len: "length ?m = 3"
    and entries: "\<forall>i < 2. ?m ! ([0, 2] ! i) = Some (?sm ! i)" and none: "?m ! 1 = None"
    using instructions_get_their_entries [of "[0x60, 5, 0x00]" ?sm] by (simp_all add: starts)
  from len have "?m = [?m ! 0, ?m ! 1, ?m ! 2]" by (cases ?m) (auto simp: length_Suc_conv numeral_eq_Suc)
  with entries [rule_format, of 0] entries [rule_format, of 1] none
  show ?thesis by (simp add: source_entry_default_def)
qed

subsection \<open>Compressed source maps decode\<close>

definition show_isize :: "int \<Rightarrow> string" where
  "show_isize i = (if i < 0 then CHR ''-'' # dec (nat (- i)) else dec (nat i))"

lemma dec_head: "dec n = c # cs \<Longrightarrow> c \<in> set ''0123456789''"
  using dec_chars [of n] by auto

lemma parse_show_isize: "- (2 ^ 63) \<le> i \<Longrightarrow> i < 2 ^ 63 \<Longrightarrow> parse_isize (show_isize i) = Some i"
proof (cases "i < 0")
  case True
  assume "- (2 ^ 63) \<le> i"
  with True dec_value_dec [of "nat (- i)"] show ?thesis
    by (simp add: show_isize_def parse_isize_def)
next
  case False
  assume "i < 2 ^ 63"
  obtain c cs where d: "dec (nat i) = c # cs" by (cases "dec (nat i)") auto
  with dec_head have "c \<noteq> CHR ''+''" "c \<noteq> CHR ''-''" by auto
  with d False \<open>i < 2 ^ 63\<close> dec_value_dec [of "nat i"] show ?thesis
    by (simp add: show_isize_def parse_isize_def Let_def del: dec_value.simps)
qed

definition entry_fields :: "source_entry \<Rightarrow> string list" where
  "entry_fields e =
     [dec (sm_offset e), dec (sm_length e), show_isize (sm_source e), [sm_jump e], dec (sm_depth e)]"

definition srcentry_ok :: "source_entry \<Rightarrow> bool" where
  "srcentry_ok e \<longleftrightarrow> sm_offset e < 2 ^ 64 \<and> sm_length e < 2 ^ 64 \<and> sm_depth e < 2 ^ 64
     \<and> - (2 ^ 63) \<le> sm_source e \<and> sm_source e < 2 ^ 63 \<and> sm_jump e \<noteq> CHR '':'' \<and> sm_jump e \<noteq> CHR '';''"

text \<open>
  A segment stands for an entry after another one when each of its fields is the text of the entry's
  field, or is empty or left out at the end where the two entries agree.
\<close>

definition stands_for :: "source_entry \<Rightarrow> string list \<Rightarrow> source_entry \<Rightarrow> bool" where
  "stands_for prev fs e \<longleftrightarrow>
     0 < length fs \<and> length fs \<le> 5
     \<and> (\<forall>i < 5. part i fs = entry_fields e ! i
           \<or> part i fs = [] \<and> entry_fields e ! i = entry_fields prev ! i)"

fun compresses :: "source_entry \<Rightarrow> string list list \<Rightarrow> source_entry list \<Rightarrow> bool" where
  "compresses prev [] [] \<longleftrightarrow> True"
| "compresses prev (fs # fss) (e # es) \<longleftrightarrow> srcentry_ok e \<and> stands_for prev fs e \<and> compresses e fss es"
| "compresses prev _ _ \<longleftrightarrow> False"

lemma dec_inject [simp]: "dec m = dec n \<longleftrightarrow> m = n"
  by (metis dec_value_dec option.inject)

lemma show_isize_inject: "show_isize i = show_isize j \<longleftrightarrow> i = j"
proof -
  have "dec n \<noteq> CHR ''-'' # s" for n s using dec_head [of n "CHR ''-''" s] by auto
  from this this [symmetric] show ?thesis by (auto simp: show_isize_def)
qed

lemma field_chars: "srcentry_ok e \<Longrightarrow> f \<in> set (entry_fields e) \<Longrightarrow> CHR '':'' \<notin> set f \<and> CHR '';'' \<notin> set f"
  using dec_chars by (fastforce simp: entry_fields_def show_isize_def srcentry_ok_def split: if_splits)

lemma part_chars:
  assumes "srcentry_ok e" and "stands_for prev fs e" and "f \<in> set fs"
  shows "CHR '':'' \<notin> set f \<and> CHR '';'' \<notin> set f"
proof -
  from assms(3) obtain i where i: "i < length fs" "f = fs ! i" by (auto simp: in_set_conv_nth)
  with assms(2) have "i < 5" by (simp add: stands_for_def)
  with assms(2) have "part i fs = entry_fields e ! i \<or> part i fs = []" by (auto simp: stands_for_def)
  with i have "f = entry_fields e ! i \<or> f = []" by (simp add: part_def)
  moreover have "entry_fields e ! i \<in> set (entry_fields e)"
    using \<open>i < 5\<close> by (intro nth_mem) (simp add: entry_fields_def)
  ultimately show ?thesis using field_chars [OF assms(1)] by auto
qed

lemma split_fields:
  assumes "srcentry_ok e" and "stands_for prev fs e"
  shows "split_on CHR '':'' (join_on CHR '':'' fs) = fs"
  using assms part_chars [OF assms] by (intro split_on_join) (auto simp: stands_for_def)

lemma apply_stands_for:
  assumes "srcentry_ok e" and "stands_for prev fs e"
  shows "apply_segment (join_on CHR '':'' fs) prev = e"
proof -
  have parts: "part i fs = entry_fields e ! i \<or> part i fs = [] \<and> entry_fields e ! i = entry_fields prev ! i"
    if "i < 5" for i using assms(2) that by (simp add: stands_for_def)
  note p = parts [of 0] parts [of 1] parts [of 2] parts [of 3] parts [of 4]
  have nums: "parse_usize (dec (sm_offset e)) = Some (sm_offset e)"
    "parse_usize (dec (sm_length e)) = Some (sm_length e)"
    "parse_isize (show_isize (sm_source e)) = Some (sm_source e)"
    "parse_usize (dec (sm_depth e)) = Some (sm_depth e)"
    using assms(1) by (simp_all add: srcentry_ok_def parse_usize_dec parse_show_isize)
  have shown: "show_isize i \<noteq> []" "[] \<noteq> show_isize i" "[] \<noteq> dec n" for i n
    by (simp_all add: show_isize_def not_sym [OF dec_not_Nil])
  show ?thesis
  proof (cases "join_on CHR '':'' fs = []")
    case False
    then have "apply_segment (join_on CHR '':'' fs) prev
      = \<lparr>sm_offset = unless_empty (part 0 fs) (or_zero (parse_usize (part 0 fs))) (sm_offset prev),
         sm_length = unless_empty (part 1 fs) (or_zero (parse_usize (part 1 fs))) (sm_length prev),
         sm_source = unless_empty (part 2 fs) (or_zero (parse_isize (part 2 fs))) (sm_source prev),
         sm_jump = unless_empty (part 3 fs) (hd (part 3 fs)) (sm_jump prev),
         sm_depth = unless_empty (part 4 fs) (or_zero (parse_usize (part 4 fs))) (sm_depth prev)\<rparr>"
      by (simp add: apply_segment_def split_fields [OF assms] Let_def)
    also have "\<dots> = e"
    proof (rule source_entry.equality, goal_cases)
      case 1 show ?case using p(1) by (auto simp: entry_fields_def unless_empty_def or_zero_def nums shown)
    next
      case 2 show ?case using p(2) by (auto simp: entry_fields_def unless_empty_def or_zero_def nums shown)
    next
      case 3 show ?case using p(3)
        by (auto simp: entry_fields_def unless_empty_def or_zero_def nums shown show_isize_inject)
    next
      case 4 show ?case using p(4) by (auto simp: entry_fields_def unless_empty_def)
    next
      case 5 show ?case using p(5) by (auto simp: entry_fields_def unless_empty_def or_zero_def nums shown)
    qed simp
    finally show ?thesis .
  next
    case True
    with split_fields [OF assms] have "fs = [[]]" by simp
    have "entry_fields e = entry_fields prev"
      using p by (simp add: part_def \<open>fs = [[]]\<close> entry_fields_def shown)
    then have "prev = e" by (intro source_entry.equality) (simp_all add: entry_fields_def show_isize_inject)
    with True show ?thesis by (simp add: apply_segment_def)
  qed
qed

lemma apply_compressed:
  "compresses prev fss es \<Longrightarrow> apply_segments (map (join_on CHR '':'') fss) prev = es"
  by (induction prev fss es rule: compresses.induct) (auto simp: apply_stands_for Let_def)

lemma compressed_chars:
  "compresses prev fss es \<Longrightarrow> fs \<in> set fss \<Longrightarrow> CHR '';'' \<notin> set (join_on CHR '':'' fs)"
proof (induction prev fss es rule: compresses.induct)
  case (2 prev gs fss e es)
  then show ?case using part_chars [of e prev gs] join_on_chars [of "CHR '';''" "CHR '':''" gs] by auto
qed simp_all

text \<open>
  C21: Compressed source maps decode. However the compiler leaves out fields that repeat the previous entry
  (empty fields, fields missing at the end of a segment, empty segments), parsing the source map gives
  the entries it stands for; the text of the empty source map is the only exception.
\<close>

theorem source_maps_decode:
  assumes "compresses source_entry_default fss es" and "fss \<noteq> []" and "join_on CHR '';'' (map (join_on CHR '':'') fss) \<noteq> []"
  shows "parse_source_map (join_on CHR '';'' (map (join_on CHR '':'') fss)) = es"
proof -
  have "split_on CHR '';'' (join_on CHR '';'' (map (join_on CHR '':'') fss)) = map (join_on CHR '':'') fss"
    by (rule split_on_join) (use assms(2) compressed_chars [OF assms(1)] in auto)
  with assms(3) apply_compressed [OF assms(1)] show ?thesis by (simp add: parse_source_map_def)
qed

theorem source_maps_decode_witness:
  "parse_source_map ''7:2:-1:i:0;;9'' =
     [\<lparr>sm_offset = 7, sm_length = 2, sm_source = -1, sm_jump = CHR ''i'', sm_depth = 0\<rparr>,
      \<lparr>sm_offset = 7, sm_length = 2, sm_source = -1, sm_jump = CHR ''i'', sm_depth = 0\<rparr>,
      \<lparr>sm_offset = 9, sm_length = 2, sm_source = -1, sm_jump = CHR ''i'', sm_depth = 0\<rparr>]"
proof -
  let ?a = "\<lparr>sm_offset = 7, sm_length = 2, sm_source = -1, sm_jump = CHR ''i'', sm_depth = 0\<rparr>"
  let ?fss = "[[''7'', ''2'', ''-1'', ''i'', ''0''], [[]], [''9'']]"
  have d: "dec 7 = ''7''" "dec 2 = ''2''" "dec 1 = ''1''" "dec 0 = ''0''" "dec 9 = ''9''"
    by (simp_all add: dec.simps dec_digit_def)
  have five: "(\<forall>i < 5. P i) \<longleftrightarrow> P 0 \<and> P 1 \<and> P 2 \<and> P 3 \<and> P (4::nat)" for P
    by (simp add: numeral_eq_Suc All_less_Suc) blast
  have "compresses source_entry_default ?fss [?a, ?a, ?a\<lparr>sm_offset := 9\<rparr>]"
    by (simp add: srcentry_ok_def stands_for_def five part_def entry_fields_def show_isize_def d [simplified] d)
  from source_maps_decode [OF this] show ?thesis by simp
qed

end
