(* ===== verification/Report_Build.thy ===== *)
theory Report_Build
  imports Report_Source_Map Trace_Codes Shared_Coverage "HOL-Library.AList" "HOL-Library.Product_Lexorder"
    "HOL-Library.List_Lexorder" "HOL-Library.Char_ord" "HOL-Library.Monad_Syntax"
begin

section \<open>Coverage reports\<close>

text \<open>
  \<open>evm/coverage/reporter.rs\<close>: the covered bytecodes are matched to compiled contracts, the hit
  program counters are resolved to source lines, functions get the count of their first instruction,
  and the result is printed in the lcov format. Hash maps over the output of solc are lists, in the
  order the maps give; a set of lines is a function on paths. Reading a file, hashing
  and hexadecimal digits are the parameter \<open>report_env\<close>. \<open>None\<close> is a panic.
\<close>

record report_env =
  rp_read :: "string \<Rightarrow> string option"
  rp_keccak :: "bytes \<Rightarrow> u256"
  rp_hex :: "string \<Rightarrow> bytes option"

text \<open>The code of an artifact and its source map.\<close>

type_synonym report_code = "artifact_code \<times> string option"

record src_loc =
  sl_offset :: nat
  sl_length :: nat
  sl_index :: nat

datatype fn_kind = Fn_Constructor | Fn_Fallback | Fn_Receive | Fn_Function

record report_fn =
  rf_kind :: "fn_kind option"
  rf_name :: string
  rf_has_body :: bool
  rf_src :: src_loc

datatype unit_node =
    Unit_Function report_fn
  | Unit_Contract string bool src_loc "report_fn list"
  | Unit_Other

record report_source =
  rs_path :: string
  rs_id :: int
  rs_ast :: "unit_node list option"

record report_contract =
  rc_path :: string
  rc_name :: string
  rc_evm :: "(report_code option \<times> report_code option) option"

record report_output =
  ro_contracts :: "report_contract list"
  ro_sources :: "report_source list"

subsection \<open>Compiled contracts\<close>

record compiled_contract =
  cc_path :: string
  cc_name :: string
  cc_bytecode :: "report_code option"
  cc_deployed :: "report_code option"
  cc_library :: bool

definition is_library :: "unit_node list \<Rightarrow> string \<Rightarrow> bool" where
  "is_library ast name \<longleftrightarrow>
     list_ex (\<lambda>node. case node of Unit_Contract n library _ _ \<Rightarrow> n = name \<and> library | _ \<Rightarrow> False) ast"

definition source_ast :: "report_output \<Rightarrow> string \<Rightarrow> unit_node list option" where
  "source_ast output path =
     (case find (\<lambda>s. rs_path s = path) (ro_sources output) of None \<Rightarrow> None | Some s \<Rightarrow> rs_ast s)"

definition compiled_contracts :: "report_output \<Rightarrow> compiled_contract list" where
  "compiled_contracts output =
     List.map_filter (\<lambda>c.
       case rc_evm c of
         None \<Rightarrow> None
       | Some (bytecode, deployed) \<Rightarrow>
           Some \<lparr>cc_path = rc_path c, cc_name = rc_name c, cc_bytecode = bytecode, cc_deployed = deployed,
                 cc_library = (case source_ast output (rc_path c) of
                     None \<Rightarrow> False | Some ast \<Rightarrow> is_library ast (rc_name c))\<rparr>) (ro_contracts output)"

record index_entry =
  ie_contract :: nat
  ie_hash :: u256
  ie_positions :: "(nat \<times> nat) list"
  ie_initcode :: bool
  ie_len :: nat

definition report_bytecode :: "report_env \<Rightarrow> report_code \<Rightarrow> bytes option" where
  "report_bytecode R rc =
     parse_bytecode_with_placeholders (rp_hex R) (case ac_object (fst rc) of None \<Rightarrow> [] | Some s \<Rightarrow> s)
       (list_or_nil (ac_links (fst rc)))"

definition deployed_index_entry ::
  "report_env \<Rightarrow> nat \<Rightarrow> compiled_contract \<Rightarrow> index_entry option option" where
  "deployed_index_entry R idx c =
     (case cc_deployed c of
        None \<Rightarrow> Some None
      | Some d \<Rightarrow>
          map_option (\<lambda>code.
            if code = [] then None
            else
              let positions = masked_positions (fst d) (cc_library c) code
              in Some \<lparr>ie_contract = idx, ie_hash = rp_keccak R (zero_out_positions positions code),
                       ie_positions = positions, ie_initcode = False, ie_len = length code\<rparr>)
            (report_bytecode R d))"

definition initcode_index_entry ::
  "report_env \<Rightarrow> nat \<Rightarrow> compiled_contract \<Rightarrow> index_entry option option" where
  "initcode_index_entry R idx c =
     (case cc_bytecode c of
        None \<Rightarrow> Some None
      | Some b \<Rightarrow>
          map_option (\<lambda>code.
            if code = [] then None
            else
              let positions = list_or_nil (ac_links (fst b))
              in Some \<lparr>ie_contract = idx, ie_hash = rp_keccak R (zero_out_positions positions code),
                       ie_positions = positions, ie_initcode = True, ie_len = length code\<rparr>)
            (report_bytecode R b))"

definition option_list :: "'a option \<Rightarrow> 'a list" where
  "option_list x = (case x of None \<Rightarrow> [] | Some y \<Rightarrow> [y])"

definition bytecode_index :: "report_env \<Rightarrow> compiled_contract list \<Rightarrow> index_entry list option" where
  "bytecode_index R contracts =
     fold_opt (\<lambda>(idx, c) entries. do {
         deployed \<leftarrow> deployed_index_entry R idx c;
         init \<leftarrow> initcode_index_entry R idx c;
         Some (entries @ option_list deployed @ option_list init)
       }) (enumerate 0 contracts) []"

text \<open>The candidates are the entries whose code has the length of the bytecode.\<close>

fun find_candidates :: "report_env \<Rightarrow> bytes \<Rightarrow> index_entry list \<Rightarrow> bytes \<Rightarrow> (nat \<times> bool) option" where
  "find_candidates R raw [] masked = None"
| "find_candidates R raw (e # es) masked =
     (let m = zero_out_positions (ie_positions e) masked
      in if rp_keccak R m = ie_hash e then Some (ie_contract e, ie_initcode e)
         else find_candidates R raw es (fold (restore_range raw) (ie_positions e) m))"

definition index_find :: "report_env \<Rightarrow> index_entry list \<Rightarrow> bytes \<Rightarrow> (nat \<times> bool) option" where
  "index_find R entries raw =
     find_candidates R raw (filter (\<lambda>e. ie_len e = length raw) entries) raw"

subsection \<open>Lines and functions\<close>

type_synonym path_lines = "string \<Rightarrow> nat set"
type_synonym pc_maps = "nat \<times> bool \<Rightarrow> source_entry option list option"

definition add_line :: "string \<Rightarrow> nat \<Rightarrow> path_lines \<Rightarrow> path_lines" where
  "add_line path line ls = ls(path := insert line (ls path))"

text \<open>The path and the line of an entry, when its file is known and could be read.\<close>

definition entry_line ::
  "(nat \<Rightarrow> string option) \<Rightarrow> (string \<Rightarrow> string option) \<Rightarrow> source_entry \<Rightarrow> (string \<times> nat) option" where
  "entry_line sid_map cache e =
     (if sm_source e < 0 then None
      else case sid_map (nat (sm_source e)) of
        None \<Rightarrow> None
      | Some path \<Rightarrow>
          (case cache path of
             None \<Rightarrow> None
           | Some content \<Rightarrow> Some (path, offset_to_line content (sm_offset e))))"

definition populate_lines ::
  "(nat \<Rightarrow> string option) \<Rightarrow> (string \<Rightarrow> string option) \<Rightarrow> source_entry list \<Rightarrow> path_lines \<Rightarrow> path_lines" where
  "populate_lines sid_map cache source_map ls =
     fold (\<lambda>e ls. case entry_line sid_map cache e of None \<Rightarrow> ls | Some (path, line) \<Rightarrow> add_line path line ls)
       source_map ls"

definition pc_map_of :: "report_env \<Rightarrow> report_code \<Rightarrow> source_entry option list option" where
  "pc_map_of R rc =
     map_option (\<lambda>code. build_pc_to_source_map code (parse_source_map (case snd rc of None \<Rightarrow> [] | Some s \<Rightarrow> s)))
       (report_bytecode R rc)"

definition populate_contract ::
  "report_env \<Rightarrow> (nat \<Rightarrow> string option) \<Rightarrow> (string \<Rightarrow> string option) \<Rightarrow> nat \<Rightarrow> compiled_contract \<Rightarrow>
   pc_maps \<times> path_lines \<Rightarrow> (pc_maps \<times> path_lines) option" where
  "populate_contract R sid_map cache idx c st =
     (case st of (maps, ls) \<Rightarrow>
       do {
         maps' \<leftarrow> (case cc_bytecode c of
             None \<Rightarrow> Some maps
           | Some b \<Rightarrow> map_option (\<lambda>m. maps((idx, True) := Some m)) (pc_map_of R b));
         (case cc_deployed c of
            None \<Rightarrow> Some (maps', ls)
          | Some d \<Rightarrow>
              map_option (\<lambda>m. (maps'((idx, False) := Some m),
                  populate_lines sid_map cache (parse_source_map (case snd d of None \<Rightarrow> [] | Some s \<Rightarrow> s)) ls))
                (pc_map_of R d))
       })"

record function_coverage =
  fnc_name :: string
  fnc_line :: nat
  fnc_hits :: u64

definition reported_name :: "report_fn \<Rightarrow> string option" where
  "reported_name f =
     (case rf_kind f of
        Some Fn_Constructor \<Rightarrow> Some ''constructor''
      | Some Fn_Fallback \<Rightarrow> Some ''fallback''
      | Some Fn_Receive \<Rightarrow> Some ''receive''
      | _ \<Rightarrow> if rf_name f = [] then None else Some (rf_name f))"

definition saturating_end :: "src_loc \<Rightarrow> nat" where
  "saturating_end s = min (sl_offset s + sl_length s) (2 ^ 64 - 1)"

definition in_function :: "(nat \<Rightarrow> string option) \<Rightarrow> string \<Rightarrow> src_loc \<Rightarrow> source_entry option \<Rightarrow> bool" where
  "in_function sid_map path src entry =
     (case entry of
        None \<Rightarrow> False
      | Some e \<Rightarrow>
          0 \<le> sm_source e \<and> sid_map (nat (sm_source e)) = Some path
          \<and> sl_offset src \<le> sm_offset e \<and> sm_offset e < saturating_end src)"

definition entry_hits ::
  "(nat \<Rightarrow> string option) \<Rightarrow> pc_maps \<Rightarrow> (cov_id \<Rightarrow> (nat \<times> bool) option) \<Rightarrow> raw_edges list \<Rightarrow> string \<Rightarrow> report_fn \<Rightarrow> u64" where
  "entry_hits sid_map maps matched counts path f =
     fold (\<lambda>c hits.
       case matched (re_contract_id c) of
         None \<Rightarrow> hits
       | Some (idx, initcode) \<Rightarrow>
           if initcode \<noteq> (rf_kind f = Some Fn_Constructor) then hits
           else case maps (idx, initcode) of
             None \<Rightarrow> hits
           | Some pc_map \<Rightarrow>
               (case position (in_function sid_map path (rf_src f)) pc_map of
                  None \<Rightarrow> hits
                | Some pc \<Rightarrow>
                    if pc < length (re_raw_edges c) then max hits (re_raw_edges c ! pc) else hits)) counts 0"

definition collect_coverage ::
  "(nat \<Rightarrow> string option) \<Rightarrow> (string \<Rightarrow> string option) \<Rightarrow> path_lines \<Rightarrow> raw_edges list \<Rightarrow> pc_maps \<Rightarrow>
   (cov_id \<Rightarrow> (nat \<times> bool) option) \<Rightarrow> report_fn \<Rightarrow> (string \<times> function_coverage) option" where
  "collect_coverage sid_map cache ls counts maps matched f =
     (if \<not> rf_has_body f then None
      else case reported_name f of
        None \<Rightarrow> None
      | Some name \<Rightarrow>
      (case sid_map (sl_index (rf_src f)) of
        None \<Rightarrow> None
      | Some path \<Rightarrow>
          let content = (case cache path of None \<Rightarrow> [] | Some s \<Rightarrow> s) in
          if content = [] then None
          else
            let start = offset_to_line content (sl_offset (rf_src f));
                stop = offset_to_line content (saturating_end (rf_src f))
            in if list_ex (\<lambda>l. l \<in> ls path) [start..<stop + 1]
               then Some (path, \<lparr>fnc_name = name, fnc_line = start,
                                 fnc_hits = entry_hits sid_map maps matched counts path f\<rparr>)
               else None))"

definition unit_functions :: "report_output \<Rightarrow> report_fn list" where
  "unit_functions output =
     concat (map (\<lambda>s. case rs_ast s of
         None \<Rightarrow> []
       | Some ast \<Rightarrow> concat (map (\<lambda>node. case node of
             Unit_Function f \<Rightarrow> [f]
           | Unit_Contract _ _ _ fs \<Rightarrow> fs
           | Unit_Other \<Rightarrow> []) ast)) (ro_sources output))"

definition collect_function_coverage ::
  "report_output \<Rightarrow> (nat \<Rightarrow> string option) \<Rightarrow> (string \<Rightarrow> string option) \<Rightarrow> path_lines \<Rightarrow> raw_edges list \<Rightarrow> pc_maps \<Rightarrow>
   (cov_id \<Rightarrow> (nat \<times> bool) option) \<Rightarrow> (string \<times> function_coverage) list" where
  "collect_function_coverage output sid_map cache ls counts maps matched =
     List.map_filter (collect_coverage sid_map cache ls counts maps matched) (unit_functions output)"

definition contract_definition_lines ::
  "report_output \<Rightarrow> (nat \<Rightarrow> string option) \<Rightarrow> (string \<Rightarrow> string option) \<Rightarrow> path_lines" where
  "contract_definition_lines output sid_map cache =
     fold (\<lambda>s ls. case rs_ast s of
         None \<Rightarrow> ls
       | Some ast \<Rightarrow>
           fold (\<lambda>node ls. case node of
               Unit_Contract _ _ src _ \<Rightarrow>
                 (case sid_map (sl_index src) of
                    None \<Rightarrow> ls
                  | Some path \<Rightarrow>
                      (case cache path of
                         None \<Rightarrow> ls
                       | Some content \<Rightarrow>
                           if content = [] then ls else add_line path (offset_to_line content (sl_offset src)) ls))
             | _ \<Rightarrow> ls) ast ls) (ro_sources output) (\<lambda>_. {})"

subsection \<open>The report\<close>

record file_coverage =
  flc_path :: string
  flc_lines :: "(nat \<times> u64) list"
  flc_functions :: "function_coverage list"

text \<open>The files of the compilation and their contents.\<close>

definition sid_map_of :: "report_output \<Rightarrow> nat \<Rightarrow> string option" where
  "sid_map_of output =
     fold (\<lambda>s m. if 0 \<le> rs_id s then m(nat (rs_id s) \<mapsto> rs_path s) else m) (ro_sources output) Map.empty"

definition all_files :: "report_output \<Rightarrow> string list" where
  "all_files output = remdups (map rs_path (ro_sources output))"

definition source_cache :: "report_env \<Rightarrow> string option \<Rightarrow> report_output \<Rightarrow> string \<Rightarrow> string option" where
  "source_cache R base output path =
     (if path \<notin> set (all_files output) then None
      else
        let full = (case base of None \<Rightarrow> path | Some b \<Rightarrow> path_join b path)
        in case rp_read R full of Some content \<Rightarrow> Some content | None \<Rightarrow> rp_read R path)"

text \<open>The program counters that were hit, resolved to lines.\<close>

definition counter_line ::
  "(nat \<Rightarrow> string option) \<Rightarrow> (string \<Rightarrow> string option) \<Rightarrow> source_entry option list \<Rightarrow> nat \<times> u64 \<Rightarrow>
   (string \<times> nat) option" where
  "counter_line sid_map cache pc_map x =
     (case x of (pc, raw_count) \<Rightarrow>
       if raw_count = 0 \<or> length pc_map \<le> pc then None
       else case pc_map ! pc of
         None \<Rightarrow> None
       | Some e \<Rightarrow>
           (case entry_line sid_map cache e of
              None \<Rightarrow> None
            | Some (path, line) \<Rightarrow> if cache path = Some [] then None else Some (path, line)))"

definition hit_lines ::
  "(nat \<Rightarrow> string option) \<Rightarrow> (string \<Rightarrow> string option) \<Rightarrow> pc_maps \<Rightarrow> (cov_id \<Rightarrow> (nat \<times> bool) option) \<Rightarrow>
   raw_edges \<Rightarrow> (string \<times> nat) list" where
  "hit_lines sid_map cache maps matched c =
     (case matched (re_contract_id c) of
        None \<Rightarrow> []
      | Some key \<Rightarrow>
          (case maps key of
             None \<Rightarrow> []
           | Some pc_map \<Rightarrow>
               List.map_filter (counter_line sid_map cache pc_map) (enumerate 0 (re_raw_edges c))))"

definition line_is_code :: "nat set \<Rightarrow> nat \<Rightarrow> string \<Rightarrow> bool" where
  "line_is_code definition_lines line text \<longleftrightarrow>
     (let trimmed = trim_text text
      in trimmed \<noteq> ''}'' \<and> trimmed \<noteq> [] \<and> \<not> starts_with trimmed ''//'' \<and> line \<notin> definition_lines)"

definition executable_lines ::
  "(string \<times> nat) list \<Rightarrow> nat set \<Rightarrow> nat set \<Rightarrow> string \<Rightarrow> string \<Rightarrow> (nat \<times> u64) list" where
  "executable_lines reached mapped_lines definition_lines path content =
     List.map_filter (\<lambda>(line, text).
       if line_is_code definition_lines line text \<and> line \<in> mapped_lines
       then Some (line, if (path, line) \<in> set reached then 1 else 0) else None)
       (enumerate 1 (content_lines content))"

definition function_lines :: "function_coverage list \<Rightarrow> (nat \<times> u64) list \<Rightarrow> (nat \<times> u64) list" where
  "function_lines fs lines =
     fold (\<lambda>f ls. AList.update (fnc_line f) (if 0 < fnc_hits f then 1 else 0) ls) fs lines"

definition report_file ::
  "report_output \<Rightarrow> (nat \<Rightarrow> string option) \<Rightarrow> (string \<Rightarrow> string option) \<Rightarrow> (string \<times> nat) list \<Rightarrow> path_lines \<Rightarrow>
   (string \<times> function_coverage) list \<Rightarrow> string \<Rightarrow> file_coverage" where
  "report_file output sid_map cache reached ls functions path =
     (let fs = map snd (filter (\<lambda>x. fst x = path) functions);
          lines = (case cache path of
              None \<Rightarrow> []
            | Some content \<Rightarrow>
                executable_lines reached (ls path) (contract_definition_lines output sid_map cache path) path content)
      in \<lparr>flc_path = path, flc_lines = function_lines fs lines, flc_functions = fs\<rparr>)"

record matched_codes =
  mc_ids :: "cov_id list"
  mc_match :: "cov_id \<Rightarrow> (nat \<times> bool) option"

definition match_bytecodes :: "report_env \<Rightarrow> index_entry list \<Rightarrow> shared_coverage \<Rightarrow> matched_codes" where
  "match_bytecodes R index coverage =
     fold (\<lambda>(cid, code) m. case index_find R index code of
         None \<Rightarrow> m
       | Some hit \<Rightarrow> \<lparr>mc_ids = mc_ids m @ [cid], mc_match = (mc_match m)(cid \<mapsto> hit)\<rparr>)
       (all_bytecodes coverage) \<lparr>mc_ids = [], mc_match = Map.empty\<rparr>"

definition matched_indices :: "matched_codes \<Rightarrow> nat list" where
  "matched_indices m = remdups (List.map_filter (\<lambda>cid. map_option fst (mc_match m cid)) (mc_ids m))"

definition build_report ::
  "report_env \<Rightarrow> string option \<Rightarrow> report_output option \<Rightarrow> shared_coverage \<Rightarrow> file_coverage list option" where
  "build_report R base output coverage =
     (case output of
        None \<Rightarrow> Some []
      | Some out \<Rightarrow>
          do {
            let contracts = compiled_contracts out;
            index \<leftarrow> bytecode_index R contracts;
            let m = match_bytecodes R index coverage;
            let indices = matched_indices m;
            if indices = [] \<or> all_files out = [] then Some []
            else do {
              let sid_map = sid_map_of out;
              let cache = source_cache R base out;
              let counts = raw_with_bytecodes_for_ids coverage (mc_ids m);
              (maps, mapped) \<leftarrow> fold_opt (\<lambda>idx. populate_contract R sid_map cache idx (contracts ! idx))
                 indices (\<lambda>_. None, \<lambda>_. {});
              let reached = concat (map (hit_lines sid_map cache maps (mc_match m)) counts);
              let ls = fold (\<lambda>(path, line). add_line path line) reached mapped;
              let functions = collect_function_coverage out sid_map cache ls counts maps (mc_match m);
              Some (filter (\<lambda>f. flc_lines f \<noteq> [] \<or> flc_functions f \<noteq> [])
                (map (report_file out sid_map cache reached ls functions) (sort_key path_key (all_files out))))
            }
          })"

subsection \<open>The lcov text\<close>

definition report_coverage :: "file_coverage list \<Rightarrow> nat \<times> nat" where
  "report_coverage files =
     (sum_list (map (\<lambda>f. length (filter (\<lambda>l. 0 < snd l) (flc_lines f))) files),
      sum_list (map (\<lambda>f. length (flc_lines f)) files))"

definition lcov_file :: "file_coverage \<Rightarrow> string list" where
  "lcov_file f =
     (let functions = sort_key (\<lambda>x. (fnc_line x, fnc_name x)) (flc_functions f);
          lines = sort_key fst (flc_lines f)
      in [''TN:'', ''SF:'' @ flc_path f]
         @ map (\<lambda>x. ''FN:'' @ dec (fnc_line x) @ '','' @ fnc_name x) functions
         @ map (\<lambda>x. ''FNDA:'' @ dec (unat (fnc_hits x)) @ '','' @ fnc_name x) functions
         @ (if functions = [] then []
            else [''FNF:'' @ dec (length functions),
                  ''FNH:'' @ dec (length (filter (\<lambda>x. 0 < fnc_hits x) functions))])
         @ map (\<lambda>(line, hits). ''DA:'' @ dec line @ '','' @ dec (unat hits)) lines
         @ [''LF:'' @ dec (length lines), ''LH:'' @ dec (length (filter (\<lambda>l. 0 < snd l) lines)), ''end_of_record''])"

definition lcov_report :: "file_coverage list \<Rightarrow> string list" where
  "lcov_report files = concat (map lcov_file files)"

end
