(* ===== verification/Report_Lines.thy ===== *)
theory Report_Lines
  imports Report_Build
begin

section \<open>Reported lines\<close>

text \<open>
  What a coverage report says of a line: a reference definition of the lines an execution reached,
  from the observed bytecodes and their counters to the source maps of the compiled contracts, and
  the proof that the report's lines are those.
\<close>

subsection \<open>Looking up a bytecode\<close>

text \<open>
  Masking in place and restoring between the candidates is the search over fresh copies of the bytecode.
\<close>

lemma find_candidates_find:
  "find_candidates R raw es raw = map_option (\<lambda>e. (ie_contract e, ie_initcode e))
     (find (\<lambda>e. rp_keccak R (zero_out_positions (ie_positions e) raw) = ie_hash e) es)"
  by (induction es) (simp_all add: Let_def restore_zero_out)

lemma find_filter: "find P (filter Q xs) = find (\<lambda>x. Q x \<and> P x) xs"
  by (induction xs) auto

lemma index_find_reference:
  "index_find R es raw = map_option (\<lambda>e. (ie_contract e, ie_initcode e))
     (find (\<lambda>e. ie_len e = length raw
        \<and> rp_keccak R (zero_out_positions (ie_positions e) raw) = ie_hash e) es)"
  by (simp add: index_find_def find_candidates_find find_filter)

subsection \<open>Lines that ran\<close>

definition artifact_of :: "compiled_contract \<Rightarrow> bool \<Rightarrow> report_code option" where
  "artifact_of c init = (if init then cc_bytecode c else cc_deployed c)"

definition line_reached ::
  "report_env \<Rightarrow> string option \<Rightarrow> report_output \<Rightarrow> shared_coverage \<Rightarrow> string \<Rightarrow> nat \<Rightarrow> bool" where
  "line_reached R base out cov path line \<longleftrightarrow>
     (\<exists>cid c index idx init rc m pc e.
        map_of (sh_contracts cov) cid = Some c
        \<and> bytecode_index R (compiled_contracts out) = Some index
        \<and> index_find R index (bytecode_of cov cid) = Some (idx, init)
        \<and> artifact_of (compiled_contracts out ! idx) init = Some rc
        \<and> pc_map_of R rc = Some m
        \<and> pc < length (sc_raw c) \<and> sc_raw c ! pc \<noteq> 0 \<and> pc < length m \<and> m ! pc = Some e
        \<and> entry_line (sid_map_of out) (source_cache R base out) e = Some (path, line)
        \<and> source_cache R base out path \<noteq> Some [])"

subsection \<open>Matching\<close>

lemma match_fold:
  fixes f :: "cov_id \<Rightarrow> (nat \<times> bool) option"
  shows "let m' = fold (\<lambda>(cid, code) m. case f cid of None \<Rightarrow> m
              | Some hit \<Rightarrow> \<lparr>mc_ids = mc_ids m @ [cid], mc_match = (mc_match m)(cid \<mapsto> hit)\<rparr>) xs m
         in mc_match m' = (\<lambda>cid. if cid \<in> fst ` set xs \<and> f cid \<noteq> None then f cid else mc_match m cid)
            \<and> set (mc_ids m') = set (mc_ids m) \<union> {cid \<in> fst ` set xs. f cid \<noteq> None}"
proof (induction xs arbitrary: m)
  case (Cons x xs)
  obtain cid code where x: "x = (cid, code)" by (cases x)
  show ?case
  proof (cases "f cid")
    case None
    with Cons [of m] x show ?thesis by (auto simp: Let_def fun_eq_iff)
  next
    case (Some hit)
    with Cons [of "\<lparr>mc_ids = mc_ids m @ [cid], mc_match = (mc_match m)(cid \<mapsto> hit)\<rparr>"] x
    show ?thesis
      by (auto simp: Let_def fun_eq_iff simp del: split_paired_Ex split_paired_All)
  qed
qed (simp add: Let_def)

lemma match_bytecodes_spec:
  "mc_match (match_bytecodes R index cov) cid
     = (if map_of (sh_contracts cov) cid = None then None else index_find R index (bytecode_of cov cid))"
  "set (mc_ids (match_bytecodes R index cov)) = {cid. mc_match (match_bytecodes R index cov) cid \<noteq> None}"
proof -
  let ?f = "\<lambda>cid. index_find R index (bytecode_of cov cid)"
  have *: "fold (\<lambda>(cid, code) m. case index_find R index code of None \<Rightarrow> m
        | Some hit \<Rightarrow> \<lparr>mc_ids = mc_ids m @ [cid], mc_match = (mc_match m)(cid \<mapsto> hit)\<rparr>) (all_bytecodes cov) m
      = fold (\<lambda>(cid, code) m. case ?f cid of None \<Rightarrow> m
        | Some hit \<Rightarrow> \<lparr>mc_ids = mc_ids m @ [cid], mc_match = (mc_match m)(cid \<mapsto> hit)\<rparr>) (all_bytecodes cov) m" for m
    by (rule fold_cong) (auto simp: all_bytecodes_def)
  have dom: "cid \<in> fst ` set (all_bytecodes cov) \<longleftrightarrow> map_of (sh_contracts cov) cid \<noteq> None" for cid
    by (force simp: all_bytecodes_def map_of_eq_None_iff image_iff)
  note m = match_fold [of ?f "all_bytecodes cov" "\<lparr>mc_ids = [], mc_match = Map.empty\<rparr>", unfolded Let_def,
      folded * match_bytecodes_def]
  from m show 1: "mc_match (match_bytecodes R index cov) cid
     = (if map_of (sh_contracts cov) cid = None then None else index_find R index (bytecode_of cov cid))" for cid
    by (cases "map_of (sh_contracts cov) cid"; cases "index_find R index (bytecode_of cov cid)")
      (simp_all add: dom)
  from m show "set (mc_ids (match_bytecodes R index cov)) = {cid. mc_match (match_bytecodes R index cov) cid \<noteq> None}"
    by (auto simp: 1 dom)
qed

lemma counts_set:
  "c \<in> set (raw_with_bytecodes_for_ids cov ids) \<longleftrightarrow>
     (\<exists>cid \<in> set ids. \<exists>k. map_of (sh_contracts cov) cid = Some k
        \<and> c = \<lparr>re_contract_id = cid, re_bytecode = bytecode_of cov cid, re_raw_edges = sc_raw k\<rparr>)"
  by (force simp: raw_with_bytecodes_for_ids_def List.map_filter_def split: option.splits)

subsection \<open>Maps from program counters\<close>

lemma populate_maps:
  assumes "populate_contract R sid_map cache idx c (maps, ls) = Some (maps', ls')"
  shows "maps' (i, init) = (if i = idx \<and> artifact_of c init \<noteq> None
           then Option.bind (artifact_of c init) (pc_map_of R) else maps (i, init))"
  using assms
  by (auto simp: populate_contract_def artifact_of_def split: option.splits if_splits
      Option.bind_splits)

lemma populate_all_maps:
  assumes "fold_opt (\<lambda>idx. populate_contract R sid_map cache idx (contracts ! idx)) is (maps, ls) = Some (maps', ls')"
  shows "maps' (i, init) = (if i \<in> set is \<and> artifact_of (contracts ! i) init \<noteq> None
           then Option.bind (artifact_of (contracts ! i) init) (pc_map_of R) else maps (i, init))"
  using assms
proof (induction "is" arbitrary: maps ls)
  case (Cons j js)
  obtain maps1 ls1 where step: "populate_contract R sid_map cache j (contracts ! j) (maps, ls) = Some (maps1, ls1)"
    and rest: "fold_opt (\<lambda>idx. populate_contract R sid_map cache idx (contracts ! idx)) js (maps1, ls1) = Some (maps', ls')"
    using Cons.prems by (auto split: option.splits)
  show ?case using Cons.IH [OF rest] populate_maps [OF step, of i init] by auto
qed simp

subsection \<open>Hit lines\<close>

lemma counter_line_Some:
  "counter_line sid_map cache m (pc, n) = Some (path, line) \<longleftrightarrow>
     n \<noteq> 0 \<and> pc < length m \<and> (\<exists>e. m ! pc = Some e \<and> entry_line sid_map cache e = Some (path, line))
     \<and> cache path \<noteq> Some []"
  by (auto simp: counter_line_def split: option.splits prod.splits if_splits)

lemma hit_lines_set:
  "(path, line) \<in> set (hit_lines sid_map cache maps matched c) \<longleftrightarrow>
     (\<exists>key m. matched (re_contract_id c) = Some key \<and> maps key = Some m
        \<and> (\<exists>pc < length (re_raw_edges c). counter_line sid_map cache m (pc, re_raw_edges c ! pc) = Some (path, line)))"
  by (auto simp: hit_lines_def set_map_filter in_set_enumerate_eq split: option.splits
      simp del: split_paired_Ex split_paired_All)
    (force simp: in_set_enumerate_eq)+

lemma in_matched_indices:
  assumes "m = match_bytecodes R index cov"
  shows "idx \<in> set (matched_indices m) \<longleftrightarrow> (\<exists>cid init. mc_match m cid = Some (idx, init))"
  using match_bytecodes_spec(2) [of R index cov, folded assms]
  by (force simp: matched_indices_def set_map_filter)

lemma hit_lines_reached:
  assumes index: "bytecode_index R (compiled_contracts out) = Some index"
    and m: "m = match_bytecodes R index cov"
    and maps: "fold_opt (\<lambda>idx. populate_contract R (sid_map_of out) (source_cache R base out) idx
        (compiled_contracts out ! idx)) (matched_indices m) (\<lambda>_. None, \<lambda>_. {}) = Some (maps, mapped)"
  shows "(path, line) \<in> set (concat (map (hit_lines (sid_map_of out) (source_cache R base out) maps (mc_match m))
            (raw_with_bytecodes_for_ids cov (mc_ids m))))
     \<longleftrightarrow> line_reached R base out cov path line"
proof -
  note matched = match_bytecodes_spec [of R index cov, folded m]
  note in_indices = in_matched_indices [OF m]
  have key_map: "maps (idx, init) = Option.bind (artifact_of (compiled_contracts out ! idx) init) (pc_map_of R)"
    if "mc_match m cid = Some (idx, init)" for cid idx init
    using populate_all_maps [OF maps, of idx init] that in_indices [of idx]
    by (cases "artifact_of (compiled_contracts out ! idx) init") auto
  have hit: "(path, line) \<in> set (hit_lines (sid_map_of out) (source_cache R base out) maps (mc_match m)
        \<lparr>re_contract_id = cid, re_bytecode = b, re_raw_edges = edges\<rparr>) \<longleftrightarrow>
      (\<exists>idx init rc pm. mc_match m cid = Some (idx, init)
         \<and> artifact_of (compiled_contracts out ! idx) init = Some rc \<and> pc_map_of R rc = Some pm
         \<and> (\<exists>pc < length edges. counter_line (sid_map_of out) (source_cache R base out) pm (pc, edges ! pc)
                = Some (path, line)))" for cid b edges
    by (simp add: hit_lines_set) (auto simp: key_map bind_eq_Some_conv; blast)
  let ?rec = "\<lambda>cid k. \<lparr>re_contract_id = cid, re_bytecode = bytecode_of cov cid, re_raw_edges = sc_raw k\<rparr>"
  have "(path, line) \<in> set (concat (map (hit_lines (sid_map_of out) (source_cache R base out) maps (mc_match m))
            (raw_with_bytecodes_for_ids cov (mc_ids m)))) \<longleftrightarrow>
      (\<exists>cid k. mc_match m cid \<noteq> None \<and> map_of (sh_contracts cov) cid = Some k
         \<and> (path, line) \<in> set (hit_lines (sid_map_of out) (source_cache R base out) maps (mc_match m) (?rec cid k)))"
    by (simp add: Bex_def counts_set matched(2) del: not_None_eq) blast
  also have "\<dots> \<longleftrightarrow>
      (\<exists>cid k idx init rc pm. map_of (sh_contracts cov) cid = Some k
         \<and> index_find R index (bytecode_of cov cid) = Some (idx, init)
         \<and> artifact_of (compiled_contracts out ! idx) init = Some rc \<and> pc_map_of R rc = Some pm
         \<and> (\<exists>pc < length (sc_raw k). counter_line (sid_map_of out) (source_cache R base out) pm (pc, sc_raw k ! pc)
                = Some (path, line)))"
    unfolding hit by (auto simp: matched(1) simp del: split_paired_Ex split_paired_All; blast)
  also have "\<dots> \<longleftrightarrow> line_reached R base out cov path line"
    unfolding line_reached_def counter_line_Some using index by (simp; blast)
  finally show ?thesis .
qed

subsection \<open>The lines of a file\<close>

lemma executable_lines_set:
  "(line, h) \<in> set (executable_lines reached mapped defs path content) \<longleftrightarrow>
     (\<exists>text. (line, text) \<in> set (enumerate 1 (content_lines content)) \<and> line_is_code defs line text
        \<and> line \<in> mapped \<and> h = (if (path, line) \<in> set reached then 1 else 0))"
  by (auto simp: executable_lines_def set_map_filter split: if_splits; force)

lemma map_fst_map_filter:
  assumes "\<And>x y. f x = Some y \<Longrightarrow> fst y = fst x"
  shows "distinct (map fst xs) \<Longrightarrow>
   distinct (map fst (List.map_filter f xs)) \<and> fst ` set (List.map_filter f xs) \<subseteq> fst ` set xs"
proof (induction xs)
  case (Cons x xs)
  then have "fst ` set (List.map_filter f xs) \<subseteq> fst ` set xs" "fst x \<notin> fst ` set xs" by auto
  then have "fst x \<notin> fst ` set (List.map_filter f xs)" by blast
  with Cons show ?case using assms [of x] by (cases "f x") (auto simp: List.map_filter_simps)
qed (simp add: List.map_filter_simps)

lemma distinct_executable_lines: "distinct (map fst (executable_lines reached mapped defs path content))"
  unfolding executable_lines_def by (rule map_fst_map_filter [THEN conjunct1]) (auto split: if_splits)

lemma function_lines_map:
  "map_of (function_lines fs ls) l
     = (case find (\<lambda>f. fnc_line f = l) (rev fs) of
          None \<Rightarrow> map_of ls l
        | Some f \<Rightarrow> Some (if 0 < fnc_hits f then 1 else 0))"
proof (induction fs rule: rev_induct)
  case (snoc f fs)
  have "function_lines (fs @ [f]) ls
    = AList.update (fnc_line f) (if 0 < fnc_hits f then 1 else 0) (function_lines fs ls)"
    by (simp add: function_lines_def)
  with snoc show ?case by (simp add: AList.update_conv')
qed (simp add: function_lines_def)

lemma distinct_function_lines:
  "distinct (map fst ls) \<Longrightarrow> distinct (map fst (function_lines fs ls))"
  unfolding function_lines_def by (induction fs arbitrary: ls) (simp_all add: AList.distinct_update)

definition file_code_lines ::
  "report_env \<Rightarrow> string option \<Rightarrow> report_output \<Rightarrow> (string \<times> nat) list \<Rightarrow> path_lines \<Rightarrow> string \<Rightarrow> (nat \<times> u64) list" where
  "file_code_lines R base out reached ls path =
     (case source_cache R base out path of
        None \<Rightarrow> []
      | Some content \<Rightarrow>
          executable_lines reached (ls path)
            (contract_definition_lines out (sid_map_of out) (source_cache R base out) path) path content)"

lemma distinct_file_code_lines: "distinct (map fst (file_code_lines R base out reached ls path))"
  by (simp add: file_code_lines_def distinct_executable_lines split: option.splits)

lemma report_file_lines:
  "map_of (flc_lines (report_file out (sid_map_of out) (source_cache R base out) reached ls fs path)) l
     = (case find (\<lambda>f. fnc_line f = l)
          (rev (flc_functions (report_file out (sid_map_of out) (source_cache R base out) reached ls fs path))) of
          None \<Rightarrow> map_of (file_code_lines R base out reached ls path) l
        | Some f \<Rightarrow> Some (if 0 < fnc_hits f then 1 else 0))"
  "distinct (map fst (flc_lines (report_file out (sid_map_of out) (source_cache R base out) reached ls fs path)))"
  "flc_path (report_file out (sid_map_of out) (source_cache R base out) reached ls fs path) = path"
  by (simp_all add: report_file_def Let_def function_lines_map distinct_function_lines
      distinct_file_code_lines [unfolded file_code_lines_def] file_code_lines_def cong: option.case_cong)

lemma file_code_lines_map:
  assumes "map_of (file_code_lines R base out reached ls path) l = Some h"
  shows "h = (if (path, l) \<in> set reached then 1 else 0)"
  using map_of_SomeD [OF assms]
  by (auto simp: file_code_lines_def executable_lines_set split: option.splits)

text \<open>The parts of a report that is not empty.\<close>

lemma build_report_parts:
  assumes "build_report R base (Some out) cov = Some files"
  obtains (empty) index where "bytecode_index R (compiled_contracts out) = Some index" and "files = []"
      and "(\<forall>cid. mc_match (match_bytecodes R index cov) cid = None) \<or> all_files out = []"
  | (files) reached ls fs where
      "files = filter (\<lambda>f. flc_lines f \<noteq> [] \<or> flc_functions f \<noteq> [])
         (map (report_file out (sid_map_of out) (source_cache R base out) reached ls fs)
           (sort_key path_key (all_files out)))"
      and "\<And>path line. (path, line) \<in> set reached \<longleftrightarrow> line_reached R base out cov path line"
      and "\<And>path line. (path, line) \<in> set reached \<Longrightarrow> line \<in> ls path"
proof -
  have add: "fold (\<lambda>(path, line). add_line path line) xs ls path
      = ls path \<union> {line. (path, line) \<in> set xs}" for xs ls path
    by (induction xs arbitrary: ls) (auto simp: add_line_def split: if_splits)
  obtain index where index: "bytecode_index R (compiled_contracts out) = Some index"
    using assms by (cases "bytecode_index R (compiled_contracts out)") (simp_all add: build_report_def)
  define m where "m = match_bytecodes R index cov"
  have matched: "matched_indices m = [] \<longleftrightarrow> (\<forall>cid. mc_match m cid = None)"
  proof -
    have "matched_indices m = [] \<longleftrightarrow> (\<forall>idx. idx \<notin> set (matched_indices m))" by auto
    also have "\<dots> \<longleftrightarrow> (\<forall>cid. mc_match m cid = None)"
      by (simp only: in_matched_indices [OF m_def]) (metis option.exhaust surj_pair option.distinct(1))
    finally show ?thesis .
  qed
  show thesis
  proof (cases "matched_indices m = [] \<or> all_files out = []")
    case True
    with assms index have "files = []"
      by (simp add: build_report_def Let_def flip: m_def)
    with True index matched show thesis by (auto simp: m_def intro: empty)
  next
    case False
    with assms index obtain maps mapped where maps:
      "fold_opt (\<lambda>idx. populate_contract R (sid_map_of out) (source_cache R base out) idx
        (compiled_contracts out ! idx)) (matched_indices m) (\<lambda>_. None, \<lambda>_. {}) = Some (maps, mapped)"
      and f: "files = (let
          reached = concat (map (hit_lines (sid_map_of out) (source_cache R base out) maps (mc_match m))
            (raw_with_bytecodes_for_ids cov (mc_ids m)));
          ls = fold (\<lambda>(path, line). add_line path line) reached mapped;
          fs = collect_function_coverage out (sid_map_of out) (source_cache R base out) ls
            (raw_with_bytecodes_for_ids cov (mc_ids m)) maps (mc_match m)
        in filter (\<lambda>f. flc_lines f \<noteq> [] \<or> flc_functions f \<noteq> [])
             (map (report_file out (sid_map_of out) (source_cache R base out) reached ls fs)
               (sort_key path_key (all_files out))))"
      by (auto simp: build_report_def Let_def bind_eq_Some_conv simp flip: m_def)
    show thesis
      by (rule files [OF f [unfolded Let_def]])
        (simp_all only: hit_lines_reached [OF index m_def maps] add, simp_all)
  qed
qed

lemma reported_line:
  assumes "build_report R base (Some out) cov = Some files" and "F \<in> set files" and "(l, h) \<in> set (flc_lines F)"
  shows "(\<exists>f \<in> set (flc_functions F). fnc_line f = l \<and> h = (if 0 < fnc_hits f then 1 else 0))
    \<or> (\<forall>f \<in> set (flc_functions F). fnc_line f \<noteq> l)
       \<and> h = (if line_reached R base out cov (flc_path F) l then 1 else 0)"
  using assms(1)
proof (cases rule: build_report_parts)
  case empty
  with assms(2) show ?thesis by simp
next
  case (files reached ls fs)
  with assms(2) obtain path where
    F: "F = report_file out (sid_map_of out) (source_cache R base out) reached ls fs path" by auto
  note lines = report_file_lines [of out R base reached ls fs path, folded F]
  from lines(2) assms(3) have h: "map_of (flc_lines F) l = Some h" by simp
  show ?thesis
  proof (cases "find (\<lambda>f. fnc_line f = l) (rev (flc_functions F))")
    case None
    with lines(1) [of l] h have "map_of (file_code_lines R base out reached ls path) l = Some h" by simp
    then have "h = (if (path, l) \<in> set reached then 1 else 0)" by (rule file_code_lines_map)
    moreover from None have "\<forall>f \<in> set (flc_functions F). fnc_line f \<noteq> l" by (simp add: find_None_iff)
    ultimately show ?thesis using files(2) lines(3) by simp
  next
    case (Some f)
    with lines(1) [of l] h have "h = (if 0 < fnc_hits f then 1 else 0)" by simp
    moreover from Some have "f \<in> set (flc_functions F)" "fnc_line f = l"
      using find_in_set [of _ "rev (flc_functions F)"] by fastforce+
    ultimately show ?thesis by blast
  qed
qed

lemma reached_line_reported:
  assumes "build_report R base (Some out) cov = Some files" and "line_reached R base out cov path l"
    and "source_cache R base out path = Some content" and "(l, text) \<in> set (enumerate 1 (content_lines content))"
    and "line_is_code (contract_definition_lines out (sid_map_of out) (source_cache R base out) path) l text"
  shows "\<exists>F \<in> set files. flc_path F = path \<and> l \<in> fst ` set (flc_lines F)"
  using assms(1)
proof (cases rule: build_report_parts)
  case (empty index)
  from assms(2) obtain cid c index' idx init where "map_of (sh_contracts cov) cid = Some c"
    "bytecode_index R (compiled_contracts out) = Some index'"
    "index_find R index' (bytecode_of cov cid) = Some (idx, init)"
    unfolding line_reached_def by blast
  with empty(1) have "mc_match (match_bytecodes R index cov) cid = Some (idx, init)"
    by (simp add: match_bytecodes_spec(1))
  moreover from assms(3) have "path \<in> set (all_files out)" by (auto simp: source_cache_def split: if_splits)
  ultimately show ?thesis using empty(3) by auto
next
  case (files reached ls fs)
  define F where "F = report_file out (sid_map_of out) (source_cache R base out) reached ls fs path"
  note lines = report_file_lines [of out R base reached ls fs path, folded F_def]
  have reached: "(path, l) \<in> set reached" "l \<in> ls path" using assms(2) files(2,3) by auto
  with assms(3,4,5) have "(l, 1) \<in> set (file_code_lines R base out reached ls path)"
    by (auto simp: file_code_lines_def executable_lines_set)
  then have "map_of (file_code_lines R base out reached ls path) l \<noteq> None"
    by (simp add: map_of_eq_None_iff) force
  with lines(1) [of l] have "map_of (flc_lines F) l \<noteq> None" by (simp split: option.splits)
  then have l: "l \<in> fst ` set (flc_lines F)" by (simp add: map_of_eq_None_iff)
  moreover from assms(3) have "path \<in> set (all_files out)" by (auto simp: source_cache_def split: if_splits)
  ultimately have "F \<in> set files" using files(1) by (auto simp: F_def)
  with l lines(3) show ?thesis by blast
qed


definition demo_report_env :: report_env where
  "demo_report_env = \<lparr>rp_read = [''A.sol'' \<mapsto> ''x''], rp_keccak = (\<lambda>code. 7), rp_hex = (\<lambda>s. Some [0])\<rparr>"

definition report_artifact :: artifact_code where
  "report_artifact = \<lparr>ac_object = Some ''00'', ac_links = None, ac_immutables = None\<rparr>"

definition demo_output :: report_output where
  "demo_output =
     \<lparr>ro_contracts = [\<lparr>rc_path = ''A.sol'', rc_name = ''A'',
        rc_evm = Some (None, Some (report_artifact, Some ''0:1:0:-:0''))\<rparr>],
      ro_sources = [\<lparr>rs_path = ''A.sol'', rs_id = 0, rs_ast = None\<rparr>]\<rparr>"

definition demo_report_coverage :: shared_coverage where
  "demo_report_coverage =
     \<lparr>sh_contracts = [(Runtime 1 7, (sc_new 1 False)\<lparr>sc_raw := [3]\<rparr>)], sh_bytecodes = [(Runtime 1 7, [0])]\<rparr>"

definition demo_source_entry :: source_entry where
  "demo_source_entry = \<lparr>sm_offset = 0, sm_length = 1, sm_source = 0, sm_jump = CHR ''-'', sm_depth = 0\<rparr>"

definition demo_contract :: compiled_contract where
  "demo_contract = \<lparr>cc_path = ''A.sol'', cc_name = ''A'', cc_bytecode = None,
     cc_deployed = Some (report_artifact, Some ''0:1:0:-:0''), cc_library = False\<rparr>"

definition demo_index_entry :: index_entry where
  "demo_index_entry = \<lparr>ie_contract = 0, ie_hash = 7, ie_positions = [], ie_initcode = False, ie_len = 1\<rparr>"

lemma demo_parts:
  "compiled_contracts demo_output = [demo_contract]"
  "report_bytecode demo_report_env (report_artifact, Some ''0:1:0:-:0'') = Some [0]"
  "masked_positions report_artifact False [0] = []"
  "zero_out_positions [] [0::u8] = [0]"
  "rp_keccak demo_report_env code = 7"
  "build_pc_to_source_map [0] [demo_source_entry] = [Some demo_source_entry]"
  "all_files demo_output = [''A.sol'']"
  "sort_key path_key [''A.sol''] = [''A.sol'']"
  "source_cache demo_report_env None demo_output ''A.sol'' = Some ''x''"
  "offset_to_line ''x'' 0 = 1"
  "unit_functions demo_output = []"
  "content_lines ''x'' = [''x'']"
  "trim_text ''x'' = ''x''"
  by code_simp+

lemma demo_source_map: "parse_source_map ''0:1:0:-:0'' = [demo_source_entry]"
  by (simp add: parse_source_map_def apply_segment_def Let_def part_def unless_empty_def or_zero_def
      parse_usize_def parse_isize_def demo_source_entry_def)

lemma demo_find: "index_find demo_report_env [demo_index_entry] [0] = Some (0, False)"
  by (simp add: index_find_def demo_index_entry_def demo_parts)

lemma demo_index: "bytecode_index demo_report_env [demo_contract] = Some [demo_index_entry]"
  by (simp add: bytecode_index_def enumerate_eq_zip deployed_index_entry_def initcode_index_entry_def
      demo_contract_def demo_parts option_list_def demo_index_entry_def)

lemma demo_match:
  "match_bytecodes demo_report_env [demo_index_entry] demo_report_coverage
     = \<lparr>mc_ids = [Runtime 1 7], mc_match = [Runtime 1 7 \<mapsto> (0, False)]\<rparr>"
  by (simp add: match_bytecodes_def all_bytecodes_def bytecode_of_def demo_report_coverage_def demo_find)

lemma demo_sid: "sid_map_of demo_output = [0 \<mapsto> ''A.sol'']"
  by (simp add: sid_map_of_def demo_output_def)

lemma demo_line:
  "entry_line [0 \<mapsto> ''A.sol''] (source_cache demo_report_env None demo_output) demo_source_entry = Some (''A.sol'', 1)"
  by (simp add: entry_line_def demo_source_entry_def demo_parts)

lemma demo_populate:
  "populate_contract demo_report_env [0 \<mapsto> ''A.sol''] (source_cache demo_report_env None demo_output) 0
     demo_contract (\<lambda>_. None, \<lambda>_. {})
   = Some ([(0, False) \<mapsto> [Some demo_source_entry]], (\<lambda>_. {})(''A.sol'' := {1}))"
  by (simp add: populate_contract_def pc_map_of_def demo_contract_def demo_parts demo_source_map populate_lines_def
      demo_line add_line_def)

lemma demo_definition_lines:
  "contract_definition_lines demo_output sid_map cache = (\<lambda>_. {})"
  by (simp add: contract_definition_lines_def demo_output_def)

lemma demo_built:
  "build_report demo_report_env None (Some demo_output) demo_report_coverage
     = Some [\<lparr>flc_path = ''A.sol'', flc_lines = [(1, 1)], flc_functions = []\<rparr>]"
proof -
  have counts: "raw_with_bytecodes_for_ids demo_report_coverage [Runtime 1 7]
      = [\<lparr>re_contract_id = Runtime 1 7, re_bytecode = [0], re_raw_edges = [3]\<rparr>]"
    by (simp add: raw_with_bytecodes_for_ids_def demo_report_coverage_def bytecode_of_def List.map_filter_simps)
  show ?thesis
    by (simp add: build_report_def demo_parts(1) demo_index demo_match matched_indices_def demo_parts(7)
        List.map_filter_simps demo_sid demo_populate counts hit_lines_def counter_line_def demo_line demo_parts(9)
        enumerate_eq_zip collect_function_coverage_def demo_parts(11) demo_parts(8) report_file_def
        executable_lines_def function_lines_def demo_definition_lines demo_parts(12,13) line_is_code_def
        starts_with_def add_line_def)
qed


end
