(* ===== verification/Solc_Sources.thy ===== *)
theory Solc_Sources
  imports Source_Text "HOL-Library.Monad_Syntax"
begin

section \<open>Sources of a compilation\<close>

text \<open>
  \<open>compilers/solc/remappings.rs\<close> and \<open>compilers/solc/source.rs\<close>: the import remappings, the imports of
  a source and the walk of the import graph. The file system is the parameter \<open>source_fs\<close>; a
  canonical path is the list of its components. A source text is its UTF-8 bytes, so the place of
  a character in a block comment is taken by the blank of its first byte.
\<close>

record source_fs =
  sf_canonicalize :: "string \<Rightarrow> path_component list option"
  sf_is_file :: "string \<Rightarrow> bool"
  sf_read :: "string \<Rightarrow> string option"

subsection \<open>Remappings\<close>

record remapping =
  rm_prefix :: string
  rm_target :: string

record remap_resolver =
  mr_root :: string
  mr_remappings :: "remapping list"

datatype remap_error =
    Remap_Read string
  | Remap_Syntax nat string
  | Remap_Empty nat

definition with_trailing_slash :: "string \<Rightarrow> string" where
  "with_trailing_slash s = (if s \<noteq> [] \<and> last s = CHR ''/'' then s else s @ ''/'')"

definition remap_line :: "nat \<times> string \<Rightarrow> remapping list \<Rightarrow> remap_error + remapping list" where
  "remap_line il ms =
     (case il of (idx, text) \<Rightarrow>
       let line = trim_text text in
       if line = [] \<or> starts_with line ''//'' \<or> starts_with line ''#'' then Inr ms
       else case split_once CHR ''='' line of
         None \<Rightarrow> Inl (Remap_Syntax (idx + 1) line)
       | Some (prefix, target) \<Rightarrow>
           if trim_text prefix = [] \<or> trim_text target = [] then Inl (Remap_Empty (idx + 1))
           else Inr (ms @ [\<lparr>rm_prefix = with_trailing_slash (trim_text prefix),
                           rm_target = with_trailing_slash (trim_text target)\<rparr>]))"

definition parse_remappings :: "string \<Rightarrow> remap_error + remapping list" where
  "parse_remappings content = fold_res remap_line (enumerate 0 (content_lines content)) []"

definition remap_load :: "source_fs \<Rightarrow> string \<Rightarrow> remap_error + remap_resolver" where
  "remap_load fs root =
     (let path = path_join root ''remappings.txt'' in
      if \<not> sf_is_file fs path then Inr \<lparr>mr_root = root, mr_remappings = []\<rparr>
      else case sf_read fs path of
        None \<Rightarrow> Inl (Remap_Read path)
      | Some content \<Rightarrow>
          (case parse_remappings content of
             Inl e \<Rightarrow> Inl e
           | Inr ms \<Rightarrow> Inr \<lparr>mr_root = root, mr_remappings = ms\<rparr>))"

definition with_remappings :: "string list \<Rightarrow> remap_resolver \<Rightarrow> remap_error + remap_resolver" where
  "with_remappings lines r =
     (case parse_remappings (join_on newline lines) of
        Inl e \<Rightarrow> Inl e
      | Inr ms \<Rightarrow> Inr (r\<lparr>mr_remappings := ms @ mr_remappings r\<rparr>))"

definition remap_resolve :: "remap_resolver \<Rightarrow> string \<Rightarrow> string option" where
  "remap_resolve r imp =
     (case find (\<lambda>m. starts_with imp (rm_prefix m)) (mr_remappings r) of
        None \<Rightarrow> None
      | Some m \<Rightarrow>
          let resolved = rm_target m @ drop (length (rm_prefix m)) imp
          in Some (if starts_with resolved ''/'' then resolved else path_join (mr_root r) resolved))"

definition show_remapping :: "remapping \<Rightarrow> string" where
  "show_remapping m = rm_prefix m @ ''='' @ rm_target m"

definition solc_remappings :: "remap_resolver \<Rightarrow> string list" where
  "solc_remappings r = map show_remapping (mr_remappings r)"

subsection \<open>Imports\<close>

definition utf8_continuation :: "char \<Rightarrow> bool" where
  "utf8_continuation c \<longleftrightarrow> 128 \<le> (of_char c :: nat) \<and> (of_char c :: nat) < 192"

fun strip_block :: "bool \<Rightarrow> string \<Rightarrow> string" where
  "strip_block in_block [] = []"
| "strip_block in_block [c] =
     (if in_block then (if c = newline then [newline] else if utf8_continuation c then [] else '' '') else [c])"
| "strip_block in_block (c # d # cs) =
     (if \<not> in_block \<and> c = CHR ''/'' \<and> d = CHR ''*'' then ''  '' @ strip_block True cs
      else if in_block \<and> c = CHR ''*'' \<and> d = CHR ''/'' then ''  '' @ strip_block False cs
      else if in_block then
        (if c = newline then [newline] else if utf8_continuation c then [] else '' '') @ strip_block True (d # cs)
      else c # strip_block False (d # cs))"

definition strip_block_comments :: "string \<Rightarrow> string" where
  "strip_block_comments content = strip_block False content"

definition ends_with :: "string \<Rightarrow> string \<Rightarrow> bool" where
  "ends_with s t \<longleftrightarrow> starts_with (rev s) (rev t)"

function quoted_paths :: "string \<Rightarrow> string list" where
  "quoted_paths [] = []"
| "quoted_paths (c # cs) =
     (if c = CHR 0x22 \<or> c = CHR 0x27 then
        let path = takeWhile (\<lambda>d. d \<noteq> c) cs;
            rest = drop (Suc (length path)) cs
        in (if ends_with path ''.sol'' then [path] else []) @ quoted_paths rest
      else quoted_paths cs)"
  by pat_completeness auto
termination
  by (relation "measure length") auto

definition trim_start :: "string \<Rightarrow> string" where
  "trim_start = strip_front white_space"

definition import_follows :: "string \<Rightarrow> bool" where
  "import_follows after \<longleftrightarrow>
     after = [] \<or> list_ex (starts_with after) (white_space @ [[CHR 0x22], [CHR 0x27], ''{'', ''*''])"

definition segment_imports :: "string \<Rightarrow> string list" where
  "segment_imports segment =
     (let seg = trim_start segment in
      if seg = [] \<or> starts_with seg ''//'' \<or> \<not> starts_with seg ''import''
         \<or> \<not> import_follows (drop 6 seg) then []
      else quoted_paths seg)"

definition line_imports :: "string \<Rightarrow> string list" where
  "line_imports line =
     (let trimmed = trim_start line in
      if trimmed = [] \<or> starts_with trimmed ''//'' then []
      else concat (map segment_imports (split_on CHR '';'' trimmed)))"

definition extract_imports :: "string \<Rightarrow> string list" where
  "extract_imports content = concat (map line_imports (content_lines (strip_block_comments content)))"

subsection \<open>Normalized paths\<close>

definition normalize_step :: "path_component \<Rightarrow> path_component list \<Rightarrow> path_component list" where
  "normalize_step c cs =
     (case c of
        Parent_Dir \<Rightarrow>
          if cs \<noteq> [] \<and> (case last cs of Normal_Dir _ \<Rightarrow> True | Parent_Dir \<Rightarrow> True | _ \<Rightarrow> False) then butlast cs
          else if cs = [] \<or> last cs \<noteq> Root_Dir then cs @ [Parent_Dir]
          else cs
      | Cur_Dir \<Rightarrow> cs
      | _ \<Rightarrow> cs @ [c])"

definition normalize_path :: "string \<Rightarrow> path_component list" where
  "normalize_path p = fold normalize_step (path_components p) []"

subsection \<open>The walk\<close>

record source_resolver =
  sr_root :: string
  sr_remappings :: remap_resolver

definition source_resolver_new :: source_resolver where
  "source_resolver_new =
     \<lparr>sr_root = ''.'', sr_remappings = \<lparr>mr_root = ''.'', mr_remappings = []\<rparr>\<rparr>"

definition with_root :: "source_fs \<Rightarrow> string \<Rightarrow> source_resolver \<Rightarrow> source_resolver" where
  "with_root fs root sr =
     sr\<lparr>sr_root := (case sf_canonicalize fs root of None \<Rightarrow> root | Some cs \<Rightarrow> components_path cs)\<rparr>"

definition canonical_source :: "source_fs \<Rightarrow> string \<Rightarrow> path_component list" where
  "canonical_source fs p = (case sf_canonicalize fs p of None \<Rightarrow> normalize_path p | Some cs \<Rightarrow> cs)"

definition source_key :: "source_resolver \<Rightarrow> path_component list \<Rightarrow> path_component list" where
  "source_key sr c = (case strip_prefix (path_components (sr_root sr)) c of None \<Rightarrow> c | Some k \<Rightarrow> k)"

definition parent_path :: "path_component list \<Rightarrow> string" where
  "parent_path c = (if c = [] \<or> last c = Root_Dir then ''.'' else components_path (butlast c))"

definition import_target :: "source_fs \<Rightarrow> source_resolver \<Rightarrow> string \<Rightarrow> string \<Rightarrow> string option" where
  "import_target fs sr parent imp =
     (let import_path = path_join parent imp;
          normalized = components_path (normalize_path import_path)
      in if sf_is_file fs normalized then Some normalized
         else case (case sf_canonicalize fs import_path of
                      None \<Rightarrow> None
                    | Some c \<Rightarrow> if sf_is_file fs (components_path c) then Some (components_path c) else None) of
           Some p \<Rightarrow> Some p
         | None \<Rightarrow>
             (case (case remap_resolve (sr_remappings sr) imp of
                      None \<Rightarrow> None
                    | Some remapped \<Rightarrow> if sf_is_file fs remapped then Some remapped else None) of
                Some p \<Rightarrow> Some p
              | None \<Rightarrow> if sf_is_file fs imp then Some imp else None))"

definition import_targets :: "source_fs \<Rightarrow> source_resolver \<Rightarrow> path_component list \<Rightarrow> string \<Rightarrow> string list" where
  "import_targets fs sr c content =
     List.map_filter (import_target fs sr (parent_path c)) (extract_imports content)"

text \<open>The stack has its top first. The error is the path of the source that could not be read.\<close>

type_synonym sources = "path_component list \<rightharpoonup> string"

partial_function (option) resolve_loop ::
  "source_fs \<Rightarrow> source_resolver \<Rightarrow> string list \<Rightarrow> path_component list set \<Rightarrow> sources
    \<Rightarrow> (path_component list + sources) option" where
  "resolve_loop fs sr stack visited sources =
     (case stack of
        [] \<Rightarrow> Some (Inr sources)
      | path # rest \<Rightarrow>
          let c = canonical_source fs path in
          if c \<in> visited then resolve_loop fs sr rest visited sources
          else case sf_read fs (components_path c) of
            None \<Rightarrow> Some (Inl c)
          | Some content \<Rightarrow>
              resolve_loop fs sr (rev (import_targets fs sr c content) @ rest) (insert c visited)
                (sources(source_key sr c \<mapsto> content)))"

definition resolve_sources ::
  "source_fs \<Rightarrow> source_resolver \<Rightarrow> string \<Rightarrow> (path_component list + sources) option" where
  "resolve_sources fs sr target = resolve_loop fs sr [target] {} Map.empty"

subsection \<open>The import closure\<close>

inductive import_reachable :: "source_fs \<Rightarrow> source_resolver \<Rightarrow> string \<Rightarrow> path_component list \<Rightarrow> bool"
  for fs sr target where
  target: "import_reachable fs sr target (canonical_source fs target)"
| imported: "import_reachable fs sr target c \<Longrightarrow> sf_read fs (components_path c) = Some content
    \<Longrightarrow> p \<in> set (import_targets fs sr c content) \<Longrightarrow> import_reachable fs sr target (canonical_source fs p)"

text \<open>
  What the walk relies on of the file system: it has finitely many files, every file has a canonical
  path, and canonical paths are absolute.
\<close>

definition absolute_path :: "path_component list \<Rightarrow> bool" where
  "absolute_path c \<longleftrightarrow> (\<exists>ds. c = Root_Dir # ds \<and> Root_Dir \<notin> set ds)"

definition fs_ok :: "source_fs \<Rightarrow> bool" where
  "fs_ok fs \<longleftrightarrow>
     (\<forall>p c. sf_canonicalize fs p = Some c \<longrightarrow> absolute_path c)
     \<and> (\<forall>p. sf_is_file fs p \<longrightarrow> sf_canonicalize fs p \<noteq> None)
     \<and> finite (ran (sf_canonicalize fs))"

lemma import_target_is_file: "import_target fs sr parent imp = Some p \<Longrightarrow> sf_is_file fs p"
  by (auto simp: import_target_def Let_def split: if_splits option.splits)

lemma import_targets_canonical:
  assumes "fs_ok fs" and "p \<in> set (import_targets fs sr c content)"
  shows "canonical_source fs p \<in> ran (sf_canonicalize fs)"
proof -
  from assms(2) have "sf_is_file fs p"
    by (auto simp: import_targets_def set_map_filter intro: import_target_is_file)
  with assms(1) show ?thesis
    by (auto simp: fs_ok_def canonical_source_def ran_def split: option.splits)
qed

lemma reachable_canonical:
  assumes "fs_ok fs" and "sf_canonicalize fs target \<noteq> None" and "import_reachable fs sr target c"
  shows "c \<in> ran (sf_canonicalize fs)"
  using assms(3)
proof induction
  case target
  from assms(2) show ?case by (auto simp: canonical_source_def ran_def)
next
  case (imported c content p)
  then show ?case using import_targets_canonical [OF assms(1)] by blast
qed

lemma source_key_inj:
  assumes "absolute_path c" and "absolute_path d" and "source_key sr c = source_key sr d"
  shows "c = d"
proof -
  have rel: "e = [] \<or> hd e \<noteq> Root_Dir" if "Root_Dir # ds = r @ e" "r \<noteq> []" "Root_Dir \<notin> set ds" for r e ds
    using that by (cases r; cases e) auto
  show ?thesis
    using assms rel by (cases "path_components (sr_root sr) = []")
      (auto simp: source_key_def strip_prefix_Some absolute_path_def split: option.splits; metis list.sel(1) list.distinct(1))+
qed

text \<open>
  The invariant of the walk: what is visited was read and recorded under its key, and an import of a
  visited source is visited or still on the stack.
\<close>

definition walk_inv ::
  "source_fs \<Rightarrow> source_resolver \<Rightarrow> string \<Rightarrow> string list \<Rightarrow> path_component list set \<Rightarrow> sources \<Rightarrow> bool" where
  "walk_inv fs sr target stack visited srcs \<longleftrightarrow>
     (\<forall>p \<in> set stack. import_reachable fs sr target (canonical_source fs p))
     \<and> (\<forall>c \<in> visited. import_reachable fs sr target c \<and> sf_read fs (components_path c) \<noteq> None)
     \<and> canonical_source fs target \<in> visited \<union> canonical_source fs ` set stack
     \<and> (\<forall>c \<in> visited. \<forall>content p. sf_read fs (components_path c) = Some content
          \<longrightarrow> p \<in> set (import_targets fs sr c content)
          \<longrightarrow> canonical_source fs p \<in> visited \<union> canonical_source fs ` set stack)
     \<and> (\<forall>k text. srcs k = Some text \<longleftrightarrow>
          (\<exists>c \<in> visited. source_key sr c = k \<and> sf_read fs (components_path c) = Some text))"

definition walk_result ::
  "source_fs \<Rightarrow> source_resolver \<Rightarrow> string \<Rightarrow> (path_component list + sources) option \<Rightarrow> bool" where
  "walk_result fs sr target r \<longleftrightarrow>
     (case r of
        None \<Rightarrow> False
      | Some (Inl c) \<Rightarrow> import_reachable fs sr target c \<and> sf_read fs (components_path c) = None
      | Some (Inr srcs) \<Rightarrow>
          (\<forall>c. import_reachable fs sr target c \<longrightarrow> sf_read fs (components_path c) \<noteq> None)
          \<and> (\<forall>k text. srcs k = Some text \<longleftrightarrow>
               (\<exists>c. import_reachable fs sr target c \<and> source_key sr c = k
                  \<and> sf_read fs (components_path c) = Some text)))"

lemma walk_done:
  assumes "walk_inv fs sr target [] visited srcs"
  shows "walk_result fs sr target (Some (Inr srcs))"
proof -
  have "c \<in> visited" if "import_reachable fs sr target c" for c
    using that
  proof induction
    case target
    from assms show ?case by (simp add: walk_inv_def)
  next
    case (imported c content p)
    with assms show ?case by (auto simp: walk_inv_def)
  qed
  with assms show ?thesis by (auto simp: walk_result_def walk_inv_def)
qed

lemma walk_skip:
  assumes "walk_inv fs sr target (p # rest) visited srcs" and "canonical_source fs p \<in> visited"
  shows "walk_inv fs sr target rest visited srcs"
proof -
  from assms(2) have "visited \<union> canonical_source fs ` set (p # rest) = visited \<union> canonical_source fs ` set rest"
    by auto
  with assms(1) show ?thesis unfolding walk_inv_def by (elim conjE, intro conjI) simp_all
qed

lemma walk_visit:
  assumes ok: "fs_ok fs" "sf_canonicalize fs target \<noteq> None"
    and inv: "walk_inv fs sr target (p # rest) visited srcs" and c: "c = canonical_source fs p"
    and content: "sf_read fs (components_path c) = Some content" and new: "c \<notin> visited"
  shows "walk_inv fs sr target (rev (import_targets fs sr c content) @ rest) (insert c visited)
    (srcs(source_key sr c \<mapsto> content))"
proof -
  have abs: "absolute_path d" if "import_reachable fs sr target d" for d
    using reachable_canonical [OF ok that] ok(1) by (auto simp: fs_ok_def ran_def)
  have reach: "import_reachable fs sr target c" using inv c by (simp add: walk_inv_def)
  have key: "source_key sr d \<noteq> source_key sr c" if "d \<in> visited" for d
  proof
    assume "source_key sr d = source_key sr c"
    moreover from inv that have "import_reachable fs sr target d" by (simp add: walk_inv_def)
    ultimately have "d = c" using source_key_inj abs reach by blast
    with new that show False by simp
  qed
  have targets: "\<forall>q \<in> set (import_targets fs sr c content). import_reachable fs sr target (canonical_source fs q)"
    using imported [OF reach content] by blast
  from inv have srcs: "\<forall>k text. srcs k = Some text \<longleftrightarrow>
      (\<exists>d \<in> visited. source_key sr d = k \<and> sf_read fs (components_path d) = Some text)"
    by (simp add: walk_inv_def)
  have upd: "(srcs(source_key sr c \<mapsto> content)) k = Some t \<longleftrightarrow>
      (\<exists>d \<in> insert c visited. source_key sr d = k \<and> sf_read fs (components_path d) = Some t)" for k t
    using srcs key content by (cases "k = source_key sr c") auto
  let ?old = "visited \<union> canonical_source fs ` set (p # rest)"
  let ?new = "insert c visited \<union> canonical_source fs ` set (rev (import_targets fs sr c content) @ rest)"
  have grows: "?old \<subseteq> ?new" using c by auto
  have closed: "canonical_source fs q \<in> ?new"
    if "d \<in> insert c visited" "sf_read fs (components_path d) = Some t" "q \<in> set (import_targets fs sr d t)" for d t q
  proof (cases "d = c")
    case True
    with that content show ?thesis by auto
  next
    case False
    with that inv have "canonical_source fs q \<in> ?old" unfolding walk_inv_def by blast
    with grows show ?thesis by blast
  qed
  have "canonical_source fs target \<in> ?old" using inv by (simp add: walk_inv_def)
  with grows have "canonical_source fs target \<in> ?new" by blast
  moreover have "\<forall>q \<in> set (rev (import_targets fs sr c content) @ rest).
      import_reachable fs sr target (canonical_source fs q)"
    using inv targets by (auto simp: walk_inv_def)
  moreover have "\<forall>d \<in> insert c visited. import_reachable fs sr target d \<and> sf_read fs (components_path d) \<noteq> None"
    using inv reach content by (auto simp: walk_inv_def)
  ultimately show ?thesis unfolding walk_inv_def upd using closed by blast
qed

lemma resolve_loop_walk:
  assumes ok: "fs_ok fs" "sf_canonicalize fs target \<noteq> None"
  shows "walk_inv fs sr target stack visited srcs \<Longrightarrow>
    walk_result fs sr target (resolve_loop fs sr stack visited srcs)"
proof (induction "(card (ran (sf_canonicalize fs) - visited), length stack)"
    arbitrary: stack visited srcs rule: wf_induct_rule [OF wf_lex_prod [OF wf_less wf_less]])
  case 1
  show ?case
  proof (cases stack)
    case Nil
    with 1(2) walk_done show ?thesis by (subst resolve_loop.simps) simp
  next
    case (Cons p rest)
    let ?c = "canonical_source fs p"
    note inv = 1(2) [unfolded Cons]
    show ?thesis
    proof (cases "?c \<in> visited")
      case True
      have "walk_result fs sr target (resolve_loop fs sr rest visited srcs)"
        by (rule 1(1)) (use Cons walk_skip [OF inv True] in simp_all)
      with Cons True show ?thesis by (subst resolve_loop.simps) simp
    next
      case False
      from inv have reach: "import_reachable fs sr target ?c" by (simp add: walk_inv_def)
      show ?thesis
      proof (cases "sf_read fs (components_path ?c)")
        case None
        with Cons False reach show ?thesis by (subst resolve_loop.simps) (simp add: walk_result_def)
      next
        case (Some content)
        have "card (ran (sf_canonicalize fs) - insert ?c visited) < card (ran (sf_canonicalize fs) - visited)"
          using ok(1) reachable_canonical [OF ok reach] False
          by (intro psubset_card_mono) (auto simp: fs_ok_def)
        then have "walk_result fs sr target (resolve_loop fs sr (rev (import_targets fs sr ?c content) @ rest)
            (insert ?c visited) (srcs(source_key sr ?c \<mapsto> content)))"
          by (intro 1(1)) (use walk_visit [OF ok inv refl Some False] in simp_all)
        with Cons False Some show ?thesis by (subst resolve_loop.simps) (simp add: Let_def)
      qed
    qed
  qed
qed


text \<open>Two sources of a project that import each other.\<close>

definition demo_source_files :: "(string \<times> string) list" where
  "demo_source_files = [(''/p/A.sol'', ''import \"./B.sol\";''), (''/p/B.sol'', ''import \"./A.sol\";'')]"

definition demo_source_fs :: source_fs where
  "demo_source_fs =
     \<lparr>sf_canonicalize = (\<lambda>p. if p \<in> {''/p/A.sol'', ''/p/B.sol''} then Some (path_components p) else None),
      sf_is_file = (\<lambda>p. p \<in> {''/p/A.sol'', ''/p/B.sol''}), sf_read = map_of demo_source_files\<rparr>"

definition demo_resolver :: source_resolver where
  "demo_resolver = source_resolver_new\<lparr>sr_root := ''/p''\<rparr>"

lemma demo_paths:
  "path_components ''/p/A.sol'' = [Root_Dir, Normal_Dir ''p'', Normal_Dir ''A.sol'']"
  "path_components ''/p/B.sol'' = [Root_Dir, Normal_Dir ''p'', Normal_Dir ''B.sol'']"
  "path_components ''/p'' = [Root_Dir, Normal_Dir ''p'']"
  "components_path [Root_Dir, Normal_Dir ''p'', Normal_Dir ''A.sol''] = ''/p/A.sol''"
  "components_path [Root_Dir, Normal_Dir ''p'', Normal_Dir ''B.sol''] = ''/p/B.sol''"
  "parent_path [Root_Dir, Normal_Dir ''p'', Normal_Dir ''A.sol''] = ''/p''"
  "parent_path [Root_Dir, Normal_Dir ''p'', Normal_Dir ''B.sol''] = ''/p''"
  "components_path (normalize_path (path_join ''/p'' ''./A.sol'')) = ''/p/A.sol''"
  "components_path (normalize_path (path_join ''/p'' ''./B.sol'')) = ''/p/B.sol''"
  by code_simp+

lemma demo_lines_a:
  "strip_block_comments ''import \"./A.sol\";'' = ''import \"./A.sol\";''"
  "content_lines ''import \"./A.sol\";'' = [''import \"./A.sol\";'']"
  "trim_start ''import \"./A.sol\";'' = ''import \"./A.sol\";''"
  "split_on CHR '';'' ''import \"./A.sol\";'' = [''import \"./A.sol\"'', []]"
  "segment_imports ''import \"./A.sol\"'' = [''./A.sol'']"
  by code_simp+

lemma demo_lines_b:
  "strip_block_comments ''import \"./B.sol\";'' = ''import \"./B.sol\";''"
  "content_lines ''import \"./B.sol\";'' = [''import \"./B.sol\";'']"
  "trim_start ''import \"./B.sol\";'' = ''import \"./B.sol\";''"
  "split_on CHR '';'' ''import \"./B.sol\";'' = [''import \"./B.sol\"'', []]"
  "segment_imports ''import \"./B.sol\"'' = [''./B.sol'']"
  by code_simp+

lemma demo_imports:
  "extract_imports ''import \"./A.sol\";'' = [''./A.sol'']"
  "extract_imports ''import \"./B.sol\";'' = [''./B.sol'']"
proof -
  have nil: "segment_imports [] = []" by code_simp
  have no: "\<not> starts_with (CHR ''i'' # s) ''//''" for s by (simp add: starts_with_def)
  show "extract_imports ''import \"./A.sol\";'' = [''./A.sol'']"
    by (simp only: extract_imports_def demo_lines_a list.map concat.simps line_imports_def Let_def)
      (simp add: no nil)
  show "extract_imports ''import \"./B.sol\";'' = [''./B.sol'']"
    by (simp only: extract_imports_def demo_lines_b list.map concat.simps line_imports_def Let_def)
      (simp add: no nil)
qed

lemma demo_targets:
  "import_targets demo_source_fs demo_resolver [Root_Dir, Normal_Dir ''p'', Normal_Dir ''A.sol'']
     ''import \"./B.sol\";'' = [''/p/B.sol'']"
  "import_targets demo_source_fs demo_resolver [Root_Dir, Normal_Dir ''p'', Normal_Dir ''B.sol'']
     ''import \"./A.sol\";'' = [''/p/A.sol'']"
  by (simp_all add: import_targets_def demo_imports demo_paths List.map_filter_simps import_target_def
      demo_source_fs_def)

lemma demo_read:
  "sf_read demo_source_fs (components_path [Root_Dir, Normal_Dir ''p'', Normal_Dir ''A.sol''])
     = Some ''import \"./B.sol\";''"
  "sf_read demo_source_fs (components_path [Root_Dir, Normal_Dir ''p'', Normal_Dir ''B.sol''])
     = Some ''import \"./A.sol\";''"
  by (simp_all add: demo_source_fs_def demo_source_files_def demo_paths)

lemma demo_reachable:
  "import_reachable demo_source_fs demo_resolver ''/p/A.sol'' c \<longleftrightarrow>
     c \<in> {[Root_Dir, Normal_Dir ''p'', Normal_Dir ''A.sol''], [Root_Dir, Normal_Dir ''p'', Normal_Dir ''B.sol'']}"
    (is "?reach c \<longleftrightarrow> c \<in> {?a, ?b}")
proof
  have canonical: "canonical_source demo_source_fs ''/p/A.sol'' = ?a" "canonical_source demo_source_fs ''/p/B.sol'' = ?b"
    by (simp_all add: canonical_source_def demo_source_fs_def demo_paths)
  note read = demo_read
  show "c \<in> {?a, ?b}" if "?reach c"
    using that by induction (auto simp: canonical read demo_targets)
  have a: "?reach ?a" using import_reachable.target [of demo_source_fs demo_resolver "''/p/A.sol''"] by (simp add: canonical)
  have b: "?reach ?b"
    using import_reachable.imported [OF a read(1), of "''/p/B.sol''"] by (simp add: canonical demo_targets)
  show "?reach c" if "c \<in> {?a, ?b}" using that a b by auto
qed


subsection \<open>Imports that are not found\<close>

text \<open>
  The scanner looks at single lines and removes block comments before line comments. So an import that
  is written over several lines is not found, and a line comment that contains the start of a
  block comment hides the imports after it.
\<close>

lemma multi_line_imports_are_missed:
  "extract_imports (''import {'' @ [newline] @ ''  A'' @ [newline] @ ''} from \"./A.sol\";'') = []"
proof -
  let ?t = "''import {'' @ [newline] @ ''  A'' @ [newline] @ ''} from \"./A.sol\";''"
  have "strip_block_comments ?t = ?t" by code_simp
  moreover have "content_lines ?t = [''import {'', ''  A'', ''} from \"./A.sol\";'']" by code_simp
  ultimately have lines: "content_lines (strip_block_comments ?t) = [''import {'', ''  A'', ''} from \"./A.sol\";'']"
    by simp
  have first: "line_imports ''import {'' = []" by code_simp
  have parts: "trim_start ''  A'' = ''A''" "segment_imports ''A'' = []" "split_on CHR '';'' ''A'' = [''A'']"
    "trim_start ''} from \"./A.sol\";'' = ''} from \"./A.sol\";''" "segment_imports ''} from \"./A.sol\"'' = []"
    "segment_imports [] = []" "split_on CHR '';'' ''} from \"./A.sol\";'' = [''} from \"./A.sol\"'', []]"
    by code_simp+
  have "line_imports ''  A'' = []" "line_imports ''} from \"./A.sol\";'' = []"
    by (simp_all only: line_imports_def Let_def parts list.map concat.simps append_Nil if_cancel)
  with first lines show ?thesis by (simp add: extract_imports_def)
qed

lemma line_comments_hide_imports:
  "extract_imports (''// see src/*.sol'' @ [newline] @ ''import \"./A.sol\";'') = []"
proof -
  let ?t = "''// see src/*.sol'' @ [newline] @ ''import \"./A.sol\";''"
  have "strip_block_comments ?t = ''// see src      '' @ [newline] @ replicate 17 CHR '' ''" by code_simp
  moreover have "content_lines (''// see src      '' @ [newline] @ replicate 17 CHR '' '')
      = [''// see src      '', replicate 17 CHR '' '']" by code_simp
  ultimately have lines: "content_lines (strip_block_comments ?t) = [''// see src      '', replicate 17 CHR '' '']"
    by simp
  have "trim_start ''// see src      '' = ''// see src      ''" "starts_with ''// see src      '' ''//''"
    "trim_start (replicate 17 CHR '' '') = []" by code_simp+
  then have "line_imports ''// see src      '' = []" "line_imports (replicate 17 CHR '' '') = []"
    by (simp_all only: line_imports_def Let_def simp_thms if_True)
  with lines show ?thesis by (simp add: extract_imports_def)
qed

subsection \<open>Normalized paths\<close>

text \<open>
  On absolute paths normalization resolves every \<open>..\<close>, and a \<open>..\<close> at the root stays there. On relative
  paths a second leading \<open>..\<close> takes the first one away.
\<close>

lemma normalize_absolute:
  "fold normalize_step cs (Root_Dir # map Normal_Dir ns) = Root_Dir # ds \<Longrightarrow> Root_Dir \<notin> set cs \<Longrightarrow>
   \<exists>ms. ds = map Normal_Dir ms"
proof (induction cs arbitrary: ns)
  case (Cons c cs)
  show ?case
  proof (cases c)
    case (Normal_Dir n)
    with Cons show ?thesis using Cons.IH [of "ns @ [n]"] by (simp add: normalize_step_def)
  next
    case Parent_Dir
    show ?thesis
    proof (cases ns rule: rev_cases)
      case Nil
      with Cons Parent_Dir show ?thesis using Cons.IH [of "[]"] by (simp add: normalize_step_def)
    next
      case (snoc ms m)
      with Cons Parent_Dir show ?thesis using Cons.IH [of ms] by (simp add: normalize_step_def butlast_append)
    qed
  qed (use Cons in \<open>auto simp: normalize_step_def\<close>)
qed auto

lemma two_parents_vanish: "normalize_path ''../../a.sol'' = [Normal_Dir ''a.sol'']"
  by code_simp

end
