(* ===== verification/Solc_Exec.thy ===== *)
theory Solc_Exec
  imports Fork_Rpc Source_Text "HOL-Library.Multiset" "HOL-Library.List_Lexorder" "HOL-Library.Char_ord"
begin

section \<open>Running the compiler\<close>

text \<open>
  \<open>compilers/solc/exec.rs\<close>: the input of a compilation, its key in the cache of
  compilations, and the use of that cache. The compiler, the parser of its output and the hash
  of a JSON text are the parameter \<open>solc_ops\<close>. A hash map is a list, in the order the map gives; the
  serialized settings are a JSON value.
\<close>

subsection \<open>Keys of compilations\<close>

record solc_input =
  in_language :: json
  in_sources :: "(string \<times> json) list"
  in_settings :: json

fun canonicalize_keys :: "json \<Rightarrow> json" where
  "canonicalize_keys (J_Obj kvs) =
     J_Obj (sort_key fst (map (\<lambda>kv. (fst kv, canonicalize_keys (snd kv))) kvs))"
| "canonicalize_keys (J_Arr items) = J_Arr (map canonicalize_keys items)"
| "canonicalize_keys v = v"

text \<open>The sources are put in a sorted map first.\<close>

definition compile_json :: "string \<Rightarrow> solc_input \<Rightarrow> json" where
  "compile_json version inp =
     J_Obj [(''version'', J_Str version), (''language'', in_language inp),
            (''sources'', J_Obj (sort_key fst (in_sources inp))), (''settings'', in_settings inp)]"

text \<open>Two values that only differ in the order of the keys of objects; keys occur once.\<close>

inductive same_json :: "json \<Rightarrow> json \<Rightarrow> bool" where
  "same_json J_Null J_Null"
| "same_json (J_Bool b) (J_Bool b)"
| "same_json (J_Num n) (J_Num n)"
| "same_json (J_Str s) (J_Str s)"
| same_Arr: "list_all2 same_json xs ys \<Longrightarrow> same_json (J_Arr xs) (J_Arr ys)"
| same_Obj: "mset kvs' = mset kvs \<Longrightarrow> list_all2 (\<lambda>p q. fst p = fst q \<and> same_json (snd p) (snd q)) kvs' lvs
    \<Longrightarrow> same_json (J_Obj kvs) (J_Obj lvs)"

fun keys_once :: "json \<Rightarrow> bool" where
  "keys_once (J_Obj kvs) \<longleftrightarrow> distinct (map fst kvs) \<and> (\<forall>kv \<in> set kvs. keys_once (snd kv))"
| "keys_once (J_Arr items) \<longleftrightarrow> (\<forall>v \<in> set items. keys_once v)"
| "keys_once v \<longleftrightarrow> True"

lemma sort_key_unique:
  assumes "distinct (map fst xs)" and "mset xs = mset ys"
  shows "sort_key fst xs = sort_key fst ys"
proof (rule map_sorted_distinct_set_unique [where f = fst])
  have "set xs = set ys" using assms(2) by (rule mset_eq_setD)
  then show "set (sort_key fst xs) = set (sort_key fst ys)" by simp
  have "distinct (map fst ys)" using assms by (metis mset_eq_imp_distinct_iff mset_map)
  then show "distinct (map fst (sort_key fst ys))" by (simp add: distinct_map inj_on_def)
  show "inj_on fst (set (sort_key fst xs) \<union> set (sort_key fst ys))"
    using assms(1) \<open>set xs = set ys\<close> by (simp add: distinct_map)
  show "distinct (map fst (sort_key fst xs))" using assms(1) by (simp add: distinct_map inj_on_def)
qed simp_all

definition canonical_pair :: "string \<times> json \<Rightarrow> string \<times> json" where
  "canonical_pair kv = (fst kv, canonicalize_keys (snd kv))"

lemma same_canonical: "same_json v w \<Longrightarrow> keys_once v \<Longrightarrow> canonicalize_keys v = canonicalize_keys w"
proof (induction rule: same_json.induct)
  case (same_Arr xs ys)
  then have "map canonicalize_keys xs = map canonicalize_keys ys"
    by (auto simp: list_all2_conv_all_nth intro: nth_equalityI)
  then show ?case by simp
next
  case (same_Obj kvs' kvs lvs)
  have "set kvs' = set kvs" using same_Obj(1) by (rule mset_eq_setD)
  then have once: "\<forall>p \<in> set kvs'. keys_once (snd p)" using same_Obj(3) by simp
  have "map canonical_pair kvs' = map canonical_pair lvs"
    using same_Obj(2) once
    by (induction kvs' lvs rule: list_all2_induct) (simp_all add: canonical_pair_def)
  then have "mset (map canonical_pair kvs) = mset (map canonical_pair lvs)"
    using same_Obj(1) by (metis mset_map)
  moreover have "distinct (map fst (map canonical_pair kvs))"
    using same_Obj(3) by (simp add: canonical_pair_def comp_def)
  ultimately have "sort_key fst (map canonical_pair kvs) = sort_key fst (map canonical_pair lvs)"
    by (rule sort_key_unique [rotated])
  then show ?case by (simp add: canonical_pair_def [abs_def])
qed simp_all

lemma mset_map_reorder: "mset (map f xs) = mset zs \<Longrightarrow> \<exists>xs'. mset xs' = mset xs \<and> map f xs' = zs"
proof (induction zs arbitrary: xs)
  case (Cons z zs)
  have "set (map f xs) = set (z # zs)" using Cons.prems by (rule mset_eq_setD)
  then have "z \<in> f ` set xs" by simp
  then obtain x where x: "x \<in> set xs" "f x = z" by blast
  then obtain as bs where xs: "xs = as @ x # bs" by (auto dest: split_list)
  with Cons.prems x(2) have "mset (map f (as @ bs)) = mset zs" by simp
  from Cons.IH [OF this] obtain xs' where "mset xs' = mset (as @ bs)" "map f xs' = zs" by blast
  with xs x(2) have "mset (x # xs') = mset xs \<and> map f (x # xs') = z # zs" by simp
  then show ?case by (rule exI)
qed simp

lemma canonical_same: "canonicalize_keys v = canonicalize_keys w \<Longrightarrow> same_json v w"
proof (induction v arbitrary: w rule: canonicalize_keys.induct)
  case (1 kvs)
  from 1(2) obtain lvs where w: "w = J_Obj lvs" by (cases w) simp_all
  with 1(2) have "sort_key fst (map canonical_pair kvs) = sort_key fst (map canonical_pair lvs)"
    by (simp add: canonical_pair_def [abs_def])
  then have "mset (map canonical_pair kvs) = mset (map canonical_pair lvs)" by (metis mset_sort)
  from mset_map_reorder [OF this] obtain kvs' where kvs': "mset kvs' = mset kvs"
    "map canonical_pair kvs' = map canonical_pair lvs" by blast
  have "set kvs' = set kvs" using kvs'(1) by (rule mset_eq_setD)
  have "list_all2 (\<lambda>p q. fst p = fst q \<and> same_json (snd p) (snd q)) kvs' lvs"
    unfolding list_all2_conv_all_nth
  proof (intro conjI allI impI)
    show len: "length kvs' = length lvs" using kvs'(2) by (metis length_map)
    fix i assume i: "i < length kvs'"
    with kvs'(2) len have "canonical_pair (kvs' ! i) = canonical_pair (lvs ! i)" by (metis nth_map)
    moreover have "kvs' ! i \<in> set kvs" using i \<open>set kvs' = set kvs\<close> nth_mem by blast
    ultimately show "fst (kvs' ! i) = fst (lvs ! i)" "same_json (snd (kvs' ! i)) (snd (lvs ! i))"
      using 1(1) by (simp_all add: canonical_pair_def)
  qed
  with kvs'(1) w show ?case by (auto intro: same_Obj)
next
  case (2 items)
  from 2(2) obtain ws where w: "w = J_Arr ws" by (cases w) simp_all
  with 2(2) have eq: "map canonicalize_keys items = map canonicalize_keys ws" by simp
  have "list_all2 same_json items ws"
    unfolding list_all2_conv_all_nth
  proof (intro conjI allI impI)
    show len: "length items = length ws" using eq by (metis length_map)
    fix i assume i: "i < length items"
    with eq len have "canonicalize_keys (items ! i) = canonicalize_keys (ws ! i)" by (metis nth_map)
    with i show "same_json (items ! i) (ws ! i)" using 2(1) by simp
  qed
  with w show ?case by (auto intro: same_json.intros)
qed (case_tac w; auto intro: same_json.intros)+

text \<open>
  The key of a compilation stands for its content. Two compiler inputs are serialized to the same
  canonical text exactly when they agree up to the order in which hash maps give their entries.
\<close>

theorem canonical_keys_identify:
  assumes "keys_once v"
  shows "canonicalize_keys v = canonicalize_keys w \<longleftrightarrow> same_json v w"
  using same_canonical [OF _ assms] canonical_same by blast

theorem canonical_keys_identify_witness:
  "same_json (J_Obj [(''b'', J_Null), (''a'', J_Bool True)]) (J_Obj [(''a'', J_Bool True), (''b'', J_Null)])"
proof -
  have once: "keys_once (J_Obj [(''b'', J_Null), (''a'', J_Bool True)])" by simp
  have "canonicalize_keys (J_Obj [(''b'', J_Null), (''a'', J_Bool True)])
      = canonicalize_keys (J_Obj [(''a'', J_Bool True), (''b'', J_Null)])" by code_simp
  then show ?thesis by (rule canonical_keys_identify [OF once, THEN iffD1])
qed

subsection \<open>Compiling with a cache\<close>

record solc_message =
  ms_is_error :: bool
  ms_formatted :: "string option"
  ms_message :: string

datatype solc_error =
    Solc_Not_Installed
  | Solc_Not_Run
  | Solc_Unreadable string
  | Solc_Errors "string list"
  | Solc_Stderr string

text \<open>Running the compiler gives its standard output and error, or it could not be run.\<close>

record ('o, 'h) solc_ops =
  sx_sha :: "json \<Rightarrow> 'h"
  sx_installed :: "string \<Rightarrow> bool"
  sx_run :: "string \<Rightarrow> solc_input \<Rightarrow> (string \<times> string) option"
  sx_parse :: "string \<Rightarrow> 'o option"
  sx_messages :: "'o \<Rightarrow> solc_message list option"
  sx_nothing :: "'o \<Rightarrow> bool"

definition compile_key :: "('o, 'h) solc_ops \<Rightarrow> string \<Rightarrow> solc_input \<Rightarrow> 'h" where
  "compile_key SX version inp = sx_sha SX (canonicalize_keys (compile_json version inp))"

text \<open>The compiler wants the key \<open>viaIR\<close>.\<close>

definition rename_via_ir :: "json \<Rightarrow> json" where
  "rename_via_ir settings =
     (case settings of
        J_Obj kvs \<Rightarrow>
          (case map_of kvs ''viaIr'' of
             None \<Rightarrow> settings
           | Some v \<Rightarrow> J_Obj (filter (\<lambda>kv. fst kv \<noteq> ''viaIr'' \<and> fst kv \<noteq> ''viaIR'') kvs @ [(''viaIR'', v)]))
      | _ \<Rightarrow> settings)"

definition error_messages :: "('o, 'h) solc_ops \<Rightarrow> 'o \<Rightarrow> string list" where
  "error_messages SX parsed =
     (case sx_messages SX parsed of
        None \<Rightarrow> []
      | Some ms \<Rightarrow>
          map (\<lambda>m. case ms_formatted m of Some s \<Rightarrow> s | None \<Rightarrow> ms_message m) (filter ms_is_error ms))"

definition run_solc :: "('o, 'h) solc_ops \<Rightarrow> string \<Rightarrow> solc_input \<Rightarrow> solc_error + string \<times> 'o" where
  "run_solc SX version inp =
     (if \<not> sx_installed SX version then Inl Solc_Not_Installed
      else case sx_run SX version (inp\<lparr>in_settings := rename_via_ir (in_settings inp)\<rparr>) of
        None \<Rightarrow> Inl Solc_Not_Run
      | Some (stdout, stderr) \<Rightarrow>
      (case sx_parse SX stdout of
        None \<Rightarrow> Inl (Solc_Unreadable stdout)
      | Some parsed \<Rightarrow>
          if error_messages SX parsed \<noteq> [] then Inl (Solc_Errors (error_messages SX parsed))
          else if sx_nothing SX parsed \<and> trim_text stderr \<noteq> [] then Inl (Solc_Stderr (trim_text stderr))
          else Inr (stdout, parsed)))"

definition read_solc_cache :: "('o, 'h) solc_ops \<Rightarrow> ('h \<rightharpoonup> string) \<Rightarrow> 'h \<Rightarrow> 'o option" where
  "read_solc_cache SX cache key = (case cache key of None \<Rightarrow> None | Some content \<Rightarrow> sx_parse SX content)"

text \<open>The cache directory is a map from keys to texts; without a directory nothing is read or written.\<close>

definition solc_exec ::
  "('o, 'h) solc_ops \<Rightarrow> bool \<Rightarrow> string \<Rightarrow> solc_input \<Rightarrow> ('h \<rightharpoonup> string) \<Rightarrow> (solc_error + 'o) \<times> ('h \<rightharpoonup> string)" where
  "solc_exec SX cached version inp cache =
     (let key = compile_key SX version inp in
      case if cached then read_solc_cache SX cache key else None of
        Some parsed \<Rightarrow> (Inr parsed, cache)
      | None \<Rightarrow>
          (case run_solc SX version inp of
             Inl e \<Rightarrow> (Inl e, cache)
           | Inr (stdout, parsed) \<Rightarrow> (Inr parsed, if cached then cache(key \<mapsto> stdout) else cache)))"

text \<open>
  What the cache relies on: the hash tells canonical texts apart, and what the compiler does with an input does
  not depend on the order of the keys in its JSON form.
\<close>

definition solc_ok :: "('o, 'h) solc_ops \<Rightarrow> bool" where
  "solc_ok SX \<longleftrightarrow> inj (sx_sha SX)
     \<and> (\<forall>v i v' i'. canonicalize_keys (compile_json v i) = canonicalize_keys (compile_json v' i')
          \<longrightarrow> sx_run SX v (i\<lparr>in_settings := rename_via_ir (in_settings i)\<rparr>)
            = sx_run SX v' (i'\<lparr>in_settings := rename_via_ir (in_settings i')\<rparr>))"

definition cache_sound :: "('o, 'h) solc_ops \<Rightarrow> ('h \<rightharpoonup> string) \<Rightarrow> bool" where
  "cache_sound SX cache \<longleftrightarrow>
     (\<forall>key content. cache key = Some content \<longrightarrow>
        (\<exists>v i parsed. key = compile_key SX v i \<and> run_solc SX v i = Inr (content, parsed)))"

lemma compile_json_version:
  assumes "canonicalize_keys (compile_json v i) = canonicalize_keys (compile_json v' i')"
  shows "v = v'"
proof -
  define entries :: "string \<Rightarrow> solc_input \<Rightarrow> (string \<times> json) list" where
    "entries v i = [(''version'', J_Str v), (''language'', in_language i),
       (''sources'', J_Obj (sort_key fst (in_sources i))), (''settings'', in_settings i)]" for v i
  have "sort_key fst (map canonical_pair (entries v i)) = sort_key fst (map canonical_pair (entries v' i'))"
    using assms unfolding compile_json_def canonicalize_keys.simps(1) json.inject
    unfolding entries_def canonical_pair_def [abs_def] .
  then have "set (map canonical_pair (entries v i)) = set (map canonical_pair (entries v' i'))"
    by (metis set_sort)
  moreover have "(''version'', J_Str v) \<in> set (map canonical_pair (entries v i))"
    by (simp add: entries_def canonical_pair_def)
  ultimately have "(''version'', J_Str v) \<in> set (map canonical_pair (entries v' i'))" by simp
  then show ?thesis by (simp add: entries_def canonical_pair_def)
qed

lemma run_same_key:
  assumes "solc_ok SX" and "compile_key SX v i = compile_key SX v' i'"
  shows "run_solc SX v i = run_solc SX v' i'"
proof -
  from assms have eq: "canonicalize_keys (compile_json v i) = canonicalize_keys (compile_json v' i')"
    by (simp add: solc_ok_def compile_key_def inj_eq)
  with assms(1) have "sx_run SX v (i\<lparr>in_settings := rename_via_ir (in_settings i)\<rparr>)
      = sx_run SX v' (i'\<lparr>in_settings := rename_via_ir (in_settings i')\<rparr>)"
    unfolding solc_ok_def by blast
  with compile_json_version [OF eq] show ?thesis by (simp add: run_solc_def)
qed

lemma run_solc_parse: "run_solc SX v i = Inr (content, parsed) \<Longrightarrow> sx_parse SX content = Some parsed"
  by (auto simp: run_solc_def split: if_splits option.splits)

lemma cached_result:
  assumes "solc_ok SX" and "cache_sound SX cache"
  shows "fst (solc_exec SX cached v i cache) = (case run_solc SX v i of Inl e \<Rightarrow> Inl e | Inr r \<Rightarrow> Inr (snd r))"
proof (cases "cached \<and> cache (compile_key SX v i) \<noteq> None")
  case True
  then obtain content where c: "cache (compile_key SX v i) = Some content" by blast
  with assms(2) obtain v' i' parsed where
    "compile_key SX v i = compile_key SX v' i'" "run_solc SX v' i' = Inr (content, parsed)"
    unfolding cache_sound_def by blast
  with run_same_key [OF assms(1)] have run: "run_solc SX v i = Inr (content, parsed)" by metis
  with True c run_solc_parse [OF run] show ?thesis
    by (simp add: solc_exec_def read_solc_cache_def Let_def)
next
  case False
  then show ?thesis
    by (auto simp: solc_exec_def read_solc_cache_def Let_def split: sum.splits)
qed

lemma solc_exec_sound:
  assumes "cache_sound SX cache"
  shows "cache_sound SX (snd (solc_exec SX cached v i cache))"
proof (cases "run_solc SX v i")
  case (Inl e)
  with assms show ?thesis by (auto simp: solc_exec_def Let_def split: option.splits)
next
  case (Inr r)
  obtain content parsed where r: "r = (content, parsed)" by (cases r)
  have "cache_sound SX (cache(compile_key SX v i \<mapsto> content))"
    using assms Inr r unfolding cache_sound_def by auto
  with assms Inr r show ?thesis by (auto simp: solc_exec_def Let_def split: option.splits)
qed


definition demo_solc :: "(string, json) solc_ops" where
  "demo_solc = \<lparr>sx_sha = (\<lambda>v. v), sx_installed = (\<lambda>v. True), sx_run = (\<lambda>v i. Some (v, [])),
     sx_parse = Some, sx_messages = (\<lambda>out. None), sx_nothing = (\<lambda>out. False)\<rparr>"

definition demo_solc_input :: solc_input where
  "demo_solc_input = \<lparr>in_language = J_Str ''Solidity'', in_sources = [], in_settings = J_Obj []\<rparr>"


end
