(* ===== verification/Harness.thy ===== *)
theory Harness
  imports Chain Sol_Values Source_Text "HOL-Library.List_Lexorder" "HOL-Library.Char_ord" "HOL-Library.Multiset"
begin

section \<open>Harnesses\<close>

text \<open>
  \<open>cli/harness_id.rs\<close>, the rest of \<open>evm/chain/linker.rs\<close>, \<open>tester/harness.rs\<close> and \<open>maxer/harness.rs\<close>: the
  identifier of a harness, the libraries it links to, and the rules a compiled contract has to keep
  to be a harness of either mode. The hash maps of the compiler output are lists, in the order the
  maps give. Decoding an ABI is a parameter.
\<close>

subsection \<open>Identifiers\<close>

record harness_id =
  hi_path :: string
  hi_name :: string

datatype id_error =
    Id_Empty
  | Id_Empty_Part
  | Id_Colon
  | Id_Extension string

definition file_name :: "string \<Rightarrow> string option" where
  "file_name p =
     (case rev (path_components p) of
        Normal_Dir n # _ \<Rightarrow> Some n
      | _ \<Rightarrow> None)"

text \<open>The text before and after the last dot of a file name; a leading dot does not count.\<close>

definition split_at_dot :: "string \<Rightarrow> string \<times> string option" where
  "split_at_dot n =
     (case split_once CHR ''.'' (rev n) of
        None \<Rightarrow> (n, None)
      | Some (after, before) \<Rightarrow> if before = [] then (n, None) else (rev before, Some (rev after)))"

definition extension_is_sol :: "string \<Rightarrow> bool" where
  "extension_is_sol p \<longleftrightarrow> Option.bind (file_name p) (\<lambda>n. snd (split_at_dot n)) = Some ''sol''"

definition file_stem :: "string \<Rightarrow> string option" where
  "file_stem p = map_option (\<lambda>n. fst (split_at_dot n)) (file_name p)"

definition parse_harness_id :: "string \<Rightarrow> id_error + harness_id" where
  "parse_harness_id value_text =
     (let t = trim_text value_text in
      if t = [] then Inl Id_Empty
      else case split_once CHR '':'' t of
        Some (path, name) \<Rightarrow>
          if path = [] \<or> name = [] then Inl Id_Empty_Part
          else if CHR '':'' \<in> set name then Inl Id_Colon
          else if \<not> extension_is_sol path then Inl (Id_Extension path)
          else Inr \<lparr>hi_path = path, hi_name = name\<rparr>
      | None \<Rightarrow>
          if \<not> extension_is_sol t then Inl (Id_Extension t)
          else
            let stem = (case file_stem t of None \<Rightarrow> [] | Some s \<Rightarrow> s) in
            if stem = [] then Inl Id_Empty_Part else Inr \<lparr>hi_path = t, hi_name = stem\<rparr>)"

definition show_harness_id :: "harness_id \<Rightarrow> string" where
  "show_harness_id i = hi_path i @ '':'' @ hi_name i"

subsection \<open>Compiler output\<close>

record bytecode_output =
  bo_object :: "string option"
  bo_links :: "(string \<times> string list) list option"

record 'abi contract_output =
  co_abi :: "'abi option"
  co_evm :: "bytecode_output option option"

type_synonym 'abi compiled = "(string \<times> (string \<times> 'abi contract_output) list) list"

record 'abi solc_output =
  so_id :: harness_id
  so_compiled :: "'abi compiled"

datatype harness_error =
    Source_Not_Found
  | Contract_Not_Found "string list"
  | Abi_Missing
  | Abi_Invalid
  | Initcode_Missing
  | Initcode_Empty
  | Library_Source_Not_Found string
  | Library_Not_Found string
  | Library_Initcode_Missing string
  | Library_Initcode_Empty string
  | Constructor_Arguments
  | Constructor_Payable
  | Function_Arguments string
  | Function_Payable string
  | Invariants_Found "string list"
  | Value_Missing
  | Value_Overloads nat
  | Value_Mutability mutability
  | Value_Outputs
  | Value_Type string

definition find_source :: "'abi compiled \<Rightarrow> string \<Rightarrow> (string \<times> 'abi contract_output) list option" where
  "find_source cs path = map_option snd (find (\<lambda>s. path_components (fst s) = path_components path) cs)"

definition solc_contract :: "'abi solc_output \<Rightarrow> harness_error + 'abi contract_output" where
  "solc_contract out =
     (case find_source (so_compiled out) (hi_path (so_id out)) of
        None \<Rightarrow> Inl Source_Not_Found
      | Some named \<Rightarrow>
          (case map_of named (hi_name (so_id out)) of
             None \<Rightarrow> Inl (Contract_Not_Found (sort (map fst named)))
           | Some c \<Rightarrow> Inr c))"

definition co_bytecode :: "'abi contract_output \<Rightarrow> bytecode_output option" where
  "co_bytecode c = (case co_evm c of None \<Rightarrow> None | Some b \<Rightarrow> b)"

subsection \<open>Libraries\<close>

definition link_pairs :: "(string \<times> string list) list \<Rightarrow> (string \<times> string) list" where
  "link_pairs links = concat (map (\<lambda>(file, names). map (Pair file) names) links)"

fun resolve_all ::
  "(string \<Rightarrow> string \<Rightarrow> ('e + 'b) option) \<Rightarrow> (string \<times> string) list \<Rightarrow> ('e + 'b list) option" where
  "resolve_all f [] = Some (Inr [])"
| "resolve_all f (p # ps) =
     (case f (fst p) (snd p) of
        None \<Rightarrow> None
      | Some (Inl e) \<Rightarrow> Some (Inl e)
      | Some (Inr lib) \<Rightarrow>
          (case resolve_all f ps of
             None \<Rightarrow> None
           | Some (Inl e) \<Rightarrow> Some (Inl e)
           | Some (Inr libs) \<Rightarrow> Some (Inr (lib # libs))))"

text \<open>One library, with its links resolved by the first argument.\<close>

definition resolve_one ::
  "(string \<Rightarrow> string \<Rightarrow> (harness_error + lib_input) option) \<Rightarrow> 'abi compiled \<Rightarrow> string \<Rightarrow> string
    \<Rightarrow> (harness_error + lib_input) option" where
  "resolve_one nested cs file name =
     (let identifier = file @ '':'' @ name in
      case find_source cs file of
        None \<Rightarrow> Some (Inl (Library_Source_Not_Found file))
      | Some named \<Rightarrow>
      (case map_of named name of
        None \<Rightarrow> Some (Inl (Library_Not_Found identifier))
      | Some c \<Rightarrow>
      (case co_bytecode c of
        None \<Rightarrow> Some (Inl (Library_Initcode_Missing identifier))
      | Some b \<Rightarrow>
      (case bo_object b of
        None \<Rightarrow> Some (Inl (Library_Initcode_Missing identifier))
      | Some initcode \<Rightarrow>
          if initcode = [] then Some (Inl (Library_Initcode_Empty identifier))
          else case resolve_all nested (link_pairs (case bo_links b of None \<Rightarrow> [] | Some links \<Rightarrow> links)) of
            None \<Rightarrow> None
          | Some (Inl e) \<Rightarrow> Some (Inl e)
          | Some (Inr libs) \<Rightarrow> Some (Inr (Lib identifier initcode libs))))))"

text \<open>The fuel bounds the nesting of libraries; without it libraries that link each other recurse for ever.\<close>

fun resolve_library :: "nat \<Rightarrow> 'abi compiled \<Rightarrow> string \<Rightarrow> string \<Rightarrow> (harness_error + lib_input) option" where
  "resolve_library 0 cs file name = None"
| "resolve_library (Suc n) cs file name = resolve_one (resolve_library n cs) cs file name"

definition resolve_libraries :: "nat \<Rightarrow> 'abi solc_output \<Rightarrow> (harness_error + lib_input list) option" where
  "resolve_libraries n out =
     (case solc_contract out of
        Inl e \<Rightarrow> Some (Inl e)
      | Inr c \<Rightarrow>
          (case Option.bind (co_bytecode c) bo_links of
             None \<Rightarrow> Some (Inr [])
           | Some links \<Rightarrow> resolve_all (resolve_library n (so_compiled out)) (link_pairs links)))"

subsection \<open>The rules\<close>

text \<open>An ABI has its functions in the order of their names; a name stands for its overloads.\<close>

record harness_abi =
  ha_constructor :: "(nat \<times> mutability) option"
  ha_functions :: "(string \<times> abi_fn list) list"

definition abi_functions :: "harness_abi \<Rightarrow> abi_fn list" where
  "abi_functions abi = concat (map snd (ha_functions abi))"

definition is_invariant_fn :: "abi_fn \<Rightarrow> bool" where
  "is_invariant_fn f \<longleftrightarrow> starts_with (fn_name f) ''invariant_''"

definition first_named :: "harness_abi \<Rightarrow> string \<Rightarrow> abi_fn option" where
  "first_named abi name =
     (case map_of (ha_functions abi) name of
        Some (f # _) \<Rightarrow> Some f
      | _ \<Rightarrow> None)"

definition check_no_arguments :: "string \<Rightarrow> abi_fn \<Rightarrow> harness_error + unit" where
  "check_no_arguments name f =
     (if fn_inputs f \<noteq> [] then Inl (Function_Arguments name)
      else if fn_mutability f = Payable then Inl (Function_Payable name)
      else Inr ())"

definition capture_optional :: "harness_abi \<Rightarrow> string \<Rightarrow> harness_error + abi_fn option" where
  "capture_optional abi name =
     (case first_named abi name of
        None \<Rightarrow> Inr None
      | Some f \<Rightarrow> (case check_no_arguments name f of Inl e \<Rightarrow> Inl e | Inr _ \<Rightarrow> Inr (Some f)))"

definition check_constructor :: "harness_abi \<Rightarrow> harness_error + unit" where
  "check_constructor abi =
     (case ha_constructor abi of
        None \<Rightarrow> Inr ()
      | Some (inputs, mutability) \<Rightarrow>
          if inputs \<noteq> 0 then Inl Constructor_Arguments
          else if mutability = Payable then Inl Constructor_Payable
          else Inr ())"

record harness_parts =
  hp_abi :: harness_abi
  hp_initcode :: string
  hp_libraries :: "lib_input list"

definition extract_parts ::
  "nat \<Rightarrow> ('abi \<Rightarrow> harness_abi option) \<Rightarrow> 'abi solc_output \<Rightarrow> (harness_error + harness_parts) option" where
  "extract_parts n decode out =
     (case solc_contract out of
        Inl e \<Rightarrow> Some (Inl e)
      | Inr c \<Rightarrow>
      (case co_abi c of
        None \<Rightarrow> Some (Inl Abi_Missing)
      | Some items \<Rightarrow>
      (case decode items of
        None \<Rightarrow> Some (Inl Abi_Invalid)
      | Some abi \<Rightarrow>
      (case Option.bind (co_bytecode c) bo_object of
        None \<Rightarrow> Some (Inl Initcode_Missing)
      | Some initcode \<Rightarrow>
          if initcode = [] then Some (Inl Initcode_Empty)
          else case resolve_libraries n out of
            None \<Rightarrow> None
          | Some (Inl e) \<Rightarrow> Some (Inl e)
          | Some (Inr libs) \<Rightarrow>
              Some (Inr \<lparr>hp_abi = abi, hp_initcode = initcode, hp_libraries = libs\<rparr>)))))"

record test_harness =
  th_id :: harness_id
  th_parts :: harness_parts
  th_setup :: "abi_fn option"
  th_summary :: "abi_fn option"
  th_invariants :: "abi_fn list"
  th_handlers :: "abi_fn list"

definition sorted_invariants :: "harness_abi \<Rightarrow> abi_fn list" where
  "sorted_invariants abi = sort_key fn_name (filter is_invariant_fn (abi_functions abi))"

definition check_test_harness :: "harness_id \<Rightarrow> harness_parts \<Rightarrow> harness_error + test_harness" where
  "check_test_harness i parts =
     (let abi = hp_abi parts in
      case check_constructor abi of
        Inl e \<Rightarrow> Inl e
      | Inr _ \<Rightarrow>
      (case capture_optional abi ''setup'' of
        Inl e \<Rightarrow> Inl e
      | Inr setup \<Rightarrow>
      (case capture_optional abi ''summary'' of
        Inl e \<Rightarrow> Inl e
      | Inr summary \<Rightarrow>
      (case fold_res (\<lambda>f _. check_no_arguments (fn_name f) f) (sorted_invariants abi) () of
        Inl e \<Rightarrow> Inl e
      | Inr _ \<Rightarrow>
          Inr \<lparr>th_id = i, th_parts = parts, th_setup = setup, th_summary = summary,
               th_invariants = sorted_invariants abi,
               th_handlers = filter (\<lambda>f. fn_name f \<noteq> ''setup'' \<and> fn_name f \<noteq> ''summary'' \<and> \<not> is_invariant_fn f)
                 (abi_functions abi)\<rparr>))))"

definition test_harness_of ::
  "nat \<Rightarrow> ('abi \<Rightarrow> harness_abi option) \<Rightarrow> 'abi solc_output \<Rightarrow> (harness_error + test_harness) option" where
  "test_harness_of n decode out =
     (case extract_parts n decode out of
        None \<Rightarrow> None
      | Some (Inl e) \<Rightarrow> Some (Inl e)
      | Some (Inr parts) \<Rightarrow> Some (check_test_harness (so_id out) parts))"

record max_harness =
  xh_id :: harness_id
  xh_parts :: harness_parts
  xh_value :: abi_fn
  xh_setup :: "abi_fn option"
  xh_summary :: "abi_fn option"

definition check_value :: "harness_abi \<Rightarrow> harness_error + abi_fn" where
  "check_value abi =
     (case map_of (ha_functions abi) ''value'' of
        None \<Rightarrow> Inl Value_Missing
      | Some candidates \<Rightarrow>
          if length candidates \<noteq> 1 then Inl (Value_Overloads (length candidates))
          else
            let f = hd candidates in
            if fn_mutability f \<noteq> View \<and> fn_mutability f \<noteq> Pure then Inl (Value_Mutability (fn_mutability f))
            else if length (fn_outputs f) \<noteq> 1 then Inl Value_Outputs
            else if hd (fn_outputs f) \<noteq> ''uint256'' then Inl (Value_Type (hd (fn_outputs f)))
            else Inr f)"

definition check_max_harness :: "harness_id \<Rightarrow> harness_parts \<Rightarrow> harness_error + max_harness" where
  "check_max_harness i parts =
     (let abi = hp_abi parts;
          invariants = map fn_name (filter is_invariant_fn (abi_functions abi))
      in if invariants \<noteq> [] then Inl (Invariants_Found invariants)
         else case check_value abi of
           Inl e \<Rightarrow> Inl e
         | Inr v \<Rightarrow>
             Inr \<lparr>xh_id = i, xh_parts = parts, xh_value = v, xh_setup = first_named abi ''setup'',
                  xh_summary = first_named abi ''summary''\<rparr>)"

definition max_harness_of ::
  "nat \<Rightarrow> ('abi \<Rightarrow> harness_abi option) \<Rightarrow> 'abi solc_output \<Rightarrow> (harness_error + max_harness) option" where
  "max_harness_of n decode out =
     (case extract_parts n decode out of
        None \<Rightarrow> None
      | Some (Inl e) \<Rightarrow> Some (Inl e)
      | Some (Inr parts) \<Rightarrow> Some (check_max_harness (so_id out) parts))"

definition max_handlers :: "max_harness \<Rightarrow> abi_fn list" where
  "max_handlers h =
     filter (\<lambda>f. fn_name f \<noteq> ''value'' \<and> fn_name f \<noteq> ''setup'' \<and> fn_name f \<noteq> ''summary'')
       (abi_functions (hp_abi (xh_parts h)))"

definition harness_deploy_input :: "harness_parts \<Rightarrow> deploy_input" where
  "harness_deploy_input parts =
     (deploy_input_new (hp_initcode parts))\<lparr>di_libraries := hp_libraries parts\<rparr>"

end
