(* ===== verification/Harness_Rules.thy ===== *)
theory Harness_Rules
  imports Harness
begin

section \<open>What harnesses are\<close>

subsection \<open>Identifiers round trip\<close>

lemma split_on_not_Nil [simp]: "split_on c s \<noteq> []"
  by (induction c s rule: split_on.induct) (auto split: list.splits)

lemma split_on_chars: "p \<in> set (split_on c s) \<Longrightarrow> set p \<subseteq> set s"
proof (induction c s arbitrary: p rule: split_on.induct)
  case (2 c x xs)
  show ?case
  proof (cases "x = c")
    case True
    with 2 show ?thesis by auto
  next
    case False
    then obtain q qs where q: "split_on c xs = q # qs" "p = x # q \<or> p \<in> set qs"
      using 2(3) split_on_not_Nil [of c xs] by (cases "split_on c xs") (auto simp del: split_on_not_Nil)
    with 2(2) [OF False, of q] 2(2) [OF False, of p] show ?thesis by auto
  qed
qed simp

lemma file_name_chars: "file_name p = Some n \<Longrightarrow> set n \<subseteq> set p"
proof -
  assume "file_name p = Some n"
  then have "Normal_Dir n \<in> set (path_components p)"
    by (auto simp: file_name_def split: list.splits path_component.splits)
  then have "n \<in> set (split_on CHR ''/'' p)"
    by (auto simp: path_components_def Let_def name_component_def split: if_splits)
  then show ?thesis by (rule split_on_chars)
qed

lemma file_stem_chars: "file_stem p = Some s \<Longrightarrow> set s \<subseteq> set p"
proof -
  assume "file_stem p = Some s"
  then obtain n where n: "file_name p = Some n" "s = fst (split_at_dot n)" by (auto simp: file_stem_def)
  have "set (fst (split_at_dot n)) \<subseteq> set n"
    by (auto simp: split_at_dot_def split: option.splits if_splits dest!: split_once_Some arg_cong [of _ _ set])
  with n file_name_chars show ?thesis by blast
qed

lemma parse_trimmed: "parse_harness_id (trim_text s) = parse_harness_id s"
  by (simp add: parse_harness_id_def trim_text_trimmed [OF trimmed_trim_text])

text \<open>
  Harness identifiers round trip. The text of an identifier that was read is read as the same identifier. The
  only exception is a name that was taken from a path whose stem ends in a blank.
\<close>

theorem harness_ids_roundtrip:
  assumes parsed: "parse_harness_id s = Inr i" and stem: "CHR '':'' \<in> set (trim_text s) \<or> trimmed (hi_name i)"
  shows "parse_harness_id (show_harness_id i) = Inr i"
proof (cases "split_once CHR '':'' (trim_text s)")
  case (Some pn)
  then obtain path name where "split_once CHR '':'' (trim_text s) = Some (path, name)" by (cases pn) auto
  with parsed have "i = \<lparr>hi_path = path, hi_name = name\<rparr>" "trim_text s = path @ CHR '':'' # name"
    by (auto simp: parse_harness_id_def Let_def split: if_splits dest: split_once_Some)
  then have "show_harness_id i = trim_text s" by (simp add: show_harness_id_def)
  with parsed show ?thesis by (simp add: parse_trimmed)
next
  case None
  let ?t = "trim_text s"
  from None have no: "CHR '':'' \<notin> set ?t" by (simp add: split_once_None)
  with stem have name: "trimmed (hi_name i)" by blast
  from None parsed have t: "?t \<noteq> []" "extension_is_sol ?t" "hi_name i \<noteq> []" "hi_path i = ?t"
    "file_stem ?t = Some (hi_name i)"
    by (auto simp: parse_harness_id_def Let_def split: if_splits option.splits)
  have "trimmed (?t @ CHR '':'' # hi_name i)"
    using trimmed_around [of ?t "[]" "[]" "hi_name i" "CHR '':''"] trimmed_trim_text [of s] name by simp
  moreover have "CHR '':'' \<notin> set (hi_name i)" using file_stem_chars [OF t(5)] no by blast
  ultimately show ?thesis using t no
    by (cases i) (simp add: show_harness_id_def parse_harness_id_def trim_text_trimmed)
qed

theorem harness_ids_roundtrip_witness:
  "parse_harness_id (show_harness_id \<lparr>hi_path = ''src/A.sol'', hi_name = ''A''\<rparr>) = Inr \<lparr>hi_path = ''src/A.sol'', hi_name = ''A''\<rparr>"
proof -
  have "parse_harness_id ''src/A.sol:A'' = Inr \<lparr>hi_path = ''src/A.sol'', hi_name = ''A''\<rparr>"
    "CHR '':'' \<in> set (trim_text ''src/A.sol:A'')" by code_simp+
  from harness_ids_roundtrip [OF this(1)] this(2) show ?thesis by blast
qed

subsection \<open>Libraries\<close>

text \<open>The library a link stands for: the bytecode of the contract it names, with the libraries of its own links.\<close>

inductive library_for :: "'abi compiled \<Rightarrow> string \<Rightarrow> string \<Rightarrow> lib_input \<Rightarrow> bool" for cs where
  library_for:
    "find_source cs path = Some named \<Longrightarrow> map_of named name = Some c \<Longrightarrow> co_bytecode c = Some b
     \<Longrightarrow> bo_object b = Some code \<Longrightarrow> code \<noteq> []
     \<Longrightarrow> list_all2 (\<lambda>p l. library_for cs (fst p) (snd p) l)
          (link_pairs (case bo_links b of None \<Rightarrow> [] | Some links \<Rightarrow> links)) libs
     \<Longrightarrow> library_for cs path name (Lib (path @ '':'' @ name) code libs)"

lemma resolve_all_Inr:
  "resolve_all f ps = Some (Inr libs) \<longleftrightarrow> list_all2 (\<lambda>p l. f (fst p) (snd p) = Some (Inr l)) ps libs"
proof (induction ps arbitrary: libs)
  case (Cons p ps)
  show ?case by (auto simp: list_all2_Cons1 Cons.IH [symmetric] split: option.splits sum.splits)
qed auto

lemma resolve_all_mono:
  assumes "\<And>path name r. f path name = Some r \<Longrightarrow> g path name = Some r"
  shows "resolve_all f ps = Some r \<Longrightarrow> resolve_all g ps = Some r"
proof (induction ps arbitrary: r)
  case (Cons p ps)
  from Cons.prems obtain x where x: "f (fst p) (snd p) = Some x" by (auto split: option.splits)
  with assms have "g (fst p) (snd p) = Some x" by blast
  with Cons x show ?case by (auto split: option.splits sum.splits)
qed simp

lemma resolve_one_mono:
  assumes sub: "\<And>p m r. f p m = Some r \<Longrightarrow> g p m = Some r" and f: "resolve_one f cs path name = Some r"
  shows "resolve_one g cs path name = Some r"
proof -
  have all: "resolve_all g ps = Some x" if "resolve_all f ps = Some x" for ps x
    using resolve_all_mono [where f = f and g = g, OF sub that] .
  show ?thesis
    using f unfolding resolve_one_def Let_def
    by (simp split: option.split_asm option.split if_split_asm if_split) (auto dest: all)
qed

lemma resolve_library_Suc: "resolve_library n cs path name = Some r \<Longrightarrow> resolve_library (Suc n) cs path name = Some r"
proof (induction n arbitrary: path name r)
  case (Suc n)
  from Suc.prems show ?case
    unfolding resolve_library.simps(2) [of n] resolve_library.simps(2) [of "Suc n"]
    by (rule resolve_one_mono [rotated]) (use Suc.IH in simp)
qed simp

lemma resolve_library_mono:
  "resolve_library n cs path name = Some r \<Longrightarrow> n \<le> m \<Longrightarrow> resolve_library m cs path name = Some r"
  by (induction m) (auto simp: le_Suc_eq simp del: resolve_library.simps intro: resolve_library_Suc)

lemma resolve_library_sound:
  "resolve_library n cs path name = Some (Inr lib) \<Longrightarrow> library_for cs path name lib"
proof (induction n arbitrary: path name lib)
  case (Suc n)
  from Suc.prems obtain named c b code libs where
    step: "find_source cs path = Some named" "map_of named name = Some c" "co_bytecode c = Some b"
      "bo_object b = Some code" "code \<noteq> []" "lib = Lib (path @ '':'' @ name) code libs"
    and all: "resolve_all (resolve_library n cs) (link_pairs (case bo_links b of None \<Rightarrow> [] | Some links \<Rightarrow> links))
      = Some (Inr libs)"
    by (auto simp: resolve_one_def Let_def split: option.splits sum.splits if_splits)
  from all have "list_all2 (\<lambda>p l. library_for cs (fst p) (snd p) l)
      (link_pairs (case bo_links b of None \<Rightarrow> [] | Some links \<Rightarrow> links)) libs"
    unfolding resolve_all_Inr by (rule list_all2_mono) (rule Suc.IH)
  with step(1-5) show ?case unfolding step(6) by (intro library_for)
qed simp

lemma common_fuel:
  "list_all2 (\<lambda>p l. \<exists>n. resolve_library n cs (fst p) (snd p) = Some (Inr l)) ps libs \<Longrightarrow>
   \<exists>n. list_all2 (\<lambda>p l. resolve_library n cs (fst p) (snd p) = Some (Inr l)) ps libs"
proof (induction rule: list_all2_induct)
  case (Cons p ps l ls)
  then obtain n m where n: "resolve_library n cs (fst p) (snd p) = Some (Inr l)"
    and m: "list_all2 (\<lambda>p l. resolve_library m cs (fst p) (snd p) = Some (Inr l)) ps ls" by blast
  have "list_all2 (\<lambda>p l. resolve_library (max n m) cs (fst p) (snd p) = Some (Inr l)) ps ls"
    using m by (rule list_all2_mono) (erule resolve_library_mono, simp)
  with resolve_library_mono [OF n, of "max n m"] show ?case by auto
qed simp

lemma resolve_library_complete:
  "library_for cs path name lib \<Longrightarrow> \<exists>n. resolve_library n cs path name = Some (Inr lib)"
proof (induction rule: library_for.induct)
  case (library_for path named name c b code libs)
  then have "list_all2 (\<lambda>p l. \<exists>n. resolve_library n cs (fst p) (snd p) = Some (Inr l))
      (link_pairs (case bo_links b of None \<Rightarrow> [] | Some links \<Rightarrow> links)) libs"
    by (auto elim: list_all2_mono)
  from common_fuel [OF this] obtain n where
    "resolve_all (resolve_library n cs) (link_pairs (case bo_links b of None \<Rightarrow> [] | Some links \<Rightarrow> links)) = Some (Inr libs)"
    unfolding resolve_all_Inr by blast
  with library_for have "resolve_library (Suc n) cs path name = Some (Inr (Lib (path @ '':'' @ name) code libs))"
    by (simp add: resolve_one_def)
  then show ?case by blast
qed


subsection \<open>The rules of a test harness\<close>

text \<open>An ABI lists the functions of a name under that name, and every name once.\<close>

definition abi_ok :: "harness_abi \<Rightarrow> bool" where
  "abi_ok abi \<longleftrightarrow> distinct (map fst (ha_functions abi)) \<and> (\<forall>(n, fs) \<in> set (ha_functions abi). \<forall>f \<in> set fs. fn_name f = n)"

definition named :: "harness_abi \<Rightarrow> string \<Rightarrow> abi_fn list" where
  "named abi name = filter (\<lambda>f. fn_name f = name) (abi_functions abi)"

lemma named_map:
  assumes "abi_ok abi"
  shows "named abi name = (case map_of (ha_functions abi) name of None \<Rightarrow> [] | Some fs \<Rightarrow> fs)"
proof -
  have "filter (\<lambda>f. fn_name f = name) (concat (map snd xs)) = (case map_of xs name of None \<Rightarrow> [] | Some fs \<Rightarrow> fs)"
    if "distinct (map fst xs)" "\<forall>(n, fs) \<in> set xs. \<forall>f \<in> set fs. fn_name f = n" for xs :: "(string \<times> abi_fn list) list"
    using that
  proof (induction xs)
    case (Cons x xs)
    obtain n fs where x: "x = (n, fs)" by (cases x)
    with Cons have rest: "filter (\<lambda>f. fn_name f = name) (concat (map snd xs)) = (case map_of xs name of None \<Rightarrow> [] | Some fs \<Rightarrow> fs)"
      by simp
    have here: "filter (\<lambda>f. fn_name f = name) fs = (if n = name then fs else [])"
      using Cons.prems(2) x by (auto simp: filter_empty_conv intro: filter_True)
    show ?case
    proof (cases "n = name")
      case True
      with Cons.prems(1) x have "map_of xs name = None" by (auto simp: map_of_eq_None_iff)
      with True rest here x show ?thesis by simp
    next
      case False
      with rest here x show ?thesis by simp
    qed
  qed simp
  with assms show ?thesis by (simp add: abi_ok_def named_def abi_functions_def)
qed

lemma first_named_list:
  "abi_ok abi \<Longrightarrow> first_named abi name = (case named abi name of [] \<Rightarrow> None | f # _ \<Rightarrow> Some f)"
  by (auto simp: first_named_def named_map split: option.splits list.splits)

definition nullary :: "abi_fn \<Rightarrow> bool" where
  "nullary f \<longleftrightarrow> fn_inputs f = [] \<and> fn_mutability f \<noteq> Payable"

definition test_rules :: "harness_abi \<Rightarrow> bool" where
  "test_rules abi \<longleftrightarrow>
     (case ha_constructor abi of None \<Rightarrow> True | Some (inputs, m) \<Rightarrow> inputs = 0 \<and> m \<noteq> Payable)
     \<and> list_all nullary (take 1 (named abi ''setup'')) \<and> list_all nullary (take 1 (named abi ''summary''))
     \<and> list_all nullary (filter is_invariant_fn (abi_functions abi))"

lemma check_no_arguments_Inr: "check_no_arguments name f = Inr u \<longleftrightarrow> nullary f"
  by (simp add: check_no_arguments_def nullary_def)

lemma check_all_Inr:
  "fold_res (\<lambda>f _. check_no_arguments (fn_name f) f) fs u = Inr v \<longleftrightarrow> list_all nullary fs"
  by (induction fs arbitrary: u) (auto simp: check_no_arguments_def nullary_def split: sum.splits if_splits)

lemma capture_optional_Inr:
  assumes "abi_ok abi"
  shows "capture_optional abi name = Inr r \<longleftrightarrow>
    list_all nullary (take 1 (named abi name)) \<and> r = first_named abi name"
  by (cases "named abi name")
    (auto simp: capture_optional_def first_named_list [OF assms] check_no_arguments_def nullary_def)

lemma check_constructor_Inr:
  "check_constructor abi = Inr u \<longleftrightarrow>
     (case ha_constructor abi of None \<Rightarrow> True | Some (inputs, m) \<Rightarrow> inputs = 0 \<and> m \<noteq> Payable)"
  by (auto simp: check_constructor_def split: option.splits)

lemma list_all_sorted_invariants:
  "list_all nullary (sorted_invariants abi) \<longleftrightarrow> list_all nullary (filter is_invariant_fn (abi_functions abi))"
  by (simp add: sorted_invariants_def list_all_iff)

lemma check_test_harness_Inr:
  assumes "abi_ok (hp_abi parts)"
  shows "check_test_harness i parts = Inr h \<longleftrightarrow> test_rules (hp_abi parts)
    \<and> h = \<lparr>th_id = i, th_parts = parts, th_setup = first_named (hp_abi parts) ''setup'',
        th_summary = first_named (hp_abi parts) ''summary'', th_invariants = sorted_invariants (hp_abi parts),
        th_handlers = filter (\<lambda>f. fn_name f \<noteq> ''setup'' \<and> fn_name f \<noteq> ''summary'' \<and> \<not> is_invariant_fn f)
          (abi_functions (hp_abi parts))\<rparr>"
  (is "?L \<longleftrightarrow> ?R")
proof
  assume ?L
  then obtain a b c d where
    "check_constructor (hp_abi parts) = Inr a" "capture_optional (hp_abi parts) ''setup'' = Inr b"
    "capture_optional (hp_abi parts) ''summary'' = Inr c"
    "fold_res (\<lambda>f _. check_no_arguments (fn_name f) f) (sorted_invariants (hp_abi parts)) () = Inr d"
    by (auto simp: check_test_harness_def Let_def split: sum.splits)
  with \<open>?L\<close> show ?R
    by (simp add: check_test_harness_def Let_def)
      (simp add: check_constructor_Inr capture_optional_Inr [OF assms] check_all_Inr list_all_sorted_invariants test_rules_def)
next
  assume ?R
  then have "check_constructor (hp_abi parts) = Inr ()"
    "capture_optional (hp_abi parts) ''setup'' = Inr (first_named (hp_abi parts) ''setup'')"
    "capture_optional (hp_abi parts) ''summary'' = Inr (first_named (hp_abi parts) ''summary'')"
    "fold_res (\<lambda>f _. check_no_arguments (fn_name f) f) (sorted_invariants (hp_abi parts)) () = Inr ()"
    by (simp_all add: check_constructor_Inr capture_optional_Inr [OF assms] check_all_Inr
        list_all_sorted_invariants test_rules_def)
  with \<open>?R\<close> show ?L by (simp add: check_test_harness_def Let_def)
qed

lemma invariant_not_reserved: "is_invariant_fn f \<Longrightarrow> fn_name f \<noteq> ''setup'' \<and> fn_name f \<noteq> ''summary''"
  by (auto simp: is_invariant_fn_def starts_with_def)

lemma mset_three:
  assumes "\<And>x. P x \<Longrightarrow> \<not> Q x"
  shows "mset (filter (\<lambda>x. \<not> Q x \<and> \<not> P x) xs) + mset (filter P xs) + mset (filter Q xs) = mset xs"
  by (induction xs) (use assms in auto)


definition demo_fn_named :: "string \<Rightarrow> abi_fn" where
  "demo_fn_named name = (demo_fn 0)\<lparr>fn_name := name\<rparr>"

definition demo_harness_abi :: harness_abi where
  "demo_harness_abi =
     \<lparr>ha_constructor = None,
      ha_functions = map (\<lambda>n. (n, [demo_fn_named n])) [''deposit'', ''invariant_a'', ''setup'']\<rparr>"

definition demo_harness_parts :: harness_parts where
  "demo_harness_parts = \<lparr>hp_abi = demo_harness_abi, hp_initcode = ''6080'', hp_libraries = []\<rparr>"

definition demo_id :: harness_id where
  "demo_id = \<lparr>hi_path = ''src/A.sol'', hi_name = ''A''\<rparr>"


subsection \<open>The rules of a max harness\<close>

definition max_rules :: "harness_abi \<Rightarrow> bool" where
  "max_rules abi \<longleftrightarrow>
     list_all (\<lambda>f. \<not> is_invariant_fn f) (abi_functions abi)
     \<and> length (named abi ''value'') = 1
     \<and> list_all (\<lambda>v. fn_mutability v \<in> {View, Pure} \<and> fn_outputs v = [''uint256'']) (named abi ''value'')"

lemma check_value_Inr:
  assumes "abi_ok abi"
  shows "check_value abi = Inr v \<longleftrightarrow>
    named abi ''value'' = [v] \<and> fn_mutability v \<in> {View, Pure} \<and> fn_outputs v = [''uint256'']"
  unfolding named_map [OF assms] check_value_def
  by (auto simp: Let_def length_Suc_conv split: option.splits)

text \<open>
  The rules of a max harness. A contract is accepted exactly when it has no invariants and exactly one
  function named value, which is view or pure and returns one uint256. That function is the
  objective, and the handlers are all functions but the objective, setup and summary.
\<close>

theorem max_harness_rules:
  assumes "abi_ok (hp_abi parts)"
  shows "case check_max_harness i parts of
      Inl e \<Rightarrow> \<not> max_rules (hp_abi parts)
    | Inr h \<Rightarrow> max_rules (hp_abi parts)
        \<and> named (hp_abi parts) ''value'' = [xh_value h]
        \<and> fn_mutability (xh_value h) \<in> {View, Pure} \<and> fn_outputs (xh_value h) = [''uint256'']
        \<and> mset (max_handlers h) + {#xh_value h#}
            + mset (filter (\<lambda>f. fn_name f \<in> {''setup'', ''summary''}) (abi_functions (hp_abi parts)))
          = mset (abi_functions (hp_abi parts))"
proof (cases "check_max_harness i parts")
  case (Inl e)
  then have "\<not> (list_all (\<lambda>f. \<not> is_invariant_fn f) (abi_functions (hp_abi parts))
      \<and> (\<exists>v. check_value (hp_abi parts) = Inr v))"
    by (auto simp: check_max_harness_def Let_def list_all_iff filter_empty_conv split: if_splits sum.splits)
  with Inl show ?thesis
    by (auto simp: max_rules_def check_value_Inr [OF assms] length_Suc_conv)
next
  case (Inr h)
  let ?fs = "abi_functions (hp_abi parts)"
  from Inr obtain v where none: "list_all (\<lambda>f. \<not> is_invariant_fn f) ?fs"
    and v: "check_value (hp_abi parts) = Inr v" "xh_value h = v" "xh_parts h = parts"
    by (auto simp: check_max_harness_def Let_def list_all_iff filter_empty_conv split: if_splits sum.splits)
  have "mset (filter (\<lambda>f. \<not> fn_name f \<in> {''setup'', ''summary''} \<and> \<not> fn_name f = ''value'') ?fs)
      + mset (filter (\<lambda>f. fn_name f = ''value'') ?fs) + mset (filter (\<lambda>f. fn_name f \<in> {''setup'', ''summary''}) ?fs) = mset ?fs"
    by (rule mset_three) auto
  moreover from v(1) have "filter (\<lambda>f. fn_name f = ''value'') ?fs = [v]"
    by (simp add: check_value_Inr [OF assms] named_def)
  moreover have "max_handlers h = filter (\<lambda>f. \<not> fn_name f \<in> {''setup'', ''summary''} \<and> \<not> fn_name f = ''value'') ?fs"
    unfolding max_handlers_def v(3) by (rule filter_cong) auto
  ultimately have split: "mset (max_handlers h) + {#v#}
      + mset (filter (\<lambda>f. fn_name f \<in> {''setup'', ''summary''}) ?fs) = mset ?fs" by simp
  from v(1) none have "max_rules (hp_abi parts)"
    by (simp add: max_rules_def check_value_Inr [OF assms])
  with Inr v split show ?thesis by (simp add: check_value_Inr [OF assms])
qed

definition demo_max_parts :: harness_parts where
  "demo_max_parts =
     \<lparr>hp_abi = \<lparr>ha_constructor = None, ha_functions =
        [(''deposit'', [demo_fn_named ''deposit'']),
         (''value'', [(demo_fn_named ''value'')\<lparr>fn_mutability := View, fn_outputs := [''uint256'']\<rparr>])]\<rparr>,
      hp_initcode = ''6080'', hp_libraries = []\<rparr>"

theorem max_harness_rules_witness:
  "\<exists>h. check_max_harness demo_id demo_max_parts = Inr h \<and> mset (max_handlers h) = {#demo_fn_named ''deposit''#}"
proof -
  let ?v = "(demo_fn_named ''value'')\<lparr>fn_mutability := View, fn_outputs := [''uint256'']\<rparr>"
  have names: "fn_name (demo_fn_named n) = n" for n by (simp add: demo_fn_named_def)
  have fs: "abi_functions (hp_abi demo_max_parts) = [demo_fn_named ''deposit'', ?v]"
    by (simp add: abi_functions_def demo_max_parts_def)
  have ok: "abi_ok (hp_abi demo_max_parts)" by (simp add: abi_ok_def demo_max_parts_def names)
  have "max_rules (hp_abi demo_max_parts)"
    by (simp add: max_rules_def named_def fs names is_invariant_fn_def starts_with_def)
  with max_harness_rules [OF ok, of demo_id] obtain h where h: "check_max_harness demo_id demo_max_parts = Inr h"
    and parts: "named (hp_abi demo_max_parts) ''value'' = [xh_value h]"
      "mset (max_handlers h) + {#xh_value h#}
         + mset (filter (\<lambda>f. fn_name f \<in> {''setup'', ''summary''}) (abi_functions (hp_abi demo_max_parts)))
       = mset (abi_functions (hp_abi demo_max_parts))"
    by (cases "check_max_harness demo_id demo_max_parts") simp_all
  from parts(1) have "xh_value h = ?v" by (simp add: named_def fs names)
  with parts(2) have "mset (max_handlers h) = {#demo_fn_named ''deposit''#}" by (simp add: fs names)
  with h show ?thesis by blast
qed

end
